(* ===== verification/Rabi_Prelude.thy ===== *)
theory Rabi_Prelude
  imports Complex_Main "HOL-Library.AList" "HOL-Library.Sublist"
    "HOL-Library.List_Lexorder" "HOL-Library.Char_ord" "HOL-Library.Multiset" "HOL-Library.Product_Lexorder"
begin

text \<open>
  Shared vocabulary of the development: the Go scalar types, the clock, the few functions of
  Go's \<open>strings\<close>, \<open>slices\<close> and \<open>sort\<close> packages the sources call, and keyed tables, which stand
  for the PostgreSQL tables with a primary key. Every component imports this theory.

  Conventions. A \<open>float64\<close> is an exact real: rounding, NaN and the infinities are outside the
  model. A \<open>time.Time\<close> is the number of nanoseconds since the Unix epoch and a \<open>time.Duration\<close>
  a number of nanoseconds. A Go string is a list of bytes and \<open><\<close> on strings is Go's bytewise
  lexicographic order.
\<close>

named_theorems store_simps \<open>unfolding of the store's operations\<close>
named_theorems sched_simps \<open>unfolding of the scheduler's operations\<close>
named_theorems json_simps \<open>lookup and update in JSON objects\<close>

section \<open>Scalars and the clock\<close>

type_synonym float64 = real
type_synonym time = int
type_synonym duration = int

definition max_duration :: duration where
  "max_duration = 9223372036854775807"

definition min_duration :: duration where
  "min_duration = -9223372036854775808"

text \<open>\<open>time.Time{}\<close>, 1 January of year 1, in nanoseconds since the Unix epoch.\<close>

definition zero_time :: time where
  "zero_time = -62135596800000000000"

definition IsZero :: "time \<Rightarrow> bool" where
  "IsZero t \<longleftrightarrow> t = zero_time"

text \<open>\<open>t.Sub(u)\<close> saturates at the bounds of an \<open>int64\<close>.\<close>

definition time_Sub :: "time \<Rightarrow> time \<Rightarrow> duration" where
  "time_Sub t u = max min_duration (min max_duration (t - u))"

lemma time_Sub_range: "min_duration \<le> time_Sub t u \<and> time_Sub t u \<le> max_duration"
  by (auto simp: time_Sub_def min_duration_def max_duration_def)

text \<open>Conversion of a float to an integer type drops the fraction, towards zero.\<close>

definition trunc :: "float64 \<Rightarrow> int" where
  "trunc x = (if x < 0 then - \<lfloor>- x\<rfloor> else \<lfloor>x\<rfloor>)"

lemma trunc_of_nat [simp]: "trunc (of_nat n) = int n"
  by (simp add: trunc_def)

section \<open>Strings\<close>

text \<open>\<open>strings.Cut(s, sep)\<close> for a one-byte separator; \<open>None\<close> is \<open>ok = false\<close>.\<close>

definition Cut :: "char \<Rightarrow> string \<Rightarrow> (string \<times> string) option" where
  "Cut c s = (if c \<in> set s
     then Some (takeWhile (\<lambda>d. d \<noteq> c) s, tl (dropWhile (\<lambda>d. d \<noteq> c) s)) else None)"

lemma Cut_Some: "Cut c s = Some (a, b) \<Longrightarrow> s = a @ c # b \<and> c \<notin> set a"
proof (induction s arbitrary: a)
  case (Cons d s)
  show ?case
  proof (cases "d = c")
    case True
    with Cons.prems show ?thesis by (auto simp: Cut_def)
  next
    case False
    with Cons.prems have "a = d # tl a" "Cut c s = Some (tl a, b)"
      by (auto simp: Cut_def split: if_splits)
    with Cons.IH[of "tl a"] False show ?thesis by (metis append_Cons set_ConsD)
  qed
qed (simp add: Cut_def)

lemma Cut_append: "c \<notin> set a \<Longrightarrow> Cut c (a @ c # b) = Some (a, b)"
  by (induction a) (auto simp: Cut_def)

text \<open>\<open>strings.CutPrefix\<close> and \<open>strings.HasPrefix\<close>, \<open>strings.HasSuffix\<close>.\<close>

definition CutPrefix :: "string \<Rightarrow> string \<Rightarrow> string option" where
  "CutPrefix p s = (if prefix p s then Some (drop (length p) s) else None)"

lemma CutPrefix_append [simp]: "CutPrefix p (p @ s) = Some s"
  by (simp add: CutPrefix_def)

text \<open>\<open>strconv.Itoa\<close> and \<open>%d\<close> on naturals.\<close>

definition digit :: "nat \<Rightarrow> char" where
  "digit n = ''0123456789'' ! (n mod 10)"

fun itoa :: "nat \<Rightarrow> string" where
  "itoa n = (if n < 10 then [digit n] else itoa (n div 10) @ [digit n])"

declare itoa.simps [simp del]

text \<open>\<open>strings.Join\<close>.\<close>

fun Join :: "string list \<Rightarrow> string \<Rightarrow> string" where
  "Join [] sep = []"
| "Join [x] sep = x"
| "Join (x # y # xs) sep = x @ sep @ Join (y # xs) sep"

section \<open>Sorting\<close>

text \<open>
  \<open>sort.Float64s\<close> and \<open>sort.Strings\<close> are \<open>sort\<close>; \<open>sort.Slice\<close> by a key is \<open>sort_key\<close>. The
  library's sort is stable; \<open>sort.Slice\<close> is not, so the two agree where the keys are distinct,
  which the callers' keys (target names, ledger ids, sequence numbers) are.
\<close>

lemma sort_key_distinct_perm:
  assumes "mset xs = mset ys" and "distinct (map f xs)"
  shows "sort_key f xs = sort_key f ys"
proof -
  have "inj_on f (set xs)" using assms(2) by (simp add: distinct_map)
  moreover have "set xs = set ys" using assms(1) mset_eq_setD by blast
  ultimately have inj: "inj_on f (set (sort_key f xs))" "set (sort_key f xs) = set (sort_key f ys)"
    by simp_all
  show ?thesis
  proof (rule properties_for_sort_key)
    show "mset (sort_key f ys) = mset xs" using assms(1) by simp
    show "sorted (map f (sort_key f ys))" by simp
    show "filter (\<lambda>y. f k = f y) (sort_key f ys) = filter (\<lambda>x. f k = f x) xs"
      if "k \<in> set (sort_key f ys)" for k
    proof -
      have single: "filter (\<lambda>y. f k = f y) zs = [k]"
        if "distinct (map f zs)" "k \<in> set zs" for zs
        using that
      proof (induction zs)
        case (Cons z zs)
        then show ?case
          by (auto simp: filter_empty_conv image_iff)
      qed simp
      have "distinct (map f (sort_key f ys))"
        using assms by (metis distinct_map inj inj_on_subset mset_eq_imp_distinct_iff mset_sort
            set_sort subset_refl)
      with single[of xs] single[of "sort_key f ys"] assms that \<open>set xs = set ys\<close>
      show ?thesis by simp
    qed
  qed
qed

section \<open>Keyed tables\<close>

text \<open>
  A table is the list of its rows in insertion order. A primary key is enforced on insertion;
  an UPDATE by key rewrites the rows with that key.
\<close>

definition tbl_find :: "('r \<Rightarrow> 'k) \<Rightarrow> 'k \<Rightarrow> 'r list \<Rightarrow> 'r option" where
  "tbl_find key k rows = find (\<lambda>r. key r = k) rows"

definition tbl_update :: "('r \<Rightarrow> 'k) \<Rightarrow> 'k \<Rightarrow> ('r \<Rightarrow> 'r) \<Rightarrow> 'r list \<Rightarrow> 'r list" where
  "tbl_update key k f rows = map (\<lambda>r. if key r = k then f r else r) rows"

definition tbl_has :: "('r \<Rightarrow> 'k) \<Rightarrow> 'k \<Rightarrow> 'r list \<Rightarrow> bool" where
  "tbl_has key k rows \<longleftrightarrow> k \<in> set (map key rows)"

lemma tbl_find_Nil [simp]: "tbl_find key k [] = None"
  by (simp add: tbl_find_def)

lemma tbl_find_Cons [simp]:
  "tbl_find key k (r # rs) = (if key r = k then Some r else tbl_find key k rs)"
  by (simp add: tbl_find_def)

lemma tbl_find_Some: "tbl_find key k rows = Some r \<Longrightarrow> r \<in> set rows \<and> key r = k"
  by (induction rows) (auto split: if_splits)

lemma tbl_find_None: "tbl_find key k rows = None \<longleftrightarrow> \<not> tbl_has key k rows"
  by (induction rows) (auto simp: tbl_has_def)

lemma tbl_find_eq:
  "distinct (map key rows) \<Longrightarrow> tbl_find key k rows = Some r \<longleftrightarrow> r \<in> set rows \<and> key r = k"
  by (induction rows) auto

lemma tbl_find_append:
  "tbl_find key k (xs @ ys) = (case tbl_find key k xs of None \<Rightarrow> tbl_find key k ys | Some r \<Rightarrow> Some r)"
  by (induction xs) auto

lemma map_key_tbl_update [simp]:
  "(\<And>r. key (f r) = key r) \<Longrightarrow> map key (tbl_update key k f rows) = map key rows"
  by (induction rows) (auto simp: tbl_update_def)

lemma tbl_find_update:
  "(\<And>r. key (f r) = key r) \<Longrightarrow> tbl_find key k' (tbl_update key k f rows) =
     (if k' = k then map_option f (tbl_find key k rows) else tbl_find key k' rows)"
  by (induction rows) (auto simp: tbl_update_def)

lemma tbl_update_append [simp]:
  "tbl_update key k f (xs @ ys) = tbl_update key k f xs @ tbl_update key k f ys"
  by (simp add: tbl_update_def)

lemma tbl_update_idle: "\<not> tbl_has key k rows \<Longrightarrow> tbl_update key k f rows = rows"
  by (induction rows) (auto simp: tbl_update_def tbl_has_def)

lemma set_tbl_updateE:
  assumes "r \<in> set (tbl_update key k f rows)"
  obtains (kept) "r \<in> set rows" "key r \<noteq> k" | (hit) r' where "r' \<in> set rows" "key r' = k" "r = f r'"
  using assms by (auto simp: tbl_update_def split: if_splits)

lemma length_tbl_update [simp]: "length (tbl_update key k f rows) = length rows"
  by (simp add: tbl_update_def)

text \<open>A SUM over a table, and its change under insertion.\<close>

definition sum_rows :: "('r \<Rightarrow> real) \<Rightarrow> ('r \<Rightarrow> bool) \<Rightarrow> 'r list \<Rightarrow> real" where
  "sum_rows f P rows = sum_list (map f (filter P rows))"

lemma sum_rows_Nil [simp]: "sum_rows f P [] = 0"
  by (simp add: sum_rows_def)

lemma sum_rows_Cons [simp]:
  "sum_rows f P (r # rs) = (if P r then f r else 0) + sum_rows f P rs"
  by (simp add: sum_rows_def)

lemma sum_rows_append [simp]: "sum_rows f P (xs @ ys) = sum_rows f P xs + sum_rows f P ys"
  by (simp add: sum_rows_def)

lemma sum_rows_nonneg: "(\<And>r. r \<in> set rows \<Longrightarrow> P r \<Longrightarrow> 0 \<le> f r) \<Longrightarrow> 0 \<le> sum_rows f P rows"
  by (induction rows) auto

section \<open>Systems with an invariant\<close>

text \<open>
  A step relation with an invariant it keeps: the interface of the store and of the leader election
  to the arguments about their runs.
\<close>

locale inv_system =
  fixes step :: "'s \<Rightarrow> 's \<Rightarrow> bool" and inv :: "'s \<Rightarrow> bool"
  assumes keeps: "inv s \<Longrightarrow> step s s' \<Longrightarrow> inv s'"
begin

lemma run: "step\<^sup>*\<^sup>* s s' \<Longrightarrow> inv s \<Longrightarrow> inv s'"
  by (induction rule: rtranclp_induct) (auto intro: keeps)

text \<open>A quantity that no step of an invariant state decreases never decreases along a run.\<close>

lemma run_mono:
  assumes "step\<^sup>*\<^sup>* s s'" and "inv s" and "\<And>s s'. inv s \<Longrightarrow> step s s' \<Longrightarrow> R (f s) (f s')"
    and "\<And>x. R x x" and "\<And>x y z. R x y \<Longrightarrow> R y z \<Longrightarrow> R x z"
  shows "R (f s) (f s')"
  using assms(1,2)
proof (induction rule: rtranclp_induct)
  case (step t u)
  have "inv t" using run[OF step(1)] assms(2) .
  with step assms(3)[of t u] assms(5) show ?case by blast
qed (rule assms(4))

end

end
