(* ===== verification/Json_Doc.thy ===== *)
theory Json_Doc
  imports Rabi_Prelude
begin

text \<open>
  JSON documents: Go's \<open>map[string]any\<close> as produced by \<open>encoding/json\<close>, with the comma-ok type
  assertions \<open>m[k].(T)\<close> the sources read them with. An object is an association list; its order
  stands for the order in which Go's map iteration happens to visit the keys, so a theorem about
  every list is a theorem about every iteration order. A nil map is the empty object.
\<close>

datatype json =
    JNull
  | JBool bool
  | JNum float64
  | JStr string
  | JArr "json list"
  | JObj "(string \<times> json) list"

type_synonym obj = "(string \<times> json) list"

definition get :: "obj \<Rightarrow> string \<Rightarrow> json option" where
  "get m k = map_of m k"

definition get_str :: "obj \<Rightarrow> string \<Rightarrow> string option" where
  "get_str m k = (case get m k of Some (JStr s) \<Rightarrow> Some s | _ \<Rightarrow> None)"

definition get_num :: "obj \<Rightarrow> string \<Rightarrow> float64 option" where
  "get_num m k = (case get m k of Some (JNum x) \<Rightarrow> Some x | _ \<Rightarrow> None)"

definition get_bool :: "obj \<Rightarrow> string \<Rightarrow> bool option" where
  "get_bool m k = (case get m k of Some (JBool b) \<Rightarrow> Some b | _ \<Rightarrow> None)"

definition get_arr :: "obj \<Rightarrow> string \<Rightarrow> json list option" where
  "get_arr m k = (case get m k of Some (JArr xs) \<Rightarrow> Some xs | _ \<Rightarrow> None)"

definition get_obj :: "obj \<Rightarrow> string \<Rightarrow> obj option" where
  "get_obj m k = (case get m k of Some (JObj o') \<Rightarrow> Some o' | _ \<Rightarrow> None)"

text \<open>The one-value forms: the zero value of the type when the assertion fails.\<close>

definition str_or :: "obj \<Rightarrow> string \<Rightarrow> string" where
  "str_or m k = (case get_str m k of Some s \<Rightarrow> s | None \<Rightarrow> [])"

definition arr_or :: "obj \<Rightarrow> string \<Rightarrow> json list" where
  "arr_or m k = (case get_arr m k of Some xs \<Rightarrow> xs | None \<Rightarrow> [])"

definition obj_or :: "obj \<Rightarrow> string \<Rightarrow> obj" where
  "obj_or m k = (case get_obj m k of Some o' \<Rightarrow> o' | None \<Rightarrow> [])"

definition set_key :: "obj \<Rightarrow> string \<Rightarrow> json \<Rightarrow> obj" where
  "set_key m k v = AList.update k v m"

lemmas get_defs = get_str_def get_num_def get_bool_def get_arr_def get_obj_def
  str_or_def arr_or_def obj_or_def

lemma get_set_key [json_simps]: "get (set_key m k v) k' = (if k' = k then Some v else get m k')"
  by (simp add: get_def set_key_def update_conv')

lemma get_typed_set_key [json_simps]:
  "get_str (set_key m k v) k' =
     (if k' = k then (case v of JStr s \<Rightarrow> Some s | _ \<Rightarrow> None) else get_str m k')"
  "get_arr (set_key m k v) k' =
     (if k' = k then (case v of JArr xs \<Rightarrow> Some xs | _ \<Rightarrow> None) else get_arr m k')"
  "get_obj (set_key m k v) k' =
     (if k' = k then (case v of JObj xs \<Rightarrow> Some xs | _ \<Rightarrow> None) else get_obj m k')"
  by (auto simp: get_defs json_simps split: json.splits)

lemma distinct_set_key [json_simps]:
  "distinct (map fst m) \<Longrightarrow> distinct (map fst (set_key m k v))"
  by (simp add: set_key_def distinct_update)

text \<open>\<open>docPath\<close> of the dispatcher: descend through objects, the empty object on any miss.\<close>

fun docPath :: "obj \<Rightarrow> string list \<Rightarrow> obj" where
  "docPath cur [] = cur"
| "docPath cur (p # ps) =
     (case get_obj cur p of Some nxt \<Rightarrow> docPath nxt ps | None \<Rightarrow> [])"

text \<open>The strings of an array of any values; other elements are skipped.\<close>

fun strings_of :: "json list \<Rightarrow> string list" where
  "strings_of [] = []"
| "strings_of (JStr s # xs) = s # strings_of xs"
| "strings_of (_ # xs) = strings_of xs"

lemma set_strings_of: "set (strings_of xs) = {s. JStr s \<in> set xs}"
  by (induction xs rule: strings_of.induct) auto

text \<open>A status condition, the entry of \<open>status.conditions\<close>.\<close>

definition cond_obj :: "string \<Rightarrow> string \<Rightarrow> string \<Rightarrow> string \<Rightarrow> obj" where
  "cond_obj ty st reason msg =
     [(''type'', JStr ty), (''status'', JStr st), (''reason'', JStr reason), (''message'', JStr msg)]"

text \<open>\<open>appendCondition\<close> of the dispatcher and of the API: a condition at the end of the list.\<close>

definition append_cond :: "obj \<Rightarrow> obj \<Rightarrow> obj" where
  "append_cond st c = set_key st ''conditions'' (JArr (arr_or st ''conditions'' @ [JObj c]))"

lemma append_cond_keeps [json_simps]:
  "k \<noteq> ''conditions'' \<Longrightarrow> get (append_cond st c) k = get st k"
  by (simp add: append_cond_def json_simps)

lemma append_cond_conditions [json_simps]:
  "arr_or (append_cond st c) ''conditions'' = arr_or st ''conditions'' @ [JObj c]"
  by (simp add: append_cond_def arr_or_def json_simps)

end
