(* ===== verification/Lifecycle.thy ===== *)
theory Lifecycle
  imports Rabi_Prelude
begin

text \<open>
  The job lifecycle state machine of \<open>internal/job/phase.go\<close>: the phases, the transition table
  and the guard \<open>Transition\<close>, through which every phase change of the control plane goes. The
  section on paths states what a history of phases can look like.
\<close>

section \<open>Phases and the transition table\<close>

text \<open>\<open>Phase\<close> is a Go string; a string that names no phase is \<open>UnknownPhase\<close>.\<close>

datatype phase =
    Pending | Scheduled | Submitted | Running | Succeeded | Failed | Cancelled
  | UnknownPhase string

definition Phases :: "phase list" where
  "Phases = [Pending, Scheduled, Submitted, Running, Succeeded, Failed, Cancelled]"

fun phase_str :: "phase \<Rightarrow> string" where
  "phase_str Pending = ''PENDING''"
| "phase_str Scheduled = ''SCHEDULED''"
| "phase_str Submitted = ''SUBMITTED''"
| "phase_str Running = ''RUNNING''"
| "phase_str Succeeded = ''SUCCEEDED''"
| "phase_str Failed = ''FAILED''"
| "phase_str Cancelled = ''CANCELLED''"
| "phase_str (UnknownPhase s) = s"

definition phase_of_str :: "string \<Rightarrow> phase" where
  "phase_of_str s = (case find (\<lambda>p. phase_str p = s) Phases of Some p \<Rightarrow> p | None \<Rightarrow> UnknownPhase s)"

text \<open>The table \<open>transitions\<close>; a phase without a row is a missing map key.\<close>

fun transitions :: "phase \<Rightarrow> phase list option" where
  "transitions Pending = Some [Scheduled, Failed, Cancelled]"
| "transitions Scheduled = Some [Submitted, Pending, Failed, Cancelled]"
| "transitions Submitted = Some [Running, Pending, Failed, Cancelled]"
| "transitions Running = Some [Succeeded, Failed, Cancelled]"
| "transitions Succeeded = Some []"
| "transitions Failed = Some []"
| "transitions Cancelled = Some []"
| "transitions (UnknownPhase _) = None"

definition Valid :: "phase \<Rightarrow> bool" where
  "Valid p = (transitions p \<noteq> None)"

definition Terminal :: "phase \<Rightarrow> bool" where
  "Terminal p = (case transitions p of Some nxt \<Rightarrow> nxt = [] | None \<Rightarrow> False)"

definition CanTransition :: "phase \<Rightarrow> phase \<Rightarrow> bool" where
  "CanTransition src dst = (case transitions src of Some nxt \<Rightarrow> dst \<in> set nxt | None \<Rightarrow> False)"

datatype fsm_error =
    FsmUnknownPhase phase
  | FsmTerminal phase
  | FsmIllegal phase phase

definition Transition :: "phase \<Rightarrow> phase \<Rightarrow> fsm_error option" where
  "Transition src dst =
     (if \<not> Valid src then Some (FsmUnknownPhase src)
      else if \<not> Valid dst then Some (FsmUnknownPhase dst)
      else if Terminal src then Some (FsmTerminal src)
      else if \<not> CanTransition src dst then Some (FsmIllegal src dst)
      else None)"

section \<open>Facts about single transitions\<close>

lemma Valid_simps [simp]:
  "Valid Pending" "Valid Scheduled" "Valid Submitted" "Valid Running" "Valid Succeeded"
  "Valid Failed" "Valid Cancelled" "\<not> Valid (UnknownPhase s)"
  by (simp_all add: Valid_def)

lemma Terminal_simps [simp]:
  "\<not> Terminal Pending" "\<not> Terminal Scheduled" "\<not> Terminal Submitted" "\<not> Terminal Running"
  "Terminal Succeeded" "Terminal Failed" "Terminal Cancelled" "\<not> Terminal (UnknownPhase s)"
  by (simp_all add: Terminal_def)

lemma Valid_iff: "Valid p \<longleftrightarrow> p \<in> set Phases"
  by (cases p) (auto simp: Phases_def)

lemma Terminal_iff: "Terminal p \<longleftrightarrow> p \<in> {Succeeded, Failed, Cancelled}"
  by (cases p) auto

lemma CanTransition_valid: "CanTransition src dst \<Longrightarrow> Valid src \<and> Valid dst \<and> \<not> Terminal src"
  by (cases src) (auto simp: CanTransition_def)

lemma CanTransition_Terminal [simp]: "Terminal p \<Longrightarrow> \<not> CanTransition p q"
  using CanTransition_valid by blast

lemma Transition_None [simp]: "Transition src dst = None \<longleftrightarrow> CanTransition src dst"
  using CanTransition_valid[of src dst] by (auto simp: Transition_def)

lemma CanTransition_to:
  "CanTransition p Scheduled \<longleftrightarrow> p = Pending"
  "CanTransition p Submitted \<longleftrightarrow> p = Scheduled"
  "CanTransition p Running \<longleftrightarrow> p = Submitted"
  "CanTransition p Succeeded \<longleftrightarrow> p = Running"
  "CanTransition p Pending \<longleftrightarrow> p \<in> {Scheduled, Submitted}"
  "CanTransition p Failed \<longleftrightarrow> p \<in> {Pending, Scheduled, Submitted, Running}"
  "CanTransition p Cancelled \<longleftrightarrow> p \<in> {Pending, Scheduled, Submitted, Running}"
  by (cases p; auto simp: CanTransition_def)+

lemma not_CanTransition_refl [simp]: "\<not> CanTransition p p"
  by (cases p) (auto simp: CanTransition_def)

lemma phase_str_inject: "Valid p \<Longrightarrow> Valid q \<Longrightarrow> phase_str p = phase_str q \<longleftrightarrow> p = q"
  by (cases p; cases q; simp)

lemma phase_of_str_str: "Valid p \<Longrightarrow> phase_of_str (phase_str p) = p"
  by (cases p) (auto simp: phase_of_str_def Phases_def)

section \<open>Histories of phases\<close>

text \<open>
  A legal history in the sense of \<open>auditGapless\<close>: consecutive phases are equal (a status-only
  update) or linked by a legal transition.
\<close>

definition step_ok :: "phase \<Rightarrow> phase \<Rightarrow> bool" where
  "step_ok p q \<longleftrightarrow> p = q \<or> CanTransition p q"

definition legal_path :: "phase list \<Rightarrow> bool" where
  "legal_path ps \<longleftrightarrow> ps \<noteq> [] \<and> hd ps = Pending \<and> successively step_ok ps"

lemma legal_path_single [simp]: "legal_path [Pending]"
  by (simp add: legal_path_def)

lemma legal_path_snoc:
  "legal_path ps \<Longrightarrow> step_ok (last ps) q \<Longrightarrow> legal_path (ps @ [q])"
  by (auto simp: legal_path_def successively_append_iff)

lemma legal_path_snocD:
  "legal_path (ps @ [q]) \<Longrightarrow> ps \<noteq> [] \<Longrightarrow> legal_path ps \<and> step_ok (last ps) q"
  by (auto simp: legal_path_def successively_append_iff)

lemma legal_path_induct [consumes 1, case_names start snoc]:
  assumes "legal_path ps" and "P [Pending]"
    and "\<And>ps q. legal_path ps \<Longrightarrow> P ps \<Longrightarrow> step_ok (last ps) q \<Longrightarrow> P (ps @ [q])"
  shows "P ps"
  using assms(1)
proof (induction ps rule: rev_induct)
  case (snoc q ps)
  show ?case
  proof (cases "ps = []")
    case True
    with snoc.prems assms(2) show ?thesis by (simp add: legal_path_def)
  next
    case False
    with legal_path_snocD[OF snoc.prems] snoc.IH assms(3) show ?thesis by blast
  qed
qed (simp add: legal_path_def)

lemma legal_path_Valid: "legal_path ps \<Longrightarrow> p \<in> set ps \<Longrightarrow> Valid p"
  by (induction rule: legal_path_induct)
    (auto simp: step_ok_def legal_path_def dest: CanTransition_valid last_in_set)

text \<open>What a history must contain before it can show each phase.\<close>

definition milestones :: "phase \<Rightarrow> phase list" where
  "milestones p =
     (case p of Scheduled \<Rightarrow> [Scheduled]
      | Submitted \<Rightarrow> [Scheduled, Submitted]
      | Running \<Rightarrow> [Scheduled, Submitted, Running]
      | Succeeded \<Rightarrow> [Scheduled, Submitted, Running, Succeeded]
      | _ \<Rightarrow> [])"

lemma milestones_step:
  assumes "subseq (milestones p) ps" and "CanTransition p q"
  shows "subseq (milestones q) (ps @ [q])"
proof (cases "milestones q = []")
  case False
  then have q: "q \<in> {Scheduled, Submitted, Running, Succeeded}"
    by (cases q) (auto simp: milestones_def)
  with assms(2) have "milestones q = milestones p @ [q]"
    by (auto simp: CanTransition_to milestones_def)
  with assms(1) show ?thesis by (simp add: list_emb_append_mono)
qed simp

lemma legal_path_milestones: "legal_path ps \<Longrightarrow> subseq (milestones (last ps)) ps"
proof (induction rule: legal_path_induct)
  case (snoc ps q)
  then show ?case
    by (cases "q = last ps") (auto simp: step_ok_def milestones_step intro: list_emb_prefix)
qed (simp add: milestones_def)

text \<open>A terminal phase, once reached, is repeated for ever.\<close>

lemma legal_path_terminal_tail:
  assumes "legal_path (ps @ p # qs)" and "Terminal p"
  shows "set qs \<subseteq> {p}"
  using assms
proof (induction qs rule: rev_induct)
  case (snoc q qs)
  from legal_path_snocD[of "ps @ p # qs" q] snoc.prems
  have l: "legal_path (ps @ p # qs)" "step_ok (last (p # qs)) q" by auto
  with snoc have "set qs \<subseteq> {p}" by simp
  then have "last (p # qs) = p" by (metis last.simps last_in_set singletonD subsetD)
  with l(2) snoc.prems(2) \<open>set qs \<subseteq> {p}\<close> show ?case by (auto simp: step_ok_def)
qed simp

end
