(* ===== verification/Store_Schema.thy ===== *)
theory Store_Schema
  imports Json_Doc Lifecycle
begin

text \<open>
  The database behind \<open>internal/store\<close>: one record with a field per table of the migrations, the
  row types of the package, and the errors its operations return. A transaction of the Go code
  is one function from \<open>db\<close> to \<open>db\<close>; the row locks it takes make it atomic. \<open>notifications\<close> collects
  what \<open>pg_notify\<close> delivers on commit, the wakeups of the dispatcher. \<open>now\<close> arguments are
  the transaction's \<open>now()\<close>, and generated identifiers (UUIDs) are arguments too. Failures of the
  database connection are not modelled: they roll the transaction back and change nothing.
\<close>

section \<open>Rows\<close>

record job_record =
  jr_JobID :: string
  jr_Tenant :: string
  jr_Name :: string
  jr_Phase :: phase
  jr_Doc :: obj
  jr_Status :: obj
  jr_CreatedAt :: time
  jr_UpdatedAt :: time

record job_event =
  ev_Seq :: nat
  ev_JobID :: string
  ev_Phase :: phase
  ev_Status :: obj
  ev_CreatedAt :: time

text \<open>\<open>adapter_task_id\<close>, \<open>error\<close> and \<open>result\<close> are nullable columns.\<close>

record task_record =
  tk_TaskID :: string
  tk_JobID :: string
  tk_Target :: string
  tk_AdapterTaskID :: "string option"
  tk_State :: string
  tk_Error :: "obj option"
  tk_Result :: "obj option"
  tk_CreatedAt :: time
  tk_UpdatedAt :: time

record ledger_row =
  lg_ID :: nat
  lg_JobID :: string
  lg_TaskID :: string
  lg_Tenant :: string
  lg_Target :: string
  lg_Unit :: string
  lg_Amount :: float64
  lg_RecordedAt :: time

record session_record =
  ss_SessionID :: string
  ss_Tenant :: string
  ss_Target :: string
  ss_AdapterSessionID :: string
  ss_OpenedByJob :: string
  ss_ExpiresAt :: "time option"
  ss_ClosedAt :: "time option"
  ss_CreatedAt :: time

record project_record =
  pj_Tenant :: string
  pj_Org :: string
  pj_Name :: string
  pj_Weight :: int
  pj_CreatedAt :: time
  pj_ArchivedAt :: "time option"

record quota_record =
  qt_Tenant :: string
  qt_Unit :: string
  qt_Limit :: float64

record token_record =
  tr_ID :: string
  tr_Name :: string
  tr_Project :: string
  tr_Role :: string
  tr_TokenHash :: string
  tr_CreatedBy :: string
  tr_CreatedAt :: time
  tr_LastUsedAt :: "time option"
  tr_RevokedAt :: "time option"

record audit_entry =
  au_PrincipalType :: string
  au_Subject :: string
  au_PrincipalName :: string
  au_Role :: string
  au_Method :: string
  au_Decision :: string
  au_Reason :: string

record shadow_placement =
  sp_At :: time
  sp_JobID :: string
  sp_Tenant :: string
  sp_Policy :: string
  sp_ActivePolicy :: string
  sp_ActiveTarget :: string
  sp_ShadowTarget :: string
  sp_Agreed :: bool
  sp_ActiveESP :: "float64 option"
  sp_ShadowESP :: "float64 option"
  sp_ActiveWait :: "float64 option"
  sp_ShadowWait :: "float64 option"

record usage_mismatch =
  um_JobID :: string
  um_Unit :: string
  um_Status :: float64
  um_Ledger :: float64

record reconciliation_run =
  rr_Checked :: nat
  rr_Mismatches :: "usage_mismatch list"
  rr_At :: time

record game_day =
  gd_StartedAt :: time
  gd_FinishedAt :: time
  gd_Scenario :: string
  gd_Target :: string
  gd_InvariantsGreen :: bool
  gd_Violations :: int
  gd_Operator :: string
  gd_Note :: string

section \<open>The database\<close>

record db =
  jobs :: "job_record list"
  job_events :: "job_event list"
  next_seq :: nat
  tasks :: "task_record list"
  usage_ledger :: "ledger_row list"
  next_ledger :: nat
  sessions :: "session_record list"
  projects :: "project_record list"
  project_quotas :: "quota_record list"
  api_tokens :: "token_record list"
  audit_log :: "audit_entry list"
  shadow_placements :: "shadow_placement list"
  reconciliation_runs :: "reconciliation_run list"
  game_days :: "game_day list"
  notifications :: "string list"

definition empty_db :: db where
  "empty_db = \<lparr>jobs = [], job_events = [], next_seq = 1, tasks = [], usage_ledger = [],
     next_ledger = 1, sessions = [], projects = [], project_quotas = [], api_tokens = [],
     audit_log = [], shadow_placements = [], reconciliation_runs = [], game_days = [],
     notifications = []\<rparr>"

section \<open>Errors\<close>

datatype store_error =
    ErrNotFound
  | ErrFsm fsm_error
  | ErrNotPending string phase
  | ErrDuplicateKey
  | ErrForeignKey
  | ErrCheckConstraint
  | ErrSessionNotFound
  | ErrTokenNotFound
  | ErrProjectNotFound
  | ErrEmptyTenant
  | ErrQuotaExceeded string float64 float64 float64
  | ErrUnknownTable string
  | ErrScan

type_synonym 'a tx = "db \<times> (store_error + 'a)"

section \<open>Reading a job's history\<close>

definition events_of :: "db \<Rightarrow> string \<Rightarrow> job_event list" where
  "events_of d i = filter (\<lambda>e. ev_JobID e = i) (job_events d)"

definition history :: "db \<Rightarrow> string \<Rightarrow> phase list" where
  "history d i = map ev_Phase (events_of d i)"

definition job_ids :: "db \<Rightarrow> string list" where
  "job_ids d = map jr_JobID (jobs d)"

definition phase_of :: "db \<Rightarrow> string \<Rightarrow> phase option" where
  "phase_of d i = map_option jr_Phase (tbl_find jr_JobID i (jobs d))"

text \<open>Appending one event with the next identity value.\<close>

definition add_event :: "time \<Rightarrow> string \<Rightarrow> phase \<Rightarrow> obj \<Rightarrow> db \<Rightarrow> db" where
  "add_event now i p st d = d\<lparr>
     job_events := job_events d @ [\<lparr>ev_Seq = next_seq d, ev_JobID = i, ev_Phase = p,
       ev_Status = st, ev_CreatedAt = now\<rparr>],
     next_seq := Suc (next_seq d)\<rparr>"

lemma history_add_event [simp]:
  "history (add_event now i p st d) k = history d k @ (if k = i then [p] else [])"
  by (simp add: history_def events_of_def add_event_def)

lemma add_event_frame [simp]:
  "jobs (add_event now i p st d) = jobs d"
  "tasks (add_event now i p st d) = tasks d"
  "usage_ledger (add_event now i p st d) = usage_ledger d"
  "next_ledger (add_event now i p st d) = next_ledger d"
  "sessions (add_event now i p st d) = sessions d"
  "projects (add_event now i p st d) = projects d"
  "project_quotas (add_event now i p st d) = project_quotas d"
  "api_tokens (add_event now i p st d) = api_tokens d"
  "audit_log (add_event now i p st d) = audit_log d"
  "shadow_placements (add_event now i p st d) = shadow_placements d"
  "phase_of (add_event now i p st d) = phase_of d"
  "job_ids (add_event now i p st d) = job_ids d"
  by (simp_all add: add_event_def phase_of_def job_ids_def fun_eq_iff)

lemma phase_of_job_ids: "phase_of d i \<noteq> None \<longleftrightarrow> i \<in> set (job_ids d)"
  by (simp add: phase_of_def job_ids_def tbl_find_None[of jr_JobID i "jobs d"] tbl_has_def
      flip: not_None_eq)

end
