(* ===== verification/Store_Jobs.thy ===== *)
theory Store_Jobs
  imports Store_Schema
begin

text \<open>
  The job repository of \<open>internal/store/jobs.go\<close>: insertion, reads, the guarded phase transition
  and the condition update, with the effect of each operation on the job table and on the
  append-only event history.
\<close>

section \<open>Operations\<close>

text \<open>\<open>insertJobTx\<close>: the job row, its first event and the wakeup of the dispatcher.\<close>

definition insertJobTx :: "time \<Rightarrow> job_record \<Rightarrow> db \<Rightarrow> unit tx" where
  "insertJobTx now rec d =
     (if tbl_has jr_JobID (jr_JobID rec) (jobs d) then (d, Inl ErrDuplicateKey)
      else
        (let row = rec\<lparr>jr_CreatedAt := now, jr_UpdatedAt := now\<rparr>;
             d1 = d\<lparr>jobs := jobs d @ [row]\<rparr>;
             d2 = add_event now (jr_JobID rec) (jr_Phase rec) (jr_Status rec) d1
         in (d2\<lparr>notifications := notifications d2 @ [jr_JobID rec]\<rparr>, Inr ())))"

definition InsertJob :: "time \<Rightarrow> job_record \<Rightarrow> db \<Rightarrow> unit tx" where
  "InsertJob now rec d = insertJobTx now rec d"

definition GetJob :: "db \<Rightarrow> string \<Rightarrow> store_error + job_record" where
  "GetJob d i = (case tbl_find jr_JobID i (jobs d) of Some r \<Rightarrow> Inr r | None \<Rightarrow> Inl ErrNotFound)"

text \<open>Newest first, ties by id; an empty filter string matches everything.\<close>

definition ListJobs :: "db \<Rightarrow> string \<Rightarrow> string \<Rightarrow> nat \<Rightarrow> nat \<Rightarrow> job_record list" where
  "ListJobs d tenant ph limit off =
     take limit (drop off
       (sort_key (\<lambda>r. (- jr_CreatedAt r, jr_JobID r))
         (filter (\<lambda>r. (tenant = [] \<or> jr_Tenant r = tenant) \<and>
                      (ph = [] \<or> phase_str (jr_Phase r) = ph)) (jobs d))))"

text \<open>Writing a row's phase and status, as the UPDATE statements do.\<close>

definition write_job :: "time \<Rightarrow> phase \<Rightarrow> obj \<Rightarrow> string \<Rightarrow> db \<Rightarrow> db" where
  "write_job now p st i d = d\<lparr>jobs := tbl_update jr_JobID i
     (\<lambda>r. r\<lparr>jr_Phase := p, jr_Status := st, jr_UpdatedAt := now\<rparr>) (jobs d)\<rparr>"

text \<open>
  \<open>TransitionJob\<close>: lock the row, check the state machine, let the caller rewrite the status,
  stamp the phase, update the row and append the event. \<open>None\<close> is a nil \<open>mutate\<close>.
\<close>

definition TransitionJob ::
  "time \<Rightarrow> string \<Rightarrow> phase \<Rightarrow> (obj \<Rightarrow> obj) option \<Rightarrow> db \<Rightarrow> job_record tx" where
  "TransitionJob now i dst mutate d =
     (case tbl_find jr_JobID i (jobs d) of
        None \<Rightarrow> (d, Inl ErrNotFound)
      | Some rec \<Rightarrow>
          (case Transition (jr_Phase rec) dst of
             Some e \<Rightarrow> (d, Inl (ErrFsm e))
           | None \<Rightarrow>
               (let st = (case mutate of Some f \<Rightarrow> f (jr_Status rec) | None \<Rightarrow> jr_Status rec);
                    st' = set_key st ''phase'' (JStr (phase_str dst));
                    d1 = write_job now dst st' i d
                in (add_event now i dst st' d1,
                    Inr (rec\<lparr>jr_Phase := dst, jr_Status := st', jr_UpdatedAt := now\<rparr>)))))"

text \<open>
  The loop of \<open>SetJobCondition\<close> over the conditions: \<open>None\<close> when a condition of the same type
  with the same status and message is found (nothing to write), otherwise the new list.
\<close>

fun replace_condition :: "string \<Rightarrow> obj \<Rightarrow> json list \<Rightarrow> json list option" where
  "replace_condition ty c [] = Some [JObj c]"
| "replace_condition ty c (JObj m # cs) =
     (if get m ''type'' \<noteq> Some (JStr ty) then map_option ((#) (JObj m)) (replace_condition ty c cs)
      else if get m ''status'' = get c ''status'' \<and> get m ''message'' = get c ''message'' then None
      else Some (JObj c # cs))"
| "replace_condition ty c (x # cs) = map_option ((#) x) (replace_condition ty c cs)"

definition SetJobCondition :: "time \<Rightarrow> string \<Rightarrow> obj \<Rightarrow> db \<Rightarrow> bool tx" where
  "SetJobCondition now i c d =
     (case tbl_find jr_JobID i (jobs d) of
        None \<Rightarrow> (d, Inl ErrNotFound)
      | Some rec \<Rightarrow>
          (case replace_condition (str_or c ''type'') c (arr_or (jr_Status rec) ''conditions'') of
             None \<Rightarrow> (d, Inr False)
           | Some cs \<Rightarrow>
               (let st = set_key (jr_Status rec) ''conditions'' (JArr cs);
                    d1 = write_job now (jr_Phase rec) st i d
                in (add_event now i (jr_Phase rec) st d1, Inr True))))"

text \<open>Rows are appended with growing identity values, so table order is sequence order.\<close>

definition JobEventsSince :: "db \<Rightarrow> string \<Rightarrow> nat \<Rightarrow> job_event list" where
  "JobEventsSince d i after = sort_key ev_Seq (filter (\<lambda>e. after < ev_Seq e) (events_of d i))"

definition CountRows :: "db \<Rightarrow> string \<Rightarrow> store_error + nat" where
  "CountRows d table =
     (if table = ''jobs'' then Inr (length (jobs d))
      else if table = ''job_events'' then Inr (length (job_events d))
      else Inl (ErrUnknownTable table))"

section \<open>Effect of the operations\<close>

lemma write_job_frame [simp]:
  "job_events (write_job now p st i d) = job_events d"
  "next_seq (write_job now p st i d) = next_seq d"
  "tasks (write_job now p st i d) = tasks d"
  "usage_ledger (write_job now p st i d) = usage_ledger d"
  "next_ledger (write_job now p st i d) = next_ledger d"
  "sessions (write_job now p st i d) = sessions d"
  "projects (write_job now p st i d) = projects d"
  "project_quotas (write_job now p st i d) = project_quotas d"
  "api_tokens (write_job now p st i d) = api_tokens d"
  "audit_log (write_job now p st i d) = audit_log d"
  "history (write_job now p st i d) = history d"
  "events_of (write_job now p st i d) = events_of d"
  "job_ids (write_job now p st i d) = job_ids d"
  by (simp_all add: write_job_def history_def events_of_def job_ids_def fun_eq_iff)

lemma phase_of_write_job:
  "phase_of (write_job now p st i d) k =
     (if k = i then map_option (\<lambda>_. p) (phase_of d i) else phase_of d k)"
  by (simp add: phase_of_def write_job_def tbl_find_update option.map_comp o_def)

lemma insertJobTx_cases:
  obtains (dup) "jr_JobID rec \<in> set (job_ids d)" "insertJobTx now rec d = (d, Inl ErrDuplicateKey)"
  | (ok) d' where "jr_JobID rec \<notin> set (job_ids d)" "insertJobTx now rec d = (d', Inr ())"
      "jobs d' = jobs d @ [rec\<lparr>jr_CreatedAt := now, jr_UpdatedAt := now\<rparr>]"
      "job_events d' = job_events (add_event now (jr_JobID rec) (jr_Phase rec) (jr_Status rec) d)"
      "next_seq d' = Suc (next_seq d)" "tasks d' = tasks d" "usage_ledger d' = usage_ledger d"
      "next_ledger d' = next_ledger d" "sessions d' = sessions d" "projects d' = projects d"
      "project_quotas d' = project_quotas d" "api_tokens d' = api_tokens d"
      "audit_log d' = audit_log d" "notifications d' = notifications d @ [jr_JobID rec]"
proof (cases "tbl_has jr_JobID (jr_JobID rec) (jobs d)")
  case True
  then show ?thesis by (intro dup) (simp_all add: insertJobTx_def tbl_has_def job_ids_def)
next
  case False
  let ?d = "fst (insertJobTx now rec d)"
  from False have eq: "insertJobTx now rec d = (?d, Inr ())"
    by (simp add: insertJobTx_def Let_def)
  from False show ?thesis
    by (intro ok[OF _ eq]) (simp_all add: insertJobTx_def Let_def tbl_has_def job_ids_def add_event_def)
qed

lemma TransitionJob_cases:
  obtains (missing) "phase_of d i = None" "TransitionJob now i dst mutate d = (d, Inl ErrNotFound)"
  | (illegal) p e where "phase_of d i = Some p" "\<not> CanTransition p dst"
      "TransitionJob now i dst mutate d = (d, Inl (ErrFsm e))"
  | (ok) p st rec where "phase_of d i = Some p" "CanTransition p dst"
      "TransitionJob now i dst mutate d = (add_event now i dst st (write_job now dst st i d), Inr rec)"
      "jr_Phase rec = dst" "jr_JobID rec = i" "jr_Status rec = st"
      "get st ''phase'' = Some (JStr (phase_str dst))"
proof (cases "tbl_find jr_JobID i (jobs d)")
  case None
  then show ?thesis by (intro missing) (simp_all add: TransitionJob_def phase_of_def)
next
  case (Some rec)
  show ?thesis
  proof (cases "Transition (jr_Phase rec) dst")
    case None
    let ?st = "set_key (case mutate of Some f \<Rightarrow> f (jr_Status rec) | None \<Rightarrow> jr_Status rec)
      ''phase'' (JStr (phase_str dst))"
    let ?rec = "rec\<lparr>jr_Phase := dst, jr_Status := ?st, jr_UpdatedAt := now\<rparr>"
    have "TransitionJob now i dst mutate d =
        (add_event now i dst ?st (write_job now dst ?st i d), Inr ?rec)"
      by (simp add: TransitionJob_def Some None Let_def del: Transition_None)
    moreover from None have "CanTransition (jr_Phase rec) dst" by simp
    ultimately show ?thesis using Some tbl_find_Some[OF Some]
      by (intro ok[of "jr_Phase rec" ?st ?rec]) (simp_all add: phase_of_def json_simps)
  next
    case e: (Some e)
    then have "\<not> CanTransition (jr_Phase rec) dst"
      by (metis Transition_None option.distinct(1))
    with Some e show ?thesis
      by (intro illegal[of "jr_Phase rec"]) (auto simp: TransitionJob_def phase_of_def)
  qed
qed

lemma SetJobCondition_cases:
  obtains (idle) r where "SetJobCondition now i c d = (d, r)"
      "r = Inl ErrNotFound \<and> phase_of d i = None \<or> r = Inr False \<and> phase_of d i \<noteq> None"
  | (ok) p st where "phase_of d i = Some p"
      "SetJobCondition now i c d = (add_event now i p st (write_job now p st i d), Inr True)"
proof (cases "tbl_find jr_JobID i (jobs d)")
  case None
  then show ?thesis by (intro idle) (auto simp: SetJobCondition_def phase_of_def)
next
  case (Some rec)
  show ?thesis
  proof (cases "replace_condition (str_or c ''type'') c (arr_or (jr_Status rec) ''conditions'')")
    case None
    with Some show ?thesis by (intro idle) (auto simp: SetJobCondition_def phase_of_def)
  next
    case (Some cs)
    with \<open>tbl_find jr_JobID i (jobs d) = Some rec\<close> show ?thesis
      by (intro ok[of "jr_Phase rec" "set_key (jr_Status rec) ''conditions'' (JArr cs)"])
        (simp_all add: SetJobCondition_def phase_of_def Let_def)
  qed
qed

text \<open>The operations change the history of no other job, and only at its end.\<close>

lemma history_insertJobTx:
  "history (fst (insertJobTx now rec d)) k =
     history d k @ (if k = jr_JobID rec \<and> k \<notin> set (job_ids d) then [jr_Phase rec] else [])"
proof (cases rule: insertJobTx_cases[of rec d now])
  case (ok d')
  then have "history d' k = history (add_event now (jr_JobID rec) (jr_Phase rec) (jr_Status rec) d) k"
    by (simp add: history_def events_of_def)
  with ok show ?thesis by simp
qed auto

lemma history_TransitionJob:
  "history (fst (TransitionJob now i dst mutate d)) k = history d k @
     (if k = i \<and> (\<exists>p. phase_of d i = Some p \<and> CanTransition p dst) then [dst] else [])"
  by (cases rule: TransitionJob_cases[of d i now dst mutate]) auto

lemma phase_of_TransitionJob:
  "phase_of (fst (TransitionJob now i dst mutate d)) k =
     (if k = i \<and> (\<exists>p. phase_of d i = Some p \<and> CanTransition p dst) then Some dst else phase_of d k)"
  by (cases rule: TransitionJob_cases[of d i now dst mutate]) (auto simp: phase_of_write_job)

lemma phase_of_SetJobCondition: "phase_of (fst (SetJobCondition now i c d)) k = phase_of d k"
  by (cases rule: SetJobCondition_cases[of now i c d]) (auto simp: phase_of_write_job)

lemma frame_TransitionJob [simp]:
  "tasks (fst (TransitionJob now i dst mutate d)) = tasks d"
  "usage_ledger (fst (TransitionJob now i dst mutate d)) = usage_ledger d"
  "sessions (fst (TransitionJob now i dst mutate d)) = sessions d"
  "job_ids (fst (TransitionJob now i dst mutate d)) = job_ids d"
  by (cases rule: TransitionJob_cases[of d i now dst mutate]; simp)+

lemma frame_SetJobCondition [simp]:
  "tasks (fst (SetJobCondition now i c d)) = tasks d"
  "usage_ledger (fst (SetJobCondition now i c d)) = usage_ledger d"
  "sessions (fst (SetJobCondition now i c d)) = sessions d"
  "job_ids (fst (SetJobCondition now i c d)) = job_ids d"
  by (cases rule: SetJobCondition_cases[of now i c d]; auto)+

text \<open>The condition list after \<open>SetJobCondition\<close> holds the condition, once it was written.\<close>

lemma replace_condition_mem: "replace_condition ty c cs = Some cs' \<Longrightarrow> JObj c \<in> set cs'"
  by (induction ty c cs arbitrary: cs' rule: replace_condition.induct) (auto split: if_splits)

lemma replace_condition_twice:
  assumes "get c ''type'' = Some (JStr ty)" and "replace_condition ty c cs = Some cs'"
  shows "replace_condition ty c cs' = None"
  using assms
  by (induction ty c cs arbitrary: cs' rule: replace_condition.induct) (auto split: if_splits)

text \<open>No more than one condition of each type is kept by \<open>SetJobCondition\<close>.\<close>

definition has_type :: "string \<Rightarrow> json \<Rightarrow> bool" where
  "has_type ty x = (case x of JObj m \<Rightarrow> get m ''type'' = Some (JStr ty) | _ \<Rightarrow> False)"

lemma replace_condition_count:
  assumes "get c ''type'' = Some (JStr ty)" and "replace_condition ty c cs = Some cs'"
  shows "length (filter (has_type ty) cs') = max 1 (length (filter (has_type ty) cs))"
    and "ty' \<noteq> ty \<Longrightarrow> filter (has_type ty') cs' = filter (has_type ty') cs"
  using assms
  by (induction ty c cs arbitrary: cs' rule: replace_condition.induct)
    (auto simp: has_type_def split: if_splits)

section \<open>Pages of \<open>ListJobs\<close>\<close>

text \<open>Consecutive pages are consecutive pieces of one sorted list.\<close>

lemma ListJobs_page:
  "ListJobs d tenant ph n off @ ListJobs d tenant ph m (off + n) = ListJobs d tenant ph (n + m) off"
  by (simp add: ListJobs_def take_add) (simp add: add.commute)

lemma ListJobs_tenant: "r \<in> set (ListJobs d tenant ph n off) \<Longrightarrow> tenant \<noteq> [] \<Longrightarrow> jr_Tenant r = tenant"
  unfolding ListJobs_def by (drule in_set_takeD, drule in_set_dropD) auto

end
