(* ===== verification/Store_Tasks.thy ===== *)
theory Store_Tasks
  imports Store_Jobs
begin

text \<open>
  The work queue and the usage ledger of \<open>internal/store/tasks.go\<close>: claiming a pending job, task
  rows, idempotent usage recording and its aggregation, and the session records of
  \<open>internal/store/sessions.go\<close>.
\<close>

section \<open>Claiming and following tasks\<close>

text \<open>
  \<open>BindJob\<close> claims with \<open>FOR UPDATE SKIP LOCKED\<close>: \<open>locked i\<close> says that another open transaction
  holds the row of job \<open>i\<close>, in which case the query returns no row. The job row, its event and
  the task row are written in one transaction; a duplicate task id rolls all of it back.
\<close>

definition BindJob ::
  "time \<Rightarrow> (string \<Rightarrow> bool) \<Rightarrow> string \<Rightarrow> string \<Rightarrow> string \<Rightarrow> obj \<Rightarrow> db \<Rightarrow> job_record tx" where
  "BindJob now locked i taskID target placement d =
     (case (if locked i then None else tbl_find jr_JobID i (jobs d)) of
        None \<Rightarrow> (d, Inl ErrNotFound)
      | Some rec \<Rightarrow>
          if jr_Phase rec \<noteq> Pending then (d, Inl (ErrNotPending i (jr_Phase rec)))
          else
            (case Transition (jr_Phase rec) Scheduled of
               Some e \<Rightarrow> (d, Inl (ErrFsm e))
             | None \<Rightarrow>
                 (let st1 = set_key (jr_Status rec) ''phase'' (JStr (phase_str Scheduled));
                      st2 = set_key st1 ''boundTarget'' (JStr target);
                      st3 = set_key st2 ''placement'' (JObj placement);
                      st = set_key st3 ''tasks'' (JArr [JObj [(''id'', JStr taskID),
                             (''target'', JStr target), (''state'', JStr ''QUEUED'')]]);
                      d1 = write_job now Scheduled st i d;
                      d2 = add_event now i Scheduled st d1
                  in if tbl_has tk_TaskID taskID (tasks d) then (d, Inl ErrDuplicateKey)
                     else (d2\<lparr>tasks := tasks d2 @ [\<lparr>tk_TaskID = taskID, tk_JobID = i,
                              tk_Target = target, tk_AdapterTaskID = None, tk_State = ''QUEUED'',
                              tk_Error = None, tk_Result = None,
                              tk_CreatedAt = now, tk_UpdatedAt = now\<rparr>]\<rparr>,
                           Inr (rec\<lparr>jr_Phase := Scheduled, jr_Status := st\<rparr>)))))"

definition PendingJobs :: "db \<Rightarrow> nat \<Rightarrow> job_record list" where
  "PendingJobs d limit = take limit (sort_key jr_CreatedAt (filter (\<lambda>r. jr_Phase r = Pending) (jobs d)))"

definition ActiveTasks :: "db \<Rightarrow> task_record list" where
  "ActiveTasks d = filter (\<lambda>t. case phase_of d (tk_JobID t) of
      Some p \<Rightarrow> p \<in> {Scheduled, Submitted, Running} | None \<Rightarrow> False) (tasks d)"

definition TaskForJob :: "db \<Rightarrow> string \<Rightarrow> store_error + task_record" where
  "TaskForJob d i =
     (case sort_key (\<lambda>t. - tk_CreatedAt t) (filter (\<lambda>t. tk_JobID t = i) (tasks d)) of
        [] \<Rightarrow> Inl ErrNotFound | t # _ \<Rightarrow> Inr t)"

text \<open>COALESCE keeps a column when the new value is NULL; NULLIF makes the empty id NULL.\<close>

definition coalesce :: "'a option \<Rightarrow> 'a option \<Rightarrow> 'a option" where
  "coalesce a b = (case a of Some x \<Rightarrow> Some x | None \<Rightarrow> b)"

definition UpdateTask ::
  "time \<Rightarrow> string \<Rightarrow> string \<Rightarrow> string \<Rightarrow> obj option \<Rightarrow> obj option \<Rightarrow> db \<Rightarrow> unit tx" where
  "UpdateTask now taskID adapterTaskID state errDetail result d =
     (if \<not> tbl_has tk_TaskID taskID (tasks d) then (d, Inl ErrNotFound)
      else (d\<lparr>tasks := tbl_update tk_TaskID taskID
         (\<lambda>t. t\<lparr>tk_AdapterTaskID := coalesce (if adapterTaskID = [] then None else Some adapterTaskID)
                                       (tk_AdapterTaskID t),
                tk_State := state,
                tk_Error := coalesce errDetail (tk_Error t),
                tk_Result := coalesce result (tk_Result t),
                tk_UpdatedAt := now\<rparr>) (tasks d)\<rparr>, Inr ()))"

section \<open>The usage ledger\<close>

text \<open>
  One INSERT with \<open>ON CONFLICT (task_id, unit) DO NOTHING\<close>; the identity value is consumed either
  way. \<open>RecordUsage\<close> does this for every unit of the usage map, each in its own statement.
\<close>

definition ledger_key :: "ledger_row \<Rightarrow> string \<times> string" where
  "ledger_key r = (lg_TaskID r, lg_Unit r)"

definition insert_usage ::
  "time \<Rightarrow> string \<Rightarrow> string \<Rightarrow> string \<Rightarrow> string \<Rightarrow> string \<times> float64 \<Rightarrow> db \<Rightarrow> db" where
  "insert_usage now i taskID tenant target ua d =
     (let d1 = d\<lparr>next_ledger := Suc (next_ledger d)\<rparr>
      in if tbl_has ledger_key (taskID, fst ua) (usage_ledger d) then d1
         else d1\<lparr>usage_ledger := usage_ledger d @ [\<lparr>lg_ID = next_ledger d, lg_JobID = i,
                lg_TaskID = taskID, lg_Tenant = tenant, lg_Target = target, lg_Unit = fst ua,
                lg_Amount = snd ua, lg_RecordedAt = now\<rparr>]\<rparr>)"

definition RecordUsage ::
  "time \<Rightarrow> string \<Rightarrow> string \<Rightarrow> string \<Rightarrow> string \<Rightarrow> (string \<times> float64) list \<Rightarrow> db \<Rightarrow> db" where
  "RecordUsage now i taskID tenant target usage d =
     fold (insert_usage now i taskID tenant target) usage d"

record usage_total =
  ut_Target :: string
  ut_Unit :: string
  ut_Amount :: float64

definition TenantUsage :: "db \<Rightarrow> string \<Rightarrow> time \<Rightarrow> time \<Rightarrow> usage_total list" where
  "TenantUsage d tenant from to =
     (let rows = filter (\<lambda>r. lg_Tenant r = tenant \<and> (IsZero from \<or> from \<le> lg_RecordedAt r)
                                \<and> (IsZero to \<or> lg_RecordedAt r < to)) (usage_ledger d)
      in map (\<lambda>(t, u). \<lparr>ut_Target = t, ut_Unit = u,
               ut_Amount = sum_rows lg_Amount (\<lambda>r. lg_Target r = t \<and> lg_Unit r = u) rows\<rparr>)
           (sort (remdups (map (\<lambda>r. (lg_Target r, lg_Unit r)) rows))))"

definition UsageCountForTask :: "db \<Rightarrow> string \<Rightarrow> nat" where
  "UsageCountForTask d taskID = length (filter (\<lambda>r. lg_TaskID r = taskID) (usage_ledger d))"

definition NotifyJobs :: "db \<Rightarrow> db" where
  "NotifyJobs d = d\<lparr>notifications := notifications d @ [[]]\<rparr>"

section \<open>Sessions\<close>

definition Live :: "session_record \<Rightarrow> time \<Rightarrow> bool" where
  "Live s now = (if ss_ClosedAt s \<noteq> None then False
     else (case ss_ExpiresAt s of None \<Rightarrow> True | Some e \<Rightarrow> now < e))"

definition InsertSession :: "time \<Rightarrow> session_record \<Rightarrow> db \<Rightarrow> unit tx" where
  "InsertSession now rec d =
     (if tbl_has ss_SessionID (ss_SessionID rec) (sessions d) then (d, Inl ErrDuplicateKey)
      else (d\<lparr>sessions := sessions d @ [rec\<lparr>ss_CreatedAt := now\<rparr>]\<rparr>, Inr ()))"

definition GetSession :: "db \<Rightarrow> string \<Rightarrow> store_error + session_record" where
  "GetSession d i = (case tbl_find ss_SessionID i (sessions d) of
      Some r \<Rightarrow> Inr r | None \<Rightarrow> Inl ErrSessionNotFound)"

definition CloseSession :: "time \<Rightarrow> string \<Rightarrow> db \<Rightarrow> db" where
  "CloseSession now i d = d\<lparr>sessions := tbl_update ss_SessionID i
     (\<lambda>s. s\<lparr>ss_ClosedAt := coalesce (ss_ClosedAt s) (Some now)\<rparr>) (sessions d)\<rparr>"

text \<open>
  Two statements the dispatcher issues itself (\<open>internal/dispatch/sessions.go\<close>): stamping the
  session id into a job's status, without an event, and closing the sessions whose expiry passed.
\<close>

definition stampSessionID :: "time \<Rightarrow> string \<Rightarrow> string \<Rightarrow> db \<Rightarrow> db" where
  "stampSessionID now i sid d = d\<lparr>jobs := tbl_update jr_JobID i
     (\<lambda>r. r\<lparr>jr_Status := set_key (jr_Status r) ''sessionId'' (JStr sid), jr_UpdatedAt := now\<rparr>)
     (jobs d)\<rparr>"

definition sweepExpiredSessions :: "time \<Rightarrow> db \<Rightarrow> db" where
  "sweepExpiredSessions now d = d\<lparr>sessions := map
     (\<lambda>s. case ss_ExpiresAt s of
            Some e \<Rightarrow> if ss_ClosedAt s = None \<and> e < now then s\<lparr>ss_ClosedAt := Some now\<rparr> else s
          | None \<Rightarrow> s) (sessions d)\<rparr>"

section \<open>Effect of the operations\<close>

lemma phase_of_stampSessionID [simp]:
  "phase_of (stampSessionID now i sid d) = phase_of d"
  "job_ids (stampSessionID now i sid d) = job_ids d"
  by (auto simp: phase_of_def stampSessionID_def tbl_find_update option.map_comp o_def job_ids_def)

text \<open>A swept session was dead already: the sweep never ends a live session.\<close>

lemma sweep_keeps_live:
  assumes "s \<in> set (sessions (sweepExpiredSessions now d))"
  shows "\<exists>s0 \<in> set (sessions d). ss_SessionID s = ss_SessionID s0 \<and> Live s now = Live s0 now"
proof -
  from assms obtain s0 where "s0 \<in> set (sessions d)"
    and "s = (case ss_ExpiresAt s0 of
            Some e \<Rightarrow> if ss_ClosedAt s0 = None \<and> e < now then s0\<lparr>ss_ClosedAt := Some now\<rparr> else s0
          | None \<Rightarrow> s0)"
    by (auto simp: sweepExpiredSessions_def)
  then show ?thesis by (intro bexI[of _ s0]) (auto simp: Live_def split: option.splits)
qed

lemma BindJob_cases:
  obtains (refused) e where "BindJob now locked i taskID target placement d = (d, Inl e)"
      "locked i \<or> phase_of d i \<noteq> Some Pending \<or> taskID \<in> set (map tk_TaskID (tasks d))"
  | (ok) st rec t where "\<not> locked i" "phase_of d i = Some Pending"
      "taskID \<notin> set (map tk_TaskID (tasks d))"
      "BindJob now locked i taskID target placement d =
         ((add_event now i Scheduled st (write_job now Scheduled st i d))\<lparr>tasks := tasks d @ [t]\<rparr>,
          Inr rec)"
      "tk_TaskID t = taskID" "tk_JobID t = i" "tk_Target t = target" "tk_State t = ''QUEUED''"
      "jr_Phase rec = Scheduled" "jr_JobID rec = i" "jr_Status rec = st"
      "get st ''boundTarget'' = Some (JStr target)" "get st ''placement'' = Some (JObj placement)"
proof (cases "\<not> locked i \<and> phase_of d i = Some Pending \<and> taskID \<notin> set (map tk_TaskID (tasks d))")
  case True
  then obtain rec where rec: "tbl_find jr_JobID i (jobs d) = Some rec" "jr_Phase rec = Pending"
    by (auto simp: phase_of_def)
  have t: "Transition Pending Scheduled = None" by (simp add: CanTransition_to)
  from True have nt: "\<not> tbl_has tk_TaskID taskID (tasks d)" "\<not> locked i"
    by (auto simp: tbl_has_def)
  show ?thesis
    by (rule ok) (use True rec(2) tbl_find_Some[OF rec(1)] in
      \<open>auto simp: BindJob_def rec t nt Let_def json_simps simp del: Transition_None\<close>)
next
  case False
  then have "\<exists>e. BindJob now locked i taskID target placement d = (d, Inl e)"
    by (auto simp: BindJob_def phase_of_def Let_def tbl_has_def split: option.splits)
  with False refused show ?thesis by blast
qed

lemma frame_UpdateTask [simp]:
  "jobs (fst (UpdateTask now t a s e r d)) = jobs d"
  "job_events (fst (UpdateTask now t a s e r d)) = job_events d"
  "next_seq (fst (UpdateTask now t a s e r d)) = next_seq d"
  "usage_ledger (fst (UpdateTask now t a s e r d)) = usage_ledger d"
  "next_ledger (fst (UpdateTask now t a s e r d)) = next_ledger d"
  "sessions (fst (UpdateTask now t a s e r d)) = sessions d"
  "projects (fst (UpdateTask now t a s e r d)) = projects d"
  "project_quotas (fst (UpdateTask now t a s e r d)) = project_quotas d"
  "map tk_TaskID (tasks (fst (UpdateTask now t a s e r d))) = map tk_TaskID (tasks d)"
  "map tk_JobID (tasks (fst (UpdateTask now t a s e r d))) = map tk_JobID (tasks d)"
  by (simp_all add: UpdateTask_def tbl_update_def o_def if_distrib cong: if_cong)

lemma insert_usage_frame [simp]:
  "jobs (insert_usage now i taskID tenant target ua d) = jobs d"
  "job_events (insert_usage now i taskID tenant target ua d) = job_events d"
  "next_seq (insert_usage now i taskID tenant target ua d) = next_seq d"
  "tasks (insert_usage now i taskID tenant target ua d) = tasks d"
  "sessions (insert_usage now i taskID tenant target ua d) = sessions d"
  "projects (insert_usage now i taskID tenant target ua d) = projects d"
  "project_quotas (insert_usage now i taskID tenant target ua d) = project_quotas d"
  by (simp_all add: insert_usage_def Let_def)

lemma RecordUsage_frame [simp]:
  "jobs (RecordUsage now i taskID tenant target usage d) = jobs d"
  "job_events (RecordUsage now i taskID tenant target usage d) = job_events d"
  "next_seq (RecordUsage now i taskID tenant target usage d) = next_seq d"
  "tasks (RecordUsage now i taskID tenant target usage d) = tasks d"
  "sessions (RecordUsage now i taskID tenant target usage d) = sessions d"
  "projects (RecordUsage now i taskID tenant target usage d) = projects d"
  "project_quotas (RecordUsage now i taskID tenant target usage d) = project_quotas d"
  unfolding RecordUsage_def by (induction usage arbitrary: d) simp_all

lemma insert_usage_has:
  "tbl_has ledger_key k (usage_ledger (insert_usage now i taskID tenant target ua d)) \<longleftrightarrow>
     tbl_has ledger_key k (usage_ledger d) \<or> k = (taskID, fst ua)"
  by (auto simp: insert_usage_def Let_def tbl_has_def ledger_key_def)

lemma RecordUsage_has:
  "tbl_has ledger_key k (usage_ledger (RecordUsage now i taskID tenant target usage d)) \<longleftrightarrow>
     tbl_has ledger_key k (usage_ledger d) \<or> k \<in> Pair taskID ` fst ` set usage"
  unfolding RecordUsage_def
  by (induction usage arbitrary: d) (auto simp: insert_usage_has)

lemma insert_usage_prefix:
  "prefix (usage_ledger d) (usage_ledger (insert_usage now i taskID tenant target ua d))"
  by (simp add: insert_usage_def Let_def)

lemma RecordUsage_prefix:
  "prefix (usage_ledger d) (usage_ledger (RecordUsage now i taskID tenant target usage d))"
  unfolding RecordUsage_def
proof (induction usage arbitrary: d)
  case (Cons ua usage)
  show ?case using prefix_order.trans[OF insert_usage_prefix Cons] by simp
qed simp

lemma insert_usage_distinct:
  "distinct (map ledger_key (usage_ledger d)) \<Longrightarrow>
   distinct (map ledger_key (usage_ledger (insert_usage now i taskID tenant target ua d)))"
  by (auto simp: insert_usage_def Let_def tbl_has_def ledger_key_def)

lemma RecordUsage_distinct:
  "distinct (map ledger_key (usage_ledger d)) \<Longrightarrow>
   distinct (map ledger_key (usage_ledger (RecordUsage now i taskID tenant target usage d)))"
  unfolding RecordUsage_def
  by (induction usage arbitrary: d) (simp_all add: insert_usage_distinct)

text \<open>Once every unit of a task is in the ledger, recording it again adds no row.\<close>

lemma RecordUsage_idle:
  assumes "\<forall>u \<in> fst ` set usage. tbl_has ledger_key (taskID, u) (usage_ledger d)"
  shows "usage_ledger (RecordUsage now i taskID tenant target usage d) = usage_ledger d"
  using assms unfolding RecordUsage_def
proof (induction usage arbitrary: d)
  case (Cons ua usage)
  then have "usage_ledger (insert_usage now i taskID tenant target ua d) = usage_ledger d"
    by (simp add: insert_usage_def Let_def)
  with Cons show ?case by simp
qed simp

end
