(* ===== verification/Store_Tenancy.thy ===== *)
theory Store_Tenancy
  imports Store_Tasks
begin

text \<open>
  Projects, fair-share weights and quotas of \<open>internal/store/tenancy.go\<close>, with the SQL function
  \<open>declared_cost\<close> of migration 00005. The quota check and the job insertion are one transaction,
  so committed usage never passes the limit by an admission, and of a burst of equal submissions
  exactly the affordable number is admitted.
\<close>

section \<open>Projects\<close>

definition splitTenant :: "string \<Rightarrow> string \<times> string" where
  "splitTenant tenant = (case Cut (CHR ''/'') tenant of
      Some (org, name) \<Rightarrow> (org, name) | None \<Rightarrow> (tenant, ''default''))"

definition GetProject :: "db \<Rightarrow> string \<Rightarrow> store_error + project_record" where
  "GetProject d tenant = (case tbl_find pj_Tenant tenant (projects d) of
      Some p \<Rightarrow> Inr p | None \<Rightarrow> Inl ErrProjectNotFound)"

definition EnsureProject :: "time \<Rightarrow> string \<Rightarrow> db \<Rightarrow> project_record tx" where
  "EnsureProject now tenant d =
     (if tenant = [] then (d, Inl ErrEmptyTenant)
      else
        (let (org, name) = splitTenant tenant;
             d1 = (if tbl_has pj_Tenant tenant (projects d) then d
                   else d\<lparr>projects := projects d @ [\<lparr>pj_Tenant = tenant, pj_Org = org,
                     pj_Name = name, pj_Weight = 1, pj_CreatedAt = now, pj_ArchivedAt = None\<rparr>]\<rparr>)
         in (d1, GetProject d1 tenant)))"

definition ListProjects :: "db \<Rightarrow> bool \<Rightarrow> project_record list" where
  "ListProjects d includeArchived =
     sort_key pj_Tenant (filter (\<lambda>p. includeArchived \<or> pj_ArchivedAt p = None) (projects d))"

definition ArchiveProject :: "time \<Rightarrow> string \<Rightarrow> db \<Rightarrow> db \<times> bool" where
  "ArchiveProject now tenant d =
     (d\<lparr>projects := tbl_update pj_Tenant tenant
        (\<lambda>p. p\<lparr>pj_ArchivedAt := coalesce (pj_ArchivedAt p) (Some now)\<rparr>) (projects d)\<rparr>,
      tbl_has pj_Tenant tenant (projects d))"

text \<open>The table's CHECK constraint refuses a weight below 1.\<close>

definition SetProjectWeight :: "string \<Rightarrow> int \<Rightarrow> db \<Rightarrow> unit tx" where
  "SetProjectWeight tenant weight d =
     (if \<not> tbl_has pj_Tenant tenant (projects d) then (d, Inl ErrProjectNotFound)
      else if weight < 1 then (d, Inl ErrCheckConstraint)
      else (d\<lparr>projects := tbl_update pj_Tenant tenant (\<lambda>p. p\<lparr>pj_Weight := weight\<rparr>) (projects d)\<rparr>,
            Inr ()))"

text \<open>The Go map the dispatcher reads: listed tenants default to 1, rows override.\<close>

definition ProjectWeights :: "db \<Rightarrow> string list \<Rightarrow> string \<rightharpoonup> int" where
  "ProjectWeights d tenants t =
     (if t \<in> set tenants
      then Some (case tbl_find pj_Tenant t (projects d) of Some p \<Rightarrow> pj_Weight p | None \<Rightarrow> 1)
      else None)"

section \<open>Quotas\<close>

definition quota_key :: "quota_record \<Rightarrow> string \<times> string" where
  "quota_key q = (qt_Tenant q, qt_Unit q)"

definition SetQuota :: "string \<Rightarrow> string \<Rightarrow> float64 \<Rightarrow> db \<Rightarrow> unit tx" where
  "SetQuota tenant u limit d =
     (if limit < 0
      then (d\<lparr>project_quotas := filter (\<lambda>q. quota_key q \<noteq> (tenant, u)) (project_quotas d)\<rparr>, Inr ())
      else if tbl_has quota_key (tenant, u) (project_quotas d)
      then (d\<lparr>project_quotas := tbl_update quota_key (tenant, u) (\<lambda>q. q\<lparr>qt_Limit := limit\<rparr>)
                (project_quotas d)\<rparr>, Inr ())
      else if \<not> tbl_has pj_Tenant tenant (projects d) then (d, Inl ErrForeignKey)
      else (d\<lparr>project_quotas := project_quotas d @ [\<lparr>qt_Tenant = tenant, qt_Unit = u,
                qt_Limit = limit\<rparr>]\<rparr>, Inr ()))"

definition ListQuotas :: "db \<Rightarrow> string \<Rightarrow> quota_record list" where
  "ListQuotas d tenant = sort_key quota_key
     (filter (\<lambda>q. tenant = [] \<or> qt_Tenant q = tenant) (project_quotas d))"

text \<open>
  \<open>declared_cost(doc, unit)\<close>: the declared gate-model shots, 0 when the path is missing and for
  every other unit. The schema admits only numbers at that path.
\<close>

definition declared_cost :: "obj \<Rightarrow> string \<Rightarrow> float64" where
  "declared_cost doc u =
     (if u = ''shots''
      then (case get_num (docPath doc [''spec'', ''workload'', ''gateModel'']) ''shots'' of
              Some x \<Rightarrow> x | None \<Rightarrow> 0)
      else 0)"

definition committed :: "db \<Rightarrow> string \<Rightarrow> string \<Rightarrow> float64" where
  "committed d tenant u =
     sum_rows lg_Amount (\<lambda>r. lg_Tenant r = tenant \<and> lg_Unit r = u) (usage_ledger d) +
     sum_rows (\<lambda>j. declared_cost (jr_Doc j) u)
       (\<lambda>j. jr_Tenant j = tenant \<and> jr_Phase j \<notin> {Succeeded, Failed, Cancelled}) (jobs d)"

text \<open>The loop over the declared costs: the first overrun is returned.\<close>

fun check_quotas :: "db \<Rightarrow> string \<Rightarrow> (string \<times> float64) list \<Rightarrow> store_error option" where
  "check_quotas d tenant [] = None"
| "check_quotas d tenant ((u, requested) # costs) =
     (case tbl_find quota_key (tenant, u) (project_quotas d) of
        None \<Rightarrow> check_quotas d tenant costs
      | Some q \<Rightarrow>
          (if committed d tenant u + requested > qt_Limit q
           then Some (ErrQuotaExceeded u (qt_Limit q) (committed d tenant u) requested)
           else check_quotas d tenant costs))"

definition InsertJobWithQuota :: "time \<Rightarrow> job_record \<Rightarrow> (string \<times> float64) list \<Rightarrow> db \<Rightarrow> unit tx" where
  "InsertJobWithQuota now rec costs d =
     (case check_quotas d (jr_Tenant rec) costs of
        Some e \<Rightarrow> (d, Inl e)
      | None \<Rightarrow> insertJobTx now rec d)"

section \<open>Facts\<close>

lemma EnsureProject_found:
  assumes "tenant \<noteq> []"
  shows "\<exists>p. EnsureProject now tenant d = (fst (EnsureProject now tenant d), Inr p) \<and>
    pj_Tenant p = tenant \<and> tbl_find pj_Tenant tenant (projects (fst (EnsureProject now tenant d))) = Some p"
proof (cases "tbl_find pj_Tenant tenant (projects d)")
  case None
  moreover from None have "\<not> tbl_has pj_Tenant tenant (projects d)"
    by (simp add: tbl_find_None)
  ultimately show ?thesis using assms
    by (simp add: EnsureProject_def Let_def GetProject_def tbl_find_append split: prod.splits)
next
  case (Some p)
  moreover from Some have "tbl_has pj_Tenant tenant (projects d)"
    by (metis tbl_find_None option.distinct(1))
  ultimately show ?thesis using assms tbl_find_Some[OF Some]
    by (auto simp: EnsureProject_def Let_def GetProject_def split: prod.splits)
qed

lemma frame_EnsureProject [simp]:
  "jobs (fst (EnsureProject now tenant d)) = jobs d"
  "job_events (fst (EnsureProject now tenant d)) = job_events d"
  "next_seq (fst (EnsureProject now tenant d)) = next_seq d"
  "tasks (fst (EnsureProject now tenant d)) = tasks d"
  "usage_ledger (fst (EnsureProject now tenant d)) = usage_ledger d"
  "next_ledger (fst (EnsureProject now tenant d)) = next_ledger d"
  "project_quotas (fst (EnsureProject now tenant d)) = project_quotas d"
  by (simp_all add: EnsureProject_def Let_def split: prod.splits)

lemma insertJobTx_frame_quota:
  "usage_ledger (fst (insertJobTx now rec d)) = usage_ledger d"
  "project_quotas (fst (insertJobTx now rec d)) = project_quotas d"
  "tasks (fst (insertJobTx now rec d)) = tasks d"
  by (cases rule: insertJobTx_cases[of rec d now]; simp)+

lemma committed_insert:
  assumes "insertJobTx now rec d = (d', Inr ())"
  shows "committed d' tenant u = committed d tenant u +
    (if jr_Tenant rec = tenant \<and> jr_Phase rec \<notin> {Succeeded, Failed, Cancelled}
     then declared_cost (jr_Doc rec) u else 0)"
proof (cases rule: insertJobTx_cases[of rec d now])
  case (ok d'')
  with assms have "d' = d''" by simp
  with ok show ?thesis by (simp add: committed_def)
qed (use assms in simp)

lemma check_quotas_None:
  assumes "check_quotas d tenant costs = None" and "(u, requested) \<in> set costs"
    and "tbl_find quota_key (tenant, u) (project_quotas d) = Some q"
  shows "committed d tenant u + requested \<le> qt_Limit q"
  using assms
  by (induction d tenant costs rule: check_quotas.induct) (auto split: option.splits if_splits)

lemma InsertJobWithQuota_ok:
  assumes "InsertJobWithQuota now rec costs d = (d', Inr ())"
  shows "check_quotas d (jr_Tenant rec) costs = None" "insertJobTx now rec d = (d', Inr ())"
  using assms by (auto simp: InsertJobWithQuota_def split: option.splits)

text \<open>A burst of submissions, in the order in which the quota row lock serializes them.\<close>

fun submit_burst :: "time \<Rightarrow> (string \<times> float64) list \<Rightarrow> job_record list \<Rightarrow> db \<Rightarrow> db \<times> nat" where
  "submit_burst now costs [] d = (d, 0)"
| "submit_burst now costs (r # rs) d =
     (case InsertJobWithQuota now r costs d of
        (d1, Inr _) \<Rightarrow> (let (d2, n) = submit_burst now costs rs d1 in (d2, Suc n))
      | (d1, Inl _) \<Rightarrow> submit_burst now costs rs d1)"

definition affordable :: "float64 \<Rightarrow> float64 \<Rightarrow> float64 \<Rightarrow> nat" where
  "affordable limit used cost = nat \<lfloor>(limit - used) / cost\<rfloor>"

lemma affordable_step:
  assumes "0 < cost"
  shows "affordable limit used cost =
    (if used + cost \<le> limit then Suc (affordable limit (used + cost) cost) else 0)"
proof (cases "used + cost \<le> limit")
  case True
  have eq: "(limit - used) / cost = (limit - (used + cost)) / cost + 1"
    using assms by (simp add: field_simps)
  have "0 \<le> (limit - (used + cost)) / cost" using assms True by simp
  then have "0 \<le> \<lfloor>(limit - (used + cost)) / cost\<rfloor>" by simp
  then show ?thesis using True unfolding affordable_def eq by (simp add: nat_add_distrib)
next
  case False
  then have "(limit - used) / cost < 1" using assms by (simp add: field_simps)
  then have "\<lfloor>(limit - used) / cost\<rfloor> \<le> 0" by linarith
  with False show ?thesis by (simp add: affordable_def)
qed

lemma submit_burst_count:
  assumes "0 < cost" and "tbl_find quota_key (tenant, ''shots'') (project_quotas d) = Some q"
    and "\<And>r. r \<in> set rs \<Longrightarrow> jr_Tenant r = tenant \<and> jr_Phase r = Pending \<and>
           declared_cost (jr_Doc r) ''shots'' = cost"
    and "distinct (map jr_JobID rs)" and "set (map jr_JobID rs) \<inter> set (job_ids d) = {}"
  shows "snd (submit_burst now [(''shots'', cost)] rs d) =
    min (length rs) (affordable (qt_Limit q) (committed d tenant ''shots'') cost)"
  using assms(2-)
proof (induction rs arbitrary: d)
  case (Cons r rs)
  have r: "jr_Tenant r = tenant" "jr_Phase r = Pending" "declared_cost (jr_Doc r) ''shots'' = cost"
    using Cons.prems(2) by auto
  show ?case
  proof (cases "committed d tenant ''shots'' + cost \<le> qt_Limit q")
    case True
    from Cons.prems(4) have new: "jr_JobID r \<notin> set (job_ids d)" by auto
    then obtain d1 where ins: "insertJobTx now r d = (d1, Inr ())"
      and frame: "project_quotas d1 = project_quotas d" "job_ids d1 = job_ids d @ [jr_JobID r]"
      by (cases rule: insertJobTx_cases[of r d now]) (auto simp: job_ids_def)
    have "committed d1 tenant ''shots'' = committed d tenant ''shots'' + cost"
      using committed_insert[OF ins, of tenant "''shots''"] r by simp
    moreover have "snd (submit_burst now [(''shots'', cost)] rs d1) =
        min (length rs) (affordable (qt_Limit q) (committed d1 tenant ''shots'') cost)"
      using Cons.prems frame by (intro Cons.IH) auto
    moreover have "InsertJobWithQuota now r [(''shots'', cost)] d = (d1, Inr ())"
      using True Cons.prems(1) ins r by (simp add: InsertJobWithQuota_def)
    ultimately show ?thesis
      using True affordable_step[OF assms(1), of "qt_Limit q" "committed d tenant ''shots''"]
      by (simp add: Let_def case_prod_unfold)
  next
    case False
    then have "\<exists>e. InsertJobWithQuota now r [(''shots'', cost)] d = (d, Inl e)"
      using Cons.prems(1) r by (auto simp: InsertJobWithQuota_def)
    moreover have "snd (submit_burst now [(''shots'', cost)] rs d) =
        min (length rs) (affordable (qt_Limit q) (committed d tenant ''shots'') cost)"
      using Cons.prems by (intro Cons.IH) auto
    ultimately show ?thesis
      using False affordable_step[OF assms(1), of "qt_Limit q" "committed d tenant ''shots''"] by auto
  qed
qed simp

end
