(* ===== verification/Store_Records.thy ===== *)
theory Store_Records
  imports Store_Tenancy
begin

text \<open>
  The remaining repositories of \<open>internal/store\<close>: API tokens and the audit log (\<open>auth.go\<close>), ledger
  export and reconciliation (\<open>accounting.go\<close>), shadow placements (\<open>shadow.go\<close>) and game days
  (\<open>game_days.go\<close>). The audit log, the ledger, shadow placements, reconciliation runs and game
  days are append-only.
\<close>

section \<open>Tokens and the audit log\<close>

definition InsertToken :: "time \<Rightarrow> token_record \<Rightarrow> db \<Rightarrow> unit tx" where
  "InsertToken now t d =
     (if tr_Role t \<notin> {''viewer'', ''member'', ''operator'', ''admin''} then (d, Inl ErrCheckConstraint)
      else if tbl_has tr_ID (tr_ID t) (api_tokens d) then (d, Inl ErrDuplicateKey)
      else (d\<lparr>api_tokens := api_tokens d @
              [t\<lparr>tr_CreatedAt := now, tr_LastUsedAt := None, tr_RevokedAt := None\<rparr>]\<rparr>, Inr ()))"

definition GetToken :: "db \<Rightarrow> string \<Rightarrow> store_error + token_record" where
  "GetToken d i = (case tbl_find tr_ID i (api_tokens d) of
      Some t \<Rightarrow> Inr t | None \<Rightarrow> Inl ErrTokenNotFound)"

text \<open>Newest first; the query does not select the hash, so it reads as the empty string.\<close>

definition ListTokens :: "db \<Rightarrow> string \<Rightarrow> token_record list" where
  "ListTokens d project = map (\<lambda>t. t\<lparr>tr_TokenHash := []\<rparr>)
     (sort_key (\<lambda>t. - tr_CreatedAt t)
       (filter (\<lambda>t. project = [] \<or> tr_Project t = project) (api_tokens d)))"

definition RevokeToken :: "time \<Rightarrow> string \<Rightarrow> db \<Rightarrow> db \<times> bool" where
  "RevokeToken now i d =
     (d\<lparr>api_tokens := tbl_update tr_ID i
         (\<lambda>t. t\<lparr>tr_RevokedAt := coalesce (tr_RevokedAt t) (Some now)\<rparr>) (api_tokens d)\<rparr>,
      tbl_has tr_ID i (api_tokens d))"

definition TouchToken :: "time \<Rightarrow> string \<Rightarrow> db \<Rightarrow> db" where
  "TouchToken now i d = d\<lparr>api_tokens := tbl_update tr_ID i
     (\<lambda>t. t\<lparr>tr_LastUsedAt := Some now\<rparr>) (api_tokens d)\<rparr>"

definition RecordAudit :: "audit_entry \<Rightarrow> db \<Rightarrow> db" where
  "RecordAudit e d = d\<lparr>audit_log := audit_log d @ [e]\<rparr>"

definition AuditEntries :: "db \<Rightarrow> string \<Rightarrow> nat \<Rightarrow> audit_entry list" where
  "AuditEntries d decision limit =
     take limit (rev (filter (\<lambda>e. decision = [] \<or> au_Decision e = decision) (audit_log d)))"

section \<open>Ledger export and reconciliation\<close>

definition LedgerEntries :: "db \<Rightarrow> string \<Rightarrow> ledger_row list" where
  "LedgerEntries d tenant =
     sort_key lg_ID (filter (\<lambda>r. tenant = [] \<or> lg_Tenant r = tenant) (usage_ledger d))"

definition ledger_total :: "db \<Rightarrow> string \<Rightarrow> string \<Rightarrow> float64" where
  "ledger_total d i u = sum_rows lg_Amount (\<lambda>r. lg_JobID r = i \<and> lg_Unit r = u) (usage_ledger d)"

text \<open>
  One usage entry of a job's status as the record set reads it, with NULL for a missing unit or
  amount; an element that is no object fails the query. A row is selected when the amount differs
  from the ledger's total (0 for a NULL unit), and a selected row with a NULL cannot be scanned.
\<close>

fun usage_entry :: "json \<Rightarrow> (string option \<times> float64 option) option" where
  "usage_entry (JObj m) = Some (get_str m ''unit'', get_num m ''amount'')"
| "usage_entry _ = None"

definition entry_total :: "db \<Rightarrow> string \<Rightarrow> string option \<Rightarrow> float64" where
  "entry_total d i u = (case u of Some x \<Rightarrow> ledger_total d i x | None \<Rightarrow> 0)"

definition job_mismatches :: "db \<Rightarrow> job_record \<Rightarrow> usage_mismatch list option" where
  "job_mismatches d j =
     (let es = map usage_entry (arr_or (jr_Status j) ''usage'');
          bad = filter (\<lambda>(u, a). a \<noteq> Some (entry_total d (jr_JobID j) u)) (map the es)
      in if None \<in> set es \<or> (\<exists>(u, a) \<in> set bad. u = None \<or> a = None) then None
         else Some (map (\<lambda>(u, a). \<lparr>um_JobID = jr_JobID j, um_Unit = the u, um_Status = the a,
                            um_Ledger = entry_total d (jr_JobID j) u\<rparr>) bad))"

definition ReconcileUsage :: "time \<Rightarrow> db \<Rightarrow> (nat \<times> usage_mismatch list) tx" where
  "ReconcileUsage now d =
     (let done = filter (\<lambda>j. jr_Phase j = Succeeded) (jobs d);
          ms = map (job_mismatches d) done
      in if None \<in> set ms then (d, Inl ErrScan)
         else
           (let mis = sort_key (\<lambda>m. (um_JobID m, um_Unit m)) (concat (map the ms))
            in (d\<lparr>reconciliation_runs := reconciliation_runs d @
                    [\<lparr>rr_Checked = length done, rr_Mismatches = mis, rr_At = now\<rparr>]\<rparr>,
                Inr (length done, mis))))"

definition LastReconciliation :: "db \<Rightarrow> (nat \<times> nat \<times> time) option" where
  "LastReconciliation d = (if reconciliation_runs d = [] then None
     else (let r = last (reconciliation_runs d)
           in Some (rr_Checked r, length (rr_Mismatches r), rr_At r)))"

section \<open>Shadow placements and game days\<close>

definition RecordShadowPlacement :: "time \<Rightarrow> shadow_placement \<Rightarrow> db \<Rightarrow> db" where
  "RecordShadowPlacement now p d =
     d\<lparr>shadow_placements := shadow_placements d @ [p\<lparr>sp_At := now\<rparr>]\<rparr>"

definition ShadowPlacementsSince :: "db \<Rightarrow> string \<Rightarrow> time \<Rightarrow> shadow_placement list" where
  "ShadowPlacementsSince d policy since = sort_key (\<lambda>p. - sp_At p)
     (filter (\<lambda>p. sp_Policy p = policy \<and> since \<le> sp_At p) (shadow_placements d))"

definition ShadowPolicies :: "db \<Rightarrow> string list" where
  "ShadowPolicies d = sort (remdups (map sp_Policy (shadow_placements d)))"

definition RecordGameDay :: "game_day \<Rightarrow> db \<Rightarrow> db" where
  "RecordGameDay g d = d\<lparr>game_days := game_days d @ [g]\<rparr>"

definition LastGameDay :: "db \<Rightarrow> game_day option" where
  "LastGameDay d = (case sort_key (\<lambda>g. - gd_StartedAt g) (game_days d) of
      [] \<Rightarrow> None | g # _ \<Rightarrow> Some g)"

section \<open>Facts\<close>

lemma RevokeToken_revoked:
  assumes "tbl_find tr_ID i (api_tokens d) = Some t"
  shows "\<exists>t'. tbl_find tr_ID i (api_tokens (fst (RevokeToken now i d))) = Some t' \<and>
    tr_RevokedAt t' \<noteq> None \<and> tr_TokenHash t' = tr_TokenHash t"
  using assms by (auto simp: RevokeToken_def tbl_find_update coalesce_def split: option.splits)

lemma token_update_frame [simp]:
  "jobs (fst (RevokeToken now i d)) = jobs d" "jobs (TouchToken now i d) = jobs d"
  "audit_log (TouchToken now i d) = audit_log d" "audit_log (fst (RevokeToken now i d)) = audit_log d"
  by (simp_all add: RevokeToken_def TouchToken_def)

lemma job_mismatches_exact:
  assumes "arr_or (jr_Status j) ''usage'' =
      map (\<lambda>(u, a). JObj [(''unit'', JStr u), (''amount'', JNum a)]) us"
    and "\<And>u a. (u, a) \<in> set us \<Longrightarrow> ledger_total d (jr_JobID j) u = a"
  shows "job_mismatches d j = Some []"
proof -
  have es: "map usage_entry (arr_or (jr_Status j) ''usage'') = map (\<lambda>(u, a). Some (Some u, Some a)) us"
    unfolding assms(1) by (auto simp: get_defs get_def)
  have bad: "filter (\<lambda>(u, a). a \<noteq> Some (entry_total d (jr_JobID j) u)) (map (\<lambda>(u, a). (Some u, Some a)) us) = []"
    using assms(2) by (fastforce simp: filter_empty_conv entry_total_def)
  have the: "map the (map (\<lambda>(u, a). Some (Some u, Some a)) us) = map (\<lambda>(u, a). (Some u, Some a)) us" by auto
  show ?thesis unfolding job_mismatches_def es Let_def the bad by auto
qed

lemma LastReconciliation_ReconcileUsage:
  assumes "ReconcileUsage now d = (d', Inr (n, ms))"
  shows "LastReconciliation d' = Some (n, length ms, now)"
  using assms by (auto simp: ReconcileUsage_def LastReconciliation_def Let_def split: if_splits)

end
