(* ===== verification/Store_Invariants.thy ===== *)
theory Store_Invariants
  imports Store_Records
begin

text \<open>
  The step relation of the store: one rule per transaction the control plane runs, with arbitrary
  arguments, so a run is any interleaving of the API handlers, the dispatcher's executors and
  the administrative calls. The phases a \<open>TransitionJob\<close> call of the code can ask for are
  \<open>SUBMITTED\<close>, \<open>RUNNING\<close>, \<open>SUCCEEDED\<close>, \<open>FAILED\<close> and \<open>CANCELLED\<close>; \<open>SCHEDULED\<close> is written by \<open>BindJob\<close>
  only and nothing asks for \<open>PENDING\<close>. Every reachable database satisfies \<open>store_inv\<close>.
\<close>

section \<open>The invariant\<close>

definition jobs_ok :: "db \<Rightarrow> bool" where
  "jobs_ok d \<longleftrightarrow> distinct (job_ids d) \<and>
     (\<forall>i p. phase_of d i = Some p \<longrightarrow> legal_path (history d i) \<and> last (history d i) = p) \<and>
     (\<forall>i. phase_of d i = None \<longrightarrow> history d i = [])"

definition seqs_ok :: "db \<Rightarrow> bool" where
  "seqs_ok d \<longleftrightarrow> sorted_wrt (<) (map ev_Seq (job_events d)) \<and>
     (\<forall>e \<in> set (job_events d). 0 < ev_Seq e \<and> ev_Seq e < next_seq d) \<and> 0 < next_seq d"

definition tasks_ok :: "db \<Rightarrow> bool" where
  "tasks_ok d \<longleftrightarrow> distinct (map tk_TaskID (tasks d)) \<and> distinct (map tk_JobID (tasks d)) \<and>
     (\<forall>t \<in> set (tasks d). Scheduled \<in> set (history d (tk_JobID t))) \<and>
     (\<forall>i. Scheduled \<in> set (history d i) \<longrightarrow> i \<in> set (map tk_JobID (tasks d)))"

definition ledger_ok :: "db \<Rightarrow> bool" where
  "ledger_ok d \<longleftrightarrow> distinct (map ledger_key (usage_ledger d))"

definition store_inv :: "db \<Rightarrow> bool" where
  "store_inv d \<longleftrightarrow> jobs_ok d \<and> seqs_ok d \<and> tasks_ok d \<and> ledger_ok d"

text \<open>The part of the database the invariant reads.\<close>

definition same_core :: "db \<Rightarrow> db \<Rightarrow> bool" where
  "same_core d d' \<longleftrightarrow> phase_of d' = phase_of d \<and> job_ids d' = job_ids d \<and>
     job_events d' = job_events d \<and> next_seq d' = next_seq d \<and>
     map tk_TaskID (tasks d') = map tk_TaskID (tasks d) \<and>
     map tk_JobID (tasks d') = map tk_JobID (tasks d)"

lemma same_core_read:
  assumes "same_core d d'"
  shows "history d' = history d" "phase_of d' = phase_of d" "job_ids d' = job_ids d"
  using assms
  by (simp_all add: same_core_def history_def events_of_def fun_eq_iff)

lemma same_core_jobs:
  assumes "jobs d' = jobs d" "job_events d' = job_events d" "next_seq d' = next_seq d"
    "map tk_TaskID (tasks d') = map tk_TaskID (tasks d)"
    "map tk_JobID (tasks d') = map tk_JobID (tasks d)"
  shows "same_core d d'"
  using assms by (simp add: same_core_def phase_of_def job_ids_def fun_eq_iff)

lemma store_inv_same_core:
  assumes "store_inv d" and "same_core d d'" and "ledger_ok d'"
  shows "store_inv d'"
proof -
  note eqs = same_core_read[OF assms(2)]
  have "(\<forall>t \<in> set (tasks d'). Scheduled \<in> set (history d (tk_JobID t))) \<longleftrightarrow>
        (\<forall>i \<in> set (map tk_JobID (tasks d')). Scheduled \<in> set (history d i))" by simp
  also have "\<dots> \<longleftrightarrow> (\<forall>t \<in> set (tasks d). Scheduled \<in> set (history d (tk_JobID t)))"
    using assms(2) unfolding same_core_def by simp
  finally show ?thesis
    using assms by (simp add: store_inv_def jobs_ok_def seqs_ok_def tasks_ok_def eqs same_core_def)
qed

section \<open>The step relation\<close>

inductive store_step :: "db \<Rightarrow> db \<Rightarrow> bool" where
  insert_job: "jr_Phase rec = Pending \<Longrightarrow> store_step d (fst (InsertJob now rec d))"
| insert_quota: "jr_Phase rec = Pending \<Longrightarrow> store_step d (fst (InsertJobWithQuota now rec costs d))"
| transition: "dst \<in> {Submitted, Running, Succeeded, Failed, Cancelled} \<Longrightarrow>
    store_step d (fst (TransitionJob now i dst mutate d))"
| condition: "store_step d (fst (SetJobCondition now i c d))"
| bind: "store_step d (fst (BindJob now locked i taskID target placement d))"
| update_task: "store_step d (fst (UpdateTask now t a s e r d))"
| record_usage: "store_step d (RecordUsage now i taskID tenant target usage d)"
| notify: "store_step d (NotifyJobs d)"
| session_open: "store_step d (fst (InsertSession now srec d))"
| session_close: "store_step d (CloseSession now sid d)"
| session_stamp: "store_step d (stampSessionID now i sid d)"
| session_sweep: "store_step d (sweepExpiredSessions now d)"
| project: "store_step d (fst (EnsureProject now tenant d))"
| archive: "store_step d (fst (ArchiveProject now tenant d))"
| weight: "store_step d (fst (SetProjectWeight tenant w d))"
| quota: "store_step d (fst (SetQuota tenant u limit d))"
| token_new: "store_step d (fst (InsertToken now trec d))"
| token_revoke: "store_step d (fst (RevokeToken now tid d))"
| token_touch: "store_step d (TouchToken now tid d)"
| audit: "store_step d (RecordAudit ae d)"
| reconcile: "store_step d (fst (ReconcileUsage now d))"
| shadow: "store_step d (RecordShadowPlacement now sp d)"
| game_day: "store_step d (RecordGameDay g d)"

inductive reachable :: "db \<Rightarrow> bool" where
  start: "reachable empty_db"
| step: "reachable d \<Longrightarrow> store_step d d' \<Longrightarrow> reachable d'"

section \<open>Preservation\<close>

lemma seqs_ok_add_event: "seqs_ok d \<Longrightarrow> seqs_ok (add_event now i p st d)"
  by (auto simp: seqs_ok_def add_event_def sorted_wrt_append less_SucI)

lemma seqs_ok_cong: "job_events d' = job_events d \<Longrightarrow> next_seq d' = next_seq d \<Longrightarrow> seqs_ok d' = seqs_ok d"
  by (simp add: seqs_ok_def)

lemma distinct_job_ids_phase_of: "phase_of d i = None \<longleftrightarrow> i \<notin> set (job_ids d)"
  using phase_of_job_ids by blast

text \<open>Writing phase \<open>q\<close> over phase \<open>p\<close> with one event keeps the job part when the step is legal.\<close>

lemma jobs_ok_write:
  assumes "jobs_ok d" and "phase_of d i = Some p" and "step_ok p q"
  shows "jobs_ok (add_event now i q st (write_job now q st i d))"
proof -
  from assms have "legal_path (history d i @ [q])"
    unfolding jobs_ok_def by (metis legal_path_snoc)
  with assms show ?thesis
    by (auto simp: jobs_ok_def phase_of_write_job)
qed

text \<open>Without a new \<open>SCHEDULED\<close> entry the task part is kept.\<close>

lemma tasks_ok_write:
  assumes "tasks_ok d" and "q \<noteq> Scheduled \<or> Scheduled \<in> set (history d i)"
  shows "tasks_ok (add_event now i q st (write_job now q st i d))"
  using assms by (auto simp: tasks_ok_def split: if_splits)

lemma store_inv_insertJobTx:
  assumes inv: "store_inv d" and pend: "jr_Phase rec = Pending"
  shows "store_inv (fst (insertJobTx now rec d))"
proof (cases rule: insertJobTx_cases[of rec d now])
  case (ok d')
  let ?i = "jr_JobID rec"
  have ids: "job_ids d' = job_ids d @ [?i]" using ok by (simp add: job_ids_def)
  have ph: "phase_of d' k = (if k = ?i then Some Pending else phase_of d k)" for k
    using ok pend distinct_job_ids_phase_of[of d ?i]
    by (auto simp: phase_of_def tbl_find_append split: option.splits)
  have hi: "history d' k = (if k = ?i then [Pending] else history d k)" for k
    using history_insertJobTx[of now rec d k] ok pend inv distinct_job_ids_phase_of[of d ?i]
    by (auto simp: store_inv_def jobs_ok_def)
  have "jobs_ok d'" using inv ok by (auto simp: store_inv_def jobs_ok_def ids ph hi split: if_splits)
  moreover have "seqs_ok d'"
    using seqs_ok_add_event[of d now ?i "jr_Phase rec" "jr_Status rec"] inv ok
    by (simp add: store_inv_def seqs_ok_def add_event_def)
  moreover have "history d ?i = []" using inv ok distinct_job_ids_phase_of[of d ?i]
    by (auto simp: store_inv_def jobs_ok_def)
  with inv ok have "tasks_ok d'" by (force simp: store_inv_def tasks_ok_def hi)
  moreover have "ledger_ok d'" using inv ok by (simp add: store_inv_def ledger_ok_def)
  ultimately show ?thesis using ok by (simp add: store_inv_def)
qed (use inv in simp)

lemma store_inv_TransitionJob:
  assumes inv: "store_inv d" and dst: "dst \<noteq> Scheduled"
  shows "store_inv (fst (TransitionJob now i dst mutate d))"
proof (cases rule: TransitionJob_cases[of d i now dst mutate])
  case (ok p st rec)
  with inv dst have "jobs_ok (fst (TransitionJob now i dst mutate d))"
    "tasks_ok (fst (TransitionJob now i dst mutate d))"
    by (simp_all add: store_inv_def jobs_ok_write tasks_ok_write step_ok_def)
  with ok inv show ?thesis
    by (simp add: store_inv_def ledger_ok_def seqs_ok_add_event seqs_ok_cong[of "write_job now dst st i d" d])
qed (use inv in simp_all)

lemma store_inv_SetJobCondition:
  assumes inv: "store_inv d"
  shows "store_inv (fst (SetJobCondition now i c d))"
proof (cases rule: SetJobCondition_cases[of now i c d])
  case (ok p st)
  have "p \<noteq> Scheduled \<or> Scheduled \<in> set (history d i)"
    using inv ok(1) unfolding store_inv_def jobs_ok_def legal_path_def by (metis last_in_set)
  with ok inv show ?thesis
    by (simp add: store_inv_def jobs_ok_write tasks_ok_write step_ok_def ledger_ok_def
        seqs_ok_add_event seqs_ok_cong[of "write_job now p st i d" d])
qed (use inv in auto)

text \<open>A pending job has never been scheduled: no call of the code returns a job to \<open>PENDING\<close>.\<close>

definition pending_fresh :: "db \<Rightarrow> bool" where
  "pending_fresh d \<longleftrightarrow> (\<forall>i. phase_of d i = Some Pending \<longrightarrow> set (history d i) \<subseteq> {Pending})"

lemma store_inv_BindJob:
  assumes inv: "store_inv d" and fresh: "pending_fresh d"
  shows "store_inv (fst (BindJob now locked i taskID target placement d))"
proof (cases rule: BindJob_cases[of now locked i taskID target placement d])
  case (ok st rec t)
  let ?d1 = "add_event now i Scheduled st (write_job now Scheduled st i d)"
  let ?d2 = "?d1\<lparr>tasks := tasks d @ [t]\<rparr>"
  have hi: "history ?d2 = history ?d1" and ph: "phase_of ?d2 = phase_of ?d1"
    and ids: "job_ids ?d2 = job_ids ?d1"
    by (simp_all add: history_def events_of_def phase_of_def job_ids_def fun_eq_iff)
  have "jobs_ok ?d1" using inv ok
    by (simp add: store_inv_def jobs_ok_write step_ok_def CanTransition_to)
  then have "jobs_ok ?d2" by (simp add: jobs_ok_def hi ph ids)
  moreover have "seqs_ok ?d1" using inv
    by (simp add: store_inv_def seqs_ok_add_event seqs_ok_cong[of "write_job now Scheduled st i d" d])
  then have "seqs_ok ?d2" by (simp add: seqs_ok_def)
  moreover have "i \<notin> set (map tk_JobID (tasks d))"
  proof
    assume "i \<in> set (map tk_JobID (tasks d))"
    then have "Scheduled \<in> set (history d i)" using inv by (auto simp: store_inv_def tasks_ok_def)
    with fresh ok(2) show False by (auto simp: pending_fresh_def)
  qed
  with inv ok have "tasks_ok ?d2"
    by (auto simp: store_inv_def tasks_ok_def hi split: if_splits)
  ultimately show ?thesis using ok(4) inv by (simp add: store_inv_def ledger_ok_def)
qed (use inv in simp)

lemmas other_tables = NotifyJobs_def InsertSession_def CloseSession_def sweepExpiredSessions_def
  stampSessionID_def ArchiveProject_def SetProjectWeight_def SetQuota_def InsertToken_def
  RevokeToken_def TouchToken_def RecordAudit_def ReconcileUsage_def RecordShadowPlacement_def
  RecordGameDay_def

lemma same_core_stamp: "same_core d (stampSessionID now i sid d)"
proof -
  have "job_events (stampSessionID now i sid d) = job_events d"
    "next_seq (stampSessionID now i sid d) = next_seq d" "tasks (stampSessionID now i sid d) = tasks d"
    by (simp_all add: stampSessionID_def)
  then show ?thesis by (simp add: same_core_def)
qed

lemma same_core_steps:
  "same_core d (fst (UpdateTask now t a s e r d))"
  "same_core d (RecordUsage now i taskID tenant target usage d)"
  "same_core d (NotifyJobs d)"
  "same_core d (fst (InsertSession now srec d))"
  "same_core d (CloseSession now sid d)"
  "same_core d (sweepExpiredSessions now d)"
  "same_core d (fst (EnsureProject now tenant d))"
  "same_core d (fst (ArchiveProject now tenant d))"
  "same_core d (fst (SetProjectWeight tenant w d))"
  "same_core d (fst (SetQuota tenant u limit d))"
  "same_core d (fst (InsertToken now trec d))"
  "same_core d (fst (RevokeToken now tid d))"
  "same_core d (TouchToken now tid d)"
  "same_core d (RecordAudit ae d)"
  "same_core d (fst (ReconcileUsage now d))"
  "same_core d (RecordShadowPlacement now sp d)"
  "same_core d (RecordGameDay g d)"
  by (rule same_core_jobs; simp add: other_tables Let_def)+

lemma ledger_ok_steps:
  assumes "ledger_ok d"
  shows "ledger_ok (fst (UpdateTask now t a s e r d))"
    "ledger_ok (RecordUsage now i taskID tenant target usage d)"
    "ledger_ok (NotifyJobs d)"
    "ledger_ok (fst (InsertSession now srec d))"
    "ledger_ok (CloseSession now sid d)"
    "ledger_ok (stampSessionID now i sid d)"
    "ledger_ok (sweepExpiredSessions now d)"
    "ledger_ok (fst (EnsureProject now tenant d))"
    "ledger_ok (fst (ArchiveProject now tenant d))"
    "ledger_ok (fst (SetProjectWeight tenant w d))"
    "ledger_ok (fst (SetQuota tenant u limit d))"
    "ledger_ok (fst (InsertToken now trec d))"
    "ledger_ok (fst (RevokeToken now tid d))"
    "ledger_ok (TouchToken now tid d)"
    "ledger_ok (RecordAudit ae d)"
    "ledger_ok (fst (ReconcileUsage now d))"
    "ledger_ok (RecordShadowPlacement now sp d)"
    "ledger_ok (RecordGameDay g d)"
  using assms RecordUsage_distinct
  by (simp_all add: ledger_ok_def other_tables Let_def)

text \<open>Freshness of pending jobs is kept as well.\<close>

lemma pending_fresh_same_core: "pending_fresh d \<Longrightarrow> same_core d d' \<Longrightarrow> pending_fresh d'"
  by (simp add: pending_fresh_def same_core_read)

lemma pending_fresh_write:
  assumes "pending_fresh d" and "phase_of d i = Some p" and "q \<noteq> Pending \<or> p = Pending"
  shows "pending_fresh (add_event now i q st (write_job now q st i d))"
  using assms by (auto simp: pending_fresh_def phase_of_write_job split: if_splits)

lemma pending_fresh_insertJobTx:
  assumes "pending_fresh d" and "jobs_ok d" and "jr_Phase rec = Pending"
  shows "pending_fresh (fst (insertJobTx now rec d))"
proof (cases rule: insertJobTx_cases[of rec d now])
  case (ok d')
  have "history d (jr_JobID rec) = []" using assms(2) ok(1) distinct_job_ids_phase_of
    by (auto simp: jobs_ok_def)
  moreover have "k \<noteq> jr_JobID rec \<Longrightarrow> phase_of d' k = phase_of d k" for k
    using ok by (auto simp: phase_of_def tbl_find_append split: option.splits)
  moreover have "history d' k = history d k @ (if k = jr_JobID rec then [Pending] else [])" for k
    using history_insertJobTx[of now rec d k] ok assms(3) by simp
  ultimately have "phase_of d' k = Some Pending \<Longrightarrow> set (history d' k) \<subseteq> {Pending}" for k
    using assms(1) by (cases "k = jr_JobID rec") (auto simp: pending_fresh_def)
  with ok show ?thesis by (simp add: pending_fresh_def)
qed (use assms in simp)

lemma pending_fresh_step:
  assumes "store_step d d'" and "pending_fresh d" and "jobs_ok d"
  shows "pending_fresh d'"
  using assms
proof (induction rule: store_step.induct)
  case (insert_quota rec d now costs)
  then show ?case
    by (auto simp: InsertJobWithQuota_def pending_fresh_insertJobTx split: option.splits)
next
  case (transition dst d now i mutate)
  then show ?case
    by (cases rule: TransitionJob_cases[of d i now dst mutate]) (auto simp: pending_fresh_write)
next
  case (condition d now i c)
  then show ?case
    by (cases rule: SetJobCondition_cases[of now i c d]) (auto simp: pending_fresh_write)
next
  case (bind d now locked i taskID target placement)
  show ?case
  proof (cases rule: BindJob_cases[of now locked i taskID target placement d])
    case (ok st rec t)
    have "pending_fresh (add_event now i Scheduled st (write_job now Scheduled st i d))"
      using bind ok by (simp add: pending_fresh_write)
    with ok show ?thesis
      by (simp add: pending_fresh_def phase_of_def history_def events_of_def)
  qed (use bind in simp)
qed (auto intro: pending_fresh_same_core same_core_steps same_core_stamp
    simp: InsertJob_def pending_fresh_insertJobTx)

lemma store_inv_step:
  assumes "store_step d d'" and "store_inv d" and "pending_fresh d"
  shows "store_inv d'"
  using assms
proof (induction rule: store_step.induct)
  case (insert_quota rec d now costs)
  then show ?case
    by (auto simp: InsertJobWithQuota_def store_inv_insertJobTx split: option.splits)
next
  case (transition dst d now i mutate)
  then show ?case by (intro store_inv_TransitionJob) auto
qed (auto simp: InsertJob_def store_inv_insertJobTx store_inv_SetJobCondition store_inv_BindJob
    intro: store_inv_same_core same_core_steps same_core_stamp ledger_ok_steps
    dest: store_inv_def[THEN iffD1])

lemma reachable_inv: "reachable d \<Longrightarrow> store_inv d \<and> pending_fresh d"
proof (induction rule: reachable.induct)
  case start
  show ?case
    by (simp add: store_inv_def jobs_ok_def seqs_ok_def tasks_ok_def ledger_ok_def pending_fresh_def
        empty_db_def job_ids_def phase_of_def history_def events_of_def)
next
  case (step d d')
  then show ?case using store_inv_step pending_fresh_step by (auto simp: store_inv_def)
qed

section \<open>Runs\<close>

abbreviation store_run :: "db \<Rightarrow> db \<Rightarrow> bool" where
  "store_run \<equiv> store_step\<^sup>*\<^sup>*"

lemma run1: "store_step d d' \<Longrightarrow> store_run d d'"
  by (rule r_into_rtranclp)

lemma run_trans: "store_run d d' \<Longrightarrow> store_run d' d'' \<Longrightarrow> store_run d d''"
  by (rule rtranclp_trans)

lemma run_transition:
  "dst \<in> {Submitted, Running, Succeeded, Failed, Cancelled} \<Longrightarrow> store_run d (fst (TransitionJob now i dst m d))"
  by (rule run1, rule store_step.transition)

lemmas store_runs = run1[OF update_task] run1[OF condition] run1[OF record_usage] run1[OF session_open]
  run1[OF session_stamp] run1[OF session_sweep] run1[OF bind] run1[OF shadow]

end
