(* ===== verification/Go_Fmt.thy ===== *)
theory Go_Fmt
  imports Rabi_Prelude
begin

text \<open>
  The verbs of Go's \<open>fmt\<close> package the sources print with, as functions to strings: \<open>%d\<close>, \<open>%q\<close>,
  \<open>%.kf\<close>, \<open>%.4g\<close>, \<open>Duration.String\<close> and the RFC 3339 layout. Floats are exact reals and are
  rounded half to even, as Go rounds the exact value of a \<open>float64\<close>.
\<close>

section \<open>Integers and strings\<close>

definition itoa_int :: "int \<Rightarrow> string" where
  "itoa_int n = (if n < 0 then ''-'' @ itoa (nat (- n)) else itoa (nat n))"

text \<open>Left padding with zeros to a width.\<close>

definition pad0 :: "nat \<Rightarrow> string \<Rightarrow> string" where
  "pad0 w s = replicate (w - length s) (CHR ''0'') @ s"

text \<open>\<open>%q\<close>; bytes from 128 on belong to UTF-8 sequences and are copied.\<close>

definition hex_digit :: "nat \<Rightarrow> char" where
  "hex_digit n = ''0123456789abcdef'' ! (n mod 16)"

definition quote_char :: "char \<Rightarrow> string" where
  "quote_char c =
     (let n = of_char c :: nat
      in if n = 34 \<or> n = 92 then [char_of (92 :: nat), c]
         else if n = 10 then [char_of (92 :: nat), CHR ''n'']
         else if n = 9 then [char_of (92 :: nat), CHR ''t'']
         else if n = 13 then [char_of (92 :: nat), CHR ''r'']
         else if n = 7 then [char_of (92 :: nat), CHR ''a'']
         else if n = 8 then [char_of (92 :: nat), CHR ''b'']
         else if n = 12 then [char_of (92 :: nat), CHR ''f'']
         else if n = 11 then [char_of (92 :: nat), CHR ''v'']
         else if n < 32 \<or> n = 127 then [char_of (92 :: nat), CHR ''x'', hex_digit (n div 16), hex_digit (n mod 16)]
         else [c])"

definition quote :: "string \<Rightarrow> string" where
  "quote s = [char_of (34 :: nat)] @ concat (map quote_char s) @ [char_of (34 :: nat)]"

section \<open>Floats\<close>

definition round_even :: "float64 \<Rightarrow> int" where
  "round_even x =
     (let f = \<lfloor>x\<rfloor>; r = x - of_int f
      in if r < 1 / 2 then f else if r > 1 / 2 then f + 1 else if even f then f else f + 1)"

lemma round_even_of_int [simp]: "round_even (of_int n) = n"
  by (simp add: round_even_def)

lemma round_even_error: "\<bar>of_int (round_even x) - x\<bar> \<le> 1 / 2"
  unfolding round_even_def Let_def by (simp split: if_splits)

definition fmt_fixed :: "nat \<Rightarrow> float64 \<Rightarrow> string" where
  "fmt_fixed k x =
     (let n = nat (round_even (\<bar>x\<bar> * 10 ^ k));
          body = itoa (n div 10 ^ k) @
            (if k = 0 then [] else ''.'' @ pad0 k (itoa (n mod 10 ^ k)))
      in if x < 0 then ''-'' @ body else body)"

text \<open>
  \<open>%.4g\<close>: four significant digits, trailing zeros dropped, the exponent form below \<open>1e-4\<close> and
  from \<open>1e4\<close> on. \<open>scale10\<close> brings a positive value into \<open>[1, 10)\<close>, counting the decimal exponent;
  the exponent of a \<open>float64\<close> lies between -324 and 308, so 400 steps are enough.
\<close>

fun scale10 :: "nat \<Rightarrow> int \<Rightarrow> float64 \<Rightarrow> int \<times> float64" where
  "scale10 0 e x = (e, x)"
| "scale10 (Suc n) e x =
     (if x < 1 then scale10 n (e - 1) (x * 10)
      else if x \<ge> 10 then scale10 n (e + 1) (x / 10)
      else (e, x))"

definition trim0 :: "string \<Rightarrow> string" where
  "trim0 s = rev (dropWhile (\<lambda>c. c = CHR ''0'') (rev s))"

definition fmt_g4 :: "float64 \<Rightarrow> string" where
  "fmt_g4 x =
     (if x = 0 then ''0''
      else
        (let (e0, m) = scale10 400 0 \<bar>x\<bar>;
             n0 = nat (round_even (m * 1000));
             (e, n) = (if n0 \<ge> 10000 then (e0 + 1, 1000) else (e0, n0));
             ds = trim0 (itoa n);
             body =
               (if e < -4 \<or> e \<ge> 4
                then [hd ds] @ (if length ds > 1 then ''.'' @ tl ds else []) @ ''e'' @
                     (if e < 0 then ''-'' else ''+'') @ pad0 2 (itoa (nat \<bar>e\<bar>))
                else if e < 0 then ''0.'' @ replicate (nat (- e) - 1) (CHR ''0'') @ ds
                else (let k = nat e + 1
                      in take k ds @ replicate (k - length ds) (CHR ''0'') @
                         (if length ds > k then ''.'' @ drop k ds else [])))
         in if x < 0 then ''-'' @ body else body))"

section \<open>Durations and times\<close>

definition fmt_frac :: "nat \<Rightarrow> nat \<Rightarrow> string" where
  "fmt_frac v prec =
     (let f = v mod 10 ^ prec
      in if f = 0 then [] else ''.'' @ trim0 (pad0 prec (itoa f)))"

definition micro_sign :: string where
  "micro_sign = [char_of (194 :: nat), char_of (181 :: nat)]"

definition duration_String :: "duration \<Rightarrow> string" where
  "duration_String d =
     (let u = nat \<bar>d\<bar>;
          body =
            (if u = 0 then ''0s''
             else if u < 1000 then itoa u @ ''ns''
             else if u < 1000000 then itoa (u div 1000) @ fmt_frac u 3 @ micro_sign @ ''s''
             else if u < 1000000000 then itoa (u div 1000000) @ fmt_frac u 6 @ ''ms''
             else
               (let s = u div 1000000000; m = s div 60; h = m div 60
                in (if h > 0 then itoa h @ ''h'' else []) @
                   (if m > 0 then itoa (m mod 60) @ ''m'' else []) @
                   itoa (s mod 60) @ fmt_frac u 9 @ ''s''))
      in if d < 0 then ''-'' @ body else body)"

text \<open>\<open>d.Truncate(m)\<close> rounds towards zero to a multiple of \<open>m\<close>.\<close>

definition duration_Truncate :: "duration \<Rightarrow> duration \<Rightarrow> duration" where
  "duration_Truncate d m = (if m \<le> 0 then d else if d < 0 then - (\<bar>d\<bar> - \<bar>d\<bar> mod m) else d - d mod m)"

lemma duration_Truncate_bound:
  "0 < m \<Longrightarrow> \<bar>duration_Truncate d m\<bar> \<le> \<bar>d\<bar> \<and> \<bar>d\<bar> - \<bar>duration_Truncate d m\<bar> < m"
proof -
  assume "0 < m"
  then have "0 \<le> \<bar>d\<bar> mod m" "\<bar>d\<bar> mod m < m" "\<bar>d\<bar> mod m \<le> \<bar>d\<bar>"
    by (auto intro: zmod_le_nonneg_dividend)
  with \<open>0 < m\<close> show ?thesis by (auto simp: duration_Truncate_def)
qed

text \<open>The civil date of a day number, counted from 1 January 1970 (proleptic Gregorian).\<close>

definition civil_of_days :: "int \<Rightarrow> int \<times> int \<times> int" where
  "civil_of_days z0 =
     (let z = z0 + 719468; era = z div 146097; doe = z mod 146097;
          yoe = (doe - doe div 1460 + doe div 36524 - doe div 146096) div 365;
          doy = doe - (365 * yoe + yoe div 4 - yoe div 100);
          mp = (5 * doy + 2) div 153;
          dd = doy - (153 * mp + 2) div 5 + 1;
          mm = (if mp < 10 then mp + 3 else mp - 9)
      in (yoe + era * 400 + (if mm \<le> 2 then 1 else 0), mm, dd))"

text \<open>\<open>t.UTC().Format(time.RFC3339)\<close>.\<close>

definition fmt_RFC3339 :: "time \<Rightarrow> string" where
  "fmt_RFC3339 t =
     (let s = t div 1000000000; (y, m, dd) = civil_of_days (s div 86400); r = s mod 86400;
          two = (\<lambda>n. pad0 2 (itoa (nat n)))
      in pad0 4 (itoa (nat y)) @ ''-'' @ two m @ ''-'' @ two dd @ ''T'' @
         two (r div 3600) @ '':'' @ two (r div 60 mod 60) @ '':'' @ two (r mod 60) @ ''Z'')"

section \<open>Examples\<close>

lemmas fmt_eval = Let_def itoa.simps digit_def pad0_def trim0_def round_even_def

lemma itoa_example: "itoa 1024 = ''1024''"
  by (simp add: fmt_eval)

lemma fmt_fixed_examples: "fmt_fixed 0 (5 / 2) = ''2''" "fmt_fixed 4 (407 / 1000) = ''0.4070''"
  by (simp_all add: fmt_fixed_def fmt_eval)

lemma duration_examples:
  "duration_String 5400000000000 = ''1h30m0s''" "duration_String 1500000000 = ''1.5s''"
  by (simp_all add: duration_String_def fmt_frac_def fmt_eval)

lemma civil_examples: "civil_of_days 0 = (1970, 1, 1)" "civil_of_days 20653 = (2026, 7, 19)"
  by code_simp+

lemma fmt_g4_example: "fmt_g4 (71 / 10000) = ''0.0071''"
proof -
  have "scale10 400 0 (71 / 10000) = (- 3, 71 / 10)" by (simp add: eval_nat_numeral)
  then show ?thesis by (simp add: fmt_g4_def fmt_eval numeral_2_eq_2)
qed

end
