(* ===== verification/Chaos.thy ===== *)
theory Chaos
  imports Store_Invariants Go_Fmt
begin

text \<open>
  The invariant checker of \<open>internal/chaos/invariants.go\<close>, as functions of the database, and what
  the store's own invariants say about its verdict: on every reachable database four of the five
  checks report nothing. The fifth, terminal immutability, holds as long as no condition is
  written to a finished job; \<open>SetJobCondition\<close> itself does not prevent that.
\<close>

section \<open>The checks\<close>

record violation =
  vi_Invariant :: string
  vi_JobID :: string
  vi_Detail :: string

definition violation_String :: "violation \<Rightarrow> string" where
  "violation_String v =
     (if vi_JobID v \<noteq> [] then ''['' @ vi_Invariant v @ ''] job '' @ vi_JobID v @ '': '' @ vi_Detail v
      else ''['' @ vi_Invariant v @ ''] '' @ vi_Detail v)"

definition noJobLost :: "db \<Rightarrow> string list \<Rightarrow> violation list" where
  "noJobLost d accepted = concat (map (\<lambda>i. case GetJob d i of
       Inl e \<Rightarrow> [\<lparr>vi_Invariant = ''no-job-lost'', vi_JobID = i, vi_Detail = ''not queryable: job not found''\<rparr>]
     | Inr rec \<Rightarrow> if \<not> Valid (jr_Phase rec)
         then [\<lparr>vi_Invariant = ''no-job-lost'', vi_JobID = i,
                vi_Detail = ''unknown phase '' @ phase_str (jr_Phase rec)\<rparr>] else []) accepted)"

definition noDuplicateExecution :: "db \<Rightarrow> string list \<Rightarrow> violation list" where
  "noDuplicateExecution d accepted =
     (let keys = map ledger_key (usage_ledger d);
          billed = filter (\<lambda>k. count_list keys k > 1) (remdups keys)
      in map (\<lambda>(t, u). \<lparr>vi_Invariant = ''no-duplicate-exec'', vi_JobID = [],
              vi_Detail = ''task '' @ t @ '' unit '' @ u @ '' billed '' @ itoa (count_list keys (t, u)) @ '' times''\<rparr>)
           billed) @
     concat (map (\<lambda>i.
       (let succeeded = length (filter (\<lambda>t. tk_JobID t = i \<and> tk_State t = ''SUCCEEDED'') (tasks d))
        in if succeeded > 1
           then [\<lparr>vi_Invariant = ''no-duplicate-exec'', vi_JobID = i,
                  vi_Detail = itoa succeeded @ '' SUCCEEDED tasks''\<rparr>] else [])) accepted)"

text \<open>The inner loop: the first terminal event that is not the last one, with what follows it.\<close>

fun first_terminal :: "job_event list \<Rightarrow> (job_event \<times> nat) option" where
  "first_terminal [] = None"
| "first_terminal (e # es) =
     (if Terminal (ev_Phase e) \<and> es \<noteq> [] then Some (e, length es) else first_terminal es)"

definition terminalImmutable :: "db \<Rightarrow> string list \<Rightarrow> violation list" where
  "terminalImmutable d accepted = concat (map (\<lambda>i.
     case first_terminal (sort_key ev_Seq (JobEventsSince d i 0)) of
       None \<Rightarrow> []
     | Some (e, n) \<Rightarrow> [\<lparr>vi_Invariant = ''terminal-immutable'', vi_JobID = i,
         vi_Detail = ''terminal '' @ phase_str (ev_Phase e) @ '' at seq '' @ itoa (ev_Seq e) @
           '', but '' @ itoa n @ '' later event(s) follow''\<rparr>]) accepted)"

definition usageWithinCaps :: "db \<Rightarrow> string list \<Rightarrow> (string \<Rightarrow> float64) \<Rightarrow> violation list" where
  "usageWithinCaps d accepted declared = concat (map (\<lambda>i.
     (let capShots = declared i; used = ledger_total d i ''shots''
      in if capShots \<le> 0 then []
         else if used > capShots * 1.0000001
         then [\<lparr>vi_Invariant = ''usage-within-caps'', vi_JobID = i,
                vi_Detail = ''recorded '' @ fmt_fixed 0 used @ '' shots > declared '' @ fmt_fixed 0 capShots\<rparr>]
         else [])) accepted)"

text \<open>The arrow of the message, U+2192 in UTF-8.\<close>

definition arrow :: string where
  "arrow = [char_of (226 :: nat), char_of (134 :: nat), char_of (146 :: nat)]"

text \<open>The scan over consecutive events; equal phases are condition-only updates.\<close>

fun illegal_steps :: "string \<Rightarrow> job_event list \<Rightarrow> violation list" where
  "illegal_steps i (prev # cur # es) =
     (if ev_Phase prev = ev_Phase cur then []
      else (case Transition (ev_Phase prev) (ev_Phase cur) of
              None \<Rightarrow> []
            | Some _ \<Rightarrow> [\<lparr>vi_Invariant = ''audit-gapless'', vi_JobID = i,
                vi_Detail = ''illegal/reordered transition '' @ phase_str (ev_Phase prev) @ arrow @
                  phase_str (ev_Phase cur) @ '' at seq '' @ itoa (ev_Seq cur)\<rparr>])) @
     illegal_steps i (cur # es)"
| "illegal_steps i es = []"

definition auditGapless :: "db \<Rightarrow> string list \<Rightarrow> violation list" where
  "auditGapless d accepted = concat (map (\<lambda>i.
     case sort_key ev_Seq (JobEventsSince d i 0) of
       [] \<Rightarrow> []
     | e # es \<Rightarrow>
         (if ev_Phase e \<noteq> Pending
          then [\<lparr>vi_Invariant = ''audit-gapless'', vi_JobID = i,
                 vi_Detail = ''first event is '' @ phase_str (ev_Phase e) @ '', not PENDING''\<rparr>]
          else []) @ illegal_steps i (e # es)) accepted)"

definition CheckAll :: "db \<Rightarrow> string list \<Rightarrow> (string \<Rightarrow> float64) \<Rightarrow> violation list" where
  "CheckAll d accepted declared =
     noJobLost d accepted @ noDuplicateExecution d accepted @ terminalImmutable d accepted @
     usageWithinCaps d accepted declared @ auditGapless d accepted"

section \<open>Reading the event log\<close>

text \<open>Under the sequence invariant the log of a job comes back in table order.\<close>

lemma sorted_wrt_sort_key:
  assumes "sorted_wrt (<) (map f xs)"
  shows "sort_key f xs = xs"
  using strict_sorted_imp_sorted[OF assms] by (rule sort_key_id_if_sorted)

lemma events_of_sorted:
  "seqs_ok d \<Longrightarrow> sorted_wrt (<) (map ev_Seq (events_of d i))"
  by (auto simp: seqs_ok_def events_of_def sorted_wrt_map intro: sorted_wrt_filter)

lemma JobEventsSince_zero: "seqs_ok d \<Longrightarrow> JobEventsSince d i 0 = events_of d i"
proof -
  assume *: "seqs_ok d"
  then have "filter (\<lambda>e. 0 < ev_Seq e) (events_of d i) = events_of d i"
    unfolding filter_id_conv seqs_ok_def events_of_def by auto
  with * show ?thesis
    by (simp add: JobEventsSince_def sorted_wrt_sort_key events_of_sorted)
qed

lemma watched_events: "seqs_ok d \<Longrightarrow> sort_key ev_Seq (JobEventsSince d i 0) = events_of d i"
  by (simp add: JobEventsSince_zero sorted_wrt_sort_key events_of_sorted)

section \<open>Verdict on reachable databases\<close>

lemma illegal_steps_legal:
  "successively step_ok (map ev_Phase es) \<Longrightarrow> illegal_steps i es = []"
proof (induction i es rule: illegal_steps.induct)
  case (1 i prev cur es)
  then have "step_ok (ev_Phase prev) (ev_Phase cur)" by simp
  then have "ev_Phase prev = ev_Phase cur \<or> Transition (ev_Phase prev) (ev_Phase cur) = None"
    by (simp add: step_ok_def)
  with 1 show ?case by (auto simp del: Transition_None)
qed simp_all

lemma auditGapless_ok:
  assumes "store_inv d"
  shows "auditGapless d accepted = []"
proof -
  have s: "seqs_ok d" using assms by (simp add: store_inv_def)
  have "(case events_of d i of [] \<Rightarrow> [] | e # es \<Rightarrow>
      (if ev_Phase e \<noteq> Pending then [v e] else []) @ illegal_steps i (e # es)) = []" for i v
  proof (cases "events_of d i")
    case (Cons e es)
    then have "history d i = map ev_Phase (e # es)" by (simp add: history_def)
    moreover from this assms have "legal_path (history d i)"
      unfolding store_inv_def jobs_ok_def by (metis list.distinct(1) list.simps(9) not_None_eq)
    ultimately have "ev_Phase e = Pending" "illegal_steps i (e # es) = []"
      using illegal_steps_legal[of "e # es" i] by (auto simp: legal_path_def)
    with Cons show ?thesis by (simp del: illegal_steps.simps)
  qed simp
  then show ?thesis by (simp add: auditGapless_def watched_events[OF s])
qed

lemma noJobLost_ok:
  assumes "store_inv d" and "set accepted \<subseteq> set (job_ids d)"
  shows "noJobLost d accepted = []"
proof -
  have "(case GetJob d i of Inl e \<Rightarrow> [v] | Inr rec \<Rightarrow> if \<not> Valid (jr_Phase rec) then [w rec] else []) = []"
    if "i \<in> set accepted" for i v w
  proof -
    from that assms(2) obtain p where p: "phase_of d i = Some p"
      using phase_of_job_ids[of d i] by blast
    then obtain rec where rec: "tbl_find jr_JobID i (jobs d) = Some rec" "jr_Phase rec = p"
      by (auto simp: phase_of_def)
    have "legal_path (history d i)" "last (history d i) = p"
      using assms(1) p by (auto simp: store_inv_def jobs_ok_def)
    then have "Valid p" using legal_path_Valid[of "history d i" p]
      by (metis last_in_set legal_path_def)
    with rec show ?thesis by (simp add: GetJob_def)
  qed
  then show ?thesis by (auto simp: noJobLost_def)
qed

lemma count_list_distinct: "distinct xs \<Longrightarrow> count_list xs x \<le> 1"
  by (induction xs) (auto simp: count_list_0_iff)

lemma length_filter_distinct:
  "distinct (map f xs) \<Longrightarrow> length (filter (\<lambda>x. f x = k \<and> P x) xs) \<le> 1"
proof (induction xs)
  case (Cons x xs)
  then have "f x = k \<Longrightarrow> filter (\<lambda>x. f x = k \<and> P x) xs = []"
    by (auto simp: filter_empty_conv rev_image_eqI)
  with Cons show ?case by auto
qed simp

lemma noDuplicateExecution_ok:
  assumes "store_inv d"
  shows "noDuplicateExecution d accepted = []"
proof -
  have "\<not> count_list (map ledger_key (usage_ledger d)) k > 1" for k
    using assms count_list_distinct[of "map ledger_key (usage_ledger d)" k]
    by (simp add: store_inv_def ledger_ok_def)
  moreover have "\<not> length (filter (\<lambda>t. tk_JobID t = i \<and> tk_State t = s) (tasks d)) > 1" for i s
    using assms length_filter_distinct[of tk_JobID "tasks d" i "\<lambda>t. tk_State t = s"]
    by (simp add: store_inv_def tasks_ok_def)
  ultimately show ?thesis by (simp add: noDuplicateExecution_def Let_def)
qed

section \<open>Terminal immutability\<close>

text \<open>Invariant 3 as a predicate on the event log: no terminal event is followed by another.\<close>

definition sealed :: "db \<Rightarrow> string \<Rightarrow> bool" where
  "sealed d i \<longleftrightarrow> (\<forall>p \<in> set (butlast (history d i)). \<not> Terminal p)"

lemma first_terminal_None:
  "first_terminal es = None \<longleftrightarrow> (\<forall>e \<in> set (butlast es). \<not> Terminal (ev_Phase e))"
  by (induction es) auto

lemma case_option_Nil: "(\<And>y. f y \<noteq> []) \<Longrightarrow> case_option [] f x = [] \<longleftrightarrow> x = None"
  by (cases x) auto

lemma terminalImmutable_iff:
  assumes "seqs_ok d"
  shows "terminalImmutable d accepted = [] \<longleftrightarrow> (\<forall>i \<in> set accepted. sealed d i)"
proof -
  have "sealed d i \<longleftrightarrow> first_terminal (events_of d i) = None" for i
    by (simp add: sealed_def history_def first_terminal_None map_butlast[symmetric])
  then show ?thesis
    by (auto simp: terminalImmutable_def watched_events[OF assms] case_option_Nil split_beta)
qed

text \<open>One more event keeps the log sealed exactly when the log does not end in a terminal one.\<close>

lemma sealed_append:
  assumes "history d' i = history d i @ [q]" and "sealed d i" and "history d i \<noteq> []"
  shows "sealed d' i \<longleftrightarrow> \<not> Terminal (last (history d i))"
proof (cases "history d i" rule: rev_cases)
  case (snoc ps p)
  with assms have "butlast (history d' i) = ps @ [p]" by (simp add: butlast_append)
  with assms(2) snoc show ?thesis by (auto simp: sealed_def)
qed (use assms in simp)

lemma sealed_idle: "history d' i = history d i \<Longrightarrow> sealed d' i = sealed d i"
  by (simp add: sealed_def)

lemma jobs_ok_last: "jobs_ok d \<Longrightarrow> phase_of d i = Some p \<Longrightarrow> history d i \<noteq> [] \<and> last (history d i) = p"
  by (auto simp: jobs_ok_def legal_path_def)

text \<open>The phase-changing transactions keep invariant 3; the condition write keeps it exactly
  when the job is not in a terminal phase or nothing is written.\<close>

lemma sealed_TransitionJob:
  assumes "jobs_ok d" and "sealed d k"
  shows "sealed (fst (TransitionJob now i dst mutate d)) k"
proof (cases "k = i \<and> (\<exists>p. phase_of d i = Some p \<and> CanTransition p dst)")
  case True
  then obtain p where p: "k = i" "phase_of d i = Some p" "CanTransition p dst" by auto
  then have "history (fst (TransitionJob now i dst mutate d)) k = history d k @ [dst]"
    by (simp add: history_TransitionJob)
  from sealed_append[OF this assms(2)] jobs_ok_last[OF assms(1) p(2)] CanTransition_valid[OF p(3)] p(1)
  show ?thesis by simp
next
  case False
  then have "history (fst (TransitionJob now i dst mutate d)) k = history d k"
    unfolding history_TransitionJob by (simp only: if_False append_Nil2)
  from sealed_idle[OF this] assms(2) show ?thesis by simp
qed

lemma sealed_SetJobCondition:
  assumes "jobs_ok d" and "sealed d i" and "phase_of d i = Some p"
  shows "sealed (fst (SetJobCondition now i c d)) i \<longleftrightarrow>
    \<not> Terminal p \<or> snd (SetJobCondition now i c d) = Inr False"
proof (cases rule: SetJobCondition_cases[of now i c d])
  case (ok p' st)
  with assms(3) have "history (fst (SetJobCondition now i c d)) i = history d i @ [p]" by simp
  from sealed_append[OF this assms(2)] jobs_ok_last[OF assms(1,3)] ok show ?thesis by simp
qed (use assms in auto)

end
