(* ===== verification/Store_Properties.thy ===== *)
theory Store_Properties
  imports Chaos
begin

text \<open>
  The contract of the store over all its runs: what any interleaving of its transactions keeps.
  \<open>inv_system\<close>, the interface the arguments use, is interpreted on the store's step relation.
\<close>

section \<open>Runs and invariants\<close>

definition db_ok :: "db \<Rightarrow> bool" where
  "db_ok d \<longleftrightarrow> store_inv d \<and> pending_fresh d"

interpretation store: inv_system store_step db_ok
proof unfold_locales
  fix d d'
  assume "db_ok d" and st: "store_step d d'"
  then have "store_inv d" "pending_fresh d" "jobs_ok d" by (simp_all add: db_ok_def store_inv_def)
  then show "db_ok d'" using store_inv_step[OF st] pending_fresh_step[OF st] by (simp add: db_ok_def)
qed

lemma reachable_ok: "reachable d \<Longrightarrow> db_ok d"
  using reachable_inv by (simp add: db_ok_def)

lemma reachable_run: "store_run d d' \<Longrightarrow> reachable d \<Longrightarrow> reachable d'"
  by (induction rule: rtranclp_induct) (auto intro: reachable.step)

inductive_cases store_stepE: "store_step d d'"

section \<open>Append-only logs\<close>

lemma prefix_write: "prefix (job_events d) (job_events (add_event now i p st (write_job now q st' k d)))"
  by (simp add: add_event_def)

lemma events_step: "store_step d d' \<Longrightarrow> prefix (job_events d) (job_events d')"
proof (induction rule: store_step.induct)
  case (insert_job rec d now)
  then show ?case
    by (cases rule: insertJobTx_cases[of rec d now]) (auto simp: InsertJob_def add_event_def)
next
  case (insert_quota rec d now costs)
  then show ?case
    by (cases rule: insertJobTx_cases[of rec d now])
      (auto simp: InsertJobWithQuota_def add_event_def split: option.splits)
next
  case (transition dst d now i mutate)
  then show ?case by (cases rule: TransitionJob_cases[of d i now dst mutate]) (auto simp: prefix_write)
next
  case (condition d now i c)
  then show ?case by (cases rule: SetJobCondition_cases[of now i c d]) (auto simp: prefix_write)
next
  case (bind d now locked i taskID target placement)
  show ?case
    by (cases rule: BindJob_cases[of now locked i taskID target placement d]) (auto simp: prefix_write)
qed (use same_core_steps same_core_stamp in \<open>auto simp: same_core_def\<close>)

lemma ledger_step: "store_step d d' \<Longrightarrow> prefix (usage_ledger d) (usage_ledger d')"
proof (induction rule: store_step.induct)
  case (insert_job rec d now)
  then show ?case by (simp add: InsertJob_def insertJobTx_frame_quota)
next
  case (insert_quota rec d now costs)
  then show ?case by (simp add: InsertJobWithQuota_def insertJobTx_frame_quota split: option.splits)
next
  case (bind d now locked i taskID target placement)
  show ?case by (cases rule: BindJob_cases[of now locked i taskID target placement d]) auto
next
  case (record_usage d now i taskID tenant target usage)
  show ?case by (rule RecordUsage_prefix)
qed (simp_all add: other_tables Let_def)

section \<open>Accepted jobs stay\<close>

lemma events_of_run: "store_run d d' \<Longrightarrow> prefix (events_of d i) (events_of d' i)"
proof (induction rule: rtranclp_induct)
  case (step t u)
  from events_step[OF step(2)] have "prefix (events_of t i) (events_of u i)"
    by (auto simp: events_of_def prefix_def)
  with step.IH show ?case by (rule prefix_order.trans)
qed simp

lemma job_ids_run:
  assumes "reachable d" and "store_run d d'"
  shows "set (job_ids d) \<subseteq> set (job_ids d')"
proof
  fix i assume "i \<in> set (job_ids d)"
  then obtain p where "phase_of d i = Some p" using phase_of_job_ids [of d i] by blast
  then have "history d i \<noteq> []" using reachable_ok [OF assms(1)] by (auto simp: db_ok_def store_inv_def jobs_ok_def legal_path_def)
  then have "history d' i \<noteq> []" using events_of_run [OF assms(2), of i] by (auto simp: history_def)
  then show "i \<in> set (job_ids d')"
    using reachable_ok [OF reachable_run [OF assms(2,1)]] phase_of_job_ids [of d' i] by (auto simp: db_ok_def store_inv_def jobs_ok_def)
qed

text \<open>The jobs a client was told are accepted: their insertion committed at some earlier moment of the run that
  led to the database.\<close>

definition accepted_into :: "db \<Rightarrow> string \<Rightarrow> bool" where
  "accepted_into d i \<longleftrightarrow> (\<exists>d0 now rec costs tx. reachable d0 \<and> jr_JobID rec = i \<and> jr_Phase rec = Pending \<and>
     (tx = InsertJob now rec d0 \<or> tx = InsertJobWithQuota now rec costs d0) \<and> snd tx = Inr () \<and> store_run (fst tx) d)"

lemma insertJobTx_stores: "snd (insertJobTx now rec d) = Inr () \<Longrightarrow> jr_JobID rec \<in> set (job_ids (fst (insertJobTx now rec d)))"
  by (cases rule: insertJobTx_cases[of rec d now]) (auto simp: job_ids_def)

lemma accepted_is_stored:
  assumes "accepted_into d i"
  shows "i \<in> set (job_ids d)"
proof -
  from assms obtain d0 now rec costs tx where r: "reachable d0" and i: "jr_JobID rec = i" and p: "jr_Phase rec = Pending"
    and tx: "tx = InsertJob now rec d0 \<or> tx = InsertJobWithQuota now rec costs d0" and ok: "snd tx = Inr ()"
    and run: "store_run (fst tx) d" unfolding accepted_into_def by blast
  have "store_step d0 (fst tx)" using tx insert_job[OF p] insert_quota[OF p] by blast
  then have "reachable (fst tx)" by (rule reachable.step[OF r])
  moreover have "tx = insertJobTx now rec d0"
    using tx ok by (auto simp: InsertJob_def InsertJobWithQuota_def split: option.splits)
  with ok i insertJobTx_stores[of now rec d0] have "i \<in> set (job_ids (fst tx))" by simp
  ultimately show ?thesis using job_ids_run[OF _ run] by blast
qed

section \<open>Terminal phases\<close>

lemma phase_step_terminal:
  assumes "store_step d d'" and "db_ok d" and "phase_of d i = Some p" and "Terminal p"
  shows "phase_of d' i = Some p"
  using assms
proof (induction rule: store_step.induct)
  case (insert_job rec d now)
  then show ?case
    by (cases rule: insertJobTx_cases[of rec d now])
      (auto simp: InsertJob_def phase_of_def tbl_find_append split: option.splits)
next
  case (insert_quota rec d now costs)
  then show ?case
    by (cases rule: insertJobTx_cases[of rec d now])
      (auto simp: InsertJobWithQuota_def phase_of_def tbl_find_append split: option.splits)
next
  case (transition dst d now k mutate)
  then show ?case by (auto simp: phase_of_TransitionJob)
next
  case (condition d now k c)
  then show ?case by (simp add: phase_of_SetJobCondition)
next
  case (bind d now locked k taskID target placement)
  then show ?case
    by (cases rule: BindJob_cases[of now locked k taskID target placement d])
      (auto simp: phase_of_write_job, auto simp: phase_of_def write_job_def tbl_find_update)
qed (use same_core_steps same_core_stamp in \<open>simp_all add: same_core_def\<close>)

section \<open>A concrete run\<close>

text \<open>One job, from submission to success, used to instantiate the properties.\<close>

definition demo_job :: "string \<Rightarrow> job_record" where
  "demo_job i = \<lparr>jr_JobID = i, jr_Tenant = ''acme/lab'', jr_Name = ''bell'', jr_Phase = Pending,
     jr_Doc = [(''spec'', JObj [(''workload'', JObj [(''gateModel'', JObj [(''shots'', JNum 100)])])])],
     jr_Status = [(''phase'', JStr ''PENDING'')], jr_CreatedAt = 0, jr_UpdatedAt = 0\<rparr>"

definition demo_pending :: db where
  "demo_pending = fst (InsertJob 1 (demo_job ''j1'') empty_db)"

definition demo_bound :: db where
  "demo_bound = fst (BindJob 2 (\<lambda>_. False) ''j1'' ''t1'' ''siteA/dev1'' [] demo_pending)"

definition demo_running :: db where
  "demo_running = fst (TransitionJob 4 ''j1'' Running None (fst (TransitionJob 3 ''j1'' Submitted None demo_bound)))"

definition demo_done :: db where
  "demo_done = fst (TransitionJob 5 ''j1'' Succeeded None demo_running)"

lemma demo_reachable:
  "reachable demo_pending" "reachable demo_bound" "reachable demo_running" "reachable demo_done"
proof -
  show p: "reachable demo_pending"
    unfolding demo_pending_def by (rule reachable.step[OF reachable.start insert_job]) (simp add: demo_job_def)
  show b: "reachable demo_bound"
    unfolding demo_bound_def by (rule reachable.step[OF p bind])
  show r: "reachable demo_running"
    unfolding demo_running_def
    by (rule reachable.step[OF reachable.step[OF b transition] transition]) simp_all
  show "reachable demo_done"
    unfolding demo_done_def by (rule reachable.step[OF r transition]) simp
qed

lemma demo_run: "store_run demo_pending demo_done"
proof -
  have "store_step demo_pending demo_bound" unfolding demo_bound_def by (rule bind)
  moreover have "store_run demo_bound demo_running"
    unfolding demo_running_def by (rule run_trans[OF run_transition run_transition]) simp_all
  moreover have "store_run demo_running demo_done" unfolding demo_done_def by (rule run_transition) simp
  ultimately show ?thesis by (meson converse_rtranclp_into_rtranclp run_trans)
qed

lemmas demo_defs = demo_done_def demo_running_def demo_bound_def demo_pending_def demo_job_def

lemma demo_job_id: "jr_JobID (demo_job i) = i" "jr_Phase (demo_job i) = Pending"
  by (simp_all add: demo_job_def)

lemma demo_done_ids: "job_ids demo_done = [''j1'']"
  by code_simp

lemma demo_done_phase: "phase_of demo_done ''j1'' = Some Succeeded"
  by code_simp

lemma demo_done_history: "history demo_done ''j1'' = [Pending, Scheduled, Submitted, Running, Succeeded]"
  by code_simp

section \<open>Properties\<close>

text \<open>C1: Whatever transactions the control plane interleaves, in any order, after a job's insertion has committed:
  the chaos harness finds every job it was told is accepted, each accepted at its own moment of the run, no task
  billed twice and no gap in an audit trail.\<close>

theorem chaos_invariants_hold:
  assumes "reachable d" and "\<forall>i \<in> set accepted. accepted_into d i"
  shows "noJobLost d accepted = [] \<and> noDuplicateExecution d accepted = [] \<and> auditGapless d accepted = []"
proof -
  have "set accepted \<subseteq> set (job_ids d)" using assms(2) accepted_is_stored by blast
  with reachable_ok[OF assms(1)] show ?thesis
    by (simp add: db_ok_def noJobLost_ok noDuplicateExecution_ok auditGapless_ok)
qed

theorem chaos_invariants_hold_witness:
  "noJobLost demo_done [''j1''] = [] \<and> noDuplicateExecution demo_done [''j1''] = [] \<and> auditGapless demo_done [''j1''] = []"
proof -
  have "snd (InsertJob 1 (demo_job ''j1'') empty_db) = Inr ()" by code_simp
  moreover have "store_run (fst (InsertJob 1 (demo_job ''j1'') empty_db)) demo_done"
    using demo_run by (simp add: demo_pending_def)
  ultimately have "accepted_into demo_done ''j1''"
    unfolding accepted_into_def using reachable.start demo_job_id by blast
  then show ?thesis by (intro chaos_invariants_hold[OF demo_reachable(4)]) simp
qed

text \<open>C15: A job is never bound twice: on every reachable database each job has at most one task,
  and it has one exactly when its history shows \<open>SCHEDULED\<close>.\<close>

theorem at_most_one_task:
  assumes "reachable d"
  shows "distinct (map tk_JobID (tasks d)) \<and>
    (\<forall>i. i \<in> set (map tk_JobID (tasks d)) \<longleftrightarrow> Scheduled \<in> set (history d i))"
  using reachable_ok[OF assms] by (auto simp: db_ok_def store_inv_def tasks_ok_def)

theorem at_most_one_task_witness: "distinct (map tk_JobID (tasks demo_done))"
  using at_most_one_task[OF demo_reachable(4)] by simp

text \<open>C12: A job that is \<open>SUCCEEDED\<close> on a reachable database was scheduled, then submitted, then running,
  in that order, and its event log starts at \<open>PENDING\<close> and ends at \<open>SUCCEEDED\<close>.\<close>

theorem succeeded_passed_every_milestone:
  assumes "reachable d" and "phase_of d i = Some Succeeded"
  shows "subseq [Scheduled, Submitted, Running, Succeeded] (history d i) \<and>
    hd (history d i) = Pending \<and> last (history d i) = Succeeded"
proof -
  from reachable_ok[OF assms(1)] assms(2) have l: "legal_path (history d i)" "last (history d i) = Succeeded"
    by (auto simp: db_ok_def store_inv_def jobs_ok_def)
  with legal_path_milestones[OF l(1)] show ?thesis by (simp add: milestones_def legal_path_def)
qed

theorem succeeded_passed_every_milestone_witness:
  "subseq [Scheduled, Submitted, Running, Succeeded] (history demo_done ''j1'')"
  using succeeded_passed_every_milestone[OF demo_reachable(4) demo_done_phase] by simp

text \<open>A terminal phase is final: along any run of store transactions a finished job keeps its phase.\<close>

theorem terminal_phase_final:
  assumes "reachable d" and "store_run d d'" and "phase_of d i = Some p" and "Terminal p"
  shows "phase_of d' i = Some p"
  using assms(2,1,3)
proof (induction rule: rtranclp_induct)
  case (step t u)
  have "db_ok t" using store.run[OF step(1)] reachable_ok[OF step(4)] by simp
  with step phase_step_terminal[of t u i p] assms(4) show ?case by simp
qed simp

theorem terminal_phase_final_witness:
  "phase_of (fst (TransitionJob 9 ''j1'' Cancelled None demo_done)) ''j1'' = Some Succeeded"
  by (rule terminal_phase_final[OF demo_reachable(4) run_transition demo_done_phase]) simp_all

text \<open>The event log and the usage ledger are append-only along every run: what was written stays,
  at the same place.\<close>

theorem logs_append_only:
  assumes "store_run d d'"
  shows "prefix (job_events d) (job_events d') \<and> prefix (usage_ledger d) (usage_ledger d')"
  using assms
proof (induction rule: rtranclp_induct)
  case (step t u)
  note e = prefix_order.trans[OF _ events_step[OF step(2)]] and l = prefix_order.trans[OF _ ledger_step[OF step(2)]]
  from step.IH show ?case by (auto intro: e l)
qed simp

theorem logs_append_only_witness: "prefix (job_events demo_running) (job_events demo_done)"
  unfolding demo_done_def
  using logs_append_only[OF run_transition[of Succeeded demo_running 5 "''j1''" None]] by simp

text \<open>Recording a task's usage is idempotent, whatever order the units come in: a second call for
  the same task and units leaves the ledger as it is, and no key is ever billed twice.\<close>

theorem usage_recorded_once:
  assumes "set (map fst usage') \<subseteq> set (map fst usage)" and "distinct (map ledger_key (usage_ledger d))"
  shows "usage_ledger (RecordUsage now' i taskID tenant target usage' (RecordUsage now i taskID tenant target usage d)) =
      usage_ledger (RecordUsage now i taskID tenant target usage d) \<and>
    distinct (map ledger_key (usage_ledger (RecordUsage now i taskID tenant target usage d)))"
proof -
  have "\<forall>u \<in> fst ` set usage'. tbl_has ledger_key (taskID, u) (usage_ledger (RecordUsage now i taskID tenant target usage d))"
    using assms(1) by (auto simp: RecordUsage_has)
  from RecordUsage_idle[OF this] RecordUsage_distinct[OF assms(2)] show ?thesis by simp
qed

theorem usage_recorded_once_witness:
  "usage_ledger (RecordUsage 8 ''j1'' ''t1'' ''acme/lab'' ''siteA/dev1'' [(''shots'', 100)]
      (RecordUsage 7 ''j1'' ''t1'' ''acme/lab'' ''siteA/dev1'' [(''qpu-seconds'', 2), (''shots'', 100)] empty_db)) =
   usage_ledger (RecordUsage 7 ''j1'' ''t1'' ''acme/lab'' ''siteA/dev1'' [(''qpu-seconds'', 2), (''shots'', 100)] empty_db)"
  using usage_recorded_once[of "[(''shots'', 100)]" "[(''qpu-seconds'', 2), (''shots'', 100)]" empty_db] by (simp add: empty_db_def)

text \<open>C38: Terminal immutability, invariant 3 of the chaos harness, exactly: a phase transition keeps a
  job's log sealed, and a condition update keeps it sealed if and only if the job is not in a
  terminal phase or nothing is written. \<open>SetJobCondition\<close> itself has no such guard.\<close>

theorem terminal_log_sealed:
  assumes "reachable d" and "sealed d i" and "phase_of d i = Some p"
  shows "sealed (fst (TransitionJob now k dst mutate d)) i \<and>
    (sealed (fst (SetJobCondition now i c d)) i \<longleftrightarrow> \<not> Terminal p \<or> snd (SetJobCondition now i c d) = Inr False)"
  using reachable_ok[OF assms(1)] sealed_TransitionJob[OF _ assms(2)] sealed_SetJobCondition[OF _ assms(2,3)]
  by (auto simp: db_ok_def store_inv_def)

theorem terminal_log_sealed_witness:
  "\<not> sealed (fst (SetJobCondition 9 ''j1'' (cond_obj ''Schedulable'' ''False'' ''NoFeasibleTarget'' ''none'') demo_done)) ''j1''"
proof -
  have "sealed demo_done ''j1''" by (simp add: sealed_def demo_done_history)
  moreover have "snd (SetJobCondition 9 ''j1'' (cond_obj ''Schedulable'' ''False'' ''NoFeasibleTarget'' ''none'') demo_done) = Inr True"
    by code_simp
  ultimately show ?thesis
    using terminal_log_sealed[OF demo_reachable(4) _ demo_done_phase, where now = 9
        and c = "cond_obj ''Schedulable'' ''False'' ''NoFeasibleTarget'' ''none''"] by simp
qed

end
