(* ===== verification/Go_Parse.thy ===== *)
theory Go_Parse
  imports Go_Fmt
begin

text \<open>
  The decoders of Go's standard library the sources call on user input: \<open>time.ParseDuration\<close>,
  \<open>time.Parse(time.RFC3339, s)\<close>, \<open>base64.StdEncoding.DecodeString\<close>, \<open>strconv.Atoi\<close>, the whitespace
  functions of \<open>strings\<close>, and the conversion of a float to an unsigned integer. \<open>None\<close> is a
  non-nil error. Strings are ASCII where whitespace is concerned.
\<close>

section \<open>Characters\<close>

definition code :: "char \<Rightarrow> nat" where
  "code c = of_char c"

definition is_digit :: "char \<Rightarrow> bool" where
  "is_digit c = (48 \<le> code c \<and> code c \<le> 57)"

definition digit_val :: "char \<Rightarrow> nat" where
  "digit_val c = code c - 48"

definition is_space :: "char \<Rightarrow> bool" where
  "is_space c = (code c \<in> {9, 10, 11, 12, 13, 32})"

definition TrimSpace :: "string \<Rightarrow> string" where
  "TrimSpace s = rev (dropWhile is_space (rev (dropWhile is_space s)))"

fun dec_val :: "int \<Rightarrow> string \<Rightarrow> int" where
  "dec_val acc [] = acc"
| "dec_val acc (c # cs) = dec_val (acc * 10 + int (digit_val c)) cs"

text \<open>\<open>strings.Split(s, sep)\<close> for a one-byte separator.\<close>

fun Split :: "char \<Rightarrow> string \<Rightarrow> string list" where
  "Split c [] = [[]]"
| "Split c (x # xs) =
     (case Split c xs of
        [] \<Rightarrow> [[x]]
      | w # ws \<Rightarrow> if x = c then [] # w # ws else (x # w) # ws)"

lemma Split_nonempty: "Split c s \<noteq> []"
  by (induction s) (auto split: list.splits)

text \<open>\<open>strings.Fields\<close>: the maximal runs of non-space bytes.\<close>

fun fields_acc :: "string \<Rightarrow> string \<Rightarrow> string list" where
  "fields_acc w [] = (if w = [] then [] else [rev w])"
| "fields_acc w (c # cs) =
     (if is_space c then (if w = [] then fields_acc [] cs else rev w # fields_acc [] cs)
      else fields_acc (c # w) cs)"

definition Fields :: "string \<Rightarrow> string list" where
  "Fields s = fields_acc [] s"

text \<open>\<open>int\<close> is 64 bits wide; \<open>Atoi\<close> of a digit string clamps at the largest value and reports an
  error, which its one caller here ignores.\<close>

definition max_int64 :: int where
  "max_int64 = 9223372036854775807"

definition wrap64 :: "int \<Rightarrow> int" where
  "wrap64 n = (n + 9223372036854775808) mod 18446744073709551616 - 9223372036854775808"

definition Atoi_clamped :: "string \<Rightarrow> int" where
  "Atoi_clamped s = min max_int64 (dec_val 0 s)"

lemma wrap64_id: "- 9223372036854775808 \<le> n \<Longrightarrow> n \<le> max_int64 \<Longrightarrow> wrap64 n = n"
  by (simp add: wrap64_def max_int64_def)

text \<open>\<open>uint32(x)\<close> and \<open>uint64(x)\<close> of a float: the truncated value where it fits. Out of range the
  language leaves the value open; the wrapped value stands for it.\<close>

definition to_uint32 :: "float64 \<Rightarrow> nat" where
  "to_uint32 x = nat (trunc x mod 4294967296)"

definition to_uint64 :: "float64 \<Rightarrow> nat" where
  "to_uint64 x = nat (trunc x mod 18446744073709551616)"

lemma to_uint_of_nat:
  "n < 4294967296 \<Longrightarrow> to_uint32 (of_nat n) = n" "n < 18446744073709551616 \<Longrightarrow> to_uint64 (of_nat n) = n"
  by (simp_all add: to_uint32_def to_uint64_def)

section \<open>Durations\<close>

definition two63 :: nat where
  "two63 = 9223372036854775808"

text \<open>\<open>leadingInt\<close>: overflow is an error.\<close>

fun leadingInt :: "nat \<Rightarrow> string \<Rightarrow> (nat \<times> string) option" where
  "leadingInt x [] = Some (x, [])"
| "leadingInt x (c # cs) =
     (if \<not> is_digit c then Some (x, c # cs)
      else if x > two63 div 10 then None
      else if x * 10 + digit_val c > two63 then None
      else leadingInt (x * 10 + digit_val c) cs)"

text \<open>\<open>leadingFraction\<close>: digits past the overflow are read and ignored. The last result is the
  number of digits that count, \<open>scale = 10 ^ k\<close>.\<close>

fun leadingFraction :: "bool \<Rightarrow> nat \<Rightarrow> nat \<Rightarrow> string \<Rightarrow> nat \<times> nat \<times> string" where
  "leadingFraction ovf x k [] = (x, k, [])"
| "leadingFraction ovf x k (c # cs) =
     (if \<not> is_digit c then (x, k, c # cs)
      else if ovf \<or> x > (two63 - 1) div 10 \<or> x * 10 + digit_val c > two63
      then leadingFraction True x k cs
      else leadingFraction False (x * 10 + digit_val c) (Suc k) cs)"

definition unitMap :: "string \<Rightarrow> nat option" where
  "unitMap u =
     (if u = ''ns'' then Some 1
      else if u = ''us'' \<or> u = micro_sign @ ''s'' \<or> u = [char_of (206 :: nat), char_of (188 :: nat)] @ ''s''
      then Some 1000
      else if u = ''ms'' then Some 1000000
      else if u = ''s'' then Some 1000000000
      else if u = ''m'' then Some 60000000000
      else if u = ''h'' then Some 3600000000000
      else None)"

definition is_unit_char :: "char \<Rightarrow> bool" where
  "is_unit_char c = (c \<noteq> CHR ''.'' \<and> \<not> is_digit c)"

text \<open>One term of the loop: the nanoseconds of \<open>[0-9]*(\.[0-9]*)?[a-z]+\<close> and the rest.\<close>

definition duration_term :: "string \<Rightarrow> (nat \<times> string) option" where
  "duration_term s =
     (if s = [] \<or> is_unit_char (hd s) then None
      else
        (case leadingInt 0 s of
           None \<Rightarrow> None
         | Some (v, s1) \<Rightarrow>
             (let pre = (length s1 \<noteq> length s);
                  (f, k, s2, post) =
                    (if s1 \<noteq> [] \<and> hd s1 = CHR ''.''
                     then (let (f, k, s2) = leadingFraction False 0 0 (tl s1)
                           in (f, k, s2, length s2 \<noteq> length (tl s1)))
                     else (0, 0, s1, False));
                  u = takeWhile is_unit_char s2;
                  s3 = dropWhile is_unit_char s2
              in if \<not> pre \<and> \<not> post then None
                 else if u = [] then None
                 else
                   (case unitMap u of
                      None \<Rightarrow> None
                    | Some unit \<Rightarrow>
                        (if v > two63 div unit then None
                         else
                           (let v' = v * unit +
                                  (if f > 0 then nat (trunc (real f * (real unit / 10 ^ k))) else 0)
                            in if f > 0 \<and> v' > two63 then None else Some (v', s3)))))))"

lemma leadingInt_length: "leadingInt x s = Some (v, s') \<Longrightarrow> length s' \<le> length s"
  by (induction x s rule: leadingInt.induct) (auto split: if_splits)

lemma leadingFraction_length: "leadingFraction b x k s = (f, k', s') \<Longrightarrow> length s' \<le> length s"
  by (induction b x k s rule: leadingFraction.induct) (auto split: if_splits)

lemma duration_term_shorter:
  assumes "duration_term s = Some (v, s')"
  shows "length s' < length s"
proof -
  from assms have s: "s \<noteq> []" "\<not> is_unit_char (hd s)" by (auto simp: duration_term_def split: if_splits)
  from assms obtain v1 s1 where li: "leadingInt 0 s = Some (v1, s1)"
    by (auto simp: duration_term_def split: if_splits option.splits)
  define t where "t = (if s1 \<noteq> [] \<and> hd s1 = CHR ''.'' then snd (snd (leadingFraction False 0 0 (tl s1))) else s1)"
  have "length t \<le> length s1"
    using leadingFraction_length[of False 0 0 "tl s1"]
    by (cases "leadingFraction False 0 0 (tl s1)") (auto simp: t_def)
  moreover have "takeWhile is_unit_char t \<noteq> []" "s' = dropWhile is_unit_char t"
    using assms s li by (auto simp: duration_term_def t_def Let_def split: if_splits prod.splits option.splits)
  moreover from this have "length s' < length t"
    by (metis append_Nil length_append length_greater_0_conv less_add_same_cancel2 takeWhile_dropWhile_id)
  ultimately show ?thesis using leadingInt_length[OF li] by simp
qed

function duration_terms :: "nat \<Rightarrow> string \<Rightarrow> nat option" where
  "duration_terms d s =
     (if s = [] then Some d
      else
        (case duration_term s of
           None \<Rightarrow> None
         | Some (v, s') \<Rightarrow> if d + v > two63 then None else duration_terms (d + v) s'))"
  by pat_completeness auto
termination
  by (relation "measure (\<lambda>(d, s). length s)") (auto dest: duration_term_shorter)

declare duration_terms.simps [simp del]

definition ParseDuration :: "string \<Rightarrow> duration option" where
  "ParseDuration s0 =
     (let signed = (s0 \<noteq> [] \<and> hd s0 \<in> {CHR ''-'', CHR ''+''});
          neg = (signed \<and> hd s0 = CHR ''-'');
          s = (if signed then tl s0 else s0)
      in if s = ''0'' then Some 0
         else if s = [] then None
         else
           (case duration_terms 0 s of
              None \<Rightarrow> None
            | Some d \<Rightarrow>
                if neg then Some (- int d)
                else if d > two63 - 1 then None
                else Some (int d)))"

lemma duration_terms_bound: "duration_terms d s = Some d' \<Longrightarrow> d \<le> two63 \<Longrightarrow> d' \<le> two63"
proof (induction d s rule: duration_terms.induct)
  case (1 d s)
  then show ?case
    by (auto simp: duration_terms.simps[of d s] split: if_splits option.splits)
qed

text \<open>A parsed duration fits an \<open>int64\<close>.\<close>

lemma ParseDuration_range:
  assumes "ParseDuration s = Some d"
  shows "min_duration \<le> d \<and> d \<le> max_duration"
  using assms duration_terms_bound[of 0]
  by (fastforce simp: ParseDuration_def Let_def two63_def min_duration_def max_duration_def
      split: if_splits option.splits)

section \<open>Timestamps\<close>

definition is_leap :: "int \<Rightarrow> bool" where
  "is_leap y = (y mod 4 = 0 \<and> (y mod 100 \<noteq> 0 \<or> y mod 400 = 0))"

definition days_in :: "int \<Rightarrow> nat \<Rightarrow> nat" where
  "days_in y m = (if m = 2 then (if is_leap y then 29 else 28) else if m \<in> {4, 6, 9, 11} then 30 else 31)"

definition days_of_civil :: "int \<Rightarrow> int \<Rightarrow> int \<Rightarrow> int" where
  "days_of_civil y0 m d =
     (let y = (if m \<le> 2 then y0 - 1 else y0); era = y div 400; yoe = y mod 400;
          mp = (if m > 2 then m - 3 else m + 9);
          doy = (153 * mp + 2) div 5 + d - 1;
          doe = yoe * 365 + yoe div 4 - yoe div 100 + doy
      in era * 146097 + doe - 719468)"

text \<open>\<open>getnum(s, fixed)\<close>: two digits, or one when not \<open>fixed\<close>.\<close>

definition getnum :: "bool \<Rightarrow> string \<Rightarrow> (nat \<times> string) option" where
  "getnum fixed s =
     (case s of
        [] \<Rightarrow> None
      | a # r \<Rightarrow>
          (if \<not> is_digit a then None
           else
             (case r of
                b # r' \<Rightarrow> if is_digit b then Some (digit_val a * 10 + digit_val b, r')
                          else if fixed then None else Some (digit_val a, r)
              | [] \<Rightarrow> if fixed then None else Some (digit_val a, r))))"

definition expect :: "char \<Rightarrow> string \<Rightarrow> string option" where
  "expect c s = (case s of [] \<Rightarrow> None | x # xs \<Rightarrow> if x = c then Some xs else None)"

text \<open>A fraction after the seconds, nine digits of which count.\<close>

definition frac_nanos :: "string \<Rightarrow> int \<times> string" where
  "frac_nanos s =
     (case s of
        c # d # r \<Rightarrow>
          (if (c = CHR ''.'' \<or> c = CHR '','') \<and> is_digit d
           then (let ds = takeWhile is_digit (d # r); k = take 9 ds
                 in (dec_val 0 k * 10 ^ (9 - length k), dropWhile is_digit (d # r)))
           else (0, s))
      | _ \<Rightarrow> (0, s))"

text \<open>\<open>Z\<close> or an offset in seconds; hours up to 24 and minutes up to 60 are accepted.\<close>

definition zone_offset :: "string \<Rightarrow> (int \<times> string) option" where
  "zone_offset s =
     (case s of
        [] \<Rightarrow> None
      | c # r \<Rightarrow>
          (if c = CHR ''Z'' then Some (0, r)
           else if length s < 6 \<or> s ! 3 \<noteq> CHR '':'' \<or> c \<notin> {CHR ''+'', CHR ''-''} then None
           else
             (case (getnum True (take 2 r), getnum True (take 2 (drop 3 r))) of
                (Some (hh, _), Some (mm, _)) \<Rightarrow>
                  (if hh > 24 \<or> mm > 60 then None
                   else Some ((if c = CHR ''-'' then - 1 else 1) * (int hh * 60 + int mm) * 60, drop 6 s))
              | _ \<Rightarrow> None)))"

text \<open>A number in a range followed by a separator.\<close>

definition num_sep :: "bool \<Rightarrow> nat \<Rightarrow> nat \<Rightarrow> char \<Rightarrow> string \<Rightarrow> (nat \<times> string) option" where
  "num_sep fixed lo hi c s =
     (case getnum fixed s of
        Some (n, r) \<Rightarrow> if lo \<le> n \<and> n \<le> hi then map_option (Pair n) (expect c r) else None
      | None \<Rightarrow> None)"

definition ParseRFC3339 :: "string \<Rightarrow> time option" where
  "ParseRFC3339 s =
     (if length s < 5 \<or> \<not> list_all is_digit (take 4 s) \<or> s ! 4 \<noteq> CHR ''-'' then None
      else
        (let y = dec_val 0 (take 4 s)
         in case num_sep True 1 12 (CHR ''-'') (drop 5 s) of None \<Rightarrow> None | Some (mo, s1) \<Rightarrow>
           (case num_sep True 0 99 (CHR ''T'') s1 of None \<Rightarrow> None | Some (dd, s2) \<Rightarrow>
           (case num_sep False 0 23 (CHR '':'') s2 of None \<Rightarrow> None | Some (hh, s3) \<Rightarrow>
           (case num_sep True 0 59 (CHR '':'') s3 of None \<Rightarrow> None | Some (mi, s4) \<Rightarrow>
           (case getnum True s4 of None \<Rightarrow> None | Some (se, s5) \<Rightarrow>
             (let (ns, s6) = frac_nanos s5
              in case zone_offset s6 of None \<Rightarrow> None | Some (off, s7) \<Rightarrow>
                if se > 59 \<or> s7 \<noteq> [] \<or> dd < 1 \<or> dd > days_in y mo then None
                else Some ((days_of_civil y (int mo) (int dd) * 86400 + int hh * 3600 +
                            int mi * 60 + int se - off) * 1000000000 + ns))))))))"

section \<open>Base64\<close>

definition b64_val :: "char \<Rightarrow> nat option" where
  "b64_val c =
     (let n = code c
      in if 65 \<le> n \<and> n \<le> 90 then Some (n - 65)
         else if 97 \<le> n \<and> n \<le> 122 then Some (n - 71)
         else if 48 \<le> n \<and> n \<le> 57 then Some (n + 4)
         else if n = 43 then Some 62 else if n = 47 then Some 63 else None)"

text \<open>Quantum by quantum; a padded quantum is the last one. Newlines were removed before.\<close>

fun b64_quanta :: "string \<Rightarrow> string option" where
  "b64_quanta [] = Some []"
| "b64_quanta (a # b # c # d # r) =
     (case (b64_val a, b64_val b) of
        (Some x, Some y) \<Rightarrow>
          (let b1 = char_of (x * 4 + y div 16)
           in if c = CHR ''='' then (if d = CHR ''='' \<and> r = [] then Some [b1] else None)
              else (case b64_val c of
                  None \<Rightarrow> None
                | Some z \<Rightarrow>
                    (let b2 = char_of (y mod 16 * 16 + z div 4)
                     in if d = CHR ''='' then (if r = [] then Some [b1, b2] else None)
                        else (case b64_val d of
                            None \<Rightarrow> None
                          | Some w \<Rightarrow>
                              map_option (\<lambda>t. b1 # b2 # char_of (z mod 4 * 64 + w) # t) (b64_quanta r)))))
      | _ \<Rightarrow> None)"
| "b64_quanta _ = None"

definition b64_DecodeString :: "string \<Rightarrow> string option" where
  "b64_DecodeString s = b64_quanta (filter (\<lambda>c. code c \<notin> {10, 13}) s)"

section \<open>Floats\<close>

text \<open>\<open>strconv.ParseFloat\<close> on decimal notation, \<open>[+-]d*[.d*][e[+-]d+]\<close> with a digit in the mantissa.
  Hexadecimal floats and the names of the infinities and NaN are outside the model.\<close>

definition sign_split :: "string \<Rightarrow> int \<times> string" where
  "sign_split s = (case s of
      c # r \<Rightarrow> if c = CHR ''-'' then (- 1, r) else if c = CHR ''+'' then (1, r) else (1, s)
    | [] \<Rightarrow> (1, s))"

definition exp_part :: "string \<Rightarrow> int option" where
  "exp_part s =
     (case s of
        [] \<Rightarrow> Some 0
      | c # r \<Rightarrow>
          (let (sg, ds) = sign_split r
           in if c \<in> {CHR ''e'', CHR ''E''} \<and> ds \<noteq> [] \<and> list_all is_digit ds
              then Some (sg * dec_val 0 ds) else None))"

definition ParseFloat :: "string \<Rightarrow> float64 option" where
  "ParseFloat s0 =
     (let (sg, s) = sign_split s0;
          ip = takeWhile is_digit s; r = dropWhile is_digit s;
          (fp, t) = (if r \<noteq> [] \<and> hd r = CHR ''.''
                     then (takeWhile is_digit (tl r), dropWhile is_digit (tl r)) else ([], r))
      in if ip = [] \<and> fp = [] then None
         else
           (case exp_part t of
              None \<Rightarrow> None
            | Some e \<Rightarrow>
                (let m = of_int sg * of_int (dec_val 0 (ip @ fp)) / 10 ^ length fp
                 in Some (if e < 0 then m / 10 ^ nat (- e) else m * 10 ^ nat e))))"

section \<open>Examples\<close>

lemma ParseFloat_examples: "ParseFloat ''0.0071'' = Some (71 / 10000)" "ParseFloat ''1e-2'' = Some (1 / 100)"
  "ParseFloat [] = None"
  by (simp_all add: ParseFloat_def sign_split_def exp_part_def is_digit_def code_def digit_val_def Let_def)

lemma ParseDuration_examples:
  "ParseDuration ''1h30m'' = Some 5400000000000" "ParseDuration ''1.5s'' = Some 1500000000"
  "ParseDuration ''90'' = None"
  by (simp_all add: ParseDuration_def duration_terms.simps duration_term_def is_unit_char_def
      is_digit_def code_def digit_val_def two63_def unitMap_def trunc_def Let_def micro_sign_def)

lemma ParseRFC3339_example: "ParseRFC3339 ''2026-07-19T00:00:01Z'' = Some 1784419201000000000"
  by code_simp

lemma b64_example: "b64_DecodeString ''cmFiaQ=='' = Some ''rabi''"
  by code_simp

text \<open>Reading back a printed number.\<close>

lemma digit_val_digit: "n < 10 \<Longrightarrow> is_digit (digit n) \<and> digit_val (digit n) = n"
proof -
  have "list_all (\<lambda>n. is_digit (digit n) \<and> digit_val (digit n) = n) [0..<10]" by code_simp
  then show "n < 10 \<Longrightarrow> is_digit (digit n) \<and> digit_val (digit n) = n" by (simp add: list_all_iff)
qed

lemma dec_val_snoc: "dec_val acc (s @ [c]) = dec_val acc s * 10 + int (digit_val c)"
  by (induction s arbitrary: acc) simp_all

lemma itoa_digits: "itoa n \<noteq> [] \<and> list_all is_digit (itoa n) \<and> dec_val 0 (itoa n) = int n"
proof (induction n rule: itoa.induct)
  case (1 n)
  show ?case
  proof (cases "n < 10")
    case True
    then show ?thesis using digit_val_digit[of n] by (simp add: itoa.simps[of n])
  next
    case False
    have "digit n = digit (n mod 10)" by (simp add: digit_def)
    then have "is_digit (digit n) \<and> digit_val (digit n) = n mod 10" using digit_val_digit[of "n mod 10"] by simp
    moreover have "int (n div 10) * 10 + int (n mod 10) = int n"
      by (metis div_mult_mod_eq of_nat_add of_nat_mult of_nat_numeral)
    ultimately show ?thesis using 1[OF False] False by (simp add: itoa.simps[of n] dec_val_snoc)
  qed
qed

end
