(* ===== verification/Qasm.thy ===== *)
theory Qasm
  imports Go_Parse
begin

text \<open>
  \<open>ProfileQASM\<close> of \<open>internal/scheduler/qasm.go\<close>: the lexical scan of a flat OpenQASM 2/3 program.
  Each of the four regular expressions is a matcher written out by hand; in all of them every
  repetition is followed by a character outside its class, so the greedy match is the only one,
  except for the optional parameter list of a gate call, whose two readings are both tried.
  Go's \<open>int\<close> is 64 bits wide: the register arithmetic wraps (\<open>wrap64\<close>).
\<close>

section \<open>The profile and the gate tables\<close>

record CircuitProfile =
  cp_Qubits :: int
  cp_OneQubitGates :: int
  cp_TwoQubitGates :: int
  cp_MeasuredQubits :: int

definition oneQubitGates :: "string list" where
  "oneQubitGates = [''id'', ''x'', ''y'', ''z'', ''h'', ''s'', ''sdg'', ''t'', ''tdg'', ''sx'', ''sxdg'',
     ''rx'', ''ry'', ''rz'', ''p'', ''u'', ''u1'', ''u2'', ''u3'', ''reset'']"

definition twoQubitGates :: "string list" where
  "twoQubitGates = [''cx'', ''cy'', ''cz'', ''ch'', ''cp'', ''swap'', ''crx'', ''cry'', ''crz'', ''cu'',
     ''cu1'', ''cu3'', ''rxx'', ''ryy'', ''rzz'', ''rzx'', ''ecr'', ''iswap'', ''dcx'', ''csx'']"

definition threeQubitDecomp :: "string \<Rightarrow> (int \<times> int) option" where
  "threeQubitDecomp name =
     (if name = ''ccx'' \<or> name = ''ccz'' then Some (9, 6)
      else if name = ''cswap'' then Some (11, 8) else None)"

section \<open>Matchers\<close>

text \<open>The classes \<open>\s\<close>, \<open>\w\<close> and \<open>\d\<close> of the regular expressions.\<close>

definition re_s :: "char \<Rightarrow> bool" where
  "re_s c = (code c \<in> {9, 10, 12, 13, 32})"

definition is_lower :: "char \<Rightarrow> bool" where
  "is_lower c = (97 \<le> code c \<and> code c \<le> 122)"

definition is_upper :: "char \<Rightarrow> bool" where
  "is_upper c = (65 \<le> code c \<and> code c \<le> 90)"

definition re_w :: "char \<Rightarrow> bool" where
  "re_w c = (is_lower c \<or> is_upper c \<or> is_digit c \<or> c = CHR ''_'')"

definition skip_s :: "string \<Rightarrow> string" where
  "skip_s s = dropWhile re_s s"

definition skip_s1 :: "string \<Rightarrow> string option" where
  "skip_s1 s = (if s \<noteq> [] \<and> re_s (hd s) then Some (skip_s s) else None)"

definition word1 :: "string \<Rightarrow> (string \<times> string) option" where
  "word1 s = (let w = takeWhile re_w s in if w = [] then None else Some (w, dropWhile re_w s))"

text \<open>\<open>\[(\d+)\]\<close>: the digits and what follows the bracket.\<close>

definition index1 :: "string \<Rightarrow> (string \<times> string) option" where
  "index1 s =
     (case s of
        [] \<Rightarrow> None
      | c # r \<Rightarrow>
          (let ds = takeWhile is_digit r; t = dropWhile is_digit r
           in if c = CHR ''['' \<and> ds \<noteq> [] \<and> t \<noteq> [] \<and> hd t = CHR '']'' then Some (ds, tl t) else None))"

text \<open>\<open>qubitDeclRe\<close>: the size of \<open>qubit[n]\<close> or \<open>qreg name[n]\<close>.\<close>

definition qubitDeclRe :: "string \<Rightarrow> string option" where
  "qubitDeclRe line =
     (let s = skip_s line
      in case Option.bind (CutPrefix ''qubit'' s) index1 of
           Some (ds, _) \<Rightarrow> Some ds
         | None \<Rightarrow>
             (case Option.bind (Option.bind (CutPrefix ''qreg'' s) skip_s1) word1 of
                Some (_, r) \<Rightarrow> map_option fst (index1 r)
              | None \<Rightarrow> None))"

text \<open>\<open>measure2Re\<close>: the register and whether an index is given.\<close>

definition measure2Re :: "string \<Rightarrow> (string \<times> bool) option" where
  "measure2Re line =
     (case Option.bind (Option.bind (CutPrefix ''measure'' (skip_s line)) skip_s1) word1 of
        None \<Rightarrow> None
      | Some (reg, r) \<Rightarrow>
          (let (indexed, t) = (case index1 r of Some (_, t) \<Rightarrow> (True, t) | None \<Rightarrow> (False, r))
           in if prefix ''->'' (skip_s t) then Some (reg, indexed) else None))"

definition measure3Re :: "string \<Rightarrow> (string \<times> bool) option" where
  "measure3Re line =
     (case word1 (skip_s line) of
        None \<Rightarrow> None
      | Some (_, r) \<Rightarrow>
          (let t = (case index1 r of Some (_, t) \<Rightarrow> t | None \<Rightarrow> r)
           in case Option.bind (expect (CHR ''='') (skip_s t)) (\<lambda>u. CutPrefix ''measure'' (skip_s u)) of
                None \<Rightarrow> None
              | Some v \<Rightarrow>
                  (case Option.bind (skip_s1 v) word1 of
                     None \<Rightarrow> None
                   | Some (reg, x) \<Rightarrow> Some (reg, index1 x \<noteq> None))))"

text \<open>\<open>\s+(.+);\<close> at the start of the rest: a space, one more character, and a semicolon later.\<close>

definition args_follow :: "string \<Rightarrow> bool" where
  "args_follow r = (r \<noteq> [] \<and> re_s (hd r) \<and> CHR '';'' \<in> set (drop 2 r))"

definition after_params :: "string \<Rightarrow> string option" where
  "after_params r =
     (case skip_s r of
        [] \<Rightarrow> None
      | c # t \<Rightarrow>
          (let u = dropWhile (\<lambda>x. x \<noteq> CHR '')'') t
           in if c = CHR ''('' \<and> u \<noteq> [] then Some (tl u) else None))"

definition gateCallRe :: "string \<Rightarrow> string option" where
  "gateCallRe line =
     (let s = skip_s line; name = takeWhile re_w s; r = dropWhile re_w s
      in if name = [] \<or> \<not> (is_lower (hd name) \<or> hd name = CHR ''_'') then None
         else if args_follow r \<or> (case after_params r of Some t \<Rightarrow> args_follow t | None \<Rightarrow> False)
         then Some name else None)"

section \<open>The scan\<close>

datatype qasm_error = UnsupportedStatement nat string | CannotProfile nat string

text \<open>The scan's state: the profile and the register sizes.\<close>

type_synonym scan = "CircuitProfile \<times> (string \<rightharpoonup> int)"

definition reg_size :: "(string \<rightharpoonup> int) \<Rightarrow> string \<Rightarrow> int" where
  "reg_size regs r = (case regs r of Some n \<Rightarrow> n | None \<Rightarrow> 0)"

text \<open>\<open>strings.Index(line, "//")\<close>: what stands before the first comment mark.\<close>

fun before_comment :: "string \<Rightarrow> string" where
  "before_comment [] = []"
| "before_comment (c # cs) =
     (if c = CHR ''/'' \<and> cs \<noteq> [] \<and> hd cs = CHR ''/'' then [] else c # before_comment cs)"

definition strip_line :: "string \<Rightarrow> string" where
  "strip_line raw =
     (let line = TrimSpace raw
      in if before_comment line = line then line else TrimSpace (before_comment line))"

definition skipped_line :: "string \<Rightarrow> bool" where
  "skipped_line line = list_ex (\<lambda>p. prefix p line)
     [''OPENQASM'', ''include'', ''bit'', ''creg'', ''barrier'']"

text \<open>The register name: the last field, up to a bracket.\<close>

definition TrimSuffix :: "string \<Rightarrow> string \<Rightarrow> string" where
  "TrimSuffix s suf = (if suffix suf s then take (length s - length suf) s else s)"

definition decl_name :: "string \<Rightarrow> string" where
  "decl_name line = hd (Split (CHR ''['') (last (Fields (TrimSuffix line '';''))))"

definition measure_reg :: "string \<times> bool \<Rightarrow> scan \<Rightarrow> scan" where
  "measure_reg m sc =
     (let (p, regs) = sc; (reg, indexed) = m;
          n = (if indexed then 1 else reg_size regs reg)
      in (p\<lparr>cp_MeasuredQubits := wrap64 (cp_MeasuredQubits p + n)\<rparr>, regs))"

definition count_gate :: "nat \<Rightarrow> string \<Rightarrow> scan \<Rightarrow> qasm_error + scan" where
  "count_gate lineNo name sc =
     (let (p, regs) = sc
      in if name \<in> set oneQubitGates then Inr (p\<lparr>cp_OneQubitGates := cp_OneQubitGates p + 1\<rparr>, regs)
         else if name \<in> set twoQubitGates then Inr (p\<lparr>cp_TwoQubitGates := cp_TwoQubitGates p + 1\<rparr>, regs)
         else
           (case threeQubitDecomp name of
              Some (a, b) \<Rightarrow> Inr (p\<lparr>cp_OneQubitGates := cp_OneQubitGates p + a,
                                    cp_TwoQubitGates := cp_TwoQubitGates p + b\<rparr>, regs)
            | None \<Rightarrow> Inl (UnsupportedStatement (Suc lineNo) name)))"

definition scan_line :: "nat \<Rightarrow> string \<Rightarrow> scan \<Rightarrow> qasm_error + scan" where
  "scan_line lineNo raw sc =
     (let line = strip_line raw
      in if line = [] \<or> skipped_line line then Inr sc
         else
           (case qubitDeclRe line of
              Some sz \<Rightarrow>
                (let (p, regs) = sc; n = Atoi_clamped sz
                 in Inr (p\<lparr>cp_Qubits := wrap64 (cp_Qubits p + n)\<rparr>, regs(decl_name line \<mapsto> n)))
            | None \<Rightarrow>
                (case measure2Re line of
                   Some m \<Rightarrow> Inr (measure_reg m sc)
                 | None \<Rightarrow>
                     (case measure3Re line of
                        Some m \<Rightarrow> Inr (measure_reg m sc)
                      | None \<Rightarrow>
                          (case gateCallRe line of
                             Some name \<Rightarrow> count_gate lineNo name sc
                           | None \<Rightarrow> Inl (CannotProfile (Suc lineNo) line))))))"

fun scan_lines :: "nat \<Rightarrow> string list \<Rightarrow> scan \<Rightarrow> qasm_error + scan" where
  "scan_lines n [] sc = Inr sc"
| "scan_lines n (l # ls) sc =
     (case scan_line n l sc of Inl e \<Rightarrow> Inl e | Inr sc' \<Rightarrow> scan_lines (Suc n) ls sc')"

definition zero_profile :: CircuitProfile where
  "zero_profile = \<lparr>cp_Qubits = 0, cp_OneQubitGates = 0, cp_TwoQubitGates = 0, cp_MeasuredQubits = 0\<rparr>"

definition ProfileQASM :: "string \<Rightarrow> qasm_error + CircuitProfile" where
  "ProfileQASM src =
     (case scan_lines 0 (Split (CHR ''\<newline>'') src) (zero_profile, Map.empty) of
        Inl e \<Rightarrow> Inl e
      | Inr (p, _) \<Rightarrow>
          Inr (if cp_MeasuredQubits p > cp_Qubits p then p\<lparr>cp_MeasuredQubits := cp_Qubits p\<rparr> else p))"

section \<open>Facts\<close>

text \<open>Gate counts never decrease, so they are never negative; measured qubits never exceed the
  declared ones.\<close>

definition counts_ok :: "CircuitProfile \<Rightarrow> bool" where
  "counts_ok p = (0 \<le> cp_OneQubitGates p \<and> 0 \<le> cp_TwoQubitGates p)"

lemma scan_line_counts:
  assumes "scan_line n raw sc = Inr sc'" and "counts_ok (fst sc)"
  shows "counts_ok (fst sc')"
proof -
  have m: "counts_ok (fst (measure_reg mm sc))" for mm
    using assms(2) by (simp add: measure_reg_def counts_ok_def split_beta Let_def)
  have g: "count_gate n name sc = Inr sc' \<Longrightarrow> counts_ok (fst sc')" for name
    using assms(2)
    by (auto simp: count_gate_def counts_ok_def Let_def threeQubitDecomp_def split: prod.splits if_splits)
  show ?thesis using assms m g
    by (auto simp: scan_line_def Let_def counts_ok_def split: prod.splits if_splits option.splits)
qed

lemma scan_lines_counts:
  "scan_lines n ls sc = Inr sc' \<Longrightarrow> counts_ok (fst sc) \<Longrightarrow> counts_ok (fst sc')"
proof (induction n ls sc rule: scan_lines.induct)
  case (2 n l ls sc)
  then show ?case by (cases "scan_line n l sc") (auto dest: scan_line_counts)
qed simp

lemma ProfileQASM_shape:
  assumes "ProfileQASM src = Inr p"
  shows "counts_ok p" "cp_MeasuredQubits p \<le> cp_Qubits p"
proof -
  from assms obtain q regs where q: "scan_lines 0 (Split (CHR ''\<newline>'') src) (zero_profile, Map.empty) = Inr (q, regs)"
    and p: "p = (if cp_MeasuredQubits q > cp_Qubits q then q\<lparr>cp_MeasuredQubits := cp_Qubits q\<rparr> else q)"
    by (auto simp: ProfileQASM_def split: sum.splits prod.splits)
  have "counts_ok q" using scan_lines_counts[OF q] by (simp add: counts_ok_def zero_profile_def)
  then show "counts_ok p" "cp_MeasuredQubits p \<le> cp_Qubits p" by (auto simp: p counts_ok_def)
qed

end
