(* ===== verification/Views.thy ===== *)
theory Views
  imports Qasm Json_Doc
begin

text \<open>
  The scheduler's views of targets and jobs (\<open>internal/scheduler/views.go\<close>): the records, the
  RFC-0002 aggregates over calibration metrics, maintenance windows and the parser of a job
  document.
\<close>

section \<open>Targets\<close>

record Metric =
  mt_Name :: string
  mt_Value :: float64
  mt_Qubits :: "nat list"

record Window =
  wn_Start :: time
  wn_End :: time

record TargetView =
  tv_Name :: string
  tv_Modality :: string
  tv_Technology :: string
  tv_Qubits :: nat
  tv_Formats :: "string list"
  tv_MaxShots :: nat
  tv_Billing :: "string list"
  tv_Online :: bool
  tv_Cloud :: bool
  tv_SnapshotID :: string
  tv_MeasuredAt :: time
  tv_Metrics :: "Metric list"
  tv_QueueDepth :: nat
  tv_WaitSeconds :: float64
  tv_Maintenance :: "Window list"
  tv_Nominal2QError :: float64

definition aggregateValues :: "float64 list \<Rightarrow> string \<Rightarrow> float64 option" where
  "aggregateValues values aggregate =
     (if values = [] then None
      else
        (let vs = sort values
         in if aggregate = ''worst'' then Some (vs ! (length vs - 1))
            else if aggregate = ''median'' then Some (vs ! ((length vs - 1) div 2))
            else Some (vs ! 0)))"

definition metricValues :: "TargetView \<Rightarrow> (string \<Rightarrow> bool) \<Rightarrow> float64 list" where
  "metricValues t match = map mt_Value (filter (\<lambda>m. match (mt_Name m)) (tv_Metrics t))"

definition MetricAggregate :: "TargetView \<Rightarrow> string \<Rightarrow> string \<Rightarrow> float64 option" where
  "MetricAggregate t name aggregate = aggregateValues (metricValues t (\<lambda>n. n = name)) aggregate"

definition is_2q_error :: "string \<Rightarrow> bool" where
  "is_2q_error n = (prefix ''gate.2q.'' n \<and> suffix ''.error'' n)"

definition TwoQubitErrorAggregate :: "TargetView \<Rightarrow> string \<Rightarrow> float64 option" where
  "TwoQubitErrorAggregate t aggregate = aggregateValues (metricValues t is_2q_error) aggregate"

definition MinMetric :: "TargetView \<Rightarrow> string \<Rightarrow> float64 option" where
  "MinMetric t name = MetricAggregate t name ''best''"

definition MinTwoQubitError :: "TargetView \<Rightarrow> float64 option" where
  "MinTwoQubitError t = TwoQubitErrorAggregate t ''best''"

definition InMaintenance :: "TargetView \<Rightarrow> time \<Rightarrow> bool" where
  "InMaintenance t now = list_ex (\<lambda>w. \<not> now < wn_Start w \<and> now < wn_End w) (tv_Maintenance t)"

section \<open>Jobs\<close>

record JobView =
  jv_ID :: string
  jv_Tenant :: string
  jv_Kind :: string
  jv_Format :: string
  jv_Shots :: nat
  jv_Qubits :: nat
  jv_Technology :: "string list"
  jv_TwoQubitErrorMax :: float64
  jv_ReadoutErrorMax :: float64
  jv_CalibrationMaxAge :: duration
  jv_Aggregate :: string
  jv_OnConflict :: string
  jv_Deadline :: time
  jv_BudgetUnits :: "string list"
  jv_SessionJoin :: string
  jv_SessionMaxDuration :: duration
  jv_PreferOnPrem :: bool
  jv_AllowCloudBurst :: "string list"
  jv_DenyTargets :: "string list"
  jv_RequireTargets :: "string list"
  jv_Profile :: "CircuitProfile option"

definition HasQualityFloor :: "JobView \<Rightarrow> bool" where
  "HasQualityFloor j = (jv_TwoQubitErrorMax j > 0 \<or> jv_ReadoutErrorMax j > 0)"

text \<open>\<open>&JobView{ID: id, Tenant: tenant, Kind: kind}\<close>: every other field has its zero value.\<close>

definition new_JobView :: "string \<Rightarrow> string \<Rightarrow> string \<Rightarrow> JobView" where
  "new_JobView i tenant kind = \<lparr>jv_ID = i, jv_Tenant = tenant, jv_Kind = kind, jv_Format = [],
     jv_Shots = 0, jv_Qubits = 0, jv_Technology = [], jv_TwoQubitErrorMax = 0,
     jv_ReadoutErrorMax = 0, jv_CalibrationMaxAge = 0, jv_Aggregate = [], jv_OnConflict = [],
     jv_Deadline = zero_time, jv_BudgetUnits = [], jv_SessionJoin = [], jv_SessionMaxDuration = 0,
     jv_PreferOnPrem = False, jv_AllowCloudBurst = [], jv_DenyTargets = [], jv_RequireTargets = [],
     jv_Profile = None\<rparr>"

datatype parse_error =
    PENoSpec
  | PECalibrationMaxAge string
  | PESessionMaxDuration string
  | PEDeadline string

definition stringList :: "obj \<Rightarrow> string \<Rightarrow> string list" where
  "stringList m k = strings_of (arr_or m k)"

definition payloadField :: "string \<Rightarrow> string" where
  "payloadField kind =
     (if kind = ''gate-model'' then ''gateModel''
      else if kind = ''analog-hamiltonian'' then ''analogHamiltonian''
      else if kind = ''annealing'' then ''annealing''
      else if kind = ''pulse'' then ''pulse''
      else if kind = ''logical'' then ''logical''
      else [])"

text \<open>The inline program's profile: any decoding or profiling error leaves it unset.\<close>

definition inline_profile :: "string \<Rightarrow> CircuitProfile option" where
  "inline_profile inline =
     (case b64_DecodeString inline of
        None \<Rightarrow> None
      | Some raw \<Rightarrow> (case ProfileQASM raw of Inl _ \<Rightarrow> None | Inr p \<Rightarrow> Some p))"

definition parse_program :: "obj \<Rightarrow> JobView \<Rightarrow> JobView" where
  "parse_program payload j =
     (case get_obj payload ''program'' of
        None \<Rightarrow> j
      | Some program \<Rightarrow>
          (let j1 = j\<lparr>jv_Format := str_or program ''format''\<rparr>
           in case get_str program ''inline'' of
                Some inline \<Rightarrow> if jv_Kind j = ''gate-model'' then j1\<lparr>jv_Profile := inline_profile inline\<rparr> else j1
              | None \<Rightarrow> j1))"

definition parse_workload :: "obj \<Rightarrow> JobView \<Rightarrow> JobView" where
  "parse_workload workload j =
     (case get_obj workload (payloadField (jv_Kind j)) of
        None \<Rightarrow> j
      | Some payload \<Rightarrow>
          (let j1 = parse_program payload j
           in case get_num payload ''shots'' of Some s \<Rightarrow> j1\<lparr>jv_Shots := to_uint64 s\<rparr> | None \<Rightarrow> j1))"

text \<open>\<open>requirements.quality.gateModel\<close>.\<close>

definition parse_quality :: "obj \<Rightarrow> JobView \<Rightarrow> parse_error + JobView" where
  "parse_quality gm j =
     (let j1 = (case get_num gm ''twoQubitErrorMax'' of Some v \<Rightarrow> j\<lparr>jv_TwoQubitErrorMax := v\<rparr> | None \<Rightarrow> j);
          j2 = (case get_num gm ''readoutErrorMax'' of Some v \<Rightarrow> j1\<lparr>jv_ReadoutErrorMax := v\<rparr> | None \<Rightarrow> j1);
          agg = (\<lambda>j3. case get_str gm ''aggregate'' of Some a \<Rightarrow> j3\<lparr>jv_Aggregate := a\<rparr> | None \<Rightarrow> j3)
      in case get_str gm ''calibrationMaxAge'' of
           None \<Rightarrow> Inr (agg j2)
         | Some raw \<Rightarrow>
             (case ParseDuration raw of
                None \<Rightarrow> Inl (PECalibrationMaxAge raw)
              | Some d \<Rightarrow> Inr (agg (j2\<lparr>jv_CalibrationMaxAge := d\<rparr>))))"

definition parse_requirements :: "obj \<Rightarrow> JobView \<Rightarrow> parse_error + JobView" where
  "parse_requirements spec j =
     (case get_obj spec ''requirements'' of
        None \<Rightarrow> Inr j
      | Some req \<Rightarrow>
          (let j1 = (case get_num req ''qubits'' of Some q \<Rightarrow> j\<lparr>jv_Qubits := to_uint32 q\<rparr> | None \<Rightarrow> j);
               j2 = j1\<lparr>jv_Technology := strings_of (arr_or req ''technology'')\<rparr>
           in case get_obj req ''quality'' of
                None \<Rightarrow> Inr j2
              | Some quality \<Rightarrow>
                  (case get_obj quality ''gateModel'' of
                     None \<Rightarrow> Inr j2
                   | Some gm \<Rightarrow> parse_quality gm j2)))"

definition parse_session :: "obj \<Rightarrow> JobView \<Rightarrow> parse_error + JobView" where
  "parse_session spec j =
     (case get_obj spec ''session'' of
        None \<Rightarrow> Inr j
      | Some sess \<Rightarrow>
          (let j1 = (case get_str sess ''join'' of Some s \<Rightarrow> j\<lparr>jv_SessionJoin := s\<rparr> | None \<Rightarrow> j)
           in case get_str sess ''maxDuration'' of
                None \<Rightarrow> Inr j1
              | Some raw \<Rightarrow>
                  (case ParseDuration raw of
                     None \<Rightarrow> Inl (PESessionMaxDuration raw)
                   | Some d \<Rightarrow> Inr (j1\<lparr>jv_SessionMaxDuration := d\<rparr>))))"

definition parse_scheduling :: "obj \<Rightarrow> JobView \<Rightarrow> JobView" where
  "parse_scheduling spec j =
     (let j1 = (case get_obj spec ''scheduling'' of
                  Some sched \<Rightarrow> (case get_str sched ''onConflict'' of Some oc \<Rightarrow> j\<lparr>jv_OnConflict := oc\<rparr> | None \<Rightarrow> j)
                | None \<Rightarrow> j)
      in if jv_OnConflict j1 = [] then j1\<lparr>jv_OnConflict := ''prefer-quality''\<rparr> else j1)"

definition parse_deadline :: "obj \<Rightarrow> JobView \<Rightarrow> parse_error + JobView" where
  "parse_deadline spec j =
     (case get_str spec ''deadline'' of
        None \<Rightarrow> Inr j
      | Some raw \<Rightarrow>
          (case ParseRFC3339 raw of
             None \<Rightarrow> Inl (PEDeadline raw)
           | Some t \<Rightarrow> Inr (j\<lparr>jv_Deadline := t\<rparr>)))"

definition parse_budget :: "obj \<Rightarrow> JobView \<Rightarrow> JobView" where
  "parse_budget spec j =
     (case get_obj spec ''budget'' of
        None \<Rightarrow> j
      | Some budget \<Rightarrow>
          (case get_obj budget ''limits'' of
             None \<Rightarrow> j
           | Some limits \<Rightarrow> j\<lparr>jv_BudgetUnits := sort (map fst limits)\<rparr>))"

definition parse_selector :: "obj \<Rightarrow> JobView \<Rightarrow> JobView" where
  "parse_selector spec j =
     (case get_obj spec ''backendSelector'' of
        None \<Rightarrow> j
      | Some sel \<Rightarrow>
          j\<lparr>jv_PreferOnPrem := (get_bool sel ''preferOnPrem'' = Some True),
            jv_AllowCloudBurst := stringList sel ''allowCloudBurst'',
            jv_DenyTargets := stringList sel ''denyTargets'',
            jv_RequireTargets := stringList sel ''requireTargets''\<rparr>)"

definition default_aggregate :: "JobView \<Rightarrow> JobView" where
  "default_aggregate j = (if jv_Aggregate j = [] then j\<lparr>jv_Aggregate := ''best''\<rparr> else j)"

definition ParseJob :: "string \<Rightarrow> string \<Rightarrow> obj \<Rightarrow> parse_error + JobView" where
  "ParseJob i tenant doc =
     (case get_obj doc ''spec'' of
        None \<Rightarrow> Inl PENoSpec
      | Some spec \<Rightarrow>
          (let workload = obj_or spec ''workload'';
               j0 = parse_workload workload (new_JobView i tenant (str_or workload ''kind''))
           in case parse_requirements spec j0 of
                Inl e \<Rightarrow> Inl e
              | Inr j1 \<Rightarrow>
                  (case parse_session spec (default_aggregate j1) of
                     Inl e \<Rightarrow> Inl e
                   | Inr j2 \<Rightarrow>
                       (case parse_deadline spec (parse_scheduling spec j2) of
                          Inl e \<Rightarrow> Inl e
                        | Inr j3 \<Rightarrow> Inr (parse_selector spec (parse_budget spec j3))))))"

section \<open>Aggregates\<close>

lemma median_index: "xs \<noteq> [] \<Longrightarrow> (length xs - Suc 0) div 2 < length xs"
  by (cases xs) auto

lemma aggregateValues_mem: "aggregateValues vs a = Some x \<Longrightarrow> x \<in> set vs"
proof -
  assume *: "aggregateValues vs a = Some x"
  then have "vs \<noteq> []" by (auto simp: aggregateValues_def)
  then have "\<exists>k < length (sort vs). x = sort vs ! k"
    using * median_index[of vs]
    by (cases "a = ''worst''") (auto simp: aggregateValues_def Let_def split: if_splits
        intro: exI[of _ "length vs - Suc 0"])
  then show ?thesis by (metis nth_mem set_sort)
qed

lemma aggregateValues_None [simp]: "aggregateValues vs a = None \<longleftrightarrow> vs = []"
  by (auto simp: aggregateValues_def Let_def)

lemma aggregateValues_mono:
  assumes "vs \<noteq> []"
  shows "the (aggregateValues vs ''best'') \<le> the (aggregateValues vs a)"
    and "the (aggregateValues vs a) \<le> the (aggregateValues vs ''worst'')"
proof -
  have pos: "0 < length (sort vs)" "(length vs - Suc 0) div 2 < length vs"
    using assms median_index[of vs] by simp_all
  have le: "i \<le> k \<Longrightarrow> k < length (sort vs) \<Longrightarrow> sort vs ! i \<le> sort vs ! k" for i k
    by (intro sorted_nth_mono) simp_all
  from pos le[of 0 "(length (sort vs) - 1) div 2"] le[of 0 "length (sort vs) - 1"]
  show "the (aggregateValues vs ''best'') \<le> the (aggregateValues vs a)"
    by (auto simp: aggregateValues_def Let_def)
  from pos le[of "(length (sort vs) - 1) div 2" "length (sort vs) - 1"] le[of 0 "length (sort vs) - 1"]
  show "the (aggregateValues vs a) \<le> the (aggregateValues vs ''worst'')"
    by (auto simp: aggregateValues_def Let_def)
qed

text \<open>The order in which the adapter lists the metrics does not matter.\<close>

lemma aggregateValues_perm: "mset vs = mset ws \<Longrightarrow> aggregateValues vs a = aggregateValues ws a"
proof -
  assume "mset vs = mset ws"
  then have "sort vs = sort ws" by (metis properties_for_sort mset_sort sorted_sort)
  moreover have "vs = [] \<longleftrightarrow> ws = []" using \<open>mset vs = mset ws\<close> by auto
  ultimately show ?thesis by (simp add: aggregateValues_def)
qed

text \<open>At least half of the values are at or below the median, at least half at or above it.\<close>

lemma aggregateValues_median:
  assumes "aggregateValues vs ''median'' = Some x"
  shows "length vs \<le> 2 * length (filter (\<lambda>v. v \<le> x) vs)"
    and "length vs \<le> 2 * length (filter (\<lambda>v. x \<le> v) vs)"
proof -
  define ws k where "ws = sort vs" and "k = (length vs - 1) div 2"
  from assms have ne: "vs \<noteq> []" and x: "x = ws ! k"
    by (auto simp: aggregateValues_def Let_def ws_def k_def split: if_splits)
  then have k: "k < length ws" using median_index[of vs] by (simp add: ws_def k_def)
  have s: "sorted ws" by (simp add: ws_def)
  have cnt: "length (filter P vs) = length (filter P ws)" for P
    unfolding ws_def by (metis mset_filter mset_sort size_mset)
  have "set (take (Suc k) ws) \<subseteq> {v. v \<le> x}"
    using s k sorted_nth_mono[OF s _ k] by (auto simp: x in_set_conv_nth less_Suc_eq_le)
  then have "filter (\<lambda>v. v \<le> x) (take (Suc k) ws) = take (Suc k) ws" by (auto simp: filter_id_conv)
  then have "length (take (Suc k) ws) \<le> length (filter (\<lambda>v. v \<le> x) ws)"
    by (metis append_take_drop_id filter_append length_append le_add1)
  with k ne show "length vs \<le> 2 * length (filter (\<lambda>v. v \<le> x) vs)"
    unfolding cnt by (simp add: k_def ws_def)
  have "set (drop k ws) \<subseteq> {v. x \<le> v}"
    using k sorted_nth_mono[OF s, of k] by (auto simp: x in_set_conv_nth)
  then have "filter (\<lambda>v. x \<le> v) (drop k ws) = drop k ws" by (auto simp: filter_id_conv)
  then have "length (drop k ws) \<le> length (filter (\<lambda>v. x \<le> v) ws)"
    by (metis append_take_drop_id filter_append length_append le_add2)
  with k ne show "length vs \<le> 2 * length (filter (\<lambda>v. x \<le> v) vs)"
    unfolding cnt by (simp add: k_def ws_def)
qed

section \<open>What a parsed job looks like\<close>

lemma parse_keeps_id:
  "jv_ID (parse_workload w j) = jv_ID j" "jv_Tenant (parse_workload w j) = jv_Tenant j"
  "jv_Kind (parse_workload w j) = jv_Kind j"
  "jv_CalibrationMaxAge (parse_workload w j) = jv_CalibrationMaxAge j"
  "jv_SessionMaxDuration (parse_workload w j) = jv_SessionMaxDuration j"
  by (simp_all add: parse_workload_def parse_program_def Let_def split: option.splits)

lemma ParseJob_ok:
  assumes "ParseJob i tenant doc = Inr j"
  shows "jv_ID j = i" "jv_Tenant j = tenant" "jv_Aggregate j \<noteq> []" "jv_OnConflict j \<noteq> []"
    "jv_Kind j = str_or (obj_or (obj_or doc ''spec'') ''workload'') ''kind''"
proof -
  obtain spec where spec: "get_obj doc ''spec'' = Some spec"
    using assms by (cases "get_obj doc ''spec''") (auto simp: ParseJob_def)
  define w where "w = obj_or spec ''workload''"
  define j0 where "j0 = parse_workload w (new_JobView i tenant (str_or w ''kind''))"
  obtain j1 j2 j3 where j1: "parse_requirements spec j0 = Inr j1"
    and j2: "parse_session spec (default_aggregate j1) = Inr j2"
    and j3: "parse_deadline spec (parse_scheduling spec j2) = Inr j3"
    and j: "j = parse_selector spec (parse_budget spec j3)"
    using assms by (auto simp: ParseJob_def spec w_def j0_def Let_def split: sum.splits)
  have s1: "jv_ID j1 = i \<and> jv_Tenant j1 = tenant \<and> jv_Kind j1 = str_or w ''kind''"
    using j1 by (auto simp: j0_def parse_requirements_def parse_quality_def parse_keeps_id new_JobView_def
        Let_def split: option.splits)
  have s2: "jv_ID j2 = i \<and> jv_Tenant j2 = tenant \<and> jv_Kind j2 = str_or w ''kind'' \<and> jv_Aggregate j2 \<noteq> []"
    using j2 s1 by (auto simp: parse_session_def default_aggregate_def Let_def split: option.splits if_splits)
  have s3: "jv_ID j3 = i \<and> jv_Tenant j3 = tenant \<and> jv_Kind j3 = str_or w ''kind'' \<and>
      jv_Aggregate j3 \<noteq> [] \<and> jv_OnConflict j3 \<noteq> []"
    using j3 s2 by (auto simp: parse_deadline_def parse_scheduling_def Let_def split: option.splits if_splits)
  have k: "str_or w ''kind'' = str_or (obj_or (obj_or doc ''spec'') ''workload'') ''kind''"
    by (simp add: w_def obj_or_def[of doc] spec)
  show "jv_ID j = i" "jv_Tenant j = tenant" "jv_Aggregate j \<noteq> []" "jv_OnConflict j \<noteq> []"
    "jv_Kind j = str_or (obj_or (obj_or doc ''spec'') ''workload'') ''kind''"
    using s3 by (simp_all add: j k parse_selector_def parse_budget_def split: option.splits)
qed

end
