(* ===== verification/Esp.thy ===== *)
theory Esp
  imports Views
begin

text \<open>
  The estimated success probability of \<open>internal/scheduler/esp.go\<close>: a product over one-qubit
  gates, two-qubit gates and measured qubits, with the best calibrated values first and
  conservative defaults where a device reports too few. On error rates between 0 and 1 it is a
  probability, and it grows when every reported error shrinks.
\<close>

section \<open>Definitions\<close>

definition defaultOneQubitError :: float64 where "defaultOneQubitError = 1 / 100"
definition defaultTwoQubitError :: float64 where "defaultTwoQubitError = 5 / 100"
definition defaultReadoutError :: float64 where "defaultReadoutError = 5 / 100"

text \<open>The \<open>k\<close>-th value of a sorted list, the default beyond its end.\<close>

definition nth_or :: "float64 list \<Rightarrow> float64 \<Rightarrow> nat \<Rightarrow> float64" where
  "nth_or vs fallback k = (if k < length vs then vs ! k else fallback)"

definition meanBestK :: "float64 list \<Rightarrow> int \<Rightarrow> float64 \<Rightarrow> float64" where
  "meanBestK values k fallback =
     (let vs = sort values in sum_list (map (nth_or vs fallback) [0..<nat k]) / of_int k)"

definition readout_product :: "float64 list \<Rightarrow> nat \<Rightarrow> float64" where
  "readout_product values n =
     (let vs = sort values in prod_list (map (\<lambda>k. 1 - nth_or vs defaultReadoutError k) [0..<n]))"

definition ESP :: "CircuitProfile \<Rightarrow> TargetView \<Rightarrow> float64" where
  "ESP p t =
     (if cp_OneQubitGates p > 0
      then (1 - meanBestK (metricValues t (\<lambda>n. n = ''gate.1q.error'')) (max (cp_Qubits p) 1)
              defaultOneQubitError) ^ nat (cp_OneQubitGates p)
      else 1) *
     (if cp_TwoQubitGates p > 0
      then (1 - meanBestK (metricValues t is_2q_error) (max (cp_Qubits p - 1) 1)
              defaultTwoQubitError) ^ nat (cp_TwoQubitGates p)
      else 1) *
     (if cp_MeasuredQubits p > 0
      then readout_product (metricValues t (\<lambda>n. n = ''readout.error'')) (nat (cp_MeasuredQubits p))
      else 1)"

text \<open>The width-only estimate for a job without a profile: a GHZ-like circuit.\<close>

definition profileFor :: "JobView \<Rightarrow> CircuitProfile" where
  "profileFor j =
     (case jv_Profile j of
        Some p \<Rightarrow> p
      | None \<Rightarrow>
          (let width = (if jv_Qubits j = 0 then 2 else int (jv_Qubits j))
           in \<lparr>cp_Qubits = width, cp_OneQubitGates = width, cp_TwoQubitGates = width - 1,
               cp_MeasuredQubits = width\<rparr>))"

definition PredictedESP :: "JobView \<Rightarrow> TargetView \<Rightarrow> float64" where
  "PredictedESP j t = ESP (profileFor j) t"

section \<open>Range\<close>

definition rates_ok :: "float64 list \<Rightarrow> bool" where
  "rates_ok vs = list_all (\<lambda>v. 0 \<le> v \<and> v \<le> 1) vs"

text \<open>The metrics ESP reads; a snapshot carries others too, as coherence times in microseconds.\<close>

definition error_rate :: "string \<Rightarrow> bool" where
  "error_rate n \<longleftrightarrow> n = ''gate.1q.error'' \<or> (prefix ''gate.2q.'' n \<and> suffix ''.error'' n) \<or> n = ''readout.error''"

definition error_rates :: "TargetView \<Rightarrow> Metric list" where
  "error_rates t = filter (\<lambda>m. error_rate (mt_Name m)) (tv_Metrics t)"

definition calibrated :: "TargetView \<Rightarrow> bool" where
  "calibrated t = list_all (\<lambda>m. 0 \<le> mt_Value m \<and> mt_Value m \<le> 1) (error_rates t)"

lemma metricValues_error_rates:
  "(\<And>n. P n \<Longrightarrow> error_rate n) \<Longrightarrow> metricValues t P = map mt_Value (filter (\<lambda>m. P (mt_Name m)) (error_rates t))"
  by (auto simp: metricValues_def error_rates_def intro!: arg_cong[where f = "map mt_Value"] filter_cong)

lemma esp_classes:
  "(\<lambda>n. n = ''gate.1q.error'') n \<Longrightarrow> error_rate n" "is_2q_error n \<Longrightarrow> error_rate n" "(\<lambda>n. n = ''readout.error'') n \<Longrightarrow> error_rate n"
  by (simp_all add: error_rate_def is_2q_error_def)

lemma rates_ok_metricValues: "calibrated t \<Longrightarrow> (\<And>n. P n \<Longrightarrow> error_rate n) \<Longrightarrow> rates_ok (metricValues t P)"
  by (simp add: metricValues_error_rates calibrated_def rates_ok_def list_all_iff)

lemma nth_or_range:
  assumes "rates_ok vs" and "0 \<le> fb" "fb \<le> 1"
  shows "0 \<le> nth_or (sort vs) fb k \<and> nth_or (sort vs) fb k \<le> 1"
proof (cases "k < length vs")
  case True
  then have "sort vs ! k \<in> set vs" using nth_mem[of k "sort vs"] by simp
  with assms True show ?thesis by (simp add: nth_or_def rates_ok_def list_all_iff)
qed (use assms in \<open>simp add: nth_or_def\<close>)

lemma sum_list_range:
  "(\<And>x. x \<in> set xs \<Longrightarrow> 0 \<le> f x \<and> f x \<le> 1) \<Longrightarrow>
   0 \<le> sum_list (map f xs) \<and> sum_list (map f xs) \<le> real (length xs)"
  by (induction xs) force+

lemma meanBestK_range:
  assumes "rates_ok vs" and "0 \<le> fb" "fb \<le> 1" and "1 \<le> k"
  shows "0 \<le> meanBestK vs k fb \<and> meanBestK vs k fb \<le> 1"
proof -
  have "0 \<le> sum_list (map (nth_or (sort vs) fb) [0..<nat k]) \<and>
        sum_list (map (nth_or (sort vs) fb) [0..<nat k]) \<le> real (length [0..<nat k])"
    by (intro sum_list_range nth_or_range assms)
  with assms(4) show ?thesis by (simp add: meanBestK_def Let_def)
qed

lemma prod_list_range:
  "(\<And>x. x \<in> set xs \<Longrightarrow> 0 \<le> f x \<and> f x \<le> (1::real)) \<Longrightarrow>
   0 \<le> prod_list (map f xs) \<and> prod_list (map f xs) \<le> 1"
  by (induction xs) (auto intro: mult_le_one)

lemma readout_product_range:
  assumes "rates_ok vs"
  shows "0 \<le> readout_product vs n \<and> readout_product vs n \<le> 1"
  unfolding readout_product_def Let_def
  using nth_or_range[OF assms, of defaultReadoutError]
  by (intro prod_list_range) (auto simp: defaultReadoutError_def)

lemma ESP_range:
  assumes "calibrated t"
  shows "0 \<le> ESP p t \<and> ESP p t \<le> 1"
proof -
  have f: "0 \<le> (if b then (1 - meanBestK (metricValues t P) (max q 1) fb) ^ n else 1) \<and>
      (if b then (1 - meanBestK (metricValues t P) (max q 1) fb) ^ n else 1) \<le> 1"
    if "0 \<le> fb" "fb \<le> 1" "\<And>n. P n \<Longrightarrow> error_rate n" for b P q fb n
    using meanBestK_range[OF rates_ok_metricValues[OF assms that(3)] that(1,2), where k = "max q 1"]
    by (auto intro: power_le_one)
  have d: "0 \<le> defaultOneQubitError" "defaultOneQubitError \<le> 1" "0 \<le> defaultTwoQubitError"
    "defaultTwoQubitError \<le> 1"
    by (simp_all add: defaultOneQubitError_def defaultTwoQubitError_def)
  have r: "0 \<le> (if b then readout_product (metricValues t P) n else 1) \<and>
      (if b then readout_product (metricValues t P) n else 1) \<le> 1" if "\<And>n. P n \<Longrightarrow> error_rate n" for b P n
    using readout_product_range[OF rates_ok_metricValues[OF assms that]] by auto
  note f1 = f[OF d(1,2) esp_classes(1)] and f2 = f[OF d(3,4) esp_classes(2)] and f3 = r[OF esp_classes(3)]
  show ?thesis unfolding ESP_def
    using f1 f2 f3 by (intro conjI mult_nonneg_nonneg mult_le_one) auto
qed

text \<open>Nothing but the error rates matters.\<close>

lemma ESP_cong: "error_rates t = error_rates u \<Longrightarrow> ESP p t = ESP p u"
  by (simp add: ESP_def metricValues_error_rates esp_classes)

section \<open>Monotonicity\<close>

text \<open>The same error rates with smaller values: the target \<open>t\<close> is at least as good as \<open>u\<close>. Other metrics are free.\<close>

definition no_worse :: "TargetView \<Rightarrow> TargetView \<Rightarrow> bool" where
  "no_worse t u = list_all2 (\<lambda>a b. mt_Name a = mt_Name b \<and> mt_Value a \<le> mt_Value b)
     (error_rates t) (error_rates u)"

lemma list_all2_filter_names:
  "list_all2 (\<lambda>a b. mt_Name a = mt_Name b \<and> mt_Value a \<le> mt_Value b) ms ns \<Longrightarrow>
   list_all2 (\<le>) (map mt_Value (filter (\<lambda>m. P (mt_Name m)) ms))
     (map mt_Value (filter (\<lambda>m. P (mt_Name m)) ns))"
  by (induction rule: list_all2_induct) auto

lemma no_worse_metricValues:
  "no_worse t u \<Longrightarrow> (\<And>n. P n \<Longrightarrow> error_rate n) \<Longrightarrow> list_all2 (\<le>) (metricValues t P) (metricValues u P)"
  by (simp add: no_worse_def metricValues_error_rates list_all2_filter_names)

text \<open>Sorting keeps a pointwise order.\<close>

lemma insort_mono:
  fixes x y :: "'a :: linorder"
  assumes "list_all2 (\<le>) xs ys" and "sorted xs" "sorted ys" and "x \<le> y"
  shows "list_all2 (\<le>) (insort x xs) (insort y ys)"
  using assms
proof (induction arbitrary: x y rule: list_all2_induct)
  case (Cons a as b bs)
  have as: "insort a as = a # as" and bs: "insort b bs = b # bs"
    using Cons.prems by (auto simp: insort_is_Cons)
  have s: "sorted as" "sorted bs" using Cons.prems by simp_all
  show ?case
    using Cons.IH[of a y] Cons.IH[of x b] Cons.IH[of x y] Cons.hyps Cons.prems s as bs by auto
qed simp

lemma sort_mono:
  fixes xs ys :: "'a :: linorder list"
  shows "list_all2 (\<le>) xs ys \<Longrightarrow> list_all2 (\<le>) (sort xs) (sort ys)"
  by (induction rule: list_all2_induct) (auto intro: insort_mono)

lemma nth_or_mono:
  "list_all2 (\<le>) vs ws \<Longrightarrow> nth_or (sort vs) fb k \<le> nth_or (sort ws) fb k"
  using sort_mono[of vs ws] by (auto simp: nth_or_def list_all2_conv_all_nth)

lemma meanBestK_mono:
  "list_all2 (\<le>) vs ws \<Longrightarrow> 1 \<le> k \<Longrightarrow> meanBestK vs k fb \<le> meanBestK ws k fb"
  unfolding meanBestK_def Let_def
  by (intro divide_right_mono sum_list_mono nth_or_mono) auto

lemma prod_list_map_nonneg:
  "(\<And>x. x \<in> set xs \<Longrightarrow> (0::real) \<le> f x) \<Longrightarrow> 0 \<le> prod_list (map f xs)"
  by (induction xs) auto

lemma prod_list_mono:
  "(\<And>x. x \<in> set xs \<Longrightarrow> (0::real) \<le> f x \<and> f x \<le> g x) \<Longrightarrow> prod_list (map f xs) \<le> prod_list (map g xs)"
proof (induction xs)
  case (Cons x xs)
  have "0 \<le> prod_list (map f xs)" by (rule prod_list_map_nonneg) (use Cons.prems in auto)
  with Cons show ?case by (auto intro!: mult_mono order_trans[of 0 "f x" "g x"])
qed simp

lemma readout_product_mono:
  assumes "list_all2 (\<le>) vs ws" and "rates_ok ws"
  shows "readout_product ws n \<le> readout_product vs n"
  unfolding readout_product_def Let_def
  using nth_or_mono[OF assms(1)] nth_or_range[OF assms(2), of defaultReadoutError]
  by (intro prod_list_mono) (auto simp: defaultReadoutError_def)

lemma ESP_mono:
  assumes "no_worse t u" and "calibrated t" "calibrated u"
  shows "ESP p u \<le> ESP p t"
proof -
  note le = no_worse_metricValues[OF assms(1)]
  have gate: "(if b then (1 - meanBestK (metricValues u P) (max q 1) fb) ^ n else 1) \<le>
      (if b then (1 - meanBestK (metricValues t P) (max q 1) fb) ^ n else 1)"
    "0 \<le> (if b then (1 - meanBestK (metricValues u P) (max q 1) fb) ^ n else 1)"
    if "0 \<le> fb" "fb \<le> 1" "\<And>n. P n \<Longrightarrow> error_rate n" for b P q fb n
    using meanBestK_range[OF rates_ok_metricValues[OF assms(3) that(3)] that(1,2), where k = "max q 1"]
      meanBestK_mono[OF le[OF that(3)], where k = "max q 1" and fb = fb]
    by (auto intro: power_mono)
  have d: "0 \<le> defaultOneQubitError" "defaultOneQubitError \<le> 1" "0 \<le> defaultTwoQubitError"
    "defaultTwoQubitError \<le> 1"
    by (simp_all add: defaultOneQubitError_def defaultTwoQubitError_def)
  have ro: "(if b then readout_product (metricValues u P) n else 1) \<le>
      (if b then readout_product (metricValues t P) n else 1)"
    "0 \<le> (if b then readout_product (metricValues u P) n else 1)" if "\<And>n. P n \<Longrightarrow> error_rate n" for b P n
    using readout_product_mono[OF le[OF that] rates_ok_metricValues[OF assms(3) that]]
      readout_product_range[OF rates_ok_metricValues[OF assms(3) that]] by auto
  have nn: "0 \<le> x \<Longrightarrow> x \<le> y \<Longrightarrow> 0 \<le> y" for x y :: real by simp
  note g1 = gate[OF d(1,2) esp_classes(1)] and g2 = gate[OF d(3,4) esp_classes(2)] and g3 = ro[OF esp_classes(3)]
  show ?thesis unfolding ESP_def
    by (intro mult_mono g1 g2 g3 mult_nonneg_nonneg nn[OF g1(2) g1(1)] nn[OF g2(2) g2(1)] nn[OF g3(2) g3(1)])
qed

end
