(* ===== verification/Filter_Targets.thy ===== *)
theory Filter_Targets
  imports Esp
begin

text \<open>
  The requirement filter of \<open>internal/scheduler/filter.go\<close>. It returns the empty string for a
  feasible target and otherwise the reason of the first dimension that fails, in the fixed
  formats of the placement audit. \<open>meets\<close> is the specification without strings: the conjunction
  of the dimensions, which the filter decides.
\<close>

section \<open>The filter\<close>

record Rejection =
  rj_Target :: string
  rj_Reason :: string

definition agg_of :: "JobView \<Rightarrow> string" where
  "agg_of j = (if jv_Aggregate j = [] then ''best'' else jv_Aggregate j)"

text \<open>One floor of \<open>qualityFloors\<close>: the metric's label, the limit and the aggregate.\<close>

definition floor_reason :: "string \<Rightarrow> string \<Rightarrow> float64 \<Rightarrow> float64 option \<Rightarrow> string" where
  "floor_reason label agg limit value =
     (if limit > 0
      then (case value of
              None \<Rightarrow> ''no '' @ label @ '' error metric in calibration snapshot''
            | Some v \<Rightarrow>
                (if v > limit
                 then agg @ '' '' @ label @ '' error '' @ fmt_g4 v @ '' exceeds floor '' @ fmt_g4 limit
                 else []))
      else [])"

definition age_reason :: "JobView \<Rightarrow> TargetView \<Rightarrow> time \<Rightarrow> string" where
  "age_reason j t now =
     (let age = time_Sub now (tv_MeasuredAt t)
      in if jv_CalibrationMaxAge j > 0 \<and> (IsZero (tv_MeasuredAt t) \<or> age > jv_CalibrationMaxAge j)
         then ''calibration age '' @ duration_String (duration_Truncate age 60000000000) @
              '' exceeds calibrationMaxAge '' @ duration_String (jv_CalibrationMaxAge j)
         else [])"

definition qualityFloors :: "JobView \<Rightarrow> TargetView \<Rightarrow> time \<Rightarrow> string" where
  "qualityFloors j t now =
     (let agg = agg_of j;
          r2 = floor_reason ''two-qubit'' agg (jv_TwoQubitErrorMax j) (TwoQubitErrorAggregate t agg);
          rr = floor_reason ''readout'' agg (jv_ReadoutErrorMax j) (MetricAggregate t ''readout.error'' agg)
      in if r2 \<noteq> [] then r2 else if rr \<noteq> [] then rr else age_reason j t now)"

text \<open>The budget loop: the first unit the target does not bill.\<close>

fun unmetered :: "string list \<Rightarrow> string list \<Rightarrow> string option" where
  "unmetered billing [] = None"
| "unmetered billing (u # us) = (if u \<in> set billing then unmetered billing us else Some u)"

definition selector_reason :: "JobView \<Rightarrow> TargetView \<Rightarrow> string" where
  "selector_reason j t =
     (if tv_Name t \<in> set (jv_DenyTargets j) then ''excluded by backendSelector.denyTargets''
      else if jv_RequireTargets j \<noteq> [] \<and> tv_Name t \<notin> set (jv_RequireTargets j)
      then ''not in backendSelector.requireTargets''
      else if tv_Cloud t \<and> tv_Name t \<notin> set (jv_AllowCloudBurst j)
      then ''cloud target not in backendSelector.allowCloudBurst''
      else (case unmetered (tv_Billing t) (jv_BudgetUnits j) of
              Some u \<Rightarrow> ''budget limit unit '' @ u @ '' not metered by target (bills: '' @
                        Join (tv_Billing t) '', '' @ '')''
            | None \<Rightarrow> []))"

definition filterTarget :: "JobView \<Rightarrow> TargetView \<Rightarrow> time \<Rightarrow> bool \<Rightarrow> string" where
  "filterTarget j t now quality =
     (if \<not> tv_Online t then ''target not online''
      else if InMaintenance t now then ''in maintenance window''
      else if tv_Modality t \<noteq> jv_Kind j
      then ''modality '' @ tv_Modality t @ '' does not match workload kind '' @ jv_Kind j
      else if jv_Format j \<noteq> [] \<and> jv_Format j \<notin> set (tv_Formats t)
      then ''program format '' @ jv_Format j @ '' not supported (offers: '' @ Join (tv_Formats t) '', '' @ '')''
      else if jv_Qubits j > 0 \<and> jv_Qubits j > tv_Qubits t
      then ''requires '' @ itoa (jv_Qubits j) @ '' qubits, target has '' @ itoa (tv_Qubits t)
      else if jv_Shots j > 0 \<and> tv_MaxShots t > 0 \<and> jv_Shots j > tv_MaxShots t
      then ''requires '' @ itoa (jv_Shots j) @ '' shots, target caps at '' @ itoa (tv_MaxShots t)
      else if jv_Technology j \<noteq> [] \<and> tv_Technology t \<notin> set (jv_Technology j)
      then ''technology '' @ tv_Technology t @ '' not in required set ['' @ Join (jv_Technology j) '', '' @ '']''
      else if quality \<and> qualityFloors j t now \<noteq> [] then qualityFloors j t now
      else selector_reason j t)"

definition FilterTarget :: "JobView \<Rightarrow> TargetView \<Rightarrow> time \<Rightarrow> string" where
  "FilterTarget j t now = filterTarget j t now True"

definition FilterCapabilityOnly :: "JobView \<Rightarrow> TargetView \<Rightarrow> time \<Rightarrow> string" where
  "FilterCapabilityOnly j t now = filterTarget j t now False"

section \<open>Specification\<close>

definition floor_met :: "float64 \<Rightarrow> float64 option \<Rightarrow> bool" where
  "floor_met limit v = (limit > 0 \<longrightarrow> (case v of None \<Rightarrow> False | Some x \<Rightarrow> x \<le> limit))"

definition quality_met :: "JobView \<Rightarrow> TargetView \<Rightarrow> time \<Rightarrow> bool" where
  "quality_met j t now =
     (floor_met (jv_TwoQubitErrorMax j) (TwoQubitErrorAggregate t (agg_of j)) \<and>
      floor_met (jv_ReadoutErrorMax j) (MetricAggregate t ''readout.error'' (agg_of j)) \<and>
      (jv_CalibrationMaxAge j > 0 \<longrightarrow>
         \<not> IsZero (tv_MeasuredAt t) \<and> time_Sub now (tv_MeasuredAt t) \<le> jv_CalibrationMaxAge j))"

definition capable :: "JobView \<Rightarrow> TargetView \<Rightarrow> time \<Rightarrow> bool" where
  "capable j t now =
     (tv_Online t \<and> \<not> InMaintenance t now \<and> tv_Modality t = jv_Kind j \<and>
      (jv_Format j = [] \<or> jv_Format j \<in> set (tv_Formats t)) \<and>
      jv_Qubits j \<le> tv_Qubits t \<and>
      (tv_MaxShots t = 0 \<or> jv_Shots j \<le> tv_MaxShots t) \<and>
      (jv_Technology j = [] \<or> tv_Technology t \<in> set (jv_Technology j)) \<and>
      tv_Name t \<notin> set (jv_DenyTargets j) \<and>
      (jv_RequireTargets j = [] \<or> tv_Name t \<in> set (jv_RequireTargets j)) \<and>
      (tv_Cloud t \<longrightarrow> tv_Name t \<in> set (jv_AllowCloudBurst j)) \<and>
      set (jv_BudgetUnits j) \<subseteq> set (tv_Billing t))"

definition meets :: "JobView \<Rightarrow> TargetView \<Rightarrow> time \<Rightarrow> bool" where
  "meets j t now = (capable j t now \<and> quality_met j t now)"

section \<open>The filter decides the specification\<close>

lemma unmetered_None: "unmetered billing us = None \<longleftrightarrow> set us \<subseteq> set billing"
  by (induction us) auto

lemma floor_reason_Nil: "floor_reason label agg limit v = [] \<longleftrightarrow> floor_met limit v"
  by (auto simp: floor_reason_def floor_met_def split: option.splits)

lemma qualityFloors_Nil: "qualityFloors j t now = [] \<longleftrightarrow> quality_met j t now"
proof -
  have "age_reason j t now = [] \<longleftrightarrow> (jv_CalibrationMaxAge j > 0 \<longrightarrow>
      \<not> IsZero (tv_MeasuredAt t) \<and> time_Sub now (tv_MeasuredAt t) \<le> jv_CalibrationMaxAge j)"
    by (auto simp: age_reason_def Let_def)
  then show ?thesis by (simp add: qualityFloors_def Let_def floor_reason_Nil quality_met_def)
qed

lemma filterTarget_Nil:
  "filterTarget j t now quality = [] \<longleftrightarrow> capable j t now \<and> (quality \<longrightarrow> quality_met j t now)"
proof -
  have sel: "selector_reason j t = [] \<longleftrightarrow>
      tv_Name t \<notin> set (jv_DenyTargets j) \<and>
      (jv_RequireTargets j = [] \<or> tv_Name t \<in> set (jv_RequireTargets j)) \<and>
      (tv_Cloud t \<longrightarrow> tv_Name t \<in> set (jv_AllowCloudBurst j)) \<and>
      set (jv_BudgetUnits j) \<subseteq> set (tv_Billing t)"
    by (auto simp: selector_reason_def simp flip: unmetered_None split: option.splits)
  show ?thesis
    unfolding filterTarget_def capable_def
    by (simp add: sel qualityFloors_Nil)
qed

lemma FilterTarget_Nil [sched_simps]: "FilterTarget j t now = [] \<longleftrightarrow> meets j t now"
  by (simp add: FilterTarget_def filterTarget_Nil meets_def)

lemma FilterCapabilityOnly_Nil [sched_simps]: "FilterCapabilityOnly j t now = [] \<longleftrightarrow> capable j t now"
  by (simp add: FilterCapabilityOnly_def filterTarget_Nil)

text \<open>A stricter aggregate or a smaller floor never admits more targets.\<close>

lemma floor_met_weaken:
  "floor_met limit v \<Longrightarrow> limit \<le> limit' \<or> limit' \<le> 0 \<Longrightarrow> 0 < limit \<or> limit' \<le> 0 \<Longrightarrow> floor_met limit' v"
  by (auto simp: floor_met_def split: option.splits)

lemma floor_met_aggregate:
  assumes "floor_met limit (aggregateValues vs ''worst'')"
  shows "floor_met limit (aggregateValues vs a)"
proof (cases "vs = []")
  case True
  then have "aggregateValues vs a = None" "aggregateValues vs ''worst'' = None" by simp_all
  with assms show ?thesis by metis
next
  case False
  then obtain x y where "aggregateValues vs a = Some x" "aggregateValues vs ''worst'' = Some y"
    by (meson aggregateValues_None not_None_eq)
  with assms aggregateValues_mono(2)[OF False, of a] show ?thesis by (auto simp: floor_met_def)
qed

end
