(* ===== verification/Pareto.thy ===== *)
theory Pareto
  imports Rabi_Prelude
begin

text \<open>
  The non-dominated sorting of \<open>internal/scheduler/absorbed.go\<close>: \<open>dominates\<close>, the NSGA-II front
  assignment \<open>nonDominatedFronts\<close> and \<open>normalize\<close>. The specification of a front is peeling:
  front 0 is what nothing dominates, front \<open>r + 1\<close> what only points of the fronts up to \<open>r\<close>
  dominate. The loop ends because a counter reaches zero at most once.
\<close>

section \<open>Definitions\<close>

definition dominates :: "float64 \<Rightarrow> float64 \<Rightarrow> float64 \<Rightarrow> float64 \<Rightarrow> bool" where
  "dominates f1 s1 f2 s2 = (f1 \<ge> f2 \<and> s1 \<ge> s2 \<and> (f1 > f2 \<or> s1 > s2))"

text \<open>\<open>dom_at f s i k\<close>: point \<open>i\<close> dominates point \<open>k\<close>.\<close>

definition dom_at :: "float64 list \<Rightarrow> float64 list \<Rightarrow> nat \<Rightarrow> nat \<Rightarrow> bool" where
  "dom_at f s i k = dominates (f ! i) (s ! i) (f ! k) (s ! k)"

definition dominatesList :: "float64 list \<Rightarrow> float64 list \<Rightarrow> nat \<Rightarrow> nat list" where
  "dominatesList f s i = filter (\<lambda>k. k \<noteq> i \<and> dom_at f s i k) [0..<length f]"

definition dominatedCount :: "float64 list \<Rightarrow> float64 list \<Rightarrow> nat \<Rightarrow> int" where
  "dominatedCount f s i =
     int (length (filter (\<lambda>k. k \<noteq> i \<and> \<not> dom_at f s i k \<and> dom_at f s k i) [0..<length f]))"

text \<open>The body of the inner loops for one dominated point \<open>k\<close>.\<close>

fun relax :: "nat \<Rightarrow> nat \<Rightarrow> nat list \<times> int list \<times> nat list \<Rightarrow> nat list \<times> int list \<times> nat list" where
  "relax rank k (front, cnt, nxt) =
     (let c = cnt ! k - 1; cnt' = cnt[k := c]
      in if c = 0 then (front[k := rank + 1], cnt', nxt @ [k]) else (front, cnt', nxt))"

definition relax_all ::
  "nat \<Rightarrow> nat list \<Rightarrow> nat list \<times> int list \<times> nat list \<Rightarrow> nat list \<times> int list \<times> nat list" where
  "relax_all rank ks st = fold (relax rank) ks st"

definition positives :: "int list \<Rightarrow> nat" where
  "positives cnt = length (filter (\<lambda>c. 0 < c) cnt)"

lemma relax_positives:
  assumes "k < length cnt" and "relax rank k (front, cnt, nxt) = (front', cnt', nxt')"
  shows "positives cnt' + length nxt' \<le> positives cnt + length nxt" "length cnt' = length cnt"
proof -
  have split: "cnt = take k cnt @ cnt ! k # drop (Suc k) cnt" using assms(1) by (rule id_take_nth_drop)
  have upd: "cnt[k := x] = take k cnt @ x # drop (Suc k) cnt" for x
    using assms(1) by (rule upd_conv_take_nth_drop)
  have "positives cnt = positives (take k cnt) + (if 0 < cnt ! k then 1 else 0) + positives (drop (Suc k) cnt)"
    by (subst split) (simp add: positives_def)
  moreover have "positives (cnt[k := x]) = positives (take k cnt) + (if 0 < x then 1 else 0) + positives (drop (Suc k) cnt)" for x
    by (simp add: upd positives_def)
  ultimately show "positives cnt' + length nxt' \<le> positives cnt + length nxt"
    using assms(2) by (auto simp: Let_def split: if_splits)
  show "length cnt' = length cnt" using assms(2) by (auto simp: Let_def split: if_splits)
qed

lemma relax_all_positives:
  assumes "\<forall>k \<in> set ks. k < length cnt" and "relax_all rank ks (front, cnt, nxt) = (front', cnt', nxt')"
  shows "positives cnt' + length nxt' \<le> positives cnt + length nxt \<and> length cnt' = length cnt"
  using assms unfolding relax_all_def
proof (induction ks arbitrary: front cnt nxt)
  case (Cons k ks)
  obtain fr1 c1 n1 where r: "relax rank k (front, cnt, nxt) = (fr1, c1, n1)" by (metis prod_cases3)
  note one = relax_positives[OF _ r]
  from Cons.prems have "k < length cnt" by simp
  with Cons.IH[of c1 fr1 n1] Cons.prems one r show ?case by fastforce
qed simp

lemma relax_all_shrinks:
  assumes "(front', cnt', nxt) = relax_all rank ks (front, cnt, [])" and "\<forall>k \<in> set ks. k < length cnt"
  shows "2 * positives cnt' + (if nxt = [] then 0 else 1) < Suc (2 * positives cnt)"
  using relax_all_positives[OF assms(2), of rank front "[]" front' cnt' nxt] assms(1)
  by (cases nxt) auto

text \<open>The loop over \<open>current\<close>. The edges stay inside the arrays; the guard makes that explicit.\<close>

function peel ::
  "(nat \<Rightarrow> nat list) \<Rightarrow> nat \<Rightarrow> nat list \<Rightarrow> nat list \<Rightarrow> int list \<Rightarrow> nat list" where
  "peel edges rank current front cnt =
     (let ks = concat (map edges current)
      in if current = [] \<or> \<not> list_all (\<lambda>k. k < length cnt) ks then front
         else (case relax_all rank ks (front, cnt, []) of
                 (front', cnt', nxt) \<Rightarrow> peel edges (rank + 1) nxt front' cnt'))"
  by pat_completeness auto
termination
  by (relation "measure (\<lambda>(edges, rank, current, front, cnt). 2 * positives cnt + (if current = [] then 0 else 1))")
    (auto simp: list_all_iff dest!: relax_all_shrinks)

declare peel.simps [simp del]

definition nonDominatedFronts :: "float64 list \<Rightarrow> float64 list \<Rightarrow> nat list" where
  "nonDominatedFronts f s =
     (let n = length f; cnt = map (dominatedCount f s) [0..<n]
      in peel (dominatesList f s) 0 (filter (\<lambda>i. cnt ! i = 0) [0..<n]) (replicate n 0) cnt)"

definition normalize :: "float64 list \<Rightarrow> float64 list" where
  "normalize xs =
     (if xs = [] then []
      else
        (let lo = fold min xs (hd xs); hi = fold max xs (hd xs)
         in if hi = lo then replicate (length xs) 1 else map (\<lambda>x. (x - lo) / (hi - lo)) xs))"

section \<open>Dominance is a strict partial order\<close>

lemma dom_at_irrefl [simp]: "\<not> dom_at f s i i"
  by (simp add: dom_at_def dominates_def)

lemma dom_at_trans: "dom_at f s i j \<Longrightarrow> dom_at f s j k \<Longrightarrow> dom_at f s i k"
  by (auto simp: dom_at_def dominates_def)

lemma dom_at_asym: "dom_at f s i k \<Longrightarrow> \<not> dom_at f s k i"
  by (auto simp: dom_at_def dominates_def)

section \<open>Peeling\<close>

fun peeled :: "float64 list \<Rightarrow> float64 list \<Rightarrow> nat \<Rightarrow> nat set" where
  "peeled f s 0 = {}"
| "peeled f s (Suc r) = {k. k < length f \<and> (\<forall>i < length f. dom_at f s i k \<longrightarrow> i \<in> peeled f s r)}"

lemma peeled_bound: "k \<in> peeled f s r \<Longrightarrow> k < length f"
  by (cases r) auto

lemma peeled_mono: "peeled f s r \<subseteq> peeled f s (Suc r)"
  by (induction r) auto

text \<open>Peeling stops only when every point is peeled.\<close>

lemma peeled_stuck:
  assumes "peeled f s (Suc r) = peeled f s r"
  shows "peeled f s r = {k. k < length f}"
proof (rule ccontr)
  let ?R = "{k. k < length f} - peeled f s r"
  assume "peeled f s r \<noteq> {k. k < length f}"
  then have "?R \<noteq> {}" using peeled_bound by auto
  moreover have "finite ?R" by simp
  moreover have "irreflp_on ?R (dom_at f s)" "transp_on ?R (dom_at f s)"
    by (auto simp: irreflp_on_def transp_on_def intro: dom_at_trans)
  ultimately obtain k where k: "k \<in> ?R" "\<forall>i \<in> ?R. \<not> dom_at f s i k"
    using Finite_Set.bex_min_element[of ?R "dom_at f s"] by (metis dom_at_asym transp_onI asymp_onI)
  then have "k \<in> peeled f s (Suc r)" by auto
  with assms k show False by simp
qed

section \<open>One round\<close>

lemma relax_effect:
  assumes "relax rank k (front, cnt, nxt) = (front', cnt', nxt')" and "k < length cnt"
    and "length front = length cnt"
  shows "length front' = length cnt" "length cnt' = length cnt"
    "j < length cnt \<Longrightarrow> cnt' ! j = cnt ! j - (if j = k then 1 else 0)"
    "nxt' = nxt @ (if cnt ! k = 1 then [k] else [])"
    "j < length cnt \<Longrightarrow> front' ! j = (if j = k \<and> cnt ! k = 1 then rank + 1 else front ! j)"
  using assms by (auto simp: Let_def split: if_splits)

lemma relax_all_effect:
  assumes "relax_all rank ks (front, cnt, nxt) = (front', cnt', nxt')"
    and "\<forall>k \<in> set ks. k < length cnt" and "length front = length cnt"
  shows "length front' = length cnt \<and> length cnt' = length cnt \<and>
    (\<forall>j < length cnt. cnt' ! j = cnt ! j - int (count_list ks j)) \<and>
    (\<exists>ns. nxt' = nxt @ ns \<and> distinct ns \<and>
      set ns = {j. j < length cnt \<and> 0 < cnt ! j \<and> cnt ! j \<le> int (count_list ks j)} \<and>
      (\<forall>j < length cnt. front' ! j = (if j \<in> set ns then rank + 1 else front ! j)))"
  using assms unfolding relax_all_def
proof (induction ks arbitrary: front cnt nxt)
  case (Cons k ks)
  obtain fr1 c1 n1 where r: "relax rank k (front, cnt, nxt) = (fr1, c1, n1)" by (metis prod_cases3)
  from Cons.prems have k: "k < length cnt" by simp
  note one = relax_effect[OF r k Cons.prems(3)]
  from Cons.prems r have "fold (relax rank) ks (fr1, c1, n1) = (front', cnt', nxt')" by simp
  from Cons.IH[OF this] Cons.prems one
  obtain ns where len: "length front' = length cnt" "length cnt' = length cnt"
    and c: "\<forall>j < length cnt. cnt' ! j = c1 ! j - int (count_list ks j)"
    and ns: "nxt' = n1 @ ns" "distinct ns"
      "set ns = {j. j < length cnt \<and> 0 < c1 ! j \<and> c1 ! j \<le> int (count_list ks j)}"
    and fr: "\<forall>j < length cnt. front' ! j = (if j \<in> set ns then rank + 1 else fr1 ! j)"
    by auto
  have k0: "cnt ! k = 1 \<Longrightarrow> k \<notin> set ns" using ns(3) one(3)[OF k] by simp
  define ms where "ms = (if cnt ! k = 1 then [k] else []) @ ns"
  have "nxt' = nxt @ ms" using ns(1) one(4) by (simp add: ms_def)
  moreover have "distinct ms" using ns(2) k0 by (simp add: ms_def)
  moreover have "set ms = {j. j < length cnt \<and> 0 < cnt ! j \<and> cnt ! j \<le> int (count_list (k # ks) j)}"
    using k one(3) by (auto simp: ms_def ns(3))
  moreover have "\<forall>j < length cnt. front' ! j = (if j \<in> set ms then rank + 1 else front ! j)"
    using fr one(5) by (auto simp: ms_def)
  ultimately show ?case using len c one(3) by (intro conjI exI[of _ ms]) auto
qed simp

lemma count_list_distinct_eq: "distinct xs \<Longrightarrow> count_list xs k = (if k \<in> set xs then 1 else 0)"
  by (induction xs) auto

lemma count_list_concat: "count_list (concat xss) k = sum_list (map (\<lambda>xs. count_list xs k) xss)"
  by (induction xss) auto

lemma count_edges:
  assumes "distinct current" and "k < length f"
  shows "count_list (concat (map (dominatesList f s) current)) k = card {i \<in> set current. dom_at f s i k}"
proof -
  have "count_list (dominatesList f s i) k = (if dom_at f s i k then 1 else 0)" for i
  proof -
    have "distinct (dominatesList f s i)" by (simp add: dominatesList_def)
    then show ?thesis using assms(2)
      by (auto simp: dominatesList_def count_list_distinct_eq)
  qed
  then have "count_list (concat (map (dominatesList f s) current)) k =
      sum_list (map (\<lambda>i. if dom_at f s i k then 1 else 0) current)"
    by (simp add: count_list_concat o_def)
  also have "\<dots> = length (filter (\<lambda>i. dom_at f s i k) current)" by (induction current) auto
  also have "\<dots> = card {i \<in> set current. dom_at f s i k}"
    using assms(1) by (metis distinct_card distinct_filter set_filter)
  finally show ?thesis .
qed

section \<open>The loop computes the peeling\<close>

definition remaining :: "float64 list \<Rightarrow> float64 list \<Rightarrow> nat \<Rightarrow> nat \<Rightarrow> nat set" where
  "remaining f s r k = {i. i < length f \<and> dom_at f s i k \<and> i \<notin> peeled f s r}"

definition layer :: "float64 list \<Rightarrow> float64 list \<Rightarrow> nat \<Rightarrow> nat set" where
  "layer f s r = peeled f s (Suc r) - peeled f s r"

lemma remaining_finite [simp]: "finite (remaining f s r k)"
  by (simp add: remaining_def)

lemma remaining_Nil: "k < length f \<Longrightarrow> remaining f s r k = {} \<longleftrightarrow> k \<in> peeled f s (Suc r)"
  by (auto simp: remaining_def)

lemma remaining_layer:
  "remaining f s r k = remaining f s (Suc r) k \<union> {i \<in> layer f s r. dom_at f s i k}"
  "remaining f s (Suc r) k \<inter> {i \<in> layer f s r. dom_at f s i k} = {}"
  using peeled_mono[of f s r] peeled_bound[of _ f s "Suc r"]
  by (auto simp: remaining_def layer_def simp del: peeled.simps)

lemma card_remaining:
  "card (remaining f s r k) = card (remaining f s (Suc r) k) + card {i \<in> layer f s r. dom_at f s i k}"
proof -
  have "finite {i \<in> layer f s r. dom_at f s i k}"
    by (rule finite_subset[of _ "{i. i < length f}"]) (auto simp: layer_def)
  with card_Un_disjoint[OF remaining_finite this remaining_layer(2)] remaining_layer(1)
  show ?thesis by metis
qed

definition peel_inv :: "float64 list \<Rightarrow> float64 list \<Rightarrow> nat \<Rightarrow> nat list \<Rightarrow> nat list \<Rightarrow> int list \<Rightarrow> bool" where
  "peel_inv f s r current front cnt \<longleftrightarrow>
     length front = length f \<and> length cnt = length f \<and> distinct current \<and> set current = layer f s r \<and>
     (\<forall>k < length f. cnt ! k = int (card (remaining f s r k))) \<and>
     (\<forall>q \<le> r. \<forall>k \<in> layer f s q. front ! k = q)"

lemma layer_bound: "k \<in> layer f s r \<Longrightarrow> k < length f"
  using peeled_bound[of k f s "Suc r"] by (simp add: layer_def del: peeled.simps)

lemma layer_disjoint: "k \<in> layer f s q \<Longrightarrow> k \<in> layer f s r \<Longrightarrow> q = r"
proof -
  have "peeled f s (Suc q) \<subseteq> peeled f s r" if "q < r" for q r
    using lift_Suc_mono_le[of "peeled f s", OF peeled_mono, of "Suc q" r] that by simp
  then show "k \<in> layer f s q \<Longrightarrow> k \<in> layer f s r \<Longrightarrow> q = r"
    by (metis DiffE layer_def linorder_neqE_nat subsetD)
qed

lemma peel_inv_step:
  assumes inv: "peel_inv f s r current front cnt"
    and rel: "relax_all r (concat (map (dominatesList f s) current)) (front, cnt, []) = (front', cnt', nxt)"
  shows "peel_inv f s (Suc r) nxt front' cnt'"
proof -
  let ?ks = "concat (map (dominatesList f s) current)"
  have len: "length front = length f" "length cnt = length f" using inv by (auto simp: peel_inv_def)
  have "\<forall>k \<in> set ?ks. k < length cnt" using len by (auto simp: dominatesList_def)
  from relax_all_effect[OF rel this] len
  have eff: "length front' = length f" "length cnt' = length f" "distinct nxt"
    "\<forall>j < length f. cnt' ! j = cnt ! j - int (count_list ?ks j)"
    "set nxt = {j. j < length f \<and> 0 < cnt ! j \<and> cnt ! j \<le> int (count_list ?ks j)}"
    "\<forall>j < length f. front' ! j = (if j \<in> set nxt then r + 1 else front ! j)"
    by auto
  have cnt: "cnt ! k = int (card (remaining f s r k))"
    and cl: "count_list ?ks k = card {i \<in> layer f s r. dom_at f s i k}" if "k < length f" for k
    using inv count_edges[of current k f s] that by (auto simp: peel_inv_def)
  have new: "cnt' ! k = int (card (remaining f s (Suc r) k))" if "k < length f" for k
    using eff(4) cnt[OF that] cl[OF that] card_remaining[of f s r k] that by simp
  have nxt: "set nxt = layer f s (Suc r)"
  proof -
    have "k \<in> set nxt \<longleftrightarrow> k < length f \<and> remaining f s r k \<noteq> {} \<and> remaining f s (Suc r) k = {}" for k
      using eff(5) cnt cl card_remaining[of f s r k] card_gt_0_iff[of "remaining f s r k"]
        card_eq_0_iff[of "remaining f s (Suc r) k"] by auto
    then show ?thesis using remaining_Nil[of _ f s] peeled_bound[of _ f s "Suc (Suc r)"]
      unfolding layer_def by blast
  qed
  have "front' ! k = q" if "q \<le> Suc r" "k \<in> layer f s q" for q k
  proof (cases "q = Suc r")
    case True
    then show ?thesis using that eff(6) nxt layer_bound[OF that(2)] by simp
  next
    case False
    then have "k \<notin> layer f s (Suc r)" using layer_disjoint[OF that(2)] by blast
    with False that inv show ?thesis using eff(6) nxt layer_bound[OF that(2)] by (auto simp: peel_inv_def)
  qed
  with eff new nxt show ?thesis by (simp add: peel_inv_def)
qed

lemma peel_correct:
  assumes "peel_inv f s r current front cnt"
  shows "length (peel (dominatesList f s) r current front cnt) = length f \<and>
    (\<forall>k < length f. \<exists>q. k \<in> layer f s q \<and> peel (dominatesList f s) r current front cnt ! k = q)"
  using assms
proof (induction "dominatesList f s" r current front cnt rule: peel.induct)
  case (1 r current front cnt)
  let ?ks = "concat (map (dominatesList f s) current)"
  have edges: "list_all (\<lambda>k. k < length cnt) ?ks"
    using 1(2) by (auto simp: list_all_iff dominatesList_def peel_inv_def)
  show ?case
  proof (cases "current = []")
    case True
    then have "layer f s r = {}" using 1(2) by (simp add: peel_inv_def)
    then have "peeled f s (Suc r) = peeled f s r" using peeled_mono[of f s r] unfolding layer_def by blast
    from peeled_stuck[OF this] have all: "peeled f s r = {k. k < length f}" .
    have lay: "\<exists>q < r. k \<in> layer f s q" if "k \<in> peeled f s r" for k using that
      by (induction r) (auto simp: layer_def less_Suc_eq simp del: peeled.simps(2))
    have res: "peel (dominatesList f s) r current front cnt = front"
      by (subst peel.simps) (simp add: True)
    have "\<exists>q. k \<in> layer f s q \<and> front ! k = q" if "k < length f" for k
    proof -
      from lay[of k] all that obtain q where "q < r" "k \<in> layer f s q" by auto
      with 1(2) have "front ! k = q" by (simp add: peel_inv_def)
      with \<open>k \<in> layer f s q\<close> show ?thesis by blast
    qed
    then show ?thesis unfolding res using 1(2) by (simp add: peel_inv_def)
  next
    case False
    obtain front' cnt' nxt where rel: "relax_all r ?ks (front, cnt, []) = (front', cnt', nxt)"
      by (metis prod_cases3)
    from peel_inv_step[OF 1(2) rel] False edges rel 1(1)
    show ?thesis by (simp add: peel.simps[of _ r current])
  qed
qed

lemma peel_inv_start:
  assumes "length s = length f"
  shows "peel_inv f s 0 (filter (\<lambda>i. map (dominatedCount f s) [0..<length f] ! i = 0) [0..<length f])
    (replicate (length f) 0) (map (dominatedCount f s) [0..<length f])"
proof -
  have cnt: "dominatedCount f s k = int (card (remaining f s 0 k))" for k
  proof -
    have "filter (\<lambda>i. i \<noteq> k \<and> \<not> dom_at f s k i \<and> dom_at f s i k) [0..<length f] =
        filter (\<lambda>i. dom_at f s i k) [0..<length f]"
      by (intro filter_cong) (auto dest: dom_at_asym)
    moreover have "length (filter (\<lambda>i. dom_at f s i k) [0..<length f]) = card (remaining f s 0 k)"
      using distinct_card[of "filter (\<lambda>i. dom_at f s i k) [0..<length f]"]
      by (simp add: remaining_def)
    ultimately show ?thesis by (simp add: dominatedCount_def)
  qed
  have "set (filter (\<lambda>i. map (dominatedCount f s) [0..<length f] ! i = 0) [0..<length f]) = layer f s 0"
    using remaining_Nil[of _ f s 0] by (auto simp: cnt layer_def)
  then show ?thesis by (simp add: peel_inv_def cnt layer_bound)
qed

lemma nonDominatedFronts_layer:
  assumes "length s = length f"
  shows "length (nonDominatedFronts f s) = length f"
    and "k < length f \<Longrightarrow> k \<in> layer f s r \<longleftrightarrow> nonDominatedFronts f s ! k = r"
  using peel_correct[OF peel_inv_start[OF assms]] layer_disjoint
  unfolding nonDominatedFronts_def Let_def by blast+

text \<open>What the front numbers say: 0 is the Pareto front, dominance strictly increases the number,
  and a point of front \<open>r + 1\<close> is dominated by one of front \<open>r\<close>.\<close>

lemma layer_zero: "k \<in> layer f s 0 \<longleftrightarrow> k < length f \<and> (\<forall>i < length f. \<not> dom_at f s i k)"
  by (auto simp: layer_def)

lemma layer_dominates:
  assumes "dom_at f s i k" and "i < length f" and "i \<in> layer f s q" and "k \<in> layer f s r"
  shows "q < r"
proof -
  from assms have "i \<in> peeled f s r" by (auto simp: layer_def)
  then show ?thesis using assms(3) lift_Suc_mono_le[of "peeled f s", OF peeled_mono, of r q]
    by (auto simp: layer_def not_less[symmetric] simp del: peeled.simps)
qed

lemma layer_Suc_witness:
  assumes "k \<in> layer f s (Suc r)"
  shows "\<exists>i < length f. dom_at f s i k \<and> i \<in> layer f s r"
proof -
  from assms have "k < length f" "k \<notin> peeled f s (Suc r)"
    by (auto simp: layer_def simp del: peeled.simps intro: peeled_bound)
  then obtain i where i: "i < length f" "dom_at f s i k" "i \<notin> peeled f s r" by auto
  moreover from assms i have "i \<in> peeled f s (Suc r)" unfolding layer_def by (subst (asm) peeled.simps(2)) blast
  ultimately show ?thesis by (auto simp: layer_def simp del: peeled.simps)
qed

section \<open>Normalization\<close>

lemma fold_min_le: "(\<forall>x \<in> set xs. fold min xs a \<le> x) \<and> fold min xs a \<le> (a :: float64)"
proof (induction xs arbitrary: a)
  case (Cons x xs)
  from Cons[of "min x a"] show ?case by auto
qed simp

lemma fold_max_ge: "(\<forall>x \<in> set xs. x \<le> fold max xs a) \<and> (a :: float64) \<le> fold max xs a"
proof (induction xs arbitrary: a)
  case (Cons x xs)
  from Cons[of "max x a"] show ?case by auto
qed simp

lemma normalize_length [simp]: "length (normalize xs) = length xs"
  by (simp add: normalize_def Let_def)

lemma normalize_range:
  assumes "k < length xs"
  shows "0 \<le> normalize xs ! k \<and> normalize xs ! k \<le> 1"
proof -
  let ?lo = "fold min xs (hd xs)" and ?hi = "fold max xs (hd xs)"
  from assms have x: "xs ! k \<in> set xs" "xs \<noteq> []" by auto
  then have "?lo \<le> xs ! k" "xs ! k \<le> ?hi" using fold_min_le[of xs "hd xs"] fold_max_ge[of xs "hd xs"] by blast+
  with assms x(2) show ?thesis by (auto simp: normalize_def Let_def)
qed

text \<open>Normalization keeps the order of the values.\<close>

lemma normalize_mono:
  assumes "i < length xs" "k < length xs" "xs ! i \<le> xs ! k"
  shows "normalize xs ! i \<le> normalize xs ! k"
proof -
  let ?lo = "fold min xs (hd xs)" and ?hi = "fold max xs (hd xs)"
  from assms have x: "xs ! k \<in> set xs" "xs \<noteq> []" by auto
  then have "?lo \<le> xs ! k" "xs ! k \<le> ?hi" using fold_min_le[of xs "hd xs"] fold_max_ge[of xs "hd xs"] by blast+
  then have "?lo \<le> ?hi" by simp
  with assms x(2) show ?thesis by (auto simp: normalize_def Let_def divide_right_mono)
qed

end
