(* ===== verification/Policies.thy ===== *)
theory Policies
  imports Filter_Targets Pareto "HOL-Library.Word"
begin

text \<open>
  The scheduling policies of \<open>internal/scheduler/policies.go\<close> and \<open>absorbed.go\<close> and the registry of
  \<open>scheduler.go\<close>. A policy is a record of the methods of the Go interfaces \<open>SchedulingPolicy\<close>,
  \<open>SetScorer\<close> and \<open>ESPPredictor\<close>; the optional interfaces are options. The only state a policy
  keeps is the rotation counter of round-robin, a \<open>64 word\<close> passed explicitly.
\<close>

section \<open>The policy interface\<close>

record policy =
  po_Name :: string
  po_Filter :: "JobView \<Rightarrow> TargetView \<Rightarrow> time \<Rightarrow> string"
  po_Score :: "JobView \<Rightarrow> TargetView \<Rightarrow> time \<Rightarrow> float64"
  po_ScoreSet :: "(64 word \<Rightarrow> JobView \<Rightarrow> TargetView list \<Rightarrow> time \<Rightarrow> float64 list \<times> 64 word) option"
  po_PredictESP :: "(JobView \<Rightarrow> TargetView \<Rightarrow> float64) option"

text \<open>How \<open>Schedule\<close> obtains the scores: the set scorer when there is one.\<close>

definition scores_of :: "policy \<Rightarrow> 64 word \<Rightarrow> JobView \<Rightarrow> TargetView list \<Rightarrow> time \<Rightarrow> float64 list \<times> 64 word" where
  "scores_of p c j feasible now =
     (case po_ScoreSet p of
        Some f \<Rightarrow> f c j feasible now
      | None \<Rightarrow> (map (\<lambda>t. po_Score p j t now) feasible, c))"

section \<open>Built-in policies\<close>

definition fifoPolicy :: policy where
  "fifoPolicy = \<lparr>po_Name = ''fifo/v0'', po_Filter = FilterTarget, po_Score = (\<lambda>_ _ _. 0),
     po_ScoreSet = None, po_PredictESP = None\<rparr>"

definition static_best_score :: "JobView \<Rightarrow> TargetView \<Rightarrow> time \<Rightarrow> float64" where
  "static_best_score j t now = (if tv_Nominal2QError t > 0 then - tv_Nominal2QError t else - 1)"

definition staticBestPolicy :: policy where
  "staticBestPolicy = \<lparr>po_Name = ''static-best/v0'', po_Filter = FilterCapabilityOnly,
     po_Score = static_best_score, po_ScoreSet = None, po_PredictESP = None\<rparr>"

text \<open>\<open>counter.Add(1) - 1\<close> is the old value; the counter wraps at \<open>2 ^ 64\<close>.\<close>

definition round_robin_scores ::
  "64 word \<Rightarrow> JobView \<Rightarrow> TargetView list \<Rightarrow> time \<Rightarrow> float64 list \<times> 64 word" where
  "round_robin_scores c j feasible now =
     (let n = length feasible
      in if n > 0
         then (let c' = c + 1; pick = unat (c' - 1) mod n
               in ((replicate n 0)[pick := 1], c'))
         else ([], c))"

definition roundRobinPolicy :: policy where
  "roundRobinPolicy = \<lparr>po_Name = ''round-robin/v0'', po_Filter = FilterCapabilityOnly,
     po_Score = (\<lambda>_ _ _. 0), po_ScoreSet = Some round_robin_scores, po_PredictESP = None\<rparr>"

definition Weights :: "JobView \<Rightarrow> float64 \<times> float64 \<times> float64" where
  "Weights j =
     (let deadline = \<not> IsZero (jv_Deadline j); flr = HasQualityFloor j
      in if deadline \<and> flr then (55 / 100, 35 / 100, 10 / 100)
         else if deadline then (45 / 100, 45 / 100, 10 / 100)
         else if flr then (75 / 100, 15 / 100, 10 / 100)
         else (60 / 100, 25 / 100, 15 / 100))"

definition calib_aware_score :: "JobView \<Rightarrow> TargetView \<Rightarrow> time \<Rightarrow> float64" where
  "calib_aware_score j t now =
     (let (wq, wt, _) = Weights j;
          esp = ESP (profileFor j) t;
          waitNorm = tv_WaitSeconds t / (tv_WaitSeconds t + 60)
      in wq * esp - wt * waitNorm)"

definition calibAwarePolicy :: policy where
  "calibAwarePolicy = \<lparr>po_Name = ''calib-aware/v0'', po_Filter = FilterTarget,
     po_Score = calib_aware_score, po_ScoreSet = None,
     po_PredictESP = Some (\<lambda>j t. ESP (profileFor j) t)\<rparr>"

section \<open>Absorbed policies\<close>

definition pareto_scores ::
  "64 word \<Rightarrow> JobView \<Rightarrow> TargetView list \<Rightarrow> time \<Rightarrow> float64 list \<times> 64 word" where
  "pareto_scores c j feasible now =
     (let n = length feasible
      in if n = 0 then ([], c)
         else
           (let fid = map (\<lambda>t. ESP (profileFor j) t) feasible;
                speed = map (\<lambda>t. - tv_WaitSeconds t) feasible;
                front = nonDominatedFronts fid speed;
                fidN = normalize fid;
                speedN = normalize speed
            in (map (\<lambda>i. - real (front ! i) + (fidN ! i + speedN ! i) / 4) [0..<n], c)))"

definition paretoPolicy :: policy where
  "paretoPolicy = \<lparr>po_Name = ''pareto/v0'', po_Filter = FilterTarget, po_Score = (\<lambda>_ _ _. 0),
     po_ScoreSet = Some pareto_scores, po_PredictESP = None\<rparr>"

definition defaultCalibrationWindow :: duration where
  "defaultCalibrationWindow = 30 * 60 * 1000000000"

definition freshness :: "JobView \<Rightarrow> TargetView \<Rightarrow> time \<Rightarrow> float64" where
  "freshness j t now =
     (let window = (if jv_CalibrationMaxAge j > 0 then jv_CalibrationMaxAge j else defaultCalibrationWindow)
      in if IsZero (tv_MeasuredAt t) then 1 / 2
         else (let age = max 0 (time_Sub now (tv_MeasuredAt t))
               in exp (- real_of_int age / real_of_int window)))"

definition adaptive_deferral_score :: "JobView \<Rightarrow> TargetView \<Rightarrow> time \<Rightarrow> float64" where
  "adaptive_deferral_score j t now = ESP (profileFor j) t * freshness j t now"

definition adaptiveDeferralPolicy :: policy where
  "adaptiveDeferralPolicy = \<lparr>po_Name = ''adaptive-deferral/v0'', po_Filter = FilterTarget,
     po_Score = adaptive_deferral_score, po_ScoreSet = None,
     po_PredictESP = Some (\<lambda>j t. ESP (profileFor j) t)\<rparr>"

section \<open>The registry\<close>

text \<open>\<open>factories\<close>; \<open>None\<close> is the panic on a duplicate name.\<close>

definition Register :: "policy \<Rightarrow> (string \<times> policy) list \<Rightarrow> (string \<times> policy) list option" where
  "Register p factories =
     (if map_of factories (po_Name p) \<noteq> None then None else Some (factories @ [(po_Name p, p)]))"

definition init_factories :: "(string \<times> policy) list option" where
  "init_factories = fold (\<lambda>p fs. Option.bind fs (Register p))
     [paretoPolicy, adaptiveDeferralPolicy, fifoPolicy, staticBestPolicy, roundRobinPolicy, calibAwarePolicy]
     (Some [])"

definition RegisteredPolicies :: "(string \<times> policy) list \<Rightarrow> string list" where
  "RegisteredPolicies factories = sort (map fst factories)"

text \<open>The error carries the names the message lists.\<close>

definition NewPolicy :: "(string \<times> policy) list \<Rightarrow> string \<Rightarrow> (string \<times> string list) + policy" where
  "NewPolicy factories name =
     (case map_of factories name of
        None \<Rightarrow> Inl (name, sort (map fst factories))
      | Some p \<Rightarrow> Inr p)"

text \<open>\<open>Lookup\<close> caches one instance per name; the cache is returned updated.\<close>

definition Lookup ::
  "(string \<times> policy) list \<Rightarrow> (string \<rightharpoonup> policy) \<Rightarrow> string \<Rightarrow> (string \<rightharpoonup> policy) \<times> ((string \<times> string list) + policy)" where
  "Lookup factories singletons name =
     (case singletons name of
        Some p \<Rightarrow> (singletons, Inr p)
      | None \<Rightarrow>
          (case NewPolicy factories name of
             Inl e \<Rightarrow> (singletons, Inl e)
           | Inr p \<Rightarrow> (singletons(name \<mapsto> p), Inr p)))"

lemmas policy_defs [sched_simps] = fifoPolicy_def staticBestPolicy_def roundRobinPolicy_def calibAwarePolicy_def
  paretoPolicy_def adaptiveDeferralPolicy_def

text \<open>The start-up registrations do not panic and register the six policies.\<close>

lemma init_factories_names:
  "\<exists>fs. init_factories = Some fs \<and> RegisteredPolicies fs =
     [''adaptive-deferral/v0'', ''calib-aware/v0'', ''fifo/v0'', ''pareto/v0'', ''round-robin/v0'', ''static-best/v0'']"
  by (simp add: init_factories_def Register_def RegisteredPolicies_def sched_simps less_char_def)

section \<open>The interface as a locale\<close>

text \<open>
  What \<open>Schedule\<close> relies on: a score for every feasible target, and a filter that never admits a
  target the hard dimensions exclude. The second locale adds the calibration dimensions, which
  the baseline policies ignore on purpose.
\<close>

locale scheduling_policy =
  fixes p :: policy
  assumes scores_length: "length (fst (scores_of p c j ts now)) = length ts"
    and filter_narrows: "po_Filter p j t now = [] \<Longrightarrow> capable j t now"

locale quality_policy = scheduling_policy +
  assumes filter_quality: "po_Filter p j t now = [] \<longleftrightarrow> meets j t now"

interpretation fifo: quality_policy fifoPolicy
  by unfold_locales (simp_all add: scores_of_def sched_simps meets_def)

interpretation static_best: scheduling_policy staticBestPolicy
  by unfold_locales (simp_all add: scores_of_def sched_simps)

interpretation round_robin: scheduling_policy roundRobinPolicy
  by unfold_locales (simp_all add: scores_of_def sched_simps round_robin_scores_def Let_def)

interpretation calib_aware: quality_policy calibAwarePolicy
  by unfold_locales (simp_all add: scores_of_def sched_simps meets_def)

interpretation pareto: quality_policy paretoPolicy
  by unfold_locales (simp_all add: scores_of_def sched_simps meets_def pareto_scores_def Let_def)

interpretation adaptive_deferral: quality_policy adaptiveDeferralPolicy
  by unfold_locales (simp_all add: scores_of_def sched_simps meets_def)

section \<open>Facts about the scores\<close>

lemma Weights_sum: "(case Weights j of (q, t, c) \<Rightarrow> q + t + c = 1 \<and> 0 < q \<and> 0 < t \<and> 0 < c)"
  by (simp add: Weights_def Let_def)

lemma freshness_range: "0 < freshness j t now \<and> freshness j t now \<le> 1"
  by (auto simp: freshness_def Let_def defaultCalibrationWindow_def)

text \<open>A fresher calibration, everything else equal, is never scored lower.\<close>

lemma adaptive_deferral_fresher:
  assumes "calibrated t" and "tv_MeasuredAt t \<le> m" and "\<not> IsZero (tv_MeasuredAt t)" and "\<not> IsZero m"
  shows "adaptive_deferral_score j t now \<le> adaptive_deferral_score j (t\<lparr>tv_MeasuredAt := m\<rparr>) now"
proof -
  have "time_Sub now m \<le> time_Sub now (tv_MeasuredAt t)"
    using assms(2) by (auto simp: time_Sub_def)
  then have "freshness j t now \<le> freshness j (t\<lparr>tv_MeasuredAt := m\<rparr>) now"
    using assms(3,4) by (auto simp: freshness_def Let_def defaultCalibrationWindow_def divide_right_mono)
  moreover have "ESP (profileFor j) (t\<lparr>tv_MeasuredAt := m\<rparr>) = ESP (profileFor j) t"
    by (simp add: ESP_def metricValues_def)
  ultimately show ?thesis
    using ESP_range[OF assms(1), of "profileFor j"] by (simp add: adaptive_deferral_score_def mult_left_mono)
qed

text \<open>The front number decides between fronts; the scalarization stays below one front.\<close>

lemma pareto_scores_nth:
  assumes "i < length ts"
  shows "fst (pareto_scores c j ts now) ! i =
    - real (nonDominatedFronts (map (ESP (profileFor j)) ts) (map (\<lambda>t. - tv_WaitSeconds t) ts) ! i) +
    (normalize (map (ESP (profileFor j)) ts) ! i + normalize (map (\<lambda>t. - tv_WaitSeconds t) ts) ! i) / 4"
  using assms by (auto simp: pareto_scores_def Let_def)

lemma pareto_front_first:
  fixes ts j
  defines "front \<equiv> nonDominatedFronts (map (ESP (profileFor j)) ts) (map (\<lambda>t. - tv_WaitSeconds t) ts)"
  assumes "i < length ts" "k < length ts" and "front ! i < front ! k"
  shows "fst (pareto_scores c j ts now) ! k < fst (pareto_scores c j ts now) ! i"
proof -
  have r: "0 \<le> normalize xs ! m \<and> normalize xs ! m \<le> 1" if "length xs = length ts" "m < length ts" for xs m
    using normalize_range[of m xs] that by simp
  have "real (front ! i) + 1 \<le> real (front ! k)" using assms(4) by linarith
  with r[of "map (ESP (profileFor j)) ts" i] r[of "map (ESP (profileFor j)) ts" k]
    r[of "map (\<lambda>t. - tv_WaitSeconds t) ts" i] r[of "map (\<lambda>t. - tv_WaitSeconds t) ts" k] assms(2,3)
  show ?thesis by (simp add: pareto_scores_nth add_divide_distrib flip: front_def)
qed

text \<open>Round-robin: the scored position advances by one with every call, modulo the set's size.\<close>

lemma round_robin_pick:
  assumes "ts \<noteq> []"
  shows "fst (round_robin_scores c j ts now) = (replicate (length ts) 0)[unat c mod length ts := 1]"
    and "snd (round_robin_scores c j ts now) = c + 1"
  using assms by (simp_all add: round_robin_scores_def Let_def)

end
