(* ===== verification/Scheduling.thy ===== *)
theory Scheduling
  imports Policies
begin

text \<open>
  The pipeline of \<open>internal/scheduler/scheduler.go\<close> (filter, score, select_best, explain) and the
  floor-relaxed pass of \<open>conflict.go\<close>. Everything about the choice is proved once, for any policy
  that meets the interface, in the locales of \<open>Policies\<close>.
\<close>

section \<open>Definitions\<close>

record Decision =
  de_Policy :: string
  de_Target :: string
  de_Score :: float64
  de_SnapshotID :: string
  de_WaitSeconds :: float64
  de_PredictedESP :: float64
  de_Reason :: string
  de_Rejected :: "Rejection list"

text \<open>The filter loop: rejections and survivors, in name order.\<close>

definition rejections :: "policy \<Rightarrow> JobView \<Rightarrow> time \<Rightarrow> TargetView list \<Rightarrow> Rejection list" where
  "rejections p j now ts = map (\<lambda>t. \<lparr>rj_Target = tv_Name t, rj_Reason = po_Filter p j t now\<rparr>)
     (filter (\<lambda>t. po_Filter p j t now \<noteq> []) ts)"

definition feasible_set :: "policy \<Rightarrow> JobView \<Rightarrow> time \<Rightarrow> TargetView list \<Rightarrow> TargetView list" where
  "feasible_set p j now ts = filter (\<lambda>t. po_Filter p j t now = []) ts"

text \<open>The selection loop: the first target replaces nothing, a later one only a smaller score.\<close>

fun select_best :: "(TargetView \<times> float64) option \<Rightarrow> (TargetView \<times> float64) list \<Rightarrow> (TargetView \<times> float64) option" where
  "select_best best [] = best"
| "select_best best ((t, x) # ts) =
     (case best of
        None \<Rightarrow> select_best (Some (t, x)) ts
      | Some (b, y) \<Rightarrow> select_best (if x > y then Some (t, x) else best) ts)"

definition rejection_text :: "Rejection list \<Rightarrow> string" where
  "rejection_text rs =
     (if rs = [] then []
      else ''; filtered: '' @ Join (map (\<lambda>r. rj_Target r @ '' ('' @ rj_Reason r @ '')'') rs) ''; '')"

definition Schedule :: "policy \<Rightarrow> 64 word \<Rightarrow> JobView \<Rightarrow> TargetView list \<Rightarrow> time \<Rightarrow> Decision \<times> 64 word" where
  "Schedule p c j fleet now =
     (let sorted_fleet = sort_key tv_Name fleet;
          rejected = rejections p j now sorted_fleet;
          feasible = feasible_set p j now sorted_fleet;
          (scores, c') = scores_of p c j feasible now
      in case select_best None (zip feasible scores) of
           Some (best, score) \<Rightarrow>
             (\<lparr>de_Policy = po_Name p, de_Target = tv_Name best, de_Score = score,
               de_SnapshotID = tv_SnapshotID best, de_WaitSeconds = tv_WaitSeconds best,
               de_PredictedESP = (case po_PredictESP p of Some f \<Rightarrow> f j best | None \<Rightarrow> 0),
               de_Reason = ''policy '' @ po_Name p @ '' selected '' @ tv_Name best @ '' (score '' @
                 fmt_fixed 4 score @ '') among '' @ itoa (length feasible) @ '' feasible target(s)'' @
                 rejection_text rejected,
               de_Rejected = rejected\<rparr>, c')
         | None \<Rightarrow>
             (\<lparr>de_Policy = po_Name p, de_Target = [], de_Score = 0, de_SnapshotID = [],
               de_WaitSeconds = 0, de_PredictedESP = 0,
               de_Reason = ''policy '' @ po_Name p @ '' found no feasible target among '' @
                 itoa (length sorted_fleet) @ rejection_text rejected,
               de_Rejected = rejected\<rparr>, c'))"

definition PlacementRecord :: "Decision \<Rightarrow> obj" where
  "PlacementRecord d =
     [(''policy'', JStr (de_Policy d)),
      (''calibrationSnapshot'', JStr (de_SnapshotID d)),
      (''predicted'', JObj ([(''waitSeconds'', JNum (de_WaitSeconds d))] @
         (if de_PredictedESP d > 0 then [(''successProbability'', JNum (de_PredictedESP d))] else []))),
      (''reason'', JStr (de_Reason d)),
      (''rejected'', JArr (map (\<lambda>r. JObj [(''target'', JStr (rj_Target r)), (''reason'', JStr (rj_Reason r))])
         (de_Rejected d)))]"

record FloorViolation =
  fv_Floor :: string
  fv_Limit :: float64
  fv_Actual :: float64
  fv_Aggregate :: string

definition relax_floors :: "JobView \<Rightarrow> JobView" where
  "relax_floors j = j\<lparr>jv_TwoQubitErrorMax := 0, jv_ReadoutErrorMax := 0\<rparr>"

definition floor_violation :: "string \<Rightarrow> string \<Rightarrow> float64 \<Rightarrow> float64 option \<Rightarrow> FloorViolation list" where
  "floor_violation flr agg limit value =
     (case value of
        Some v \<Rightarrow> (if limit > 0 \<and> v > limit
                   then [\<lparr>fv_Floor = flr, fv_Limit = limit, fv_Actual = v, fv_Aggregate = agg\<rparr>] else [])
      | None \<Rightarrow> [])"

definition ScheduleRelaxed ::
  "policy \<Rightarrow> 64 word \<Rightarrow> JobView \<Rightarrow> TargetView list \<Rightarrow> time \<Rightarrow> (Decision \<times> FloorViolation list) \<times> 64 word" where
  "ScheduleRelaxed p c j fleet now =
     (let (d, c') = Schedule p c (relax_floors j) fleet now
      in if de_Target d = [] then ((d, []), c')
         else
           (case find (\<lambda>t. tv_Name t = de_Target d) fleet of
              None \<Rightarrow> ((d, []), c')
            | Some chosen \<Rightarrow>
                ((d, floor_violation ''twoQubitErrorMax'' (agg_of j) (jv_TwoQubitErrorMax j)
                       (TwoQubitErrorAggregate chosen (agg_of j)) @
                     floor_violation ''readoutErrorMax'' (agg_of j) (jv_ReadoutErrorMax j)
                       (MetricAggregate chosen ''readout.error'' (agg_of j))), c')))"

text \<open>\<open>time.Duration(waitSeconds * 1e9)\<close> and the latest placement time.\<close>

definition HorizonModel :: string where
  "HorizonModel = ''deadline minus predicted wait; execution estimate 0''"

definition DecisionHorizon :: "JobView \<Rightarrow> Decision \<Rightarrow> time" where
  "DecisionHorizon j relaxed = jv_Deadline j - trunc (de_WaitSeconds relaxed * 1000000000)"

section \<open>The selection loop\<close>

text \<open>The result is the first maximum.\<close>

definition first_max :: "('a \<times> float64) list \<Rightarrow> 'a \<times> float64 \<Rightarrow> bool" where
  "first_max xs r \<longleftrightarrow> (\<exists>i < length xs. xs ! i = r \<and> (\<forall>k < length xs. snd (xs ! k) \<le> snd r) \<and>
     (\<forall>k < i. snd (xs ! k) < snd r))"

lemma first_max_skip:
  assumes "first_max (b # xs) r" and "snd a \<le> snd b"
  shows "first_max (b # a # xs) r"
proof -
  from assms(1) obtain i where i: "i < length (b # xs)" "(b # xs) ! i = r"
    "\<forall>k < length (b # xs). snd ((b # xs) ! k) \<le> snd r" "\<forall>k < i. snd ((b # xs) ! k) < snd r"
    by (auto simp: first_max_def)
  show ?thesis
  proof (cases i)
    case 0
    with i(2) have "r = b" by simp
    with i(3) assms(2) show ?thesis
      unfolding first_max_def by (intro exI[of _ 0]) (auto simp: nth_Cons' All_less_Suc2)
  next
    case (Suc i')
    with i(4) have "snd b < snd r" by auto
    with i assms(2) Suc show ?thesis
      unfolding first_max_def by (intro exI[of _ "Suc i"]) (auto simp: nth_Cons' All_less_Suc2)
  qed
qed

lemma first_max_Cons:
  assumes "first_max xs r" and "snd b < snd r"
  shows "first_max (b # xs) r"
proof -
  from assms(1) obtain i where "i < length xs" "xs ! i = r" "\<forall>k < length xs. snd (xs ! k) \<le> snd r"
    "\<forall>k < i. snd (xs ! k) < snd r" by (auto simp: first_max_def)
  with assms(2) show ?thesis
    unfolding first_max_def by (intro exI[of _ "Suc i"]) (auto simp: All_less_Suc2)
qed

lemma first_max_ge: "first_max xs r \<Longrightarrow> x \<in> set xs \<Longrightarrow> snd x \<le> snd r"
  by (auto simp: first_max_def in_set_conv_nth)

lemma first_max_mem: "first_max xs r \<Longrightarrow> r \<in> set xs"
  by (auto simp: first_max_def)

lemma select_best_Some: "\<exists>r. select_best (Some b) ts = Some r \<and> first_max (b # ts) r"
proof (induction ts arbitrary: b)
  case Nil
  then show ?case by (auto simp: first_max_def)
next
  case (Cons a ts)
  obtain t x u y where eq: "a = (t, x)" "b = (u, y)" by (metis prod.exhaust)
  show ?case
  proof (cases "x > y")
    case True
    from Cons[of a] obtain r where r: "select_best (Some a) ts = Some r" "first_max (a # ts) r" by blast
    from first_max_ge[OF r(2), of a] True eq have "snd b < snd r" by simp
    from first_max_Cons[OF r(2) this] r(1) True eq show ?thesis by simp
  next
    case False
    from Cons[of b] obtain r where "select_best (Some b) ts = Some r" "first_max (b # ts) r" by blast
    with False eq first_max_skip[of b ts r a] show ?thesis by simp
  qed
qed

lemma select_best_cases:
  obtains (none) "ts = []" "select_best None ts = None"
  | (some) r where "select_best None ts = Some r" "first_max ts r"
proof (cases ts)
  case (Cons a as)
  with select_best_Some[of a as] that(2) show ?thesis by (cases a) auto
qed (use that in simp)

section \<open>What a decision says, for any policy\<close>

lemma set_feasible [simp]: "set (feasible_set p j now ts) = {t \<in> set ts. po_Filter p j t now = []}"
  by (auto simp: feasible_set_def)

lemma Schedule_Rejected:
  "de_Rejected (fst (Schedule p c j fleet now)) = rejections p j now (sort_key tv_Name fleet)"
  by (simp add: Schedule_def Let_def split: prod.splits option.splits)

lemma Schedule_perm:
  assumes "mset fleet = mset fleet'" and "distinct (map tv_Name fleet)"
  shows "Schedule p c j fleet now = Schedule p c j fleet' now"
  using sort_key_distinct_perm[OF assms] by (simp add: Schedule_def)

context scheduling_policy
begin

lemma decision_cases:
  fixes fleet j now c
  defines "ts \<equiv> feasible_set p j now (sort_key tv_Name fleet)"
  defines "d \<equiv> fst (Schedule p c j fleet now)"
  obtains (none) "ts = []" "de_Target d = []" "de_PredictedESP d = 0" "de_WaitSeconds d = 0"
  | (some) t where "first_max (zip ts (fst (scores_of p c j ts now))) (t, de_Score d)"
      "t \<in> set ts" "de_Target d = tv_Name t" "de_SnapshotID d = tv_SnapshotID t"
      "de_WaitSeconds d = tv_WaitSeconds t"
      "de_PredictedESP d = (case po_PredictESP p of Some f \<Rightarrow> f j t | None \<Rightarrow> 0)"
proof (cases rule: select_best_cases[of "zip ts (fst (scores_of p c j ts now))"])
  case none
  then have "ts = []" using scores_length[of c j ts now] by (metis length_0_conv length_zip min.idem)
  with none show ?thesis
    by (intro that(1)) (simp_all add: d_def Schedule_def Let_def ts_def[symmetric] split_beta)
next
  case (some r)
  obtain t x where r: "r = (t, x)" by (metis prod.exhaust)
  with some first_max_mem[OF some(2)] have "t \<in> set ts" by (auto dest: set_zip_leftD)
  with some r show ?thesis
    by (intro that(2)[of t])
      (simp_all add: d_def Schedule_def Let_def ts_def[symmetric] split_beta split: option.split)
qed

text \<open>The chosen target is a member of the fleet and passes the hard dimensions.\<close>

lemma chosen_capable:
  assumes "de_Target (fst (Schedule p c j fleet now)) \<noteq> []"
  shows "\<exists>t \<in> set fleet. tv_Name t = de_Target (fst (Schedule p c j fleet now)) \<and>
    po_Filter p j t now = [] \<and> capable j t now"
  by (cases rule: decision_cases[of j now fleet c]) (use assms filter_narrows in auto)

text \<open>No placement only when every target was rejected (targets have names).\<close>

lemma none_iff:
  assumes "\<forall>t \<in> set fleet. tv_Name t \<noteq> []"
  shows "de_Target (fst (Schedule p c j fleet now)) = [] \<longleftrightarrow> (\<forall>t \<in> set fleet. po_Filter p j t now \<noteq> [])"
proof (cases rule: decision_cases[of j now fleet c])
  case none
  then have "{t \<in> set fleet. po_Filter p j t now = []} = {}"
    using set_feasible[of p j now "sort_key tv_Name fleet"] by simp
  with none show ?thesis by auto
next
  case (some t)
  with assms show ?thesis by auto
qed

text \<open>Every target of the fleet is either feasible or listed with its reason.\<close>

lemma audit_complete:
  assumes "t \<in> set fleet"
  shows "po_Filter p j t now = [] \<or>
    \<lparr>rj_Target = tv_Name t, rj_Reason = po_Filter p j t now\<rparr> \<in> set (de_Rejected (fst (Schedule p c j fleet now)))"
  using assms by (auto simp: Schedule_Rejected rejections_def)

end

context quality_policy
begin

lemma chosen_meets:
  assumes "de_Target (fst (Schedule p c j fleet now)) \<noteq> []"
  shows "\<exists>t \<in> set fleet. tv_Name t = de_Target (fst (Schedule p c j fleet now)) \<and> meets j t now"
  using chosen_capable[OF assms] filter_quality by blast

text \<open>The relaxed pass ignores the two floors and nothing else.\<close>

lemma relaxed_filter:
  "po_Filter p (relax_floors j) t now = [] \<longleftrightarrow> capable j t now \<and>
     (jv_CalibrationMaxAge j > 0 \<longrightarrow> \<not> IsZero (tv_MeasuredAt t) \<and>
        time_Sub now (tv_MeasuredAt t) \<le> jv_CalibrationMaxAge j)"
  unfolding filter_quality meets_def
  by (auto simp: capable_def quality_met_def relax_floors_def floor_met_def)

end

end
