(* ===== verification/Scheduler_Properties.thy ===== *)
theory Scheduler_Properties
  imports Scheduling Fairshare
begin

text \<open>
  The contract of the scheduler: what a decision of any registered policy guarantees, what the
  filter decides, how the estimates behave, and that the fair-share order is total and fair. The
  general arguments are the locale lemmas of \<open>Scheduling\<close>; here they are stated for the policies the
  program registers.
\<close>

section \<open>The registered policies\<close>

definition policy_table :: "(string \<times> policy) list" where
  "policy_table = map (\<lambda>p. (po_Name p, p))
     [paretoPolicy, adaptiveDeferralPolicy, fifoPolicy, staticBestPolicy, roundRobinPolicy, calibAwarePolicy]"

lemma po_names [simp]:
  "po_Name paretoPolicy = ''pareto/v0''" "po_Name adaptiveDeferralPolicy = ''adaptive-deferral/v0''"
  "po_Name fifoPolicy = ''fifo/v0''" "po_Name staticBestPolicy = ''static-best/v0''"
  "po_Name roundRobinPolicy = ''round-robin/v0''" "po_Name calibAwarePolicy = ''calib-aware/v0''"
  by (simp_all add: sched_simps)

lemma po_filters [simp]:
  "po_Filter paretoPolicy = FilterTarget" "po_Filter adaptiveDeferralPolicy = FilterTarget"
  "po_Filter fifoPolicy = FilterTarget" "po_Filter staticBestPolicy = FilterCapabilityOnly"
  "po_Filter roundRobinPolicy = FilterCapabilityOnly" "po_Filter calibAwarePolicy = FilterTarget"
  by (simp_all add: sched_simps)

lemma init_factories_table: "init_factories = Some policy_table"
  by (simp add: init_factories_def Register_def policy_table_def)

lemma registered: "init_factories = Some fs \<Longrightarrow> (name, p) \<in> set fs \<Longrightarrow> (name, p) \<in> set policy_table"
  by (simp add: init_factories_table)

text \<open>What the policy of a name asks of a target: the two baselines leave the calibration out.\<close>

definition admits :: "string \<Rightarrow> JobView \<Rightarrow> TargetView \<Rightarrow> time \<Rightarrow> bool" where
  "admits name j t now = (if name \<in> {''static-best/v0'', ''round-robin/v0''} then capable j t now else meets j t now)"

lemma registered_cases:
  assumes "(name, p) \<in> set policy_table"
  obtains "p = paretoPolicy" "name = ''pareto/v0''" | "p = adaptiveDeferralPolicy" "name = ''adaptive-deferral/v0''"
  | "p = fifoPolicy" "name = ''fifo/v0''" | "p = staticBestPolicy" "name = ''static-best/v0''"
  | "p = roundRobinPolicy" "name = ''round-robin/v0''" | "p = calibAwarePolicy" "name = ''calib-aware/v0''"
proof -
  have "p = paretoPolicy \<and> name = ''pareto/v0'' \<or> p = adaptiveDeferralPolicy \<and> name = ''adaptive-deferral/v0'' \<or>
    p = fifoPolicy \<and> name = ''fifo/v0'' \<or> p = staticBestPolicy \<and> name = ''static-best/v0'' \<or>
    p = roundRobinPolicy \<and> name = ''round-robin/v0'' \<or> p = calibAwarePolicy \<and> name = ''calib-aware/v0''"
    using assms unfolding policy_table_def list.map list.set insert_iff po_names prod.inject empty_iff by argo
  with that show ?thesis by argo
qed

lemma registered_policy:
  assumes "(name, p) \<in> set policy_table"
  shows "scheduling_policy p" "po_Filter p j t now = [] \<longleftrightarrow> admits name j t now" "po_Name p = name"
proof -
  show "scheduling_policy p"
    using assms
    by (cases rule: registered_cases)
      (simp_all add: fifo.scheduling_policy_axioms static_best.scheduling_policy_axioms round_robin.scheduling_policy_axioms
        calib_aware.scheduling_policy_axioms pareto.scheduling_policy_axioms adaptive_deferral.scheduling_policy_axioms)
  show "po_Filter p j t now = [] \<longleftrightarrow> admits name j t now" "po_Name p = name"
    using assms by (cases rule: registered_cases; simp add: admits_def FilterTarget_Nil FilterCapabilityOnly_Nil)+
qed

section \<open>A small fleet\<close>

definition demo_target :: "string \<Rightarrow> float64 \<Rightarrow> float64 \<Rightarrow> TargetView" where
  "demo_target name err wait = \<lparr>tv_Name = name, tv_Modality = ''gate-model'', tv_Technology = ''superconducting'',
     tv_Qubits = 5, tv_Formats = [''openqasm3''], tv_MaxShots = 1000, tv_Billing = [''shots''], tv_Online = True,
     tv_Cloud = False, tv_SnapshotID = ''snap'', tv_MeasuredAt = 0,
     tv_Metrics = [\<lparr>mt_Name = ''gate.2q.cz.error'', mt_Value = err, mt_Qubits = [0, 1]\<rparr>],
     tv_QueueDepth = 0, tv_WaitSeconds = wait, tv_Maintenance = [], tv_Nominal2QError = 0\<rparr>"

definition demo_view :: "float64 \<Rightarrow> JobView" where
  "demo_view limit = \<lparr>jv_ID = ''j1'', jv_Tenant = ''acme/lab'', jv_Kind = ''gate-model'', jv_Format = ''openqasm3'',
     jv_Shots = 100, jv_Qubits = 2, jv_Technology = [], jv_TwoQubitErrorMax = limit, jv_ReadoutErrorMax = 0,
     jv_CalibrationMaxAge = 0, jv_Aggregate = [], jv_OnConflict = [], jv_Deadline = zero_time, jv_BudgetUnits = [],
     jv_SessionJoin = [], jv_SessionMaxDuration = 0, jv_PreferOnPrem = False, jv_AllowCloudBurst = [],
     jv_DenyTargets = [], jv_RequireTargets = [], jv_Profile = None\<rparr>"

definition demo_fleet :: "TargetView list" where
  "demo_fleet = [demo_target ''a/noisy'' (1 / 20) 0, demo_target ''b/clean'' (1 / 100) 0]"

lemmas demo_sched = demo_fleet_def demo_target_def demo_view_def capable_def meets_def quality_met_def floor_met_def
  InMaintenance_def TwoQubitErrorAggregate_def MetricAggregate_def metricValues_def aggregateValues_def
  agg_of_def Let_def

lemma demo_metric [simp]: "is_2q_error ''gate.2q.cz.error''"
  by code_simp

lemma demo_sorted: "sort_key tv_Name demo_fleet = demo_fleet"
proof (rule sort_key_id_if_sorted)
  have "''a/noisy'' \<le> (''b/clean'' :: string)" by code_simp
  then show "sorted (map tv_Name demo_fleet)" by (simp add: demo_fleet_def demo_target_def)
qed

lemma demo_meets:
  "meets (demo_view (1 / 50)) (demo_target ''b/clean'' (1 / 100) 0) 0"
  "\<not> meets (demo_view (1 / 50)) (demo_target ''a/noisy'' (1 / 20) 0) 0"
  by (simp_all add: demo_sched)

lemma fifo_registered: "(''fifo/v0'', fifoPolicy) \<in> set policy_table"
  by (simp add: policy_table_def)

lemma demo_decision: "de_Target (fst (Schedule fifoPolicy 0 (demo_view (1 / 50)) demo_fleet 0)) = ''b/clean''"
proof -
  have "feasible_set fifoPolicy (demo_view (1 / 50)) 0 demo_fleet = [demo_target ''b/clean'' (1 / 100) 0]"
    using demo_meets by (simp add: feasible_set_def demo_fleet_def FilterTarget_Nil)
  then show ?thesis by (simp add: Schedule_def Let_def scores_of_def demo_sorted fifoPolicy_def) (simp add: demo_target_def)
qed

section \<open>Properties of a decision\<close>

text \<open>C8: A placement is sound. Whatever registered policy is active, a target it names is in the fleet and
  meets every hard requirement of the job, and, except under the two baselines that ignore calibration
  on purpose, the quality floors and the calibration age too.\<close>

theorem placement_meets_requirements:
  assumes "init_factories = Some fs" and "(name, p) \<in> set fs"
    and "de_Target (fst (Schedule p c j fleet now)) \<noteq> []"
  shows "\<exists>t \<in> set fleet. tv_Name t = de_Target (fst (Schedule p c j fleet now)) \<and> admits name j t now"
proof -
  have reg: "(name, p) \<in> set policy_table" using registered[OF assms(1,2)] .
  from scheduling_policy.chosen_capable[OF registered_policy(1)[OF reg] assms(3)] registered_policy(2)[OF reg]
  show ?thesis by auto
qed

theorem placement_meets_requirements_witness:
  "\<exists>t \<in> set demo_fleet. tv_Name t = ''b/clean'' \<and> admits ''fifo/v0'' (demo_view (1 / 50)) t 0"
  using placement_meets_requirements[OF init_factories_table fifo_registered, of 0 "demo_view (1 / 50)" demo_fleet 0]
  by (simp add: demo_decision)

lemma placement_found_iff:
  assumes "(name, p) \<in> set policy_table" and "\<forall>t \<in> set fleet. tv_Name t \<noteq> []"
  shows "de_Target (fst (Schedule p c j fleet now)) = [] \<longleftrightarrow> (\<forall>t \<in> set fleet. \<not> admits name j t now)"
  using scheduling_policy.none_iff[OF registered_policy(1)[OF assms(1)] assms(2)] registered_policy(2)[OF assms(1)] by simp

text \<open>C9: A placement is complete. A decision of a registered policy names no target exactly when no target
  of the fleet is admissible; a schedulable job is never refused.\<close>

theorem placement_found_iff_possible:
  assumes "init_factories = Some fs" and "(name, p) \<in> set fs" and "\<forall>t \<in> set fleet. tv_Name t \<noteq> []"
  shows "de_Target (fst (Schedule p c j fleet now)) = [] \<longleftrightarrow> (\<forall>t \<in> set fleet. \<not> admits name j t now)"
  by (rule placement_found_iff[OF registered[OF assms(1,2)] assms(3)])

theorem placement_found_iff_possible_witness:
  "de_Target (fst (Schedule fifoPolicy 0 (demo_view (1 / 1000)) demo_fleet 0)) = []"
  using placement_found_iff_possible[OF init_factories_table fifo_registered, of demo_fleet 0 "demo_view (1 / 1000)" 0]
  by (simp add: admits_def demo_sched)

text \<open>A decision explains itself: every target of the fleet that was not admissible is listed with the
  reason its filter gave, and nothing else is listed.\<close>

theorem decision_lists_every_rejection:
  assumes "init_factories = Some fs" and "(name, p) \<in> set fs"
  shows "set (de_Rejected (fst (Schedule p c j fleet now))) =
    {\<lparr>rj_Target = tv_Name t, rj_Reason = po_Filter p j t now\<rparr> | t. t \<in> set fleet \<and> \<not> admits name j t now}"
proof -
  have reg: "(name, p) \<in> set policy_table" using registered[OF assms] .
  show ?thesis using registered_policy(2)[OF reg] by (auto simp: Schedule_Rejected rejections_def)
qed

theorem decision_lists_every_rejection_witness:
  "\<exists>r \<in> set (de_Rejected (fst (Schedule fifoPolicy 0 (demo_view (1 / 50)) demo_fleet 0))). rj_Target r = ''a/noisy''"
proof -
  have "\<not> admits ''fifo/v0'' (demo_view (1 / 50)) (demo_target ''a/noisy'' (1 / 20) 0) 0"
    using demo_meets by (simp add: admits_def)
  then show ?thesis
    using decision_lists_every_rejection[OF init_factories_table fifo_registered, of 0 "demo_view (1 / 50)" demo_fleet 0]
    by (force simp: demo_fleet_def demo_target_def)
qed

text \<open>The decision does not depend on the order in which the registry lists the fleet, for any policy,
  scores and counter included.\<close>

theorem decision_ignores_fleet_order:
  assumes "mset fleet = mset fleet'" and "distinct (map tv_Name fleet)"
  shows "Schedule p c j fleet now = Schedule p c j fleet' now"
  using Schedule_perm[OF assms] .

theorem decision_ignores_fleet_order_witness:
  "Schedule calibAwarePolicy 0 (demo_view 0) demo_fleet 0 = Schedule calibAwarePolicy 0 (demo_view 0) (rev demo_fleet) 0"
  by (rule decision_ignores_fleet_order) (simp_all add: demo_fleet_def demo_target_def)

text \<open>Selection is greedy and deterministic: under a policy that scores targets one by one, the chosen
  target has the highest score of all admissible ones, and among equals the first name.\<close>

theorem choice_is_first_best:
  assumes "init_factories = Some fs" and "(name, p) \<in> set fs" and "po_ScoreSet p = None"
    and "distinct (map tv_Name fleet)" and "de_Target (fst (Schedule p c j fleet now)) \<noteq> []"
  shows "\<exists>t \<in> set fleet. tv_Name t = de_Target (fst (Schedule p c j fleet now)) \<and>
    (\<forall>u \<in> set fleet. admits name j u now \<longrightarrow> po_Score p j u now < po_Score p j t now \<or>
       po_Score p j u now = po_Score p j t now \<and> tv_Name t \<le> tv_Name u)"
proof -
  have reg: "(name, p) \<in> set policy_table" using registered[OF assms(1,2)] .
  let ?ts = "feasible_set p j now (sort_key tv_Name fleet)" and ?f = "\<lambda>t. po_Score p j t now"
  have srt: "sorted (map tv_Name ?ts)" by (simp add: feasible_set_def sorted_filter)
  from scheduling_policy.decision_cases[OF registered_policy(1)[OF reg], of j now fleet c] assms(5)
  obtain t where t: "first_max (zip ?ts (fst (scores_of p c j ?ts now))) (t, de_Score (fst (Schedule p c j fleet now)))"
    "t \<in> set ?ts" "de_Target (fst (Schedule p c j fleet now)) = tv_Name t" by metis
  have z: "zip ?ts (fst (scores_of p c j ?ts now)) = map (\<lambda>t. (t, ?f t)) ?ts"
    by (simp add: scores_of_def assms(3) zip_map2 zip_same_conv_map)
  from t(1) obtain i where i: "i < length ?ts" "?ts ! i = t" "\<forall>k < length ?ts. ?f (?ts ! k) \<le> ?f t"
    "\<forall>k < i. ?f (?ts ! k) < ?f t" unfolding z first_max_def by auto
  have "?f u < ?f t \<or> ?f u = ?f t \<and> tv_Name t \<le> tv_Name u" if "u \<in> set fleet" "admits name j u now" for u
  proof -
    from that registered_policy(2)[OF reg] have "u \<in> set ?ts" by simp
    then obtain k where k: "k < length ?ts" "?ts ! k = u" by (metis in_set_conv_nth)
    show ?thesis
    proof (cases "k < i")
      case True
      with i(4) k show ?thesis by auto
    next
      case False
      with sorted_nth_mono[OF srt, of i k] k i(1,2) have "tv_Name t \<le> tv_Name u" by simp
      with i(3) k show ?thesis by fastforce
    qed
  qed
  moreover have "t \<in> set fleet" using t(2) by simp
  ultimately show ?thesis using t(3) by auto
qed

theorem choice_is_first_best_witness:
  "\<exists>t \<in> set demo_fleet. tv_Name t = ''b/clean'' \<and> (\<forall>u \<in> set demo_fleet. admits ''fifo/v0'' (demo_view (1 / 50)) u 0 \<longrightarrow>
     po_Score fifoPolicy (demo_view (1 / 50)) u 0 < po_Score fifoPolicy (demo_view (1 / 50)) t 0 \<or>
     po_Score fifoPolicy (demo_view (1 / 50)) u 0 = po_Score fifoPolicy (demo_view (1 / 50)) t 0 \<and> tv_Name t \<le> tv_Name u)"
  using choice_is_first_best[OF init_factories_table fifo_registered, of demo_fleet 0 "demo_view (1 / 50)" 0] demo_decision
  by (simp add: demo_fleet_def demo_target_def sched_simps)

end
