(* ===== verification/Policy_Properties.thy ===== *)
theory Policy_Properties
  imports Scheduler_Properties
begin

text \<open>
  Properties of the parts a decision is made of: the filter against its specification, the estimate of
  the success probability, the rankings of the Pareto and round-robin policies, and the floor-relaxed
  pass of the conflict rule.
\<close>

section \<open>Filter and estimate\<close>

text \<open>C10: The filter decides the specification of a job's requirements: the full filter gives no reason
  exactly for the targets that meet them all, the capability filter exactly for the targets that meet
  all but the calibration dimensions.\<close>

theorem filter_decides_requirements:
  "(FilterTarget j t now = [] \<longleftrightarrow> capable j t now \<and> quality_met j t now) \<and>
   (FilterCapabilityOnly j t now = [] \<longleftrightarrow> capable j t now)"
  by (simp add: FilterTarget_Nil FilterCapabilityOnly_Nil meets_def)

text \<open>C24: The estimated success probability of any circuit on a target whose gate and readout error rates lie in
  \<open>[0, 1]\<close> is a probability, and it never rises when these error rates do; every other metric of a snapshot, as
  coherence times, is irrelevant to it.\<close>

theorem esp_is_monotone_probability:
  assumes "calibrated t" and "calibrated u" and "no_worse t u"
  shows "0 \<le> ESP p u \<and> ESP p u \<le> ESP p t \<and> ESP p t \<le> 1 \<and> (error_rates t = error_rates u \<longrightarrow> ESP p t = ESP p u)"
  using ESP_range[OF assms(1), of p] ESP_range[OF assms(2), of p] ESP_mono[OF assms(3,1,2), of p] ESP_cong[of t u p] by simp

definition demo_bell :: CircuitProfile where
  "demo_bell = \<lparr>cp_Qubits = 2, cp_OneQubitGates = 1, cp_TwoQubitGates = 1, cp_MeasuredQubits = 2\<rparr>"

text \<open>A target with the metrics a snapshot has.\<close>

definition demo_snapshot :: "float64 \<Rightarrow> float64 \<Rightarrow> TargetView" where
  "demo_snapshot err t1 = (demo_target ''a/dev'' err 0)\<lparr>tv_Metrics :=
     [\<lparr>mt_Name = ''t1.us'', mt_Value = t1, mt_Qubits = [0]\<rparr>, \<lparr>mt_Name = ''gate.1q.error'', mt_Value = 1 / 1000, mt_Qubits = [0]\<rparr>,
      \<lparr>mt_Name = ''gate.2q.cx.error'', mt_Value = err, mt_Qubits = [0, 1]\<rparr>, \<lparr>mt_Name = ''readout.error'', mt_Value = err, mt_Qubits = [0]\<rparr>]\<rparr>"

lemma demo_snapshot_rates: "error_rates (demo_snapshot err t1) = tl (tv_Metrics (demo_snapshot err t1))"
  by (simp add: error_rates_def error_rate_def demo_snapshot_def suffix_def)

theorem esp_is_monotone_probability_witness:
  "ESP demo_bell (demo_snapshot (1 / 20) 240) \<le> ESP demo_bell (demo_snapshot (1 / 100) 120)"
  using esp_is_monotone_probability[of "demo_snapshot (1 / 100) 120" "demo_snapshot (1 / 20) 240" demo_bell]
  by (simp add: calibrated_def no_worse_def demo_snapshot_rates) (simp add: demo_snapshot_def)

text \<open>The three aggregates of a metric are ordered whatever the values are: best below any other,
  worst above any other, each a measured value, independent of the order of the measurements. A
  floor met on the worst value is met on every aggregate.\<close>

theorem aggregates_are_ordered:
  assumes "vs \<noteq> []" and "mset ws = mset vs"
  shows "\<exists>b x w. aggregateValues vs ''best'' = Some b \<and> aggregateValues vs a = Some x \<and> aggregateValues vs ''worst'' = Some w \<and>
    b \<le> x \<and> x \<le> w \<and> x \<in> set vs \<and> aggregateValues ws a = Some x \<and>
    (floor_met limit (Some w) \<longrightarrow> floor_met limit (Some x))"
proof -
  obtain b x w where v: "aggregateValues vs ''best'' = Some b" "aggregateValues vs a = Some x" "aggregateValues vs ''worst'' = Some w"
    using assms(1) by (meson aggregateValues_None not_None_eq)
  moreover have "b \<le> x" "x \<le> w" using aggregateValues_mono[OF assms(1), of a] v by simp_all
  moreover have "aggregateValues ws a = Some x" using aggregateValues_perm[OF assms(2), of a] v(2) by simp
  ultimately show ?thesis using aggregateValues_mem[OF v(2)] floor_met_aggregate[of limit vs a] by auto
qed

theorem aggregates_are_ordered_witness:
  "\<exists>b x w. aggregateValues [3, 1, 2] ''best'' = Some b \<and> aggregateValues [3, 1, 2] ''median'' = Some x \<and>
    aggregateValues [3, 1, 2] ''worst'' = Some w \<and> b \<le> x \<and> x \<le> w"
  using aggregates_are_ordered[of "[3, 1, 2]" "[1, 2, 3]" "''median''" 0] by auto

section \<open>Rankings\<close>

lemma pareto_first_max:
  assumes "de_Target (fst (Schedule paretoPolicy c j fleet now)) \<noteq> []"
  obtains ts i where "ts = feasible_set paretoPolicy j now (sort_key tv_Name fleet)" "i < length ts"
    "tv_Name (ts ! i) = de_Target (fst (Schedule paretoPolicy c j fleet now))"
    "\<forall>k < length ts. fst (pareto_scores c j ts now) ! k \<le> fst (pareto_scores c j ts now) ! i"
proof -
  let ?ts = "feasible_set paretoPolicy j now (sort_key tv_Name fleet)"
  have sc: "scores_of paretoPolicy c j ?ts now = pareto_scores c j ?ts now" by (simp add: scores_of_def paretoPolicy_def)
  have len: "length (fst (pareto_scores c j ?ts now)) = length ?ts" by (simp add: pareto_scores_def Let_def)
  from pareto.decision_cases[of j now fleet c] assms
  obtain t where t: "first_max (zip ?ts (fst (pareto_scores c j ?ts now))) (t, de_Score (fst (Schedule paretoPolicy c j fleet now)))"
    "de_Target (fst (Schedule paretoPolicy c j fleet now)) = tv_Name t" unfolding sc by metis
  from t(1) len obtain i where "i < length ?ts" "?ts ! i = t"
    "\<forall>k < length ?ts. fst (pareto_scores c j ?ts now) ! k \<le> fst (pareto_scores c j ?ts now) ! i"
    by (auto simp: first_max_def)
  with that[of ?ts i] t(2) show ?thesis by simp
qed

text \<open>The Pareto policy picks a Pareto-optimal target: no admissible target has both at least its
  estimated success probability and at most its wait, with one of them strictly better.\<close>

theorem pareto_choice_not_dominated:
  assumes "de_Target (fst (Schedule paretoPolicy c j fleet now)) \<noteq> []"
  shows "\<exists>t \<in> set fleet. tv_Name t = de_Target (fst (Schedule paretoPolicy c j fleet now)) \<and> meets j t now \<and>
    (\<forall>u \<in> set fleet. meets j u now \<longrightarrow> \<not> dominates (ESP (profileFor j) u) (- tv_WaitSeconds u) (ESP (profileFor j) t) (- tv_WaitSeconds t))"
proof -
  obtain ts i where ts: "ts = feasible_set paretoPolicy j now (sort_key tv_Name fleet)" "i < length ts"
    "tv_Name (ts ! i) = de_Target (fst (Schedule paretoPolicy c j fleet now))"
    and mx: "\<forall>k < length ts. fst (pareto_scores c j ts now) ! k \<le> fst (pareto_scores c j ts now) ! i"
    using pareto_first_max[OF assms] by metis
  let ?f = "map (ESP (profileFor j)) ts" and ?s = "map (\<lambda>t. - tv_WaitSeconds t) ts"
  have lay: "k \<in> layer ?f ?s r \<longleftrightarrow> nonDominatedFronts ?f ?s ! k = r" if "k < length ts" for k r
    using nonDominatedFronts_layer(2)[of ?s ?f k r] that by simp
  have "nonDominatedFronts ?f ?s ! i = 0"
  proof (rule ccontr)
    assume "nonDominatedFronts ?f ?s ! i \<noteq> 0"
    then obtain r where r: "nonDominatedFronts ?f ?s ! i = Suc r" by (metis not0_implies_Suc)
    then have "i \<in> layer ?f ?s (Suc r)" using lay[OF ts(2)] by simp
    from layer_Suc_witness[OF this] obtain k where k: "k < length ts" "k \<in> layer ?f ?s r" by auto
    then have "nonDominatedFronts ?f ?s ! k < nonDominatedFronts ?f ?s ! i" using lay r by simp
    from pareto_front_first[OF k(1) ts(2) this, of c now] mx k(1) show False by (simp add: not_less[symmetric])
  qed
  then have "i \<in> layer ?f ?s 0" using lay[OF ts(2)] by simp
  then have nd: "\<not> dom_at ?f ?s k i" if "k < length ts" for k using that by (simp add: layer_zero)
  have set_ts: "set ts = {t \<in> set fleet. meets j t now}" by (simp add: ts(1) FilterTarget_Nil)
  have "\<not> dominates (ESP (profileFor j) u) (- tv_WaitSeconds u) (ESP (profileFor j) (ts ! i)) (- tv_WaitSeconds (ts ! i))"
    if "u \<in> set ts" for u
    using that nd ts(2) by (auto simp: in_set_conv_nth dom_at_def)
  moreover have "ts ! i \<in> set fleet" "meets j (ts ! i) now" using nth_mem[OF ts(2)] set_ts by auto
  ultimately show ?thesis using ts(3) set_ts by blast
qed

lemma demo_pareto_decision: "de_Target (fst (Schedule paretoPolicy 0 (demo_view (1 / 50)) demo_fleet 0)) \<noteq> []"
  using placement_found_iff[of "''pareto/v0''" paretoPolicy demo_fleet 0 "demo_view (1 / 50)" 0] demo_meets
  by (simp add: policy_table_def demo_fleet_def admits_def) (simp add: demo_target_def)

theorem pareto_choice_not_dominated_witness:
  "\<exists>t \<in> set demo_fleet. tv_Name t = de_Target (fst (Schedule paretoPolicy 0 (demo_view (1 / 50)) demo_fleet 0)) \<and> meets (demo_view (1 / 50)) t 0"
  using pareto_choice_not_dominated[OF demo_pareto_decision] by blast

text \<open>C23: Front numbers are the layers of non-dominated sorting, whatever order the peeling visits the points
  in: a target is on the front exactly when nothing dominates it, a dominated target has a higher
  number than its dominator, and a number \<open>r + 1\<close> has a dominator numbered \<open>r\<close>.\<close>

theorem fronts_are_dominance_layers:
  assumes "length s = length f" and "i < length f" and "k < length f"
  shows "(nonDominatedFronts f s ! k = 0 \<longleftrightarrow> (\<forall>m < length f. \<not> dom_at f s m k)) \<and>
    (dom_at f s i k \<longrightarrow> nonDominatedFronts f s ! i < nonDominatedFronts f s ! k) \<and>
    (\<forall>r. nonDominatedFronts f s ! k = Suc r \<longrightarrow> (\<exists>m < length f. dom_at f s m k \<and> nonDominatedFronts f s ! m = r))"
proof -
  have lay: "m \<in> layer f s r \<longleftrightarrow> nonDominatedFronts f s ! m = r" if "m < length f" for m r
    using nonDominatedFronts_layer(2)[OF assms(1) that] .
  have "dom_at f s i k \<Longrightarrow> nonDominatedFronts f s ! i < nonDominatedFronts f s ! k"
    using layer_dominates[of f s i k] lay assms(2,3) by simp
  moreover have "\<exists>m < length f. dom_at f s m k \<and> nonDominatedFronts f s ! m = r" if "nonDominatedFronts f s ! k = Suc r" for r
    using layer_Suc_witness[of k f s r] lay assms(3) that by metis
  ultimately show ?thesis using lay[OF assms(3), of 0] layer_zero[of k f s] assms(3) by auto
qed

theorem fronts_are_dominance_layers_witness:
  "nonDominatedFronts [1, 2] [1, 2] ! 1 < nonDominatedFronts [1, 2] [1, 2] ! (0 :: nat)"
  using fronts_are_dominance_layers[of "[1, 2]" "[1, 2]" 1 0] by (simp add: dom_at_def dominates_def)

text \<open>C1: Round-robin rotates: with \<open>n\<close> admissible targets the choice is the one at position counter mod \<open>n\<close>
  in name order, and the counter advances by one, wrapping at 64 bits.\<close>

theorem round_robin_rotates:
  fixes j now fleet
  defines "ts \<equiv> filter (\<lambda>t. capable j t now) (sort_key tv_Name fleet)"
  assumes "ts \<noteq> []"
  shows "de_Target (fst (Schedule roundRobinPolicy c j fleet now)) = tv_Name (ts ! (unat c mod length ts)) \<and>
    snd (Schedule roundRobinPolicy c j fleet now) = c + 1"
proof -
  let ?i = "unat c mod length ts" and ?xs = "(replicate (length ts) (0::real))[unat c mod length ts := 1]"
  have feas: "feasible_set roundRobinPolicy j now (sort_key tv_Name fleet) = ts"
    by (simp add: feasible_set_def ts_def FilterCapabilityOnly_Nil)
  have sc: "scores_of roundRobinPolicy c j ts now = (?xs, c + 1)"
    using round_robin_pick[OF assms(2), of c j now] by (simp add: scores_of_def roundRobinPolicy_def prod_eq_iff)
  have i: "?i < length ts" using assms(2) by simp
  obtain r where r: "select_best None (zip ts ?xs) = Some r" "first_max (zip ts ?xs) r"
    using select_best_cases[of "zip ts ?xs"] assms(2) by (metis length_0_conv length_list_update length_replicate length_zip min.idem)
  from r(2) obtain k where k: "k < length ts" "r = (ts ! k, ?xs ! k)" "\<forall>m < length ts. ?xs ! m \<le> ?xs ! k"
    by (auto simp: first_max_def)
  have "k = ?i" using k(1,3) i by (metis length_replicate nth_list_update_eq nth_list_update_neq nth_replicate not_one_le_zero)
  with r(1) k(2) sc feas show ?thesis by (simp add: Schedule_def Let_def)
qed

theorem round_robin_rotates_witness:
  "de_Target (fst (Schedule roundRobinPolicy 3 (demo_view (1 / 50)) demo_fleet 0)) = ''b/clean'' \<and>
   snd (Schedule roundRobinPolicy (- 1) (demo_view (1 / 50)) demo_fleet 0) = 0"
proof -
  have f: "filter (\<lambda>t. capable (demo_view (1 / 50)) t 0) (sort_key tv_Name demo_fleet) = demo_fleet"
    unfolding demo_sorted by (simp add: demo_sched)
  have n: "demo_fleet \<noteq> []" "length demo_fleet = 2" "tv_Name (demo_fleet ! 1) = ''b/clean''" "unat (3 :: 64 word) mod 2 = 1"
    by (simp_all add: demo_fleet_def demo_target_def)
  show ?thesis
    using round_robin_rotates[of "demo_view (1 / 50)" 0 demo_fleet 3] round_robin_rotates[of "demo_view (1 / 50)" 0 demo_fleet "- 1"]
    unfolding f by (simp only: n) simp
qed

section \<open>Relaxed scheduling\<close>

text \<open>The floor-relaxed pass tells the truth: under a policy that honours the floors, when the strict pass
  finds nothing and the relaxed one names a target whose metrics are measured, at least one floor is
  reported, and every report is a floor the job set and the target's value really exceeds.\<close>

theorem relaxed_violations_are_real:
  assumes "(name, p) \<in> {(''fifo/v0'', fifoPolicy), (''calib-aware/v0'', calibAwarePolicy),
      (''pareto/v0'', paretoPolicy), (''adaptive-deferral/v0'', adaptiveDeferralPolicy)}"
    and "distinct (map tv_Name fleet)" and "\<forall>t \<in> set fleet. tv_Name t \<noteq> []"
    and "de_Target (fst (Schedule p c j fleet now)) = []"
    and "ScheduleRelaxed p c' j fleet now = ((d, vs), c'')" and "t \<in> set fleet" and "de_Target d = tv_Name t"
    and "TwoQubitErrorAggregate t (agg_of j) \<noteq> None" and "MetricAggregate t ''readout.error'' (agg_of j) \<noteq> None"
  shows "vs \<noteq> [] \<and> (\<forall>v \<in> set vs. 0 < fv_Limit v \<and> fv_Limit v < fv_Actual v)"
proof -
  have qp: "quality_policy p" and reg: "(name, p) \<in> set policy_table"
    using assms(1) fifo.quality_policy_axioms calib_aware.quality_policy_axioms pareto.quality_policy_axioms
      adaptive_deferral.quality_policy_axioms by (auto simp: policy_table_def)
  then have sp: "scheduling_policy p" by (simp add: quality_policy_def)
  have ne: "de_Target d \<noteq> []" using assms(3,6,7) by auto
  obtain d' where d': "Schedule p c' (relax_floors j) fleet now = (d', c'')" and dd: "d = d'"
    using assms(5) ne by (auto simp: ScheduleRelaxed_def Let_def split: prod.splits if_splits option.splits)
  have uniq: "u = t" if "u \<in> set fleet" "tv_Name u = tv_Name t" for u
    using that assms(2,6) by (metis distinct_map inj_onD)
  have "find (\<lambda>u. tv_Name u = de_Target d) fleet = Some t"
  proof (cases "find (\<lambda>u. tv_Name u = de_Target d) fleet")
    case None
    with assms(6,7) show ?thesis by (auto simp: find_None_iff)
  next
    case (Some u)
    then have "u \<in> set fleet" "tv_Name u = tv_Name t" using assms(7) by (auto simp: find_Some_iff)
    with uniq Some show ?thesis by simp
  qed
  then have vs: "vs = floor_violation ''twoQubitErrorMax'' (agg_of j) (jv_TwoQubitErrorMax j) (TwoQubitErrorAggregate t (agg_of j)) @
      floor_violation ''readoutErrorMax'' (agg_of j) (jv_ReadoutErrorMax j) (MetricAggregate t ''readout.error'' (agg_of j))"
    using assms(5) ne d' dd by (simp add: ScheduleRelaxed_def Let_def)
  have "po_Filter p (relax_floors j) t now = []"
    using scheduling_policy.chosen_capable[OF sp, of c' "relax_floors j" fleet now] d' dd ne assms(7) uniq by auto
  then have relaxed: "capable j t now" "jv_CalibrationMaxAge j > 0 \<longrightarrow> \<not> IsZero (tv_MeasuredAt t) \<and>
      time_Sub now (tv_MeasuredAt t) \<le> jv_CalibrationMaxAge j"
    using quality_policy.relaxed_filter[OF qp, of j t now] by auto
  have "\<not> meets j t now"
    using scheduling_policy.none_iff[OF sp assms(3), of c j now] assms(4,6)
      quality_policy.filter_quality[OF qp, of j t now] by blast
  with relaxed have "\<not> floor_met (jv_TwoQubitErrorMax j) (TwoQubitErrorAggregate t (agg_of j)) \<or>
      \<not> floor_met (jv_ReadoutErrorMax j) (MetricAggregate t ''readout.error'' (agg_of j))"
    by (auto simp: meets_def quality_met_def)
  then have "vs \<noteq> []" using assms(8,9) vs by (auto simp: floor_met_def floor_violation_def)
  moreover have "0 < fv_Limit v \<and> fv_Limit v < fv_Actual v" if "v \<in> set vs" for v
    using that unfolding vs by (auto simp: floor_violation_def split: option.splits if_splits)
  ultimately show ?thesis by blast
qed

definition demo_measured :: TargetView where
  "demo_measured = (demo_target ''a/noisy'' (1 / 20) 0)\<lparr>tv_Metrics :=
     [\<lparr>mt_Name = ''gate.2q.cz.error'', mt_Value = 1 / 20, mt_Qubits = [0, 1]\<rparr>,
      \<lparr>mt_Name = ''readout.error'', mt_Value = 1 / 100, mt_Qubits = [0]\<rparr>]\<rparr>"

lemma demo_readout [simp]: "\<not> is_2q_error ''readout.error''"
  by code_simp

lemma demo_measured_facts:
  "tv_Name demo_measured = ''a/noisy''" "\<not> meets (demo_view (1 / 50)) demo_measured 0"
  "meets (relax_floors (demo_view (1 / 50))) demo_measured 0"
  "TwoQubitErrorAggregate demo_measured (agg_of (demo_view (1 / 50))) \<noteq> None"
  "MetricAggregate demo_measured ''readout.error'' (agg_of (demo_view (1 / 50))) \<noteq> None"
  by (simp_all add: demo_measured_def relax_floors_def demo_sched)

theorem relaxed_violations_are_real_witness:
  "\<exists>d vs c. ScheduleRelaxed fifoPolicy 0 (demo_view (1 / 50)) [demo_measured] 0 = ((d, vs), c) \<and> vs \<noteq> []"
proof -
  obtain d vs c where r: "ScheduleRelaxed fifoPolicy 0 (demo_view (1 / 50)) [demo_measured] 0 = ((d, vs), c)"
    by (metis prod.exhaust)
  have d: "d = fst (Schedule fifoPolicy 0 (relax_floors (demo_view (1 / 50))) [demo_measured] 0)"
    using r by (auto simp: ScheduleRelaxed_def Let_def split: prod.splits if_splits option.splits)
  have "feasible_set fifoPolicy (relax_floors (demo_view (1 / 50))) 0 [demo_measured] = [demo_measured]"
    using demo_measured_facts(3) by (simp add: feasible_set_def FilterTarget_Nil)
  then have t: "de_Target d = tv_Name demo_measured"
    unfolding d by (simp add: Schedule_def Let_def scores_of_def fifoPolicy_def)
  have "de_Target (fst (Schedule fifoPolicy 0 (demo_view (1 / 50)) [demo_measured] 0)) = []"
    using placement_found_iff[OF fifo_registered, of "[demo_measured]" 0 "demo_view (1 / 50)" 0] demo_measured_facts
    by (simp add: admits_def)
  from relaxed_violations_are_real[OF _ _ _ this r _ t] demo_measured_facts r show ?thesis by auto
qed

end
