(* ===== verification/Executor.thy ===== *)
theory Executor
  imports Scheduling Store_Invariants
begin

text \<open>
  The execution half of \<open>internal/dispatch\<close>: submitting a bound task to its adapter, sessions,
  mirroring the adapter's task states onto the job, and failing a job. Adapters are third-party
  processes, so their answers are arguments: a client is a record of the functions the executor
  calls. JSON decoding of a result body is an argument too. Every change of the database is one
  transaction of the store; logging and the back-off sleeps are left out. The database itself answers:
  a transaction is refused for the reasons the store gives (an illegal transition, a missing row, a
  duplicate key), and a lost database connection, which the code only logs, is not modelled. Such an outage
  leaves the job in its active phase, and the next \<open>resume\<close> starts an executor for it.
\<close>

section \<open>Adapter messages\<close>

datatype task_state = TSUnspecified | TSQueued | TSRunning | TSSucceeded | TSFailed | TSCancelled

record ErrorDetail =
  ed_Category :: string
  ed_Retriable :: bool
  ed_VendorCode :: string
  ed_VendorMessage :: string

record adapter_result =
  rs_Format :: string
  rs_Inline :: string
  rs_Uri :: string

record TaskStatus =
  ts_State :: task_state
  ts_Result :: "adapter_result option"
  ts_Usage :: "(string \<times> float64) list"
  ts_Error :: "ErrorDetail option"

record payload =
  pl_Format :: string
  pl_Inline :: string

record submit_request =
  sr_TargetId :: string
  sr_IdempotencyKey :: string
  sr_Payload :: payload
  sr_Shots :: nat
  sr_SessionId :: string
  sr_TenantHint :: string

record session_handle =
  sh_SessionId :: string
  sh_ExpiresAt :: "time option"

text \<open>\<open>Inl\<close> carries the text of the gRPC error.\<close>

record adapter =
  ad_OpenSession :: "string \<Rightarrow> duration \<Rightarrow> string \<Rightarrow> string + session_handle"
  ad_SubmitTask :: "submit_request \<Rightarrow> string + string"

text \<open>What the executor gets from outside: the clients by site, the decoder of a JSON body, the
  texts of base64 and database errors, and whether the process is shutting down (\<open>ctx.Err()\<close>).\<close>

record exec_env =
  ee_client :: "string \<Rightarrow> adapter option"
  ee_unmarshal :: "string \<Rightarrow> obj option"
  ee_b64_error :: "string \<Rightarrow> string"
  ee_db_error :: "store_error \<Rightarrow> string"
  ee_shutdown :: bool

section \<open>Helpers\<close>

text \<open>\<open>strings.Cut(targetName, "/")\<close>: the site and the target id.\<close>

definition cut_target :: "string \<Rightarrow> string \<times> string" where
  "cut_target name = (case Cut (CHR ''/'') name of Some p \<Rightarrow> p | None \<Rightarrow> (name, []))"

text \<open>The literal map of \<open>payloadFor\<close>; a missing kind gives the empty string.\<close>

definition payloadField_exec :: "string \<Rightarrow> string" where
  "payloadField_exec kind =
     (case map_of [(''gate-model'', ''gateModel''), (''analog-hamiltonian'', ''analogHamiltonian''),
                   (''annealing'', ''annealing''), (''pulse'', ''pulse''), (''logical'', ''logical'')] kind of
        Some f \<Rightarrow> f | None \<Rightarrow> [])"

definition payloadFor :: "exec_env \<Rightarrow> obj \<Rightarrow> obj + (payload \<times> nat)" where
  "payloadFor env doc =
     (let workload = docPath doc [''spec'', ''workload''];
          modality = docPath workload [payloadField_exec (str_or workload ''kind'')];
          program = docPath modality [''program''];
          shots = (case get_num modality ''shots'' of Some s \<Rightarrow> to_uint64 s | None \<Rightarrow> 0);
          uri = str_or program ''source'';
          inline = str_or program ''inline''
      in if uri \<noteq> []
         then Inl [(''category'', JStr ''INVALID_PROGRAM''), (''retriable'', JBool False),
                   (''vendorMessage'', JStr (''program.source URIs are not resolvable in this deployment (got '' @
                      quote uri @ ''); inline the program''))]
         else
           (case b64_DecodeString inline of
              None \<Rightarrow> Inl [(''category'', JStr ''INVALID_PROGRAM''), (''retriable'', JBool False),
                           (''vendorMessage'', JStr (''program.inline is not valid base64: '' @ ee_b64_error env inline))]
            | Some raw \<Rightarrow> Inr (\<lparr>pl_Format = str_or program ''format'', pl_Inline = raw\<rparr>, shots)))"

fun errorToMap :: "ErrorDetail option \<Rightarrow> obj" where
  "errorToMap None = [(''category'', JStr ''VENDOR_ERROR''), (''retriable'', JBool False),
     (''vendorMessage'', JStr ''adapter reported failure without ErrorDetail'')]"
| "errorToMap (Some e) = [(''category'', JStr (ed_Category e)), (''retriable'', JBool (ed_Retriable e)),
     (''vendorCode'', JStr (ed_VendorCode e)), (''vendorMessage'', JStr (ed_VendorMessage e))]"

text \<open>\<open>base64.StdEncoding.EncodeToString\<close>.\<close>

definition b64_char :: "nat \<Rightarrow> char" where
  "b64_char n = (if n < 26 then char_of (n + 65) else if n < 52 then char_of (n + 71)
     else if n < 62 then char_of (n - 4) else if n = 62 then CHR ''+'' else CHR ''/'')"

fun b64_Encode :: "string \<Rightarrow> string" where
  "b64_Encode [] = []"
| "b64_Encode [a] = [b64_char (code a div 4), b64_char (code a mod 4 * 16), CHR ''='', CHR ''='']"
| "b64_Encode [a, b] = [b64_char (code a div 4), b64_char (code a mod 4 * 16 + code b div 16),
     b64_char (code b mod 16 * 4), CHR ''='']"
| "b64_Encode (a # b # c # r) = [b64_char (code a div 4), b64_char (code a mod 4 * 16 + code b div 16),
     b64_char (code b mod 16 * 4 + code c div 64), b64_char (code c mod 64)] @ b64_Encode r"

definition resultToMap :: "exec_env \<Rightarrow> adapter_result option \<Rightarrow> obj option" where
  "resultToMap env result =
     (case result of
        None \<Rightarrow> None
      | Some r \<Rightarrow>
          (let data = (if rs_Inline r = [] then []
                       else case ee_unmarshal env (rs_Inline r) of
                              Some o' \<Rightarrow> [(''data'', JObj o')]
                            | None \<Rightarrow> [(''inlineBase64'', JStr (b64_Encode (rs_Inline r)))]);
               uri = (if rs_Uri r = [] then [] else [(''uri'', JStr (rs_Uri r))])
           in Some ([(''format'', JStr (rs_Format r))] @ data @ uri)))"

text \<open>\<open>out[unit] += amount\<close> over the records.\<close>

fun usage_add :: "(string \<times> float64) list \<Rightarrow> (string \<times> float64) list \<Rightarrow> (string \<times> float64) list" where
  "usage_add out [] = out"
| "usage_add out ((u, a) # us) =
     usage_add (AList.update u ((case map_of out u of Some x \<Rightarrow> x | None \<Rightarrow> 0) + a) out) us"

definition usageToMap :: "(string \<times> float64) list \<Rightarrow> (string \<times> float64) list" where
  "usageToMap records = usage_add [] records"

definition usageToStatus :: "(string \<times> float64) list \<Rightarrow> json list" where
  "usageToStatus usage = map (\<lambda>(u, a). JObj [(''unit'', JStr u), (''amount'', JNum a)]) (sort_key fst usage)"

section \<open>Failing a job\<close>

definition failed_status :: "string \<Rightarrow> string \<Rightarrow> obj \<Rightarrow> obj \<Rightarrow> obj" where
  "failed_status taskID target err st =
     append_cond (set_key st ''tasks'' (JArr [JObj [(''id'', JStr taskID), (''target'', JStr target),
        (''state'', JStr ''FAILED''), (''error'', JObj err)]]))
       (cond_obj ''Failed'' ''True'' (str_or err ''category'') (str_or err ''vendorMessage''))"

definition failJob :: "time \<Rightarrow> string \<Rightarrow> string \<Rightarrow> string \<Rightarrow> obj \<Rightarrow> db \<Rightarrow> db" where
  "failJob now i taskID target err d =
     (let d1 = fst (UpdateTask now taskID [] ''FAILED'' (Some err) None d)
      in fst (TransitionJob now i Failed (Some (failed_status taskID target err)) d1))"

definition failSessionLostTask :: "time \<Rightarrow> string \<Rightarrow> string \<Rightarrow> string \<Rightarrow> string \<Rightarrow> db \<Rightarrow> db" where
  "failSessionLostTask now i taskID target msg d =
     failJob now i taskID target
       [(''category'', JStr ''SESSION_LOST''), (''retriable'', JBool True), (''message'', JStr msg)] d"

definition vendor_error :: "string \<Rightarrow> string \<Rightarrow> obj" where
  "vendor_error category msg =
     [(''category'', JStr category), (''retriable'', JBool True), (''vendorMessage'', JStr msg)]"

definition not_configured :: "string \<Rightarrow> obj" where
  "not_configured site = vendor_error ''DEVICE_OFFLINE'' (''adapter for site '' @ site @ '' is not configured'')"

section \<open>Sessions\<close>

text \<open>\<open>openSessionIfRequested\<close>; \<open>None\<close> is \<open>ok = false\<close>. A failing insertion of the session record
  (a duplicate id) fails the job; the result is the adapter's session id.\<close>

definition openSessionIfRequested ::
  "exec_env \<Rightarrow> time \<Rightarrow> string \<Rightarrow> job_record \<Rightarrow> string \<Rightarrow> string \<Rightarrow> db \<Rightarrow> db \<times> string option" where
  "openSessionIfRequested env now sid rec taskID target d =
     (case ParseJob (jr_JobID rec) (jr_Tenant rec) (jr_Doc rec) of
        Inl _ \<Rightarrow> (d, Some [])
      | Inr j \<Rightarrow>
          if jv_SessionMaxDuration j \<le> 0 \<or> jv_SessionJoin j \<noteq> [] then (d, Some [])
          else
            (let (site, targetID) = cut_target target
             in case ee_client env site of
                  None \<Rightarrow> (failJob now (jr_JobID rec) taskID target (not_configured site) d, None)
                | Some client \<Rightarrow>
                    (case ad_OpenSession client targetID (jv_SessionMaxDuration j) (jr_Tenant rec) of
                       Inl e \<Rightarrow> (failJob now (jr_JobID rec) taskID target
                                  (vendor_error ''VENDOR_ERROR'' (''OpenSession: '' @ e)) d, None)
                     | Inr h \<Rightarrow>
                         (let sess = \<lparr>ss_SessionID = sid, ss_Tenant = jr_Tenant rec, ss_Target = target,
                                      ss_AdapterSessionID = sh_SessionId h, ss_OpenedByJob = jr_JobID rec,
                                      ss_ExpiresAt = sh_ExpiresAt h, ss_ClosedAt = None, ss_CreatedAt = now\<rparr>
                          in case InsertSession now sess d of
                               (d1, Inl e) \<Rightarrow>
                                 (failJob now (jr_JobID rec) taskID target
                                    (vendor_error ''VENDOR_ERROR'' (''recording session: '' @ ee_db_error env e)) d1, None)
                             | (d1, Inr _) \<Rightarrow>
                                 (let d2 = fst (SetJobCondition now (jr_JobID rec)
                                         (cond_obj ''SessionOpened'' ''True'' ''SessionOpened''
                                            (''session '' @ sid @ '' on '' @ target)) d1)
                                  in (stampSessionID now (jr_JobID rec) sid d2, Some (sh_SessionId h)))))))"

definition sessionForExecution ::
  "exec_env \<Rightarrow> time \<Rightarrow> string \<Rightarrow> job_record \<Rightarrow> string \<Rightarrow> string \<Rightarrow> db \<Rightarrow> db \<times> string option" where
  "sessionForExecution env now sid rec taskID target d =
     (case ParseJob (jr_JobID rec) (jr_Tenant rec) (jr_Doc rec) of
        Inl _ \<Rightarrow> (d, Some [])
      | Inr j \<Rightarrow>
          if jv_SessionJoin j = [] then openSessionIfRequested env now sid rec taskID target d
          else
            (case GetSession d (jv_SessionJoin j) of
               Inl _ \<Rightarrow> (failSessionLostTask now (jr_JobID rec) taskID target
                           (''session '' @ quote (jv_SessionJoin j) @ '' not found before task submission'') d, None)
             | Inr sess \<Rightarrow>
                 if Live sess now then (d, Some (ss_AdapterSessionID sess))
                 else (failSessionLostTask now (jr_JobID rec) taskID target
                         (''session '' @ quote (jv_SessionJoin j) @ '' closed or expired before task submission'') d,
                       None)))"

section \<open>Submitting and following a task\<close>

text \<open>\<open>Following\<close> carries the record \<open>execute\<close> hands to \<open>follow\<close> and the adapter's task id; a task
  that is cancelled at the adapter because the job ended is \<open>Abandoned\<close>.\<close>

datatype exec_outcome = Stopped | Abandoned string | Following job_record string

text \<open>After the adapter accepted the task: record it, enter \<open>SUBMITTED\<close>, and if that is refused
  decide by the live phase whether to keep following (a resumed job) or to cancel at the adapter.\<close>

definition enter_submitted :: "time \<Rightarrow> job_record \<Rightarrow> string \<Rightarrow> string \<Rightarrow> db \<Rightarrow> db \<times> exec_outcome" where
  "enter_submitted now rec taskID adapterTask d =
     (let d1 = fst (UpdateTask now taskID adapterTask ''QUEUED'' None None d);
          (d2, r) = TransitionJob now (jr_JobID rec) Submitted None d1
      in (d2, case r of
                Inr _ \<Rightarrow> Following rec adapterTask
              | Inl _ \<Rightarrow>
                  (case GetJob d2 (jr_JobID rec) of
                     Inl _ \<Rightarrow> Abandoned adapterTask
                   | Inr cur \<Rightarrow> if Terminal (jr_Phase cur) then Abandoned adapterTask
                                else Following cur adapterTask)))"

definition submit_task ::
  "exec_env \<Rightarrow> adapter \<Rightarrow> time \<Rightarrow> job_record \<Rightarrow> string \<Rightarrow> string \<Rightarrow> payload \<times> nat \<Rightarrow> string \<Rightarrow> db \<Rightarrow> db \<times> exec_outcome" where
  "submit_task env client now rec taskID target ps session d =
     (case ad_SubmitTask client \<lparr>sr_TargetId = snd (cut_target target), sr_IdempotencyKey = taskID,
             sr_Payload = fst ps, sr_Shots = snd ps, sr_SessionId = session,
             sr_TenantHint = jr_Tenant rec\<rparr> of
        Inl e \<Rightarrow> (if ee_shutdown env then (d, Stopped)
                  else (failJob now (jr_JobID rec) taskID target
                     (vendor_error ''VENDOR_ERROR'' (''SubmitTask: '' @ e)) d, Stopped))
      | Inr adapterTask \<Rightarrow> enter_submitted now rec taskID adapterTask d)"

definition execute ::
  "exec_env \<Rightarrow> time \<Rightarrow> string \<Rightarrow> job_record \<Rightarrow> string \<Rightarrow> string \<Rightarrow> db \<Rightarrow> db \<times> exec_outcome" where
  "execute env now sid rec taskID target d =
     (let site = fst (cut_target target); i = jr_JobID rec
      in case ee_client env site of
           None \<Rightarrow> (failJob now i taskID target (not_configured site) d, Stopped)
         | Some client \<Rightarrow>
             (case payloadFor env (jr_Doc rec) of
                Inl err \<Rightarrow> (failJob now i taskID target err d, Stopped)
              | Inr ps \<Rightarrow>
                  (let (d1, session) = sessionForExecution env now sid rec taskID target d
                   in case session of
                        None \<Rightarrow> (d1, Stopped)
                      | Some sess \<Rightarrow> submit_task env client now rec taskID target ps sess d1)))"

text \<open>\<open>applyTaskStatus\<close>: the database, the \<open>running\<close> flag, and whether the task is finished.\<close>

definition succeeded_status :: "string \<Rightarrow> string \<Rightarrow> obj option \<Rightarrow> (string \<times> float64) list \<Rightarrow> obj \<Rightarrow> obj" where
  "succeeded_status taskID target result usage st =
     set_key (set_key st ''tasks'' (JArr [JObj [(''id'', JStr taskID), (''target'', JStr target),
        (''state'', JStr ''SUCCEEDED''), (''result'', (case result of Some r \<Rightarrow> JObj r | None \<Rightarrow> JNull))]]))
       ''usage'' (JArr (usageToStatus usage))"

definition applyTaskStatus ::
  "exec_env \<Rightarrow> time \<Rightarrow> job_record \<Rightarrow> string \<Rightarrow> string \<Rightarrow> string \<Rightarrow> TaskStatus \<Rightarrow> bool \<Rightarrow> db \<Rightarrow> db \<times> bool \<times> bool" where
  "applyTaskStatus env now rec taskID target adapterTask status running d =
     (let i = jr_JobID rec
      in case ts_State status of
           TSRunning \<Rightarrow>
             (if running then (d, True, False)
              else
                (let d1 = fst (UpdateTask now taskID adapterTask ''RUNNING'' None None d)
                 in case TransitionJob now i Running None d1 of
                      (d2, Inr _) \<Rightarrow> (d2, True, False)
                    | (d2, Inl _) \<Rightarrow>
                        (case GetJob d2 i of
                           Inl _ \<Rightarrow> (d2, True, True)
                         | Inr cur \<Rightarrow> (d2, True, Terminal (jr_Phase cur)))))
         | TSSucceeded \<Rightarrow>
             (let d1 = fst (TransitionJob now i Running None d);
                  result = resultToMap env (ts_Result status);
                  d2 = fst (UpdateTask now taskID adapterTask ''SUCCEEDED'' None result d1);
                  usage = usageToMap (ts_Usage status);
                  d3 = RecordUsage now i taskID (jr_Tenant rec) target usage d2
              in (fst (TransitionJob now i Succeeded (Some (succeeded_status taskID target result usage)) d3),
                  running, True))
         | TSFailed \<Rightarrow>
             (let err = errorToMap (ts_Error status);
                  d1 = fst (UpdateTask now taskID adapterTask ''FAILED'' (Some err) None d)
              in (failJob now i taskID target err d1, running, True))
         | TSCancelled \<Rightarrow>
             (let d1 = fst (UpdateTask now taskID adapterTask ''CANCELLED'' None None d)
              in (fst (TransitionJob now i Cancelled (Some (\<lambda>st. append_cond st
                     (cond_obj ''Cancelled'' ''True'' ''AdapterCancelled'' ''task cancelled at the adapter''))) d1),
                  running, True))
         | _ \<Rightarrow> (d, running, False))"

text \<open>
  \<open>follow\<close> over the statuses the watch streams deliver, one after another across reconnects; it
  stops at the first terminal one. The flag says whether it stopped.
\<close>

fun follow ::
  "exec_env \<Rightarrow> time \<Rightarrow> job_record \<Rightarrow> string \<Rightarrow> string \<Rightarrow> string \<Rightarrow> TaskStatus list \<Rightarrow> bool \<Rightarrow> db \<Rightarrow> db \<times> bool" where
  "follow env now rec taskID target adapterTask [] running d = (d, False)"
| "follow env now rec taskID target adapterTask (s # ss) running d =
     (case applyTaskStatus env now rec taskID target adapterTask s running d of
        (d1, running', terminal) \<Rightarrow>
          if terminal then (d1, True)
          else follow env now rec taskID target adapterTask ss running' d1)"

text \<open>The goroutine of \<open>startExecutor\<close>: execute, then follow.\<close>

definition run_executor ::
  "exec_env \<Rightarrow> time \<Rightarrow> string \<Rightarrow> job_record \<Rightarrow> string \<Rightarrow> string \<Rightarrow> TaskStatus list \<Rightarrow> db \<Rightarrow> db" where
  "run_executor env now sid rec taskID target statuses d =
     (case execute env now sid rec taskID target d of
        (d1, Following rec' a) \<Rightarrow> fst (follow env now rec' taskID target a statuses False d1)
      | (d1, _) \<Rightarrow> d1)"

text \<open>\<open>CancelJob\<close> of the dispatcher: the adapter task to cancel, if any; the database is only read.\<close>

definition CancelJob_adapter :: "exec_env \<Rightarrow> db \<Rightarrow> string \<Rightarrow> (string \<times> string) option" where
  "CancelJob_adapter env d i =
     (case TaskForJob d i of
        Inl _ \<Rightarrow> None
      | Inr t \<Rightarrow>
          (case tk_AdapterTaskID t of
             None \<Rightarrow> None
           | Some a \<Rightarrow>
               (let (site, targetID) = cut_target (tk_Target t)
                in if a = [] \<or> ee_client env site = None then None else Some (targetID, a))))"

section \<open>Every change is a run of store transactions\<close>

lemma run_failJob: "store_run d (failJob now i taskID target err d)"
  unfolding failJob_def Let_def by (rule run_trans[OF store_runs(1) run_transition]) simp

lemma run_failSessionLostTask: "store_run d (failSessionLostTask now i taskID target msg d)"
  by (simp add: failSessionLostTask_def run_failJob)

lemma run_openSession: "store_run d (fst (openSessionIfRequested env now sid rec taskID target d))"
proof -
  have ins: "store_run d (fst (InsertSession now s d))" for s by (rule store_runs(4))
  have c: "store_run d (failJob now i taskID target err (fst (InsertSession now s d)))" for i err s
    by (rule run_trans[OF ins run_failJob])
  have o: "store_run d (stampSessionID now i x (fst (SetJobCondition now i c (fst (InsertSession now s d)))))" for i x c s
    by (rule run_trans[OF run_trans[OF ins store_runs(2)] store_runs(5)])
  show ?thesis
    unfolding openSessionIfRequested_def Let_def
    by (auto simp: run_failJob split: sum.splits prod.splits option.splits)
      (metis c fst_conv, metis o fst_conv)
qed

lemma run_sessionForExecution: "store_run d (fst (sessionForExecution env now sid rec taskID target d))"
  by (auto simp: sessionForExecution_def run_failSessionLostTask run_openSession split: sum.splits)

lemma run_submit_task: "store_run d (fst (submit_task env client now rec taskID target ps sess d))"
proof -
  have "store_run d (fst (enter_submitted now rec taskID a d))" for a
    unfolding enter_submitted_def Let_def split_beta fst_conv
    by (rule run_trans[OF store_runs(1) run_transition]) simp
  then show ?thesis by (simp add: submit_task_def run_failJob split: sum.splits)
qed

lemma run_execute: "store_run d (fst (execute env now sid rec taskID target d))"
  using run_trans[OF run_sessionForExecution run_submit_task]
  by (simp add: execute_def Let_def split_beta run_failJob run_sessionForExecution split: option.splits sum.splits)

lemma run_applyTaskStatus:
  "store_run d (fst (applyTaskStatus env now rec taskID target adapterTask status running d))"
proof -
  let ?i = "jr_JobID rec"
  have run: "store_run d (fst (TransitionJob now ?i Running None (fst (UpdateTask now taskID adapterTask s e r d))))" for s e r
    by (rule run_trans[OF store_runs(1) run_transition]) simp
  have fail: "store_run d (failJob now ?i taskID target err (fst (UpdateTask now taskID adapterTask s e r d)))" for err s e r
    by (rule run_trans[OF store_runs(1) run_failJob])
  have canc: "store_run d (fst (TransitionJob now ?i Cancelled m (fst (UpdateTask now taskID adapterTask s e r d))))" for m s e r
    by (rule run_trans[OF store_runs(1) run_transition]) simp
  have succ: "store_run d (fst (TransitionJob now ?i Succeeded m (RecordUsage now ?i taskID te target us
      (fst (UpdateTask now taskID adapterTask s e r (fst (TransitionJob now ?i Running None d)))))))" for m te us s e r
    by (rule run_trans[OF run_trans[OF run_trans[OF run_transition store_runs(1)] store_runs(3)] run_transition]) simp_all
  show ?thesis
  proof (cases "ts_State status")
    case TSRunning
    with run show ?thesis
      by (auto simp: applyTaskStatus_def Let_def split: prod.splits sum.splits) (metis fst_conv)+
  qed (use fail canc succ in \<open>simp_all add: applyTaskStatus_def Let_def\<close>)
qed

lemma run_follow: "store_run d (fst (follow env now rec taskID target adapterTask ss running d))"
proof (induction env now rec taskID target adapterTask ss running d rule: follow.induct)
  case (2 env now rec taskID target adapterTask s ss running d)
  obtain d1 r t where eq: "applyTaskStatus env now rec taskID target adapterTask s running d = (d1, r, t)"
    by (metis prod_cases3)
  then have "store_run d d1" using run_applyTaskStatus by (metis fst_conv)
  with 2[OF eq[symmetric]] eq show ?case by (auto intro: run_trans)
qed simp

lemma run_run_executor: "store_run d (run_executor env now sid rec taskID target statuses d)"
  using run_execute[of d env now sid rec taskID target]
  by (auto simp: run_executor_def intro: run_trans[OF _ run_follow] split: prod.splits exec_outcome.splits)

section \<open>Effects\<close>

lemma phase_of_UpdateTask [simp]: "phase_of (fst (UpdateTask now t a s e r d)) = phase_of d"
  by (simp add: phase_of_def fun_eq_iff)

lemma phase_of_RecordUsage [simp]: "phase_of (RecordUsage now i t te g us d) = phase_of d"
  by (simp add: phase_of_def fun_eq_iff)

lemma phase_of_failJob:
  "phase_of (failJob now i taskID target err d) k =
     (if k = i \<and> (\<exists>p. phase_of d i = Some p \<and> CanTransition p Failed) then Some Failed else phase_of d k)"
  unfolding failJob_def Let_def phase_of_TransitionJob phase_of_UpdateTask ..

text \<open>A phase from which a followed job can finish.\<close>

definition followed :: "phase \<Rightarrow> bool" where
  "followed p \<longleftrightarrow> p \<in> {Submitted, Running} \<or> Terminal p"

lemma GetJob_phase: "phase_of d i = Some p \<Longrightarrow> \<exists>r. GetJob d i = Inr r \<and> jr_Phase r = p"
  by (auto simp: phase_of_def GetJob_def)

lemma applyTaskStatus_phase:
  assumes "phase_of d (jr_JobID rec) = Some p" and "followed p"
    and "applyTaskStatus env now rec taskID target a st running d = (d', running', fin)"
  shows "\<exists>q. phase_of d' (jr_JobID rec) = Some q \<and> followed q \<and>
    (fin \<longrightarrow> Terminal q) \<and> (ts_State st \<in> {TSSucceeded, TSFailed, TSCancelled} \<longrightarrow> fin)"
proof (cases "ts_State st")
  case TSRunning
  let ?d1 = "fst (UpdateTask now taskID a ''RUNNING'' None None d)"
  obtain d2 r where t: "TransitionJob now (jr_JobID rec) Running None ?d1 = (d2, r)" by force
  have ph: "phase_of d2 (jr_JobID rec) = (if p = Submitted then Some Running else Some p)"
    using phase_of_TransitionJob[of now "jr_JobID rec" Running None ?d1 "jr_JobID rec"] t assms(1)
    by (auto simp: CanTransition_to)
  from ph obtain c where c: "GetJob d2 (jr_JobID rec) = Inr c"
    "jr_Phase c = (if p = Submitted then Running else p)"
    using GetJob_phase[of d2 "jr_JobID rec"] by (auto split: if_splits)
  show ?thesis
    using assms TSRunning t ph c
    by (auto simp: applyTaskStatus_def Let_def followed_def split: if_splits sum.splits)
qed (use assms in \<open>auto simp: applyTaskStatus_def Let_def phase_of_TransitionJob phase_of_failJob
      CanTransition_to followed_def Terminal_iff split: if_splits\<close>)

lemma follow_phase:
  assumes "phase_of d (jr_JobID rec) = Some p" and "followed p"
    and "\<exists>s \<in> set ss. ts_State s \<in> {TSSucceeded, TSFailed, TSCancelled}"
  shows "snd (follow env now rec taskID target a ss running d) \<and>
    (\<exists>q. phase_of (fst (follow env now rec taskID target a ss running d)) (jr_JobID rec) = Some q \<and> Terminal q)"
  using assms
proof (induction ss arbitrary: running d p)
  case (Cons s ss)
  obtain d1 r t where eq: "applyTaskStatus env now rec taskID target a s running d = (d1, r, t)"
    by (metis prod_cases3)
  from applyTaskStatus_phase[OF Cons.prems(1,2) eq] obtain q where q: "phase_of d1 (jr_JobID rec) = Some q"
    "followed q" "t \<Longrightarrow> Terminal q" "ts_State s \<in> {TSSucceeded, TSFailed, TSCancelled} \<Longrightarrow> t" by blast
  show ?case
  proof (cases t)
    case True
    with eq q show ?thesis by simp
  next
    case False
    with q(4) Cons.prems(3) have "\<exists>s \<in> set ss. ts_State s \<in> {TSSucceeded, TSFailed, TSCancelled}" by auto
    from Cons.IH[OF q(1,2) this] False eq show ?thesis by simp
  qed
qed simp

section \<open>Usage and reconciliation\<close>

lemma usage_add_distinct: "distinct (map fst out) \<Longrightarrow> distinct (map fst (usage_add out us))"
  by (induction out us rule: usage_add.induct) (auto simp: distinct_update)

lemma usageToMap_distinct: "distinct (map fst (usageToMap us))"
  by (simp add: usageToMap_def usage_add_distinct)

text \<open>Each unit's entry is the sum of the adapter's records of that unit.\<close>

lemma usage_add_total:
  "(case map_of (usage_add out us) u of Some x \<Rightarrow> x | None \<Rightarrow> 0) =
   (case map_of out u of Some x \<Rightarrow> x | None \<Rightarrow> 0) + sum_list (map snd (filter (\<lambda>r. fst r = u) us))"
  by (induction out us rule: usage_add.induct) (auto simp: update_conv')

lemma ledger_total_insert:
  assumes "\<not> tbl_has ledger_key (taskID, fst ua) (usage_ledger d)"
  shows "ledger_total (insert_usage now i taskID tenant target ua d) i u =
    ledger_total d i u + (if fst ua = u then snd ua else 0)"
  using assms by (simp add: ledger_total_def insert_usage_def Let_def)

lemma ledger_total_RecordUsage:
  assumes "distinct (map fst us)" and "\<forall>u \<in> fst ` set us. \<not> tbl_has ledger_key (taskID, u) (usage_ledger d)"
  shows "ledger_total (RecordUsage now i taskID tenant target us d) i u =
    ledger_total d i u + (case map_of us u of Some a \<Rightarrow> a | None \<Rightarrow> 0)"
  using assms unfolding RecordUsage_def
proof (induction us arbitrary: d)
  case (Cons ua us)
  let ?d = "insert_usage now i taskID tenant target ua d"
  have "\<forall>v \<in> fst ` set us. \<not> tbl_has ledger_key (taskID, v) (usage_ledger ?d)"
    using Cons.prems by (auto simp: insert_usage_has rev_image_eqI)
  moreover have "map_of us (fst ua) = None" using Cons.prems(1) by (simp add: map_of_eq_None_iff)
  ultimately show ?case
    using Cons.IH[of ?d] Cons.prems ledger_total_insert[of taskID ua d now i tenant target u]
    by (cases ua) (auto split: option.splits)
qed simp

end
