(* ===== verification/Cycle_Ring.thy ===== *)
theory Cycle_Ring
  imports Rabi_Prelude
begin

text \<open>
  The latency ring buffer of \<open>internal/dispatch/metrics.go\<close>. Its abstraction is the list of all
  samples ever recorded: the ring holds the most recent ones, as many as it has slots, and the
  percentiles are order statistics of exactly those.
\<close>

section \<open>Definitions\<close>

record cycleRing =
  cr_buf :: "duration list"
  cr_next :: nat
  cr_count :: nat
  cr_total :: int

definition newCycleRing :: "int \<Rightarrow> cycleRing" where
  "newCycleRing sz =
     (let n = (if sz \<le> 0 then 8192 else nat sz)
      in \<lparr>cr_buf = replicate n 0, cr_next = 0, cr_count = 0, cr_total = 0\<rparr>)"

definition ring_record :: "duration \<Rightarrow> cycleRing \<Rightarrow> cycleRing" where
  "ring_record d c = c\<lparr>
     cr_buf := (cr_buf c)[cr_next c := d],
     cr_next := (cr_next c + 1) mod length (cr_buf c),
     cr_count := (if cr_count c < length (cr_buf c) then cr_count c + 1 else cr_count c),
     cr_total := cr_total c + 1\<rparr>"

text \<open>The nearest-rank index, clamped to the live samples.\<close>

definition rank_of :: "float64 \<Rightarrow> nat \<Rightarrow> nat" where
  "rank_of q n = (let r = trunc (q * real n + 999999 / 1000000) in nat (min (int n) (max 1 r)))"

definition percentile :: "float64 \<Rightarrow> cycleRing \<Rightarrow> duration" where
  "percentile q c =
     (let live = sort (take (cr_count c) (cr_buf c))
      in if live = [] then 0
         else if q \<le> 0 then live ! 0
         else if q \<ge> 1 then live ! (length live - 1)
         else live ! (rank_of q (length live) - 1))"

definition lifetime :: "cycleRing \<Rightarrow> int" where
  "lifetime c = cr_total c"

definition CycleP50 :: "cycleRing \<Rightarrow> duration" where "CycleP50 c = percentile (50 / 100) c"
definition CycleP99 :: "cycleRing \<Rightarrow> duration" where "CycleP99 c = percentile (99 / 100) c"
definition CycleMax :: "cycleRing \<Rightarrow> duration" where "CycleMax c = percentile 1 c"
definition CycleCount :: "cycleRing \<Rightarrow> int" where "CycleCount c = lifetime c"

section \<open>The ring holds the latest samples\<close>

text \<open>The buffer is what was written since the last wrap, then what is left from before.\<close>

definition ring_of :: "cycleRing \<Rightarrow> duration list \<Rightarrow> bool" where
  "ring_of c xs \<longleftrightarrow> cr_total c = int (length xs) \<and> cr_next c < length (cr_buf c) \<and>
     (\<exists>nw od. cr_buf c = nw @ od \<and> length nw = cr_next c \<and>
        (if length xs < length (cr_buf c) then cr_count c = length xs \<and> nw = xs
         else cr_count c = length (cr_buf c) \<and> suffix (od @ nw) xs))"

lemma ring_of_new: "ring_of (newCycleRing sz) []"
  by (simp add: ring_of_def newCycleRing_def Let_def)

lemma ring_of_record:
  assumes "ring_of c xs"
  shows "ring_of (ring_record d c) (xs @ [d])"
proof -
  let ?n = "length (cr_buf c)"
  from assms obtain nw od where buf: "cr_buf c = nw @ od" "length nw = cr_next c"
    and mode: "if length xs < ?n then cr_count c = length xs \<and> nw = xs
      else cr_count c = ?n \<and> suffix (od @ nw) xs"
    and tot: "cr_total c = int (length xs)" "cr_next c < ?n"
    by (auto simp: ring_of_def)
  from buf tot(2) obtain e os where od: "od = e # os" by (cases od) auto
  have upd: "(cr_buf c)[cr_next c := d] = (nw @ [d]) @ os"
    using buf od by (simp add: list_update_append)
  have len: "?n = Suc (length nw + length os)" using buf od by simp
  have suf: "suffix (os @ nw @ [d]) (xs @ [d])" if "suffix (od @ nw) xs"
    using that od by (auto simp: suffix_def)
  have start: "suffix (os @ nw @ [d]) (xs @ [d])" if "nw = xs" "os = []"
    using that by simp
  show ?thesis
  proof (cases "os = []")
    case True
    then have "cr_next (ring_record d c) = 0" using len buf(2) by (simp add: ring_record_def)
    moreover have "suffix ((nw @ [d]) @ []) (xs @ [d])" using True mode suf start by (auto split: if_splits)
    ultimately show ?thesis
      unfolding ring_of_def using True upd len mode tot buf(2)
      by (intro conjI exI[of _ "[]"] exI[of _ "nw @ [d]"])
        (auto simp: ring_record_def split: if_splits)
  next
    case False
    then have "cr_next (ring_record d c) = length (nw @ [d])" using len buf(2) by (simp add: ring_record_def)
    then show ?thesis
      unfolding ring_of_def using False upd len mode tot buf(2) suf
      by (intro conjI exI[of _ "nw @ [d]"] exI[of _ os])
        (auto simp: ring_record_def Suc_lessI split: if_splits)
  qed
qed

definition last_n :: "nat \<Rightarrow> 'a list \<Rightarrow> 'a list" where
  "last_n n xs = drop (length xs - n) xs"

lemma ring_live:
  assumes "ring_of c xs"
  shows "mset (take (cr_count c) (cr_buf c)) = mset (last_n (length (cr_buf c)) xs)"
proof -
  from assms obtain nw od where buf: "cr_buf c = nw @ od" "length nw = cr_next c"
    and mode: "if length xs < length (cr_buf c) then cr_count c = length xs \<and> nw = xs
      else cr_count c = length (cr_buf c) \<and> suffix (od @ nw) xs"
    by (auto simp: ring_of_def)
  show ?thesis
  proof (cases "length xs < length (cr_buf c)")
    case True
    with mode buf show ?thesis by (simp add: last_n_def)
  next
    case False
    with mode obtain zs where xs: "xs = zs @ od @ nw" by (auto simp: suffix_def)
    have "last_n (length (cr_buf c)) xs = od @ nw" unfolding xs by (simp add: last_n_def buf(1))
    with False mode show ?thesis by (simp add: buf(1))
  qed
qed

section \<open>Percentiles\<close>

lemma rank_of_bounds: "0 < n \<Longrightarrow> 1 \<le> rank_of q n \<and> rank_of q n \<le> n"
  by (auto simp: rank_of_def Let_def)

lemma rank_of_mono: "q \<le> q' \<Longrightarrow> rank_of q n \<le> rank_of q' n"
proof -
  assume "q \<le> q'"
  then have "q * real n \<le> q' * real n" by (simp add: mult_right_mono)
  then have "trunc (q * real n + 999999 / 1000000) \<le> trunc (q' * real n + 999999 / 1000000)"
    by (auto simp: trunc_def floor_mono intro: order_trans[of _ 0])
  then show ?thesis by (auto simp: rank_of_def Let_def)
qed

text \<open>The index \<open>percentile\<close> reads; it is never out of range.\<close>

definition pct_index :: "float64 \<Rightarrow> nat \<Rightarrow> nat" where
  "pct_index q n = (if q \<le> 0 then 0 else if q \<ge> 1 then n - 1 else rank_of q n - 1)"

lemma pct_index_bound: "0 < n \<Longrightarrow> pct_index q n < n"
  using rank_of_bounds[of n q] by (auto simp: pct_index_def)

lemma pct_index_mono: "0 < n \<Longrightarrow> q \<le> q' \<Longrightarrow> pct_index q n \<le> pct_index q' n"
  using rank_of_bounds[of n q] rank_of_bounds[of n q'] rank_of_mono[of q q' n] by (auto simp: pct_index_def)

lemma percentile_nth:
  assumes "take (cr_count c) (cr_buf c) \<noteq> []"
  shows "percentile q c = sort (take (cr_count c) (cr_buf c)) ! pct_index q (length (take (cr_count c) (cr_buf c)))"
proof -
  have "sort (take (cr_count c) (cr_buf c)) \<noteq> []" using assms by (metis mset_sort mset_zero_iff)
  then show ?thesis by (simp add: percentile_def Let_def pct_index_def)
qed

end
