(* ===== verification/Registry.thy ===== *)
theory Registry
  imports Scheduling
begin

text \<open>
  The fleet registry of \<open>internal/registry/registry.go\<close> and its conversion into scheduler views
  (\<open>entryToView\<close>, \<open>fleetViews\<close> of the dispatcher). Adapters answer through a record of functions per
  site; entries are keyed by the fleet-scoped name \<open>site/target\<close>. The gRPC connection and the
  protobuf-to-JSON encoding of the API view are parameters.
\<close>

section \<open>Adapter messages and entries\<close>

record TargetInfo =
  ti_TargetId :: string
  ti_Modality :: string
  ti_Technology :: string

record Capabilities =
  ca_NumQubits :: nat
  ca_ProgramFormats :: "string list"
  ca_MaxShots :: nat
  ca_BillingUnits :: "string list"
  ca_VendorExtensions :: "(string \<times> string) list"
  ca_CloudQueue :: bool

datatype device_status = DSUnspecified | DSOnline | DSCalibrating | DSMaintenance | DSDegraded | DSOffline

record Calibration =
  cs_SnapshotId :: string
  cs_MeasuredAt :: "time option"
  cs_Metrics :: "Metric list"

text \<open>The wait is a protobuf duration in nanoseconds.\<close>

record DeviceState =
  ds_Status :: device_status
  ds_QueueDepth :: nat
  ds_EstimatedWait :: duration
  ds_Calibration :: "Calibration option"
  ds_Maintenance :: "Window list"

record Entry =
  en_Name :: string
  en_Site :: string
  en_TargetID :: string
  en_Info :: TargetInfo
  en_Caps :: Capabilities
  en_State :: "DeviceState option"
  en_StateAt :: time

text \<open>What one adapter answers; \<open>None\<close> is an error or a timeout.\<close>

record site_client =
  sc_ListTargets :: "TargetInfo list option"
  sc_GetCapabilities :: "string \<Rightarrow> Capabilities option"
  sc_GetDeviceState :: "string \<Rightarrow> DeviceState option"

record registry =
  rg_sites :: "(string \<times> string) list"
  rg_entries :: "(string \<times> Entry) list"

definition new_registry :: registry where
  "new_registry = \<lparr>rg_sites = [], rg_entries = []\<rparr>"

section \<open>Configuration\<close>

text \<open>\<open>NewFromSpec\<close>: \<open>dial addr\<close> says whether the gRPC client can be created for the address.\<close>

datatype spec_error = MalformedSpec string | DialError string string

fun parse_sites ::
  "(string \<Rightarrow> bool) \<Rightarrow> string list \<Rightarrow> (string \<times> string) list \<Rightarrow> spec_error + (string \<times> string) list" where
  "parse_sites dial [] sites = Inr sites"
| "parse_sites dial (part # parts) sites =
     (case Cut (CHR ''='') (TrimSpace part) of
        None \<Rightarrow> Inl (MalformedSpec part)
      | Some (name, addr) \<Rightarrow>
          if name = [] \<or> addr = [] then Inl (MalformedSpec part)
          else if \<not> dial addr then Inl (DialError name addr)
          else parse_sites dial parts (AList.update name addr sites))"

definition NewFromSpec :: "(string \<Rightarrow> bool) \<Rightarrow> string \<Rightarrow> spec_error + registry" where
  "NewFromSpec dial spec =
     (if TrimSpace spec = [] then Inr new_registry
      else (case parse_sites dial (Split (CHR '','') spec) [] of
              Inl e \<Rightarrow> Inl e
            | Inr sites \<Rightarrow> Inr (new_registry\<lparr>rg_sites := sites\<rparr>)))"

section \<open>Discovery and polling\<close>

definition fleet_name :: "string \<Rightarrow> string \<Rightarrow> string" where
  "fleet_name site target = site @ ''/'' @ target"

definition register_target :: "string \<Rightarrow> site_client \<Rightarrow> TargetInfo \<Rightarrow> (string \<times> Entry) list \<Rightarrow> (string \<times> Entry) list" where
  "register_target site client info entries =
     (case sc_GetCapabilities client (ti_TargetId info) of
        None \<Rightarrow> entries
      | Some caps \<Rightarrow>
          (let name = fleet_name site (ti_TargetId info)
           in case map_of entries name of
                None \<Rightarrow> AList.update name \<lparr>en_Name = name, en_Site = site, en_TargetID = ti_TargetId info,
                          en_Info = info, en_Caps = caps, en_State = None, en_StateAt = zero_time\<rparr> entries
              | Some e \<Rightarrow> AList.update name (e\<lparr>en_Info := info, en_Caps := caps\<rparr>) entries))"

definition discover_site :: "(string \<Rightarrow> site_client) \<Rightarrow> string \<times> string \<Rightarrow> (string \<times> Entry) list \<Rightarrow> (string \<times> Entry) list" where
  "discover_site clients s entries =
     (case sc_ListTargets (clients (fst s)) of
        None \<Rightarrow> entries
      | Some infos \<Rightarrow> fold (register_target (fst s) (clients (fst s))) infos entries)"

definition discover :: "(string \<Rightarrow> site_client) \<Rightarrow> registry \<Rightarrow> registry" where
  "discover clients r = r\<lparr>rg_entries := fold (discover_site clients) (rg_sites r) (rg_entries r)\<rparr>"

definition siteFor :: "registry \<Rightarrow> string \<Rightarrow> string option" where
  "siteFor r name = map_of (rg_sites r) name"

definition Entries :: "registry \<Rightarrow> Entry list" where
  "Entries r = sort_key en_Name (map snd (rg_entries r))"

definition poll_entry :: "(string \<Rightarrow> site_client) \<Rightarrow> time \<Rightarrow> Entry \<Rightarrow> registry \<Rightarrow> registry" where
  "poll_entry clients now e r =
     (if siteFor r (en_Site e) = None then r
      else
        (case sc_GetDeviceState (clients (en_Site e)) (en_TargetID e) of
           None \<Rightarrow> r
         | Some st \<Rightarrow>
             (case map_of (rg_entries r) (en_Name e) of
                None \<Rightarrow> r
              | Some x \<Rightarrow> r\<lparr>rg_entries := AList.update (en_Name e) (x\<lparr>en_State := Some st, en_StateAt := now\<rparr>) (rg_entries r)\<rparr>)))"

definition poll :: "(string \<Rightarrow> site_client) \<Rightarrow> time \<Rightarrow> registry \<Rightarrow> registry" where
  "poll clients now r = fold (poll_entry clients now) (Entries r) r"

section \<open>Reading\<close>

definition get_Entry :: "registry \<Rightarrow> string \<Rightarrow> Entry option" where
  "get_Entry r name = map_of (rg_entries r) name"

text \<open>\<open>encode\<close> stands for \<open>entryToAPI\<close>, which renders the protobuf messages as JSON structs.\<close>

fun ListTargets_loop :: "(Entry \<Rightarrow> 'e + 'api) \<Rightarrow> string \<Rightarrow> Entry list \<Rightarrow> 'e + 'api list" where
  "ListTargets_loop encode modality [] = Inr []"
| "ListTargets_loop encode modality (e # es) =
     (if modality \<noteq> [] \<and> ti_Modality (en_Info e) \<noteq> modality then ListTargets_loop encode modality es
      else
        (case encode e of
           Inl err \<Rightarrow> Inl err
         | Inr t \<Rightarrow> (case ListTargets_loop encode modality es of Inl err \<Rightarrow> Inl err | Inr ts \<Rightarrow> Inr (t # ts))))"

definition ListTargets :: "(Entry \<Rightarrow> 'e + 'api) \<Rightarrow> registry \<Rightarrow> string \<Rightarrow> 'e + 'api list" where
  "ListTargets encode r modality = ListTargets_loop encode modality (Entries r)"

definition GetTarget :: "(Entry \<Rightarrow> 'e + 'api) \<Rightarrow> registry \<Rightarrow> string \<Rightarrow> 'e + 'api option" where
  "GetTarget encode r name =
     (case get_Entry r name of
        None \<Rightarrow> Inr None
      | Some e \<Rightarrow> (case encode e of Inl err \<Rightarrow> Inl err | Inr t \<Rightarrow> Inr (Some t)))"

record FleetView =
  fl_ProgramFormats :: "string list"
  fl_BillingUnits :: "string list"

definition get_FleetView :: "registry \<Rightarrow> FleetView" where
  "get_FleetView r = \<lparr>
     fl_ProgramFormats = remdups (concat (map (\<lambda>e. ca_ProgramFormats (en_Caps e)) (Entries r))),
     fl_BillingUnits = remdups (concat (map (\<lambda>e. ca_BillingUnits (en_Caps e)) (Entries r)))\<rparr>"

definition status_of :: "Entry \<Rightarrow> device_status" where
  "status_of e = (case en_State e of Some s \<Rightarrow> ds_Status s | None \<Rightarrow> DSUnspecified)"

definition OnlineGateModelTargets :: "registry \<Rightarrow> string list" where
  "OnlineGateModelTargets r = sort (map en_Name
     (filter (\<lambda>e. ti_Modality (en_Info e) = ''gate-model'' \<and> status_of e = DSOnline) (Entries r)))"

section \<open>Scheduler views\<close>

definition ext_of :: "Entry \<Rightarrow> string \<Rightarrow> string" where
  "ext_of e k = (case map_of (ca_VendorExtensions (en_Caps e)) k of Some v \<Rightarrow> v | None \<Rightarrow> [])"

definition static_view :: "Entry \<Rightarrow> TargetView" where
  "static_view e =
     (let tech = ti_Technology (en_Info e)
      in \<lparr>tv_Name = en_Name e, tv_Modality = ti_Modality (en_Info e),
          tv_Technology = (if tech = [] then ext_of e ''technology'' else tech),
          tv_Qubits = ca_NumQubits (en_Caps e), tv_Formats = ca_ProgramFormats (en_Caps e),
          tv_MaxShots = ca_MaxShots (en_Caps e), tv_Billing = ca_BillingUnits (en_Caps e),
          tv_Online = False, tv_Cloud = (ca_CloudQueue (en_Caps e) \<or> ext_of e ''cloud'' = ''true''),
          tv_SnapshotID = [], tv_MeasuredAt = zero_time, tv_Metrics = [], tv_QueueDepth = 0,
          tv_WaitSeconds = 0, tv_Maintenance = [],
          tv_Nominal2QError = (case ParseFloat (ext_of e ''nominal-2q-error-median'') of Some x \<Rightarrow> x | None \<Rightarrow> 0)\<rparr>)"

definition entryToView :: "Entry \<Rightarrow> TargetView" where
  "entryToView e =
     (case en_State e of
        None \<Rightarrow> static_view e
      | Some st \<Rightarrow>
          (let v = (static_view e)\<lparr>tv_Online := (ds_Status st = DSOnline), tv_QueueDepth := ds_QueueDepth st,
                 tv_WaitSeconds := real_of_int (ds_EstimatedWait st) / 1000000000,
                 tv_Maintenance := ds_Maintenance st\<rparr>
           in case ds_Calibration st of
                None \<Rightarrow> v
              | Some cal \<Rightarrow> v\<lparr>tv_SnapshotID := cs_SnapshotId cal,
                  tv_MeasuredAt := (case cs_MeasuredAt cal of Some t \<Rightarrow> t | None \<Rightarrow> zero_time),
                  tv_Metrics := cs_Metrics cal\<rparr>))"

definition fleetViews :: "registry \<Rightarrow> TargetView list" where
  "fleetViews r = map entryToView (Entries r)"

section \<open>Invariant\<close>

text \<open>Entries are keyed by their own name, which is made of their site and target id.\<close>

definition registry_ok :: "registry \<Rightarrow> bool" where
  "registry_ok r \<longleftrightarrow> distinct (map fst (rg_entries r)) \<and>
     (\<forall>(k, e) \<in> set (rg_entries r). en_Name e = k \<and> k = fleet_name (en_Site e) (en_TargetID e))"

lemma registry_ok_new: "registry_ok new_registry"
  by (simp add: registry_ok_def new_registry_def)

lemma set_update_subset: "set (AList.update k v al) \<subseteq> insert (k, v) (set al)"
  by (induction al) auto

lemma registry_ok_update:
  assumes "registry_ok r" and "en_Name e = k" and "k = fleet_name (en_Site e) (en_TargetID e)"
  shows "registry_ok (r\<lparr>rg_entries := AList.update k e (rg_entries r)\<rparr>)"
  using assms set_update_subset[of k e "rg_entries r"]
  by (fastforce simp: registry_ok_def distinct_update)

lemma registry_ok_lookup:
  "registry_ok r \<Longrightarrow> map_of (rg_entries r) k = Some e \<Longrightarrow>
   en_Name e = k \<and> k = fleet_name (en_Site e) (en_TargetID e)"
  by (fastforce simp: registry_ok_def dest: map_of_SomeD)

lemma registry_ok_register:
  assumes "registry_ok (r\<lparr>rg_entries := es\<rparr>)"
  shows "registry_ok (r\<lparr>rg_entries := register_target site client info es\<rparr>)"
proof (cases "sc_GetCapabilities client (ti_TargetId info)")
  case None
  with assms show ?thesis by (simp add: register_target_def)
next
  case (Some caps)
  show ?thesis
  proof (cases "map_of es (fleet_name site (ti_TargetId info))")
    case None
    let ?n = "fleet_name site (ti_TargetId info)"
    from Some None show ?thesis
      using registry_ok_update[OF assms, of "\<lparr>en_Name = ?n, en_Site = site, en_TargetID = ti_TargetId info,
        en_Info = info, en_Caps = caps, en_State = None, en_StateAt = zero_time\<rparr>" ?n]
      by (simp add: register_target_def Let_def)
  next
    case e: (Some e)
    with registry_ok_lookup[OF assms, of "fleet_name site (ti_TargetId info)" e]
    have "en_Name e = fleet_name site (ti_TargetId info)"
      "fleet_name site (ti_TargetId info) = fleet_name (en_Site e) (en_TargetID e)" by simp_all
    with Some e show ?thesis
      using registry_ok_update[OF assms, of "e\<lparr>en_Info := info, en_Caps := caps\<rparr>" "fleet_name site (ti_TargetId info)"]
      by (simp add: register_target_def Let_def)
  qed
qed

lemma registry_ok_register_all:
  "registry_ok (r\<lparr>rg_entries := es\<rparr>) \<Longrightarrow>
   registry_ok (r\<lparr>rg_entries := fold (register_target site client) infos es\<rparr>)"
  by (induction infos arbitrary: es) (auto intro: registry_ok_register)

lemma registry_ok_discover:
  assumes "registry_ok r"
  shows "registry_ok (discover clients r)"
proof -
  have one: "registry_ok (r\<lparr>rg_entries := es\<rparr>) \<Longrightarrow> registry_ok (r\<lparr>rg_entries := discover_site clients s es\<rparr>)" for s es
    by (simp add: discover_site_def registry_ok_register_all split: option.splits)
  have "registry_ok (r\<lparr>rg_entries := es\<rparr>) \<Longrightarrow>
      registry_ok (r\<lparr>rg_entries := fold (discover_site clients) sites es\<rparr>)" for sites es
    by (induction sites arbitrary: es) (auto intro: one)
  with assms show ?thesis by (simp add: discover_def)
qed

lemma registry_ok_poll_entry:
  assumes "registry_ok r"
  shows "registry_ok (poll_entry clients now e r)"
proof -
  have "registry_ok (r\<lparr>rg_entries := AList.update (en_Name e) (x\<lparr>en_State := Some st, en_StateAt := now\<rparr>) (rg_entries r)\<rparr>)"
    if "map_of (rg_entries r) (en_Name e) = Some x" for x st
    using registry_ok_lookup[OF assms that] by (intro registry_ok_update assms) simp_all
  with assms show ?thesis by (simp add: poll_entry_def split: option.splits)
qed

lemma registry_ok_poll: "registry_ok r \<Longrightarrow> registry_ok (poll clients now r)"
proof -
  have "registry_ok r \<Longrightarrow> registry_ok (fold (poll_entry clients now) es r)" for es r
    by (induction es arbitrary: r) (auto intro: registry_ok_poll_entry)
  then show "registry_ok r \<Longrightarrow> registry_ok (poll clients now r)" by (simp add: poll_def)
qed

text \<open>The scheduler sees distinct target names, in name order.\<close>

lemma tv_Name_entryToView [simp]: "tv_Name (entryToView e) = en_Name e"
  by (simp add: entryToView_def static_view_def Let_def split: option.splits)

lemma fleetViews_names:
  assumes "registry_ok r"
  shows "distinct (map tv_Name (fleetViews r))" "sorted (map tv_Name (fleetViews r))"
proof -
  have names: "map tv_Name (fleetViews r) = map en_Name (Entries r)" by (simp add: fleetViews_def o_def)
  have "map en_Name (map snd (rg_entries r)) = map fst (rg_entries r)"
    using assms by (auto simp: registry_ok_def)
  then have "distinct (map en_Name (map snd (rg_entries r)))"
    using assms unfolding registry_ok_def by (metis (no_types))
  then show "distinct (map tv_Name (fleetViews r))"
    unfolding names Entries_def by (metis distinct_map distinct_sort set_sort)
  show "sorted (map tv_Name (fleetViews r))" unfolding names Entries_def by simp
qed

end
