(* ===== verification/Dispatcher.thy ===== *)
theory Dispatcher
  imports Executor Fairshare Cycle_Ring Registry
begin

text \<open>
  The scheduling half of \<open>internal/dispatch\<close>: session affinity, the RFC-0003 conflict policy, shadow
  evaluation, one dispatch, one cycle, and the start of executors. The dispatcher's own state is
  the active and the shadow policies, the set of running executors and the latency ring. \<open>Lookup\<close> hands out one
  object per policy name and process, so a policy's rotation counter is kept per name and shared by all its uses; \<open>spawned\<close> lists the executors started, which run concurrently.
\<close>

section \<open>State\<close>

record dispatcher =
  dp_policy :: policy
  dp_counters :: "string \<Rightarrow> 64 word"
  dp_shadow :: "policy list"
  dp_inFlight :: "string list"
  dp_spawned :: "(job_record \<times> string \<times> string) list"
  dp_cycles :: cycleRing
  dp_db :: db

definition claimBatch :: nat where "claimBatch = 32"

definition DefaultPolicy :: string where "DefaultPolicy = ''fifo/v0''"

text \<open>What one dispatch reads from outside: the clock at the three places the code reads it, the
  database's clock, the fleet at the two places, a fresh task id, the rows locked by others,
  and the text of a parse error.\<close>

record reading =
  rd_affinity :: time
  rd_now :: time
  rd_conflict :: time
  rd_db :: time
  rd_fleet :: "TargetView list"
  rd_fleet2 :: "TargetView list"
  rd_uuid :: string
  rd_locked :: "string \<Rightarrow> bool"
  rd_error_text :: "parse_error \<Rightarrow> string"

section \<open>Construction\<close>

text \<open>\<open>New\<close>: the named policy, or the default one.\<close>

definition New ::
  "(string \<times> policy) list \<Rightarrow> (string \<rightharpoonup> policy) \<Rightarrow> db \<Rightarrow> string \<Rightarrow> (string \<rightharpoonup> policy) \<times> ((string \<times> string list) + dispatcher)" where
  "New factories singletons d policyName =
     (let name = (if policyName = [] then DefaultPolicy else policyName)
      in case Lookup factories singletons name of
           (s, Inl e) \<Rightarrow> (s, Inl e)
         | (s, Inr p) \<Rightarrow> (s, Inr \<lparr>dp_policy = p, dp_counters = (\<lambda>_. 0), dp_shadow = [], dp_inFlight = [],
                              dp_spawned = [], dp_cycles = newCycleRing 8192, dp_db = d\<rparr>))"

definition EnableShadow :: "policy list \<Rightarrow> dispatcher \<Rightarrow> dispatcher" where
  "EnableShadow ps s = s\<lparr>dp_shadow := dp_shadow s @ ps\<rparr>"

text \<open>The rotation counter of the active policy.\<close>

definition active_counter :: "dispatcher \<Rightarrow> 64 word" where
  "active_counter s = dp_counters s (po_Name (dp_policy s))"

definition set_counter :: "64 word \<Rightarrow> dispatcher \<Rightarrow> dispatcher" where
  "set_counter c s = s\<lparr>dp_counters := (dp_counters s)(po_Name (dp_policy s) := c)\<rparr>"

definition startExecutor :: "job_record \<Rightarrow> string \<Rightarrow> string \<Rightarrow> dispatcher \<Rightarrow> dispatcher" where
  "startExecutor rec taskID target s =
     (if jr_JobID rec \<in> set (dp_inFlight s) then s
      else s\<lparr>dp_inFlight := jr_JobID rec # dp_inFlight s,
             dp_spawned := dp_spawned s @ [(rec, taskID, target)]\<rparr>)"

text \<open>The deferred deletion when an executor returns.\<close>

definition executor_done :: "string \<Rightarrow> dispatcher \<Rightarrow> dispatcher" where
  "executor_done i s = s\<lparr>dp_inFlight := filter (\<lambda>k. k \<noteq> i) (dp_inFlight s)\<rparr>"

definition resume :: "dispatcher \<Rightarrow> dispatcher" where
  "resume s = fold (\<lambda>t s'. case GetJob (dp_db s') (tk_JobID t) of
      Inl _ \<Rightarrow> s' | Inr rec \<Rightarrow> startExecutor rec (tk_TaskID t) (tk_Target t) s') (ActiveTasks (dp_db s)) s"

section \<open>Sessions\<close>

definition session_lost_status :: "string \<Rightarrow> obj \<Rightarrow> obj" where
  "session_lost_status msg st =
     set_key (append_cond st (cond_obj ''SessionLost'' ''True'' ''SessionUnavailable'' msg))
       ''error'' (JObj [(''category'', JStr ''SESSION_LOST''), (''retriable'', JBool True), (''message'', JStr msg)])"

definition failSessionLost :: "time \<Rightarrow> string \<Rightarrow> string \<Rightarrow> db \<Rightarrow> db" where
  "failSessionLost now i msg d = fst (TransitionJob now i Failed (Some (session_lost_status msg)) d)"

text \<open>\<open>sessionAffinity\<close>: the database and, when the job may proceed, its view pinned to the session's
  target.\<close>

definition sessionAffinity :: "reading \<Rightarrow> job_record \<Rightarrow> JobView \<Rightarrow> db \<Rightarrow> db \<times> JobView option" where
  "sessionAffinity rd rec j d =
     (let lost = (\<lambda>msg. (failSessionLost (rd_db rd) (jr_JobID rec) msg d, None))
      in if jv_SessionJoin j = [] then (d, Some j)
         else
           (case GetSession d (jv_SessionJoin j) of
              Inl _ \<Rightarrow> lost (''session '' @ quote (jv_SessionJoin j) @ '' not found'')
            | Inr sess \<Rightarrow>
                if ss_Tenant sess \<noteq> jr_Tenant rec
                then lost (''session '' @ quote (ss_SessionID sess) @ '' belongs to project '' @ quote (ss_Tenant sess))
                else if \<not> Live sess (rd_affinity rd)
                then lost (''session '' @ quote (ss_SessionID sess) @ '' is closed or expired'')
                else (d, Some (j\<lparr>jv_RequireTargets := [ss_Target sess]\<rparr>))))"

section \<open>Conflicts\<close>

definition conflict_placement :: "Decision \<Rightarrow> FloorViolation list \<Rightarrow> time \<Rightarrow> obj" where
  "conflict_placement relaxed violations horizon =
     PlacementRecord relaxed @
     [(''onConflict'', JStr ''prefer-deadline''), (''floorsRelaxed'', JBool True),
      (''decisionHorizon'', JStr (fmt_RFC3339 horizon)), (''horizonModel'', JStr HorizonModel),
      (''relaxedFloors'', JArr (map (\<lambda>v. JObj [(''floor'', JStr (fv_Floor v)), (''limit'', JNum (fv_Limit v)),
         (''actual'', JNum (fv_Actual v)), (''aggregate'', JStr (fv_Aggregate v))]) violations))]"

definition reject_message :: "JobView \<Rightarrow> FloorViolation list \<Rightarrow> string" where
  "reject_message j violations =
     ''quality floor and deadline are unsatisfiable together: '' @
     Join (map (\<lambda>v. fv_Floor v @ '' ('' @ fv_Aggregate v @ '' '' @ fmt_g4 (fv_Actual v) @ '' > '' @
        fmt_g4 (fv_Limit v) @ '')'') violations) '', '' @
     '' cannot be met before '' @ fmt_RFC3339 (jv_Deadline j)"

definition reject_status :: "string \<Rightarrow> obj \<Rightarrow> obj" where
  "reject_status msg st =
     set_key (append_cond st (cond_obj ''UnsatisfiableBeforeDeadline'' ''True'' ''OnConflictReject'' msg))
       ''error'' (JObj [(''category'', JStr ''CAPABILITY_MISMATCH''), (''retriable'', JBool True), (''message'', JStr msg)])"

definition deadline_condition :: "JobView \<Rightarrow> obj" where
  "deadline_condition j = cond_obj ''DeadlineExceededWaitingForQuality'' ''True'' ''PreferQuality''
     (''deadline '' @ fmt_RFC3339 (jv_Deadline j) @
      '' passed while waiting for quality floors; onConflict=prefer-quality keeps waiting'')"

text \<open>\<open>resolveConflict\<close>: \<open>True\<close> when it handled the job.\<close>

definition resolveConflict :: "reading \<Rightarrow> job_record \<Rightarrow> JobView \<Rightarrow> dispatcher \<Rightarrow> dispatcher \<times> bool" where
  "resolveConflict rd rec j s =
     (if \<not> HasQualityFloor j \<or> IsZero (jv_Deadline j) then (s, False)
      else
        (let now = rd_conflict rd;
             ((relaxed, violations), c) = ScheduleRelaxed (dp_policy s) (active_counter s) j (rd_fleet2 rd) now;
             s1 = set_counter c s;
             horizon = DecisionHorizon j relaxed
         in if de_Target relaxed = [] \<or> violations = [] then (s1, False)
            else if jv_OnConflict j = ''prefer-deadline''
            then
              (if now < horizon then (s1, False)
               else
                 (case BindJob (rd_db rd) (rd_locked rd) (jr_JobID rec) (rd_uuid rd) (de_Target relaxed)
                         (conflict_placement relaxed violations horizon) (dp_db s1) of
                    (d, Inl _) \<Rightarrow> (s1\<lparr>dp_db := d\<rparr>, True)
                  | (d, Inr bound) \<Rightarrow> (startExecutor bound (rd_uuid rd) (de_Target relaxed) (s1\<lparr>dp_db := d\<rparr>), True)))
            else if jv_OnConflict j = ''reject''
            then
              (if now < horizon then (s1, False)
               else (s1\<lparr>dp_db := fst (TransitionJob (rd_db rd) (jr_JobID rec) Failed
                       (Some (reject_status (reject_message j violations))) (dp_db s1))\<rparr>, True))
            else
              (if jv_Deadline j < now
               then (s1\<lparr>dp_db := fst (SetJobCondition (rd_db rd) (jr_JobID rec) (deadline_condition j) (dp_db s1))\<rparr>, False)
               else (s1, False))))"

section \<open>Shadow evaluation\<close>

definition findTargetView :: "TargetView list \<Rightarrow> string \<Rightarrow> TargetView option" where
  "findTargetView fleet name = (if name = [] then None else find (\<lambda>t. tv_Name t = name) fleet)"

definition targetESP :: "JobView \<Rightarrow> TargetView list \<Rightarrow> string \<Rightarrow> float64 option" where
  "targetESP j fleet name = map_option (PredictedESP j) (findTargetView fleet name)"

definition targetWait :: "TargetView list \<Rightarrow> string \<Rightarrow> float64 option" where
  "targetWait fleet name = map_option tv_WaitSeconds (findTargetView fleet name)"

definition shadow_row :: "time \<Rightarrow> JobView \<Rightarrow> Decision \<Rightarrow> TargetView list \<Rightarrow> policy \<Rightarrow> Decision \<Rightarrow> shadow_placement" where
  "shadow_row now j active fleet p sd =
     \<lparr>sp_At = now, sp_JobID = jv_ID j, sp_Tenant = jv_Tenant j, sp_Policy = po_Name p,
      sp_ActivePolicy = de_Policy active, sp_ActiveTarget = de_Target active, sp_ShadowTarget = de_Target sd,
      sp_Agreed = (de_Target active = de_Target sd),
      sp_ActiveESP = targetESP j fleet (de_Target active), sp_ShadowESP = targetESP j fleet (de_Target sd),
      sp_ActiveWait = targetWait fleet (de_Target active), sp_ShadowWait = targetWait fleet (de_Target sd)\<rparr>"

fun recordShadow ::
  "reading \<Rightarrow> JobView \<Rightarrow> Decision \<Rightarrow> policy list \<Rightarrow> (string \<Rightarrow> 64 word) \<Rightarrow> db \<Rightarrow> db \<times> (string \<Rightarrow> 64 word)" where
  "recordShadow rd j active [] cs d = (d, cs)"
| "recordShadow rd j active (p # ps) cs d =
     (if po_Name p = de_Policy active then recordShadow rd j active ps cs d
      else
        (let (sd, c') = Schedule p (cs (po_Name p)) j (rd_fleet rd) (rd_now rd);
             d1 = RecordShadowPlacement (rd_db rd) (shadow_row (rd_db rd) j active (rd_fleet rd) p sd) d
         in recordShadow rd j active ps (cs(po_Name p := c')) d1))"

section \<open>One dispatch\<close>

definition unschedulable :: "string \<Rightarrow> string \<Rightarrow> obj" where
  "unschedulable reason msg = cond_obj ''Schedulable'' ''False'' reason msg"

definition bind_decision :: "reading \<Rightarrow> job_record \<Rightarrow> Decision \<Rightarrow> dispatcher \<Rightarrow> dispatcher \<times> bool" where
  "bind_decision rd rec dec s =
     (case BindJob (rd_db rd) (rd_locked rd) (jr_JobID rec) (rd_uuid rd) (de_Target dec) (PlacementRecord dec) (dp_db s) of
        (d, Inl _) \<Rightarrow> (s\<lparr>dp_db := d\<rparr>, False)
      | (d, Inr bound) \<Rightarrow> (startExecutor bound (rd_uuid rd) (de_Target dec) (s\<lparr>dp_db := d\<rparr>), True))"

text \<open>The part of \<open>dispatchOne\<close> after the session check.\<close>

definition schedule_and_bind :: "reading \<Rightarrow> job_record \<Rightarrow> JobView \<Rightarrow> dispatcher \<Rightarrow> dispatcher \<times> bool" where
  "schedule_and_bind rd rec j s =
     (let (dec, c) = Schedule (dp_policy s) (active_counter s) j (rd_fleet rd) (rd_now rd);
          (d1, cs) = recordShadow rd j dec (dp_shadow s) (dp_counters (set_counter c s)) (dp_db s);
          s1 = s\<lparr>dp_counters := cs, dp_db := d1\<rparr>
      in if de_Target dec = []
         then
           (let (s2, handled) = resolveConflict rd rec j s1
            in if handled then (s2, False)
               else (s2\<lparr>dp_db := fst (SetJobCondition (rd_db rd) (jr_JobID rec)
                        (unschedulable ''NoFeasibleTarget'' (de_Reason dec)) (dp_db s2))\<rparr>, False))
         else bind_decision rd rec dec s1)"

definition dispatchOne :: "reading \<Rightarrow> job_record \<Rightarrow> dispatcher \<Rightarrow> dispatcher \<times> bool" where
  "dispatchOne rd rec s =
     (case ParseJob (jr_JobID rec) (jr_Tenant rec) (jr_Doc rec) of
        Inl e \<Rightarrow> (s\<lparr>dp_db := fst (SetJobCondition (rd_db rd) (jr_JobID rec)
                    (unschedulable ''UnparseableDocument'' (rd_error_text rd e)) (dp_db s))\<rparr>, False)
      | Inr j \<Rightarrow>
          (let (d1, pinned) = sessionAffinity rd rec j (dp_db s); s1 = s\<lparr>dp_db := d1\<rparr>
           in case pinned of None \<Rightarrow> (s1, False) | Some j' \<Rightarrow> schedule_and_bind rd rec j' s1))"

section \<open>One cycle\<close>

fun dispatch_all :: "(nat \<Rightarrow> reading) \<Rightarrow> nat \<Rightarrow> job_record list \<Rightarrow> dispatcher \<Rightarrow> dispatcher \<times> nat" where
  "dispatch_all rd n [] s = (s, 0)"
| "dispatch_all rd n (r # rs) s =
     (let (s1, b) = dispatchOne (rd n) r s;
          (s2, k) = dispatch_all rd (Suc n) rs s1
      in (s2, if b then Suc k else k))"

text \<open>\<open>cycle\<close>: sweep, claim a batch, order it, dispatch; the latency is recorded at the end. \<open>None\<close>
  would be a panic in the ordering, which \<open>Fairshare\<close> excludes.\<close>

definition cycle ::
  "time \<Rightarrow> (nat \<Rightarrow> reading) \<Rightarrow> (string list \<Rightarrow> (string \<rightharpoonup> int) option) \<Rightarrow> duration \<Rightarrow> dispatcher \<Rightarrow> (dispatcher \<times> nat \<times> nat) option" where
  "cycle now rd weights elapsed s =
     (let d1 = sweepExpiredSessions now (dp_db s);
          s1 = s\<lparr>dp_db := d1\<rparr>;
          pending = PendingJobs d1 claimBatch
      in case orderPending weights pending of
           None \<Rightarrow> None
         | Some rs \<Rightarrow>
             (let (s2, bound) = dispatch_all rd 0 rs s1
              in Some (s2\<lparr>dp_cycles := ring_record elapsed (dp_cycles s2)\<rparr>, length pending, bound)))"

text \<open>The decision of \<open>Run\<close> after a cycle: cycle again at once, or wait for a wakeup or the tick.\<close>

datatype next_action = Standby | CycleAgain | WaitNotify

definition run_next :: "bool option \<Rightarrow> nat \<Rightarrow> nat \<Rightarrow> next_action" where
  "run_next leaderGate claimed bound =
     (if leaderGate = Some False then Standby
      else if claimed \<ge> claimBatch \<and> bound > 0 then CycleAgain else WaitNotify)"

section \<open>Every dispatch is a run of store transactions\<close>

lemma dp_db_startExecutor [simp]: "dp_db (startExecutor rec t g s) = dp_db s"
  by (simp add: startExecutor_def)

lemma set_counter_simps [simp]:
  "dp_db (set_counter c s) = dp_db s" "dp_policy (set_counter c s) = dp_policy s" "dp_inFlight (set_counter c s) = dp_inFlight s"
  "dp_spawned (set_counter c s) = dp_spawned s"
  by (simp_all add: set_counter_def)

lemma run_sessionAffinity: "store_run d (fst (sessionAffinity rd rec j d))"
  by (auto simp: sessionAffinity_def failSessionLost_def Let_def run_transition split: sum.splits)

lemma run_BindJob: "BindJob now locked i t g pl d = (d', r) \<Longrightarrow> store_run d d'"
  using store_runs(7)[of d now locked i t g pl] by simp

lemma run_resolveConflict: "store_run (dp_db s) (dp_db (fst (resolveConflict rd rec j s)))"
  by (auto simp: resolveConflict_def Let_def run_transition store_runs split: prod.splits sum.splits
      dest: run_BindJob)

lemma run_recordShadow: "store_run d (fst (recordShadow rd j active ps cs d))"
proof (induction ps arbitrary: cs d)
  case (Cons p ps)
  obtain sd c' where "Schedule p (cs (po_Name p)) j (rd_fleet rd) (rd_now rd) = (sd, c')" by force
  with Cons run_trans[OF store_runs(8) Cons] show ?case by (simp add: Let_def del: fun_upd_apply)
qed simp

lemma run_bind_decision: "store_run (dp_db s) (dp_db (fst (bind_decision rd rec dec s)))"
  by (auto simp: bind_decision_def split: prod.splits sum.splits dest: run_BindJob)

lemma run_schedule_and_bind: "store_run (dp_db s) (dp_db (fst (schedule_and_bind rd rec j s)))"
proof -
  obtain dec c where sch: "Schedule (dp_policy s) (active_counter s) j (rd_fleet rd) (rd_now rd) = (dec, c)" by force
  obtain d1 cs where sh: "recordShadow rd j dec (dp_shadow s) (dp_counters (set_counter c s)) (dp_db s) = (d1, cs)" by force
  let ?s1 = "s\<lparr>dp_counters := cs, dp_db := d1\<rparr>"
  have r1: "store_run (dp_db s) (dp_db ?s1)"
    using run_recordShadow[of "dp_db s" rd j dec "dp_shadow s" "dp_counters (set_counter c s)"] sh by simp
  have r2: "store_run (dp_db s) (dp_db (fst (resolveConflict rd rec j ?s1)))"
    by (rule run_trans[OF r1 run_resolveConflict])
  have r3: "store_run (dp_db s) (fst (SetJobCondition n i cn (dp_db (fst (resolveConflict rd rec j ?s1)))))" for n i cn
    by (rule run_trans[OF r2 store_runs(2)])
  have r4: "store_run (dp_db s) (dp_db (fst (bind_decision rd rec dec ?s1)))"
    by (rule run_trans[OF r1 run_bind_decision])
  show ?thesis using r2 r3 r4 by (simp add: schedule_and_bind_def sch sh Let_def split_beta)
qed

lemma run_dispatchOne: "store_run (dp_db s) (dp_db (fst (dispatchOne rd rec s)))"
proof (cases "ParseJob (jr_JobID rec) (jr_Tenant rec) (jr_Doc rec)")
  case (Inl e)
  then show ?thesis by (simp add: dispatchOne_def store_runs(2))
next
  case (Inr j)
  obtain d1 p where aff: "sessionAffinity rd rec j (dp_db s) = (d1, p)" by force
  have r1: "store_run (dp_db s) d1" using run_sessionAffinity[of "dp_db s" rd rec j] aff by simp
  have "store_run (dp_db s) (dp_db (fst (schedule_and_bind rd rec j' (s\<lparr>dp_db := d1\<rparr>))))" for j'
    using run_trans[OF _ run_schedule_and_bind[of "s\<lparr>dp_db := d1\<rparr>" rd rec j']] r1 by simp
  with r1 Inr aff show ?thesis by (simp add: dispatchOne_def Let_def split: option.splits)
qed

lemma run_dispatch_all: "store_run (dp_db s) (dp_db (fst (dispatch_all rd n rs s)))"
proof (induction rs arbitrary: n s)
  case (Cons r rs)
  from run_trans[OF run_dispatchOne[of s "rd n" r] Cons] show ?case by (simp add: Let_def split_beta)
qed simp

lemma run_cycle:
  assumes "cycle now rd weights elapsed s = Some (s', claimed, bound)"
  shows "store_run (dp_db s) (dp_db s')"
proof -
  let ?d1 = "sweepExpiredSessions now (dp_db s)"
  from assms obtain rs where "s' = (fst (dispatch_all rd 0 rs (s\<lparr>dp_db := ?d1\<rparr>)))
      \<lparr>dp_cycles := ring_record elapsed (dp_cycles (fst (dispatch_all rd 0 rs (s\<lparr>dp_db := ?d1\<rparr>))))\<rparr>"
    by (auto simp: cycle_def Let_def split_beta split: option.splits)
  then have "dp_db s' = dp_db (fst (dispatch_all rd 0 rs (s\<lparr>dp_db := ?d1\<rparr>)))" by simp
  moreover have "store_run (dp_db s) ?d1" by (rule store_runs(6))
  ultimately show ?thesis
    using run_dispatch_all[of "s\<lparr>dp_db := ?d1\<rparr>" rd 0 rs] run_trans by simp
qed

end
