(* ===== verification/Dispatch_Properties.thy ===== *)
theory Dispatch_Properties
  imports Dispatcher Scheduler_Properties Store_Properties
begin

text \<open>
  The contract of the dispatcher: the fair-share order of a batch, what a dispatch and a cycle do to
  the database, how an executor ends a job and bills it, and the latency figures.
\<close>

section \<open>Fair share\<close>

lemma in_bounds_zero: "in_bounds pending (\<lambda>_. 0)"
  by (simp add: in_bounds_def)

lemma fair_zero: "fair w pd (\<lambda>_. 0)"
  using weightOf_pos[of w] by (simp add: fair_def less_imp_le)

lemma fairOrder_ok:
  assumes "[] \<notin> jr_Tenant ` set pending"
  obtains out where "fairOrder pending weights = Some out" "mset out = mset pending"
    "\<And>t. queue out t = queue pending t"
proof (cases "length pending \<le> 1")
  case True
  then show ?thesis using that[of pending] by (simp add: fairOrder_def)
next
  case False
  have "length (left_over pending (\<lambda>_. 0)) = length pending"
    using left_over_start[of pending] by (metis size_mset)
  from fair_rounds_ok[OF assms in_bounds_zero this, of weights] that False left_over_start[of pending]
  show ?thesis by (auto simp: fairOrder_def)
qed

text \<open>C21: The fair-share order of any batch, under any weights, exists (the index into a tenant's queue is
  never out of range), is a permutation of the batch, and keeps every tenant's jobs in their order.\<close>

theorem fair_order_is_total_and_fifo:
  assumes "[] \<notin> jr_Tenant ` set pending"
  shows "\<exists>out. fairOrder pending weights = Some out \<and> mset out = mset pending \<and>
    (\<forall>t. filter (\<lambda>r. jr_Tenant r = t) out = filter (\<lambda>r. jr_Tenant r = t) pending)"
  by (rule fairOrder_ok[OF assms, of weights]) (simp add: queue_def)

definition demo_batch :: "job_record list" where
  "demo_batch = map (\<lambda>(i, t). (demo_job i)\<lparr>jr_Tenant := t\<rparr>) [(''1'', ''a''), (''2'', ''a''), (''3'', ''a''), (''4'', ''b'')]"

theorem fair_order_is_total_and_fifo_witness:
  "\<exists>out. fairOrder demo_batch (\<lambda>_. None) = Some out \<and> mset out = mset demo_batch"
  using fair_order_is_total_and_fifo[of demo_batch "\<lambda>_. None"] by (auto simp: demo_batch_def)

text \<open>C22: No tenant runs ahead: after any number of placements, as long as tenant \<open>u\<close> has jobs waiting, the
  jobs served to any tenant \<open>t\<close> divided by its weight are at most one slot of \<open>u\<close> ahead of \<open>u\<close>.\<close>

theorem fair_order_bounds_lead:
  assumes "[] \<notin> jr_Tenant ` set pending" and "1 < length pending" and "fairOrder pending w = Some out"
    and "m \<le> length pending" and "served (take m out) u < served pending u"
  shows "real (served (take m out) t) / weightOf w t \<le> real (served (take m out) u + 1) / weightOf w u"
proof -
  have len: "length (left_over pending (\<lambda>_. 0)) = length pending"
    using left_over_start[of pending] by (metis size_mset)
  have "fair w pending (\<lambda>t. 0 + served (take m out) t)"
    using assms by (intro fair_rounds_fair[OF _ in_bounds_zero len fair_zero]) (simp_all add: fairOrder_def split: if_splits)
  moreover have "queue pending u \<noteq> []" using assms(5) by (auto simp: served_def)
  then have "u \<in> jr_Tenant ` set pending" by (auto simp: queue_def filter_empty_conv)
  ultimately show ?thesis using assms(5) by (simp add: fair_def eligible_def served_def)
qed

lemma demo_batch_order:
  "map_option (\<lambda>out. (served (take 1 out) ''a'', served (take 1 out) ''b'')) (fairOrder demo_batch (\<lambda>_. None)) = Some (1, 0)"
  by code_simp

theorem fair_order_bounds_lead_witness:
  "\<exists>out. fairOrder demo_batch (\<lambda>_. None) = Some out \<and> served (take 1 out) ''a'' = 1 \<and> served (take 1 out) ''b'' = 0 \<and>
    real (served (take 1 out) ''a'') / 1 \<le> real (served (take 1 out) ''b'' + 1) / 1"
proof -
  obtain out where out: "fairOrder demo_batch (\<lambda>_. None) = Some out" "served (take 1 out) ''a'' = 1"
    "served (take 1 out) ''b'' = 0"
    using demo_batch_order by auto
  have wt: "weightOf (\<lambda>_. None) t = 1" for t by (simp add: weightOf_def)
  have "[] \<notin> jr_Tenant ` set demo_batch" "1 < length demo_batch" "served demo_batch ''b'' = 1" by code_simp+
  then show ?thesis
    using fair_order_bounds_lead[of demo_batch "\<lambda>_. None" out 1 "''b''" "''a''"] out by (simp add: wt)
qed

section \<open>Dispatch\<close>

lemma dispatch_all_count: "snd (dispatch_all rd n rs s) \<le> length rs"
proof (induction rs arbitrary: n s)
  case (Cons r rs)
  then show ?case by (simp add: Let_def split_beta) (meson Suc_le_mono le_SucI)
qed simp

lemma orderPending_ok:
  assumes "[] \<notin> jr_Tenant ` set pending"
  obtains rs where "orderPending weights pending = Some rs" "mset rs = mset pending"
proof -
  have "\<exists>rs. fairOrder pending w = Some rs \<and> mset rs = mset pending" for w
    using fairOrder_ok[OF assms, of w] by metis
  then have "\<exists>rs. orderPending weights pending = Some rs \<and> mset rs = mset pending"
    by (auto simp: orderPending_def Let_def split: option.splits)
  with that show ?thesis by blast
qed

text \<open>C4: A cycle of the dispatcher never panics and every database change it makes is one of the store's
  transactions: from a reachable database it ends in a reachable one, having claimed at most 32 jobs
  and bound at most as many as it claimed.\<close>

theorem cycle_is_total_and_safe:
  assumes "reachable (dp_db s)" and "\<forall>r \<in> set (jobs (dp_db s)). jr_Tenant r \<noteq> []"
  shows "\<exists>s' claimed bound. cycle now rd weights elapsed s = Some (s', claimed, bound) \<and>
    reachable (dp_db s') \<and> store_run (dp_db s) (dp_db s') \<and> bound \<le> claimed \<and> claimed \<le> 32"
proof -
  let ?d = "sweepExpiredSessions now (dp_db s)" and ?p = "PendingJobs (sweepExpiredSessions now (dp_db s)) claimBatch"
  have sub: "set ?p \<subseteq> set (jobs (dp_db s))"
    unfolding PendingJobs_def by (auto simp: sweepExpiredSessions_def dest!: in_set_takeD)
  then have "[] \<notin> jr_Tenant ` set ?p" using assms(2) by (metis imageE subsetD)
  then obtain rs where rs: "orderPending weights ?p = Some rs" "mset rs = mset ?p" by (rule orderPending_ok)
  obtain s2 b where db: "dispatch_all rd 0 rs (s\<lparr>dp_db := ?d\<rparr>) = (s2, b)" by force
  have "b \<le> length rs" using dispatch_all_count[of rd 0 rs "s\<lparr>dp_db := ?d\<rparr>"] db by simp
  moreover have "length rs = length ?p" using rs(2) by (metis size_mset)
  moreover have "length ?p \<le> 32" by (simp add: PendingJobs_def claimBatch_def)
  moreover have eq: "cycle now rd weights elapsed s = Some (s2\<lparr>dp_cycles := ring_record elapsed (dp_cycles s2)\<rparr>, length ?p, b)"
    using rs(1) db by (simp add: cycle_def Let_def)
  ultimately show ?thesis using run_cycle[OF eq] reachable_run[OF _ assms(1)] by auto
qed

definition demo_dispatcher :: dispatcher where
  "demo_dispatcher = \<lparr>dp_policy = fifoPolicy, dp_counters = (\<lambda>_. 0), dp_shadow = [], dp_inFlight = [], dp_spawned = [],
     dp_cycles = newCycleRing 4, dp_db = demo_pending\<rparr>"

definition demo_reading :: reading where
  "demo_reading = \<lparr>rd_affinity = 0, rd_now = 0, rd_conflict = 0, rd_db = 2, rd_fleet = [], rd_fleet2 = [],
     rd_uuid = ''t1'', rd_locked = (\<lambda>_. False), rd_error_text = (\<lambda>_. [])\<rparr>"

theorem cycle_is_total_and_safe_witness:
  "\<exists>s' claimed bound. cycle 1 (\<lambda>_. demo_reading) (\<lambda>_. None) 5 demo_dispatcher = Some (s', claimed, bound) \<and> reachable (dp_db s')"
proof -
  have "\<forall>r \<in> set (jobs demo_pending). jr_Tenant r \<noteq> []" by code_simp
  then show ?thesis
    using cycle_is_total_and_safe[of demo_dispatcher 1 "\<lambda>_. demo_reading" "\<lambda>_. None" 5] demo_reachable(1)
    by (auto simp: demo_dispatcher_def)
qed

lemma in_flight_start [simp]: "jr_JobID rec \<in> set (dp_inFlight (startExecutor rec t g s))"
  by (simp add: startExecutor_def)

lemma bind_decision_True:
  assumes "bind_decision rd rec dec s = (s', True)"
  shows "phase_of (dp_db s) (jr_JobID rec) = Some Pending" "phase_of (dp_db s') (jr_JobID rec) = Some Scheduled"
    "\<exists>t \<in> set (tasks (dp_db s')). tk_TaskID t = rd_uuid rd \<and> tk_JobID t = jr_JobID rec \<and> tk_Target t = de_Target dec"
    "jr_JobID rec \<in> set (dp_inFlight s')"
proof -
  show "phase_of (dp_db s) (jr_JobID rec) = Some Pending" "phase_of (dp_db s') (jr_JobID rec) = Some Scheduled"
    "\<exists>t \<in> set (tasks (dp_db s')). tk_TaskID t = rd_uuid rd \<and> tk_JobID t = jr_JobID rec \<and> tk_Target t = de_Target dec"
    "jr_JobID rec \<in> set (dp_inFlight s')"
    using assms
    by (cases rule: BindJob_cases[of "rd_db rd" "rd_locked rd" "jr_JobID rec" "rd_uuid rd" "de_Target dec" "PlacementRecord dec" "dp_db s"];
        force simp: bind_decision_def phase_of_def write_job_def tbl_find_update startExecutor_def)+
qed

lemma dispatchOne_bound:
  assumes reg: "(name, dp_policy s) \<in> set policy_table" and "dispatchOne rd rec s = (s', True)"
  shows "\<exists>j0 j v t. ParseJob (jr_JobID rec) (jr_Tenant rec) (jr_Doc rec) = Inr j0 \<and>
    snd (sessionAffinity rd rec j0 (dp_db s)) = Some j \<and> v \<in> set (rd_fleet rd) \<and> admits name j v (rd_now rd) \<and>
    t \<in> set (tasks (dp_db s')) \<and> tk_JobID t = jr_JobID rec \<and> tk_Target t = tv_Name v \<and>
    phase_of (dp_db s') (jr_JobID rec) = Some Scheduled \<and> jr_JobID rec \<in> set (dp_inFlight s')"
proof -
  from assms(2) obtain j0 where j0: "ParseJob (jr_JobID rec) (jr_Tenant rec) (jr_Doc rec) = Inr j0"
    by (auto simp: dispatchOne_def split: sum.splits)
  obtain d1 pin where aff: "sessionAffinity rd rec j0 (dp_db s) = (d1, pin)" by force
  from assms(2) j0 aff obtain j where j: "pin = Some j" "schedule_and_bind rd rec j (s\<lparr>dp_db := d1\<rparr>) = (s', True)"
    by (auto simp: dispatchOne_def Let_def split: option.splits)
  obtain dec c where sch: "Schedule (dp_policy s) (active_counter s) j (rd_fleet rd) (rd_now rd) = (dec, c)" by force
  obtain d2 cs where sh: "recordShadow rd j dec (dp_shadow s) (dp_counters (set_counter c (s\<lparr>dp_db := d1\<rparr>))) d1 = (d2, cs)" by force
  have ne: "de_Target dec \<noteq> []" and bd: "bind_decision rd rec dec (s\<lparr>dp_db := d1, dp_counters := cs, dp_db := d2\<rparr>) = (s', True)"
    using j(2) sch sh by (auto simp: schedule_and_bind_def Let_def active_counter_def split: prod.splits if_splits)
  obtain v where v: "v \<in> set (rd_fleet rd)" "tv_Name v = de_Target dec" "admits name j v (rd_now rd)"
    using scheduling_policy.chosen_capable[OF registered_policy(1)[OF reg], of "active_counter s" j "rd_fleet rd" "rd_now rd"]
      sch ne registered_policy(2)[OF reg] by auto
  note b = bind_decision_True[OF bd]
  from b(3) obtain t where "t \<in> set (tasks (dp_db s'))" "tk_JobID t = jr_JobID rec" "tk_Target t = tv_Name v"
    using v(2) by metis
  with j0 aff j(1) v(1,3) b(2,4) show ?thesis by fastforce
qed

text \<open>C7: When a dispatch reports a bound job, it is true: the job was \<open>PENDING\<close> and is \<open>SCHEDULED\<close> with a task
  on a target of the fleet that the active policy admits for the job as its session pins it, and its
  executor is in flight.\<close>

theorem dispatched_job_is_bound:
  assumes "init_factories = Some fs" and "(name, dp_policy s) \<in> set fs" and "dispatchOne rd rec s = (s', True)"
  shows "\<exists>j0 j v t. ParseJob (jr_JobID rec) (jr_Tenant rec) (jr_Doc rec) = Inr j0 \<and>
    snd (sessionAffinity rd rec j0 (dp_db s)) = Some j \<and> v \<in> set (rd_fleet rd) \<and> admits name j v (rd_now rd) \<and>
    t \<in> set (tasks (dp_db s')) \<and> tk_JobID t = jr_JobID rec \<and> tk_Target t = tv_Name v \<and>
    phase_of (dp_db s') (jr_JobID rec) = Some Scheduled \<and> jr_JobID rec \<in> set (dp_inFlight s')"
  by (rule dispatchOne_bound[OF registered[OF assms(1,2)] assms(3)])

definition demo_gate_job :: job_record where
  "demo_gate_job = (demo_job ''j1'')\<lparr>jr_Doc := [(''spec'', JObj [(''workload'', JObj [(''kind'', JStr ''gate-model''),
     (''gateModel'', JObj [(''shots'', JNum 100)])])])]\<rparr>"

definition demo_gate_dispatcher :: dispatcher where
  "demo_gate_dispatcher = demo_dispatcher\<lparr>dp_db := fst (InsertJob 1 demo_gate_job empty_db)\<rparr>"

lemma demo_dispatch: "snd (dispatchOne (demo_reading\<lparr>rd_fleet := demo_fleet\<rparr>) demo_gate_job demo_gate_dispatcher)"
  by code_simp

theorem dispatched_job_is_bound_witness:
  "phase_of (dp_db (fst (dispatchOne (demo_reading\<lparr>rd_fleet := demo_fleet\<rparr>) demo_gate_job demo_gate_dispatcher))) ''j1'' = Some Scheduled"
proof -
  obtain s' where s': "dispatchOne (demo_reading\<lparr>rd_fleet := demo_fleet\<rparr>) demo_gate_job demo_gate_dispatcher = (s', True)"
    using demo_dispatch by (metis prod.collapse)
  have "dp_policy demo_gate_dispatcher = fifoPolicy" "jr_JobID demo_gate_job = ''j1''"
    by (simp_all add: demo_gate_dispatcher_def demo_dispatcher_def demo_gate_job_def demo_job_def)
  with dispatched_job_is_bound[OF init_factories_table _ s', of "''fifo/v0''"] fifo_registered s'
  show ?thesis by auto
qed

section \<open>Sessions\<close>

text \<open>A step that binds nothing but, at most, the job \<open>i\<close> on the target \<open>g\<close>: what it adds to the tasks and the executors.\<close>

definition binds_only :: "string \<Rightarrow> string \<Rightarrow> dispatcher \<Rightarrow> dispatcher \<Rightarrow> bool" where
  "binds_only i g s s' \<longleftrightarrow> (\<exists>new execs. tasks (dp_db s') = tasks (dp_db s) @ new \<and> dp_spawned s' = dp_spawned s @ execs \<and>
     (\<forall>t \<in> set new. tk_JobID t = i \<and> tk_Target t = g) \<and> (\<forall>(r, t, x) \<in> set execs. jr_JobID r = i \<and> x = g))"

lemma binds_only_idle: "tasks (dp_db s') = tasks (dp_db s) \<Longrightarrow> dp_spawned s' = dp_spawned s \<Longrightarrow> binds_only i g s s'"
  by (simp add: binds_only_def)

lemma binds_only_bind:
  assumes "BindJob now locked i taskID g placement (dp_db s) = (d, r)"
  shows "binds_only i g s (case r of Inl _ \<Rightarrow> s\<lparr>dp_db := d\<rparr> | Inr rec \<Rightarrow> startExecutor rec taskID g (s\<lparr>dp_db := d\<rparr>))"
  by (cases rule: BindJob_cases[of now locked i taskID g placement "dp_db s"])
    (use assms in \<open>auto simp: binds_only_def startExecutor_def\<close>)

lemma recordShadow_tasks: "tasks (fst (recordShadow rd j active ps cs d)) = tasks d"
  by (induction ps arbitrary: cs d) (simp_all add: Let_def RecordShadowPlacement_def split_beta)

text \<open>Both passes, with and without the quality floors, keep the list of required targets.\<close>

lemma scheduled_is_required:
  assumes reg: "(name, p) \<in> set policy_table" and "de_Target (fst (Schedule p c j fleet now)) \<noteq> []" and "jv_RequireTargets j = [g]"
  shows "de_Target (fst (Schedule p c j fleet now)) = g"
proof -
  from scheduling_policy.chosen_capable[OF registered_policy(1)[OF reg] assms(2)] obtain t where
    "tv_Name t = de_Target (fst (Schedule p c j fleet now))" "capable j t now" by blast
  with assms(3) show ?thesis by (auto simp: capable_def)
qed

lemma resolveConflict_binds:
  assumes reg: "(name, dp_policy s) \<in> set policy_table" and "jv_RequireTargets j = [g]"
  shows "binds_only (jr_JobID rec) g s (fst (resolveConflict rd rec j s))"
proof -
  obtain relaxed vs c where sr: "ScheduleRelaxed (dp_policy s) (active_counter s) j (rd_fleet2 rd) (rd_conflict rd) = ((relaxed, vs), c)"
    by (metis prod.collapse)
  have relaxed: "relaxed = fst (Schedule (dp_policy s) (active_counter s) (relax_floors j) (rd_fleet2 rd) (rd_conflict rd))"
    using sr by (auto simp: ScheduleRelaxed_def split: prod.splits if_splits option.splits)
  have g: "de_Target relaxed = g" if "de_Target relaxed \<noteq> []"
    using scheduled_is_required[OF reg, of "active_counter s" "relax_floors j"] that assms(2) relaxed by (simp add: relax_floors_def)
  obtain d r where b: "BindJob (rd_db rd) (rd_locked rd) (jr_JobID rec) (rd_uuid rd) g
      (conflict_placement relaxed vs (DecisionHorizon j relaxed)) (dp_db (set_counter c s)) = (d, r)" by force
  have "binds_only (jr_JobID rec) g s
      (case r of Inl _ \<Rightarrow> (set_counter c s)\<lparr>dp_db := d\<rparr> | Inr bound \<Rightarrow> startExecutor bound (rd_uuid rd) g ((set_counter c s)\<lparr>dp_db := d\<rparr>))"
    using binds_only_bind[OF b] by (simp add: binds_only_def)
  note bound = this
  show ?thesis
  proof (cases "de_Target relaxed = []")
    case True
    with sr show ?thesis by (auto simp: resolveConflict_def Let_def intro!: binds_only_idle)
  next
    case False
    with g have "de_Target relaxed = g" by simp
    with False sr b bound show ?thesis
      by (auto simp: resolveConflict_def Let_def split: sum.splits intro!: binds_only_idle)
  qed
qed

lemma schedule_binds:
  assumes reg: "(name, dp_policy s) \<in> set policy_table" and "jv_RequireTargets j = [g]"
  shows "binds_only (jr_JobID rec) g s (fst (schedule_and_bind rd rec j s))"
proof -
  obtain dec c where sch: "Schedule (dp_policy s) (active_counter s) j (rd_fleet rd) (rd_now rd) = (dec, c)" by force
  obtain d1 cs where sh: "recordShadow rd j dec (dp_shadow s) (dp_counters (set_counter c s)) (dp_db s) = (d1, cs)" by force
  let ?s1 = "s\<lparr>dp_counters := cs, dp_db := d1\<rparr>"
  have same: "tasks (dp_db ?s1) = tasks (dp_db s)" "dp_spawned ?s1 = dp_spawned s"
    using recordShadow_tasks[of rd j dec "dp_shadow s" "dp_counters (set_counter c s)" "dp_db s"] sh by simp_all
  have from1: "binds_only (jr_JobID rec) g s s'" if "binds_only (jr_JobID rec) g ?s1 s'" for s'
    using that same by (simp add: binds_only_def)
  show ?thesis
  proof (cases "de_Target dec = []")
    case True
    have r: "binds_only (jr_JobID rec) g ?s1 (fst (resolveConflict rd rec j ?s1))"
      using resolveConflict_binds[of name ?s1 j g rec rd] assms by simp
    then have "binds_only (jr_JobID rec) g ?s1 ((fst (resolveConflict rd rec j ?s1))\<lparr>dp_db := fst (SetJobCondition n i cn
        (dp_db (fst (resolveConflict rd rec j ?s1))))\<rparr>)" for n i cn by (simp add: binds_only_def)
    with r from1 True sch sh show ?thesis by (simp add: schedule_and_bind_def Let_def split_beta)
  next
    case False
    then have g: "de_Target dec = g" using scheduled_is_required[OF reg, of "active_counter s" j] assms(2) sch by (metis fst_conv)
    obtain d r where b: "BindJob (rd_db rd) (rd_locked rd) (jr_JobID rec) (rd_uuid rd) g (PlacementRecord dec) (dp_db ?s1) = (d, r)" by force
    have "fst (schedule_and_bind rd rec j s) = fst (bind_decision rd rec dec ?s1)"
      using sch sh False by (simp add: schedule_and_bind_def Let_def)
    also have "\<dots> = (case r of Inl _ \<Rightarrow> ?s1\<lparr>dp_db := d\<rparr> | Inr bound \<Rightarrow> startExecutor bound (rd_uuid rd) g (?s1\<lparr>dp_db := d\<rparr>))"
      using b g by (simp add: bind_decision_def split: sum.splits)
    finally show ?thesis using from1[OF binds_only_bind[OF b]] by simp
  qed
qed

text \<open>C14: A job that joins a session runs inside it or not at all. If the session the job names exists, is live and
  belongs to the job's own project, then whatever a dispatch of the job binds or starts, on the ordinary path or with
  its quality floors relaxed at the deadline, is a task and an executor of this job on the session's target, and a
  dispatch that reports a binding has made such a task. If the session is missing, foreign or dead, nothing is bound or
  started and the pending job is failed.\<close>

theorem joined_job_runs_in_its_session:
  assumes "init_factories = Some fs" and "(name, dp_policy s) \<in> set fs"
    and "ParseJob (jr_JobID rec) (jr_Tenant rec) (jr_Doc rec) = Inr j" and "jv_SessionJoin j \<noteq> []"
    and "dispatchOne rd rec s = (s', bound)"
  shows "if \<exists>sess. GetSession (dp_db s) (jv_SessionJoin j) = Inr sess \<and> ss_Tenant sess = jr_Tenant rec \<and> Live sess (rd_affinity rd)
    then \<exists>sess new execs. GetSession (dp_db s) (jv_SessionJoin j) = Inr sess \<and>
      tasks (dp_db s') = tasks (dp_db s) @ new \<and> (\<forall>t \<in> set new. tk_JobID t = jr_JobID rec \<and> tk_Target t = ss_Target sess) \<and>
      dp_spawned s' = dp_spawned s @ execs \<and> (\<forall>(r, t, g) \<in> set execs. jr_JobID r = jr_JobID rec \<and> g = ss_Target sess) \<and>
      (bound \<longrightarrow> (\<exists>t \<in> set (tasks (dp_db s')). tk_JobID t = jr_JobID rec \<and> tk_Target t = ss_Target sess))
    else \<not> bound \<and> tasks (dp_db s') = tasks (dp_db s) \<and> dp_spawned s' = dp_spawned s \<and>
      (phase_of (dp_db s) (jr_JobID rec) = Some Pending \<longrightarrow> phase_of (dp_db s') (jr_JobID rec) = Some Failed)"
proof -
  note reg = registered[OF assms(1,2)]
  show ?thesis
  proof (cases "\<exists>sess. GetSession (dp_db s) (jv_SessionJoin j) = Inr sess \<and> ss_Tenant sess = jr_Tenant rec \<and> Live sess (rd_affinity rd)")
    case True
    then obtain sess where sess: "GetSession (dp_db s) (jv_SessionJoin j) = Inr sess" "ss_Tenant sess = jr_Tenant rec"
      "Live sess (rd_affinity rd)" by blast
    let ?j = "j\<lparr>jv_RequireTargets := [ss_Target sess]\<rparr>"
    have aff: "sessionAffinity rd rec j (dp_db s) = (dp_db s, Some ?j)"
      using assms(4) sess by (simp add: sessionAffinity_def Let_def)
    then have "schedule_and_bind rd rec ?j s = (s', bound)" using assms(3,5) by (simp add: dispatchOne_def)
    then have only: "binds_only (jr_JobID rec) (ss_Target sess) s s'"
      using schedule_binds[OF reg, of ?j "ss_Target sess" rec rd] by simp
    have "\<exists>t \<in> set (tasks (dp_db s')). tk_JobID t = jr_JobID rec \<and> tk_Target t = ss_Target sess" if b: "bound"
    proof -
      from dispatchOne_bound[OF reg, of rd rec s'] assms(3,5) aff b obtain v t where
        "admits name ?j v (rd_now rd)" "t \<in> set (tasks (dp_db s'))"
        "tk_JobID t = jr_JobID rec" "tk_Target t = tv_Name v" by auto
      then show ?thesis by (auto simp: admits_def meets_def capable_def split: if_splits)
    qed
    with True only sess(1) show ?thesis unfolding binds_only_def by auto
  next
    case False
    then have "\<exists>msg. sessionAffinity rd rec j (dp_db s) = (failSessionLost (rd_db rd) (jr_JobID rec) msg (dp_db s), None)"
      using assms(4) by (cases "GetSession (dp_db s) (jv_SessionJoin j)") (auto simp: sessionAffinity_def Let_def)
    then obtain msg where "sessionAffinity rd rec j (dp_db s) = (failSessionLost (rd_db rd) (jr_JobID rec) msg (dp_db s), None)" ..
    with assms(3,5) have "s' = s\<lparr>dp_db := failSessionLost (rd_db rd) (jr_JobID rec) msg (dp_db s)\<rparr>" "\<not> bound"
      by (auto simp: dispatchOne_def)
    then show ?thesis unfolding if_not_P[OF False] by (simp add: failSessionLost_def phase_of_TransitionJob CanTransition_to)
  qed
qed

definition demo_join_job :: job_record where
  "demo_join_job = (demo_job ''j1'')\<lparr>jr_Doc := [(''spec'', JObj [(''workload'', JObj [(''kind'', JStr ''gate-model''),
     (''gateModel'', JObj [(''shots'', JNum 100)])]), (''session'', JObj [(''join'', JStr ''s1'')])])]\<rparr>"

theorem joined_job_runs_in_its_session_witness:
  "phase_of (dp_db (fst (dispatchOne (demo_reading\<lparr>rd_fleet := demo_fleet\<rparr>) demo_join_job demo_dispatcher))) ''j1'' = Some Failed"
proof -
  have "(case ParseJob ''j1'' ''acme/lab'' (jr_Doc demo_join_job) of Inr j \<Rightarrow> jv_SessionJoin j = ''s1'' | Inl _ \<Rightarrow> False)"
    by code_simp
  then obtain j where j: "ParseJob ''j1'' ''acme/lab'' (jr_Doc demo_join_job) = Inr j" "jv_SessionJoin j = ''s1''"
    by (auto split: sum.splits)
  obtain s' b where out: "dispatchOne (demo_reading\<lparr>rd_fleet := demo_fleet\<rparr>) demo_join_job demo_dispatcher = (s', b)" by force
  have d: "dp_policy demo_dispatcher = fifoPolicy" "dp_db demo_dispatcher = demo_pending" by (simp_all add: demo_dispatcher_def)
  have i: "jr_JobID demo_join_job = ''j1''" "jr_Tenant demo_join_job = ''acme/lab''"
    by (simp_all add: demo_join_job_def demo_job_def)
  have p: "phase_of demo_pending ''j1'' = Some Pending" "sessions demo_pending = []" by code_simp+
  have ns: "GetSession demo_pending ''s1'' = Inl ErrSessionNotFound" by (simp add: GetSession_def p(2) tbl_find_def)
  from joined_job_runs_in_its_session[OF init_factories_table _ _ _ out, of "''fifo/v0''" j] fifo_registered j out ns p(1)
  show ?thesis by (simp add: d i)
qed

end
