(* ===== verification/Execution_Properties.thy ===== *)
theory Execution_Properties
  imports Dispatcher Store_Properties
begin

text \<open>
  The contract of the executors: a bound job reaches a terminal phase whatever the adapter answers,
  what it is billed is what its status reports, and the latency figures are order statistics of the
  latest cycles.
\<close>

section \<open>An executor finishes its job\<close>

text \<open>The phases of a job with an active task.\<close>

definition active :: "phase \<Rightarrow> bool" where
  "active p \<longleftrightarrow> p \<in> {Scheduled, Submitted, Running}"

lemma failJob_active: "phase_of d i = Some p \<Longrightarrow> active p \<Longrightarrow> phase_of (failJob now i t g e d) i = Some Failed"
  by (auto simp: phase_of_failJob active_def CanTransition_to)

lemma phase_of_InsertSession [simp]: "phase_of (fst (InsertSession now s d)) = phase_of d"
  by (simp add: InsertSession_def phase_of_def fun_eq_iff)

text \<open>Getting a session leaves the job's phase, or fails the job.\<close>

lemma openSession_phase:
  assumes "phase_of d (jr_JobID rec) = Some p" and "active p"
    and "openSessionIfRequested env now sid rec t g d = (d', r)"
  shows "phase_of d' (jr_JobID rec) = Some (if r = None then Failed else p)"
proof -
  have p1: "InsertSession now s d = (d1, ir) \<Longrightarrow> phase_of d1 (jr_JobID rec) = Some p" for s d1 ir
    using assms(1) by (metis fst_conv phase_of_InsertSession)
  show ?thesis
    using assms
    by (auto simp: openSessionIfRequested_def Let_def failJob_active phase_of_SetJobCondition
        dest!: p1 split: sum.splits if_splits prod.splits option.splits)
qed

lemma session_phase:
  assumes "phase_of d (jr_JobID rec) = Some p" and "active p"
    and "sessionForExecution env now sid rec t g d = (d', r)"
  shows "phase_of d' (jr_JobID rec) = Some (if r = None then Failed else p)"
  using assms openSession_phase[OF assms(1,2), of env now sid t g d' r]
  by (auto simp: sessionForExecution_def failSessionLostTask_def failJob_active split: sum.splits if_splits)

lemma enter_submitted_phase:
  assumes "phase_of d (jr_JobID rec) = Some p" and "active p"
    and "enter_submitted now rec t a d = (d', out)"
  shows "\<exists>rec' q. out = Following rec' a \<and> jr_JobID rec' = jr_JobID rec \<and>
    phase_of d' (jr_JobID rec) = Some q \<and> followed q"
proof -
  let ?d1 = "fst (UpdateTask now t a ''QUEUED'' None None d)"
  obtain d2 r where tr: "TransitionJob now (jr_JobID rec) Submitted None ?d1 = (d2, r)" by force
  have ph: "phase_of d2 (jr_JobID rec) = Some (if p = Scheduled then Submitted else p)"
    using phase_of_TransitionJob[of now "jr_JobID rec" Submitted None ?d1 "jr_JobID rec"] tr assms(1,2)
    by (auto simp: CanTransition_to active_def)
  then obtain cur where cur: "GetJob d2 (jr_JobID rec) = Inr cur" "jr_Phase cur = (if p = Scheduled then Submitted else p)"
    using GetJob_phase by blast
  moreover have "jr_JobID cur = jr_JobID rec"
    using cur(1) by (auto simp: GetJob_def dest: tbl_find_Some split: option.splits)
  ultimately show ?thesis
    using assms tr ph by (auto simp: enter_submitted_def Let_def active_def followed_def split: sum.splits)
qed

lemma execute_phase:
  assumes "phase_of d (jr_JobID rec) = Some p" and "active p" and "\<not> ee_shutdown env"
    and "execute env now sid rec t g d = (d', out)"
  shows "out = Stopped \<and> phase_of d' (jr_JobID rec) = Some Failed \<or>
    (\<exists>rec' a q. out = Following rec' a \<and> jr_JobID rec' = jr_JobID rec \<and> phase_of d' (jr_JobID rec) = Some q \<and> followed q)"
proof -
  obtain d1 s where se: "sessionForExecution env now sid rec t g d = (d1, s)" by force
  note ph = session_phase[OF assms(1,2) se]
  have sub: "out = Stopped \<and> phase_of d' (jr_JobID rec) = Some Failed \<or>
    (\<exists>rec' a q. out = Following rec' a \<and> jr_JobID rec' = jr_JobID rec \<and> phase_of d' (jr_JobID rec) = Some q \<and> followed q)"
    if "submit_task env client now rec t g ps x d1 = (d', out)" "s = Some x" for client ps x
    using that ph assms(2,3) enter_submitted_phase[of d1 rec p now t _ d' out]
    by (auto simp: submit_task_def failJob_active split: sum.splits)
  show ?thesis
    using assms(4) se ph sub assms(1,2)
    by (auto simp: execute_def Let_def failJob_active split: option.splits sum.splits)
qed


definition demo_env :: exec_env where
  "demo_env = \<lparr>ee_client = (\<lambda>_. Some \<lparr>ad_OpenSession = (\<lambda>_ _ _. Inl []), ad_SubmitTask = (\<lambda>_. Inr ''v1'')\<rparr>),
     ee_unmarshal = (\<lambda>_. None), ee_b64_error = (\<lambda>_. []), ee_db_error = (\<lambda>_. []), ee_shutdown = False\<rparr>"

definition demo_status :: "task_state \<Rightarrow> TaskStatus" where
  "demo_status s = \<lparr>ts_State = s, ts_Result = None, ts_Usage = [(''shots'', 100), (''seconds'', 2), (''shots'', 5)], ts_Error = None\<rparr>"


section \<open>What a job is billed\<close>

lemma TransitionJob_record:
  assumes "tbl_find jr_JobID i (jobs d) = Some r" and "CanTransition (jr_Phase r) dst"
  shows "tbl_find jr_JobID i (jobs (fst (TransitionJob now i dst (Some f) d))) =
    Some (r\<lparr>jr_Phase := dst, jr_Status := set_key (f (jr_Status r)) ''phase'' (JStr (phase_str dst)), jr_UpdatedAt := now\<rparr>)"
proof -
  have "Transition (jr_Phase r) dst = None" using assms(2) by simp
  with assms show ?thesis
    by (simp add: TransitionJob_def Let_def write_job_def add_event_def tbl_find_update del: Transition_None)
qed

lemma usage_status_read:
  "arr_or (set_key (succeeded_status t g r us st) ''phase'' p) ''usage'' =
     map (\<lambda>(u, a). JObj [(''unit'', JStr u), (''amount'', JNum a)]) (sort_key fst us)"
  by (simp add: arr_or_def json_simps succeeded_status_def usageToStatus_def)

text \<open>C5: Billing agrees with what the user is shown. When a task that has not been billed yet succeeds, the
  job becomes \<open>SUCCEEDED\<close>, the ledger holds for each unit the sum of the adapter's records, and the
  nightly reconciliation finds no mismatch for the job.\<close>

theorem success_reconciles:
  assumes "phase_of d (jr_JobID rec) = Some p" and "p \<in> {Submitted, Running}" and "ts_State st = TSSucceeded"
    and "\<forall>r \<in> set (usage_ledger d). lg_JobID r \<noteq> jr_JobID rec \<and> lg_TaskID r \<noteq> taskID"
  shows "let d' = fst (applyTaskStatus env now rec taskID target a st running d) in
    \<exists>r. GetJob d' (jr_JobID rec) = Inr r \<and> jr_Phase r = Succeeded \<and> job_mismatches d' r = Some [] \<and>
      (\<forall>u. ledger_total d' (jr_JobID rec) u = sum_list (map snd (filter (\<lambda>x. fst x = u) (ts_Usage st))))"
proof -
  let ?i = "jr_JobID rec" and ?us = "usageToMap (ts_Usage st)" and ?res = "resultToMap env (ts_Result st)"
  let ?d1 = "fst (TransitionJob now ?i Running None d)"
  let ?d2 = "fst (UpdateTask now taskID a ''SUCCEEDED'' None ?res ?d1)"
  let ?d3 = "RecordUsage now ?i taskID (jr_Tenant rec) target ?us ?d2"
  let ?d' = "fst (TransitionJob now ?i Succeeded (Some (succeeded_status taskID target ?res ?us)) ?d3)"
  have d': "fst (applyTaskStatus env now rec taskID target a st running d) = ?d'"
    using assms(3) by (simp add: applyTaskStatus_def Let_def)
  have "phase_of ?d3 ?i = Some Running"
    using assms(1,2) by (auto simp: phase_of_TransitionJob CanTransition_to)
  then obtain r0 where r0: "tbl_find jr_JobID ?i (jobs ?d3) = Some r0" "jr_Phase r0 = Running"
    by (auto simp: phase_of_def)
  define r where "r = r0\<lparr>jr_Phase := Succeeded, jr_Status := set_key (succeeded_status taskID target ?res ?us (jr_Status r0))
    ''phase'' (JStr (phase_str Succeeded)), jr_UpdatedAt := now\<rparr>"
  have find: "tbl_find jr_JobID ?i (jobs ?d') = Some r"
    unfolding r_def by (rule TransitionJob_record[OF r0(1)]) (simp add: r0(2) CanTransition_to)
  have zero: "ledger_total ?d2 ?i u = 0" for u
    using assms(4) by (auto simp: ledger_total_def sum_rows_def filter_empty_conv intro!: sum_list_0)
  have total: "ledger_total ?d' ?i u = (case map_of ?us u of Some x \<Rightarrow> x | None \<Rightarrow> 0)" for u
    using ledger_total_RecordUsage[OF usageToMap_distinct, of "ts_Usage st" taskID ?d2 now ?i "jr_Tenant rec" target u] assms(4)
    by (auto simp: zero ledger_total_def[of ?d'] ledger_total_def[of ?d3] tbl_has_def ledger_key_def)
  have id: "jr_JobID r = ?i" using tbl_find_Some[OF find] by simp
  have "job_mismatches ?d' r = Some []"
  proof (rule job_mismatches_exact[where us = "sort_key fst ?us"])
    show "arr_or (jr_Status r) ''usage'' =
        map (\<lambda>(u, a). JObj [(''unit'', JStr u), (''amount'', JNum a)]) (sort_key fst ?us)"
      unfolding r_def by (simp add: usage_status_read)
    show "ledger_total ?d' (jr_JobID r) u = x" if "(u, x) \<in> set (sort_key fst ?us)" for u x
      using that map_of_is_SomeI[OF usageToMap_distinct, of u x] by (simp add: id total)
  qed
  moreover have "GetJob ?d' ?i = Inr r" by (simp add: GetJob_def find)
  moreover have "jr_Phase r = Succeeded" by (simp add: r_def)
  ultimately show ?thesis
    unfolding d' Let_def using total usage_add_total[of "[]" "ts_Usage st"] by (simp add: usageToMap_def)
qed

definition demo_success :: db where
  "demo_success = fst (applyTaskStatus demo_env 5 (demo_job ''j1'') ''t1'' ''siteA/dev1'' ''v1'' (demo_status TSSucceeded) True demo_running)"

theorem success_reconciles_witness:
  "(\<exists>r. GetJob demo_success ''j1'' = Inr r \<and> jr_Phase r = Succeeded) \<and> ledger_total demo_success ''j1'' ''shots'' = 105"
proof -
  have "phase_of demo_running ''j1'' = Some Running" "usage_ledger demo_running = []" by code_simp+
  then have "let d' = demo_success in
    \<exists>r. GetJob d' ''j1'' = Inr r \<and> jr_Phase r = Succeeded \<and> job_mismatches d' r = Some [] \<and>
      (\<forall>u. ledger_total d' ''j1'' u = sum_list (map snd (filter (\<lambda>x. fst x = u) (ts_Usage (demo_status TSSucceeded)))))"
    unfolding demo_success_def
    using success_reconciles[of demo_running "demo_job ''j1''" Running "demo_status TSSucceeded" "''t1''" demo_env 5 "''siteA/dev1''" "''v1''" True]
    by (simp add: demo_job_def) (simp add: demo_status_def)
  then show ?thesis by (auto simp: Let_def demo_status_def)
qed

section \<open>Restart\<close>

definition job_at :: "db \<Rightarrow> string \<Rightarrow> job_record" where
  "job_at d i = projr (GetJob d i)"

lemma resume_fold:
  assumes "distinct (map tk_JobID ts)" and "\<forall>t \<in> set ts. phase_of d (tk_JobID t) \<noteq> None" and "dp_db s = d"
    and "tk_JobID ` set ts \<inter> set (dp_inFlight s) = {}"
  shows "let s' = fold (\<lambda>t s'. case GetJob (dp_db s') (tk_JobID t) of
      Inl _ \<Rightarrow> s' | Inr rec \<Rightarrow> startExecutor rec (tk_TaskID t) (tk_Target t) s') ts s in
    dp_db s' = d \<and> dp_spawned s' = dp_spawned s @ map (\<lambda>t. (job_at d (tk_JobID t), tk_TaskID t, tk_Target t)) ts"
  using assms
proof (induction ts arbitrary: s)
  case (Cons t ts)
  from Cons.prems(2) obtain p where "phase_of d (tk_JobID t) = Some p" by auto
  then obtain r where r: "tbl_find jr_JobID (tk_JobID t) (jobs d) = Some r" by (auto simp: phase_of_def)
  then have g: "GetJob d (tk_JobID t) = Inr r" "jr_JobID r = tk_JobID t"
    using tbl_find_Some[OF r] by (simp_all add: GetJob_def)
  let ?s = "startExecutor r (tk_TaskID t) (tk_Target t) s"
  have "dp_inFlight ?s = tk_JobID t # dp_inFlight s" "dp_spawned ?s = dp_spawned s @ [(r, tk_TaskID t, tk_Target t)]"
    using Cons.prems(4) g(2) by (simp_all add: startExecutor_def)
  moreover from this Cons.IH[of ?s] Cons.prems have "let s' = fold (\<lambda>t s'. case GetJob (dp_db s') (tk_JobID t) of
      Inl _ \<Rightarrow> s' | Inr rec \<Rightarrow> startExecutor rec (tk_TaskID t) (tk_Target t) s') ts ?s in
    dp_db s' = d \<and> dp_spawned s' = dp_spawned ?s @ map (\<lambda>t. (job_at d (tk_JobID t), tk_TaskID t, tk_Target t)) ts"
    by simp
  ultimately show ?case using g Cons.prems(3) by (simp add: Let_def job_at_def)
qed simp

lemma active_has_task:
  assumes "reachable d" and "phase_of d i = Some p" and "active p"
  shows "\<exists>t \<in> set (ActiveTasks d). tk_JobID t = i"
proof -
  from reachable_ok[OF assms(1)] assms(2) have l: "legal_path (history d i)" "last (history d i) = p"
    and t: "Scheduled \<in> set (history d i) \<longrightarrow> i \<in> set (map tk_JobID (tasks d))"
    by (auto simp: db_ok_def store_inv_def jobs_ok_def tasks_ok_def)
  have "subseq (milestones p) (history d i)" using legal_path_milestones[OF l(1)] l(2) by simp
  then have "set (milestones p) \<subseteq> set (history d i)" by (auto simp: subseq_conv_nths dest: in_set_nthsD)
  then have "Scheduled \<in> set (history d i)" using assms(3) by (auto simp: active_def milestones_def)
  with t obtain t where "t \<in> set (tasks d)" "tk_JobID t = i" by auto
  with assms(2,3) show ?thesis by (auto simp: ActiveTasks_def active_def)
qed

text \<open>C6: Nothing in flight is forgotten over a restart. On every reachable database \<open>resume\<close> starts exactly one
  executor for each job that is scheduled, submitted or running, with the job's own task and target, and
  none for any other job.\<close>

theorem resume_restarts_every_active_job:
  assumes "reachable (dp_db s)" and "dp_inFlight s = []" and "dp_spawned s = []"
  shows "distinct (map (\<lambda>e. jr_JobID (fst e)) (dp_spawned (resume s))) \<and>
    (\<forall>i. i \<in> (\<lambda>e. jr_JobID (fst e)) ` set (dp_spawned (resume s)) \<longleftrightarrow>
       (\<exists>p \<in> {Scheduled, Submitted, Running}. phase_of (dp_db s) i = Some p)) \<and>
    (\<forall>(rec, taskID, target) \<in> set (dp_spawned (resume s)). GetJob (dp_db s) (jr_JobID rec) = Inr rec \<and>
       (\<exists>t \<in> set (tasks (dp_db s)). tk_JobID t = jr_JobID rec \<and> tk_TaskID t = taskID \<and> tk_Target t = target))"
proof -
  let ?d = "dp_db s" and ?ts = "ActiveTasks (dp_db s)"
  have dist: "distinct (map tk_JobID ?ts)"
    using reachable_ok[OF assms(1)]
    by (simp add: db_ok_def store_inv_def tasks_ok_def ActiveTasks_def distinct_map_filter)
  have act: "\<exists>p. phase_of ?d (tk_JobID t) = Some p \<and> active p" if "t \<in> set ?ts" for t
    using that by (auto simp: ActiveTasks_def active_def split: option.splits)
  then have sp: "dp_spawned (resume s) = map (\<lambda>t. (job_at ?d (tk_JobID t), tk_TaskID t, tk_Target t)) ?ts"
    using resume_fold[OF dist, of ?d s] assms(2,3) by (force simp: resume_def Let_def)
  have at: "GetJob ?d (tk_JobID t) = Inr (job_at ?d (tk_JobID t))" "jr_JobID (job_at ?d (tk_JobID t)) = tk_JobID t"
    if t: "t \<in> set ?ts" for t
  proof -
    from act[OF t] obtain r where "tbl_find jr_JobID (tk_JobID t) (jobs ?d) = Some r" by (auto simp: phase_of_def)
    then show "GetJob ?d (tk_JobID t) = Inr (job_at ?d (tk_JobID t))" "jr_JobID (job_at ?d (tk_JobID t)) = tk_JobID t"
      using tbl_find_Some by (fastforce simp: job_at_def GetJob_def)+
  qed
  have ids: "map (\<lambda>e. jr_JobID (fst e)) (dp_spawned (resume s)) = map tk_JobID ?ts"
    using at(2) by (simp add: sp)
  have "i \<in> tk_JobID ` set ?ts \<longleftrightarrow> (\<exists>p \<in> {Scheduled, Submitted, Running}. phase_of ?d i = Some p)" for i
    using act active_has_task[OF assms(1), of i] by (fastforce simp: active_def)
  moreover have "set (map (\<lambda>e. jr_JobID (fst e)) (dp_spawned (resume s))) = tk_JobID ` set ?ts" unfolding ids by simp
  moreover have "\<forall>(rec, taskID, target) \<in> set (dp_spawned (resume s)). GetJob ?d (jr_JobID rec) = Inr rec \<and>
       (\<exists>t \<in> set (tasks ?d). tk_JobID t = jr_JobID rec \<and> tk_TaskID t = taskID \<and> tk_Target t = target)"
    using at by (auto simp: sp ActiveTasks_def)
  ultimately show ?thesis using dist ids by (metis (no_types, lifting) list.set_map)
qed

definition demo_restart :: dispatcher where
  "demo_restart = \<lparr>dp_policy = fifoPolicy, dp_counters = (\<lambda>_. 0), dp_shadow = [], dp_inFlight = [], dp_spawned = [],
     dp_cycles = newCycleRing 4, dp_db = demo_running\<rparr>"

theorem resume_restarts_every_active_job_witness:
  "''j1'' \<in> (\<lambda>e. jr_JobID (fst e)) ` set (dp_spawned (resume demo_restart))"
proof -
  have "phase_of demo_running ''j1'' = Some Running" by code_simp
  then show ?thesis using resume_restarts_every_active_job[of demo_restart] demo_reachable(3) by (simp add: demo_restart_def)
qed

section \<open>Latency figures\<close>

lemma ring_of_fold: "ring_of c xs \<Longrightarrow> ring_of (fold ring_record ds c) (xs @ ds)"
proof (induction ds arbitrary: c xs)
  case (Cons d ds)
  from Cons.IH[OF ring_of_record[OF Cons.prems]] show ?case by simp
qed simp

lemma ring_size [simp]: "length (cr_buf (fold ring_record ds c)) = length (cr_buf c)"
  by (induction ds arbitrary: c) (simp_all add: ring_record_def)

text \<open>C25: The latency ring implements its specification, the list of all samples: after any sequence of cycles
  the count is their number, and each percentile is the nearest-rank order statistic of the most
  recent samples, as many as the ring has slots, with the median at most the 99th percentile and that at
  most the maximum.\<close>

theorem ring_reports_recent_order_statistics:
  assumes "0 < sz" and "ds \<noteq> []"
  shows "let c = fold ring_record ds (newCycleRing sz); recent = drop (length ds - nat sz) ds in
    CycleCount c = int (length ds) \<and> (\<forall>q. percentile q c = sort recent ! pct_index q (length recent)) \<and>
    CycleP50 c \<le> CycleP99 c \<and> CycleP99 c \<le> CycleMax c \<and> CycleMax c = Max (set recent)"
proof -
  let ?c = "fold ring_record ds (newCycleRing sz)" and ?r = "drop (length ds - nat sz) ds"
  let ?l = "take (cr_count ?c) (cr_buf ?c)"
  have ring: "ring_of ?c ds" using ring_of_fold[OF ring_of_new[of sz], of ds] by simp
  have len: "length (cr_buf ?c) = nat sz" using assms(1) by (simp add: newCycleRing_def Let_def)
  from ring_live[OF ring] have m: "mset ?l = mset ?r" by (simp only: len last_n_def)
  have ne: "?r \<noteq> []" using assms by (cases ds) simp_all
  then have "?l \<noteq> []" using m by (metis mset_zero_iff)
  moreover have "sort ?l = sort ?r" using m by (simp add: properties_for_sort)
  moreover have "length ?l = length ?r" using m by (metis size_mset)
  ultimately have pct: "percentile q ?c = sort ?r ! pct_index q (length ?r)" for q
    using percentile_nth[of ?c q] by simp
  have mono: "percentile q ?c \<le> percentile q' ?c" if "q \<le> q'" for q q'
    unfolding pct using ne that pct_index_mono[of "length ?r" q q'] pct_index_bound[of "length ?r" q']
    by (intro sorted_nth_mono) auto
  have "percentile 1 ?c = sort ?r ! (length ?r - 1)" by (simp add: pct pct_index_def)
  also have "\<dots> = last (sort ?r)" using ne by (metis last_conv_nth length_0_conv length_sort)
  also have "\<dots> = Max (set ?r)"
  proof (rule Max_eqI[symmetric])
    show "last (sort ?r) \<in> set ?r" using ne by (metis last_in_set length_0_conv length_sort set_sort)
    show "y \<le> last (sort ?r)" if "y \<in> set ?r" for y
    proof -
      from that obtain k where "k < length (sort ?r)" "sort ?r ! k = y" by (metis in_set_conv_nth set_sort)
      moreover have "sort ?r \<noteq> []" using ne by (metis length_0_conv length_sort)
      ultimately show ?thesis
        using sorted_nth_mono[of "sort ?r" k "length (sort ?r) - 1"] by (simp add: last_conv_nth del: length_sort)
    qed
  qed simp
  finally have mx: "CycleMax ?c = Max (set ?r)" by (simp add: CycleMax_def)
  have "CycleCount ?c = int (length ds)" using ring by (simp add: CycleCount_def lifetime_def ring_of_def)
  moreover have "CycleP50 ?c \<le> CycleP99 ?c" "CycleP99 ?c \<le> CycleMax ?c"
    using mono[of "50 / 100" "99 / 100"] mono[of "99 / 100" 1] by (simp_all add: CycleP50_def CycleP99_def CycleMax_def)
  ultimately show ?thesis using pct mx by (simp add: Let_def)
qed

theorem ring_reports_recent_order_statistics_witness:
  "CycleMax (fold ring_record [9, 1, 4, 3] (newCycleRing 3)) = Max (set [1, 4, 3])"
  using ring_reports_recent_order_statistics[of 3 "[9, 1, 4, 3]"] by (simp add: Let_def)

end
