(* ===== verification/Sha256.thy ===== *)
theory Sha256
  imports Rabi_Prelude "HOL-Library.Word"
begin

text \<open>
  \<open>crypto/sha256\<close> and \<open>encoding/hex\<close> of Go's standard library, which the token code hashes and
  prints with: SHA-256 of FIPS 180-4 on 32-bit words, over a string of bytes.
\<close>

unbundle bit_operations_syntax

definition sha_K :: "32 word list" where
  "sha_K = [
     0x428A2F98, 0x71374491, 0xB5C0FBCF, 0xE9B5DBA5, 0x3956C25B, 0x59F111F1,
     0x923F82A4, 0xAB1C5ED5, 0xD807AA98, 0x12835B01, 0x243185BE, 0x550C7DC3,
     0x72BE5D74, 0x80DEB1FE, 0x9BDC06A7, 0xC19BF174, 0xE49B69C1, 0xEFBE4786,
     0x0FC19DC6, 0x240CA1CC, 0x2DE92C6F, 0x4A7484AA, 0x5CB0A9DC, 0x76F988DA,
     0x983E5152, 0xA831C66D, 0xB00327C8, 0xBF597FC7, 0xC6E00BF3, 0xD5A79147,
     0x06CA6351, 0x14292967, 0x27B70A85, 0x2E1B2138, 0x4D2C6DFC, 0x53380D13,
     0x650A7354, 0x766A0ABB, 0x81C2C92E, 0x92722C85, 0xA2BFE8A1, 0xA81A664B,
     0xC24B8B70, 0xC76C51A3, 0xD192E819, 0xD6990624, 0xF40E3585, 0x106AA070,
     0x19A4C116, 0x1E376C08, 0x2748774C, 0x34B0BCB5, 0x391C0CB3, 0x4ED8AA4A,
     0x5B9CCA4F, 0x682E6FF3, 0x748F82EE, 0x78A5636F, 0x84C87814, 0x8CC70208,
     0x90BEFFFA, 0xA4506CEB, 0xBEF9A3F7, 0xC67178F2]"

definition sha_H0 :: "32 word list" where
  "sha_H0 = [0x6A09E667, 0xBB67AE85, 0x3C6EF372, 0xA54FF53A,
     0x510E527F, 0x9B05688C, 0x1F83D9AB, 0x5BE0CD19]"

text \<open>Padding: the bit 1, zeros up to 56 modulo 64 bytes, the bit length in 8 bytes.\<close>

definition be_bytes :: "nat \<Rightarrow> int \<Rightarrow> int list" where
  "be_bytes n x = map (\<lambda>i. x div 256 ^ (n - 1 - i) mod 256) [0..<n]"

definition sha_pad :: "string \<Rightarrow> int list" where
  "sha_pad s = map of_char s @ [128] @ replicate ((119 - length s mod 64) mod 64) 0 @ be_bytes 8 (8 * int (length s))"

fun be_words :: "int list \<Rightarrow> 32 word list" where
  "be_words (a # b # c # d # xs) = of_int (((a * 256 + b) * 256 + c) * 256 + d) # be_words xs"
| "be_words _ = []"

fun sha_blocks :: "nat \<Rightarrow> 'a list \<Rightarrow> 'a list list" where
  "sha_blocks 0 xs = []"
| "sha_blocks (Suc n) xs = take 16 xs # sha_blocks n (drop 16 xs)"

text \<open>\<open>bits.RotateLeft32(x, -n)\<close>.\<close>

definition rotr32 :: "nat \<Rightarrow> 32 word \<Rightarrow> 32 word" where
  "rotr32 n x = drop_bit n x OR push_bit (32 - n) x"

definition sigma0 :: "32 word \<Rightarrow> 32 word" where
  "sigma0 x = rotr32 7 x XOR rotr32 18 x XOR drop_bit 3 x"

definition sigma1 :: "32 word \<Rightarrow> 32 word" where
  "sigma1 x = rotr32 17 x XOR rotr32 19 x XOR drop_bit 10 x"

text \<open>The message schedule, newest word first.\<close>

fun sha_schedule :: "nat \<Rightarrow> 32 word list \<Rightarrow> 32 word list" where
  "sha_schedule 0 ws = ws"
| "sha_schedule (Suc n) ws =
     sha_schedule n ((sigma1 (ws ! 1) + ws ! 6 + sigma0 (ws ! 14) + ws ! 15) # ws)"

fun sha_round :: "32 word \<times> 32 word \<Rightarrow> 32 word list \<Rightarrow> 32 word list" where
  "sha_round (k, w) [a, b, c, d, e, f, g, h] =
     (let S1 = rotr32 6 e XOR rotr32 11 e XOR rotr32 25 e;
          ch = (e AND f) XOR (NOT e AND g);
          t1 = h + S1 + ch + k + w;
          S0 = rotr32 2 a XOR rotr32 13 a XOR rotr32 22 a;
          maj = (a AND b) XOR (a AND c) XOR (b AND c)
      in [t1 + (S0 + maj), a, b, c, d + t1, e, f, g])"
| "sha_round _ hs = hs"

definition sha_block :: "32 word list \<Rightarrow> 32 word list \<Rightarrow> 32 word list" where
  "sha_block blk hs =
     map2 (+) hs (fold sha_round (zip sha_K (rev (sha_schedule 48 (rev blk)))) hs)"

definition Sum256 :: "string \<Rightarrow> string" where
  "Sum256 s =
     (let ws = be_words (sha_pad s);
          hs = fold sha_block (sha_blocks (length ws div 16) ws) sha_H0
      in map char_of (concat (map (\<lambda>w. be_bytes 4 (uint w)) hs)))"

text \<open>\<open>hex.EncodeToString\<close>.\<close>

definition hex_char :: "nat \<Rightarrow> char" where
  "hex_char n = ''0123456789abcdef'' ! (n mod 16)"

definition EncodeToString :: "string \<Rightarrow> string" where
  "EncodeToString s = concat (map (\<lambda>c. [hex_char (of_char c div 16), hex_char (of_char c mod 16)]) s)"

section \<open>Facts\<close>

lemma hex_char_mem: "hex_char n \<in> set ''0123456789abcdef''"
proof -
  have "n mod 16 < length ''0123456789abcdef''" by simp
  then show ?thesis unfolding hex_char_def by (rule nth_mem)
qed

lemma set_EncodeToString: "set (EncodeToString s) \<subseteq> set ''0123456789abcdef''"
proof -
  have "set [hex_char a, hex_char b] \<subseteq> set ''0123456789abcdef''" for a b
    using hex_char_mem[of a] hex_char_mem[of b] unfolding list.set(2)[of "hex_char a"] list.set(2)[of "hex_char b"] list.set(1) by blast
  then show ?thesis unfolding EncodeToString_def set_concat by fastforce
qed

lemma length_EncodeToString [simp]: "length (EncodeToString s) = 2 * length s"
  by (induction s) (simp_all add: EncodeToString_def)

end
