(* ===== verification/Auth_Core.thy ===== *)
theory Auth_Core
  imports Sha256 Go_Fmt Json_Doc
begin

text \<open>
  \<open>internal/auth\<close>: the ordered roles, principals and project scope (\<open>auth.go\<close>), the authorization
  matrix (\<open>matrix.go\<close>), API tokens (\<open>token.go\<close>) and the mapping of OIDC claims to a principal
  (\<open>oidc.go\<close>). The random bytes of \<open>crypto/rand\<close> are arguments; the OIDC library's verification of
  a JWT is a parameter. The context carries the principal, or none.
\<close>

section \<open>Roles\<close>

datatype Role = RoleViewer | RoleMember | RoleOperator | RoleAdmin

fun role_level :: "Role \<Rightarrow> nat" where
  "role_level RoleViewer = 0"
| "role_level RoleMember = 1"
| "role_level RoleOperator = 2"
| "role_level RoleAdmin = 3"

instantiation Role :: linorder
begin

definition less_eq_Role :: "Role \<Rightarrow> Role \<Rightarrow> bool" where
  "less_eq_Role a b \<longleftrightarrow> role_level a \<le> role_level b"

definition less_Role :: "Role \<Rightarrow> Role \<Rightarrow> bool" where
  "less_Role a b \<longleftrightarrow> role_level a < role_level b"

instance
proof
  fix a b c :: Role
  show "a < b \<longleftrightarrow> a \<le> b \<and> \<not> b \<le> a" by (auto simp: less_eq_Role_def less_Role_def)
  show "a \<le> a" by (simp add: less_eq_Role_def)
  show "a \<le> b \<Longrightarrow> b \<le> c \<Longrightarrow> a \<le> c" by (simp add: less_eq_Role_def)
  show "a \<le> b \<Longrightarrow> b \<le> a \<Longrightarrow> a = b" by (cases a; cases b) (simp_all add: less_eq_Role_def)
  show "a \<le> b \<or> b \<le> a" by (auto simp: less_eq_Role_def)
qed

end

lemmas role_order = less_eq_Role_def less_Role_def

definition roleNames :: "(Role \<times> string) list" where
  "roleNames = [(RoleViewer, ''viewer''), (RoleMember, ''member''), (RoleOperator, ''operator''),
     (RoleAdmin, ''admin'')]"

definition role_String :: "Role \<Rightarrow> string" where
  "role_String r = (case map_of roleNames r of Some n \<Rightarrow> n | None \<Rightarrow> ''role('' @ itoa (role_level r) @ '')'')"

definition ParseRole :: "string \<Rightarrow> string + Role" where
  "ParseRole s = (case find (\<lambda>(r, n). n = s) roleNames of
      Some (r, n) \<Rightarrow> Inr r
    | None \<Rightarrow> Inl (''unknown role '' @ quote s @ '' (want viewer|member|operator|admin)''))"

definition Roles :: "Role list" where
  "Roles = [RoleViewer, RoleMember, RoleOperator, RoleAdmin]"

section \<open>Principals\<close>

datatype PrincipalType = PrincipalOIDC | PrincipalToken | PrincipalBootstrap

fun principal_type_str :: "PrincipalType \<Rightarrow> string" where
  "principal_type_str PrincipalOIDC = ''oidc''"
| "principal_type_str PrincipalToken = ''token''"
| "principal_type_str PrincipalBootstrap = ''bootstrap''"

record Principal =
  pr_Type :: PrincipalType
  pr_Subject :: string
  pr_Name :: string
  pr_Role :: Role
  pr_Project :: string

text \<open>The gRPC status codes the handlers use, and an error status.\<close>

datatype grpc_code = InvalidArgument | NotFound | PermissionDenied | ResourceExhausted | FailedPrecondition
  | Internal | Unauthenticated | Canceled | Unavailable | Unimplemented

type_synonym status = "grpc_code \<times> string"
type_synonym ctx = "Principal option"

definition FromContext :: "ctx \<Rightarrow> Principal option" where
  "FromContext c = c"

definition WithPrincipal :: "ctx \<Rightarrow> Principal \<Rightarrow> ctx" where
  "WithPrincipal c p = Some p"

definition CheckProject :: "ctx \<Rightarrow> string \<Rightarrow> status option" where
  "CheckProject c project =
     (case FromContext c of
        None \<Rightarrow> Some (Unauthenticated, ''no principal in context'')
      | Some p \<Rightarrow>
          if pr_Project p \<noteq> [] \<and> pr_Project p \<noteq> project
          then Some (PermissionDenied, ''token is scoped to project '' @ quote (pr_Project p) @ '', not '' @ quote project)
          else None)"

section \<open>The authorization matrix\<close>

definition minRole :: "(string \<times> Role) list" where
  "minRole =
    [(''/tangle.api.v1alpha1.JobsService/SubmitJob'', RoleMember),
     (''/tangle.api.v1alpha1.JobsService/GetJob'', RoleViewer),
     (''/tangle.api.v1alpha1.JobsService/ListJobs'', RoleViewer),
     (''/tangle.api.v1alpha1.JobsService/WatchJob'', RoleViewer),
     (''/tangle.api.v1alpha1.JobsService/CancelJob'', RoleMember),
     (''/tangle.api.v1alpha1.TargetsService/ListTargets'', RoleViewer),
     (''/tangle.api.v1alpha1.TargetsService/GetTarget'', RoleViewer),
     (''/tangle.api.v1alpha1.UsageService/GetTenantUsage'', RoleViewer),
     (''/rabi.admin.v1alpha1.AdminService/WhoAmI'', RoleViewer),
     (''/rabi.admin.v1alpha1.AdminService/ListTokens'', RoleOperator),
     (''/rabi.admin.v1alpha1.AdminService/CreateToken'', RoleAdmin),
     (''/rabi.admin.v1alpha1.AdminService/RevokeToken'', RoleAdmin),
     (''/rabi.admin.v1alpha1.AdminService/CreateProject'', RoleAdmin),
     (''/rabi.admin.v1alpha1.AdminService/ListProjects'', RoleOperator),
     (''/rabi.admin.v1alpha1.AdminService/ArchiveProject'', RoleAdmin),
     (''/rabi.admin.v1alpha1.AdminService/SetQuota'', RoleAdmin),
     (''/rabi.admin.v1alpha1.AdminService/ListQuotas'', RoleOperator),
     (''/rabi.admin.v1alpha1.AdminService/ExportLedger'', RoleViewer)]"

definition MinRole :: "string \<Rightarrow> Role option" where
  "MinRole fullMethod = map_of minRole fullMethod"

definition Authorize :: "Principal \<Rightarrow> string \<Rightarrow> status option" where
  "Authorize p fullMethod =
     (case map_of minRole fullMethod of
        None \<Rightarrow> Some (PermissionDenied, ''method '' @ fullMethod @ '' has no authorization matrix entry'')
      | Some want \<Rightarrow>
          if pr_Role p < want
          then Some (PermissionDenied, fullMethod @ '' requires role '' @ role_String want @ '' or higher; '' @
            principal_type_str (pr_Type p) @ '' '' @ quote (pr_Name p) @ '' has role '' @ role_String (pr_Role p))
          else None)"

section \<open>API tokens\<close>

definition tokenPrefix :: string where
  "tokenPrefix = ''rabi_''"

definition HashToken :: "string \<Rightarrow> string" where
  "HashToken plaintext = EncodeToString (Sum256 plaintext)"

text \<open>The arguments are the two reads of the random source: an error or the bytes.\<close>

definition MintToken :: "string + string \<Rightarrow> string + string \<Rightarrow> string + (string \<times> string \<times> string)" where
  "MintToken rnd_id rnd_sec =
     (case rnd_id of
        Inl e \<Rightarrow> Inl (''mint token id: '' @ e)
      | Inr idb \<Rightarrow>
          (case rnd_sec of
             Inl e \<Rightarrow> Inl (''mint token secret: '' @ e)
           | Inr sec \<Rightarrow>
               (let i = EncodeToString idb;
                    plaintext = tokenPrefix @ i @ ''_'' @ EncodeToString sec
                in Inr (plaintext, i, HashToken plaintext))))"

definition IsToken :: "string \<Rightarrow> bool" where
  "IsToken bearer = prefix tokenPrefix bearer"

definition TokenID :: "string \<Rightarrow> string + string" where
  "TokenID bearer =
     (case CutPrefix tokenPrefix bearer of
        None \<Rightarrow> Inl ''not a rabi API token''
      | Some rest \<Rightarrow>
          (case Cut (CHR ''_'') rest of
             None \<Rightarrow> Inl ''malformed rabi API token''
           | Some (i, _) \<Rightarrow> if i = [] then Inl ''malformed rabi API token'' else Inr i))"

text \<open>A constant-time comparison is true exactly on equal strings.\<close>

definition VerifyTokenHash :: "string \<Rightarrow> string \<Rightarrow> bool" where
  "VerifyTokenHash presented storedHash \<longleftrightarrow> HashToken presented = storedHash"

section \<open>OIDC\<close>

record OIDCConfig =
  oc_Issuer :: string
  oc_ClientID :: string
  oc_GroupsClaim :: string
  oc_GroupRoles :: "(string \<times> Role) list"
  oc_DefaultRole :: Role

text \<open>A verified token; \<open>idt_Claims\<close> is what decoding its claims gives.\<close>

record id_token =
  idt_Issuer :: string
  idt_Subject :: string
  idt_Claims :: "string + obj"

record OIDCVerifier =
  ov_cfg :: OIDCConfig
  ov_verifier :: "string \<Rightarrow> string + id_token"

text \<open>\<open>discover\<close> is the provider's discovery: the verifier for an issuer and an audience, or an error.\<close>

definition NewOIDCVerifier ::
  "(string \<Rightarrow> string \<Rightarrow> string + (string \<Rightarrow> string + id_token)) \<Rightarrow> OIDCConfig \<Rightarrow> string + OIDCVerifier" where
  "NewOIDCVerifier discover cfg =
     (if oc_Issuer cfg = [] \<or> oc_ClientID cfg = [] then Inl ''oidc: issuer and client id are required''
      else
        (let cfg1 = (if oc_GroupsClaim cfg = [] then cfg\<lparr>oc_GroupsClaim := ''groups''\<rparr> else cfg)
         in case discover (oc_Issuer cfg1) (oc_ClientID cfg1) of
              Inl e \<Rightarrow> Inl (''oidc: discover '' @ oc_Issuer cfg1 @ '': '' @ e)
            | Inr v \<Rightarrow> Inr \<lparr>ov_cfg = cfg1, ov_verifier = v\<rparr>))"

text \<open>The loop over the groups: a value that is not a string reads as the empty name.\<close>

definition raise_role :: "(string \<times> Role) list \<Rightarrow> json \<Rightarrow> Role \<Rightarrow> Role" where
  "raise_role groupRoles g role =
     (case map_of groupRoles (case g of JStr s \<Rightarrow> s | _ \<Rightarrow> []) of
        Some r \<Rightarrow> if r > role then r else role
      | None \<Rightarrow> role)"

definition claims_role :: "OIDCConfig \<Rightarrow> obj \<Rightarrow> Role" where
  "claims_role cfg claims =
     (case get_arr claims (oc_GroupsClaim cfg) of
        Some raw \<Rightarrow> fold (raise_role (oc_GroupRoles cfg)) raw (oc_DefaultRole cfg)
      | None \<Rightarrow> oc_DefaultRole cfg)"

fun claims_name :: "obj \<Rightarrow> string list \<Rightarrow> string \<Rightarrow> string" where
  "claims_name claims [] dflt = dflt"
| "claims_name claims (k # ks) dflt =
     (case get_str claims k of
        Some s \<Rightarrow> if s \<noteq> [] then s else claims_name claims ks dflt
      | None \<Rightarrow> claims_name claims ks dflt)"

definition Verify :: "OIDCVerifier \<Rightarrow> string \<Rightarrow> string + Principal" where
  "Verify v rawToken =
     (case ov_verifier v rawToken of
        Inl e \<Rightarrow> Inl (''oidc: '' @ e)
      | Inr idToken \<Rightarrow>
          (case idt_Claims idToken of
             Inl e \<Rightarrow> Inl (''oidc: decode claims: '' @ e)
           | Inr claims \<Rightarrow>
               Inr \<lparr>pr_Type = PrincipalOIDC,
                    pr_Subject = idt_Issuer idToken @ ''|'' @ idt_Subject idToken,
                    pr_Name = claims_name claims [''email'', ''preferred_username'', ''name''] (idt_Subject idToken),
                    pr_Role = claims_role (ov_cfg v) claims,
                    pr_Project = []\<rparr>))"

section \<open>Facts\<close>

lemma ParseRole_String [simp]: "ParseRole (role_String r) = Inr r"
  by (cases r) (simp_all add: ParseRole_def role_String_def roleNames_def)

lemma ParseRole_ok: "ParseRole s = Inr r \<Longrightarrow> s = role_String r"
  by (auto simp: ParseRole_def role_String_def roleNames_def split: if_splits)

lemma Authorize_None: "Authorize p m = None \<longleftrightarrow> (\<exists>want. MinRole m = Some want \<and> want \<le> pr_Role p)"
  by (auto simp: Authorize_def MinRole_def not_less split: option.splits)

lemma Authorize_code: "Authorize p m = Some (c, msg) \<Longrightarrow> c = PermissionDenied"
  by (auto simp: Authorize_def split: option.splits if_splits)

lemma CheckProject_None:
  "CheckProject c project = None \<longleftrightarrow> (\<exists>p. c = Some p \<and> (pr_Project p = [] \<or> pr_Project p = project))"
  by (auto simp: CheckProject_def FromContext_def split: option.splits if_splits)

lemma TokenID_mint:
  assumes "MintToken (Inr idb) (Inr sec) = Inr (plain, i, h)" and "idb \<noteq> []"
  shows "IsToken plain" "TokenID plain = Inr i" "VerifyTokenHash plain h"
proof -
  from assms(1) have p: "plain = tokenPrefix @ EncodeToString idb @ ''_'' @ EncodeToString sec"
    "i = EncodeToString idb" "h = HashToken plain" by (auto simp: MintToken_def Let_def)
  have "CHR ''_'' \<notin> set (EncodeToString idb)" using set_EncodeToString[of idb] by auto
  moreover have "EncodeToString idb \<noteq> []" using assms(2) length_EncodeToString[of idb] by force
  ultimately
  show "IsToken plain" "TokenID plain = Inr i" "VerifyTokenHash plain h"
    by (simp_all add: p IsToken_def TokenID_def VerifyTokenHash_def Cut_append)
qed

text \<open>The role of OIDC claims is the highest of the default and the mapped groups.\<close>

lemma raise_role_max:
  "raise_role gr g role = (case map_of gr (case g of JStr s \<Rightarrow> s | _ \<Rightarrow> []) of Some r \<Rightarrow> max r role | None \<Rightarrow> role)"
  by (auto simp: raise_role_def max_def split: option.splits)

lemma fold_raise_role:
  "fold (raise_role gr) raw role = Max (insert role {r. \<exists>g \<in> set raw. map_of gr (case g of JStr s \<Rightarrow> s | _ \<Rightarrow> []) = Some r})"
proof (induction raw arbitrary: role)
  case (Cons g raw)
  let ?S = "{r. \<exists>g \<in> set raw. map_of gr (case g of JStr s \<Rightarrow> s | _ \<Rightarrow> []) = Some r}"
  have fin: "finite ?S"
    by (rule finite_subset[of _ "snd ` set gr"]) (auto dest!: map_of_SomeD intro: rev_image_eqI)
  show ?case
  proof (cases "map_of gr (case g of JStr s \<Rightarrow> s | _ \<Rightarrow> [])")
    case None
    then show ?thesis using Cons by (simp add: raise_role_max)
  next
    case (Some r)
    then have "{r. \<exists>g \<in> set (g # raw). map_of gr (case g of JStr s \<Rightarrow> s | _ \<Rightarrow> []) = Some r} = insert r ?S" by auto
    with Some Cons fin show ?thesis
      by (cases "?S = {}") (simp_all add: raise_role_max max.assoc max.commute max.left_commute)
  qed
qed simp

end
