(* ===== verification/Admission.thy ===== *)
theory Admission
  imports Registry
begin

text \<open>
  Admission of a job document (\<open>internal/job/validate.go\<close>). The JSON Schema validator is a
  third-party library: \<open>schema\<close> is an argument that says whether the document conforms to the
  specification's schema. What the code relies on, and reads without a check, is \<open>conforms_shape\<close>:
  the required members have the types the schema gives them.
\<close>

section \<open>Definitions\<close>

definition specKnownUnits :: "string list" where
  "specKnownUnits = [''qpu-seconds'', ''shots'', ''tasks'', ''credits'']"

definition payloadFieldForKind :: "(string \<times> string) list" where
  "payloadFieldForKind = [(''gate-model'', ''gateModel''), (''analog-hamiltonian'', ''analogHamiltonian''),
     (''annealing'', ''annealing''), (''pulse'', ''pulse''), (''logical'', ''logical'')]"

record Condition =
  cn_Type :: string
  cn_Status :: string
  cn_Reason :: string
  cn_Message :: string

record Admitted =
  am_Tenant :: string
  am_Name :: string
  am_Doc :: obj
  am_Warnings :: "Condition list"

datatype admit_error =
    AENoDocument
  | AEStatusSet
  | AESchema
  | AETenantMismatch string string
  | AEExtraPayload string string
  | AEBadDeadline string
  | AEPastDeadline string
  | AEUnknownUnit string "string list"
  | AEPanic

definition knownUnitList :: "FleetView \<Rightarrow> string list" where
  "knownUnitList fleet = sort (specKnownUnits @ filter (\<lambda>u. u \<notin> set specKnownUnits) (fl_BillingUnits fleet))"

definition programFormat :: "obj \<Rightarrow> string \<Rightarrow> string" where
  "programFormat workload field =
     (case get_obj workload field of
        None \<Rightarrow> []
      | Some payload \<Rightarrow>
          (case get_obj payload ''program'' of None \<Rightarrow> [] | Some program \<Rightarrow> str_or program ''format''))"

text \<open>The five semantic checks after the schema, each \<open>None\<close> when passed.\<close>

definition check_tenant :: "string \<Rightarrow> string \<Rightarrow> admit_error option" where
  "check_tenant requestTenant tenant =
     (if requestTenant \<noteq> [] \<and> requestTenant \<noteq> tenant then Some (AETenantMismatch tenant requestTenant) else None)"

definition check_payloads :: "obj \<Rightarrow> string \<Rightarrow> admit_error option" where
  "check_payloads workload kind =
     (let want = (case map_of payloadFieldForKind kind of Some f \<Rightarrow> f | None \<Rightarrow> [])
      in case find (\<lambda>f. f \<noteq> want \<and> get workload f \<noteq> None) (map snd payloadFieldForKind) of
           Some f \<Rightarrow> Some (AEExtraPayload f kind)
         | None \<Rightarrow> None)"

definition check_deadline :: "time \<Rightarrow> obj \<Rightarrow> admit_error option" where
  "check_deadline now spec =
     (case get_str spec ''deadline'' of
        None \<Rightarrow> None
      | Some raw \<Rightarrow>
          (case ParseRFC3339 raw of
             None \<Rightarrow> Some (AEBadDeadline raw)
           | Some t \<Rightarrow> if t > now then None else Some (AEPastDeadline raw)))"

definition check_units :: "FleetView \<Rightarrow> obj \<Rightarrow> admit_error option" where
  "check_units fleet spec =
     (case find (\<lambda>u. u \<notin> set specKnownUnits \<and> u \<notin> set (fl_BillingUnits fleet))
        (map fst (obj_or (obj_or spec ''budget'') ''limits'')) of
        Some u \<Rightarrow> Some (AEUnknownUnit u (knownUnitList fleet))
      | None \<Rightarrow> None)"

definition format_warnings :: "FleetView \<Rightarrow> string \<Rightarrow> Condition list" where
  "format_warnings fleet format =
     (if format \<noteq> [] \<and> format \<notin> set (fl_ProgramFormats fleet)
      then [\<lparr>cn_Type = ''FormatAvailable'', cn_Status = ''False'', cn_Reason = ''NoRegisteredTarget'',
             cn_Message = ''no registered target currently accepts program format '' @ quote format @
               ''; the job will stay PENDING until one does''\<rparr>]
      else [])"

fun first_error :: "'e option list \<Rightarrow> 'e option" where
  "first_error [] = None"
| "first_error (Some e # es) = Some e"
| "first_error (None # es) = first_error es"

text \<open>\<open>Admit\<close>; a nil document is \<open>None\<close>. The unchecked type assertions panic on a document without
  the required members, which the schema excludes.\<close>

definition Admit :: "(obj \<Rightarrow> bool) \<Rightarrow> time \<Rightarrow> obj option \<Rightarrow> string \<Rightarrow> FleetView \<Rightarrow> admit_error + Admitted" where
  "Admit schema now document requestTenant fleet =
     (case document of
        None \<Rightarrow> Inl AENoDocument
      | Some doc \<Rightarrow>
          if get doc ''status'' \<noteq> None then Inl AEStatusSet
          else if \<not> schema doc then Inl AESchema
          else
            (case (get_obj doc ''metadata'', get_obj doc ''spec'') of
               (Some metadata, Some spec) \<Rightarrow>
                 (case (get_str metadata ''name'', get_str metadata ''tenant'', get_obj spec ''workload'') of
                    (Some name, Some tenant, Some workload) \<Rightarrow>
                      (case get_str workload ''kind'' of
                         None \<Rightarrow> Inl AEPanic
                       | Some kind \<Rightarrow>
                           (let want = (case map_of payloadFieldForKind kind of Some f \<Rightarrow> f | None \<Rightarrow> [])
                            in case first_error [check_tenant requestTenant tenant, check_payloads workload kind,
                                 check_deadline now spec, check_units fleet spec] of
                                 Some e \<Rightarrow> Inl e
                               | None \<Rightarrow> Inr \<lparr>am_Tenant = tenant, am_Name = name, am_Doc = doc,
                                   am_Warnings = format_warnings fleet (programFormat workload want)\<rparr>))
                  | _ \<Rightarrow> Inl AEPanic)
             | _ \<Rightarrow> Inl AEPanic))"

section \<open>Facts\<close>

text \<open>The shape the schema guarantees.\<close>

definition conforms_shape :: "obj \<Rightarrow> bool" where
  "conforms_shape doc =
     (case (get_obj doc ''metadata'', get_obj doc ''spec'') of
        (Some m, Some s) \<Rightarrow> get_str m ''name'' \<noteq> None \<and> get_str m ''tenant'' \<noteq> None \<and>
          (case get_obj s ''workload'' of Some w \<Rightarrow> get_str w ''kind'' \<noteq> None | None \<Rightarrow> False)
      | _ \<Rightarrow> False)"

lemma first_error_None: "first_error es = None \<longleftrightarrow> (\<forall>e \<in> set es. e = None)"
  by (induction es rule: first_error.induct) auto

lemma first_error_mem: "first_error es = Some e \<Longrightarrow> Some e \<in> set es"
  by (induction es rule: first_error.induct) auto

lemma Admit_no_panic:
  assumes "schema doc \<longrightarrow> conforms_shape doc"
  shows "Admit schema now (Some doc) tenant fleet \<noteq> Inl AEPanic"
proof -
  have "first_error [check_tenant a b, check_payloads c d, check_deadline now e, check_units fleet g] \<noteq> Some AEPanic" for a b c d e g
    by (auto dest!: first_error_mem simp: check_tenant_def check_payloads_def check_deadline_def check_units_def Let_def
        split: if_splits option.splits)
  with assms show ?thesis
    by (auto simp: Admit_def conforms_shape_def Let_def split: option.splits if_splits)
qed

lemma Admit_ok:
  assumes "Admit schema now (Some doc) requestTenant fleet = Inr a"
  obtains m s w kind where "schema doc" "get doc ''status'' = None" "am_Doc a = doc"
    "get_obj doc ''metadata'' = Some m" "get_obj doc ''spec'' = Some s" "get_obj s ''workload'' = Some w"
    "get_str w ''kind'' = Some kind" "get_str m ''tenant'' = Some (am_Tenant a)" "get_str m ''name'' = Some (am_Name a)"
    "check_tenant requestTenant (am_Tenant a) = None" "check_payloads w kind = None"
    "check_deadline now s = None" "check_units fleet s = None"
proof -
  from assms obtain m s n t w k where
    g: "get_obj doc ''metadata'' = Some m" "get_obj doc ''spec'' = Some s"
      "get_str m ''name'' = Some n" "get_str m ''tenant'' = Some t" "get_obj s ''workload'' = Some w"
      "get_str w ''kind'' = Some k"
    and h: "schema doc" "get doc ''status'' = None"
    by (auto simp: Admit_def split: option.splits if_splits)
  with assms that show ?thesis
    by (auto simp: Admit_def Let_def first_error_None split: option.splits)
qed

lemma check_payloads_None:
  assumes "check_payloads w kind = None" and "(k, f) \<in> set payloadFieldForKind" and "k \<noteq> kind"
    and "kind \<in> set (map fst payloadFieldForKind)"
  shows "get w f = None"
proof -
  have inj: "map_of payloadFieldForKind kind \<noteq> Some f" using assms(2-4) by (auto simp: payloadFieldForKind_def)
  obtain g where g: "map_of payloadFieldForKind kind = Some g"
    using assms(4) by (metis map_of_eq_None_iff not_None_eq set_map)
  from assms(1) g have "\<forall>x \<in> set (map snd payloadFieldForKind). \<not> (x \<noteq> g \<and> get w x \<noteq> None)"
    unfolding check_payloads_def Let_def g by (simp add: find_None_iff split: option.splits)
  with inj g assms(2) show ?thesis by force
qed

end
