(* ===== verification/Api_Auth.thy ===== *)
theory Api_Auth
  imports Auth_Core Admission Store_Invariants
begin

text \<open>
  Authentication and audit of API calls (\<open>internal/api/auth.go\<close>): a bearer credential is resolved to
  a principal by the bootstrap token, an API token or OIDC; \<open>check\<close> authorizes the principal against
  the matrix and writes the audit entries; the interceptors run a handler only behind \<open>check\<close>.
  \<open>rpc_gate\<close> is the interface of \<open>check\<close> the handlers rely on.
\<close>

section \<open>Errors of the API\<close>

datatype error_detail = Message string | Admission admit_error | Store string store_error

type_synonym api_error = "grpc_code \<times> error_detail"

definition as_api :: "status \<Rightarrow> api_error" where
  "as_api s = (fst s, Message (snd s))"

section \<open>The authenticator\<close>

definition authHeader :: string where
  "authHeader = ''authorization''"

definition gatewayAuthHeader :: string where
  "gatewayAuthHeader = ''grpcgateway-authorization''"

definition adminActions :: "string list" where
  "adminActions =
    [''/rabi.admin.v1alpha1.AdminService/CreateToken'', ''/rabi.admin.v1alpha1.AdminService/RevokeToken'',
     ''/rabi.admin.v1alpha1.AdminService/CreateProject'', ''/rabi.admin.v1alpha1.AdminService/ArchiveProject'',
     ''/rabi.admin.v1alpha1.AdminService/SetQuota'']"

record Authenticator =
  an_bootstrapHash :: string
  an_hasBootstrap :: bool
  an_oidc :: "OIDCVerifier option"

definition NewAuthenticator :: "string \<Rightarrow> OIDCVerifier option \<Rightarrow> string + Authenticator" where
  "NewAuthenticator bootstrapToken oidc =
     (if bootstrapToken = [] \<and> oidc = None
      then Inl ''auth: configure RABI_OIDC_ISSUER and/or RABI_BOOTSTRAP_TOKEN''
      else Inr (if bootstrapToken \<noteq> []
        then \<lparr>an_bootstrapHash = Sum256 bootstrapToken, an_hasBootstrap = True, an_oidc = oidc\<rparr>
        else \<lparr>an_bootstrapHash = replicate 32 (char_of (0 :: nat)), an_hasBootstrap = False, an_oidc = oidc\<rparr>))"

text \<open>Incoming metadata: the values of each lower-case key, or no metadata at all.\<close>

type_synonym metadata = "(string \<Rightarrow> string list) option"

fun first_bearer :: "string list \<Rightarrow> string" where
  "first_bearer [] = []"
| "first_bearer (v # vs) =
     (case CutPrefix ''Bearer '' v of
        Some tok \<Rightarrow> if tok \<noteq> [] then tok else first_bearer vs
      | None \<Rightarrow> first_bearer vs)"

definition bearerFromContext :: "metadata \<Rightarrow> string" where
  "bearerFromContext md = (case md of None \<Rightarrow> [] | Some m \<Rightarrow> first_bearer (m authHeader @ m gatewayAuthHeader))"

definition authenticateToken :: "time \<Rightarrow> string \<Rightarrow> db \<Rightarrow> db \<times> (status + Principal)" where
  "authenticateToken now bearer d =
     (case TokenID bearer of
        Inl _ \<Rightarrow> (d, Inl (Unauthenticated, ''invalid credentials''))
      | Inr i \<Rightarrow>
          (case GetToken d i of
             Inl _ \<Rightarrow> (d, Inl (Unauthenticated, ''invalid credentials''))
           | Inr rec \<Rightarrow>
               if \<not> VerifyTokenHash bearer (tr_TokenHash rec)
               then (d, Inl (Unauthenticated, ''invalid credentials''))
               else if tr_RevokedAt rec \<noteq> None then (d, Inl (Unauthenticated, ''token revoked''))
               else
                 (case ParseRole (tr_Role rec) of
                    Inl e \<Rightarrow> (d, Inl (Internal, ''stored token role: '' @ e))
                  | Inr role \<Rightarrow>
                      (TouchToken now (tr_ID rec) d,
                       Inr \<lparr>pr_Type = PrincipalToken, pr_Subject = tr_ID rec, pr_Name = tr_Name rec,
                            pr_Role = role, pr_Project = tr_Project rec\<rparr>))))"

definition bootstrap_principal :: Principal where
  "bootstrap_principal = \<lparr>pr_Type = PrincipalBootstrap, pr_Subject = ''bootstrap'', pr_Name = ''bootstrap'',
     pr_Role = RoleAdmin, pr_Project = []\<rparr>"

definition Authenticate :: "Authenticator \<Rightarrow> time \<Rightarrow> metadata \<Rightarrow> db \<Rightarrow> db \<times> (status + Principal)" where
  "Authenticate a now md d =
     (let bearer = bearerFromContext md
      in if bearer = [] then (d, Inl (Unauthenticated, ''missing credentials''))
         else if an_hasBootstrap a \<and> Sum256 bearer = an_bootstrapHash a then (d, Inr bootstrap_principal)
         else if IsToken bearer then authenticateToken now bearer d
         else
           (case an_oidc a of
              Some v \<Rightarrow>
                (case Verify v bearer of
                   Inl e \<Rightarrow> (d, Inl (Unauthenticated, ''invalid credentials: '' @ e))
                 | Inr p \<Rightarrow> (d, Inr p))
            | None \<Rightarrow> (d, Inl (Unauthenticated, ''invalid credentials''))))"

definition audit_anonymous :: "string \<Rightarrow> string \<Rightarrow> audit_entry" where
  "audit_anonymous fullMethod reason = \<lparr>au_PrincipalType = ''anonymous'', au_Subject = ''-'',
     au_PrincipalName = [], au_Role = [], au_Method = fullMethod, au_Decision = ''deny'', au_Reason = reason\<rparr>"

definition audit_principal :: "Principal \<Rightarrow> string \<Rightarrow> string \<Rightarrow> string \<Rightarrow> audit_entry" where
  "audit_principal p fullMethod decision reason =
     \<lparr>au_PrincipalType = principal_type_str (pr_Type p), au_Subject = pr_Subject p, au_PrincipalName = pr_Name p,
      au_Role = role_String (pr_Role p), au_Method = fullMethod, au_Decision = decision, au_Reason = reason\<rparr>"

definition audit :: "audit_entry \<Rightarrow> db \<Rightarrow> db" where
  "audit e d = RecordAudit e d"

definition check :: "Authenticator \<Rightarrow> time \<Rightarrow> metadata \<Rightarrow> string \<Rightarrow> db \<Rightarrow> db \<times> (status + ctx)" where
  "check a now md fullMethod d =
     (case Authenticate a now md d of
        (d1, Inl err) \<Rightarrow> (audit (audit_anonymous fullMethod (snd err)) d1, Inl err)
      | (d1, Inr p) \<Rightarrow>
          (case Authorize p fullMethod of
             Some err \<Rightarrow> (audit (audit_principal p fullMethod ''deny'' (snd err)) d1, Inl err)
           | None \<Rightarrow>
               (if fullMethod \<in> set adminActions
                then audit (audit_principal p fullMethod ''allow'' []) d1 else d1,
                Inr (WithPrincipal None p))))"

text \<open>Unary and streaming calls: the handler runs only when \<open>check\<close> passes, with its context.\<close>

definition UnaryAuthInterceptor ::
  "Authenticator \<Rightarrow> time \<Rightarrow> metadata \<Rightarrow> string \<Rightarrow> (ctx \<Rightarrow> db \<Rightarrow> db \<times> (api_error + 'res)) \<Rightarrow> db \<Rightarrow>
   db \<times> (api_error + 'res)" where
  "UnaryAuthInterceptor a now md fullMethod handler d =
     (case check a now md fullMethod d of
        (d1, Inl err) \<Rightarrow> (d1, Inl (as_api err))
      | (d1, Inr c) \<Rightarrow> handler c d1)"

definition StreamAuthInterceptor ::
  "Authenticator \<Rightarrow> time \<Rightarrow> metadata \<Rightarrow> string \<Rightarrow> (ctx \<Rightarrow> db \<Rightarrow> 'msg list \<times> api_error option) \<Rightarrow> db \<Rightarrow>
   db \<times> 'msg list \<times> api_error option" where
  "StreamAuthInterceptor a now md fullMethod handler d =
     (case check a now md fullMethod d of
        (d1, Inl err) \<Rightarrow> (d1, [], Some (as_api err))
      | (d1, Inr c) \<Rightarrow> (d1, handler c d1))"

section \<open>The interface of \<open>check\<close>\<close>

text \<open>What a call changes besides the audit log: at most the last use of tokens.\<close>

definition touched_only :: "db \<Rightarrow> db \<Rightarrow> bool" where
  "touched_only d d' \<longleftrightarrow> (\<exists>ts log. d' = d\<lparr>api_tokens := ts, audit_log := log\<rparr> \<and>
     map (\<lambda>t. t\<lparr>tr_LastUsedAt := None\<rparr>) ts = map (\<lambda>t. t\<lparr>tr_LastUsedAt := None\<rparr>) (api_tokens d))"

locale rpc_gate =
  fixes gate :: "'call \<Rightarrow> string \<Rightarrow> db \<Rightarrow> db \<times> (status + ctx)"
  assumes gate_run: "store_run d (fst (gate call m d))"
    and gate_touches: "touched_only d (fst (gate call m d))"
    and gate_denied: "gate call m d = (d', Inl err) \<Longrightarrow>
      \<exists>e. audit_log d' = audit_log d @ [e] \<and> au_Method e = m \<and> au_Decision e = ''deny'' \<and> au_Reason e = snd err"
    and gate_granted: "gate call m d = (d', Inr c) \<Longrightarrow>
      \<exists>p. c = Some p \<and> Authorize p m = None \<and> audit_log d' = audit_log d @
        (if m \<in> set adminActions then [audit_principal p m ''allow'' []] else [])"
begin

text \<open>A handler behind the gate, as both interceptors compose it.\<close>

definition behind :: "'call \<Rightarrow> string \<Rightarrow> (ctx \<Rightarrow> db \<Rightarrow> db \<times> (api_error + 'res)) \<Rightarrow> db \<Rightarrow> db \<times> (api_error + 'res)" where
  "behind call m handler d = (case gate call m d of
      (d1, Inl err) \<Rightarrow> (d1, Inl (as_api err)) | (d1, Inr c) \<Rightarrow> handler c d1)"

lemma behind_cases:
  obtains (denied) d' err where "gate call m d = (d', Inl err)" "behind call m handler d = (d', Inl (as_api err))"
      "touched_only d d'"
  | (granted) d' p where "gate call m d = (d', Inr (Some p))" "Authorize p m = None" "touched_only d d'"
      "behind call m handler d = handler (Some p) d'"
proof (cases "gate call m d")
  case (Pair d' r)
  show ?thesis
  proof (cases r)
    case (Inl err)
    then show ?thesis using Pair gate_touches[of d call m] denied[of d' err] by (simp add: behind_def)
  next
    case (Inr c)
    then show ?thesis using Pair gate_touches[of d call m] gate_granted[of call m d d' c] granted[of d']
      by (auto simp: behind_def)
  qed
qed

lemma behind_run:
  assumes "\<And>c d. store_run d (fst (handler c d))"
  shows "store_run d (fst (behind call m handler d))"
  by (cases rule: behind_cases[of call m d handler])
    (use gate_run[of d call m] assms run_trans in \<open>auto intro: run_trans\<close>)

text \<open>A call of a method outside the matrix never reaches its handler.\<close>

lemma behind_unknown:
  assumes "MinRole m = None"
  shows "\<exists>d' err. behind call m handler d = (d', Inl err) \<and> touched_only d d'"
proof (cases rule: behind_cases[of call m d handler])
  case (granted d' p)
  then show ?thesis using assms Authorize_None[of p m] by simp
qed blast

end

section \<open>The authenticator is such a gate\<close>

lemma touched_only_refl: "touched_only d d"
  unfolding touched_only_def by (intro exI[of _ "api_tokens d"] exI[of _ "audit_log d"]) simp

lemma touched_only_audit: "touched_only d d' \<Longrightarrow> touched_only d (audit e d')"
  by (auto simp: touched_only_def audit_def RecordAudit_def) (metis)

lemma touched_only_touch: "touched_only d (TouchToken now i d)"
  unfolding touched_only_def TouchToken_def
  by (intro exI[of _ "tbl_update tr_ID i (\<lambda>t. t\<lparr>tr_LastUsedAt := Some now\<rparr>) (api_tokens d)"] exI[of _ "audit_log d"])
    (simp add: tbl_update_def)

lemma authenticateToken_cases:
  obtains (no) err where "authenticateToken now bearer d = (d, Inl err)"
  | (ok) rec role where "authenticateToken now bearer d = (TouchToken now (tr_ID rec) d,
        Inr \<lparr>pr_Type = PrincipalToken, pr_Subject = tr_ID rec, pr_Name = tr_Name rec, pr_Role = role, pr_Project = tr_Project rec\<rparr>)"
      "TokenID bearer = Inr (tr_ID rec)" "tbl_find tr_ID (tr_ID rec) (api_tokens d) = Some rec"
      "HashToken bearer = tr_TokenHash rec" "tr_RevokedAt rec = None" "ParseRole (tr_Role rec) = Inr role"
proof (cases "TokenID bearer")
  case (Inl e)
  then show ?thesis using no by (simp add: authenticateToken_def)
next
  case (Inr i)
  show ?thesis
  proof (cases "tbl_find tr_ID i (api_tokens d)")
    case None
    then show ?thesis using no Inr by (simp add: authenticateToken_def GetToken_def)
  next
    case (Some rec)
    then have i: "i = tr_ID rec" using tbl_find_Some by fastforce
    show ?thesis
    proof (cases "HashToken bearer = tr_TokenHash rec \<and> tr_RevokedAt rec = None \<and> (\<exists>role. ParseRole (tr_Role rec) = Inr role)")
      case True
      then show ?thesis using ok[of rec] Inr Some i by (auto simp: authenticateToken_def GetToken_def VerifyTokenHash_def)
    next
      case False
      then have "\<exists>err. authenticateToken now bearer d = (d, Inl err)" using Inr Some
        by (auto simp: authenticateToken_def GetToken_def VerifyTokenHash_def split: sum.splits)
      then show ?thesis using no by blast
    qed
  qed
qed

lemma Authenticate_effect:
  "fst (Authenticate a now md d) = d \<or> (\<exists>i. fst (Authenticate a now md d) = TouchToken now i d)"
  by (cases rule: authenticateToken_cases[of now "bearerFromContext md" d])
    (auto simp: Authenticate_def Let_def split: option.splits sum.splits)

text \<open>What authenticating a caller writes: the last use of the token that was presented.\<close>

definition last_use :: "time \<Rightarrow> status + Principal \<Rightarrow> token_record list \<Rightarrow> token_record list" where
  "last_use now r ts =
     (case r of
        Inr p \<Rightarrow> if pr_Type p = PrincipalToken
                  then map (\<lambda>t. if tr_ID t = pr_Subject p then t\<lparr>tr_LastUsedAt := Some now\<rparr> else t) ts else ts
      | Inl _ \<Rightarrow> ts)"

lemma Authenticate_writes:
  "fst (Authenticate a now md d) = d\<lparr>api_tokens := last_use now (snd (Authenticate a now md d)) (api_tokens d)\<rparr>"
  by (cases rule: authenticateToken_cases[of now "bearerFromContext md" d])
    (auto simp: Authenticate_def Let_def last_use_def bootstrap_principal_def Verify_def TouchToken_def tbl_update_def
      split: option.splits sum.splits)

lemma check_Authenticate:
  "fst (check a now md m d) = fst (Authenticate a now md d) \<or> (\<exists>e. fst (check a now md m d) = audit e (fst (Authenticate a now md d)))"
  by (auto simp: check_def split: prod.splits sum.splits option.splits)

lemma run_check: "store_run d (fst (check a now md m d))"
proof -
  have "store_run d (fst (Authenticate a now md d))"
    using Authenticate_effect[of a now md d] run1[OF token_touch] by (metis rtranclp.rtrancl_refl)
  then show ?thesis using check_Authenticate[of a now md m d] run_trans[OF _ run1[OF store_step.audit]]
    by (metis audit_def)
qed

lemma touched_check: "touched_only d (fst (check a now md m d))"
  using check_Authenticate[of a now md m d] Authenticate_effect[of a now md d]
  by (metis touched_only_refl touched_only_audit touched_only_touch)

lemma audit_Authenticate [simp]: "audit_log (fst (Authenticate a now md d)) = audit_log d"
  using Authenticate_effect[of a now md d] by auto

interpretation api: rpc_gate "\<lambda>(a, now, md). check a now md"
proof unfold_locales
  fix call :: "Authenticator \<times> time \<times> metadata" and m d
  obtain a now md where c: "call = (a, now, md)" by (cases call) auto
  show "store_run d (fst ((\<lambda>(a, now, md). check a now md) call m d))" by (simp add: c run_check)
  show "touched_only d (fst ((\<lambda>(a, now, md). check a now md) call m d))" by (simp add: c touched_check)
  obtain d1 r where au: "Authenticate a now md d = (d1, r)" by force
  with audit_Authenticate[of a now md d] have log: "audit_log d1 = audit_log d" by simp
  show "(\<lambda>(a, now, md). check a now md) call m d = (d', Inl err) \<Longrightarrow>
      \<exists>e. audit_log d' = audit_log d @ [e] \<and> au_Method e = m \<and> au_Decision e = ''deny'' \<and> au_Reason e = snd err" for d' err
    using log by (auto simp: c check_def au audit_def RecordAudit_def audit_anonymous_def audit_principal_def
        split: sum.splits option.splits)
  show "(\<lambda>(a, now, md). check a now md) call m d = (d', Inr x) \<Longrightarrow>
      \<exists>p. x = Some p \<and> Authorize p m = None \<and> audit_log d' = audit_log d @
        (if m \<in> set adminActions then [audit_principal p m ''allow'' []] else [])" for d' x
    using log by (auto simp: c check_def au audit_def RecordAudit_def WithPrincipal_def split: sum.splits option.splits if_splits)
qed

lemma Unary_behind: "UnaryAuthInterceptor a now md = api.behind (a, now, md)"
  by (simp add: UnaryAuthInterceptor_def api.behind_def fun_eq_iff)

end
