(* ===== verification/Api_Jobs.thy ===== *)
theory Api_Jobs
  imports Api_Auth Executor Store_Properties
begin

text \<open>
  The jobs service of \<open>internal/api/jobs.go\<close>: submission (admission, project scope, dry run, project
  state, quota), reads, paging, the watch stream and cancellation. A handler takes the context the
  interceptor made and the database; the separate statements of a handler carry their own times. A
  watch is a function of the databases its polls see. Documents and statuses are JSON, so encoding
  them as protobuf structs does not fail.
\<close>

section \<open>Definitions\<close>

definition defaultPageSize :: int where
  "defaultPageSize = 100"

definition maxPageSize :: int where
  "maxPageSize = 1000"

record job_proto =
  jp_JobId :: string
  jp_Tenant :: string
  jp_QuantumJob :: obj
  jp_Status :: obj
  jp_CreatedAt :: "time option"
  jp_UpdatedAt :: "time option"

definition ts_or_none :: "time \<Rightarrow> time option" where
  "ts_or_none t = (if IsZero t then None else Some t)"

definition jobToProto :: "job_record \<Rightarrow> job_proto" where
  "jobToProto rec = \<lparr>jp_JobId = jr_JobID rec, jp_Tenant = jr_Tenant rec, jp_QuantumJob = jr_Doc rec,
     jp_Status = jr_Status rec, jp_CreatedAt = ts_or_none (jr_CreatedAt rec), jp_UpdatedAt = ts_or_none (jr_UpdatedAt rec)\<rparr>"

text \<open>The JSON of a condition: empty reasons and messages are omitted.\<close>

definition conditionToMap :: "Condition \<Rightarrow> obj" where
  "conditionToMap c = [(''type'', JStr (cn_Type c)), (''status'', JStr (cn_Status c))] @
     (if cn_Reason c = [] then [] else [(''reason'', JStr (cn_Reason c))]) @
     (if cn_Message c = [] then [] else [(''message'', JStr (cn_Message c))])"

definition declaredCosts :: "obj \<Rightarrow> (string \<times> float64) list" where
  "declaredCosts doc =
     (let spec = obj_or doc ''spec''; workload = obj_or spec ''workload''; gm = obj_or workload ''gateModel''
      in case get_num gm ''shots'' of
           Some shots \<Rightarrow> if shots > 0 then [(''shots'', shots)] else []
         | None \<Rightarrow> [])"

record submit_job_request =
  sj_QuantumJob :: "obj option"
  sj_Tenant :: string
  sj_DryRun :: bool

definition dry_run_condition :: Condition where
  "dry_run_condition = \<lparr>cn_Type = ''Validated'', cn_Status = ''True'', cn_Reason = ''DryRun'',
     cn_Message = ''admission checks passed; job was not enqueued''\<rparr>"

definition new_job :: "string \<Rightarrow> Admitted \<Rightarrow> json list \<Rightarrow> job_record" where
  "new_job uuid adm conditions = \<lparr>jr_JobID = uuid, jr_Tenant = am_Tenant adm, jr_Name = am_Name adm,
     jr_Phase = Pending, jr_Doc = am_Doc adm,
     jr_Status = [(''phase'', JStr (phase_str Pending)), (''conditions'', JArr conditions),
       (''tasks'', JArr []), (''usage'', JArr [])],
     jr_CreatedAt = zero_time, jr_UpdatedAt = zero_time\<rparr>"

text \<open>\<open>tAdmit\<close>, \<open>tProj\<close> and \<open>tIns\<close> are the times of admission and of the two transactions.\<close>

definition submit_new ::
  "time \<Rightarrow> time \<Rightarrow> string \<Rightarrow> job_record \<Rightarrow> (string \<times> float64) list \<Rightarrow> db \<Rightarrow> db \<times> (api_error + job_proto)" where
  "submit_new tProj tIns tenant rec costs d =
     (case EnsureProject tProj tenant d of
        (d1, Inl e) \<Rightarrow> (d1, Inl (Internal, Store ''resolving project'' e))
      | (d1, Inr proj) \<Rightarrow>
          if pj_ArchivedAt proj \<noteq> None
          then (d1, Inl (FailedPrecondition, Message (''project '' @ quote tenant @ '' is archived; new submissions are rejected'')))
          else
            (case InsertJobWithQuota tIns rec costs d1 of
               (d2, Inr _) \<Rightarrow> (d2, Inr (jobToProto (rec\<lparr>jr_CreatedAt := tIns, jr_UpdatedAt := tIns\<rparr>)))
             | (d2, Inl e) \<Rightarrow>
                 (d2, Inl (case e of
                     ErrQuotaExceeded u l cm r \<Rightarrow> (ResourceExhausted, Store [] e)
                   | _ \<Rightarrow> (Internal, Store ''persisting job'' e)))))"

definition SubmitJob ::
  "(obj \<Rightarrow> bool) \<Rightarrow> FleetView \<Rightarrow> time \<Rightarrow> time \<Rightarrow> time \<Rightarrow> string \<Rightarrow> submit_job_request \<Rightarrow> ctx \<Rightarrow> db \<Rightarrow>
   db \<times> (api_error + job_proto)" where
  "SubmitJob schema fleet tAdmit tProj tIns uuid req c d =
     (if sj_QuantumJob req = None then (d, Inl (InvalidArgument, Message ''quantum_job document is required''))
      else
        (case Admit schema tAdmit (sj_QuantumJob req) (sj_Tenant req) fleet of
           Inl e \<Rightarrow> (d, Inl (InvalidArgument, Admission e))
         | Inr adm \<Rightarrow>
             (case CheckProject c (am_Tenant adm) of
                Some err \<Rightarrow> (d, Inl (as_api err))
              | None \<Rightarrow>
                  (let conditions = map (\<lambda>w. JObj (conditionToMap w)) (am_Warnings adm)
                   in if sj_DryRun req
                      then (d, Inr \<lparr>jp_JobId = [], jp_Tenant = am_Tenant adm, jp_QuantumJob = am_Doc adm,
                        jp_Status = [(''conditions'', JArr (conditions @ [JObj (conditionToMap dry_run_condition)]))],
                        jp_CreatedAt = None, jp_UpdatedAt = None\<rparr>)
                      else
                        submit_new tProj tIns (am_Tenant adm) (new_job uuid adm conditions) (declaredCosts (am_Doc adm)) d))))"

text \<open>The column \<open>jobs.job_id\<close> has the type \<open>uuid\<close> (\<open>00002_jobs.sql\<close>): a text that is none is an error of the query, not an
  empty result. The standard form is 8-4-4-4-12 hexadecimal digits; other spellings PostgreSQL may accept are not told apart.\<close>

definition is_hex :: "char \<Rightarrow> bool" where
  "is_hex c \<longleftrightarrow> (let n = code c in 48 \<le> n \<and> n \<le> 57 \<or> 65 \<le> n \<and> n \<le> 70 \<or> 97 \<le> n \<and> n \<le> 102)"

definition is_uuid :: "string \<Rightarrow> bool" where
  "is_uuid s \<longleftrightarrow> length s = 36 \<and>
     list_all (\<lambda>(k, c). if k \<in> {8, 13, 18, 23} then c = CHR ''-'' else is_hex c) (zip [0..<36] s)"

definition loadJob :: "string \<Rightarrow> ctx \<Rightarrow> db \<Rightarrow> api_error + job_record" where
  "loadJob jobID c d =
     (if jobID = [] then Inl (InvalidArgument, Message ''job_id is required'')
      else
        (case GetJob d jobID of
           Inl _ \<Rightarrow> (if is_uuid jobID then Inl (NotFound, Message (''job '' @ quote jobID @ '' not found''))
                      else Inl (Internal, Message (''loading job: invalid uuid '' @ quote jobID)))
         | Inr rec \<Rightarrow>
             (case CheckProject c (jr_Tenant rec) of Some err \<Rightarrow> Inl (as_api err) | None \<Rightarrow> Inr rec)))"

definition api_GetJob :: "string \<Rightarrow> ctx \<Rightarrow> db \<Rightarrow> db \<times> (api_error + job_proto)" where
  "api_GetJob jobID c d = (d, case loadJob jobID c d of Inl e \<Rightarrow> Inl e | Inr rec \<Rightarrow> Inr (jobToProto rec))"

text \<open>\<open>strconv.Atoi\<close>: an optional sign and digits, an error outside \<open>int64\<close>.\<close>

definition Atoi :: "string \<Rightarrow> int option" where
  "Atoi s =
     (let (neg, ds) = (case s of CHR ''-'' # r \<Rightarrow> (True, r) | CHR ''+'' # r \<Rightarrow> (False, r) | _ \<Rightarrow> (False, s));
          n = (if neg then - dec_val 0 ds else dec_val 0 ds)
      in if ds = [] \<or> \<not> list_all is_digit ds then None
         else if n < - 9223372036854775808 \<or> n > max_int64 then None else Some n)"

definition effectiveTenant :: "ctx \<Rightarrow> string \<Rightarrow> status + string" where
  "effectiveTenant c requested =
     (case FromContext c of
        None \<Rightarrow> Inl (Unauthenticated, ''no principal in context'')
      | Some p \<Rightarrow>
          if pr_Project p = [] then Inr requested
          else if requested = [] then Inr (pr_Project p)
          else (case CheckProject c requested of Some err \<Rightarrow> Inl err | None \<Rightarrow> Inr requested))"

record list_jobs_request =
  lj_Tenant :: string
  lj_PhaseFilter :: string
  lj_PageSize :: int
  lj_PageToken :: string

record list_jobs_response =
  lr_Jobs :: "job_proto list"
  lr_NextPageToken :: string

definition page_size :: "int \<Rightarrow> int" where
  "page_size n = (let m = (if n \<le> 0 then defaultPageSize else n) in if m > maxPageSize then maxPageSize else m)"

definition page_offset :: "string \<Rightarrow> int option" where
  "page_offset tok = (if tok = [] then Some 0
     else (case Atoi tok of Some n \<Rightarrow> if n < 0 then None else Some n | None \<Rightarrow> None))"

definition api_ListJobs :: "list_jobs_request \<Rightarrow> ctx \<Rightarrow> db \<Rightarrow> db \<times> (api_error + list_jobs_response)" where
  "api_ListJobs req c d =
     (d, case page_offset (lj_PageToken req) of
           None \<Rightarrow> Inl (InvalidArgument, Message (''malformed page_token '' @ quote (lj_PageToken req)))
         | Some off \<Rightarrow>
             (case effectiveTenant c (lj_Tenant req) of
                Inl err \<Rightarrow> Inl (as_api err)
              | Inr tenant \<Rightarrow>
                  (let size = page_size (lj_PageSize req);
                       recs = ListJobs d tenant (lj_PhaseFilter req) (nat size) (nat off)
                   in Inr \<lparr>lr_Jobs = map jobToProto recs,
                        lr_NextPageToken = (if int (length recs) = size then itoa_int (wrap64 (off + size)) else [])\<rparr>)))"

section \<open>The watch stream\<close>

definition event_view :: "job_record \<Rightarrow> job_event \<Rightarrow> job_proto" where
  "event_view rec ev = jobToProto (rec\<lparr>jr_Phase := ev_Phase ev, jr_Status := ev_Status ev, jr_UpdatedAt := ev_CreatedAt ev\<rparr>)"

text \<open>The loop over a batch of events: what is sent, the last sequence number, and whether it ended.\<close>

fun send_events :: "job_record \<Rightarrow> nat \<Rightarrow> job_event list \<Rightarrow> job_proto list \<times> nat \<times> bool" where
  "send_events rec lastSeq [] = ([], lastSeq, False)"
| "send_events rec lastSeq (ev # evs) =
     (if Terminal (ev_Phase ev) then ([event_view rec ev], ev_Seq ev, True)
      else (let (ms, l, b) = send_events rec (ev_Seq ev) evs in (event_view rec ev # ms, l, b)))"

text \<open>The polling loop: one database per tick until the client's context ends.\<close>

fun watch_loop :: "job_record \<Rightarrow> nat \<Rightarrow> db list \<Rightarrow> job_proto list \<times> api_error option" where
  "watch_loop rec lastSeq [] = ([], Some (Canceled, Message ''context canceled''))"
| "watch_loop rec lastSeq (d # ds) =
     (case send_events rec lastSeq (JobEventsSince d (jr_JobID rec) lastSeq) of
        (ms, l, True) \<Rightarrow> (ms, None)
      | (ms, l, False) \<Rightarrow> (let (ms', r) = watch_loop rec l ds in (ms @ ms', r)))"

text \<open>\<open>d1\<close> is the database of the first read of events, \<open>ds\<close> those of the ticks.\<close>

definition WatchJob :: "string \<Rightarrow> db \<Rightarrow> db list \<Rightarrow> ctx \<Rightarrow> db \<Rightarrow> job_proto list \<times> api_error option" where
  "WatchJob jobID d1 ds c d =
     (case loadJob jobID c d of
        Inl e \<Rightarrow> ([], Some e)
      | Inr rec \<Rightarrow>
          (let events = JobEventsSince d1 (jr_JobID rec) 0
           in case send_events rec 0 events of
                (ms, l, True) \<Rightarrow> (ms, None)
              | (ms, l, False) \<Rightarrow>
                  (let first = (if events = [] then [jobToProto rec] else ms); (ms', r) = watch_loop rec l ds
                   in (first @ ms', r))))"

section \<open>Cancellation\<close>

definition cancelled_status :: "obj \<Rightarrow> obj" where
  "cancelled_status st = append_cond st (conditionToMap \<lparr>cn_Type = ''Cancelled'', cn_Status = ''True'',
     cn_Reason = ''UserRequested'', cn_Message = ''cancelled via CancelJob''\<rparr>)"

text \<open>The part of the handler that reads and writes the database; the transition decides.\<close>

definition CancelJob :: "time \<Rightarrow> string \<Rightarrow> ctx \<Rightarrow> db \<Rightarrow> db \<times> (api_error + job_proto)" where
  "CancelJob now jobID c d =
     (case loadJob jobID c d of
        Inl e \<Rightarrow> (d, Inl e)
      | Inr _ \<Rightarrow>
          (case TransitionJob now jobID Cancelled (Some cancelled_status) d of
             (d1, Inl ErrNotFound) \<Rightarrow> (d1, Inl (NotFound, Message (''job '' @ quote jobID @ '' not found'')))
           | (d1, Inl e) \<Rightarrow> (d1, Inl (FailedPrecondition, Store ''cancel'' e))
           | (d1, Inr rec) \<Rightarrow> (d1, Inr (jobToProto rec))))"

text \<open>The whole handler: after the job was loaded and before the transition it asks the dispatcher, if there is one, to
  cancel the task at its adapter, even for a job that has finished. The first component is the task the adapter is
  asked to cancel; the call is best effort, returns no error and leaves the database as it is.\<close>

definition CancelJob_rpc ::
  "exec_env option \<Rightarrow> time \<Rightarrow> string \<Rightarrow> ctx \<Rightarrow> db \<Rightarrow> (string \<times> string) option \<times> db \<times> (api_error + job_proto)" where
  "CancelJob_rpc canceller now jobID c d =
     (case loadJob jobID c d of
        Inl e \<Rightarrow> (None, d, Inl e)
      | Inr _ \<Rightarrow> (case canceller of None \<Rightarrow> None | Some env \<Rightarrow> CancelJob_adapter env d jobID, CancelJob now jobID c d))"

lemma CancelJob_rpc_db: "snd (CancelJob_rpc canceller now jobID c d) = CancelJob now jobID c d"
  by (simp add: CancelJob_rpc_def CancelJob_def split: sum.splits)

section \<open>Facts about submission and cancellation\<close>

lemma docPath_Nil [simp]: "docPath [] ps = []"
  by (cases ps) (simp_all add: get_obj_def get_def)

lemma docPath_obj_or: "docPath cur (p # ps) = docPath (obj_or cur p) ps"
  by (simp add: obj_or_def split: option.splits)

lemma declaredCosts_docPath:
  "declaredCosts doc = (case get_num (docPath doc [''spec'', ''workload'', ''gateModel'']) ''shots'' of
      Some x \<Rightarrow> if x > 0 then [(''shots'', x)] else [] | None \<Rightarrow> [])"
  by (simp add: declaredCosts_def Let_def docPath_obj_or del: docPath.simps(2))

lemma declaredCosts_cost:
  assumes "0 \<le> declared_cost doc ''shots''"
  shows "declared_cost doc u = (case map_of (declaredCosts doc) u of Some x \<Rightarrow> x | None \<Rightarrow> 0)"
  using assms by (auto simp: declared_cost_def declaredCosts_docPath split: option.splits if_splits)

lemma loadJob_ok:
  assumes "loadJob jobID c d = Inr rec"
  shows "jobID \<noteq> []" "tbl_find jr_JobID jobID (jobs d) = Some rec" "jr_JobID rec = jobID"
    "CheckProject c (jr_Tenant rec) = None"
  using assms tbl_find_Some[of jr_JobID jobID "jobs d"]
  by (auto simp: loadJob_def GetJob_def split: if_splits option.splits sum.splits)

lemma submit_new_cases:
  obtains (project) e where "submit_new tP tI tenant rec costs d = (fst (EnsureProject tP tenant d), Inl e)"
  | (ok) d1 d2 proj where "EnsureProject tP tenant d = (d1, Inr proj)" "pj_ArchivedAt proj = None"
      "InsertJobWithQuota tI rec costs d1 = (d2, Inr ())"
      "submit_new tP tI tenant rec costs d = (d2, Inr (jobToProto (rec\<lparr>jr_CreatedAt := tI, jr_UpdatedAt := tI\<rparr>)))"
proof (cases "EnsureProject tP tenant d")
  case (Pair d1 r)
  show ?thesis
  proof (cases r)
    case (Inl e)
    then show ?thesis using project Pair by (simp add: submit_new_def)
  next
    case (Inr proj)
    obtain d2 q where ins: "InsertJobWithQuota tI rec costs d1 = (d2, q)" by force
    have "q = Inl e \<Longrightarrow> d2 = d1" for e
      using ins by (cases rule: insertJobTx_cases[of rec d1 tI]) (auto simp: InsertJobWithQuota_def split: option.splits)
    then show ?thesis
      using project ok[of d1 proj d2] Pair Inr ins by (cases "pj_ArchivedAt proj"; cases q) (simp_all add: submit_new_def)
  qed
qed

lemma SubmitJob_cases:
  obtains (refused) e where "SubmitJob schema fleet tA tP tI uuid req c d = (d, Inl e)"
  | (dry) p where "SubmitJob schema fleet tA tP tI uuid req c d = (d, Inr p)" "sj_DryRun req" "jp_JobId p = []"
  | (project) e where "SubmitJob schema fleet tA tP tI uuid req c d =
        (fst (EnsureProject tP (am_Tenant (projr (Admit schema tA (sj_QuantumJob req) (sj_Tenant req) fleet))) d), Inl e)"
  | (ok) doc adm d1 d2 proj where "sj_QuantumJob req = Some doc" "\<not> sj_DryRun req"
      "Admit schema tA (Some doc) (sj_Tenant req) fleet = Inr adm" "CheckProject c (am_Tenant adm) = None"
      "EnsureProject tP (am_Tenant adm) d = (d1, Inr proj)" "pj_ArchivedAt proj = None"
      "InsertJobWithQuota tI (new_job uuid adm (map (\<lambda>w. JObj (conditionToMap w)) (am_Warnings adm)))
         (declaredCosts (am_Doc adm)) d1 = (d2, Inr ())"
      "SubmitJob schema fleet tA tP tI uuid req c d = (d2, Inr (jobToProto
         ((new_job uuid adm (map (\<lambda>w. JObj (conditionToMap w)) (am_Warnings adm)))\<lparr>jr_CreatedAt := tI, jr_UpdatedAt := tI\<rparr>)))"
proof (cases "sj_QuantumJob req")
  case None
  then show ?thesis using refused by (simp add: SubmitJob_def)
next
  case doc: (Some doc)
  show ?thesis
  proof (cases "Admit schema tA (Some doc) (sj_Tenant req) fleet")
    case (Inl e)
    then show ?thesis using refused doc by (simp add: SubmitJob_def)
  next
    case adm: (Inr adm)
    let ?job = "new_job uuid adm (map (\<lambda>w. JObj (conditionToMap w)) (am_Warnings adm))"
    have nodry: "SubmitJob schema fleet tA tP tI uuid req c d =
        submit_new tP tI (am_Tenant adm) ?job (declaredCosts (am_Doc adm)) d"
      if "CheckProject c (am_Tenant adm) = None" "\<not> sj_DryRun req"
      using that doc adm by (simp add: SubmitJob_def Let_def new_job_def)
    show ?thesis
    proof (cases "CheckProject c (am_Tenant adm)")
      case (Some err)
      have "SubmitJob schema fleet tA tP tI uuid req c d = (d, Inl (as_api err))"
        using doc adm Some by (simp add: SubmitJob_def)
      then show ?thesis by (rule refused)
    next
      case chk: None
      show ?thesis
      proof (cases "sj_DryRun req")
        case True
        then show ?thesis using dry doc adm chk by (auto simp: SubmitJob_def Let_def)
      next
        case False
        show ?thesis
          by (cases rule: submit_new_cases[of tP tI "am_Tenant adm" ?job "declaredCosts (am_Doc adm)" d])
            (use project ok[OF doc False adm chk] nodry[OF chk False] doc adm in auto)
      qed
    qed
  qed
qed

lemma run_SubmitJob: "store_run d (fst (SubmitJob schema fleet tA tP tI uuid req c d))"
proof (cases rule: SubmitJob_cases[of schema fleet tA tP tI uuid req c d])
  case (project e)
  then show ?thesis using run1[OF store_step.project] by simp
next
  case (ok doc adm d1 d2 proj)
  have "store_step d d1" using store_step.project[of d tP "am_Tenant adm"] ok(5) by simp
  moreover have "store_step d1 d2" using store_step.insert_quota[of _ d1 tI] ok(7) by (metis fst_conv job_record.select_convs(4) new_job_def)
  ultimately show ?thesis using ok(8) by (simp add: run_trans[OF run1 run1])
qed auto

lemma CancelJob_cases:
  obtains (refused) e where "CancelJob now jobID c d = (d, Inl e)"
  | (ok) p st rec where "CancelJob now jobID c d = (fst (TransitionJob now jobID Cancelled (Some cancelled_status) d), Inr (jobToProto rec))"
      "phase_of d jobID = Some p" "CanTransition p Cancelled" "jr_Phase rec = Cancelled" "jr_JobID rec = jobID"
proof (cases "loadJob jobID c d")
  case (Inl e)
  then show ?thesis using refused by (simp add: CancelJob_def)
next
  case (Inr r)
  show ?thesis
    by (cases rule: TransitionJob_cases[of d jobID now Cancelled "Some cancelled_status"])
      (use Inr refused ok in \<open>simp_all add: CancelJob_def\<close>)
qed

lemma run_CancelJob: "store_run d (fst (CancelJob now jobID c d))"
  by (cases rule: CancelJob_cases[of now jobID c d]) (simp_all add: run_transition)

section \<open>Paging\<close>

lemma Atoi_itoa: "int n \<le> max_int64 \<Longrightarrow> Atoi (itoa n) = Some (int n)"
proof -
  assume n: "int n \<le> max_int64"
  obtain x r where s: "itoa n = x # r" and "is_digit x" using itoa_digits[of n] by (cases "itoa n") auto
  then have "x \<noteq> CHR ''-''" "x \<noteq> CHR ''+''" by (auto simp: is_digit_def code_def)
  then have "(case itoa n of CHR ''-'' # r \<Rightarrow> (True, r) | CHR ''+'' # r \<Rightarrow> (False, r) | _ \<Rightarrow> (False, itoa n)) = (False, itoa n)"
    unfolding s by (auto split: char.splits bool.splits)
  then show ?thesis using n itoa_digits[of n] by (simp add: Atoi_def Let_def)
qed

lemma page_offset_itoa: "int n \<le> max_int64 \<Longrightarrow> page_offset (itoa n) = Some (int n)"
  using itoa_digits[of n] by (simp add: page_offset_def Atoi_itoa)

text \<open>A client that follows \<open>next_page_token\<close> until it is empty; \<open>None\<close> is an error or too many pages.\<close>

fun list_pages :: "nat \<Rightarrow> list_jobs_request \<Rightarrow> ctx \<Rightarrow> db \<Rightarrow> job_proto list option" where
  "list_pages 0 req c d = None"
| "list_pages (Suc n) req c d =
     (case snd (api_ListJobs req c d) of
        Inl _ \<Rightarrow> None
      | Inr r \<Rightarrow>
          if lr_NextPageToken r = [] then Some (lr_Jobs r)
          else map_option ((@) (lr_Jobs r)) (list_pages n (req\<lparr>lj_PageToken := lr_NextPageToken r\<rparr>) c d))"

lemma page_size_bounds: "1 \<le> page_size n" "page_size n \<le> 1000"
  by (auto simp: page_size_def Let_def defaultPageSize_def maxPageSize_def)

lemma list_pages_from:
  assumes "effectiveTenant c (lj_Tenant req) = Inr tenant" and "int (length (jobs d)) \<le> max_int64"
    and "page_offset (lj_PageToken req) = Some (int off)"
    and "off \<le> length (jobs d)" and "length (jobs d) - off < n"
  shows "list_pages n req c d = Some (map jobToProto (ListJobs d tenant (lj_PhaseFilter req) (length (jobs d)) off))"
  using assms
proof (induction n arbitrary: req off)
  case (Suc n)
  let ?N = "length (jobs d)" and ?s = "page_size (lj_PageSize req)"
  define all where "all = sort_key (\<lambda>r. (- jr_CreatedAt r, jr_JobID r))
     (filter (\<lambda>r. (tenant = [] \<or> jr_Tenant r = tenant) \<and> (lj_PhaseFilter req = [] \<or> phase_str (jr_Phase r) = lj_PhaseFilter req)) (jobs d))"
  have len: "length all \<le> ?N" by (simp add: all_def)
  have page: "ListJobs d tenant (lj_PhaseFilter req) k m = take k (drop m all)" for k m by (simp add: ListJobs_def all_def)
  show ?case
  proof (cases "length (take (nat ?s) (drop off all)) = nat ?s")
    case True
    then have le: "off + nat ?s \<le> ?N" and pos: "0 < nat ?s" using len page_size_bounds[of "lj_PageSize req"] by auto
    let ?tok = "itoa (off + nat ?s)"
    have "wrap64 (int off + ?s) = int (off + nat ?s)" using le Suc.prems(2) page_size_bounds[of "lj_PageSize req"]
      by (subst wrap64_id) auto
    then have resp: "snd (api_ListJobs req c d) = Inr \<lparr>lr_Jobs = map jobToProto (take (nat ?s) (drop off all)), lr_NextPageToken = ?tok\<rparr>"
      using Suc.prems(1,3) True pos by (simp add: api_ListJobs_def Let_def page itoa_int_def nat_add_distrib)
    have "page_offset ?tok = Some (int (off + nat ?s))"
      using le Suc.prems(2) by (intro page_offset_itoa) linarith
    then have "list_pages n (req\<lparr>lj_PageToken := ?tok\<rparr>) c d =
        Some (map jobToProto (ListJobs d tenant (lj_PhaseFilter req) ?N (off + nat ?s)))"
      using Suc.IH[of "req\<lparr>lj_PageToken := ?tok\<rparr>" "off + nat ?s"] Suc.prems le pos by simp
    moreover have "take (nat ?s) (drop off all) @ take ?N (drop (off + nat ?s) all) = take ?N (drop off all)"
      using len append_take_drop_id[of "nat ?s" "drop off all"] by (simp add: add.commute)
    ultimately show ?thesis using resp itoa_digits[of "off + nat ?s"] unfolding page by (simp flip: map_append)
  next
    case False
    then have "length (take (nat ?s) (drop off all)) < nat ?s" by simp
    then have "take (nat ?s) (drop off all) = take ?N (drop off all)" using len by auto
    moreover have "snd (api_ListJobs req c d) = Inr \<lparr>lr_Jobs = map jobToProto (take (nat ?s) (drop off all)), lr_NextPageToken = []\<rparr>"
      using Suc.prems(1,3) False page_size_bounds[of "lj_PageSize req"]
      by (auto simp: api_ListJobs_def Let_def page nat_eq_iff)
    ultimately show ?thesis unfolding page by simp
  qed
qed simp

section \<open>Watching\<close>

fun upto_terminal :: "job_event list \<Rightarrow> job_event list" where
  "upto_terminal [] = []"
| "upto_terminal (e # es) = (if Terminal (ev_Phase e) then [e] else e # upto_terminal es)"

definition some_terminal :: "job_event list \<Rightarrow> bool" where
  "some_terminal es \<longleftrightarrow> (\<exists>e \<in> set es. Terminal (ev_Phase e))"

lemma upto_terminal_append:
  "upto_terminal (xs @ ys) = (if some_terminal xs then upto_terminal xs else xs @ upto_terminal ys)"
  by (induction xs) (auto simp: some_terminal_def)

lemma send_events_eq:
  "send_events rec l evs = (map (event_view rec) (upto_terminal evs),
     if evs = [] then l else ev_Seq (last (upto_terminal evs)), some_terminal evs)"
proof (induction rec l evs rule: send_events.induct)
  case (2 rec l ev evs)
  have "upto_terminal evs = [] \<longleftrightarrow> evs = []" by (cases evs) auto
  with 2 show ?case by (auto simp: some_terminal_def Let_def)
qed (simp add: some_terminal_def)

lemma upto_terminal_all: "\<not> some_terminal evs \<Longrightarrow> upto_terminal evs = evs"
  using upto_terminal_append[of evs "[]"] by simp

text \<open>The last sequence number a watcher has seen, 0 before the first event.\<close>

definition seen :: "job_event list \<Rightarrow> nat" where
  "seen es = (if es = [] then 0 else ev_Seq (last es))"

lemma since_seen:
  assumes "sorted_wrt (<) (map ev_Seq (xs @ ys))" and "\<forall>e \<in> set ys. 0 < ev_Seq e"
  shows "filter (\<lambda>e. seen xs < ev_Seq e) (xs @ ys) = ys"
proof -
  have "\<forall>e \<in> set xs. \<not> seen xs < ev_Seq e"
    using assms(1) by (cases xs rule: rev_cases) (auto simp: seen_def sorted_wrt_append dest: less_asym)
  moreover have "\<forall>e \<in> set ys. seen xs < ev_Seq e"
    using assms by (auto simp: seen_def sorted_wrt_append)
  ultimately show ?thesis by (simp add: filter_False)
qed

lemma JobEventsSince_seen:
  assumes "seqs_ok d" and "events_of d i = xs @ ys"
  shows "JobEventsSince d i (seen xs) = ys"
proof -
  have s: "sorted_wrt (<) (map ev_Seq (events_of d i))"
    using assms(1) by (auto simp: seqs_ok_def events_of_def sorted_wrt_map intro: sorted_wrt_filter)
  have pos: "\<forall>e \<in> set ys. 0 < ev_Seq e"
    using assms unfolding seqs_ok_def by (metis (no_types, lifting) Un_iff events_of_def filter_is_subset set_append subsetD)
  have eq: "filter (\<lambda>e. seen xs < ev_Seq e) (events_of d i) = ys"
    using since_seen[of xs ys] s pos assms(2) by simp
  have "sorted (map ev_Seq ys)"
    using s assms(2) strict_sorted_imp_sorted[of "map ev_Seq ys"] by (simp add: sorted_wrt_append)
  then show ?thesis unfolding JobEventsSince_def eq by (rule sort_key_id_if_sorted)
qed

text \<open>Databases in the order of their transactions.\<close>

fun chain :: "db \<Rightarrow> db list \<Rightarrow> bool" where
  "chain d [] = True"
| "chain d (e # es) = (store_run d e \<and> chain e es)"

lemma chain_run: "chain d ds \<Longrightarrow> store_run d (last (d # ds))"
  by (induction d ds rule: chain.induct) (auto intro: run_trans)

lemma watch_loop_all:
  assumes "reachable d" and "chain d ds" and "\<not> some_terminal (events_of d (jr_JobID rec))"
  shows "fst (watch_loop rec (seen (events_of d (jr_JobID rec))) ds) = map (event_view rec)
      (upto_terminal (drop (length (events_of d (jr_JobID rec))) (events_of (last (d # ds)) (jr_JobID rec)))) \<and>
    (snd (watch_loop rec (seen (events_of d (jr_JobID rec))) ds) = None \<longleftrightarrow> some_terminal (events_of (last (d # ds)) (jr_JobID rec)))"
  using assms
proof (induction d ds rule: chain.induct)
  case (2 d e es)
  let ?i = "jr_JobID rec"
  from 2(3) have run: "store_run d e" and ch: "chain e es" by auto
  have re: "reachable e" using reachable_run[OF run] 2(2) .
  then have sq: "seqs_ok e" using reachable_inv[of e] by (simp add: store_inv_def)
  obtain ys where ys: "events_of e ?i = events_of d ?i @ ys" using events_of_run[OF run, of ?i] by (auto simp: prefix_def)
  obtain zs where zs: "events_of (last (e # es)) ?i = events_of e ?i @ zs"
    using events_of_run[OF chain_run[OF ch], of ?i] by (auto simp: prefix_def)
  note since = JobEventsSince_seen[OF sq ys]
  have trm: "some_terminal (events_of e ?i) \<longleftrightarrow> some_terminal ys" using 2(4) ys by (auto simp: some_terminal_def)
  show ?case
  proof (cases "some_terminal ys")
    case True
    then show ?thesis using ys zs since trm
      by (auto simp: send_events_eq upto_terminal_append some_terminal_def)
  next
    case False
    have l: "(if ys = [] then seen (events_of d ?i) else ev_Seq (last (upto_terminal ys))) = seen (events_of e ?i)"
      using ys upto_terminal_all[OF False] by (simp add: seen_def)
    from 2(1)[OF re ch] False trm have ih:
      "fst (watch_loop rec (seen (events_of e ?i)) es) = map (event_view rec) (upto_terminal zs)"
      "snd (watch_loop rec (seen (events_of e ?i)) es) = None \<longleftrightarrow> some_terminal (events_of (last (e # es)) ?i)"
      using zs by simp_all
    have "watch_loop rec (seen (events_of d ?i)) (e # es) =
        (map (event_view rec) ys @ fst (watch_loop rec (seen (events_of e ?i)) es), snd (watch_loop rec (seen (events_of e ?i)) es))"
      using False upto_terminal_all[OF False] l by (simp add: since send_events_eq Let_def case_prod_unfold)
    moreover have "drop (length (events_of d ?i)) (events_of (last (d # e # es)) ?i) = ys @ zs" using ys zs by simp
    ultimately show ?thesis using ih False by (simp add: upto_terminal_append)
  qed
qed simp

lemma WatchJob_all:
  assumes "reachable d" and "store_run d d1" and "chain d1 ds" and "loadJob jobID c d = Inr rec"
  shows "fst (WatchJob jobID d1 ds c d) = map (event_view rec) (upto_terminal (events_of (last (d1 # ds)) jobID)) \<and>
    (snd (WatchJob jobID d1 ds c d) = None \<longleftrightarrow> some_terminal (events_of (last (d1 # ds)) jobID))"
proof -
  have id: "jr_JobID rec = jobID" using loadJob_ok[OF assms(4)] by simp
  have r1: "reachable d1" using reachable_run[OF assms(2,1)] .
  then have sq: "seqs_ok d1" using reachable_inv by (auto simp: store_inv_def)
  have "phase_of d jobID \<noteq> None" using loadJob_ok[OF assms(4)] by (simp add: phase_of_def)
  then have "history d jobID \<noteq> []"
    using reachable_inv[OF assms(1)] unfolding store_inv_def jobs_ok_def legal_path_def by auto
  then have ne: "events_of d1 jobID \<noteq> []"
    using events_of_run[OF assms(2), of jobID] by (auto simp: history_def)
  have ev: "JobEventsSince d1 jobID 0 = events_of d1 jobID"
    using JobEventsSince_seen[OF sq, of jobID "[]" "events_of d1 jobID"] by (simp add: seen_def)
  obtain zs where zs: "events_of (last (d1 # ds)) jobID = events_of d1 jobID @ zs"
    using events_of_run[OF chain_run[OF assms(3)], of jobID] by (auto simp: prefix_def)
  show ?thesis
  proof (cases "some_terminal (events_of d1 jobID)")
    case True
    then show ?thesis using assms(4) id zs
      by (auto simp: WatchJob_def ev Let_def send_events_eq upto_terminal_append some_terminal_def)
  next
    case False
    note w = watch_loop_all[OF r1 assms(3), of rec, unfolded id, OF False]
    have "WatchJob jobID d1 ds c d = (map (event_view rec) (events_of d1 jobID) @
        fst (watch_loop rec (seen (events_of d1 jobID)) ds), snd (watch_loop rec (seen (events_of d1 jobID)) ds))"
      using assms(4) id False ne upto_terminal_all[OF False]
      by (simp add: WatchJob_def ev Let_def send_events_eq case_prod_unfold seen_def)
    with w zs False show ?thesis by (simp add: upto_terminal_append)
  qed
qed

end
