(* ===== verification/Api_Admin.thy ===== *)
theory Api_Admin
  imports Api_Auth
begin

text \<open>
  The admin, targets and usage services (\<open>internal/api/admin.go\<close>, \<open>services.go\<close>): token lifecycle,
  projects, quotas, ledger export, the fleet view and tenant usage. Handlers have the shape of
  \<open>Api_Jobs\<close>: context and database in, database and response or error out.
\<close>

section \<open>Tokens\<close>

record token_info =
  tf_Id :: string
  tf_Name :: string
  tf_Project :: string
  tf_Role :: string
  tf_CreatedBy :: string
  tf_CreatedAt :: "time option"
  tf_LastUsedAt :: "time option"
  tf_RevokedAt :: "time option"

definition tsOrNil :: "time option \<Rightarrow> time option" where
  "tsOrNil t = (case t of None \<Rightarrow> None | Some x \<Rightarrow> if IsZero x then None else Some x)"

definition tokenInfo :: "token_record \<Rightarrow> token_info" where
  "tokenInfo r = \<lparr>tf_Id = tr_ID r, tf_Name = tr_Name r, tf_Project = tr_Project r, tf_Role = tr_Role r,
     tf_CreatedBy = tr_CreatedBy r, tf_CreatedAt = tsOrNil (Some (tr_CreatedAt r)),
     tf_LastUsedAt = tsOrNil (tr_LastUsedAt r), tf_RevokedAt = tsOrNil (tr_RevokedAt r)\<rparr>"

record whoami =
  wa_Subject :: string
  wa_Name :: string
  wa_Role :: string
  wa_PrincipalType :: string
  wa_Project :: string

definition WhoAmI :: "ctx \<Rightarrow> db \<Rightarrow> db \<times> (api_error + whoami)" where
  "WhoAmI c d =
     (d, case FromContext c of
           None \<Rightarrow> Inl (Unauthenticated, Message ''no principal'')
         | Some p \<Rightarrow> Inr \<lparr>wa_Subject = pr_Subject p, wa_Name = pr_Name p, wa_Role = role_String (pr_Role p),
             wa_PrincipalType = principal_type_str (pr_Type p), wa_Project = pr_Project p\<rparr>)"

record create_token_request =
  ct_Name :: string
  ct_Project :: string
  ct_Role :: string

text \<open>The zero principal prints as two empty strings around the colon.\<close>

definition created_by :: "ctx \<Rightarrow> string" where
  "created_by c = (case FromContext c of
      None \<Rightarrow> '':'' | Some p \<Rightarrow> principal_type_str (pr_Type p) @ '':'' @ pr_Subject p)"

definition CreateToken ::
  "time \<Rightarrow> string + string \<Rightarrow> string + string \<Rightarrow> create_token_request \<Rightarrow> ctx \<Rightarrow> db \<Rightarrow> db \<times> (api_error + string \<times> token_info)" where
  "CreateToken now rnd_id rnd_sec req c d =
     (if ct_Name req = [] \<or> ct_Project req = []
      then (d, Inl (InvalidArgument, Message ''name and project are required''))
      else
        (case ParseRole (ct_Role req) of
           Inl e \<Rightarrow> (d, Inl (InvalidArgument, Message e))
         | Inr role \<Rightarrow>
             (case MintToken rnd_id rnd_sec of
                Inl e \<Rightarrow> (d, Inl (Internal, Message (''mint token: '' @ e)))
              | Inr (plain, i, h) \<Rightarrow>
                  (case InsertToken now \<lparr>tr_ID = i, tr_Name = ct_Name req, tr_Project = ct_Project req,
                       tr_Role = role_String role, tr_TokenHash = h, tr_CreatedBy = created_by c,
                       tr_CreatedAt = zero_time, tr_LastUsedAt = None, tr_RevokedAt = None\<rparr> d of
                     (d1, Inl e) \<Rightarrow> (d1, Inl (Internal, Store ''store token'' e))
                   | (d1, Inr _) \<Rightarrow>
                       (case GetToken d1 i of
                          Inl e \<Rightarrow> (d1, Inl (Internal, Store ''read back token'' e))
                        | Inr stored \<Rightarrow> (d1, Inr (plain, tokenInfo stored)))))))"

definition api_ListTokens :: "string \<Rightarrow> ctx \<Rightarrow> db \<Rightarrow> db \<times> (api_error + token_info list)" where
  "api_ListTokens project c d = (d, Inr (map tokenInfo (ListTokens d project)))"

definition api_RevokeToken :: "time \<Rightarrow> string \<Rightarrow> ctx \<Rightarrow> db \<Rightarrow> db \<times> (api_error + bool)" where
  "api_RevokeToken now i c d =
     (if i = [] then (d, Inl (InvalidArgument, Message ''id is required''))
      else (let (d1, found) = RevokeToken now i d in (d1, Inr found)))"

section \<open>Projects and quotas\<close>

record project_proto =
  pp_Tenant :: string
  pp_Org :: string
  pp_Name :: string
  pp_Weight :: int
  pp_CreatedAt :: "time option"
  pp_ArchivedAt :: "time option"

definition to_int32 :: "int \<Rightarrow> int" where
  "to_int32 n = (n + 2147483648) mod 4294967296 - 2147483648"

definition projectToProto :: "project_record \<Rightarrow> project_proto" where
  "projectToProto p = \<lparr>pp_Tenant = pj_Tenant p, pp_Org = pj_Org p, pp_Name = pj_Name p,
     pp_Weight = to_int32 (pj_Weight p), pp_CreatedAt = tsOrNil (Some (pj_CreatedAt p)), pp_ArchivedAt = tsOrNil (pj_ArchivedAt p)\<rparr>"

definition CreateProject :: "time \<Rightarrow> string \<Rightarrow> int \<Rightarrow> ctx \<Rightarrow> db \<Rightarrow> db \<times> (api_error + project_proto)" where
  "CreateProject now tenant weight c d =
     (if tenant = [] then (d, Inl (InvalidArgument, Message ''tenant is required''))
      else
        (case EnsureProject now tenant d of
           (d1, Inl e) \<Rightarrow> (d1, Inl (Internal, Store ''create project'' e))
         | (d1, Inr p) \<Rightarrow>
             if weight \<ge> 1 \<and> weight \<noteq> pj_Weight p
             then (case SetProjectWeight (pj_Tenant p) weight d1 of
                     (d2, Inl e) \<Rightarrow> (d2, Inl (Internal, Store ''set weight'' e))
                   | (d2, Inr _) \<Rightarrow> (d2, Inr (projectToProto (p\<lparr>pj_Weight := weight\<rparr>))))
             else (d1, Inr (projectToProto p))))"

definition api_ListProjects :: "bool \<Rightarrow> ctx \<Rightarrow> db \<Rightarrow> db \<times> (api_error + project_proto list)" where
  "api_ListProjects includeArchived c d = (d, Inr (map projectToProto (ListProjects d includeArchived)))"

definition api_ArchiveProject :: "time \<Rightarrow> string \<Rightarrow> ctx \<Rightarrow> db \<Rightarrow> db \<times> (api_error + bool)" where
  "api_ArchiveProject now tenant c d =
     (if tenant = [] then (d, Inl (InvalidArgument, Message ''tenant is required''))
      else (let (d1, found) = ArchiveProject now tenant d in (d1, Inr found)))"

definition api_SetQuota :: "string \<Rightarrow> string \<Rightarrow> float64 \<Rightarrow> ctx \<Rightarrow> db \<Rightarrow> db \<times> (api_error + unit)" where
  "api_SetQuota tenant u limit c d =
     (if tenant = [] \<or> u = [] then (d, Inl (InvalidArgument, Message ''tenant and unit are required''))
      else
        (case GetProject d tenant of
           Inl _ \<Rightarrow> (d, Inl (NotFound, Message (''project '' @ quote tenant @ '' not found'')))
         | Inr _ \<Rightarrow>
             (case SetQuota tenant u limit d of
                (d1, Inl e) \<Rightarrow> (d1, Inl (Internal, Store ''set quota'' e))
              | (d1, Inr _) \<Rightarrow> (d1, Inr ()))))"

definition api_ListQuotas :: "string \<Rightarrow> ctx \<Rightarrow> db \<Rightarrow> db \<times> (api_error + quota_record list)" where
  "api_ListQuotas tenant c d = (d, Inr (ListQuotas d tenant))"

section \<open>Ledger, usage and targets\<close>

record ledger_entry_proto =
  le_Id :: nat
  le_JobId :: string
  le_TaskId :: string
  le_Tenant :: string
  le_Target :: string
  le_Unit :: string
  le_Amount :: float64

definition ledger_proto :: "ledger_row \<Rightarrow> ledger_entry_proto" where
  "ledger_proto e = \<lparr>le_Id = lg_ID e, le_JobId = lg_JobID e, le_TaskId = lg_TaskID e, le_Tenant = lg_Tenant e,
     le_Target = lg_Target e, le_Unit = lg_Unit e, le_Amount = lg_Amount e\<rparr>"

text \<open>A scoped token exports its own project only.\<close>

definition export_tenant :: "ctx \<Rightarrow> string \<Rightarrow> status + string" where
  "export_tenant c tenant =
     (case FromContext c of
        Some p \<Rightarrow>
          if pr_Project p = [] then Inr tenant
          else if tenant = [] then Inr (pr_Project p)
          else (case CheckProject c tenant of Some err \<Rightarrow> Inl err | None \<Rightarrow> Inr tenant)
      | None \<Rightarrow> Inr tenant)"

definition ExportLedger :: "string \<Rightarrow> ctx \<Rightarrow> db \<Rightarrow> db \<times> (api_error + ledger_entry_proto list)" where
  "ExportLedger tenant c d =
     (d, case export_tenant c tenant of
           Inl err \<Rightarrow> Inl (as_api err)
         | Inr t \<Rightarrow> Inr (map ledger_proto (LedgerEntries d t)))"

definition GetTenantUsage :: "string \<Rightarrow> time option \<Rightarrow> time option \<Rightarrow> ctx \<Rightarrow> db \<Rightarrow> db \<times> (api_error + usage_total list)" where
  "GetTenantUsage tenant from to c d =
     (d, if tenant = [] then Inl (InvalidArgument, Message ''tenant is required'')
         else (case CheckProject c tenant of
                 Some err \<Rightarrow> Inl (as_api err)
               | None \<Rightarrow> Inr (TenantUsage d tenant
                   (case from of Some t \<Rightarrow> t | None \<Rightarrow> zero_time) (case to of Some t \<Rightarrow> t | None \<Rightarrow> zero_time))))"

definition api_ListTargets :: "(Entry \<Rightarrow> string + 'api) \<Rightarrow> registry \<Rightarrow> string \<Rightarrow> api_error + 'api list" where
  "api_ListTargets encode r modality = (case ListTargets encode r modality of
      Inl e \<Rightarrow> Inl (Internal, Message (''listing targets: '' @ e)) | Inr ts \<Rightarrow> Inr ts)"

definition api_GetTarget :: "(Entry \<Rightarrow> string + 'api) \<Rightarrow> registry \<Rightarrow> string \<Rightarrow> api_error + 'api" where
  "api_GetTarget encode r name = (case GetTarget encode r name of
      Inl e \<Rightarrow> Inl (Internal, Message (''getting target: '' @ e))
    | Inr None \<Rightarrow> Inl (NotFound, Message (''target '' @ quote name @ '' not registered''))
    | Inr (Some t) \<Rightarrow> Inr t)"

section \<open>Facts\<close>

lemma CreateToken_ok:
  assumes "CreateToken now rnd_id rnd_sec req c d = (d', Inr (plain, info))"
  obtains idb sec role i where "rnd_id = Inr idb" "rnd_sec = Inr sec" "ParseRole (ct_Role req) = Inr role"
    "MintToken rnd_id rnd_sec = Inr (plain, i, HashToken plain)" "i \<notin> set (map tr_ID (api_tokens d))"
    "d' = d\<lparr>api_tokens := api_tokens d @ [\<lparr>tr_ID = i, tr_Name = ct_Name req, tr_Project = ct_Project req,
       tr_Role = role_String role, tr_TokenHash = HashToken plain, tr_CreatedBy = created_by c,
       tr_CreatedAt = now, tr_LastUsedAt = None, tr_RevokedAt = None\<rparr>]\<rparr>"
proof -
  from assms obtain role where role: "ParseRole (ct_Role req) = Inr role"
    by (auto simp: CreateToken_def split: if_splits sum.splits)
  from assms role obtain pl i h where m: "MintToken rnd_id rnd_sec = Inr (pl, i, h)"
    by (cases "MintToken rnd_id rnd_sec") (auto simp: CreateToken_def split: if_splits)
  then obtain idb sec where rnd: "rnd_id = Inr idb" "rnd_sec = Inr sec" "h = HashToken pl"
    by (auto simp: MintToken_def Let_def split: sum.splits)
  from assms role m have "pl = plain"
    by (auto simp: CreateToken_def split: if_splits sum.splits prod.splits)
  with assms role m rnd show ?thesis
    by (intro that[of idb sec role i])
      (auto simp: CreateToken_def InsertToken_def tbl_has_def split: if_splits sum.splits prod.splits)
qed

lemma run_admin:
  "store_run d (fst (CreateToken now rnd_id rnd_sec req c d))"
  "store_run d (fst (api_RevokeToken now i c d))"
  "store_run d (fst (CreateProject now tenant weight c d))"
  "store_run d (fst (api_ArchiveProject now tenant c d))"
  "store_run d (fst (api_SetQuota tenant u limit c d))"
proof -
  have "fst (CreateToken now rnd_id rnd_sec req c d) = d \<or> (\<exists>t. fst (CreateToken now rnd_id rnd_sec req c d) = fst (InsertToken now t d))"
    by (auto simp: CreateToken_def split: sum.splits prod.splits) (metis fst_conv)+
  then show "store_run d (fst (CreateToken now rnd_id rnd_sec req c d))"
    using run1[OF token_new] by (metis rtranclp.rtrancl_refl)
  show "store_run d (fst (api_RevokeToken now i c d))"
    using run1[OF token_revoke, of d now i] by (simp add: api_RevokeToken_def case_prod_unfold Let_def)
  have e: "store_run d (fst (EnsureProject now tenant d))" using run1[OF project] by simp
  have "fst (CreateProject now tenant weight c d) = d \<or> fst (CreateProject now tenant weight c d) = fst (EnsureProject now tenant d) \<or>
      (\<exists>t. fst (CreateProject now tenant weight c d) = fst (SetProjectWeight t weight (fst (EnsureProject now tenant d))))"
    by (auto simp: CreateProject_def split: sum.splits prod.splits) (metis fst_conv)+
  then show "store_run d (fst (CreateProject now tenant weight c d))"
    using e run_trans[OF e run1[OF store_step.weight]] by (metis rtranclp.rtrancl_refl)
  show "store_run d (fst (api_ArchiveProject now tenant c d))"
    using run1[OF archive, of d now tenant] by (simp add: api_ArchiveProject_def case_prod_unfold Let_def)
  show "store_run d (fst (api_SetQuota tenant u limit c d))"
    using run1[OF store_step.quota, of d tenant u limit] by (auto simp: api_SetQuota_def split: sum.splits prod.splits)
qed

text \<open>A minted token authenticates as its record says, a revoked one never again.\<close>

lemma authenticateToken_minted:
  assumes "CreateToken now (Inr idb) rnd_sec req c d = (d', Inr (plain, info))" and "idb \<noteq> []"
  obtains role where "ParseRole (ct_Role req) = Inr role" "authenticateToken now' plain d' = (TouchToken now' (EncodeToString idb) d',
      Inr \<lparr>pr_Type = PrincipalToken, pr_Subject = EncodeToString idb, pr_Name = ct_Name req, pr_Role = role, pr_Project = ct_Project req\<rparr>)"
proof (rule CreateToken_ok[OF assms(1)])
  fix idb' sec role i
  assume a: "Inr idb = Inr idb'" "rnd_sec = Inr sec" "ParseRole (ct_Role req) = Inr role"
    "MintToken (Inr idb) rnd_sec = Inr (plain, i, HashToken plain)" "i \<notin> set (map tr_ID (api_tokens d))"
    "d' = d\<lparr>api_tokens := api_tokens d @ [\<lparr>tr_ID = i, tr_Name = ct_Name req, tr_Project = ct_Project req,
       tr_Role = role_String role, tr_TokenHash = HashToken plain, tr_CreatedBy = created_by c,
       tr_CreatedAt = now, tr_LastUsedAt = None, tr_RevokedAt = None\<rparr>]\<rparr>"
  then have mint: "MintToken (Inr idb) (Inr sec) = Inr (plain, i, HashToken plain)" by simp
  then have i: "i = EncodeToString idb" by (auto simp: MintToken_def Let_def)
  have none: "tbl_find tr_ID i (api_tokens d) = None" using a(5) by (simp add: tbl_find_None tbl_has_def)
  from TokenID_mint[OF mint assms(2)] a(6) none
  have "authenticateToken now' plain d' = (TouchToken now' i d', Inr \<lparr>pr_Type = PrincipalToken, pr_Subject = i,
      pr_Name = ct_Name req, pr_Role = role, pr_Project = ct_Project req\<rparr>)"
    by (simp add: authenticateToken_def GetToken_def tbl_find_append)
  with that[OF a(3)] i show thesis by simp
qed

lemma authenticateToken_revoked:
  assumes "TokenID bearer = Inr i" and "tbl_find tr_ID i (api_tokens d) = Some t" and "tr_RevokedAt t \<noteq> None"
  shows "\<exists>err. authenticateToken now bearer d = (d, Inl err) \<and> fst err = Unauthenticated"
  using assms by (auto simp: authenticateToken_def GetToken_def)

end
