(* ===== verification/Api_Properties.thy ===== *)
theory Api_Properties
  imports Api_Jobs Api_Admin
begin

text \<open>
  The contract of the gRPC services: who may call what, that a refused call changes nothing but the
  audit log, submission against scope, archive state and quota, isolation of project-scoped callers,
  the lifecycle of tokens, complete paging and complete watching.
\<close>

section \<open>Authorization\<close>

lemma Authenticate_code: "Authenticate a now md d = (d', Inl err) \<Longrightarrow> fst err \<in> {Unauthenticated, Internal}"
  by (auto simp: Authenticate_def authenticateToken_def Let_def split: sum.splits option.splits if_splits)

lemma check_denied:
  assumes "check a now md m d = (d', Inl err)"
  obtains e where "d' = d\<lparr>api_tokens := last_use now (snd (Authenticate a now md d)) (api_tokens d), audit_log := audit_log d @ [e]\<rparr>"
    "au_Method e = m" "au_Decision e = ''deny''" "au_Reason e = snd err"
proof -
  obtain d1 r where au: "Authenticate a now md d = (d1, r)" by force
  have d1: "d1 = d\<lparr>api_tokens := last_use now r (api_tokens d)\<rparr>" using Authenticate_writes[of a now md d] au by simp
  show ?thesis
    using assms that by (auto simp: check_def au d1 audit_def RecordAudit_def audit_anonymous_def audit_principal_def
        split: sum.splits option.splits)
qed

text \<open>C17: Calls fail closed. A handler runs exactly for an authenticated caller whose role reaches the minimum
  the matrix lists for the method (an unlisted method is never served), with an audit entry first if the
  method is an admin action. Every other call is refused with an authentication or permission error, and all it changes
  is one \<open>deny\<close> entry in the audit log and, if the caller presented a valid token, the last-use time of that token.\<close>

theorem calls_fail_closed:
  "(\<exists>p want. snd (Authenticate a now md d) = Inr p \<and> MinRole m = Some want \<and> want \<le> pr_Role p \<and>
      UnaryAuthInterceptor a now md m handler d =
        handler (Some p) (d\<lparr>api_tokens := last_use now (Inr p) (api_tokens d),
          audit_log := audit_log d @ (if m \<in> set adminActions then [audit_principal p m ''allow'' []] else [])\<rparr>)) \<or>
   (\<not> (\<exists>p want. snd (Authenticate a now md d) = Inr p \<and> MinRole m = Some want \<and> want \<le> pr_Role p) \<and>
    (\<exists>err e. UnaryAuthInterceptor a now md m handler d =
        (d\<lparr>api_tokens := last_use now (snd (Authenticate a now md d)) (api_tokens d), audit_log := audit_log d @ [e]\<rparr>, Inl err) \<and>
      fst err \<in> {Unauthenticated, PermissionDenied, Internal} \<and> au_Method e = m \<and> au_Decision e = ''deny''))"
proof -
  obtain d1 r where au: "Authenticate a now md d = (d1, r)" by force
  have d1: "d1 = d\<lparr>api_tokens := last_use now r (api_tokens d)\<rparr>" using Authenticate_writes[of a now md d] au by simp
  show ?thesis
  proof (cases "\<exists>p. r = Inr p \<and> Authorize p m = None")
    case True
    then obtain p where p: "r = Inr p" "Authorize p m = None" by blast
    then have "UnaryAuthInterceptor a now md m handler d = handler (Some p) (d\<lparr>api_tokens := last_use now (Inr p) (api_tokens d),
          audit_log := audit_log d @ (if m \<in> set adminActions then [audit_principal p m ''allow'' []] else [])\<rparr>)"
      by (simp add: UnaryAuthInterceptor_def check_def au d1 audit_def RecordAudit_def WithPrincipal_def)
    with au p Authorize_None[of p m] show ?thesis by auto
  next
    case False
    then have "\<exists>d' err. check a now md m d = (d', Inl err)"
      by (cases r) (auto simp: check_def au split: option.splits)
    then obtain d' err where den: "check a now md m d = (d', Inl err)" by blast
    have code: "fst err \<in> {Unauthenticated, PermissionDenied, Internal}"
    proof (cases r)
      case (Inl e)
      with den au Authenticate_code[of a now md d d1 e] show ?thesis by (auto simp: check_def)
    next
      case (Inr p)
      with den au Authorize_code[of p m "fst err" "snd err"] show ?thesis by (auto simp: check_def split: option.splits)
    qed
    from check_denied[OF den] obtain e where
      "d' = d\<lparr>api_tokens := last_use now (snd (Authenticate a now md d)) (api_tokens d), audit_log := audit_log d @ [e]\<rparr>"
      "au_Method e = m" "au_Decision e = ''deny''" by blast
    then show ?thesis
      using den code False au Authorize_None[of _ m] by (auto simp: UnaryAuthInterceptor_def as_api_def)
  qed
qed

section \<open>Submission\<close>

lemma insertJobTx_new:
  assumes "insertJobTx now rec d = (d', Inr ())"
  shows "job_ids d' = job_ids d @ [jr_JobID rec]" "phase_of d' (jr_JobID rec) = Some (jr_Phase rec)"
proof -
  show "job_ids d' = job_ids d @ [jr_JobID rec]"
    by (cases rule: insertJobTx_cases[of rec d now]) (use assms in \<open>auto simp: job_ids_def\<close>)
  show "phase_of d' (jr_JobID rec) = Some (jr_Phase rec)"
  proof (cases rule: insertJobTx_cases[of rec d now])
    case (ok d'')
    then have "tbl_find jr_JobID (jr_JobID rec) (jobs d) = None"
      by (simp add: tbl_find_None tbl_has_def job_ids_def)
    with ok assms show ?thesis by (simp add: phase_of_def tbl_find_append)
  qed (use assms in simp)
qed

text \<open>C16: What submission promises. A job that is accepted passed admission, lies in a project the caller may
  use and that is not archived, is the one new job and \<open>PENDING\<close>, and if its project has a quota on shots
  then billed usage plus the declared cost of all unfinished jobs, this one included, is within the limit.\<close>

theorem accepted_submission_is_in_scope_and_quota:
  assumes "SubmitJob schema fleet tA tP tI uuid req c d = (d', Inr p)" and "\<not> sj_DryRun req"
  shows "\<exists>doc adm proj. sj_QuantumJob req = Some doc \<and> Admit schema tA (Some doc) (sj_Tenant req) fleet = Inr adm \<and>
    CheckProject c (am_Tenant adm) = None \<and> EnsureProject tP (am_Tenant adm) d = (fst (EnsureProject tP (am_Tenant adm) d), Inr proj) \<and>
    pj_ArchivedAt proj = None \<and> job_ids d' = job_ids d @ [uuid] \<and> phase_of d' uuid = Some Pending \<and>
    jp_JobId p = uuid \<and> jp_Tenant p = am_Tenant adm \<and>
    (\<forall>q. tbl_find quota_key (am_Tenant adm, ''shots'') (project_quotas d) = Some q \<longrightarrow>
       0 < declared_cost (am_Doc adm) ''shots'' \<longrightarrow> committed d' (am_Tenant adm) ''shots'' \<le> qt_Limit q)"
proof (cases rule: SubmitJob_cases[of schema fleet tA tP tI uuid req c d])
  case (ok doc adm d1 d2 proj)
  let ?job = "new_job uuid adm (map (\<lambda>w. JObj (conditionToMap w)) (am_Warnings adm))"
  have d: "d' = d2" "p = jobToProto (?job\<lparr>jr_CreatedAt := tI, jr_UpdatedAt := tI\<rparr>)" using ok(8) assms(1) by simp_all
  have job: "jr_JobID ?job = uuid" "jr_Tenant ?job = am_Tenant adm" "jr_Phase ?job = Pending" "jr_Doc ?job = am_Doc adm"
    by (simp_all add: new_job_def)
  note ins = InsertJobWithQuota_ok[OF ok(7)]
  have e1: "d1 = fst (EnsureProject tP (am_Tenant adm) d)" using ok(5) by simp
  have frame: "job_ids d1 = job_ids d" "project_quotas d1 = project_quotas d" unfolding e1 by (simp_all add: job_ids_def)
  have new: "job_ids d2 = job_ids d @ [uuid]" "phase_of d2 uuid = Some Pending"
    using insertJobTx_new[OF ins(2)] frame job by simp_all
  have "committed d2 (am_Tenant adm) ''shots'' \<le> qt_Limit q"
    if q: "tbl_find quota_key (am_Tenant adm, ''shots'') (project_quotas d) = Some q" "0 < declared_cost (am_Doc adm) ''shots''" for q
  proof -
    have "(''shots'', declared_cost (am_Doc adm) ''shots'') \<in> set (declaredCosts (am_Doc adm))"
      using q(2) by (auto simp: declaredCosts_docPath declared_cost_def split: option.splits if_splits)
    from check_quotas_None[OF ins(1)[unfolded job(2)] this] q(1) frame(2)
    have "committed d1 (am_Tenant adm) ''shots'' + declared_cost (am_Doc adm) ''shots'' \<le> qt_Limit q" by simp
    then show ?thesis using committed_insert[OF ins(2), of "am_Tenant adm" "''shots''"] job by simp
  qed
  then show ?thesis
    using ok(1,3-6) new d e1 by (intro exI[of _ doc] exI[of _ adm] exI[of _ proj]) (simp add: jobToProto_def new_job_def)
qed (use assms in auto)

definition demo_admin :: Principal where
  "demo_admin = \<lparr>pr_Type = PrincipalBootstrap, pr_Subject = ''bootstrap'', pr_Name = ''bootstrap'', pr_Role = RoleAdmin, pr_Project = []\<rparr>"

definition demo_request :: "bool \<Rightarrow> submit_job_request" where
  "demo_request dry = \<lparr>sj_QuantumJob = Some [(''metadata'', JObj [(''name'', JStr ''bell''), (''tenant'', JStr ''acme/lab'')]),
     (''spec'', JObj [(''workload'', JObj [(''kind'', JStr ''gate-model''), (''gateModel'', JObj [(''shots'', JNum 100),
        (''program'', JObj [(''format'', JStr ''openqasm3'')])])])])], sj_Tenant = ''acme/lab'', sj_DryRun = dry\<rparr>"

definition demo_quota_db :: db where
  "demo_quota_db = empty_db\<lparr>project_quotas := [\<lparr>qt_Tenant = ''acme/lab'', qt_Unit = ''shots'', qt_Limit = 250\<rparr>]\<rparr>"

definition demo_formats :: FleetView where
  "demo_formats = \<lparr>fl_ProgramFormats = [''openqasm3''], fl_BillingUnits = [''shots'']\<rparr>"

definition demo_submit :: "bool \<Rightarrow> db \<times> (api_error + job_proto)" where
  "demo_submit dry = SubmitJob (\<lambda>_. True) demo_formats 1 1 1 ''j1'' (demo_request dry) (Some demo_admin) demo_quota_db"

lemma demo_submit_ok: "\<exists>d' p. demo_submit False = (d', Inr p)"
proof -
  have "(case snd (demo_submit False) of Inr _ \<Rightarrow> True | Inl _ \<Rightarrow> False)" by code_simp
  then show ?thesis by (cases "demo_submit False") (auto split: sum.splits)
qed

theorem accepted_submission_is_in_scope_and_quota_witness:
  "job_ids (fst (demo_submit False)) = [''j1''] \<and> phase_of (fst (demo_submit False)) ''j1'' = Some Pending"
proof -
  obtain d' p where out: "demo_submit False = (d', Inr p)" using demo_submit_ok by blast
  have "\<not> sj_DryRun (demo_request False)" "job_ids demo_quota_db = []"
    by (simp_all add: demo_request_def demo_quota_db_def empty_db_def job_ids_def)
  with accepted_submission_is_in_scope_and_quota[OF out[unfolded demo_submit_def]] out show ?thesis by auto
qed

text \<open>A submission that is refused or a dry run adds no job, no event and no task, and leaves the
  ledger and the quotas alone; at most the project row is created.\<close>

theorem refused_submission_adds_nothing:
  assumes "SubmitJob schema fleet tA tP tI uuid req c d = (d', r)" and "sj_DryRun req \<or> (\<exists>e. r = Inl e)"
  shows "jobs d' = jobs d \<and> job_events d' = job_events d \<and> tasks d' = tasks d \<and>
    usage_ledger d' = usage_ledger d \<and> project_quotas d' = project_quotas d"
  by (cases rule: SubmitJob_cases[of schema fleet tA tP tI uuid req c d]) (use assms in auto)

theorem refused_submission_adds_nothing_witness: "jobs (fst (demo_submit True)) = []"
proof -
  obtain d' r where out: "demo_submit True = (d', r)" by force
  have "jobs demo_quota_db = []" by (simp add: demo_quota_db_def empty_db_def)
  with refused_submission_adds_nothing[OF out[unfolded demo_submit_def]] out show ?thesis by (simp add: demo_request_def)
qed

text \<open>A burst cannot overrun a quota. Of any number of submissions of equal declared cost, in whatever
  order the quota row lock serializes them, exactly as many are accepted as the remaining quota affords.\<close>

theorem burst_admits_exactly_the_affordable:
  assumes "0 < cost" and "tbl_find quota_key (tenant, ''shots'') (project_quotas d) = Some q"
    and "\<forall>r \<in> set rs. jr_Tenant r = tenant \<and> jr_Phase r = Pending \<and> declared_cost (jr_Doc r) ''shots'' = cost"
    and "distinct (map jr_JobID rs)" and "set (map jr_JobID rs) \<inter> set (job_ids d) = {}"
  shows "snd (submit_burst now [(''shots'', cost)] rs d) =
    min (length rs) (nat \<lfloor>(qt_Limit q - committed d tenant ''shots'') / cost\<rfloor>)"
  using submit_burst_count[OF assms(1,2) _ assms(4,5)] assms(3) by (simp add: affordable_def)

theorem burst_admits_exactly_the_affordable_witness:
  "snd (submit_burst 1 [(''shots'', 100)] (map demo_job [''j1'', ''j2'', ''j3'', ''j4'']) demo_quota_db) = 2"
proof -
  have "tbl_find quota_key (''acme/lab'', ''shots'') (project_quotas demo_quota_db) =
      Some \<lparr>qt_Tenant = ''acme/lab'', qt_Unit = ''shots'', qt_Limit = 250\<rparr>" by code_simp
  moreover have "committed demo_quota_db ''acme/lab'' ''shots'' = 0" by code_simp
  moreover have "declared_cost (jr_Doc (demo_job i)) ''shots'' = 100" for i
    by (simp add: demo_job_def declared_cost_def get_defs get_def)
  moreover have "job_ids demo_quota_db = []" by (simp add: demo_quota_db_def empty_db_def job_ids_def)
  moreover have "\<lfloor>250 / 100 :: real\<rfloor> = 2" by (simp add: floor_eq_iff)
  ultimately show ?thesis
    using burst_admits_exactly_the_affordable[of 100 "''acme/lab''" demo_quota_db _ "map demo_job [''j1'', ''j2'', ''j3'', ''j4'']" 1]
    by (simp add: demo_job_def)
qed

section \<open>Isolation of scoped callers\<close>

lemma scoped_project: "pr_Project p \<noteq> [] \<Longrightarrow> CheckProject (Some p) t = None \<longleftrightarrow> t = pr_Project p"
  by (auto simp: CheckProject_None)

lemma effectiveTenant_scoped: "pr_Project p \<noteq> [] \<Longrightarrow> effectiveTenant (Some p) t = Inr t' \<Longrightarrow> t' = pr_Project p"
  by (auto simp: effectiveTenant_def FromContext_def scoped_project split: if_splits option.splits)

lemma export_tenant_scoped: "pr_Project p \<noteq> [] \<Longrightarrow> export_tenant (Some p) t = Inr t' \<Longrightarrow> t' = pr_Project p"
  by (auto simp: export_tenant_def FromContext_def scoped_project split: if_splits option.splits)

lemma get_scoped:
  assumes "pr_Project p \<noteq> []" and "snd (api_GetJob i (Some p) d) = Inr j"
  shows "jp_Tenant j = pr_Project p"
proof -
  from assms(2) obtain r where r: "loadJob i (Some p) d = Inr r" "j = jobToProto r"
    by (cases "loadJob i (Some p) d") (simp_all add: api_GetJob_def)
  with loadJob_ok(4)[OF r(1)] scoped_project[OF assms(1)] show ?thesis by (simp add: jobToProto_def)
qed

lemma list_scoped:
  assumes "pr_Project p \<noteq> []" and "snd (api_ListJobs req (Some p) d) = Inr r" and "j \<in> set (lr_Jobs r)"
  shows "jp_Tenant j = pr_Project p"
proof -
  from assms(2) obtain off t where "page_offset (lj_PageToken req) = Some off" "effectiveTenant (Some p) (lj_Tenant req) = Inr t"
    by (auto simp: api_ListJobs_def split: option.splits sum.splits)
  with assms effectiveTenant_scoped[OF assms(1) this(2)] obtain rec ph n m where
    "j = jobToProto rec" "rec \<in> set (ListJobs d (pr_Project p) ph n m)" by (auto simp: api_ListJobs_def Let_def)
  with ListJobs_tenant assms(1) show ?thesis by (simp add: jobToProto_def)
qed

lemma export_scoped:
  assumes "pr_Project p \<noteq> []" and "snd (ExportLedger t (Some p) d) = Inr es" and "e \<in> set es"
  shows "le_Tenant e = pr_Project p"
proof -
  from assms(2) obtain t' where "export_tenant (Some p) t = Inr t'" by (auto simp: ExportLedger_def split: sum.splits)
  with assms export_tenant_scoped[OF assms(1) this] show ?thesis by (auto simp: ExportLedger_def LedgerEntries_def ledger_proto_def)
qed

lemma watch_scoped:
  assumes "pr_Project p \<noteq> []" and "j \<in> set (fst (WatchJob i d1 ds (Some p) d))"
  shows "jp_Tenant j = pr_Project p"
proof -
  have loop: "j \<in> set (fst (watch_loop r l es)) \<Longrightarrow> jp_Tenant j = jr_Tenant r" for r l es
    by (induction r l es rule: watch_loop.induct)
      (auto simp: send_events_eq Let_def event_view_def jobToProto_def split: prod.splits bool.splits if_splits)
  from assms(2) obtain r where r: "loadJob i (Some p) d = Inr r" by (cases "loadJob i (Some p) d") (auto simp: WatchJob_def)
  then have "jp_Tenant j = jr_Tenant r"
    using assms(2)
    by (auto simp: WatchJob_def send_events_eq Let_def event_view_def jobToProto_def split: prod.splits bool.splits if_splits)
      (metis fst_conv loop)+
  with loadJob_ok(4)[OF r] scoped_project[OF assms(1)] show ?thesis by simp
qed

lemma submit_scoped:
  assumes "pr_Project p \<noteq> []" and "rec \<in> set (jobs (fst (SubmitJob schema fleet tA tP tI uuid req (Some p) d)))" and "rec \<notin> set (jobs d)"
  shows "jr_Tenant rec = pr_Project p"
proof (cases rule: SubmitJob_cases[of schema fleet tA tP tI uuid req "Some p" d])
  case (ok doc adm d1 d2 proj)
  let ?job = "new_job uuid adm (map (\<lambda>w. JObj (conditionToMap w)) (am_Warnings adm))"
  have "d1 = fst (EnsureProject tP (am_Tenant adm) d)" using ok(5) by simp
  then have "jobs d1 = jobs d" by simp
  moreover have "insertJobTx tI ?job d1 = (d2, Inr ())" using InsertJobWithQuota_ok[OF ok(7)] by simp
  then have "jobs d2 = jobs d1 @ [?job\<lparr>jr_CreatedAt := tI, jr_UpdatedAt := tI\<rparr>]"
    by (cases rule: insertJobTx_cases[of ?job d1 tI]) auto
  ultimately have "jr_Tenant rec = am_Tenant adm" using assms(2,3) ok(8) by (auto simp: new_job_def)
  with ok(4) scoped_project[OF assms(1)] show ?thesis by simp
qed (use assms in auto)

text \<open>C18: The job, usage and ledger calls keep a project-scoped caller inside its project: the jobs it gets, lists and
  watches, the ledger rows it exports, the usage it reads, the jobs it adds by submitting and the jobs whose phase its
  cancellations change all belong to its project.\<close>

theorem scoped_caller_is_isolated:
  assumes "pr_Project p \<noteq> []"
  shows "(\<forall>i j. snd (api_GetJob i (Some p) d) = Inr j \<longrightarrow> jp_Tenant j = pr_Project p) \<and>
    (\<forall>req r. snd (api_ListJobs req (Some p) d) = Inr r \<longrightarrow> (\<forall>j \<in> set (lr_Jobs r). jp_Tenant j = pr_Project p)) \<and>
    (\<forall>i d1 ds. \<forall>j \<in> set (fst (WatchJob i d1 ds (Some p) d)). jp_Tenant j = pr_Project p) \<and>
    (\<forall>t es. snd (ExportLedger t (Some p) d) = Inr es \<longrightarrow> (\<forall>e \<in> set es. le_Tenant e = pr_Project p)) \<and>
    (\<forall>t a b us. snd (GetTenantUsage t a b (Some p) d) = Inr us \<longrightarrow> t = pr_Project p) \<and>
    (\<forall>schema fleet tA tP tI uuid req rec. rec \<in> set (jobs (fst (SubmitJob schema fleet tA tP tI uuid req (Some p) d))) \<and>
       rec \<notin> set (jobs d) \<longrightarrow> jr_Tenant rec = pr_Project p) \<and>
    (\<forall>now i k. phase_of (fst (CancelJob now i (Some p) d)) k \<noteq> phase_of d k \<longrightarrow>
       (\<exists>r. GetJob d k = Inr r \<and> jr_Tenant r = pr_Project p))"
proof (intro conjI allI impI ballI)
  show "jp_Tenant j = pr_Project p" if "snd (api_GetJob i (Some p) d) = Inr j" for i j
    by (rule get_scoped[OF assms that])
  show "jp_Tenant j = pr_Project p" if "snd (api_ListJobs req (Some p) d) = Inr r" "j \<in> set (lr_Jobs r)" for req r j
    by (rule list_scoped[OF assms that])
  show "jp_Tenant j = pr_Project p" if "j \<in> set (fst (WatchJob i d1 ds (Some p) d))" for i d1 ds j
    by (rule watch_scoped[OF assms that])
  show "le_Tenant e = pr_Project p" if "snd (ExportLedger t (Some p) d) = Inr es" "e \<in> set es" for t es e
    by (rule export_scoped[OF assms that])
  show "t = pr_Project p" if "snd (GetTenantUsage t a b (Some p) d) = Inr us" for t a b us
    using that scoped_project[OF assms, of t] by (auto simp: GetTenantUsage_def split: if_splits option.splits)
  show "jr_Tenant rec = pr_Project p"
    if "rec \<in> set (jobs (fst (SubmitJob schema fleet tA tP tI uuid req (Some p) d))) \<and> rec \<notin> set (jobs d)"
    for schema fleet tA tP tI uuid req rec
    using submit_scoped[OF assms] that by blast
  show "\<exists>r. GetJob d k = Inr r \<and> jr_Tenant r = pr_Project p"
    if "phase_of (fst (CancelJob now i (Some p) d)) k \<noteq> phase_of d k" for now i k
  proof (cases "loadJob i (Some p) d")
    case (Inr r)
    then have "jr_Tenant r = pr_Project p" "GetJob d i = Inr r"
      using loadJob_ok[OF Inr] scoped_project[OF assms] by (simp_all add: GetJob_def)
    moreover have "k = i" using that
      by (cases rule: CancelJob_cases[of now i "Some p" d]) (auto simp: phase_of_TransitionJob split: if_splits)
    ultimately show ?thesis by auto
  qed (use that in \<open>simp add: CancelJob_def\<close>)
qed

text \<open>The administrative calls have no such bound: what they answer and write does not depend on the project of the
  caller, so a token scoped to one project, with the role the call asks for, reaches the tokens, projects and quotas of
  all of them.\<close>

lemma created_by_scope: "created_by (Some (p\<lparr>pr_Project := x\<rparr>)) = created_by (Some p)"
  by (simp add: created_by_def FromContext_def)

lemma admin_calls_ignore_the_scope:
  "api_ListTokens project (Some (p\<lparr>pr_Project := x\<rparr>)) d = api_ListTokens project (Some p) d"
  "CreateToken now rnd_id rnd_sec req (Some (p\<lparr>pr_Project := x\<rparr>)) d = CreateToken now rnd_id rnd_sec req (Some p) d"
  "api_RevokeToken now i (Some (p\<lparr>pr_Project := x\<rparr>)) d = api_RevokeToken now i (Some p) d"
  "CreateProject now tenant weight (Some (p\<lparr>pr_Project := x\<rparr>)) d = CreateProject now tenant weight (Some p) d"
  "api_ArchiveProject now tenant (Some (p\<lparr>pr_Project := x\<rparr>)) d = api_ArchiveProject now tenant (Some p) d"
  "api_SetQuota tenant u limit (Some (p\<lparr>pr_Project := x\<rparr>)) d = api_SetQuota tenant u limit (Some p) d"
  "api_ListProjects all (Some (p\<lparr>pr_Project := x\<rparr>)) d = api_ListProjects all (Some p) d"
  "api_ListQuotas tenant (Some (p\<lparr>pr_Project := x\<rparr>)) d = api_ListQuotas tenant (Some p) d"
  unfolding api_ListTokens_def CreateToken_def created_by_scope api_RevokeToken_def CreateProject_def api_ArchiveProject_def
    api_SetQuota_def api_ListProjects_def api_ListQuotas_def by (rule refl)+

theorem scoped_caller_is_isolated_witness:
  "\<exists>j. snd (api_GetJob ''j1'' (Some (demo_admin\<lparr>pr_Project := ''acme/lab''\<rparr>)) demo_running) = Inr j \<and> jp_Tenant j = ''acme/lab''"
proof -
  let ?p = "demo_admin\<lparr>pr_Project := ''acme/lab''\<rparr>"
  have "(case snd (api_GetJob ''j1'' (Some ?p) demo_running) of Inr _ \<Rightarrow> True | Inl _ \<Rightarrow> False)" by code_simp
  then obtain j where j: "snd (api_GetJob ''j1'' (Some ?p) demo_running) = Inr j" by (auto split: sum.splits)
  have "pr_Project ?p \<noteq> []" by simp
  from conjunct1[OF scoped_caller_is_isolated[OF this, of demo_running]] j show ?thesis by auto
qed

section \<open>Cancellation\<close>

lemma reachable_phase_Valid:
  assumes "reachable d" and "phase_of d i = Some p"
  shows "Valid p"
proof -
  from reachable_inv[OF assms(1)] assms(2) have "legal_path (history d i)" "last (history d i) = p"
    by (auto simp: store_inv_def jobs_ok_def)
  moreover from this(1) have "history d i \<noteq> []" by (simp add: legal_path_def)
  ultimately show ?thesis using legal_path_Valid by (metis last_in_set)
qed

text \<open>C26: Cancellation is exact. For a known job in the caller's scope it succeeds if and only if the job has not
  finished; then the job is \<open>CANCELLED\<close> and no other job moves; otherwise the answer is a failed
  precondition and the database is unchanged.\<close>

theorem cancel_succeeds_iff_unfinished:
  assumes "reachable d" and "loadJob i c d = Inr r"
  shows "if Terminal (jr_Phase r)
    then \<exists>e. CancelJob now i c d = (d, Inl (FailedPrecondition, e))
    else \<exists>p. snd (CancelJob now i c d) = Inr p \<and> jp_JobId p = i \<and>
      phase_of (fst (CancelJob now i c d)) = (phase_of d)(i \<mapsto> Cancelled)"
proof -
  note l = loadJob_ok[OF assms(2)]
  have ph: "phase_of d i = Some (jr_Phase r)" using l(2) by (simp add: phase_of_def)
  then have "Valid (jr_Phase r)" using reachable_phase_Valid[OF assms(1)] by blast
  then have can: "CanTransition (jr_Phase r) Cancelled \<longleftrightarrow> \<not> Terminal (jr_Phase r)"
    by (cases "jr_Phase r") (auto simp: CanTransition_to)
  show ?thesis
  proof (cases rule: TransitionJob_cases[of d i now Cancelled "Some cancelled_status"])
    case (ok p st rec)
    then have "phase_of (fst (CancelJob now i c d)) = (phase_of d)(i \<mapsto> Cancelled)"
      using assms(2) phase_of_TransitionJob[of now i Cancelled "Some cancelled_status" d] by (auto simp: CancelJob_def fun_eq_iff)
    with ok ph can assms(2) show ?thesis by (simp add: CancelJob_def jobToProto_def)
  qed (use ph can assms(2) in \<open>simp_all add: CancelJob_def\<close>)
qed

theorem cancel_succeeds_iff_unfinished_witness:
  "phase_of (fst (CancelJob 9 ''j1'' (Some demo_admin) demo_running)) ''j1'' = Some Cancelled"
proof -
  have "(case loadJob ''j1'' (Some demo_admin) demo_running of Inr r \<Rightarrow> \<not> Terminal (jr_Phase r) | Inl _ \<Rightarrow> False)" by code_simp
  then obtain r where "loadJob ''j1'' (Some demo_admin) demo_running = Inr r" "\<not> Terminal (jr_Phase r)" by (auto split: sum.splits)
  with cancel_succeeds_iff_unfinished[OF demo_reachable(3), of "''j1''" "Some demo_admin" r 9] show ?thesis by auto
qed

section \<open>Tokens\<close>

text \<open>No operation outside \<open>auth.go\<close> writes the token table.\<close>

lemma api_tokens_frame [simp]:
  "api_tokens (fst (InsertJob now rec d)) = api_tokens d"
  "api_tokens (fst (InsertJobWithQuota now rec costs d)) = api_tokens d"
  "api_tokens (fst (TransitionJob now k dst mutate d)) = api_tokens d"
  "api_tokens (fst (SetJobCondition now k c d)) = api_tokens d"
  "api_tokens (fst (BindJob now locked k taskID target placement d)) = api_tokens d"
  "api_tokens (fst (UpdateTask now t a s e r d)) = api_tokens d"
  "api_tokens (RecordUsage now k taskID tenant target usage d) = api_tokens d"
  "api_tokens (fst (EnsureProject now tenant d)) = api_tokens d"
proof -
  have ins: "api_tokens (fst (insertJobTx now rec d)) = api_tokens d"
    by (cases rule: insertJobTx_cases[of rec d now]) simp_all
  then show "api_tokens (fst (InsertJob now rec d)) = api_tokens d" by (simp add: InsertJob_def)
  show "api_tokens (fst (InsertJobWithQuota now rec costs d)) = api_tokens d"
    using ins by (simp add: InsertJobWithQuota_def split: option.splits)
  show "api_tokens (fst (TransitionJob now k dst mutate d)) = api_tokens d"
    by (cases rule: TransitionJob_cases[of d k now dst mutate]) (simp_all add: add_event_def)
  show "api_tokens (fst (SetJobCondition now k c d)) = api_tokens d"
    by (cases rule: SetJobCondition_cases[of now k c d]) (simp_all add: add_event_def)
  show "api_tokens (fst (BindJob now locked k taskID target placement d)) = api_tokens d"
    by (cases rule: BindJob_cases[of now locked k taskID target placement d]) (simp_all add: add_event_def)
  show "api_tokens (fst (UpdateTask now t a s e r d)) = api_tokens d" by (simp add: UpdateTask_def)
  show "api_tokens (RecordUsage now k taskID tenant target usage d) = api_tokens d"
    unfolding RecordUsage_def by (induction usage arbitrary: d) (simp_all add: insert_usage_def Let_def)
  show "api_tokens (fst (EnsureProject now tenant d)) = api_tokens d"
    by (simp add: EnsureProject_def Let_def split: prod.splits)
qed

definition revoked :: "string \<Rightarrow> db \<Rightarrow> bool" where
  "revoked i d \<longleftrightarrow> (\<exists>t. tbl_find tr_ID i (api_tokens d) = Some t \<and> tr_RevokedAt t \<noteq> None)"

lemma revoked_cong: "api_tokens d' = api_tokens d \<Longrightarrow> revoked i d' = revoked i d"
  by (simp add: revoked_def)

lemma revoked_update:
  assumes "revoked i d" and "api_tokens d' = tbl_update tr_ID k f (api_tokens d)"
    and "\<And>t. tr_ID (f t) = tr_ID t" and "\<And>t. tr_RevokedAt t \<noteq> None \<Longrightarrow> tr_RevokedAt (f t) \<noteq> None"
  shows "revoked i d'"
  using assms by (auto simp: revoked_def tbl_find_update split: option.splits)

lemma revoked_step:
  assumes "store_step d d'" and "revoked i d"
  shows "revoked i d'"
  using assms
proof (induction rule: store_step.induct)
  case (token_new d now trec)
  then show ?case by (auto simp: InsertToken_def revoked_def tbl_find_append)
next
  case (token_revoke d now tid)
  show ?case
    by (rule revoked_update[OF token_revoke, where k = tid and f = "\<lambda>t. t\<lparr>tr_RevokedAt := coalesce (tr_RevokedAt t) (Some now)\<rparr>"])
      (auto simp: RevokeToken_def coalesce_def split: option.splits)
next
  case (token_touch d now tid)
  show ?case
    by (rule revoked_update[OF token_touch, where k = tid and f = "\<lambda>t. t\<lparr>tr_LastUsedAt := Some now\<rparr>"])
      (auto simp: TouchToken_def)
qed (erule revoked_cong[THEN iffD2, rotated], simp add: NotifyJobs_def InsertSession_def CloseSession_def stampSessionID_def
    sweepExpiredSessions_def ArchiveProject_def SetProjectWeight_def SetQuota_def RecordAudit_def
    ReconcileUsage_def RecordShadowPlacement_def RecordGameDay_def Let_def)+

lemma revoked_run: "store_run d d' \<Longrightarrow> revoked i d \<Longrightarrow> revoked i d'"
  by (induction rule: rtranclp_induct) (auto intro: revoked_step)

text \<open>C27: The life of a token. A token that \<open>CreateToken\<close> returned authenticates, at once, as a token principal
  with the requested name, role and project, and after \<open>RevokeToken\<close> no later database, whatever
  transactions lie between, accepts it again.\<close>

theorem token_works_until_revoked:
  assumes "CreateToken now (Inr idb) rnd req c d = (d1, Inr (plain, info))" and "idb \<noteq> []"
    and "store_run (fst (RevokeToken now2 (EncodeToString idb) d1)) d2"
  shows "(\<exists>role. ParseRole (ct_Role req) = Inr role \<and> snd (authenticateToken now1 plain d1) =
      Inr \<lparr>pr_Type = PrincipalToken, pr_Subject = EncodeToString idb, pr_Name = ct_Name req, pr_Role = role, pr_Project = ct_Project req\<rparr>) \<and>
    (\<exists>msg. authenticateToken now3 plain d2 = (d2, Inl (Unauthenticated, msg)))"
proof
  show "\<exists>role. ParseRole (ct_Role req) = Inr role \<and> snd (authenticateToken now1 plain d1) =
      Inr \<lparr>pr_Type = PrincipalToken, pr_Subject = EncodeToString idb, pr_Name = ct_Name req, pr_Role = role, pr_Project = ct_Project req\<rparr>"
    by (rule authenticateToken_minted[OF assms(1,2), of now1]) simp
  show "\<exists>msg. authenticateToken now3 plain d2 = (d2, Inl (Unauthenticated, msg))"
  proof (rule CreateToken_ok[OF assms(1)])
    fix idb' sec role i
    assume a: "Inr idb = Inr idb'" "rnd = Inr sec" "MintToken (Inr idb) rnd = Inr (plain, i, HashToken plain)"
      "i \<notin> set (map tr_ID (api_tokens d))"
      "d1 = d\<lparr>api_tokens := api_tokens d @ [\<lparr>tr_ID = i, tr_Name = ct_Name req, tr_Project = ct_Project req,
        tr_Role = role_String role, tr_TokenHash = HashToken plain, tr_CreatedBy = created_by c,
        tr_CreatedAt = now, tr_LastUsedAt = None, tr_RevokedAt = None\<rparr>]\<rparr>"
    then have mint: "MintToken (Inr idb) (Inr sec) = Inr (plain, i, HashToken plain)" by simp
    then have i: "i = EncodeToString idb" by (auto simp: MintToken_def Let_def)
    have "tbl_find tr_ID i (api_tokens d) = None" using a(4) by (simp add: tbl_find_None tbl_has_def)
    then obtain t where "tbl_find tr_ID i (api_tokens d1) = Some t" using a(5) by (simp add: tbl_find_append)
    from RevokeToken_revoked[OF this, of now2] have "revoked i (fst (RevokeToken now2 i d1))" by (auto simp: revoked_def)
    from revoked_run[OF assms(3)[folded i] this] obtain t' where
      "tbl_find tr_ID i (api_tokens d2) = Some t'" "tr_RevokedAt t' \<noteq> None" by (auto simp: revoked_def)
    from authenticateToken_revoked[OF TokenID_mint(2)[OF mint assms(2)] this, of now3] show ?thesis by auto
  qed
qed

definition demo_token :: "db \<times> (api_error + string \<times> token_info)" where
  "demo_token = CreateToken 1 (Inr ''AB'') (Inr ''secret'') \<lparr>ct_Name = ''ci'', ct_Project = ''acme/lab'', ct_Role = ''member''\<rparr>
     (Some demo_admin) empty_db"

lemma demo_token_ok: "\<exists>d plain info. demo_token = (d, Inr (plain, info))"
  by (simp add: demo_token_def CreateToken_def MintToken_def InsertToken_def GetToken_def empty_db_def tbl_has_def tbl_find_def
      ParseRole_def roleNames_def role_String_def Let_def)

theorem token_works_until_revoked_witness:
  "\<exists>d plain info. demo_token = (d, Inr (plain, info)) \<and>
    (\<exists>role. ParseRole ''member'' = Inr role) \<and>
    (\<exists>msg. snd (authenticateToken 3 plain (fst (RevokeToken 2 (EncodeToString ''AB'') d))) = Inl (Unauthenticated, msg))"
proof -
  obtain d plain info where out: "demo_token = (d, Inr (plain, info))" using demo_token_ok by blast
  from token_works_until_revoked[OF out[unfolded demo_token_def] _ rtranclp.rtrancl_refl, of 1 3 2] out show ?thesis
    by (intro exI[of _ d] exI[of _ plain] exI[of _ info]) auto
qed

section \<open>Paging and watching\<close>

text \<open>C20: Paging is complete: following \<open>next_page_token\<close> from the first page, with any page size the client
  asks for, ends, and the pages concatenate to exactly the matching jobs, newest first, none twice and
  none left out.\<close>

theorem pages_cover_the_list:
  assumes "effectiveTenant c (lj_Tenant req) = Inr tenant" and "int (length (jobs d)) \<le> max_int64"
    and "lj_PageToken req = []"
  shows "list_pages (Suc (length (jobs d))) req c d = Some (map jobToProto
    (sort_key (\<lambda>r. (- jr_CreatedAt r, jr_JobID r)) (filter (\<lambda>r. (tenant = [] \<or> jr_Tenant r = tenant) \<and>
       (lj_PhaseFilter req = [] \<or> phase_str (jr_Phase r) = lj_PhaseFilter req)) (jobs d))))"
  using list_pages_from[OF assms(1,2), of 0 "Suc (length (jobs d))"] assms(3)
  by (simp add: page_offset_def ListJobs_def)

theorem pages_cover_the_list_witness:
  "\<exists>js. list_pages (Suc 1) \<lparr>lj_Tenant = [], lj_PhaseFilter = [], lj_PageSize = 1, lj_PageToken = []\<rparr> (Some demo_admin) demo_running = Some js"
proof -
  have "length (jobs demo_running) = 1" by code_simp
  then show ?thesis
    using pages_cover_the_list[of "Some demo_admin" "\<lparr>lj_Tenant = [], lj_PhaseFilter = [], lj_PageSize = 1, lj_PageToken = []\<rparr>" "[]" demo_running]
    by (simp add: effectiveTenant_def FromContext_def demo_admin_def max_int64_def del: list_pages.simps)
qed

text \<open>C19: A watch delivers every event of its job, once and in order, up to and including the first terminal
  one, however the polls fall between the transactions of others, and it ends by itself exactly when
  that event is there.\<close>

theorem watch_delivers_every_event:
  assumes "reachable d" and "store_run d d1" and "chain d1 ds" and "loadJob jobID c d = Inr rec"
  shows "fst (WatchJob jobID d1 ds c d) = map (event_view rec) (upto_terminal (events_of (last (d1 # ds)) jobID)) \<and>
    (snd (WatchJob jobID d1 ds c d) = None \<longleftrightarrow> (\<exists>e \<in> set (events_of (last (d1 # ds)) jobID). Terminal (ev_Phase e)))"
  using WatchJob_all[OF assms] by (simp add: some_terminal_def)

theorem watch_delivers_every_event_witness:
  "snd (WatchJob ''j1'' demo_running [demo_done] (Some demo_admin) demo_bound) = None"
proof -
  have b: "(case loadJob ''j1'' (Some demo_admin) demo_bound of Inr r \<Rightarrow> True | Inl _ \<Rightarrow> False)" by code_simp
  then obtain r where r: "loadJob ''j1'' (Some demo_admin) demo_bound = Inr r" by (auto split: sum.splits)
  have run: "store_run demo_bound demo_running" unfolding demo_running_def
    by (rule run_trans[OF run_transition run_transition]) simp_all
  have ch: "chain demo_running [demo_done]" unfolding demo_done_def by (simp add: run_transition)
  have "\<exists>e \<in> set (events_of demo_done ''j1''). Terminal (ev_Phase e)"
    using demo_done_history by (force simp: history_def)
  with watch_delivers_every_event[OF demo_reachable(2) run ch r] show ?thesis by simp
qed

end
