(* ===== verification/Leader.thy ===== *)
theory Leader
  imports Rabi_Prelude
begin

text \<open>
  Leader election (\<open>internal/ha/leader.go\<close>) on session-level advisory locks of PostgreSQL: the lock
  table with its re-entrant counts and the live sessions, the elector's operations, and the system
  of any number of electors whose sessions the server may drop at any moment.
\<close>

section \<open>Advisory locks\<close>

text \<open>The holder of a key is a session and the number of times it took the lock.\<close>

record lock_server =
  ls_holder :: "int \<Rightarrow> (nat \<times> nat) option"
  ls_live :: "nat \<Rightarrow> bool"
  ls_next :: nat

definition empty_server :: lock_server where
  "empty_server = \<lparr>ls_holder = (\<lambda>_. None), ls_live = (\<lambda>_. False), ls_next = 0\<rparr>"

definition pg_try_advisory_lock :: "nat \<Rightarrow> int \<Rightarrow> lock_server \<Rightarrow> lock_server \<times> bool" where
  "pg_try_advisory_lock s k srv =
     (case ls_holder srv k of
        None \<Rightarrow> (srv\<lparr>ls_holder := (ls_holder srv)(k := Some (s, 1))\<rparr>, True)
      | Some (t, n) \<Rightarrow>
          if t = s then (srv\<lparr>ls_holder := (ls_holder srv)(k := Some (s, Suc n))\<rparr>, True) else (srv, False))"

definition pg_advisory_unlock :: "nat \<Rightarrow> int \<Rightarrow> lock_server \<Rightarrow> lock_server" where
  "pg_advisory_unlock s k srv =
     (case ls_holder srv k of
        None \<Rightarrow> srv
      | Some (t, n) \<Rightarrow>
          if t \<noteq> s then srv
          else srv\<lparr>ls_holder := (ls_holder srv)(k := (if n \<le> 1 then None else Some (s, n - 1)))\<rparr>)"

text \<open>The end of a session releases everything it holds.\<close>

definition end_session :: "nat \<Rightarrow> lock_server \<Rightarrow> lock_server" where
  "end_session s srv = srv\<lparr>ls_live := (ls_live srv)(s := False),
     ls_holder := (\<lambda>k. case ls_holder srv k of Some (t, n) \<Rightarrow> if t = s then None else Some (t, n) | None \<Rightarrow> None)\<rparr>"

section \<open>Electors\<close>

definition DefaultLockKey :: int where
  "DefaultLockKey = 0x7261626921"

record Elector =
  el_key :: int
  el_interval :: duration
  el_conn :: nat
  el_is :: bool

text \<open>\<open>reachable_db\<close> says whether the connection could be opened.\<close>

definition NewElector :: "bool \<Rightarrow> int \<Rightarrow> duration \<Rightarrow> lock_server \<Rightarrow> lock_server \<times> Elector option" where
  "NewElector reachable_db key interval srv =
     (if \<not> reachable_db then (srv, None)
      else (srv\<lparr>ls_live := (ls_live srv)(ls_next srv := True), ls_next := Suc (ls_next srv)\<rparr>,
            Some \<lparr>el_key = (if key = 0 then DefaultLockKey else key),
                  el_interval = (if interval \<le> 0 then 1000000000 else interval),
                  el_conn = ls_next srv, el_is = False\<rparr>))"

definition IsLeader :: "Elector \<Rightarrow> bool" where
  "IsLeader e = el_is e"

definition el_set :: "bool \<Rightarrow> Elector \<Rightarrow> Elector" where
  "el_set v e = e\<lparr>el_is := v\<rparr>"

text \<open>How a statement on the connection ends: answered, not executed, or executed with the reply lost.
  On a dead session nothing is executed.\<close>

datatype net = Answered | NotExecuted | ReplyLost

definition tryAcquire :: "net \<Rightarrow> lock_server \<Rightarrow> Elector \<Rightarrow> lock_server \<times> Elector" where
  "tryAcquire n srv e =
     (if \<not> ls_live srv (el_conn e) \<or> n = NotExecuted then (srv, el_set False e)
      else
        (let (srv1, ok) = pg_try_advisory_lock (el_conn e) (el_key e) srv
         in (srv1, el_set (n = Answered \<and> ok) e)))"

definition ping_ok :: "net \<Rightarrow> lock_server \<Rightarrow> Elector \<Rightarrow> bool" where
  "ping_ok n srv e \<longleftrightarrow> ls_live srv (el_conn e) \<and> n = Answered"

text \<open>One tick of \<open>Campaign\<close>.\<close>

definition Campaign_tick :: "net \<Rightarrow> lock_server \<Rightarrow> Elector \<Rightarrow> lock_server \<times> Elector" where
  "Campaign_tick n srv e =
     (if IsLeader e then (srv, if ping_ok n srv e then e else el_set False e) else tryAcquire n srv e)"

definition release :: "net \<Rightarrow> lock_server \<Rightarrow> Elector \<Rightarrow> lock_server \<times> Elector" where
  "release n srv e =
     (let srv1 = (if IsLeader e \<and> ls_live srv (el_conn e) \<and> n \<noteq> NotExecuted
                  then pg_advisory_unlock (el_conn e) (el_key e) srv else srv)
      in (end_session (el_conn e) srv1, el_set False e))"

section \<open>The system of electors\<close>

type_synonym cluster = "lock_server \<times> Elector list"

inductive ha_step :: "cluster \<Rightarrow> cluster \<Rightarrow> bool" where
  join: "NewElector ok key interval srv = (srv', Some e) \<Longrightarrow> ha_step (srv, es) (srv', es @ [e])"
| tick: "i < length es \<Longrightarrow> Campaign_tick n srv (es ! i) = (srv', e) \<Longrightarrow> ha_step (srv, es) (srv', es[i := e])"
| leave: "i < length es \<Longrightarrow> release n srv (es ! i) = (srv', e) \<Longrightarrow> ha_step (srv, es) (srv', es[i := e])"
| drop: "ha_step (srv, es) (end_session s srv, es)"

definition holds_lock :: "lock_server \<Rightarrow> Elector \<Rightarrow> bool" where
  "holds_lock srv e \<longleftrightarrow> (\<exists>n. ls_holder srv (el_key e) = Some (el_conn e, n))"

definition ha_inv :: "cluster \<Rightarrow> bool" where
  "ha_inv c \<longleftrightarrow> distinct (map el_conn (snd c)) \<and> (\<forall>e \<in> set (snd c). el_conn e < ls_next (fst c)) \<and>
     (\<forall>k s n. ls_holder (fst c) k = Some (s, n) \<longrightarrow> s < ls_next (fst c)) \<and>
     (\<forall>e \<in> set (snd c). el_is e \<and> ls_live (fst c) (el_conn e) \<longrightarrow> holds_lock (fst c) e)"

section \<open>The invariant is kept\<close>

lemma try_lock_effect:
  assumes "pg_try_advisory_lock s k srv = (srv', ok)"
  shows "ls_live srv' = ls_live srv" "ls_next srv' = ls_next srv"
    "ls_holder srv k' = Some (t, n) \<Longrightarrow> t \<noteq> s \<Longrightarrow> ls_holder srv' k' = Some (t, n)"
    "ls_holder srv' k' = Some (t, n) \<Longrightarrow> t = s \<or> ls_holder srv k' = Some (t, n)"
    "(\<exists>n. ls_holder srv k' = Some (s, n)) \<Longrightarrow> \<exists>n. ls_holder srv' k' = Some (s, n)"
    "ok \<Longrightarrow> \<exists>n. ls_holder srv' k = Some (s, n)"
  using assms by (auto simp: pg_try_advisory_lock_def split: option.splits if_splits)

text \<open>Replacing elector \<open>i\<close> by one with the same connection and key, whose flag is backed by the lock,
  on a server that keeps what the others hold.\<close>

lemma ha_inv_replace:
  assumes inv: "ha_inv (srv, es)" and i: "i < length es"
    and e: "el_conn e = el_conn (es ! i)" "el_is e \<and> ls_live srv' (el_conn e) \<Longrightarrow> holds_lock srv' e"
    and nxt: "ls_next srv' = ls_next srv" and live: "\<And>s. ls_live srv' s \<Longrightarrow> ls_live srv s"
    and others: "\<And>k t n. ls_holder srv k = Some (t, n) \<Longrightarrow> t \<noteq> el_conn e \<Longrightarrow> ls_holder srv' k = Some (t, n)"
    and new: "\<And>k t n. ls_holder srv' k = Some (t, n) \<Longrightarrow> t = el_conn e \<or> (\<exists>n. ls_holder srv k = Some (t, n))"
  shows "ha_inv (srv', es[i := e])"
proof -
  have conns: "map el_conn (es[i := e]) = map el_conn es"
    using i e(1) by (metis list_update_id map_update nth_map)
  then have "distinct (map el_conn (es[i := e]))" using inv by (simp add: ha_inv_def)
  moreover have "el_conn f < ls_next srv'" if "f \<in> set (es[i := e])" for f
    using that inv nxt i e(1) set_update_subset_insert[of es i e] by (fastforce simp: ha_inv_def)
  moreover have "s < ls_next srv'" if "ls_holder srv' k = Some (s, n)" for k s n
    using new[OF that] inv nxt i e(1) by (auto simp: ha_inv_def)
  moreover have "holds_lock srv' f" if f: "f \<in> set (es[i := e])" "el_is f" "ls_live srv' (el_conn f)" for f
  proof -
    obtain j where j: "j < length es" "f = es[i := e] ! j" using f(1) by (metis in_set_conv_nth length_list_update)
    show ?thesis
    proof (cases "j = i")
      case True
      with j i f e(2) show ?thesis by simp
    next
      case False
      with j have fj: "f = es ! j" by simp
      have "el_conn f \<noteq> el_conn e"
        using False inv j(1) i fj e(1) by (auto simp: ha_inv_def distinct_conv_nth)
      moreover have "holds_lock srv f" using inv fj j(1) f live by (auto simp: ha_inv_def)
      ultimately show ?thesis using others by (auto simp: holds_lock_def)
    qed
  qed
  ultimately show ?thesis by (auto simp: ha_inv_def)
qed

lemma tick_effect:
  assumes "Campaign_tick n srv e = (srv', e')"
  shows "el_conn e' = el_conn e" "el_key e' = el_key e"
    "(srv' = srv \<and> (el_is e' \<longrightarrow> el_is e)) \<or>
     (\<exists>ok. pg_try_advisory_lock (el_conn e) (el_key e) srv = (srv', ok) \<and> (el_is e' \<longrightarrow> ok))"
    "\<not> ls_live srv (el_conn e) \<Longrightarrow> srv' = srv \<and> \<not> el_is e'"
  using assms
  by (auto simp: Campaign_tick_def tryAcquire_def el_set_def ping_ok_def Let_def split: if_splits prod.splits)

lemma ha_inv_tick:
  assumes "ha_inv (srv, es)" and "i < length es" and t: "Campaign_tick n srv (es ! i) = (srv', e)"
  shows "ha_inv (srv', es[i := e])"
proof -
  note eff = tick_effect[OF t]
  from eff(3) show ?thesis
  proof (elim disjE exE conjE)
    assume s: "srv' = srv" and imp: "el_is e \<longrightarrow> el_is (es ! i)"
    then have "el_is e \<and> ls_live srv' (el_conn e) \<Longrightarrow> holds_lock srv' e"
      using assms(1,2) eff by (auto simp: ha_inv_def holds_lock_def)
    then show ?thesis using ha_inv_replace[OF assms(1,2) eff(1), of srv'] s by auto
  next
    fix ok
    assume l: "pg_try_advisory_lock (el_conn (es ! i)) (el_key (es ! i)) srv = (srv', ok)" "el_is e \<longrightarrow> ok"
    note le = try_lock_effect[OF l(1)]
    show ?thesis
    proof (rule ha_inv_replace[OF assms(1,2) eff(1)])
      show "holds_lock srv' e" if "el_is e \<and> ls_live srv' (el_conn e)"
        using that le(6) l(2) eff(1,2) by (simp add: holds_lock_def)
      show "t = el_conn e \<or> (\<exists>n. ls_holder srv k = Some (t, n))" if "ls_holder srv' k = Some (t, n)" for k t n
        using le(4)[OF that] eff(1) by auto
    qed (use le(1-3) eff(1) in simp_all)
  qed
qed

lemma end_session_effect:
  "ls_next (end_session s srv) = ls_next srv" "ls_live (end_session s srv) t \<longleftrightarrow> ls_live srv t \<and> t \<noteq> s"
  "ls_holder (end_session s srv) k = Some (t, n) \<longleftrightarrow> ls_holder srv k = Some (t, n) \<and> t \<noteq> s"
  by (auto simp: end_session_def split: option.splits if_splits)

lemma unlock_effect:
  "ls_next (pg_advisory_unlock s k srv) = ls_next srv" "ls_live (pg_advisory_unlock s k srv) = ls_live srv"
  "t \<noteq> s \<Longrightarrow> ls_holder (pg_advisory_unlock s k srv) k' = Some (t, n) \<longleftrightarrow> ls_holder srv k' = Some (t, n)"
  by (auto simp: pg_advisory_unlock_def split: option.splits)

lemma ha_inv_step:
  assumes "ha_inv c" and "ha_step c c'"
  shows "ha_inv c'"
  using assms(2,1)
proof (induction rule: ha_step.induct)
  case (join ok key interval srv srv' e es)
  then show ?case
    by (fastforce simp: NewElector_def ha_inv_def holds_lock_def split: if_splits)
next
  case (tick i es n srv srv' e)
  then show ?case by (auto intro: ha_inv_tick)
next
  case (leave i es n srv srv' e)
  have eq: "e = el_set False (es ! i)"
    and srv: "srv' = end_session (el_conn (es ! i)) srv \<or>
      srv' = end_session (el_conn (es ! i)) (pg_advisory_unlock (el_conn (es ! i)) (el_key (es ! i)) srv)"
    using leave(2) by (auto simp: release_def Let_def split: if_splits)
  show ?case
    by (rule ha_inv_replace[OF leave(3,1)])
      (use srv in \<open>auto simp: eq el_set_def end_session_effect unlock_effect\<close>)
next
  case (drop srv es s)
  then show ?case by (auto simp: ha_inv_def holds_lock_def end_session_effect)
qed

interpretation ha: inv_system ha_step ha_inv
  by unfold_locales (rule ha_inv_step)

lemma ha_start: "ha_inv (empty_server, [])"
  by (simp add: ha_inv_def empty_server_def)

section \<open>Facts\<close>

lemma leader_unique:
  assumes "ha_inv (srv, es)" and "i < length es" "j < length es"
    and "el_is (es ! i)" "ls_live srv (el_conn (es ! i))" and "el_is (es ! j)" "ls_live srv (el_conn (es ! j))"
    and "el_key (es ! i) = el_key (es ! j)"
  shows "i = j"
proof -
  have "holds_lock srv (es ! i)" "holds_lock srv (es ! j)" using assms by (auto simp: ha_inv_def)
  then have "el_conn (es ! i) = el_conn (es ! j)" using assms(8) by (auto simp: holds_lock_def)
  then show ?thesis using assms(1-3) by (auto simp: ha_inv_def distinct_conv_nth)
qed

text \<open>A session that ended stays ended, and an elector on it never leads again.\<close>

definition retired :: "nat \<Rightarrow> cluster \<Rightarrow> bool" where
  "retired s c \<longleftrightarrow> s < ls_next (fst c) \<and> \<not> ls_live (fst c) s \<and> (\<forall>e \<in> set (snd c). el_conn e = s \<longrightarrow> \<not> el_is e)"

lemma retired_step:
  assumes "retired s c" and "ha_step c c'"
  shows "retired s c'"
  using assms(2,1)
proof (induction rule: ha_step.induct)
  case (tick i es n srv srv' e)
  note eff = tick_effect[OF tick(2)]
  have live: "ls_live srv' = ls_live srv" "ls_next srv' = ls_next srv"
    using eff(3) try_lock_effect(1,2) by (metis, metis)
  moreover have "el_conn e = s \<longrightarrow> \<not> el_is e" using eff(1,4) tick(3) by (auto simp: retired_def)
  ultimately show ?case using tick(3) set_update_subset_insert[of es i e] by (auto simp: retired_def)
next
  case (leave i es n srv srv' e)
  then have "\<not> el_is e" by (auto simp: release_def Let_def el_set_def)
  moreover have "ls_next srv' = ls_next srv" "ls_live srv' t \<Longrightarrow> ls_live srv t" for t
    using leave(2) by (auto simp: release_def Let_def end_session_effect unlock_effect split: if_splits)
  ultimately show ?case using leave(3) set_update_subset_insert[of es i e] by (auto simp: retired_def)
qed (auto simp: retired_def NewElector_def end_session_effect split: if_splits)

interpretation retirement: inv_system ha_step "retired s" for s
  by unfold_locales (rule retired_step)

end
