(* ===== verification/Probe.thy ===== *)
theory Probe
  imports Executor Registry Store_Properties
begin

text \<open>
  Health probes (\<open>internal/probe/probe.go\<close>): one pinned Bell job per online gate-model target, the
  harvest of finished probes into the \<open>probe_results\<close> table, and the latest health per target. The
  table is a state of its own beside the database.
\<close>

section \<open>Definitions\<close>

definition probe_Tenant :: string where
  "probe_Tenant = ''system/probes''"

definition bellQASM :: string where
  "bellQASM = (let nl = [CHR 0x0A] in nl @ ''OPENQASM 3.0;'' @ nl @
     ''include '' @ [CHR 0x22] @ ''stdgates.inc'' @ [CHR 0x22] @ '';'' @ nl @
     ''qubit[2] q;'' @ nl @ ''bit[2] c;'' @ nl @ ''h q[0];'' @ nl @ ''cx q[0], q[1];'' @ nl @ ''c = measure q;'' @ nl)"

definition probeShots :: float64 where
  "probeShots = 400"

definition probe_doc :: "string \<Rightarrow> obj" where
  "probe_doc target =
    [(''apiVersion'', JStr ''tangle.dev/v1alpha1''), (''kind'', JStr ''QuantumJob''),
     (''metadata'', JObj [(''name'', JStr ''probe''), (''tenant'', JStr probe_Tenant),
        (''labels'', JObj [(''rabi.dev/probe'', JStr ''true'')])]),
     (''spec'', JObj
       [(''workload'', JObj [(''kind'', JStr ''gate-model''),
           (''gateModel'', JObj [(''program'', JObj [(''format'', JStr ''openqasm3''), (''inline'', JStr (b64_Encode bellQASM))]),
              (''shots'', JNum probeShots)])]),
        (''backendSelector'', JObj [(''requireTargets'', JArr [JStr target]), (''allowCloudBurst'', JArr [JStr target])])])]"

definition probe_job :: "string \<Rightarrow> string \<Rightarrow> job_record" where
  "probe_job uuid target = \<lparr>jr_JobID = uuid, jr_Tenant = probe_Tenant, jr_Name = ''probe-'' @ target, jr_Phase = Pending,
     jr_Doc = probe_doc target, jr_Status = [(''phase'', JStr ''PENDING''), (''conditions'', JArr [])],
     jr_CreatedAt = zero_time, jr_UpdatedAt = zero_time\<rparr>"

definition submitProbe :: "time \<Rightarrow> string \<Rightarrow> string \<Rightarrow> db \<Rightarrow> unit tx" where
  "submitProbe now uuid target d = InsertJob now (probe_job uuid target) d"

text \<open>A failed submission is logged and the loop goes on; \<open>uuids\<close> names the jobs.\<close>

definition probeAll :: "time \<Rightarrow> (string \<Rightarrow> string) \<Rightarrow> registry \<Rightarrow> db \<Rightarrow> db" where
  "probeAll now uuids reg d =
     (case EnsureProject now probe_Tenant d of
        (d1, Inl _) \<Rightarrow> d1
      | (d1, Inr _) \<Rightarrow> fold (\<lambda>t d. fst (submitProbe now (uuids t) t d)) (OnlineGateModelTargets reg) d1)"

record probe_row =
  pb_At :: time
  pb_Target :: string
  pb_JobID :: string
  pb_Fidelity :: float64
  pb_Predicted :: "float64 option"
  pb_AbsError :: "float64 option"

definition as_obj :: "json \<Rightarrow> obj" where
  "as_obj j = (case j of JObj o' \<Rightarrow> o' | _ \<Rightarrow> [])"

definition as_num :: "json \<Rightarrow> float64" where
  "as_num j = (case j of JNum x \<Rightarrow> x | _ \<Rightarrow> 0)"

definition ideal :: "(string \<times> float64) list" where
  "ideal = [(''00'', 1 / 2), (''11'', 1 / 2)]"

definition ideal_of :: "string \<Rightarrow> float64" where
  "ideal_of k = (case map_of ideal k of Some p \<Rightarrow> p | None \<Rightarrow> 0)"

definition tvd :: "obj \<Rightarrow> float64" where
  "tvd counts = (let total = sum_list (map (as_num \<circ> snd) counts)
     in sum_list (map (\<lambda>(k, v). \<bar>as_num v / total - ideal_of k\<bar> / 2) counts) +
        sum_list (map (\<lambda>(k, p). if k \<in> fst ` set counts then 0 else p / 2) ideal))"

definition analyze :: "obj \<Rightarrow> string \<times> float64 \<times> float64" where
  "analyze st =
     (let target = str_or st ''boundTarget'';
          predicted = (case get_num (obj_or (obj_or st ''placement'') ''predicted'') ''successProbability'' of
                         Some x \<Rightarrow> x | None \<Rightarrow> 0);
          ts = arr_or st ''tasks''
      in if ts = [] then ([], 0, 0)
         else
           (let counts = obj_or (obj_or (obj_or (as_obj (hd ts)) ''result'') ''data'') ''counts''
            in if counts = [] \<or> sum_list (map (as_num \<circ> snd) counts) = 0 then ([], 0, 0)
               else (target, 1 - tvd counts, predicted)))"

definition harvest_row :: "time \<Rightarrow> job_record \<Rightarrow> probe_row list" where
  "harvest_row now j =
     (let (target, fidelity, predicted) = analyze (jr_Status j)
      in if target = [] then []
         else [\<lparr>pb_At = now, pb_Target = target, pb_JobID = jr_JobID j, pb_Fidelity = fidelity,
                pb_Predicted = (if predicted > 0 then Some predicted else None),
                pb_AbsError = (if predicted > 0 then Some \<bar>predicted - fidelity\<bar> else None)\<rparr>])"

text \<open>The finished probes without a row; the query has no ORDER BY, table order stands for any.\<close>

definition unharvested :: "db \<Rightarrow> probe_row list \<Rightarrow> job_record list" where
  "unharvested d rows = take 100 (filter (\<lambda>j. jr_Tenant j = probe_Tenant \<and> jr_Phase j = Succeeded \<and>
     jr_JobID j \<notin> pb_JobID ` set rows) (jobs d))"

definition Harvest :: "time \<Rightarrow> db \<Rightarrow> probe_row list \<Rightarrow> probe_row list" where
  "Harvest now d rows = rows @ concat (map (harvest_row now) (unharvested d rows))"

record Health =
  he_Target :: string
  he_Fidelity :: float64
  he_AbsError :: "float64 option"
  he_Predicted :: "float64 option"
  he_At :: time

definition latest_of :: "probe_row list \<Rightarrow> string \<Rightarrow> probe_row" where
  "latest_of rows t = hd (sort_key (\<lambda>r. - pb_At r) (filter (\<lambda>r. pb_Target r = t) rows))"

definition LatestHealth :: "probe_row list \<Rightarrow> Health list" where
  "LatestHealth rows = map (\<lambda>t. let r = latest_of rows t in \<lparr>he_Target = t, he_Fidelity = pb_Fidelity r,
     he_AbsError = pb_AbsError r, he_Predicted = pb_Predicted r, he_At = pb_At r\<rparr>) (sort (remdups (map pb_Target rows)))"

section \<open>Facts\<close>

lemma run_probeAll: "store_run d (probeAll now uuids reg d)"
proof -
  have "store_run d' (fold (\<lambda>t d. fst (submitProbe now (uuids t) t d)) ts d')" for ts d'
  proof (induction ts arbitrary: d')
    case (Cons t ts)
    have "store_run d' (fst (submitProbe now (uuids t) t d'))"
      unfolding submitProbe_def by (rule run1[OF insert_job]) (simp add: probe_job_def)
    from run_trans[OF this Cons] show ?case by simp
  qed simp
  moreover have "store_run d (fst (EnsureProject now probe_Tenant d))" by (rule run1[OF project])
  ultimately show ?thesis
    by (auto simp: probeAll_def split: prod.splits sum.splits intro: run_trans)
qed

lemma ideal_sum:
  assumes "distinct (map fst counts)"
  shows "sum_list (map (ideal_of \<circ> fst) counts) =
    (if ''00'' \<in> fst ` set counts then 1 / 2 else 0) + (if ''11'' \<in> fst ` set counts then 1 / 2 else 0)"
  using assms
proof (induction counts)
  case (Cons c counts)
  have "ideal_of (fst c) = (if fst c = ''00'' then 1 / 2 else if fst c = ''11'' then 1 / 2 else 0)"
    by (simp add: ideal_of_def ideal_def)
  moreover have "fst ` set (c # counts) = insert (fst c) (fst ` set counts)" by simp
  moreover have "fst c \<notin> fst ` set counts" using Cons.prems by simp
  ultimately show ?case using Cons by (cases "fst c = ''00''"; cases "fst c = ''11''") auto
qed simp

lemma ideal_split:
  assumes "distinct (map fst counts)"
  shows "sum_list (map (ideal_of \<circ> fst) counts) +
    sum_list (map (\<lambda>(k, p). if k \<in> fst ` set counts then 0 else p) ideal) = 1"
  unfolding ideal_sum[OF assms] by (simp add: ideal_def)

text \<open>The total variation distance of a histogram lies between 0 and 1.\<close>

lemma tvd_range:
  assumes "distinct (map fst counts)" and pos: "\<And>k v. (k, v) \<in> set counts \<Longrightarrow> 0 \<le> as_num v"
    and total: "0 < sum_list (map (as_num \<circ> snd) counts)"
  shows "0 \<le> tvd counts" "tvd counts \<le> 1"
proof -
  let ?t = "sum_list (map (as_num \<circ> snd) counts)"
  let ?miss = "sum_list (map (\<lambda>(k, p). if k \<in> fst ` set counts then 0 else p / 2) ideal)"
  have miss: "0 \<le> ?miss" by (auto simp: ideal_def)
  have half: "?miss = sum_list (map (\<lambda>(k, p). if k \<in> fst ` set counts then 0 else p) ideal) / 2"
    by (simp add: ideal_def)
  have "0 \<le> sum_list (map (\<lambda>(k, v). \<bar>as_num v / ?t - ideal_of k\<bar> / 2) counts)"
    by (rule sum_list_nonneg) auto
  then show "0 \<le> tvd counts" using miss by (simp add: tvd_def Let_def)
  have "sum_list (map (\<lambda>(k, v). \<bar>as_num v / t - ideal_of k\<bar> / 2) cs) \<le>
      (sum_list (map (as_num \<circ> snd) cs) / t + sum_list (map (ideal_of \<circ> fst) cs)) / 2"
    if "0 < t" "\<And>k v. (k, v) \<in> set cs \<Longrightarrow> 0 \<le> as_num v" for cs t
    using that
  proof (induction cs)
    case (Cons c cs)
    obtain k v where c: "c = (k, v)" by force
    have "0 \<le> ideal_of k" by (simp add: ideal_of_def ideal_def)
    moreover have "0 \<le> as_num v" using Cons.prems(2) c by auto
    then have "0 \<le> as_num v / t" using Cons.prems(1) by simp
    ultimately have "\<bar>as_num v / t - ideal_of k\<bar> \<le> as_num v / t + ideal_of k" by linarith
    moreover have "sum_list (map (\<lambda>(k, v). \<bar>as_num v / t - ideal_of k\<bar> / 2) cs) \<le>
        (sum_list (map (as_num \<circ> snd) cs) / t + sum_list (map (ideal_of \<circ> fst) cs)) / 2"
      using Cons.prems by (intro Cons.IH) auto
    moreover have "x / 2 + y \<le> (p + S + (q + I)) / 2" if "x \<le> p + q" "y \<le> (S + I) / 2" for x y p q S I :: real
      using that by (simp add: field_simps)
    ultimately show ?case unfolding c by (simp add: add_divide_distrib[of _ _ t] o_def)
  qed simp
  from this[of ?t counts] total pos
  have "sum_list (map (\<lambda>(k, v). \<bar>as_num v / ?t - ideal_of k\<bar> / 2) counts) \<le>
      (1 + sum_list (map (ideal_of \<circ> fst) counts)) / 2" by simp
  then show "tvd counts \<le> 1" using ideal_split[OF assms(1)] half by (simp add: tvd_def Let_def)
qed

lemma Harvest_fresh:
  assumes "distinct (job_ids d)" and "distinct (map pb_JobID rows)"
  shows "distinct (map pb_JobID (Harvest now d rows))"
proof -
  let ?js = "unharvested d rows"
  have ids: "distinct (map jr_JobID ?js)"
    using assms(1) by (simp add: unharvested_def job_ids_def take_map[symmetric] distinct_map_filter)
  have sub: "set (map pb_JobID (concat (map (harvest_row now) js))) \<subseteq> set (map jr_JobID js)" for js
    by (auto simp: harvest_row_def split: if_splits prod.splits)
  have one: "distinct (map pb_JobID (concat (map (harvest_row now) js)))" if "distinct (map jr_JobID js)" for js
    using that
  proof (induction js)
    case (Cons j js)
    then show ?case using sub[of js] by (auto simp: harvest_row_def split: prod.splits)
  qed simp
  have "set (map jr_JobID ?js) \<inter> set (map pb_JobID rows) = {}"
    by (auto simp: unharvested_def dest!: in_set_takeD)
  then have "set (map pb_JobID rows) \<inter> set (map pb_JobID (concat (map (harvest_row now) ?js))) = {}"
    using sub[of ?js] by blast
  then show ?thesis using assms(2) one[OF ids] unfolding Harvest_def map_append distinct_append by blast
qed

text \<open>Probes without counts stay in the query's hundred and can keep the others out.\<close>

lemma Harvest_stuck:
  assumes "\<And>j. j \<in> set (unharvested d rows) \<Longrightarrow> fst (analyze (jr_Status j)) = []"
  shows "Harvest now d rows = rows"
proof -
  have "\<forall>j \<in> set (unharvested d rows). harvest_row now j = []"
    using assms by (auto simp: harvest_row_def case_prod_unfold Let_def)
  then show ?thesis by (simp add: Harvest_def)
qed

end
