(* ===== verification/Shadow_Report.thy ===== *)
theory Shadow_Report
  imports Store_Records Go_Fmt
begin

text \<open>
  The promotion report over shadow placements (\<open>internal/shadow/report.go\<close>). The resampling indices
  of \<open>math/rand\<close> are an argument: \<open>rng seed b i n\<close> is the draw for position \<open>i\<close> of resample \<open>b\<close>,
  documented to lie in \<open>[0, n)\<close>.
\<close>

section \<open>Definitions\<close>

definition DefaultQualityFloor :: float64 where
  "DefaultQualityFloor = 5 / 10"

definition MinSamples :: nat where
  "MinSamples = 100"

record Interval =
  iv_Mean :: float64
  iv_CILo :: float64
  iv_CIHi :: float64
  iv_N :: nat

record Report =
  rp_Policy :: string
  rp_ActivePolicy :: string
  rp_Samples :: nat
  rp_AgreementRate :: float64
  rp_QualityFloor :: float64
  rp_ESPDelta :: Interval
  rp_SLODelta :: Interval
  rp_WaitDelta :: Interval
  rp_ActiveESPMean :: float64
  rp_ShadowESPMean :: float64

definition boolf :: "bool \<Rightarrow> float64" where
  "boolf b = (if b then 1 else 0)"

definition mean :: "float64 list \<Rightarrow> float64" where
  "mean xs = (if xs = [] then 0 else sum_list xs / of_nat (length xs))"

type_synonym rng = "int \<Rightarrow> nat \<Rightarrow> nat \<Rightarrow> nat \<Rightarrow> nat"

definition resample_mean :: "rng \<Rightarrow> int \<Rightarrow> float64 list \<Rightarrow> nat \<Rightarrow> float64" where
  "resample_mean rng seed xs b = (let n = length xs
     in sum_list (map (\<lambda>i. xs ! rng seed b i n) [0..<n]) / of_nat n)"

definition zero_interval :: Interval where
  "zero_interval = \<lparr>iv_Mean = 0, iv_CILo = 0, iv_CIHi = 0, iv_N = 0\<rparr>"

definition bootstrap :: "rng \<Rightarrow> float64 list \<Rightarrow> int \<Rightarrow> Interval" where
  "bootstrap rng xs seed =
     (if xs = [] then zero_interval
      else
        (let means = sort (map (resample_mean rng seed xs) [0..<2000])
         in \<lparr>iv_Mean = mean xs, iv_CILo = means ! 50, iv_CIHi = means ! 1950, iv_N = length xs\<rparr>))"

text \<open>The paired observations of the placements.\<close>

definition esp_pairs :: "shadow_placement list \<Rightarrow> (float64 \<times> float64) list" where
  "esp_pairs ps = concat (map (\<lambda>p. case (sp_ActiveESP p, sp_ShadowESP p) of
      (Some a, Some s) \<Rightarrow> [(a, s)] | _ \<Rightarrow> []) ps)"

definition wait_pairs :: "shadow_placement list \<Rightarrow> (float64 \<times> float64) list" where
  "wait_pairs ps = concat (map (\<lambda>p. case (sp_ActiveWait p, sp_ShadowWait p) of
      (Some a, Some s) \<Rightarrow> [(a, s)] | _ \<Rightarrow> []) ps)"

definition Analyze :: "rng \<Rightarrow> shadow_placement list \<Rightarrow> float64 \<Rightarrow> Report" where
  "Analyze rng placements qf0 =
     (let qf = (if qf0 \<le> 0 then DefaultQualityFloor else qf0)
      in if placements = []
         then \<lparr>rp_Policy = [], rp_ActivePolicy = [], rp_Samples = 0, rp_AgreementRate = 0, rp_QualityFloor = qf,
               rp_ESPDelta = zero_interval, rp_SLODelta = zero_interval, rp_WaitDelta = zero_interval,
               rp_ActiveESPMean = 0, rp_ShadowESPMean = 0\<rparr>
         else
           (let agreed = length (filter sp_Agreed placements);
                es = esp_pairs placements; ws = wait_pairs placements
            in \<lparr>rp_Policy = sp_Policy (hd placements), rp_ActivePolicy = sp_ActivePolicy (hd placements),
                rp_Samples = length placements, rp_AgreementRate = of_nat agreed / of_nat (length placements),
                rp_QualityFloor = qf,
                rp_ESPDelta = bootstrap rng (map (\<lambda>(a, s). s - a) es) 1,
                rp_SLODelta = bootstrap rng (map (\<lambda>(a, s). boolf (s < qf) - boolf (a < qf)) es) 2,
                rp_WaitDelta = bootstrap rng (map (\<lambda>(a, s). s - a) ws) 3,
                rp_ActiveESPMean = mean (map fst es), rp_ShadowESPMean = mean (map snd es)\<rparr>))"

definition ci_text :: "Interval \<Rightarrow> string" where
  "ci_text iv = fmt_fixed 4 (iv_Mean iv) @ '' (95% CI '' @ fmt_fixed 4 (iv_CILo iv) @ ''..'' @ fmt_fixed 4 (iv_CIHi iv)"

definition Promotable :: "Report \<Rightarrow> bool \<times> string list" where
  "Promotable r =
     (let esp = rp_ESPDelta r; slo = rp_SLODelta r;
          enough = \<not> iv_N esp < MinSamples; gain = iv_CILo esp > 0; regress = iv_CILo slo > 0
      in (enough \<and> gain \<and> \<not> regress,
          (if enough then []
           else [''insufficient evidence: '' @ itoa (iv_N esp) @ '' paired samples < '' @ itoa MinSamples]) @
          [if gain then ''fidelity proxy improved: ESP delta '' @ ci_text esp @ '' > 0)''
           else ''no confident fidelity gain: ESP delta '' @ ci_text esp @ '' includes/below 0)''] @
          [if regress then ''SLO regression: violation-rate delta '' @ ci_text slo @ '' > 0)''
           else ''no SLO regression: violation-rate delta '' @ ci_text slo @ '')'']))"

section \<open>Facts\<close>

definition rng_ok :: "rng \<Rightarrow> bool" where
  "rng_ok rng \<longleftrightarrow> (\<forall>seed b i n. 0 < n \<longrightarrow> rng seed b i n < n)"

lemma sum_list_bounds:
  fixes ys :: "real list"
  assumes "\<And>y. y \<in> set ys \<Longrightarrow> lo \<le> y \<and> y \<le> hi"
  shows "of_nat (length ys) * lo \<le> sum_list ys \<and> sum_list ys \<le> of_nat (length ys) * hi"
  using assms
proof (induction ys)
  case (Cons y ys)
  then have "lo \<le> y" "y \<le> hi" "of_nat (length ys) * lo \<le> sum_list ys" "sum_list ys \<le> of_nat (length ys) * hi" by auto
  then show ?case by (simp add: algebra_simps)
qed simp

lemma resample_mean_bounds:
  assumes "rng_ok rng" and "xs \<noteq> []" and "\<And>x. x \<in> set xs \<Longrightarrow> lo \<le> x \<and> x \<le> hi"
  shows "lo \<le> resample_mean rng seed xs b \<and> resample_mean rng seed xs b \<le> hi"
proof -
  let ?n = "length xs" and ?ys = "map (\<lambda>i. xs ! rng seed b i (length xs)) [0..<length xs]"
  have n: "0 < ?n" using assms(2) by simp
  then have "\<And>y. y \<in> set ?ys \<Longrightarrow> lo \<le> y \<and> y \<le> hi" using assms(1,3) by (auto simp: rng_ok_def)
  from sum_list_bounds[of ?ys lo hi, OF this] n show ?thesis
    by (simp add: resample_mean_def Let_def field_simps)
qed

lemma bootstrap_bounds:
  assumes "rng_ok rng" and "xs \<noteq> []" and "\<And>x. x \<in> set xs \<Longrightarrow> lo \<le> x \<and> x \<le> hi"
  shows "lo \<le> iv_CILo (bootstrap rng xs seed)" "iv_CIHi (bootstrap rng xs seed) \<le> hi"
    "iv_CILo (bootstrap rng xs seed) \<le> iv_CIHi (bootstrap rng xs seed)" "iv_N (bootstrap rng xs seed) = length xs"
    "lo \<le> iv_Mean (bootstrap rng xs seed) \<and> iv_Mean (bootstrap rng xs seed) \<le> hi"
proof -
  let ?ms = "sort (map (resample_mean rng seed xs) [0..<2000])"
  have b: "lo \<le> y \<and> y \<le> hi" if "y \<in> set ?ms" for y
    using that resample_mean_bounds[OF assms] by auto
  have eq: "bootstrap rng xs seed = \<lparr>iv_Mean = mean xs, iv_CILo = ?ms ! 50, iv_CIHi = ?ms ! 1950, iv_N = length xs\<rparr>"
    using assms(2) by (simp add: bootstrap_def Let_def)
  have len: "length ?ms = 2000" by simp
  show "lo \<le> iv_CILo (bootstrap rng xs seed)" "iv_CIHi (bootstrap rng xs seed) \<le> hi"
    using b[of "?ms ! 50"] b[of "?ms ! 1950"] nth_mem[of 50 ?ms] nth_mem[of 1950 ?ms] unfolding eq len by simp_all
  show "iv_CILo (bootstrap rng xs seed) \<le> iv_CIHi (bootstrap rng xs seed)"
    using sorted_nth_mono[of ?ms 50 1950] unfolding eq len by (simp add: sorted_sort)
  show "iv_N (bootstrap rng xs seed) = length xs" by (simp add: eq)
  show "lo \<le> iv_Mean (bootstrap rng xs seed) \<and> iv_Mean (bootstrap rng xs seed) \<le> hi"
    using sum_list_bounds[of xs lo hi, OF assms(3)] assms(2) by (simp add: eq mean_def field_simps)
qed

text \<open>A candidate that is never better on the paired fidelity proxy is not promotable, whatever is drawn.\<close>

lemma worse_not_promotable:
  assumes "rng_ok rng" and "\<forall>p \<in> set placements. \<forall>a s. sp_ActiveESP p = Some a \<and> sp_ShadowESP p = Some s \<longrightarrow> s \<le> a"
  shows "\<not> fst (Promotable (Analyze rng placements qf))"
proof (cases "esp_pairs placements = []")
  case True
  then show ?thesis by (auto simp: Promotable_def Analyze_def Let_def bootstrap_def zero_interval_def)
next
  case False
  let ?ds = "map (\<lambda>(a, s). s - a) (esp_pairs placements)"
  have le: "x \<le> 0" if "x \<in> set ?ds" for x
    using that assms(2) by (auto simp: esp_pairs_def split: option.splits)
  have lo: "Min (set ?ds) \<le> x" if "x \<in> set ?ds" for x using that by (intro Min_le) auto
  have ne: "?ds \<noteq> []" "placements \<noteq> []" using False by (auto simp: esp_pairs_def)
  have bnd: "\<And>x. x \<in> set ?ds \<Longrightarrow> Min (set ?ds) \<le> x \<and> x \<le> 0" using le lo by blast
  note bb = bootstrap_bounds[OF assms(1) ne(1) bnd]
  have "iv_CILo (bootstrap rng ?ds 1) \<le> 0" using bb(2)[of 1] bb(3)[of 1] by linarith
  then show ?thesis using ne(2) by (simp add: Promotable_def Analyze_def Let_def)
qed

end
