(* ===== verification/Accounting.thy ===== *)
theory Accounting
  imports Store_Records Go_Fmt
begin

text \<open>
  Cost normalization (\<open>internal/accounting/normalize.go\<close>) with the glob matcher \<open>path.Match\<close> of Go's
  standard library. Patterns and names are read byte by byte, which is rune by rune for ASCII. The
  YAML decoder is outside the sources, so \<open>ParsePolicy\<close> takes what it decoded; \<open>fmt\<close> is the shortest
  decimal of a \<open>float64\<close>, which exact reals do not determine.
\<close>

section \<open>\<open>path.Match\<close>\<close>

text \<open>The chunk scan: leading stars, then everything up to the next star outside a class.\<close>

fun scan_plain :: "bool \<Rightarrow> string \<Rightarrow> string \<times> string" where
  "scan_plain inrange [] = ([], [])"
| "scan_plain inrange (c # cs) =
     (if c = char_of (92 :: nat) then (case cs of [] \<Rightarrow> ([c], [])
        | e # cs' \<Rightarrow> (let (a, b) = scan_plain inrange cs' in (c # e # a, b)))
      else if c = CHR ''*'' \<and> \<not> inrange then ([], c # cs)
      else (let (a, b) = scan_plain (if c = CHR ''['' then True else if c = CHR '']'' then False else inrange) cs
            in (c # a, b)))"

definition scanChunk :: "string \<Rightarrow> bool \<times> string \<times> string" where
  "scanChunk pattern = (let star = (pattern \<noteq> [] \<and> hd pattern = CHR ''*'');
      (chunk, rest) = scan_plain False (dropWhile (\<lambda>c. c = CHR ''*'') pattern) in (star, chunk, rest))"

text \<open>\<open>None\<close> is \<open>ErrBadPattern\<close>.\<close>

definition getEsc :: "string \<Rightarrow> (char \<times> string) option" where
  "getEsc chunk =
     (if chunk = [] \<or> hd chunk = CHR ''-'' \<or> hd chunk = CHR '']'' then None
      else
        (let chunk1 = (if hd chunk = char_of (92 :: nat) then tl chunk else chunk)
         in case chunk1 of [] \<Rightarrow> None | r # nchunk \<Rightarrow> if nchunk = [] then None else Some (r, nchunk)))"

lemma getEsc_shorter: "getEsc chunk = Some (r, n) \<Longrightarrow> length n < length chunk"
  by (cases chunk) (auto simp: getEsc_def Let_def split: if_splits list.splits)

text \<open>The ranges of a class against a byte: whether one matched, and the rest of the chunk.\<close>

function class_ranges :: "char \<Rightarrow> bool \<Rightarrow> bool \<Rightarrow> string \<Rightarrow> (bool \<times> string) option" where
  "class_ranges r first m chunk =
     (if chunk \<noteq> [] \<and> hd chunk = CHR '']'' \<and> \<not> first then Some (m, tl chunk)
      else
        (case getEsc chunk of
           None \<Rightarrow> None
         | Some (lo, c1) \<Rightarrow>
             if hd c1 = CHR ''-''
             then (case getEsc (tl c1) of
                     None \<Rightarrow> None
                   | Some (hi, c2) \<Rightarrow> class_ranges r False (m \<or> (lo \<le> r \<and> r \<le> hi)) c2)
             else class_ranges r False (m \<or> lo = r) c1))"
  by pat_completeness auto
termination
  by (relation "measure (\<lambda>(r, f, m, c). length c)")
    (auto dest!: getEsc_shorter simp: length_tl)

declare class_ranges.simps [simp del]

lemma class_ranges_shorter: "class_ranges r f m chunk = Some (b, c) \<Longrightarrow> length c < length chunk"
proof (induction r f m chunk rule: class_ranges.induct)
  case (1 r f m chunk)
  show ?case
  proof (cases "chunk \<noteq> [] \<and> hd chunk = CHR '']'' \<and> \<not> f")
    case True
    with 1(3) show ?thesis by (cases chunk) (auto simp: class_ranges.simps)
  next
    case False
    with 1(3) obtain lo c1 where g: "getEsc chunk = Some (lo, c1)"
      by (subst (asm) class_ranges.simps) (auto split: option.splits if_splits)
    show ?thesis
    proof (cases "hd c1 = CHR ''-''")
      case True
      with 1(3) False g obtain hi c2 where h: "getEsc (tl c1) = Some (hi, c2)"
        by (subst (asm) class_ranges.simps) (auto split: option.splits if_splits)
      have "class_ranges r False (m \<or> (lo \<le> r \<and> r \<le> hi)) c2 = Some (b, c)"
        using 1(3) False g True h by (subst (asm) class_ranges.simps) simp
      then have "length c < length c2" using 1(1)[OF False g _ True h] by auto
      then show ?thesis using getEsc_shorter[OF g] getEsc_shorter[OF h] by (simp add: length_tl)
    next
      case no: False
      with 1(2)[OF False g _ no] 1(3) False g getEsc_shorter[OF g]
      show ?thesis by (subst (asm) (2) class_ranges.simps) simp
    qed
  qed
qed

text \<open>
  \<open>matchChunk\<close>: \<open>None\<close> is a bad pattern, \<open>Some None\<close> no match, \<open>Some (Some t)\<close> a match with rest \<open>t\<close>.
  After a failure the chunk is still parsed but the name is no longer read. A class read after
  a failure sees the zero rune.
\<close>

function matchChunk :: "bool \<Rightarrow> string \<Rightarrow> string \<Rightarrow> string option option" where
  "matchChunk failed0 chunk s =
     (if chunk = [] then Some (if failed0 then None else Some s)
      else
        (let failed = (failed0 \<or> s = []); s1 = (if failed then s else tl s)
         in if hd chunk = CHR ''[''
            then (let r = (if failed then char_of (0 :: nat) else hd s);
                      c1 = tl chunk; negated = (c1 \<noteq> [] \<and> hd c1 = CHR ''^'');
                      c2 = (if negated then tl c1 else c1)
                  in case class_ranges r True False c2 of
                       None \<Rightarrow> None
                     | Some (m, c3) \<Rightarrow> matchChunk (failed \<or> m = negated) c3 s1)
            else if hd chunk = CHR ''?'' then matchChunk (failed \<or> hd s = CHR ''/'') (tl chunk) s1
            else if hd chunk = char_of (92 :: nat)
            then (if tl chunk = [] then None else matchChunk (failed \<or> hd (tl chunk) \<noteq> hd s) (tl (tl chunk)) s1)
            else matchChunk (failed \<or> hd chunk \<noteq> hd s) (tl chunk) s1))"
  by pat_completeness auto
termination
proof (relation "measure (\<lambda>(f, c, s). length c)", goal_cases)
  case (2 failed0 chunk s failed s1 r c1 negated c2 p m c3)
  then have "length c3 < length c2" by (metis class_ranges_shorter)
  moreover have "length c2 \<le> length chunk" using 2 by (auto simp: length_tl)
  ultimately show ?case by simp
qed (auto simp: length_tl)

declare matchChunk.simps [simp del]

text \<open>The names left after skipping one or more bytes, none of them a slash.\<close>

fun star_tails :: "string \<Rightarrow> string list" where
  "star_tails [] = []"
| "star_tails (c # cs) = (if c = CHR ''/'' then [] else cs # star_tails cs)"

text \<open>Looking for the chunk behind a star: the first rest that fits; a bad pattern stops the search.\<close>

fun star_match :: "string \<Rightarrow> bool \<Rightarrow> string list \<Rightarrow> string option option" where
  "star_match chunk lst [] = Some None"
| "star_match chunk lst (n # ns) =
     (case matchChunk False chunk n of
        None \<Rightarrow> None
      | Some None \<Rightarrow> star_match chunk lst ns
      | Some (Some t) \<Rightarrow> if lst \<and> t \<noteq> [] then star_match chunk lst ns else Some (Some t))"

lemma scan_plain_length: "scan_plain b p = (a, r) \<Longrightarrow> length a + length r = length p"
proof (induction b p arbitrary: a r rule: scan_plain.induct)
  case (2 b c cs)
  show ?case
    using 2(3) 2(1) 2(2) by (auto simp: Let_def split: if_splits list.splits prod.splits)
qed simp

lemma scanChunk_shorter: "p \<noteq> [] \<Longrightarrow> scanChunk p = (star, chunk, rest) \<Longrightarrow> length rest < length p"
proof -
  assume p: "p \<noteq> []" and s: "scanChunk p = (star, chunk, rest)"
  let ?q = "dropWhile (\<lambda>c. c = CHR ''*'') p"
  from s have q: "scan_plain False ?q = (chunk, rest)" by (auto simp: scanChunk_def Let_def split: prod.splits)
  have len: "length chunk + length rest = length ?q" using scan_plain_length[OF q] .
  show "length rest < length p"
  proof (cases "hd p = CHR ''*''")
    case True
    with p have "length ?q < length p" by (cases p) (auto simp: length_dropWhile_le le_imp_less_Suc)
    with len show ?thesis by simp
  next
    case False
    with p obtain c cs where c: "p = c # cs" "c \<noteq> CHR ''*''" by (cases p) auto
    with q have "chunk \<noteq> []" by (auto simp: Let_def split: if_splits list.splits prod.splits)
    with len c show ?thesis by (cases chunk) auto
  qed
qed

lemma scanChunk_rest: "p \<noteq> [] \<Longrightarrow> (star, chunk, rest) = scanChunk p \<Longrightarrow> length rest < length p"
  using scanChunk_shorter by metis

text \<open>The check of the remaining pattern before a plain mismatch; \<open>False\<close> is a bad pattern.\<close>

function rest_valid :: "string \<Rightarrow> bool" where
  "rest_valid pattern =
     (if pattern = [] then True
      else (case scanChunk pattern of (_, chunk, rest) \<Rightarrow> matchChunk False chunk [] \<noteq> None \<and> rest_valid rest))"
  by pat_completeness auto
termination
  by (relation "measure length") (auto intro: scanChunk_rest)

declare rest_valid.simps [simp del]

text \<open>\<open>Match\<close>: \<open>None\<close> is \<open>ErrBadPattern\<close>.\<close>

function Match :: "string \<Rightarrow> string \<Rightarrow> bool option" where
  "Match pattern name =
     (if pattern = [] then Some (name = [])
      else
        (case scanChunk pattern of
           (star, chunk, rest) \<Rightarrow>
             if star \<and> chunk = [] then Some (CHR ''/'' \<notin> set name)
             else
               (case matchChunk False chunk name of
                  None \<Rightarrow> None
                | Some m \<Rightarrow>
                    if m \<noteq> None \<and> (m = Some [] \<or> rest \<noteq> []) then Match rest (the m)
                    else
                      (case (if star then star_match chunk (rest = []) (star_tails name) else Some None) of
                         None \<Rightarrow> None
                       | Some (Some t) \<Rightarrow> Match rest t
                       | Some None \<Rightarrow> if rest_valid rest then Some False else None))))"
  by pat_completeness auto
termination
  by (relation "measure (\<lambda>(p, n). length p)") (auto intro: scanChunk_rest)

declare Match.simps [simp del]

section \<open>Policies and cost records\<close>

record Rate =
  rt_Unit :: string
  rt_Target :: string
  rt_Rate :: float64

record Policy =
  pl_Version :: string
  pl_Currency :: string
  pl_Rates :: "Rate list"

fun check_rates :: "Rate list \<Rightarrow> string option" where
  "check_rates [] = None"
| "check_rates (r # rs) =
     (if rt_Unit r = [] \<or> rt_Rate r < 0
      then Some ''normalization policy: rates need a unit and a non-negative rate''
      else if rt_Target r \<noteq> [] \<and> Match (rt_Target r) ''probe'' = None
      then Some (''normalization policy: bad target glob '' @ quote (rt_Target r) @ '': syntax error in pattern'')
      else check_rates rs)"

definition ParsePolicy :: "string + Policy \<Rightarrow> string + Policy" where
  "ParsePolicy decoded =
     (case decoded of
        Inl e \<Rightarrow> Inl (''normalization policy: '' @ e)
      | Inr p \<Rightarrow>
          if pl_Version p = [] \<or> pl_Currency p = [] then Inl ''normalization policy: version and currency are required''
          else (case check_rates (pl_Rates p) of Some e \<Rightarrow> Inl e | None \<Rightarrow> Inr p))"

record CostRecord =
  cr_LedgerID :: nat
  cr_JobID :: string
  cr_Tenant :: string
  cr_Target :: string
  cr_Unit :: string
  cr_Amount :: float64
  cr_Rate :: float64
  cr_Cost :: float64
  cr_Currency :: string
  cr_PolicyVersion :: string

fun rate_in :: "string \<Rightarrow> string \<Rightarrow> Rate list \<Rightarrow> float64" where
  "rate_in u target [] = 0"
| "rate_in u target (r # rs) =
     (if rt_Unit r \<noteq> u then rate_in u target rs
      else if rt_Target r = [] then rt_Rate r
      else if Match (rt_Target r) target = Some True then rt_Rate r
      else rate_in u target rs)"

definition rateFor :: "Policy \<Rightarrow> string \<Rightarrow> string \<Rightarrow> float64" where
  "rateFor p u target = rate_in u target (pl_Rates p)"

definition cost_of :: "Policy \<Rightarrow> ledger_row \<Rightarrow> CostRecord" where
  "cost_of p e = (let rate = rateFor p (lg_Unit e) (lg_Target e)
     in \<lparr>cr_LedgerID = lg_ID e, cr_JobID = lg_JobID e, cr_Tenant = lg_Tenant e, cr_Target = lg_Target e,
         cr_Unit = lg_Unit e, cr_Amount = lg_Amount e, cr_Rate = rate, cr_Cost = lg_Amount e * rate,
         cr_Currency = pl_Currency p, cr_PolicyVersion = pl_Version p\<rparr>)"

definition Normalize :: "ledger_row list \<Rightarrow> Policy \<Rightarrow> CostRecord list" where
  "Normalize entries p = sort_key cr_LedgerID (map (cost_of p) entries)"

definition csv_line :: "(float64 \<Rightarrow> string) \<Rightarrow> CostRecord \<Rightarrow> string" where
  "csv_line fmt r = Join [itoa (cr_LedgerID r), cr_JobID r, cr_Tenant r, cr_Target r, cr_Unit r,
     fmt (cr_Amount r), fmt (cr_Rate r), fmt (cr_Cost r), cr_Currency r, cr_PolicyVersion r] '','' @ [CHR 0x0A]"

definition WriteCSV :: "(float64 \<Rightarrow> string) \<Rightarrow> CostRecord list \<Rightarrow> string" where
  "WriteCSV fmt records =
     ''ledger_id,job_id,tenant,target,unit,amount,rate,cost,currency,policy_version'' @ [CHR 0x0A] @
     concat (map (csv_line fmt) records)"

section \<open>Facts\<close>

lemma cost_of_id [simp]: "cr_LedgerID (cost_of p e) = lg_ID e"
  by (simp add: cost_of_def Let_def)

text \<open>The export depends on the set of ledger rows, not on the order the caller has them in.\<close>

lemma Normalize_perm:
  assumes "mset es = mset es'" and "distinct (map lg_ID es)"
  shows "Normalize es p = Normalize es' p"
  unfolding Normalize_def
proof (rule sort_key_distinct_perm)
  show "mset (map (cost_of p) es) = mset (map (cost_of p) es')" using assms(1) by simp
  show "distinct (map cr_LedgerID (map (cost_of p) es))" using assms(2) by (simp add: o_def)
qed

lemma rate_in_nonneg: "check_rates rs = None \<Longrightarrow> 0 \<le> rate_in u target rs"
  by (induction rs rule: check_rates.induct) (auto split: if_splits)

lemma Match_examples:
  "Match ''siteA/*'' ''siteA/dev1'' = Some True" "Match ''*'' ''siteA/dev1'' = Some False"
  "Match ''site[A-C]/dev?'' ''siteB/dev7'' = Some True" "Match ''site['' ''siteA'' = None"
  by code_simp+

end
