(* ===== verification/Bench_Gate.thy ===== *)
theory Bench_Gate
  imports Go_Parse Go_Fmt
begin

text \<open>
  The benchmark regression gate (\<open>internal/benchgate/gate.go\<close>): the headline metrics of one policy
  read from \<open>summary.csv\<close> and compared with a pinned baseline. The file reads and the CSV reader's
  splitting are arguments; the reader gives every record the width of the first.
\<close>

section \<open>Definitions\<close>

record Metrics =
  bm_Policy :: string
  bm_MeanFidelity :: float64
  bm_SLOViolationRate :: float64
  bm_DeadlineMetRate :: float64
  bm_MeanWaitS :: float64

record Regression =
  rg_Metric :: string
  rg_Baseline :: float64
  rg_Current :: float64
  rg_Detail :: string

definition regression_String :: "Regression \<Rightarrow> string" where
  "regression_String r = rg_Metric r @ '' regressed: '' @ fmt_fixed 4 (rg_Baseline r) @ '' -> '' @
     fmt_fixed 4 (rg_Current r) @ '' ('' @ rg_Detail r @ '')''"

definition slorRose :: "float64 \<Rightarrow> float64 \<Rightarrow> float64 \<Rightarrow> bool" where
  "slorRose baseline current threshold =
     (if baseline < 1 / 100 then current > baseline + 5 / 100 else current > baseline * (1 + threshold))"

definition dropped_detail :: "float64 \<Rightarrow> string" where
  "dropped_detail threshold = ''dropped more than '' @ fmt_fixed 0 (threshold * 100) @ ''%''"

definition gate_Check :: "Metrics \<Rightarrow> Metrics \<Rightarrow> float64 \<Rightarrow> Regression list" where
  "gate_Check baseline current threshold =
     (if bm_MeanFidelity current < bm_MeanFidelity baseline * (1 - threshold)
      then [\<lparr>rg_Metric = ''mean_fidelity'', rg_Baseline = bm_MeanFidelity baseline,
             rg_Current = bm_MeanFidelity current, rg_Detail = dropped_detail threshold\<rparr>] else []) @
     (if bm_DeadlineMetRate current < bm_DeadlineMetRate baseline * (1 - threshold)
      then [\<lparr>rg_Metric = ''deadline_met_rate'', rg_Baseline = bm_DeadlineMetRate baseline,
             rg_Current = bm_DeadlineMetRate current, rg_Detail = dropped_detail threshold\<rparr>] else []) @
     (if slorRose (bm_SLOViolationRate baseline) (bm_SLOViolationRate current) threshold
      then [\<lparr>rg_Metric = ''slo_violation_rate'', rg_Baseline = bm_SLOViolationRate baseline,
             rg_Current = bm_SLOViolationRate current, rg_Detail = ''more violations''\<rparr>] else [])"

definition atof :: "string \<Rightarrow> float64" where
  "atof s = (case ParseFloat s of Some x \<Rightarrow> x | None \<Rightarrow> 0)"

text \<open>The header map: a repeated column name keeps its last index.\<close>

definition columns :: "string list \<Rightarrow> string \<rightharpoonup> nat" where
  "columns header = map_of (rev (zip header [0..<length header]))"

definition atofOr :: "string list \<Rightarrow> (string \<rightharpoonup> nat) \<Rightarrow> string \<Rightarrow> float64" where
  "atofOr row col key = (case col key of Some i \<Rightarrow> if i < length row then atof (row ! i) else 0 | None \<Rightarrow> 0)"

datatype gate_error = GateError string | IndexPanic

definition row_get :: "string list \<Rightarrow> nat \<Rightarrow> gate_error + string" where
  "row_get row i = (if i < length row then Inr (row ! i) else Inl IndexPanic)"

fun find_policy :: "string \<Rightarrow> string \<Rightarrow> (string \<rightharpoonup> nat) \<Rightarrow> nat \<Rightarrow> nat \<Rightarrow> nat \<Rightarrow> nat \<Rightarrow> string list list \<Rightarrow> gate_error + Metrics" where
  "find_policy path policy col ip fi si di [] = Inl (GateError (path @ '': policy '' @ quote policy @ '' not found''))"
| "find_policy path policy col ip fi si di (row # rows) =
     (case row_get row ip of
        Inl e \<Rightarrow> Inl e
      | Inr name \<Rightarrow>
          if name \<noteq> policy then find_policy path policy col ip fi si di rows
          else
            (case (row_get row fi, row_get row si, row_get row di) of
               (Inr f, Inr s, Inr d) \<Rightarrow> Inr \<lparr>bm_Policy = policy, bm_MeanFidelity = atof f, bm_SLOViolationRate = atof s,
                 bm_DeadlineMetRate = atof d, bm_MeanWaitS = atofOr row col ''mean_wait_s''\<rparr>
             | _ \<Rightarrow> Inl IndexPanic))"

definition LoadSummaryCSV :: "string + string list list \<Rightarrow> string \<Rightarrow> string \<Rightarrow> gate_error + Metrics" where
  "LoadSummaryCSV csv path policy =
     (case csv of
        Inl e \<Rightarrow> Inl (GateError e)
      | Inr rows \<Rightarrow>
          if length rows < 2 then Inl (GateError (path @ '': no data rows''))
          else
            (let col = columns (hd rows)
             in case find (\<lambda>k. col k = None) [''policy'', ''mean_fidelity'', ''slo_violation_rate'', ''deadline_met_rate''] of
                  Some k \<Rightarrow> Inl (GateError (path @ '': missing column '' @ quote k))
                | None \<Rightarrow> find_policy path policy col (the (col ''policy'')) (the (col ''mean_fidelity''))
                    (the (col ''slo_violation_rate'')) (the (col ''deadline_met_rate'')) (tl rows)))"

section \<open>Facts\<close>

lemma columns_bound: "columns header k = Some i \<Longrightarrow> i < length header \<and> header ! i = k"
  by (auto simp: columns_def dest!: map_of_SomeD simp: set_zip)

text \<open>On a rectangular file the reader never indexes out of range.\<close>

lemma find_policy_no_panic:
  assumes "\<forall>row \<in> set rows. length row = n" and "ip < n" "fi < n" "si < n" "di < n"
  shows "find_policy path policy col ip fi si di rows \<noteq> Inl IndexPanic"
  using assms(1) by (induction rows) (auto simp: row_get_def assms(2-))

lemma LoadSummaryCSV_no_panic:
  assumes "\<And>rows. csv = Inr rows \<Longrightarrow> \<forall>row \<in> set rows. length row = length (hd rows)"
  shows "LoadSummaryCSV csv path policy \<noteq> Inl IndexPanic"
proof (cases csv)
  case (Inr rows)
  show ?thesis
  proof (cases "find (\<lambda>k. columns (hd rows) k = None) [''policy'', ''mean_fidelity'', ''slo_violation_rate'', ''deadline_met_rate'']")
    case None
    then have some: "columns (hd rows) k \<noteq> None"
      if "k \<in> {''policy'', ''mean_fidelity'', ''slo_violation_rate'', ''deadline_met_rate''}" for k
      using that unfolding find_None_iff by auto
    have lt: "the (columns (hd rows) k) < length (hd rows)"
      if "k \<in> {''policy'', ''mean_fidelity'', ''slo_violation_rate'', ''deadline_met_rate''}" for k
      using some[OF that] columns_bound[of "hd rows" k] by (cases "columns (hd rows) k") simp_all
    have "\<forall>row \<in> set (tl rows). length row = length (hd rows)"
      using assms[OF Inr] by (cases rows) simp_all
    then have "find_policy path policy (columns (hd rows)) (the (columns (hd rows) ''policy'')) (the (columns (hd rows) ''mean_fidelity''))
        (the (columns (hd rows) ''slo_violation_rate'')) (the (columns (hd rows) ''deadline_met_rate'')) (tl rows) \<noteq> Inl IndexPanic"
      by (rule find_policy_no_panic) (rule lt, simp)+
    with None Inr show ?thesis by (simp add: LoadSummaryCSV_def Let_def)
  next
    case (Some k)
    with Inr show ?thesis by (simp add: LoadSummaryCSV_def Let_def)
  qed
qed (simp add: LoadSummaryCSV_def)

text \<open>The gate is monotone: metrics at least as good as passing ones pass.\<close>

definition at_least :: "Metrics \<Rightarrow> Metrics \<Rightarrow> bool" where
  "at_least a b \<longleftrightarrow> bm_MeanFidelity a \<ge> bm_MeanFidelity b \<and> bm_DeadlineMetRate a \<ge> bm_DeadlineMetRate b \<and>
     bm_SLOViolationRate a \<le> bm_SLOViolationRate b"

lemma gate_Check_mono:
  assumes "gate_Check baseline current threshold = []" and "at_least better current"
  shows "gate_Check baseline better threshold = []"
  using assms by (auto simp: gate_Check_def at_least_def slorRose_def split: if_splits)

lemma gate_Check_self:
  assumes "0 \<le> threshold" and "0 \<le> bm_MeanFidelity m" "0 \<le> bm_DeadlineMetRate m" "0 \<le> bm_SLOViolationRate m"
  shows "gate_Check m m threshold = []"
proof -
  have "x * (1 - threshold) \<le> x" "x \<le> x * (1 + threshold)" if "0 \<le> x" for x :: real
    using assms(1) that by (simp_all add: algebra_simps)
  then show ?thesis using assms by (auto simp: gate_Check_def slorRose_def not_less)
qed

end
