(* ===== verification/Latencies.thy ===== *)
theory Latencies
  imports Go_Parse
begin

text \<open>
  The latency recorder of the load harness (\<open>internal/loadtest/stats.go\<close>): samples in recording
  order, nearest-rank percentiles over a sorted copy, and the mean, whose sum is a 64-bit integer.
  The mutex makes each method atomic.
\<close>

type_synonym Latencies = "duration list"

definition lat_Record :: "duration \<Rightarrow> Latencies \<Rightarrow> Latencies" where
  "lat_Record d l = l @ [d]"

definition lat_Count :: "Latencies \<Rightarrow> nat" where
  "lat_Count l = length l"

definition nearest_rank :: "float64 \<Rightarrow> nat \<Rightarrow> int" where
  "nearest_rank q n =
     (let rank = trunc (q * of_nat n + 999999 / 1000000); rank1 = (if rank < 1 then 1 else rank)
      in if rank1 > int n then int n else rank1)"

definition Percentile :: "float64 \<Rightarrow> Latencies \<Rightarrow> duration" where
  "Percentile q l =
     (let sorted = sort l; n = length sorted
      in if n = 0 then 0
         else if q \<le> 0 then sorted ! 0
         else if q \<ge> 1 then sorted ! (n - 1)
         else sorted ! nat (nearest_rank q n - 1))"

definition P50 :: "Latencies \<Rightarrow> duration" where "P50 l = Percentile (50 / 100) l"
definition P99 :: "Latencies \<Rightarrow> duration" where "P99 l = Percentile (99 / 100) l"
definition lat_Max :: "Latencies \<Rightarrow> duration" where "lat_Max l = Percentile 1 l"

text \<open>Division of integers truncates towards zero.\<close>

definition quot :: "int \<Rightarrow> int \<Rightarrow> int" where
  "quot a b = sgn a * sgn b * (\<bar>a\<bar> div \<bar>b\<bar>)"

definition lat_Mean :: "Latencies \<Rightarrow> duration" where
  "lat_Mean l = (if l = [] then 0 else quot (wrap64 (fold (\<lambda>d t. wrap64 (t + d)) l 0)) (int (length l)))"

section \<open>Facts\<close>

text \<open>The index of a quantile in the sorted samples.\<close>

definition q_index :: "float64 \<Rightarrow> nat \<Rightarrow> nat" where
  "q_index q n = (if q \<le> 0 then 0 else if q \<ge> 1 then n - 1 else nat (nearest_rank q n - 1))"

lemma nearest_rank_bounds: "0 < n \<Longrightarrow> 1 \<le> nearest_rank q n \<and> nearest_rank q n \<le> int n"
  by (auto simp: nearest_rank_def Let_def)

lemma trunc_mono: "x \<le> y \<Longrightarrow> trunc x \<le> trunc y"
proof -
  assume le: "x \<le> y"
  have "- \<lfloor>- x\<rfloor> \<le> 0" if "x < 0" using that by simp
  moreover have "0 \<le> \<lfloor>y\<rfloor>" if "\<not> y < 0" using that by simp
  moreover have "\<lfloor>x\<rfloor> \<le> \<lfloor>y\<rfloor>" "\<lfloor>- y\<rfloor> \<le> \<lfloor>- x\<rfloor>" using le by (simp_all add: floor_mono)
  ultimately have "x < 0 \<Longrightarrow> \<not> y < 0 \<Longrightarrow> - \<lfloor>- x\<rfloor> \<le> \<lfloor>y\<rfloor>" "\<lfloor>x\<rfloor> \<le> \<lfloor>y\<rfloor>" "\<lfloor>- y\<rfloor> \<le> \<lfloor>- x\<rfloor>"
    by linarith+
  then show ?thesis using le by (simp add: trunc_def)
qed

lemma sort_Nil [simp]: "sort l = [] \<longleftrightarrow> l = []"
  by (metis length_0_conv length_sort)

lemma nearest_rank_mono: "q \<le> q' \<Longrightarrow> nearest_rank q n \<le> nearest_rank q' n"
  using trunc_mono[of "q * of_nat n + 999999 / 1000000" "q' * of_nat n + 999999 / 1000000"]
  by (auto simp: nearest_rank_def Let_def mult_right_mono)

lemma q_index_bound: "0 < n \<Longrightarrow> q_index q n < n"
  using nearest_rank_bounds[of n q] by (auto simp: q_index_def)

lemma q_index_mono: "0 < n \<Longrightarrow> q \<le> q' \<Longrightarrow> q_index q n \<le> q_index q' n"
  using nearest_rank_bounds[of n q] nearest_rank_bounds[of n q'] nearest_rank_mono[of q q' n]
  by (auto simp: q_index_def)

lemma Percentile_nth: "l \<noteq> [] \<Longrightarrow> Percentile q l = sort l ! q_index q (length l)"
  by (auto simp: Percentile_def q_index_def Let_def)

lemma Percentile_mem: "l \<noteq> [] \<Longrightarrow> Percentile q l \<in> set l"
  using nth_mem[of "q_index q (length l)" "sort l"] q_index_bound[of "length l" q] by (simp add: Percentile_nth)

lemma Percentile_mono: "l \<noteq> [] \<Longrightarrow> q \<le> q' \<Longrightarrow> Percentile q l \<le> Percentile q' l"
  using q_index_bound[of "length l" q'] q_index_mono[of "length l" q q']
  by (auto simp: Percentile_nth intro!: sorted_nth_mono)

lemma lat_Max_upper: "d \<in> set l \<Longrightarrow> d \<le> lat_Max l"
proof -
  assume d: "d \<in> set l"
  then obtain i where i: "i < length (sort l)" "sort l ! i = d" by (metis in_set_conv_nth set_sort)
  then have "sort l ! i \<le> sort l ! (length l - 1)" by (intro sorted_nth_mono) auto
  then show ?thesis using d i by (auto simp: lat_Max_def Percentile_def Let_def)
qed

end
