(* ===== verification/Status_Page.thy ===== *)
theory Status_Page
  imports Probe Go_Fmt
begin

text \<open>
  The data of the public status page (\<open>internal/status/status.go\<close>): the aggregates \<open>Gather\<close> reads from
  the database, and the one-decimal printing of \<open>template.go\<close>. The HTML template is not modelled.
\<close>

section \<open>Definitions\<close>

definition probeSuccessFidelity :: float64 where
  "probeSuccessFidelity = 5 / 10"

record Data =
  da_GeneratedAt :: time
  da_UptimeDays :: float64
  da_OperationDays :: float64
  da_JobsLost :: nat
  da_DaysSinceJobLost :: float64
  da_NeverLost :: bool
  da_ProbesConsidered :: nat
  da_ProbeSuccessRate :: float64
  da_MedianCalibErr :: "float64 option"
  da_ReconciliationOK :: bool
  da_ReconciliationAt :: time
  da_ReconciliationMis :: nat
  da_LastGameDay :: "game_day option"
  da_Healthy :: bool

text \<open>\<open>d.Hours() / 24\<close>, never negative.\<close>

definition clampDays :: "duration \<Rightarrow> float64" where
  "clampDays d = (let days = of_int d / 3600000000000 / 24 in if days < 0 then 0 else days)"

definition lostAfter :: duration where
  "lostAfter = 86400000000000"

definition lost_jobs :: "time \<Rightarrow> db \<Rightarrow> job_record list" where
  "lost_jobs cutoff d = filter (\<lambda>j. jr_Phase j \<notin> {Succeeded, Failed, Cancelled} \<and> jr_CreatedAt j < cutoff) (jobs d)"

definition min_time :: "time list \<Rightarrow> time option" where
  "min_time ts = (if ts = [] then None else Some (Min (set ts)))"

definition max_time :: "time list \<Rightarrow> time option" where
  "max_time ts = (if ts = [] then None else Some (Max (set ts)))"

definition calib_errors :: "Health list \<Rightarrow> float64 list" where
  "calib_errors hs = sort (concat (map (\<lambda>h. case he_AbsError h of Some e \<Rightarrow> [e] | None \<Rightarrow> []) hs))"

definition success_rate :: "Health list \<Rightarrow> float64" where
  "success_rate hs = (if hs = [] then 0
     else of_nat (length (filter (\<lambda>h. he_Fidelity h \<ge> probeSuccessFidelity) hs)) / of_nat (length hs))"

definition Gather :: "time \<Rightarrow> time \<Rightarrow> probe_row list \<Rightarrow> db \<Rightarrow> Data" where
  "Gather started now probes d =
     (let opDays = (case min_time (map jr_CreatedAt (jobs d)) of
            Some t \<Rightarrow> clampDays (time_Sub now t) | None \<Rightarrow> 0);
          lost = lost_jobs (now - lostAfter) d;
          sinceLost = (if lost = [] then opDays
            else (case max_time (map jr_CreatedAt lost) of Some t \<Rightarrow> clampDays (time_Sub now t) | None \<Rightarrow> 0));
          health = LatestHealth probes;
          errs = calib_errors health;
          (recOK, recAt, recMis) = (case LastReconciliation d of
              Some (checked, mis, t) \<Rightarrow> (mis = 0, t, mis)
            | None \<Rightarrow> (True, zero_time, 0))
      in \<lparr>da_GeneratedAt = now, da_UptimeDays = clampDays (time_Sub now started), da_OperationDays = opDays,
          da_JobsLost = length lost, da_DaysSinceJobLost = sinceLost, da_NeverLost = (lost = []),
          da_ProbesConsidered = length health, da_ProbeSuccessRate = success_rate health,
          da_MedianCalibErr = (if errs = [] then None else Some (errs ! (length errs div 2))),
          da_ReconciliationOK = recOK, da_ReconciliationAt = recAt, da_ReconciliationMis = recMis,
          da_LastGameDay = LastGameDay d,
          da_Healthy = (length lost = 0 \<and> recOK \<and> (length health = 0 \<or> success_rate health \<ge> 5 / 10))\<rparr>)"

definition formatFloat :: "float64 \<Rightarrow> string" where
  "formatFloat f = (let s = fmt_fixed 1 f
     in if length s > 2 \<and> drop (length s - 2) s = ''.0'' then take (length s - 2) s else s)"

section \<open>Facts\<close>

lemma clampDays_nonneg: "0 \<le> clampDays d"
  by (simp add: clampDays_def Let_def)

lemma success_rate_range: "0 \<le> success_rate hs \<and> success_rate hs \<le> 1"
proof (cases "hs = []")
  case False
  then have "0 < length hs" by simp
  moreover have "length (filter P hs) \<le> length hs" for P by simp
  ultimately show ?thesis using False by (simp add: success_rate_def)
qed (simp add: success_rate_def)

lemma formatFloat_examples: "formatFloat 3 = ''3''" "formatFloat (7 / 2) = ''3.5''"
  by (simp_all add: formatFloat_def fmt_fixed_def fmt_eval)

end
