(* ===== verification/Ops_Properties.thy ===== *)
theory Ops_Properties
  imports Api_Jobs Execution_Properties Registry Leader Probe Shadow_Report Accounting Bench_Gate Latencies Status_Page
begin

text \<open>
  The contract of the parts around the core: the registry that feeds the scheduler, admission, the
  program payload, leader election, probes, promotion of shadow policies, cost export, and the
  benchmark gate.
\<close>

section \<open>Registry\<close>

inductive registry_step :: "registry \<Rightarrow> registry \<Rightarrow> bool" where
  discovers: "registry_step r (discover clients r)"
| polls: "registry_step r (poll clients now r)"

lemma registry_keeps: "registry_ok r \<Longrightarrow> registry_step r r' \<Longrightarrow> registry_ok r'"
  by (auto elim!: registry_step.cases intro: registry_ok_discover registry_ok_poll)

interpretation fleet: inv_system registry_step registry_ok
  by unfold_locales (rule registry_keeps)

lemma NewFromSpec_ok: "NewFromSpec dial spec = Inr r \<Longrightarrow> registry_ok r"
  by (auto simp: NewFromSpec_def registry_ok_def new_registry_def split: if_splits sum.splits)

lemma cut_target_join: "CHR ''/'' \<notin> set site \<Longrightarrow> cut_target (site @ CHR ''/'' # t) = (site, t)"
  using Cut_append[of "CHR ''/''" site t] by (simp add: cut_target_def)

text \<open>C38: However adapters answer discovery and polling, the fleet a registry shows the scheduler is well
  formed: target names are distinct, in order, and each is its site and target id joined by a slash; the
  executor splits such a name back into the two, provided the site name has no slash of its own.\<close>

theorem fleet_is_well_formed:
  assumes "NewFromSpec dial spec = Inr r0" and "registry_step\<^sup>*\<^sup>* r0 r"
  shows "distinct (map tv_Name (fleetViews r)) \<and> sorted (map tv_Name (fleetViews r)) \<and>
    (\<forall>e \<in> set (Entries r). en_Name e = en_Site e @ ''/'' @ en_TargetID e \<and>
       (CHR ''/'' \<notin> set (en_Site e) \<longrightarrow> cut_target (en_Name e) = (en_Site e, en_TargetID e)))"
proof -
  have ok: "registry_ok r" using fleet.run[OF assms(2)] NewFromSpec_ok[OF assms(1)] .
  then have "\<forall>e \<in> set (Entries r). en_Name e = en_Site e @ ''/'' @ en_TargetID e"
    by (auto simp: registry_ok_def Entries_def fleet_name_def)
  with fleetViews_names[OF ok] cut_target_join show ?thesis by simp
qed

definition demo_client :: site_client where
  "demo_client = \<lparr>sc_ListTargets = Some [\<lparr>ti_TargetId = ''dev1'', ti_Modality = ''gate-model'', ti_Technology = []\<rparr>],
     sc_GetCapabilities = (\<lambda>_. Some \<lparr>ca_NumQubits = 5, ca_ProgramFormats = [''openqasm3''], ca_MaxShots = 1000,
       ca_BillingUnits = [''shots''], ca_VendorExtensions = [], ca_CloudQueue = False\<rparr>),
     sc_GetDeviceState = (\<lambda>_. None)\<rparr>"

theorem fleet_is_well_formed_witness:
  "\<exists>r0. NewFromSpec (\<lambda>_. True) ''lab=host'' = Inr r0 \<and> distinct (map tv_Name (fleetViews (discover (\<lambda>_. demo_client) r0)))"
proof -
  have "(case NewFromSpec (\<lambda>_. True) ''lab=host'' of Inr _ \<Rightarrow> True | Inl _ \<Rightarrow> False)" by code_simp
  then obtain r0 where "NewFromSpec (\<lambda>_. True) ''lab=host'' = Inr r0" by (auto split: sum.splits)
  with fleet_is_well_formed[OF this r_into_rtranclp[of registry_step, OF discovers[of r0 "\<lambda>_. demo_client"]]] show ?thesis by simp
qed

section \<open>Admission\<close>

text \<open>What the specification asks of a document beyond its schema, in its own terms.\<close>

definition modalities :: "(string \<times> string) set" where
  "modalities = {(''gate-model'', ''gateModel''), (''analog-hamiltonian'', ''analogHamiltonian''), (''annealing'', ''annealing''),
     (''pulse'', ''pulse''), (''logical'', ''logical'')}"

definition workload_of :: "obj \<Rightarrow> obj" where
  "workload_of doc = obj_or (obj_or doc ''spec'') ''workload''"

definition admissible :: "time \<Rightarrow> obj \<Rightarrow> string \<Rightarrow> FleetView \<Rightarrow> bool" where
  "admissible now doc tenant fleet \<longleftrightarrow>
     get doc ''status'' = None \<and>
     (tenant = [] \<or> get (obj_or doc ''metadata'') ''tenant'' = Some (JStr tenant)) \<and>
     (\<forall>(kind, field) \<in> modalities. get (workload_of doc) ''kind'' \<noteq> Some (JStr kind) \<longrightarrow> get (workload_of doc) field = None) \<and>
     (\<forall>raw. get (obj_or doc ''spec'') ''deadline'' = Some (JStr raw) \<longrightarrow> (\<exists>t. ParseRFC3339 raw = Some t \<and> now < t)) \<and>
     (\<forall>u limit. (u, limit) \<in> set (obj_or (obj_or (obj_or doc ''spec'') ''budget'') ''limits'') \<longrightarrow>
        u \<in> {''qpu-seconds'', ''shots'', ''tasks'', ''credits''} \<or> u \<in> set (fl_BillingUnits fleet))"

text \<open>The format of the program of a kind's payload.\<close>

definition format_of :: "obj \<Rightarrow> string \<Rightarrow> string" where
  "format_of doc field = str_or (obj_or (obj_or (workload_of doc) field) ''program'') ''format''"

lemma check_deadline_None:
  "check_deadline now s = None \<longleftrightarrow> (\<forall>raw. get s ''deadline'' = Some (JStr raw) \<longrightarrow> (\<exists>t. ParseRFC3339 raw = Some t \<and> now < t))"
  by (auto simp: check_deadline_def get_defs split: option.splits json.splits)

lemma find_case_None: "(case find P xs of None \<Rightarrow> None | Some x \<Rightarrow> Some (f x)) = None \<longleftrightarrow> (\<forall>x \<in> set xs. \<not> P x)"
  by (induction xs) auto

lemma check_units_None:
  "check_units fleet s = None \<longleftrightarrow> (\<forall>u limit. (u, limit) \<in> set (obj_or (obj_or s ''budget'') ''limits'') \<longrightarrow>
     u \<in> {''qpu-seconds'', ''shots'', ''tasks'', ''credits''} \<or> u \<in> set (fl_BillingUnits fleet))"
  by (auto simp: check_units_def find_case_None specKnownUnits_def)

lemma check_payloads_iff:
  assumes "get w ''kind'' = Some (JStr kind)"
  shows "check_payloads w kind = None \<longleftrightarrow>
    (\<forall>(k, field) \<in> modalities. get w ''kind'' \<noteq> Some (JStr k) \<longrightarrow> get w field = None)"
proof -
  have f: "check_payloads w kind = None \<longleftrightarrow>
      (\<forall>f \<in> snd ` set payloadFieldForKind. f \<noteq> (case map_of payloadFieldForKind kind of Some g \<Rightarrow> g | None \<Rightarrow> []) \<longrightarrow> get w f = None)"
    by (auto simp: check_payloads_def find_case_None Let_def)
  have k: "get w ''kind'' \<noteq> Some (JStr k) \<longleftrightarrow> kind \<noteq> k" for k using assms by auto
  consider "kind \<in> fst ` set payloadFieldForKind" | "map_of payloadFieldForKind kind = None" unfolding map_of_eq_None_iff by blast
  then show ?thesis
  proof cases
    case 1
    then have "kind = ''gate-model'' \<or> kind = ''analog-hamiltonian'' \<or> kind = ''annealing'' \<or> kind = ''pulse'' \<or> kind = ''logical''"
      by (simp add: payloadFieldForKind_def)
    then show ?thesis unfolding f k payloadFieldForKind_def modalities_def by (elim disjE) simp_all
  next
    case 2
    then have "kind \<notin> fst ` set payloadFieldForKind" by (simp add: map_of_eq_None_iff)
    with 2 show ?thesis unfolding f k by (simp add: payloadFieldForKind_def modalities_def)
  qed
qed

lemma programFormat_of:
  assumes "(kind, field) \<in> modalities"
  shows "programFormat (workload_of doc) (case map_of payloadFieldForKind kind of Some f \<Rightarrow> f | None \<Rightarrow> []) = format_of doc field"
proof -
  have "map_of payloadFieldForKind kind = Some field" using assms by (auto simp: modalities_def payloadFieldForKind_def)
  then show ?thesis by (simp add: programFormat_def format_of_def obj_or_def str_or_def get_str_def get_obj_def get_def split: option.split)
qed

lemma Admit_iff:
  assumes "conforms_shape doc"
  shows "(\<exists>a. Admit schema now (Some doc) tenant fleet = Inr a) \<longleftrightarrow> schema doc \<and> admissible now doc tenant fleet"
proof -
  from assms obtain m s w n t k where g: "get_obj doc ''metadata'' = Some m" "get_obj doc ''spec'' = Some s"
    "get_str m ''name'' = Some n" "get_str m ''tenant'' = Some t" "get_obj s ''workload'' = Some w" "get_str w ''kind'' = Some k"
    by (auto simp: conforms_shape_def split: option.splits)
  then have o: "obj_or doc ''metadata'' = m" "obj_or doc ''spec'' = s" "obj_or s ''workload'' = w" "get m ''tenant'' = Some (JStr t)"
    "get w ''kind'' = Some (JStr k)"
    by (auto simp: obj_or_def get_defs split: option.splits json.splits)
  have "(\<exists>a. Admit schema now (Some doc) tenant fleet = Inr a) \<longleftrightarrow> get doc ''status'' = None \<and> schema doc \<and>
      check_tenant tenant t = None \<and> check_payloads w k = None \<and> check_deadline now s = None \<and> check_units fleet s = None"
  proof (cases "first_error [check_tenant tenant t, check_payloads w k, check_deadline now s, check_units fleet s]")
    case None
    then show ?thesis using g by (auto simp: Admit_def Let_def first_error_None)
  next
    case (Some e)
    then have "\<not> (check_tenant tenant t = None \<and> check_payloads w k = None \<and> check_deadline now s = None \<and> check_units fleet s = None)"
      using first_error_None[of "[check_tenant tenant t, check_payloads w k, check_deadline now s, check_units fleet s]"]
      by (auto simp del: first_error.simps)
    with Some g show ?thesis by (auto simp: Admit_def Let_def simp del: first_error.simps)
  qed
  also have "\<dots> \<longleftrightarrow> schema doc \<and> admissible now doc tenant fleet"
    unfolding admissible_def workload_of_def o check_payloads_iff[OF o(5)] check_deadline_None check_units_None
    by (auto simp: check_tenant_def split: if_splits)
  finally show ?thesis .
qed

lemma Admit_result:
  assumes "Admit schema now (Some doc) tenant fleet = Inr a"
  shows "am_Doc a = doc \<and> get (obj_or doc ''metadata'') ''tenant'' = Some (JStr (am_Tenant a)) \<and>
    get (obj_or doc ''metadata'') ''name'' = Some (JStr (am_Name a)) \<and>
    (\<forall>(kind, field) \<in> modalities. get (workload_of doc) ''kind'' = Some (JStr kind) \<longrightarrow>
       (am_Warnings a = [] \<longleftrightarrow> format_of doc field = [] \<or> format_of doc field \<in> set (fl_ProgramFormats fleet)))"
proof -
  from assms obtain m s n t w k where
    g: "get_obj doc ''metadata'' = Some m" "get_obj doc ''spec'' = Some s"
      "get_str m ''name'' = Some n" "get_str m ''tenant'' = Some t" "get_obj s ''workload'' = Some w" "get_str w ''kind'' = Some k"
    and a: "a = \<lparr>am_Tenant = t, am_Name = n, am_Doc = doc, am_Warnings = format_warnings fleet
       (programFormat w (case map_of payloadFieldForKind k of Some f \<Rightarrow> f | None \<Rightarrow> []))\<rparr>"
    by (auto simp: Admit_def Let_def split: option.splits if_splits)
  have o: "obj_or doc ''metadata'' = m" "workload_of doc = w" "get m ''tenant'' = Some (JStr t)" "get m ''name'' = Some (JStr n)"
    using g by (auto simp: obj_or_def workload_of_def get_defs split: option.splits json.splits)
  have "am_Warnings a = [] \<longleftrightarrow> format_of doc field = [] \<or> format_of doc field \<in> set (fl_ProgramFormats fleet)"
    if m: "(kind, field) \<in> modalities" "get (workload_of doc) ''kind'' = Some (JStr kind)" for kind field
  proof -
    have "k = kind" using g(6) m(2) o(2) by (auto simp: get_defs split: option.splits json.splits)
    with programFormat_of[OF m(1), of doc] o(2) a show ?thesis by (auto simp: format_warnings_def)
  qed
  with a o show ?thesis by auto
qed

text \<open>C36: Admission decides the specification. A document whose required members have the types the schema gives
  them is admitted exactly if it conforms to the schema and is admissible: the client sets no status, the tenant of
  the request is the document's, no payload but the one of its own kind is present, a deadline is a valid timestamp
  later than now, and every budget unit is one of the specification's or of the fleet's. What is admitted carries the
  document's own tenant and name and the unchanged document, and a warning exactly if no registered target takes the
  format of the program.\<close>

theorem admission_decides_the_specification:
  assumes "schema doc \<longrightarrow> conforms_shape doc"
  shows "((\<exists>a. Admit schema now (Some doc) tenant fleet = Inr a) \<longleftrightarrow> schema doc \<and> admissible now doc tenant fleet) \<and>
    (\<forall>a. Admit schema now (Some doc) tenant fleet = Inr a \<longrightarrow> am_Doc a = doc \<and>
       get (obj_or doc ''metadata'') ''tenant'' = Some (JStr (am_Tenant a)) \<and>
       get (obj_or doc ''metadata'') ''name'' = Some (JStr (am_Name a)) \<and>
       (\<forall>(kind, field) \<in> modalities. get (workload_of doc) ''kind'' = Some (JStr kind) \<longrightarrow>
          (am_Warnings a = [] \<longleftrightarrow> format_of doc field = [] \<or> format_of doc field \<in> set (fl_ProgramFormats fleet))))"
proof (intro conjI)
  show "(\<exists>a. Admit schema now (Some doc) tenant fleet = Inr a) \<longleftrightarrow> schema doc \<and> admissible now doc tenant fleet"
  proof (cases "schema doc")
    case True
    with assms Admit_iff show ?thesis by blast
  qed (auto simp: Admit_def split: if_splits)
qed (use Admit_result in blast)

text \<open>The Bell job of the examples, with a deadline and a budget.\<close>

definition bell_doc :: obj where
  "bell_doc = [(''apiVersion'', JStr ''tangle.dev/v1alpha1''), (''kind'', JStr ''QuantumJob''),
     (''metadata'', JObj [(''name'', JStr ''bell''), (''tenant'', JStr ''acme/lab'')]),
     (''spec'', JObj [(''workload'', JObj [(''kind'', JStr ''gate-model''), (''gateModel'', JObj
          [(''program'', JObj [(''format'', JStr ''openqasm3''), (''inline'', JStr ''T1BFTlFBU00='')]), (''shots'', JNum 1000)])]),
        (''deadline'', JStr ''2026-01-01T00:00:00Z''), (''budget'', JObj [(''limits'', JObj [(''shots'', JNum 1000)])])])]"

definition demo_schema :: "obj \<Rightarrow> bool" where
  "demo_schema doc \<longleftrightarrow> get doc ''apiVersion'' = Some (JStr ''tangle.dev/v1alpha1'') \<and> get doc ''kind'' = Some (JStr ''QuantumJob'') \<and>
     conforms_shape doc"

theorem admission_decides_the_specification_witness:
  "admissible 1000 bell_doc ''acme/lab'' \<lparr>fl_ProgramFormats = [''openqasm3''], fl_BillingUnits = []\<rparr>"
proof -
  let ?f = "\<lparr>fl_ProgramFormats = [''openqasm3''], fl_BillingUnits = []\<rparr>"
  have "demo_schema bell_doc" by code_simp
  moreover have "(case Admit demo_schema 1000 (Some bell_doc) ''acme/lab'' ?f of Inr _ \<Rightarrow> True | Inl _ \<Rightarrow> False)" by code_simp
  then have "\<exists>a. Admit demo_schema 1000 (Some bell_doc) ''acme/lab'' ?f = Inr a" by (auto split: sum.splits)
  moreover have "demo_schema bell_doc \<longrightarrow> conforms_shape bell_doc" by (simp add: demo_schema_def)
  moreover note admission_decides_the_specification[where schema = demo_schema and doc = bell_doc, OF this, of 1000 "''acme/lab''" ?f]
  ultimately show ?thesis by blast
qed

section \<open>The program payload\<close>

lemma code_b64_char:
  "n < 64 \<Longrightarrow> code (b64_char n) =
    (if n < 26 then n + 65 else if n < 52 then n + 71 else if n < 62 then n - 4 else if n = 62 then 43 else 47)"
  by (auto simp: code_def b64_char_def)

lemma b64_char_val:
  assumes "n < 64"
  shows "b64_val (b64_char n) = Some n" "b64_char n \<noteq> CHR ''=''" "code (b64_char n) \<noteq> 10" "code (b64_char n) \<noteq> 13"
proof -
  show "b64_val (b64_char n) = Some n" using assms by (auto simp: b64_val_def code_b64_char Let_def)
  show "code (b64_char n) \<noteq> 10" "code (b64_char n) \<noteq> 13" using assms by (auto simp: code_b64_char)
  have "code (b64_char n) \<noteq> code (CHR ''='')" using assms unfolding code_b64_char[OF assms] by (auto simp: code_def)
  then show "b64_char n \<noteq> CHR ''=''" by auto
qed

lemma code_byte: "code c < 256" "char_of (code c) = c"
  by (simp_all add: code_def)

lemma six_bits:
  "code a div 4 < 64" "code a mod 4 * 16 + code b div 16 < 64" "code a mod 4 * 16 < 64"
  "code b mod 16 * 4 + code c div 64 < 64" "code b mod 16 * 4 < 64" "code c mod 64 < 64"
  using code_byte(1)[of a] code_byte(1)[of b] code_byte(1)[of c] by auto

lemma high_bits:
  "code b div 16 div 16 = 0" "code b div 16 mod 16 = code b div 16"
  "code c div 64 div 4 = 0" "code c div 64 mod 4 = code c div 64"
  using code_byte(1)[of b] code_byte(1)[of c] by auto

lemma b64_round: "b64_quanta (b64_Encode s) = Some s"
proof (induction s rule: b64_Encode.induct)
  case (2 a)
  show ?case by (simp add: b64_char_val six_bits code_byte)
next
  case (3 a b)
  show ?case by (simp add: b64_char_val six_bits code_byte high_bits)
next
  case (4 a b c r)
  then show ?case by (simp add: b64_char_val six_bits code_byte high_bits)
qed simp

lemma b64_no_newline: "filter (\<lambda>c. code c \<notin> {10, 13}) (b64_Encode s) = b64_Encode s"
proof (induction s rule: b64_Encode.induct)
  case (4 a b c r)
  then show ?case by (simp add: b64_char_val six_bits)
qed (simp_all add: b64_char_val six_bits code_def[of "CHR ''=''"])

lemma b64_Decode_Encode: "b64_DecodeString (b64_Encode s) = Some s"
  unfolding b64_DecodeString_def b64_no_newline by (rule b64_round)

lemma payloadFor_inline:
  assumes "(kind, field) \<in> modalities" and "get doc ''spec'' = Some (JObj s)" and "get s ''workload'' = Some (JObj w)"
    and "get w ''kind'' = Some (JStr kind)" and "get w field = Some (JObj m)" and "get m ''program'' = Some (JObj pr)"
    and "get pr ''source'' = None" and "get pr ''inline'' = Some (JStr (b64_Encode raw))" and "get pr ''format'' = Some (JStr fmt)"
    and "get m ''shots'' = Some (JNum (of_nat n)) \<or> get m ''shots'' = None \<and> n = 0" and "n < 18446744073709551616"
  shows "payloadFor env doc = Inr (\<lparr>pl_Format = fmt, pl_Inline = raw\<rparr>, n)"
proof -
  have "payloadField_exec kind = field" using assms(1) by (auto simp: modalities_def payloadField_exec_def)
  moreover have "(case get_num m ''shots'' of Some x \<Rightarrow> to_uint64 x | None \<Rightarrow> 0) = n"
    using assms(10,11) by (auto simp: get_defs to_uint_of_nat)
  ultimately show ?thesis
    using assms(2-9) by (simp add: payloadFor_def Let_def b64_Decode_Encode get_defs str_or_def)
qed

lemma enter_submitted_scheduled:
  assumes "phase_of d (jr_JobID rec) = Some Scheduled"
  shows "\<exists>d'. enter_submitted now rec t a d = (d', Following rec a) \<and> phase_of d' (jr_JobID rec) = Some Submitted"
proof -
  let ?d1 = "fst (UpdateTask now t a ''QUEUED'' None None d)"
  have p: "phase_of ?d1 (jr_JobID rec) = Some Scheduled" using assms by simp
  then show ?thesis
    by (cases rule: TransitionJob_cases[of ?d1 "jr_JobID rec" now Submitted None])
      (auto simp: enter_submitted_def Let_def phase_of_write_job CanTransition_to)
qed

text \<open>C37: The submitted program reaches its adapter unchanged. For a scheduled job of any of the five kinds whose document
  inlines the program, as any bytes whatever in base64, the executor sends the site of the job's target one request
  with exactly these bytes, the document's format and shots (0 for a payload without them), the target's id, the task
  id as idempotency key, the job's tenant and its session. If the adapter accepts that request the job is submitted
  and its task followed; if it refuses it the job fails.\<close>

theorem program_survives_transport:
  assumes "(kind, field) \<in> modalities" and "get (jr_Doc rec) ''spec'' = Some (JObj s)" and "get s ''workload'' = Some (JObj w)"
    and "get w ''kind'' = Some (JStr kind)" and "get w field = Some (JObj m)" and "get m ''program'' = Some (JObj pr)"
    and "get pr ''source'' = None" and "get pr ''inline'' = Some (JStr (b64_Encode raw))" and "get pr ''format'' = Some (JStr fmt)"
    and "get m ''shots'' = Some (JNum (of_nat n)) \<or> get m ''shots'' = None \<and> n = 0" and "n < 18446744073709551616"
    and "CHR ''/'' \<notin> set site" and "ee_client env site = Some client" and "\<not> ee_shutdown env"
    and "phase_of d (jr_JobID rec) = Some Scheduled"
    and "sessionForExecution env now sid rec taskID (site @ ''/'' @ tid) d = (d1, Some sess)"
    and "answer = ad_SubmitTask client \<lparr>sr_TargetId = tid, sr_IdempotencyKey = taskID, sr_Payload = \<lparr>pl_Format = fmt, pl_Inline = raw\<rparr>,
       sr_Shots = n, sr_SessionId = sess, sr_TenantHint = jr_Tenant rec\<rparr>"
    and "execute env now sid rec taskID (site @ ''/'' @ tid) d = (d', outcome)"
  shows "(\<forall>a. answer = Inr a \<longrightarrow> outcome = Following rec a \<and> phase_of d' (jr_JobID rec) = Some Submitted) \<and>
    (\<forall>e. answer = Inl e \<longrightarrow> outcome = Stopped \<and> phase_of d' (jr_JobID rec) = Some Failed)"
proof -
  note pf = payloadFor_inline[OF assms(1-11)]
  have ph: "phase_of d1 (jr_JobID rec) = Some Scheduled"
    using session_phase[OF assms(15) _ assms(16)] by (simp add: active_def)
  have "execute env now sid rec taskID (site @ ''/'' @ tid) d =
      submit_task env client now rec taskID (site @ ''/'' @ tid) (\<lparr>pl_Format = fmt, pl_Inline = raw\<rparr>, n) sess d1"
    using assms(13,16) pf by (simp add: execute_def Let_def cut_target_join[OF assms(12)])
  then have "(d', outcome) = (case answer of
        Inl e \<Rightarrow> (failJob now (jr_JobID rec) taskID (site @ ''/'' @ tid) (vendor_error ''VENDOR_ERROR'' (''SubmitTask: '' @ e)) d1, Stopped)
      | Inr a \<Rightarrow> enter_submitted now rec taskID a d1)"
    using assms(14,17,18) by (auto simp: submit_task_def cut_target_join[OF assms(12)] split: sum.splits)
  note eq = this
  show ?thesis
  proof (cases answer)
    case (Inl e)
    with eq have "d' = failJob now (jr_JobID rec) taskID (site @ ''/'' @ tid) (vendor_error ''VENDOR_ERROR'' (''SubmitTask: '' @ e)) d1"
      "outcome = Stopped" by simp_all
    with failJob_active[OF ph] Inl show ?thesis by (simp add: active_def)
  next
    case (Inr a)
    from eq Inr have "(d', outcome) = enter_submitted now rec taskID a d1" by simp
    with enter_submitted_scheduled[OF ph, of now taskID a] Inr show ?thesis by auto
  qed
qed

text \<open>An adapter that accepts nothing but the expected request.\<close>

definition picky_adapter :: adapter where
  "picky_adapter = \<lparr>ad_OpenSession = (\<lambda>_ _ _. Inl []), ad_SubmitTask = (\<lambda>r. if sr_TargetId r = ''dev1'' \<and> sr_IdempotencyKey r = ''t1'' \<and>
     pl_Format (sr_Payload r) = ''openqasm3'' \<and> pl_Inline (sr_Payload r) = ''OPENQASM'' \<and> sr_Shots r = 1000 then Inr ''v1'' else Inl ''refused'')\<rparr>"

theorem program_survives_transport_witness:
  "snd (execute (demo_env\<lparr>ee_client := (\<lambda>_. Some picky_adapter)\<rparr>) 3 ''s'' ((demo_job ''j1'')\<lparr>jr_Doc := bell_doc\<rparr>) ''t1'' ''siteA/dev1'' demo_bound) =
     Following ((demo_job ''j1'')\<lparr>jr_Doc := bell_doc\<rparr>) ''v1''"
proof -
  let ?env = "demo_env\<lparr>ee_client := (\<lambda>_. Some picky_adapter)\<rparr>" and ?rec = "(demo_job ''j1'')\<lparr>jr_Doc := bell_doc\<rparr>"
  have m: "(''gate-model'', ''gateModel'') \<in> modalities" by (simp add: modalities_def)
  have ph: "phase_of demo_bound (jr_JobID ?rec) = Some Scheduled" by code_simp
  have inline: "get [(''format'', JStr ''openqasm3''), (''inline'', JStr ''T1BFTlFBU00='')] ''inline'' = Some (JStr (b64_Encode ''OPENQASM''))"
    by code_simp
  have "snd (sessionForExecution ?env 3 ''s'' ?rec ''t1'' ''siteA/dev1'' demo_bound) = Some []" by code_simp
  then obtain d1 where se: "sessionForExecution ?env 3 ''s'' ?rec ''t1'' (''siteA'' @ ''/'' @ ''dev1'') demo_bound = (d1, Some [])"
    by (metis append_Cons append_Nil prod.collapse)
  obtain d' out where ex: "execute ?env 3 ''s'' ?rec ''t1'' (''siteA'' @ ''/'' @ ''dev1'') demo_bound = (d', out)" by force
  have sub: "ad_SubmitTask picky_adapter \<lparr>sr_TargetId = ''dev1'', sr_IdempotencyKey = ''t1'', sr_Payload = \<lparr>pl_Format = ''openqasm3'', pl_Inline = ''OPENQASM''\<rparr>,
       sr_Shots = 1000, sr_SessionId = [], sr_TenantHint = jr_Tenant ?rec\<rparr> = Inr ''v1''" by (simp add: picky_adapter_def)
  from program_survives_transport[OF m _ _ _ _ _ _ inline, where rec = ?rec and env = ?env and n = 1000 and fmt = "''openqasm3''",
      OF _ _ _ _ _ _ _ _ _ _ _ _ ph se refl ex] sub ex
  show ?thesis by (simp add: bell_doc_def get_def demo_env_def)
qed

section \<open>Leader election\<close>


definition demo_elector :: Elector where
  "demo_elector = \<lparr>el_key = DefaultLockKey, el_interval = 1000000000, el_conn = 0, el_is = True\<rparr>"

definition demo_server :: lock_server where
  "demo_server = \<lparr>ls_holder = (\<lambda>_. None)(DefaultLockKey := Some (0, 1)), ls_live = (\<lambda>_. False)(0 := True), ls_next = 1\<rparr>"

lemma demo_cluster: "ha_step\<^sup>*\<^sup>* (empty_server, []) (demo_server, [demo_elector])"
proof -
  let ?e = "demo_elector\<lparr>el_is := False\<rparr>" and ?s = "demo_server\<lparr>ls_holder := (\<lambda>_. None)\<rparr>"
  have j: "ha_step (empty_server, []) (?s, [?e])"
    using join[of True 0 0 empty_server ?s ?e "[]"]
    by (simp add: NewElector_def empty_server_def demo_server_def demo_elector_def)
  have "Campaign_tick Answered ?s ?e = (demo_server, demo_elector)"
    by (simp add: Campaign_tick_def IsLeader_def tryAcquire_def pg_try_advisory_lock_def el_set_def demo_server_def demo_elector_def)
  then have "ha_step (?s, [?e]) (demo_server, [demo_elector])" using tick[of 0 "[?e]" Answered ?s demo_server demo_elector] by simp
  with j show ?thesis by (rule converse_rtranclp_into_rtranclp[OF _ r_into_rtranclp])
qed


text \<open>C34: A replica that lost its session never leads again. Once the database session of an elector has ended
  and the elector noticed, it stays a follower along every run: \<open>Campaign\<close> retries on the dead connection
  and never opens a new one.\<close>

theorem dropped_elector_never_leads_again:
  assumes "s < ls_next srv" and "\<not> ls_live srv s" and "\<forall>e \<in> set es. el_conn e = s \<longrightarrow> \<not> IsLeader e"
    and "ha_step\<^sup>*\<^sup>* (srv, es) (srv', es')"
  shows "\<forall>e \<in> set es'. el_conn e = s \<longrightarrow> \<not> IsLeader e"
  using retirement.run[OF assms(4), of s] assms(1-3) by (simp add: retired_def IsLeader_def)

theorem dropped_elector_never_leads_again_witness:
  "\<not> IsLeader (snd (Campaign_tick Answered (end_session 0 demo_server) (demo_elector\<lparr>el_is := False\<rparr>)))"
proof -
  let ?srv = "end_session 0 demo_server" and ?e = "demo_elector\<lparr>el_is := False\<rparr>"
  obtain srv' e' where t: "Campaign_tick Answered ?srv ?e = (srv', e')" by force
  then have "ha_step\<^sup>*\<^sup>* (?srv, [?e]) (srv', [e'])" using tick[of 0 "[?e]" Answered ?srv srv' e'] by auto
  from dropped_elector_never_leads_again[OF _ _ _ this, of 0] t tick_effect[OF t] show ?thesis
    by (simp add: end_session_def demo_server_def demo_elector_def IsLeader_def el_set_def Campaign_tick_def tryAcquire_def)
qed

section \<open>Promotion, probes, billing and the benchmark gate\<close>

text \<open>A shadow policy that was never better than the active one on the paired fidelity proxy is not
  promotable, whatever the bootstrap draws: the generator is only required to return an index below the
  bound it is given.\<close>

theorem never_better_never_promoted:
  assumes "\<forall>seed b i n. 0 < n \<longrightarrow> rng seed b i n < n"
    and "\<forall>p \<in> set placements. \<forall>a s. sp_ActiveESP p = Some a \<and> sp_ShadowESP p = Some s \<longrightarrow> s \<le> a"
  shows "\<not> fst (Promotable (Analyze rng placements qf))"
  using worse_not_promotable[of rng placements qf] assms by (simp add: rng_ok_def)

theorem never_better_never_promoted_witness:
  "\<not> fst (Promotable (Analyze (\<lambda>seed b i n. i mod n) [\<lparr>sp_At = 0, sp_JobID = ''j1'', sp_Tenant = [], sp_Policy = ''p'', sp_ActivePolicy = ''q'',
     sp_ActiveTarget = [], sp_ShadowTarget = [], sp_Agreed = False, sp_ActiveESP = Some 1, sp_ShadowESP = Some (1 / 2),
     sp_ActiveWait = None, sp_ShadowWait = None\<rparr>] 0))"
  by (rule never_better_never_promoted) simp_all

text \<open>Probing is sound: harvesting a reachable database never records a probe job twice, and the fidelity it
  records for a histogram of non-negative counts lies between 0 and 1.\<close>

theorem harvest_once_with_fidelity_in_range:
  assumes "reachable d" and "distinct (map pb_JobID rows)"
  shows "distinct (map pb_JobID (Harvest now d rows)) \<and>
    (\<forall>st counts target f p. analyze st = (target, f, p) \<and> target \<noteq> [] \<and>
       counts = obj_or (obj_or (obj_or (as_obj (hd (arr_or st ''tasks''))) ''result'') ''data'') ''counts'' \<and>
       distinct (map fst counts) \<and> (\<forall>(k, v) \<in> set counts. 0 \<le> as_num v) \<longrightarrow> 0 \<le> f \<and> f \<le> 1)"
proof (intro conjI allI impI)
  show "distinct (map pb_JobID (Harvest now d rows))"
    using Harvest_fresh[of d rows now] assms reachable_inv[OF assms(1)] by (simp add: store_inv_def jobs_ok_def)
  fix st counts target f p
  assume a: "analyze st = (target, f, p) \<and> target \<noteq> [] \<and>
       counts = obj_or (obj_or (obj_or (as_obj (hd (arr_or st ''tasks''))) ''result'') ''data'') ''counts'' \<and>
       distinct (map fst counts) \<and> (\<forall>(k, v) \<in> set counts. 0 \<le> as_num v)"
  then have f: "f = 1 - tvd counts" and nz: "sum_list (map (as_num \<circ> snd) counts) \<noteq> 0"
    by (auto simp: analyze_def Let_def split: if_splits)
  have "0 \<le> sum_list (map (as_num \<circ> snd) counts)" using a by (intro sum_list_nonneg) fastforce
  with nz have "0 < sum_list (map (as_num \<circ> snd) counts)" by simp
  with tvd_range[of counts] a have "0 \<le> tvd counts" "tvd counts \<le> 1" by auto
  with f show "0 \<le> f" "f \<le> 1" by simp_all
qed

theorem harvest_once_with_fidelity_in_range_witness: "distinct (map pb_JobID (Harvest 9 demo_done []))"
  using harvest_once_with_fidelity_in_range[OF demo_reachable(4), of "[]" 9] by simp

text \<open>The cost export is reproducible: for the same ledger rows in any order and the same policy it is the
  same text, byte for byte, and under an accepted policy no usage is charged a negative rate.\<close>

theorem cost_export_is_reproducible:
  assumes "mset entries = mset entries'" and "distinct (map lg_ID entries)" and "ParsePolicy yaml = Inr p"
  shows "WriteCSV fmt (Normalize entries p) = WriteCSV fmt (Normalize entries' p) \<and>
    (\<forall>r \<in> set (Normalize entries p). 0 \<le> cr_Rate r \<and> cr_Cost r = cr_Amount r * cr_Rate r)"
proof -
  have rates: "check_rates (pl_Rates p) = None" using assms(3) by (auto simp: ParsePolicy_def split: sum.splits if_splits option.splits)
  have "0 \<le> cr_Rate r \<and> cr_Cost r = cr_Amount r * cr_Rate r" if "r \<in> set (Normalize entries p)" for r
    using that rate_in_nonneg[OF rates] by (auto simp: Normalize_def cost_of_def rateFor_def Let_def)
  with Normalize_perm[OF assms(1,2), of p] show ?thesis by simp
qed

definition demo_row :: "nat \<Rightarrow> ledger_row" where
  "demo_row n = \<lparr>lg_ID = n, lg_JobID = ''j1'', lg_TaskID = ''t1'', lg_Tenant = ''acme/lab'', lg_Target = ''siteA/dev1'',
     lg_Unit = ''shots'', lg_Amount = 100, lg_RecordedAt = 0\<rparr>"

definition demo_rates :: Policy where
  "demo_rates = \<lparr>pl_Version = ''v1'', pl_Currency = ''EUR'', pl_Rates = [\<lparr>rt_Unit = ''shots'', rt_Target = [], rt_Rate = 2\<rparr>]\<rparr>"

theorem cost_export_is_reproducible_witness:
  "\<exists>p. ParsePolicy (Inr demo_rates) = Inr p \<and>
    WriteCSV fmt_g4 (Normalize [demo_row 2, demo_row 1] p) = WriteCSV fmt_g4 (Normalize [demo_row 1, demo_row 2] p)"
proof -
  have "(case ParsePolicy (Inr demo_rates) of
     Inr _ \<Rightarrow> True | Inl _ \<Rightarrow> False)" by code_simp
  then obtain p where p: "ParsePolicy (Inr demo_rates) = Inr p"
    by (auto split: sum.splits)
  with cost_export_is_reproducible[OF _ _ p, of "[demo_row 2, demo_row 1]" "[demo_row 1, demo_row 2]" fmt_g4] show ?thesis
    by (auto simp: demo_row_def)
qed

text \<open>The benchmark gate is monotone and reflexive: metrics at least as good in every respect as passing ones
  pass, and a run never regresses against itself.\<close>

theorem gate_is_monotone:
  assumes "gate_Check baseline current threshold = []" and "bm_MeanFidelity current \<le> bm_MeanFidelity better"
    and "bm_DeadlineMetRate current \<le> bm_DeadlineMetRate better" and "bm_SLOViolationRate better \<le> bm_SLOViolationRate current"
    and "0 \<le> threshold" and "0 \<le> bm_MeanFidelity m" and "0 \<le> bm_DeadlineMetRate m" and "0 \<le> bm_SLOViolationRate m"
  shows "gate_Check baseline better threshold = [] \<and> gate_Check m m threshold = []"
  using gate_Check_mono[OF assms(1), of better] gate_Check_self[OF assms(5-)] assms(2-4) by (simp add: at_least_def)

definition demo_metrics :: "float64 \<Rightarrow> Metrics" where
  "demo_metrics f = \<lparr>bm_Policy = ''fifo/v0'', bm_MeanFidelity = f, bm_SLOViolationRate = 0, bm_DeadlineMetRate = 1, bm_MeanWaitS = 0\<rparr>"

theorem gate_is_monotone_witness: "gate_Check (demo_metrics (1 / 2)) (demo_metrics 1) (1 / 10) = []"
proof -
  have "gate_Check (demo_metrics (1 / 2)) (demo_metrics (1 / 2)) (1 / 10) = []"
    by (simp add: gate_Check_def demo_metrics_def slorRose_def)
  from gate_is_monotone[OF this, of "demo_metrics 1" "demo_metrics 1"] show ?thesis by (simp add: demo_metrics_def)
qed

end
