(* ===== verification/Operator.thy ===== *)
theory Operator
  imports Api_Jobs
begin

text \<open>
  The Kubernetes operator (\<open>operator/controller\<close>, \<open>operator/api/v1alpha1/types.go\<close>): one reconciliation
  of a QuantumJob resource against the control plane. The Kubernetes API server is an argument, the
  record \<open>kube\<close> over a cluster state \<open>'k\<close>; the control plane is the model of the jobs service behind
  its interceptor, and every call may be lost on the way there or back (\<open>delivery\<close>). The raw JSON of a
  resource's spec is represented by what \<open>json.Unmarshal\<close> makes of it.
\<close>

section \<open>The resource\<close>

definition TenantAnnotation :: string where
  "TenantAnnotation = ''tangle.dev/tenant''"

definition Finalizer :: string where
  "Finalizer = ''tangle.dev/job-finalizer''"

definition resyncEvery :: duration where
  "resyncEvery = 2000000000"

record QuantumJobStatus =
  qs_JobID :: string
  qs_Phase :: string
  qs_BoundTarget :: string
  qs_PlacementReason :: string
  qs_Message :: string
  qs_SyncedAt :: time

datatype raw_json = RawEmpty | RawMalformed string | RawJson json

record QuantumJob =
  qj_Namespace :: string
  qj_Name :: string
  qj_Annotations :: "(string \<times> string) list"
  qj_Labels :: "(string \<times> string) list"
  qj_Deleting :: bool
  qj_Finalizers :: "string list"
  qj_Spec :: raw_json
  qj_Status :: QuantumJobStatus

definition tenantFor :: "QuantumJob \<Rightarrow> string" where
  "tenantFor cr =
     (case map_of (qj_Annotations cr) TenantAnnotation of
        Some t \<Rightarrow> if t \<noteq> [] then t else qj_Namespace cr
      | None \<Rightarrow> qj_Namespace cr)"

text \<open>\<open>json.Unmarshal\<close> into a map: an object, or null for the nil map.\<close>

fun unmarshal_map :: "json \<Rightarrow> string + obj" where
  "unmarshal_map JNull = Inr []"
| "unmarshal_map (JObj o') = Inr o'"
| "unmarshal_map (JBool _) = Inl ''json: cannot unmarshal bool into Go value of type map[string]interface {}''"
| "unmarshal_map (JNum _) = Inl ''json: cannot unmarshal number into Go value of type map[string]interface {}''"
| "unmarshal_map (JStr _) = Inl ''json: cannot unmarshal string into Go value of type map[string]interface {}''"
| "unmarshal_map (JArr _) = Inl ''json: cannot unmarshal array into Go value of type map[string]interface {}''"

definition resource_meta :: "QuantumJob \<Rightarrow> obj" where
  "resource_meta cr =
     [(''name'', JStr (qj_Name cr)), (''tenant'', JStr (tenantFor cr))] @
     (if qj_Labels cr = [] then [] else [(''labels'', JObj (map (\<lambda>(k, v). (k, JStr v)) (qj_Labels cr)))])"

definition BuildDocument :: "QuantumJob \<Rightarrow> string + obj" where
  "BuildDocument cr =
     (case (case qj_Spec cr of
              RawEmpty \<Rightarrow> Inl ''spec is empty''
            | RawMalformed e \<Rightarrow> Inl (''spec is not an object: '' @ e)
            | RawJson v \<Rightarrow> (case unmarshal_map v of Inl e \<Rightarrow> Inl (''spec is not an object: '' @ e) | Inr o' \<Rightarrow> Inr o')) of
        Inl e \<Rightarrow> Inl e
      | Inr spec \<Rightarrow> Inr [(''apiVersion'', JStr ''tangle.dev/v1alpha1''), (''kind'', JStr ''QuantumJob''),
          (''metadata'', JObj (resource_meta cr)), (''spec'', JObj spec)])"

text \<open>\<open>Truncate(time.Second)\<close>.\<close>

definition truncate_second :: "time \<Rightarrow> time" where
  "truncate_second t = t - t mod 1000000000"

definition job_message :: "obj \<Rightarrow> string \<Rightarrow> string" where
  "job_message st old =
     (case get_arr st ''conditions'' of
        Some cs \<Rightarrow>
          if cs = [] then old
          else (case last cs of JObj c \<Rightarrow> str_or c ''message'' | _ \<Rightarrow> old)
      | None \<Rightarrow> old)"

definition applyJobStatus :: "time \<Rightarrow> QuantumJobStatus \<Rightarrow> job_proto \<Rightarrow> QuantumJobStatus" where
  "applyJobStatus now qs j =
     (let st = jp_Status j
      in qs\<lparr>qs_Phase := str_or st ''phase'', qs_BoundTarget := str_or st ''boundTarget'',
           qs_PlacementReason := (case get_obj st ''placement'' of
              Some pl \<Rightarrow> str_or pl ''reason'' | None \<Rightarrow> qs_PlacementReason qs),
           qs_Message := job_message st (qs_Message qs), qs_SyncedAt := truncate_second now\<rparr>)"

section \<open>The two servers\<close>

datatype kube_error = KubeNotFound | KubeConflict | KubeOther string

text \<open>The Kubernetes client: \<open>Get\<close>, \<open>Update\<close> and \<open>Status().Update\<close>. An update answers with the stored
  resource.\<close>

record 'k kube =
  kb_Get :: "string \<times> string \<Rightarrow> 'k \<Rightarrow> kube_error + QuantumJob"
  kb_Update :: "QuantumJob \<Rightarrow> 'k \<Rightarrow> 'k \<times> (kube_error + QuantumJob)"
  kb_StatusUpdate :: "QuantumJob \<Rightarrow> 'k \<Rightarrow> 'k \<times> (kube_error + QuantumJob)"

text \<open>How a call fares on the network: answered, lost before or lost after the server ran it.\<close>

datatype delivery = Delivered | RequestLost | ReplyLost

record RabiClient =
  rb_auth :: Authenticator
  rb_Token :: string
  rb_now :: time
  rb_schema :: "obj \<Rightarrow> bool"
  rb_fleet :: FleetView
  rb_uuid :: string
  rb_net :: "string \<Rightarrow> delivery"
  rb_text :: "api_error \<Rightarrow> string"

text \<open>\<open>ctx\<close>: the outgoing metadata of a call.\<close>

definition client_ctx :: "RabiClient \<Rightarrow> metadata" where
  "client_ctx c = Some (\<lambda>k. if k = authHeader then [''Bearer '' @ rb_Token c] else [])"

definition unavailable :: api_error where
  "unavailable = (Unavailable, Message ''transport is closing'')"

definition rpc :: "RabiClient \<Rightarrow> string \<Rightarrow> (ctx \<Rightarrow> db \<Rightarrow> db \<times> (api_error + 'r)) \<Rightarrow> db \<Rightarrow> db \<times> (api_error + 'r)" where
  "rpc c m handler d =
     (let call = UnaryAuthInterceptor (rb_auth c) (rb_now c) (client_ctx c) (''/tangle.api.v1alpha1.JobsService/'' @ m) handler d
      in case rb_net c m of
           RequestLost \<Rightarrow> (d, Inl unavailable)
         | ReplyLost \<Rightarrow> (fst call, Inl unavailable)
         | Delivered \<Rightarrow> call)"

definition rabi_SubmitJob :: "RabiClient \<Rightarrow> submit_job_request \<Rightarrow> db \<Rightarrow> db \<times> (api_error + job_proto)" where
  "rabi_SubmitJob c req =
     rpc c ''SubmitJob'' (SubmitJob (rb_schema c) (rb_fleet c) (rb_now c) (rb_now c) (rb_now c) (rb_uuid c) req)"

definition rabi_ListJobs :: "RabiClient \<Rightarrow> list_jobs_request \<Rightarrow> db \<Rightarrow> db \<times> (api_error + list_jobs_response)" where
  "rabi_ListJobs c req = rpc c ''ListJobs'' (api_ListJobs req)"

definition rabi_GetJob :: "RabiClient \<Rightarrow> string \<Rightarrow> db \<Rightarrow> db \<times> (api_error + job_proto)" where
  "rabi_GetJob c i = rpc c ''GetJob'' (api_GetJob i)"

definition rabi_CancelJob :: "RabiClient \<Rightarrow> string \<Rightarrow> db \<Rightarrow> db \<times> (api_error + job_proto)" where
  "rabi_CancelJob c i = rpc c ''CancelJob'' (CancelJob (rb_now c) i)"

section \<open>The reconciler\<close>

datatype reconcile_error =
    GetFailed kube_error
  | CancelFailed api_error
  | UpdateFailed kube_error
  | SubmitFailed api_error
  | FetchFailed api_error

text \<open>A reconciliation yields an error or \<open>RequeueAfter\<close> (\<open>None\<close> for the empty result).\<close>

type_synonym 'k reconciled = "('k \<times> db) \<times> (reconcile_error + duration option)"

definition with_status :: "QuantumJob \<Rightarrow> QuantumJobStatus \<Rightarrow> QuantumJob" where
  "with_status cr qs = cr\<lparr>qj_Status := qs\<rparr>"

definition markMessage :: "'k kube \<Rightarrow> RabiClient \<Rightarrow> QuantumJob \<Rightarrow> string \<Rightarrow> 'k \<times> db \<Rightarrow> 'k reconciled" where
  "markMessage kb c cr message w =
     (case kb_StatusUpdate kb (with_status cr ((qj_Status cr)\<lparr>qs_Message := message, qs_SyncedAt := rb_now c\<rparr>)) (fst w) of
        (k1, Inl e) \<Rightarrow> ((k1, snd w), Inl (UpdateFailed e))
      | (k1, Inr _) \<Rightarrow> ((k1, snd w), Inr None))"

fun first_named :: "string \<Rightarrow> job_proto list \<Rightarrow> string" where
  "first_named name [] = []"
| "first_named name (j # js) =
     (case get_obj (jp_QuantumJob j) ''metadata'' of
        Some meta \<Rightarrow> if get meta ''name'' = Some (JStr name) then jp_JobId j else first_named name js
      | None \<Rightarrow> first_named name js)"

definition adopt :: "RabiClient \<Rightarrow> string \<Rightarrow> string \<Rightarrow> db \<Rightarrow> db \<times> string" where
  "adopt c tenant name d =
     (case rabi_ListJobs c \<lparr>lj_Tenant = tenant, lj_PhaseFilter = [], lj_PageSize = 200, lj_PageToken = []\<rparr> d of
        (d1, Inl _) \<Rightarrow> (d1, [])
      | (d1, Inr resp) \<Rightarrow> (d1, first_named name (lr_Jobs resp)))"

definition submit_document :: "'k kube \<Rightarrow> RabiClient \<Rightarrow> QuantumJob \<Rightarrow> 'k \<times> db \<Rightarrow> 'k reconciled" where
  "submit_document kb c cr w =
     (case BuildDocument cr of
        Inl e \<Rightarrow> markMessage kb c cr (''InvalidSpec: '' @ e) w
      | Inr doc \<Rightarrow>
          (case rabi_SubmitJob c \<lparr>sj_QuantumJob = Some doc, sj_Tenant = tenantFor cr, sj_DryRun = False\<rparr> (snd w) of
             (d1, Inl e) \<Rightarrow>
               if fst e = InvalidArgument
               then markMessage kb c cr (''AdmissionRejected: '' @ rb_text c e) (fst w, d1)
               else ((fst w, d1), Inl (SubmitFailed e))
           | (d1, Inr job) \<Rightarrow>
               (case kb_StatusUpdate kb (with_status cr
                       (applyJobStatus (rb_now c) ((qj_Status cr)\<lparr>qs_JobID := jp_JobId job\<rparr>) job)) (fst w) of
                  (k1, Inl e) \<Rightarrow> ((k1, d1), Inl (UpdateFailed e))
                | (k1, Inr _) \<Rightarrow> ((k1, d1), Inr (Some resyncEvery)))))"

definition operator_submit :: "'k kube \<Rightarrow> RabiClient \<Rightarrow> QuantumJob \<Rightarrow> 'k \<times> db \<Rightarrow> 'k reconciled" where
  "operator_submit kb c cr w =
     (let (d1, adopted) = adopt c (tenantFor cr) (qj_Name cr) (snd w)
      in if adopted \<noteq> []
         then (case kb_StatusUpdate kb (with_status cr ((qj_Status cr)\<lparr>qs_JobID := adopted\<rparr>)) (fst w) of
                 (k1, Inl e) \<Rightarrow> ((k1, d1), Inl (UpdateFailed e))
               | (k1, Inr _) \<Rightarrow> ((k1, d1), Inr (Some resyncEvery)))
         else submit_document kb c cr (fst w, d1))"

definition polling_result :: "string \<Rightarrow> duration option" where
  "polling_result phase = (if phase \<in> {''SUCCEEDED'', ''FAILED'', ''CANCELLED''} then None else Some resyncEvery)"

definition sync :: "'k kube \<Rightarrow> RabiClient \<Rightarrow> QuantumJob \<Rightarrow> 'k \<times> db \<Rightarrow> 'k reconciled" where
  "sync kb c cr w =
     (case rabi_GetJob c (qs_JobID (qj_Status cr)) (snd w) of
        (d1, Inl e) \<Rightarrow>
          if fst e = NotFound
          then markMessage kb c cr (''JobLost: control plane no longer knows job '' @ qs_JobID (qj_Status cr)) (fst w, d1)
          else ((fst w, d1), Inl (FetchFailed e))
      | (d1, Inr job) \<Rightarrow>
          (let qs = applyJobStatus (rb_now c) (qj_Status cr) job
           in if qs = qj_Status cr then ((fst w, d1), Inr (polling_result (qs_Phase qs)))
              else (case kb_StatusUpdate kb (with_status cr qs) (fst w) of
                      (k1, Inl e) \<Rightarrow> ((k1, d1), if e = KubeConflict then Inr (Some resyncEvery) else Inl (UpdateFailed e))
                    | (k1, Inr cr') \<Rightarrow> ((k1, d1), Inr (polling_result (qs_Phase (qj_Status cr')))))))"

definition release_finalizer :: "'k kube \<Rightarrow> QuantumJob \<Rightarrow> 'k \<times> db \<Rightarrow> 'k reconciled" where
  "release_finalizer kb cr w =
     (case kb_Update kb (cr\<lparr>qj_Finalizers := removeAll Finalizer (qj_Finalizers cr)\<rparr>) (fst w) of
        (k1, Inl e) \<Rightarrow> ((k1, snd w), Inl (UpdateFailed e))
      | (k1, Inr _) \<Rightarrow> ((k1, snd w), Inr None))"

definition reconcile_deleted :: "'k kube \<Rightarrow> RabiClient \<Rightarrow> QuantumJob \<Rightarrow> 'k \<times> db \<Rightarrow> 'k reconciled" where
  "reconcile_deleted kb c cr w =
     (if Finalizer \<notin> set (qj_Finalizers cr) then (w, Inr None)
      else if qs_JobID (qj_Status cr) = [] then release_finalizer kb cr w
      else
        (case rabi_CancelJob c (qs_JobID (qj_Status cr)) (snd w) of
           (d1, Inl e) \<Rightarrow>
             if fst e \<noteq> FailedPrecondition \<and> fst e \<noteq> NotFound then ((fst w, d1), Inl (CancelFailed e))
             else release_finalizer kb cr (fst w, d1)
         | (d1, Inr _) \<Rightarrow> release_finalizer kb cr (fst w, d1)))"

definition reconcile_live :: "'k kube \<Rightarrow> RabiClient \<Rightarrow> QuantumJob \<Rightarrow> 'k \<times> db \<Rightarrow> 'k reconciled" where
  "reconcile_live kb c cr w =
     (if qs_JobID (qj_Status cr) = [] then operator_submit kb c cr w else sync kb c cr w)"

definition Reconcile :: "'k kube \<Rightarrow> RabiClient \<Rightarrow> string \<times> string \<Rightarrow> 'k \<times> db \<Rightarrow> 'k reconciled" where
  "Reconcile kb c key w =
     (case kb_Get kb key (fst w) of
        Inl e \<Rightarrow> (w, if e = KubeNotFound then Inr None else Inl (GetFailed e))
      | Inr cr \<Rightarrow>
          if qj_Deleting cr then reconcile_deleted kb c cr w
          else if Finalizer \<notin> set (qj_Finalizers cr)
          then (case kb_Update kb (cr\<lparr>qj_Finalizers := qj_Finalizers cr @ [Finalizer]\<rparr>) (fst w) of
                  (k1, Inl e) \<Rightarrow> ((k1, snd w), Inl (UpdateFailed e))
                | (k1, Inr cr') \<Rightarrow> reconcile_live kb c cr' (k1, snd w))
          else reconcile_live kb c cr w)"

end
