(* ===== verification/Operator_Properties.thy ===== *)
theory Operator_Properties
  imports Operator Api_Properties
begin

text \<open>
  The operator composed with the control plane: a resource is submitted at most once however its
  reconciliations are cut short, its document arrives verbatim, its job is finished before its finalizer
  is released, and the mirrored status is the one the control plane answers.
\<close>

section \<open>Calls of the client\<close>

lemma touched_only_core:
  assumes "touched_only d d'"
  shows "jobs d' = jobs d" "job_ids d' = job_ids d" "phase_of d' i = phase_of d i" "GetJob d' i = GetJob d i"
    "ListJobs d' t ph n m = ListJobs d t ph n m"
  using assms by (auto simp: touched_only_def job_ids_def phase_of_def GetJob_def ListJobs_def)

lemma check_code: "check a now md m d = (d', Inl err) \<Longrightarrow> fst err \<in> {Unauthenticated, PermissionDenied, Internal}"
  using Authenticate_code[of a now md d] Authorize_code[of _ m "fst err" "snd err"]
  by (auto simp: check_def split: prod.splits sum.splits option.splits)

lemma rpc_cases:
  obtains (failed) d' e where "rpc c m h d = (d', Inl e)" "touched_only d d'"
      "fst e \<in> {Unauthenticated, PermissionDenied, Internal, Unavailable}"
  | (served) d1 p where "touched_only d d1" "fst (rpc c m h d) = fst (h (Some p) d1)"
      "snd (rpc c m h d) = snd (h (Some p) d1) \<or> snd (rpc c m h d) = Inl unavailable"
proof -
  let ?m = "''/tangle.api.v1alpha1.JobsService/'' @ m"
  obtain d1 r where chk: "check (rb_auth c) (rb_now c) (client_ctx c) ?m d = (d1, r)" by force
  have tch: "touched_only d d1" using touched_check[of d "rb_auth c" "rb_now c" "client_ctx c" ?m] chk by simp
  show ?thesis
  proof (cases "rb_net c m = RequestLost")
    case True
    then show ?thesis using failed[of d unavailable] touched_only_refl by (simp add: rpc_def unavailable_def)
  next
    case sent: False
    show ?thesis
    proof (cases r)
      case (Inl err)
      with chk check_code have "fst err \<in> {Unauthenticated, PermissionDenied, Internal}" by blast
      then show ?thesis using failed[of d1] tch chk Inl sent
        by (cases "rb_net c m") (auto simp: rpc_def UnaryAuthInterceptor_def as_api_def unavailable_def)
    next
      case (Inr x)
      from api.gate_granted[of "(rb_auth c, rb_now c, client_ctx c)" ?m d d1 x] chk Inr obtain p where x: "x = Some p" by auto
      have "UnaryAuthInterceptor (rb_auth c) (rb_now c) (client_ctx c) ?m h d = h (Some p) d1"
        using chk Inr x by (simp add: UnaryAuthInterceptor_def)
      then show ?thesis using served[of d1 p] tch sent by (cases "rb_net c m") (auto simp: rpc_def Let_def)
    qed
  qed
qed

section \<open>Jobs by project and name\<close>

definition doc_name :: "obj \<Rightarrow> string option" where
  "doc_name doc = (case get_obj doc ''metadata'' of
      Some meta \<Rightarrow> (case get meta ''name'' of Some (JStr s) \<Rightarrow> Some s | _ \<Rightarrow> None) | None \<Rightarrow> None)"

definition job_docs :: "db \<Rightarrow> (string \<times> string \<times> obj) list" where
  "job_docs d = map (\<lambda>r. (jr_JobID r, jr_Tenant r, jr_Doc r)) (jobs d)"

definition named :: "db \<Rightarrow> string \<Rightarrow> string \<Rightarrow> nat" where
  "named d t n = length (filter (\<lambda>(i, t', doc). t' = t \<and> doc_name doc = Some n) (job_docs d))"

lemma job_docs_touched: "touched_only d d' \<Longrightarrow> job_docs d' = job_docs d"
  by (simp add: job_docs_def touched_only_core)

lemma job_docs_CancelJob [simp]: "job_docs (fst (CancelJob now i x d)) = job_docs d"
proof -
  have "job_docs (fst (TransitionJob now i dst mu d)) = job_docs d" for dst mu
    by (cases rule: TransitionJob_cases[of d i now dst mu])
      (auto simp: job_docs_def add_event_def write_job_def tbl_update_def)
  then show ?thesis by (cases rule: CancelJob_cases[of now i x d]) simp_all
qed

lemma Admit_doc:
  assumes "Admit schema now (Some doc) t fleet = Inr adm"
  shows "am_Doc adm = doc" "doc_name doc = Some (am_Name adm)" "get doc ''metadata'' = Some (JObj m) \<Longrightarrow> get_str m ''tenant'' = Some (am_Tenant adm)"
  using assms
  by (auto simp: Admit_def doc_name_def get_str_def get_obj_def Let_def split: if_splits option.splits json.splits sum.splits)

lemma job_docs_SubmitJob:
  assumes "sj_QuantumJob req = Some doc" and "get_obj doc ''metadata'' = Some meta" and "get_str meta ''tenant'' = Some t"
  shows "job_docs (fst (SubmitJob schema fleet tA tP tI uuid req x d)) \<in> {job_docs d, job_docs d @ [(uuid, t, doc)]}"
proof (cases rule: SubmitJob_cases[of schema fleet tA tP tI uuid req x d])
  case (project e)
  then show ?thesis by (simp add: job_docs_def)
next
  case (ok doc' adm d1 d2 proj)
  have [simp]: "doc' = doc" using ok(1) assms(1) by simp
  have "get doc ''metadata'' = Some (JObj meta)" using assms(2) by (auto simp: get_obj_def split: option.splits json.splits)
  from Admit_doc(3)[OF ok(3)[simplified] this] have t: "am_Tenant adm = t" using assms(3) by simp
  have d1: "jobs d1 = jobs d" using frame_EnsureProject(1)[of tP "am_Tenant adm" d] ok(5) by simp
  note ins = InsertJobWithQuota_ok[OF ok(7)]
  show ?thesis
    using ok(8) Admit_doc(1)[OF ok(3)[simplified]] t d1
    by (cases rule: insertJobTx_cases[of "new_job uuid adm (map (\<lambda>w. JObj (conditionToMap w)) (am_Warnings adm))" d1 tI])
      (use ins(2) in \<open>auto simp: job_docs_def new_job_def\<close>)
qed simp_all

section \<open>Adoption\<close>

abbreviation list_request :: "string \<Rightarrow> list_jobs_request" where
  "list_request t \<equiv> \<lparr>lj_Tenant = t, lj_PhaseFilter = [], lj_PageSize = 200, lj_PageToken = []\<rparr>"

lemma first_named_find:
  "first_named n (map jobToProto rs) =
     (case find (\<lambda>r. doc_name (jr_Doc r) = Some n) rs of Some r \<Rightarrow> jr_JobID r | None \<Rightarrow> [])"
  by (induction rs) (auto simp: jobToProto_def doc_name_def split: option.splits json.splits)

lemma find_Some_mem: "find P xs = Some x \<Longrightarrow> x \<in> set xs \<and> P x"
  by (auto simp: find_Some_iff)

lemma named_0: "named d t n = 0 \<longleftrightarrow> (\<forall>r \<in> set (jobs d). jr_Tenant r = t \<longrightarrow> doc_name (jr_Doc r) \<noteq> Some n)"
  by (auto simp: named_def job_docs_def filter_empty_conv)

lemma list_answer:
  assumes "rabi_ListJobs c (list_request t) d = (d1, Inr resp)" and "t \<noteq> []"
    and "length (filter (\<lambda>r. jr_Tenant r = t) (jobs d)) \<le> 200"
  shows "touched_only d d1"
    "lr_Jobs resp = map jobToProto (sort_key (\<lambda>r. (- jr_CreatedAt r, jr_JobID r)) (filter (\<lambda>r. jr_Tenant r = t) (jobs d)))"
proof -
  have "touched_only d d1 \<and> (\<exists>p. snd (api_ListJobs (list_request t) (Some p) d1) = Inr resp)"
    by (cases rule: rpc_cases[of c "''ListJobs''" "api_ListJobs (list_request t)" d])
      (use assms(1) in \<open>auto simp: rabi_ListJobs_def api_ListJobs_def\<close>)
  then obtain p where t: "touched_only d d1" and r: "snd (api_ListJobs (list_request t) (Some p) d1) = Inr resp" by blast
  have "effectiveTenant (Some p) t \<in> range Inl \<union> {Inr t}"
    using assms(2) by (auto simp: effectiveTenant_def FromContext_def split: option.splits)
  with r have "lr_Jobs resp = map jobToProto (ListJobs d1 t [] 200 0)"
    by (auto simp: api_ListJobs_def page_offset_def page_size_def Let_def defaultPageSize_def maxPageSize_def split: sum.splits)
  moreover have "ListJobs d1 t [] 200 0 = sort_key (\<lambda>r. (- jr_CreatedAt r, jr_JobID r)) (filter (\<lambda>r. jr_Tenant r = t) (jobs d))"
    using assms(2,3) by (simp add: touched_only_core[OF t] ListJobs_def)
  ultimately show "touched_only d d1"
    "lr_Jobs resp = map jobToProto (sort_key (\<lambda>r. (- jr_CreatedAt r, jr_JobID r)) (filter (\<lambda>r. jr_Tenant r = t) (jobs d)))"
    using t by simp_all
qed

lemma adopt_decides:
  assumes "rabi_ListJobs c (list_request t) d = (d1, Inr resp)" and "t \<noteq> []"
    and "length (filter (\<lambda>r. jr_Tenant r = t) (jobs d)) \<le> 200" and "[] \<notin> set (job_ids d)"
  shows "adopt c t n d = (d1, snd (adopt c t n d))" "snd (adopt c t n d) = [] \<longleftrightarrow> named d t n = 0"
    "snd (adopt c t n d) \<noteq> [] \<Longrightarrow>
       \<exists>r \<in> set (jobs d). jr_JobID r = snd (adopt c t n d) \<and> jr_Tenant r = t \<and> doc_name (jr_Doc r) = Some n"
proof -
  let ?P = "\<lambda>r. doc_name (jr_Doc r) = Some n"
  let ?rs = "sort_key (\<lambda>r. (- jr_CreatedAt r, jr_JobID r)) (filter (\<lambda>r. jr_Tenant r = t) (jobs d))"
  have a: "adopt c t n d = (d1, case find ?P ?rs of Some r \<Rightarrow> jr_JobID r | None \<Rightarrow> [])"
    using assms(1) list_answer(2)[OF assms(1-3)] by (simp add: adopt_def first_named_find)
  then show "adopt c t n d = (d1, snd (adopt c t n d))" by simp
  have n: "find ?P ?rs = None \<longleftrightarrow> named d t n = 0" by (auto simp: find_None_iff named_0)
  have f: "r \<in> set (jobs d) \<and> jr_Tenant r = t \<and> ?P r" if "find ?P ?rs = Some r" for r
    using find_Some_mem[OF that] by simp
  show "snd (adopt c t n d) = [] \<longleftrightarrow> named d t n = 0"
  proof (cases "find ?P ?rs")
    case (Some r)
    then have "jr_JobID r \<noteq> []" using f[OF Some] assms(4) by (force simp: job_ids_def)
    then show ?thesis using Some n by (simp add: a)
  qed (use n in \<open>simp add: a\<close>)
  show "snd (adopt c t n d) \<noteq> [] \<Longrightarrow>
       \<exists>r \<in> set (jobs d). jr_JobID r = snd (adopt c t n d) \<and> jr_Tenant r = t \<and> doc_name (jr_Doc r) = Some n"
  proof (cases "find ?P ?rs")
    case (Some r)
    then show ?thesis using f[OF Some] by (intro bexI[of _ r]) (simp_all add: a)
  next
    case None
    then show "snd (adopt c t n d) \<noteq> [] \<Longrightarrow> ?thesis" by (simp add: a)
  qed
qed

lemma BuildDocument_ok:
  assumes "BuildDocument cr = Inr doc"
  shows "get_obj doc ''metadata'' = Some (resource_meta cr)" "get_str (resource_meta cr) ''tenant'' = Some (tenantFor cr)"
    "doc_name doc = Some (qj_Name cr)" "\<exists>v. qj_Spec cr = RawJson v \<and> (v = JNull \<or> get doc ''spec'' = Some v)"
proof -
  from assms obtain v spec where v: "qj_Spec cr = RawJson v" "unmarshal_map v = Inr spec"
    and d: "doc = [(''apiVersion'', JStr ''tangle.dev/v1alpha1''), (''kind'', JStr ''QuantumJob''),
          (''metadata'', JObj (resource_meta cr)), (''spec'', JObj spec)]"
    by (auto simp: BuildDocument_def split: raw_json.splits sum.splits)
  show "get_obj doc ''metadata'' = Some (resource_meta cr)" "get_str (resource_meta cr) ''tenant'' = Some (tenantFor cr)"
    "doc_name doc = Some (qj_Name cr)"
    by (simp_all add: d get_obj_def get_str_def get_def doc_name_def resource_meta_def)
  show "\<exists>v. qj_Spec cr = RawJson v \<and> (v = JNull \<or> get doc ''spec'' = Some v)"
    using v by (cases v) (auto simp: d get_def)
qed

lemma job_docs_rpc:
  assumes "\<And>x d'. touched_only d d' \<Longrightarrow> job_docs (fst (h x d')) \<in> S" and "job_docs d \<in> S"
  shows "job_docs (fst (rpc c m h d)) \<in> S"
  by (cases rule: rpc_cases[of c m h d]) (use assms job_docs_touched in \<open>auto\<close>)

text \<open>The jobs a step of the reconciler leaves behind.\<close>

lemma job_docs_sync [simp]: "job_docs (snd (fst (sync kb c cr w))) = job_docs (snd w)"
proof -
  have "job_docs (fst (rabi_GetJob c i (snd w))) \<in> {job_docs (snd w)}" for i
    unfolding rabi_GetJob_def by (rule job_docs_rpc) (simp_all add: api_GetJob_def job_docs_touched)
  moreover obtain d1 r where "rabi_GetJob c (qs_JobID (qj_Status cr)) (snd w) = (d1, r)" by force
  ultimately have "job_docs d1 = job_docs (snd w)" "rabi_GetJob c (qs_JobID (qj_Status cr)) (snd w) = (d1, r)"
    by (metis fst_conv singletonD)+
  then show ?thesis
    by (cases r) (auto simp: sync_def markMessage_def Let_def split: prod.splits sum.splits)
qed

lemma job_docs_deleted [simp]: "job_docs (snd (fst (reconcile_deleted kb c cr w))) = job_docs (snd w)"
proof -
  have "job_docs (fst (rabi_CancelJob c i (snd w))) \<in> {job_docs (snd w)}" for i
    unfolding rabi_CancelJob_def by (rule job_docs_rpc) (simp_all add: job_docs_touched)
  moreover obtain d1 r where "rabi_CancelJob c (qs_JobID (qj_Status cr)) (snd w) = (d1, r)" by force
  ultimately have "job_docs d1 = job_docs (snd w)" "rabi_CancelJob c (qs_JobID (qj_Status cr)) (snd w) = (d1, r)"
    by (metis fst_conv singletonD)+
  then show ?thesis
    by (cases r) (auto simp: reconcile_deleted_def release_finalizer_def split: prod.splits sum.splits)
qed

lemma job_docs_document:
  "job_docs (snd (fst (submit_document kb c cr w))) = job_docs (snd w) \<or>
   (\<exists>doc. BuildDocument cr = Inr doc \<and>
      job_docs (snd (fst (submit_document kb c cr w))) = job_docs (snd w) @ [(rb_uuid c, tenantFor cr, doc)])"
proof (cases "BuildDocument cr")
  case (Inl e)
  then show ?thesis by (auto simp: submit_document_def markMessage_def split: prod.splits sum.splits)
next
  case (Inr doc)
  let ?req = "\<lparr>sj_QuantumJob = Some doc, sj_Tenant = tenantFor cr, sj_DryRun = False\<rparr>"
  let ?S = "{job_docs (snd w), job_docs (snd w) @ [(rb_uuid c, tenantFor cr, doc)]}"
  note b = BuildDocument_ok[OF Inr]
  have "job_docs (fst (rabi_SubmitJob c ?req (snd w))) \<in> ?S"
    unfolding rabi_SubmitJob_def
  proof (rule job_docs_rpc)
    fix x d' assume "touched_only (snd w) d'"
    then have "job_docs d' = job_docs (snd w)" by (rule job_docs_touched)
    with job_docs_SubmitJob[of ?req doc "resource_meta cr" "tenantFor cr" _ _ _ _ _ _ x d'] b(1-3)
    show "job_docs (fst (SubmitJob (rb_schema c) (rb_fleet c) (rb_now c) (rb_now c) (rb_now c) (rb_uuid c) ?req x d')) \<in> ?S"
      by simp
  qed simp
  moreover obtain d1 r where "rabi_SubmitJob c ?req (snd w) = (d1, r)" by force
  ultimately show ?thesis
    using Inr by (cases r) (auto simp: submit_document_def markMessage_def split: prod.splits sum.splits)
qed

lemma job_docs_submit:
  assumes "rabi_ListJobs c (list_request (tenantFor cr)) (snd w) = (d1, Inr resp)" and "tenantFor cr \<noteq> []"
    and "length (filter (\<lambda>r. jr_Tenant r = tenantFor cr) (jobs (snd w))) \<le> 200" and "[] \<notin> set (job_ids (snd w))"
  shows "job_docs (snd (fst (operator_submit kb c cr w))) = job_docs (snd w) \<or>
    named (snd w) (tenantFor cr) (qj_Name cr) = 0 \<and>
    (\<exists>doc. BuildDocument cr = Inr doc \<and>
       job_docs (snd (fst (operator_submit kb c cr w))) = job_docs (snd w) @ [(rb_uuid c, tenantFor cr, doc)])"
proof -
  note a = adopt_decides[OF assms, of "qj_Name cr"]
  have d1: "job_docs d1 = job_docs (snd w)" using list_answer(1)[OF assms(1-3)] by (rule job_docs_touched)
  show ?thesis
  proof (cases "snd (adopt c (tenantFor cr) (qj_Name cr) (snd w)) = []")
    case True
    then have "operator_submit kb c cr w = submit_document kb c cr (fst w, d1)"
      using a(1) by (simp add: operator_submit_def Let_def split: prod.splits)
    then show ?thesis using job_docs_document[of kb c cr "(fst w, d1)"] d1 a(2) True by auto
  next
    case False
    then show ?thesis using a(1) d1 by (auto simp: operator_submit_def Let_def split: prod.splits sum.splits)
  qed
qed

lemma named_new:
  assumes "BuildDocument cr = Inr doc" and "named d (tenantFor cr) (qj_Name cr) = 0"
    and "job_docs d' = job_docs d @ [(i, tenantFor cr, doc)]"
  shows "named d' t n \<le> max 1 (named d t n)"
  using assms(2,3) BuildDocument_ok(3)[OF assms(1)]
  by (cases "t = tenantFor cr \<and> n = qj_Name cr") (auto simp: named_def)

lemma job_docs_submit_any:
  "job_docs (snd (fst (operator_submit kb c cr w))) = job_docs (snd w) \<or>
   (\<exists>doc. BuildDocument cr = Inr doc \<and>
      job_docs (snd (fst (operator_submit kb c cr w))) = job_docs (snd w) @ [(rb_uuid c, tenantFor cr, doc)])"
proof -
  obtain d1 a where ad: "adopt c (tenantFor cr) (qj_Name cr) (snd w) = (d1, a)" by force
  have "job_docs (fst (rabi_ListJobs c (list_request (tenantFor cr)) (snd w))) \<in> {job_docs (snd w)}"
    unfolding rabi_ListJobs_def by (rule job_docs_rpc) (simp_all add: api_ListJobs_def job_docs_touched)
  then have d1: "job_docs d1 = job_docs (snd w)" using ad by (auto simp: adopt_def split: prod.splits sum.splits)
  then show ?thesis
    using ad job_docs_document[of kb c cr "(fst w, d1)"]
    by (cases "a = []") (auto simp: operator_submit_def Let_def split: prod.splits sum.splits)
qed

text \<open>C12: A resource runs once. While the listing of its project is answered and the project has at most 200 jobs, which
  is the one page \<open>adopt\<close> reads, no reconciliation, whatever of it fails or is lost on the way, makes a second job of
  the same project and name.\<close>

theorem resource_is_submitted_once:
  assumes listed: "\<exists>d1 resp. rabi_ListJobs c (list_request t) (snd w) = (d1, Inr resp)"
    and page: "length (filter (\<lambda>r. jr_Tenant r = t) (jobs (snd w))) \<le> 200"
    and ids: "[] \<notin> set (job_ids (snd w))"
    and namespaced: "\<And>key k cr. kb_Get kb key k = Inr cr \<Longrightarrow> qj_Namespace cr \<noteq> []"
      "\<And>cr k k' cr'. kb_Update kb cr k = (k', Inr cr') \<Longrightarrow> qj_Namespace cr' \<noteq> []"
  shows "named (snd (fst (Reconcile kb c key w))) t n \<le> max 1 (named (snd w) t n)"
proof -
  have other: "named (snd (fst (operator_submit kb c cr (k, snd w)))) t n = named (snd w) t n" if "tenantFor cr \<noteq> t" for cr k
    using job_docs_submit_any[of kb c cr "(k, snd w)"] that by (auto simp: named_def)
  have live: "named (snd (fst (reconcile_live kb c cr (k, snd w)))) t n \<le> max 1 (named (snd w) t n)"
    if "qj_Namespace cr \<noteq> []" for cr k
  proof (cases "qs_JobID (qj_Status cr) = []")
    case True
    show ?thesis
    proof (cases "tenantFor cr = t")
      case t: True
      have "tenantFor cr \<noteq> []" using that by (auto simp: tenantFor_def split: option.splits)
      moreover obtain d1 resp where "rabi_ListJobs c (list_request (tenantFor cr)) (snd (k, snd w)) = (d1, Inr resp)"
        using listed t by auto
      ultimately consider "job_docs (snd (fst (operator_submit kb c cr (k, snd w)))) = job_docs (snd w)"
        | doc where "named (snd w) (tenantFor cr) (qj_Name cr) = 0" "BuildDocument cr = Inr doc"
          "job_docs (snd (fst (operator_submit kb c cr (k, snd w)))) = job_docs (snd w) @ [(rb_uuid c, tenantFor cr, doc)]"
        using job_docs_submit[of c cr "(k, snd w)" d1 resp kb] page t ids by auto
      then have "named (snd (fst (operator_submit kb c cr (k, snd w)))) t n \<le> max 1 (named (snd w) t n)"
        by cases (simp add: named_def, rule named_new)
      then show ?thesis using True by (simp add: reconcile_live_def)
    qed (use True other in \<open>simp add: reconcile_live_def\<close>)
  qed (simp add: reconcile_live_def named_def)
  show ?thesis
  proof (cases "kb_Get kb key (fst w)")
    case (Inr cr)
    show ?thesis
      using Inr live[OF namespaced(1)[OF Inr], of "fst w"] live[OF namespaced(2)]
      by (auto simp: Reconcile_def named_def split: prod.splits sum.splits)
  qed (simp add: Reconcile_def)
qed

text \<open>A cluster that holds one resource, as an instance of the Kubernetes API.\<close>

definition one_kube :: "QuantumJob kube" where
  "one_kube = \<lparr>kb_Get = (\<lambda>key k. if key = (qj_Namespace k, qj_Name k) \<and> qj_Namespace k \<noteq> [] then Inr k else Inl KubeNotFound),
     kb_Update = (\<lambda>cr k. if qj_Namespace cr = [] then (k, Inl KubeNotFound) else (cr, Inr cr)),
     kb_StatusUpdate = (\<lambda>cr k. if (qj_Namespace cr, qj_Name cr) \<noteq> (qj_Namespace k, qj_Name k) \<or> qj_Namespace k = []
       then (k, Inl KubeNotFound) else (k\<lparr>qj_Status := qj_Status cr\<rparr>, Inr (k\<lparr>qj_Status := qj_Status cr\<rparr>)))\<rparr>"

definition demo_resource :: QuantumJob where
  "demo_resource = \<lparr>qj_Namespace = ''lab'', qj_Name = ''bell'', qj_Annotations = [], qj_Labels = [], qj_Deleting = False,
     qj_Finalizers = [Finalizer],
     qj_Spec = RawJson (JObj [(''workload'', JObj [(''kind'', JStr ''gate-model'')])]),
     qj_Status = \<lparr>qs_JobID = [], qs_Phase = [], qs_BoundTarget = [], qs_PlacementReason = [], qs_Message = [],
       qs_SyncedAt = 0\<rparr>\<rparr>"

definition demo_client :: "delivery \<Rightarrow> RabiClient" where
  "demo_client net = \<lparr>rb_auth = \<lparr>an_bootstrapHash = Sum256 ''tok'', an_hasBootstrap = True, an_oidc = None\<rparr>, rb_Token = ''tok'',
     rb_now = 7, rb_schema = (\<lambda>_. True), rb_fleet = demo_formats, rb_uuid = ''j9'', rb_net = (\<lambda>m. if m = ''ListJobs'' then Delivered else net),
     rb_text = (\<lambda>_. [])\<rparr>"

lemma demo_Authenticate: "Authenticate (rb_auth (demo_client net)) 7 (client_ctx (demo_client net)) d = (d, Inr bootstrap_principal)"
proof -
  have "bearerFromContext (client_ctx (demo_client net)) = ''tok''"
    by (simp add: demo_client_def client_ctx_def bearerFromContext_def authHeader_def gatewayAuthHeader_def CutPrefix_def)
  then show ?thesis by (simp add: Authenticate_def demo_client_def)
qed

lemma demo_rpc:
  assumes "MinRole (''/tangle.api.v1alpha1.JobsService/'' @ m) \<noteq> None" and "m \<in> {''ListJobs'', ''SubmitJob'', ''GetJob'', ''CancelJob''}"
  shows "rb_net (demo_client net) m = Delivered \<Longrightarrow> rpc (demo_client net) m h d = h (Some bootstrap_principal) d"
    "rb_net (demo_client net) m = ReplyLost \<Longrightarrow> rpc (demo_client net) m h d = (fst (h (Some bootstrap_principal) d), Inl unavailable)"
proof -
  have "want \<le> RoleAdmin" for want by (cases want) (simp_all add: role_order)
  then have "Authorize bootstrap_principal (''/tangle.api.v1alpha1.JobsService/'' @ m) = None"
    using assms(1) Authorize_None by (auto simp: bootstrap_principal_def)
  moreover have "''/tangle.api.v1alpha1.JobsService/'' @ m \<notin> set adminActions" using assms(2) by (auto simp: adminActions_def)
  moreover have "rb_now (demo_client net) = 7" by (simp add: demo_client_def)
  ultimately have "UnaryAuthInterceptor (rb_auth (demo_client net)) (rb_now (demo_client net)) (client_ctx (demo_client net))
      (''/tangle.api.v1alpha1.JobsService/'' @ m) h d = h (Some bootstrap_principal) d"
    by (simp add: UnaryAuthInterceptor_def check_def demo_Authenticate WithPrincipal_def del: append.simps)
  then show "rb_net (demo_client net) m = Delivered \<Longrightarrow> rpc (demo_client net) m h d = h (Some bootstrap_principal) d"
    "rb_net (demo_client net) m = ReplyLost \<Longrightarrow> rpc (demo_client net) m h d = (fst (h (Some bootstrap_principal) d), Inl unavailable)"
    by (simp_all add: rpc_def)
qed

lemma demo_list: "\<exists>resp. rabi_ListJobs (demo_client net) (list_request t) d = (d, Inr resp)"
proof -
  have "MinRole (''/tangle.api.v1alpha1.JobsService/'' @ ''ListJobs'') \<noteq> None" by (simp add: MinRole_def minRole_def)
  moreover have "rb_net (demo_client net) ''ListJobs'' = Delivered" by (simp add: demo_client_def)
  ultimately have "rabi_ListJobs (demo_client net) (list_request t) d = api_ListJobs (list_request t) (Some bootstrap_principal) d"
    unfolding rabi_ListJobs_def by (intro demo_rpc(1)) simp_all
  then show ?thesis
    by (simp add: api_ListJobs_def page_offset_def effectiveTenant_def FromContext_def bootstrap_principal_def Let_def)
qed

theorem resource_is_submitted_once_witness:
  "named (snd (fst (Reconcile one_kube (demo_client ReplyLost) (''lab'', ''bell'') (demo_resource, empty_db)))) ''lab'' ''bell'' \<le> 1"
proof -
  have "named (snd (fst (Reconcile one_kube (demo_client ReplyLost) (''lab'', ''bell'') (demo_resource, empty_db)))) ''lab'' ''bell''
    \<le> max 1 (named (snd (demo_resource, empty_db)) ''lab'' ''bell'')"
  proof (rule resource_is_submitted_once)
    show "\<exists>d1 resp. rabi_ListJobs (demo_client ReplyLost) (list_request ''lab'') (snd (demo_resource, empty_db)) = (d1, Inr resp)"
      using demo_list by blast
  qed (auto simp: one_kube_def empty_db_def job_ids_def split: if_splits)
  then show ?thesis by (simp add: named_def job_docs_def empty_db_def)
qed

section \<open>The document, deletion and the mirror\<close>

text \<open>What the operator submits is the resource: the one new job a reconciliation can make lies in the
  resource's project, has its name, its labels and its spec word for word.\<close>

theorem submitted_document_is_the_resource:
  assumes "kb_Get kb key (fst w) = Inr cr" and "\<not> qj_Deleting cr" and "Finalizer \<in> set (qj_Finalizers cr)"
    and "(i, t, doc) \<in> set (job_docs (snd (fst (Reconcile kb c key w))))" and "(i, t, doc) \<notin> set (job_docs (snd w))"
  shows "i = rb_uuid c \<and> t = tenantFor cr \<and> doc_name doc = Some (qj_Name cr) \<and>
    get_obj doc ''metadata'' = Some (resource_meta cr) \<and>
    (\<exists>v. qj_Spec cr = RawJson v \<and> get doc ''spec'' = Some (if v = JNull then JObj [] else v))"
proof -
  have "Reconcile kb c key w = reconcile_live kb c cr w" using assms(1-3) by (simp add: Reconcile_def)
  then have new: "(i, t, doc) \<in> set (job_docs (snd (fst (operator_submit kb c cr w))))"
    using assms(4,5) by (auto simp: reconcile_live_def split: if_splits)
  obtain d1 a where ad: "adopt c (tenantFor cr) (qj_Name cr) (snd w) = (d1, a)" by force
  have "job_docs (fst (rabi_ListJobs c (list_request (tenantFor cr)) (snd w))) \<in> {job_docs (snd w)}"
    unfolding rabi_ListJobs_def by (rule job_docs_rpc) (simp_all add: api_ListJobs_def job_docs_touched)
  then have d1: "job_docs d1 = job_docs (snd w)" using ad by (auto simp: adopt_def split: prod.splits sum.splits)
  with new assms(5) ad have "(i, t, doc) \<in> set (job_docs (snd (fst (submit_document kb c cr (fst w, d1)))))"
    by (auto simp: operator_submit_def Let_def split: if_splits prod.splits sum.splits)
  with job_docs_document[of kb c cr "(fst w, d1)"] d1 assms(5)
  have b: "i = rb_uuid c" "t = tenantFor cr" "BuildDocument cr = Inr doc" by auto
  note B = BuildDocument_ok[OF b(3)]
  from B(4) obtain v where "qj_Spec cr = RawJson v" "v = JNull \<or> get doc ''spec'' = Some v" by blast
  moreover from this(1) b(3) have "v = JNull \<Longrightarrow> get doc ''spec'' = Some (JObj [])"
    by (auto simp: BuildDocument_def get_def)
  ultimately show ?thesis using b B by auto
qed

lemma CancelJob_outcome:
  assumes "reachable d0" and "phase_of d = phase_of d0"
  shows "snd (CancelJob now i x d) = Inr p \<Longrightarrow> phase_of (fst (CancelJob now i x d)) i = Some Cancelled"
    "snd (CancelJob now i x d) = Inl e \<Longrightarrow> fst e \<in> {FailedPrecondition, NotFound} \<Longrightarrow>
       phase_of (fst (CancelJob now i x d)) i = None \<or> (\<exists>q. phase_of (fst (CancelJob now i x d)) i = Some q \<and> Terminal q)"
proof -
  show "snd (CancelJob now i x d) = Inr p \<Longrightarrow> phase_of (fst (CancelJob now i x d)) i = Some Cancelled"
    by (cases rule: CancelJob_cases[of now i x d]) (auto simp: phase_of_TransitionJob)
  assume e: "snd (CancelJob now i x d) = Inl e" "fst e \<in> {FailedPrecondition, NotFound}"
  show "phase_of (fst (CancelJob now i x d)) i = None \<or> (\<exists>q. phase_of (fst (CancelJob now i x d)) i = Some q \<and> Terminal q)"
  proof (cases "loadJob i x d")
    case (Inl e')
    moreover have "CheckProject x t = Some err \<Longrightarrow> fst err \<notin> {FailedPrecondition, NotFound}" for t err
      by (auto simp: CheckProject_def split: option.splits if_splits)
    ultimately have "phase_of d i = None"
      using e by (auto simp: CancelJob_def loadJob_def GetJob_def phase_of_def as_api_def split: if_splits option.splits)
    then show ?thesis using Inl by (simp add: CancelJob_def)
  next
    case (Inr r)
    have "CanTransition q Cancelled \<longleftrightarrow> \<not> Terminal q" if "phase_of d i = Some q" for q
      using reachable_phase_Valid[OF assms(1), of i q] that assms(2) by (cases q) (auto simp: CanTransition_to)
    then show ?thesis
      by (cases rule: TransitionJob_cases[of d i now Cancelled "Some cancelled_status"])
        (use Inr e in \<open>auto simp: CancelJob_def\<close>)
  qed
qed

theorem submitted_document_is_the_resource_witness:
  "\<exists>doc. (''j9'', ''lab'', doc) \<in> set (job_docs (snd (fst (Reconcile one_kube (demo_client ReplyLost) (''lab'', ''bell'') (demo_resource, empty_db))))) \<and>
     doc_name doc = Some ''bell''"
proof -
  let ?w = "(demo_resource, empty_db)" and ?c = "demo_client ReplyLost" 
  define doc where "doc = projr (BuildDocument demo_resource)"
  let ?req = "\<lparr>sj_QuantumJob = Some doc, sj_Tenant = ''lab'', sj_DryRun = False\<rparr>"
  let ?fin = "snd (fst (Reconcile one_kube ?c (''lab'', ''bell'') ?w))"
  have r: "kb_Get one_kube (''lab'', ''bell'') (fst ?w) = Inr demo_resource" "\<not> qj_Deleting demo_resource"
    "Finalizer \<in> set (qj_Finalizers demo_resource)" "tenantFor demo_resource = ''lab''" "qj_Name demo_resource = ''bell''" "qs_JobID (qj_Status demo_resource) = []"
    by (simp_all add: one_kube_def demo_resource_def tenantFor_def)
  obtain resp where "rabi_ListJobs ?c (list_request ''lab'') empty_db = (empty_db, Inr resp)" using demo_list by blast
  moreover from list_answer(2)[OF this] have "lr_Jobs resp = []" by (simp add: empty_db_def)
  ultimately have ad: "adopt ?c ''lab'' ''bell'' empty_db = (empty_db, [])" by (simp add: adopt_def)
  have b: "BuildDocument demo_resource = Inr doc" by (simp add: doc_def BuildDocument_def demo_resource_def)
  have "rabi_SubmitJob ?c ?req empty_db = (fst (SubmitJob (rb_schema ?c) (rb_fleet ?c) (rb_now ?c) (rb_now ?c) (rb_now ?c) (rb_uuid ?c)
      ?req (Some bootstrap_principal) empty_db), Inl unavailable)"
    unfolding rabi_SubmitJob_def by (rule demo_rpc(2)) (simp_all add: MinRole_def minRole_def demo_client_def)
  then have "rabi_SubmitJob ?c ?req empty_db =
      (fst (SubmitJob (\<lambda>_. True) demo_formats 7 7 7 ''j9'' ?req (Some bootstrap_principal) empty_db), Inl unavailable)"
    by (simp add: demo_client_def)
  moreover have "job_docs (fst (SubmitJob (\<lambda>_. True) demo_formats 7 7 7 ''j9'' ?req (Some bootstrap_principal) empty_db)) = [(''j9'', ''lab'', doc)]"
    unfolding doc_def by code_simp
  ultimately have "job_docs ?fin = [(''j9'', ''lab'', doc)]"
    using r ad b by (simp add: Reconcile_def reconcile_live_def operator_submit_def submit_document_def unavailable_def)
  then have mem: "(''j9'', ''lab'', doc) \<in> set (job_docs ?fin)" by simp
  moreover have "(''j9'', ''lab'', doc) \<notin> set (job_docs (snd ?w))" by (simp add: job_docs_def empty_db_def)
  ultimately show ?thesis using submitted_document_is_the_resource[OF r(1-3) mem] r(5) by auto
qed

text \<open>C13: Deletion never abandons a running job. Reconciling a deleted resource that has a job either leaves the
  cluster, and with it the finalizer, as it was and reports the failed cancellation, or the job is over:
  cancelled, finished before, or unknown to the control plane.\<close>

theorem released_resource_has_no_running_job:
  assumes "reachable (snd w)" and "kb_Get kb key (fst w) = Inr cr" and "qj_Deleting cr"
    and "Finalizer \<in> set (qj_Finalizers cr)" and "qs_JobID (qj_Status cr) \<noteq> []"
  shows "(\<exists>d1 e. Reconcile kb c key w = ((fst w, d1), Inl (CancelFailed e))) \<or>
    (case phase_of (snd (fst (Reconcile kb c key w))) (qs_JobID (qj_Status cr)) of None \<Rightarrow> True | Some p \<Rightarrow> Terminal p)"
proof -
  let ?i = "qs_JobID (qj_Status cr)" and ?call = "rabi_CancelJob c (qs_JobID (qj_Status cr)) (snd w)"
  have R: "Reconcile kb c key w = reconcile_deleted kb c cr w" using assms(2,3) by (simp add: Reconcile_def)
  have rel: "snd (fst (release_finalizer kb cr v)) = snd v" for v
    by (auto simp: release_finalizer_def split: prod.splits sum.splits)
  show ?thesis
  proof (cases rule: rpc_cases[of c "''CancelJob''" "CancelJob (rb_now c) ?i" "snd w"])
    case (failed d' e)
    then show ?thesis using assms(4,5) unfolding R
      by (auto simp: reconcile_deleted_def rabi_CancelJob_def)
  next
    case (served d1 p)
    have ph: "phase_of d1 = phase_of (snd w)" using touched_only_core(3)[OF served(1)] by auto
    note out = CancelJob_outcome[OF assms(1) ph, of "rb_now c" ?i "Some p"]
    obtain d2 r where call: "?call = (d2, r)" by force
    with served(2,3) have c2: "fst (CancelJob (rb_now c) ?i (Some p) d1) = d2"
      "r = snd (CancelJob (rb_now c) ?i (Some p) d1) \<or> r = Inl unavailable" by (auto simp: rabi_CancelJob_def)
    show ?thesis
    proof (cases r)
      case (Inr j)
      then have "phase_of d2 ?i = Some Cancelled" using out(1)[of j] c2 by auto
      then show ?thesis unfolding R using assms(4,5) call Inr rel by (simp add: reconcile_deleted_def)
    next
      case (Inl e)
      show ?thesis
      proof (cases "fst e \<in> {FailedPrecondition, NotFound}")
        case True
        then have "phase_of d2 ?i = None \<or> (\<exists>q. phase_of d2 ?i = Some q \<and> Terminal q)"
          using out(2)[of e] c2 Inl by (auto simp: unavailable_def)
        then show ?thesis unfolding R using assms(4,5) call Inl True rel by (auto simp: reconcile_deleted_def)
      qed (unfold R, use assms(4,5) call Inl in \<open>auto simp: reconcile_deleted_def\<close>)
    qed
  qed
qed

theorem released_resource_has_no_running_job_witness:
  "\<exists>p. phase_of (snd (fst (Reconcile one_kube (demo_client Delivered) (''lab'', ''bell'')
      (demo_resource\<lparr>qj_Deleting := True, qj_Status := (qj_Status demo_resource)\<lparr>qs_JobID := ''j1''\<rparr>\<rparr>, demo_running)))) ''j1'' = Some p \<and> Terminal p"
proof -
  let ?cr = "demo_resource\<lparr>qj_Deleting := True, qj_Status := (qj_Status demo_resource)\<lparr>qs_JobID := ''j1''\<rparr>\<rparr>"
  let ?R = "Reconcile one_kube (demo_client Delivered) (''lab'', ''bell'') (?cr, demo_running)"
  have call: "rabi_CancelJob (demo_client Delivered) ''j1'' demo_running = CancelJob 7 ''j1'' (Some bootstrap_principal) demo_running"
  proof -
    have "rabi_CancelJob (demo_client Delivered) ''j1'' demo_running = CancelJob (rb_now (demo_client Delivered)) ''j1'' (Some bootstrap_principal) demo_running"
      unfolding rabi_CancelJob_def by (rule demo_rpc(1)) (simp_all add: MinRole_def minRole_def demo_client_def)
    then show ?thesis by (simp add: demo_client_def)
  qed
  have "phase_of (fst (CancelJob 7 ''j1'' (Some bootstrap_principal) demo_running)) ''j1'' = Some Cancelled"
    "(case snd (CancelJob 7 ''j1'' (Some bootstrap_principal) demo_running) of Inr _ \<Rightarrow> True | Inl _ \<Rightarrow> False)" by code_simp+
  then obtain d1 j where c: "rabi_CancelJob (demo_client Delivered) ''j1'' demo_running = (d1, Inr j)" "phase_of d1 ''j1'' = Some Cancelled"
    unfolding call by (cases "CancelJob 7 ''j1'' (Some bootstrap_principal) demo_running") (auto split: sum.splits)
  have cr: "kb_Get one_kube (''lab'', ''bell'') (fst (?cr, demo_running)) = Inr ?cr" "qj_Deleting ?cr" "Finalizer \<in> set (qj_Finalizers ?cr)"
    "qs_JobID (qj_Status ?cr) \<noteq> []" "reachable (snd (?cr, demo_running))"
    using demo_reachable(3) by (simp_all add: one_kube_def demo_resource_def)
  have "snd ?R = Inr None \<and> snd (fst ?R) = d1"
    using cr(1-4) c(1) by (simp add: Reconcile_def reconcile_deleted_def) (simp add: release_finalizer_def one_kube_def demo_resource_def)
  with released_resource_has_no_running_job[OF cr(5,1-4), of "demo_client Delivered"] c(2) show ?thesis
    by (auto split: option.splits)
qed

text \<open>The part of the Kubernetes API the mirror relies on: reading a resource by its name and reading back a
  status that was written.\<close>

definition kube_ok :: "'k kube \<Rightarrow> bool" where
  "kube_ok kb \<longleftrightarrow> (\<forall>key k cr. kb_Get kb key k = Inr cr \<longrightarrow> key = (qj_Namespace cr, qj_Name cr)) \<and>
     (\<forall>cr k k' cr'. kb_StatusUpdate kb cr k = (k', Inr cr') \<longrightarrow>
        qj_Status cr' = qj_Status cr \<and> kb_Get kb (qj_Namespace cr, qj_Name cr) k' = Inr cr')"

text \<open>Polling stops at the truth. When a reconciliation of a submitted resource asks for no further one, the
  resource shows the phase that the control plane holds for its job, and that phase is final.\<close>

theorem polling_stops_at_final_phase:
  assumes "kube_ok kb" and "kb_Get kb key (fst w) = Inr cr" and "\<not> qj_Deleting cr" and "Finalizer \<in> set (qj_Finalizers cr)"
    and "qs_JobID (qj_Status cr) \<noteq> []" and "GetJob (snd w) (qs_JobID (qj_Status cr)) = Inr r"
    and "Reconcile kb c key w = (w', Inr None)"
  shows "\<exists>cr'. kb_Get kb key (fst w') = Inr cr' \<and> qs_Phase (qj_Status cr') = str_or (jr_Status r) ''phase'' \<and>
    qs_Phase (qj_Status cr') \<in> {''SUCCEEDED'', ''FAILED'', ''CANCELLED''}"
proof -
  let ?i = "qs_JobID (qj_Status cr)"
  have key: "key = (qj_Namespace cr, qj_Name cr)" using assms(1,2) unfolding kube_ok_def by blast
  have S: "sync kb c cr w = (w', Inr None)" using assms(2-5,7) by (simp add: Reconcile_def reconcile_live_def)
  obtain d1 a where call: "rabi_GetJob c ?i (snd w) = (d1, a)" by force
  have "a = Inr (jobToProto r) \<or> (\<exists>e. a = Inl e \<and> fst e \<noteq> NotFound)"
  proof (cases rule: rpc_cases[of c "''GetJob''" "api_GetJob ?i" "snd w"])
    case (failed d' e)
    then have "a = Inl e" "fst e \<noteq> NotFound" using call by (auto simp: rabi_GetJob_def)
    then show ?thesis by blast
  next
    case (served d2 p)
    have "CheckProject x t = Some err \<Longrightarrow> fst err \<noteq> NotFound" for x t err
      by (auto simp: CheckProject_def split: option.splits if_splits)
    then have "snd (api_GetJob ?i (Some p) d2) = Inr (jobToProto r) \<or> (\<exists>e. snd (api_GetJob ?i (Some p) d2) = Inl e \<and> fst e \<noteq> NotFound)"
      using assms(5,6) touched_only_core(4)[OF served(1), of ?i]
      by (auto simp: api_GetJob_def loadJob_def as_api_def split: option.splits)
    then show ?thesis using served(3) call by (auto simp: rabi_GetJob_def unavailable_def)
  qed
  with S call have a: "a = Inr (jobToProto r)" by (auto simp: sync_def)
  let ?qs = "applyJobStatus (rb_now c) (qj_Status cr) (jobToProto r)"
  have ph: "qs_Phase ?qs = str_or (jr_Status r) ''phase''" by (simp add: applyJobStatus_def jobToProto_def Let_def)
  have fin: "polling_result s = None \<longleftrightarrow> s \<in> {''SUCCEEDED'', ''FAILED'', ''CANCELLED''}" for s by (simp add: polling_result_def)
  show ?thesis
  proof (cases "?qs = qj_Status cr")
    case True
    then have "fst w' = fst w" "polling_result (qs_Phase ?qs) = None" using S call a by (auto simp: sync_def Let_def)
    then show ?thesis using assms(2) ph fin True by (intro exI[of _ cr]) simp
  next
    case False
    obtain k1 u where up: "kb_StatusUpdate kb (with_status cr ?qs) (fst w) = (k1, u)" by force
    then obtain cr' where u: "u = Inr cr'" "w' = (k1, d1)" "polling_result (qs_Phase (qj_Status cr')) = None"
      using S call a False by (cases u) (auto simp: sync_def Let_def resyncEvery_def split: if_splits)
    moreover have "kb_StatusUpdate kb x k = (k', Inr y) \<Longrightarrow> qj_Status y = qj_Status x \<and> kb_Get kb (qj_Namespace x, qj_Name x) k' = Inr y" for x y k k'
      using assms(1) by (simp add: kube_ok_def)
    from this[of "with_status cr ?qs" "fst w" k1 cr'] up u(1) have "qj_Status cr' = ?qs" "kb_Get kb key k1 = Inr cr'"
      by (simp_all add: key with_status_def)
    ultimately show ?thesis using ph fin by (intro exI[of _ cr']) simp
  qed
qed

theorem polling_stops_at_final_phase_witness:
  "\<exists>w' cr'. Reconcile one_kube (demo_client Delivered) (''lab'', ''bell'')
      (demo_resource\<lparr>qj_Status := (qj_Status demo_resource)\<lparr>qs_JobID := ''j1''\<rparr>\<rparr>, demo_done) = (w', Inr None) \<and>
     kb_Get one_kube (''lab'', ''bell'') (fst w') = Inr cr' \<and> qs_Phase (qj_Status cr') = ''SUCCEEDED''"
proof -
  let ?cr = "demo_resource\<lparr>qj_Status := (qj_Status demo_resource)\<lparr>qs_JobID := ''j1''\<rparr>\<rparr>" and ?c = "demo_client Delivered"
  have k: "kube_ok one_kube" by (auto simp: kube_ok_def one_kube_def split: if_splits)
  have "(case GetJob demo_done ''j1'' of Inr r \<Rightarrow> str_or (jr_Status r) ''phase'' = ''SUCCEEDED'' | Inl _ \<Rightarrow> False)" by code_simp
  then obtain r where r: "GetJob demo_done ''j1'' = Inr r" "str_or (jr_Status r) ''phase'' = ''SUCCEEDED''" by (auto split: sum.splits)
  have "rabi_GetJob ?c ''j1'' demo_done = api_GetJob ''j1'' (Some bootstrap_principal) demo_done"
    unfolding rabi_GetJob_def by (rule demo_rpc(1)) (simp_all add: MinRole_def minRole_def demo_client_def)
  then have g: "rabi_GetJob ?c ''j1'' demo_done = (demo_done, Inr (jobToProto r))"
    using r(1) by (simp add: api_GetJob_def loadJob_def CheckProject_def FromContext_def bootstrap_principal_def)
  have cr: "kb_Get one_kube (''lab'', ''bell'') (fst (?cr, demo_done)) = Inr ?cr" "\<not> qj_Deleting ?cr" "Finalizer \<in> set (qj_Finalizers ?cr)"
    "qs_JobID (qj_Status ?cr) = ''j1''" by (simp_all add: one_kube_def demo_resource_def)
  have "\<exists>w'. Reconcile one_kube ?c (''lab'', ''bell'') (?cr, demo_done) = (w', Inr None)"
    using cr g r(2) by (simp add: Reconcile_def reconcile_live_def sync_def Let_def)
      (auto simp: one_kube_def with_status_def demo_resource_def applyJobStatus_def jobToProto_def Let_def polling_result_def)
  then obtain w' where w': "Reconcile one_kube ?c (''lab'', ''bell'') (?cr, demo_done) = (w', Inr None)" by blast
  from polling_stops_at_final_phase[OF k cr(1-3) _ _ w', of r] cr(4) r show ?thesis using w' by auto
qed

end
