(* ===== verification/Bench_Runner.thy ===== *)
theory Bench_Runner
  imports Scheduling
begin

text \<open>
  The benchmark runner (\<open>bench/runner/main.go\<close>): the seeded workload and the discrete-event simulation
  that runs it under a scheduling policy over a replayed calibration series. The random generator is
  an argument (its draws are functions of its state); circuit files and the series are arguments too,
  since reading them is file access. Index panics are \<open>None\<close>. Go's \<open>for _, c := range key\<close> of the
  physics seed runs over the bytes of the key, which are its runes for the ASCII names in use.
\<close>

section \<open>The series\<close>

definition interArrivalBurstS :: float64 where "interArrivalBurstS = 20"
definition interArrivalCalmS :: float64 where "interArrivalCalmS = 400"
definition burstProb :: float64 where "burstProb = 35 / 100"
definition execBaseS :: float64 where "execBaseS = 20"
definition execPerShotS :: float64 where "execPerShotS = 1 / 150"
definition deadlineProb :: float64 where "deadlineProb = 30 / 100"
definition floorProb :: float64 where "floorProb = 40 / 100"
definition drainCapHours :: float64 where "drainCapHours = 12"
definition pendingRetryS :: float64 where "pendingRetryS = 60"

definition shotChoices :: "nat list" where
  "shotChoices = [500, 1000, 2000, 4000]"

record seriesSnap =
  sn_SnapshotID :: string
  sn_SimOffsetS :: float64
  sn_Metrics :: "Metric list"

record seriesTarget =
  sr_Name :: string
  sr_Qubits :: nat
  sr_Formats :: "string list"
  sr_Billing :: "string list"
  sr_MaxShots :: nat
  sr_Technology :: string
  sr_TwoQubit :: string
  sr_Nominal2Q :: float64
  sr_StepSeconds :: float64
  sr_Snapshots :: "seriesSnap list"

text \<open>\<open>sort.Search\<close> on the interval from \<open>i\<close> to \<open>j\<close>.\<close>

function Search :: "(nat \<Rightarrow> bool) \<Rightarrow> nat \<Rightarrow> nat \<Rightarrow> nat" where
  "Search f i j = (if i < j then (let h = (i + j) div 2 in if \<not> f h then Search f (Suc h) j else Search f i h) else i)"
  by auto

termination by (relation "measure (\<lambda>(f, i, j). j - i)") (auto simp: Let_def)

declare Search.simps [simp del]

definition snapAt :: "seriesTarget \<Rightarrow> float64 \<Rightarrow> seriesSnap option" where
  "snapAt st t =
     (let idx = int (Search (\<lambda>i. sn_SimOffsetS (sr_Snapshots st ! i) > t) 0 (length (sr_Snapshots st))) - 1;
          idx' = (if idx < 0 then 0 else nat idx)
      in if idx' < length (sr_Snapshots st) then Some (sr_Snapshots st ! idx') else None)"

text \<open>\<open>time.Date(2026, 7, 1, 0, 0, 0, 0, time.UTC)\<close>, and offsets from it.\<close>

definition simBase :: time where
  "simBase = 1782864000000000000"

definition viewAt :: "seriesTarget \<Rightarrow> float64 \<Rightarrow> float64 \<Rightarrow> nat \<Rightarrow> TargetView option" where
  "viewAt st t waitS depth =
     (case snapAt st t of
        None \<Rightarrow> None
      | Some snap \<Rightarrow> Some \<lparr>tv_Name = sr_Name st, tv_Modality = ''gate-model'', tv_Technology = sr_Technology st,
          tv_Qubits = sr_Qubits st, tv_Formats = sr_Formats st, tv_MaxShots = sr_MaxShots st,
          tv_Billing = sr_Billing st, tv_Online = True, tv_Cloud = False, tv_SnapshotID = sn_SnapshotID snap,
          tv_MeasuredAt = simBase + wrap64 (trunc (sn_SimOffsetS snap) * 1000000000),
          tv_Metrics = sn_Metrics snap, tv_QueueDepth = depth, tv_WaitSeconds = waitS, tv_Maintenance = [],
          tv_Nominal2QError = sr_Nominal2Q st\<rparr>)"

section \<open>The workload\<close>

record circuitInfo =
  ci_Name :: string
  ci_Width :: int
  ci_Profile :: CircuitProfile
  ci_Source :: string

record benchJob =
  bj_ID :: string
  bj_Circuit :: circuitInfo
  bj_Shots :: nat
  bj_ArrivalS :: float64
  bj_DeadlineS :: float64
  bj_Floor2Q :: float64
  bj_FloorRO :: float64

text \<open>\<open>loadCircuits\<close> on the files of the directory, as base name and contents.\<close>

datatype load_error = BadCircuit string qasm_error | NoCircuits

fun load_all :: "(string \<times> string) list \<Rightarrow> load_error + circuitInfo list" where
  "load_all [] = Inr []"
| "load_all ((name, raw) # fs) =
     (case ProfileQASM raw of
        Inl e \<Rightarrow> Inl (BadCircuit name e)
      | Inr profile \<Rightarrow>
          (case load_all fs of
             Inl e \<Rightarrow> Inl e
           | Inr cs \<Rightarrow> Inr (\<lparr>ci_Name = name, ci_Width = cp_Qubits profile, ci_Profile = profile, ci_Source = raw\<rparr> # cs)))"

definition loadCircuits :: "(string \<times> string) list \<Rightarrow> load_error + circuitInfo list" where
  "loadCircuits files =
     (case load_all (sort_key fst files) of
        Inl e \<Rightarrow> Inl e
      | Inr out \<Rightarrow> if out = [] then Inl NoCircuits else Inr out)"

text \<open>A generator of \<open>math/rand\<close>: its three draws, each with the next state.\<close>

record 'g rand =
  rn_Float64 :: "'g \<Rightarrow> float64 \<times> 'g"
  rn_ExpFloat64 :: "'g \<Rightarrow> float64 \<times> 'g"
  rn_Intn :: "nat \<Rightarrow> 'g \<Rightarrow> nat \<times> 'g"

text \<open>\<open>%04d\<close>.\<close>

definition pad4 :: "nat \<Rightarrow> string" where
  "pad4 i = replicate (4 - length (itoa i)) CHR ''0'' @ itoa i"

definition draw_floors :: "'g rand \<Rightarrow> 'g \<Rightarrow> (float64 \<times> float64) \<times> 'g" where
  "draw_floors r g =
     (let (a, g1) = rn_Float64 r g
      in if a < floorProb
         then
           (let (b, g2) = rn_Float64 r g1;
                (f2q, g3) = (if b < 7 / 10 then (let (x, h) = rn_Float64 r g2 in (35 / 10000 + x * (4 / 1000), h)) else (0, g2));
                (c, g4) = rn_Float64 r g3;
                (fro, g5) = (if c < 5 / 10 then (let (x, h) = rn_Float64 r g4 in (7 / 1000 + x * (13 / 1000), h)) else (0, g4))
            in if f2q = 0 \<and> fro = 0
               then (let (x, g6) = rn_Float64 r g5 in ((35 / 10000 + x * (4 / 1000), fro), g6))
               else ((f2q, fro), g5))
         else ((0, 0), g1))"

definition draw_job :: "'g rand \<Rightarrow> circuitInfo list \<Rightarrow> nat \<Rightarrow> float64 \<Rightarrow> 'g \<Rightarrow> benchJob \<times> float64 \<times> 'g" where
  "draw_job r circuits i now g =
     (let (a, g1) = rn_Float64 r g;
          (e, g2) = rn_ExpFloat64 r g1;
          now' = now + e * (if a < burstProb then interArrivalBurstS else interArrivalCalmS);
          (c, g3) = rn_Intn r (length circuits) g2;
          (k, g4) = rn_Intn r (length shotChoices) g3;
          (b, g5) = rn_Float64 r g4;
          (dl, g6) = (if b < deadlineProb then (let (x, h) = rn_Float64 r g5 in (now' + 300 + x * 1800, h)) else (0, g5));
          ((f2q, fro), g7) = draw_floors r g6
      in (\<lparr>bj_ID = ''bj-'' @ pad4 i, bj_Circuit = circuits ! c, bj_Shots = shotChoices ! k, bj_ArrivalS = now',
           bj_DeadlineS = dl, bj_Floor2Q = f2q, bj_FloorRO = fro\<rparr>, now', g7))"

fun workload_from :: "'g rand \<Rightarrow> circuitInfo list \<Rightarrow> nat \<Rightarrow> nat \<Rightarrow> float64 \<Rightarrow> 'g \<Rightarrow> benchJob list" where
  "workload_from r circuits i 0 now g = []"
| "workload_from r circuits i (Suc n) now g =
     (let (j, now', g') = draw_job r circuits i now g in j # workload_from r circuits (Suc i) n now' g')"

text \<open>\<open>Intn\<close> of an empty list of circuits panics.\<close>

definition generateWorkload :: "'g rand \<Rightarrow> circuitInfo list \<Rightarrow> nat \<Rightarrow> 'g \<Rightarrow> benchJob list option" where
  "generateWorkload r circuits n g =
     (if circuits = [] \<and> n \<noteq> 0 then None else Some (workload_from r circuits 0 n 0 g))"

definition bench_view :: "benchJob \<Rightarrow> JobView" where
  "bench_view j = (new_JobView (bj_ID j) ''bench'' ''gate-model'')
     \<lparr>jv_Format := ''openqasm3'', jv_Shots := bj_Shots j, jv_Qubits := nat (ci_Width (bj_Circuit j) mod 2 ^ 32),
      jv_TwoQubitErrorMax := bj_Floor2Q j, jv_ReadoutErrorMax := bj_FloorRO j, jv_Profile := Some (ci_Profile (bj_Circuit j)),
      jv_Deadline := (if bj_DeadlineS j > 0 then simBase + wrap64 (trunc (bj_DeadlineS j) * 1000000000) else zero_time)\<rparr>"

section \<open>The simulation\<close>

record execution =
  ex_JobID :: string
  ex_Circuit :: string
  ex_Width :: int
  ex_Shots :: nat
  ex_ArrivalS :: float64
  ex_StartS :: float64
  ex_EndS :: float64
  ex_WaitS :: float64
  ex_Target :: string
  ex_SnapshotID :: string
  ex_ESP :: float64
  ex_Floor2Q :: float64
  ex_FloorRO :: float64
  ex_SLOViolate :: bool
  ex_DeadlineS :: float64
  ex_DeadlineOK :: bool
  ex_Unplaced :: bool
  ex_PhysSeed :: "64 word"

definition execDuration :: "nat \<Rightarrow> float64" where
  "execDuration shots = execBaseS + real shots * execPerShotS"

definition min_value :: "(string \<Rightarrow> bool) \<Rightarrow> Metric list \<Rightarrow> float64 option" where
  "min_value match ms = fold (\<lambda>m best.
     if \<not> match (mt_Name m) then best
     else (case best of None \<Rightarrow> Some (mt_Value m) | Some b \<Rightarrow> if mt_Value m < b then Some (mt_Value m) else best)) ms None"

definition minMetric :: "seriesSnap \<Rightarrow> string \<Rightarrow> float64 option" where
  "minMetric s p = min_value (\<lambda>n. prefix p n \<and> suffix ''.error'' n) (sn_Metrics s)"

definition minMetricExact :: "seriesSnap \<Rightarrow> string \<Rightarrow> float64 option" where
  "minMetricExact s name = min_value (\<lambda>n. n = name) (sn_Metrics s)"

text \<open>The multiplicative hash in 64-bit arithmetic.\<close>

definition physSeed :: "string \<Rightarrow> 64 word" where
  "physSeed key = and (fold (\<lambda>c h. (xor h (of_nat (of_char c))) * 1099511628211) key 1469598103934665603) 0x7fffffff"

text \<open>The state of a run: the policy's counter, when targets become free, how many jobs they took and the
  results.\<close>

record sim =
  sm_counter :: "64 word"
  sm_freeAt :: "string \<Rightarrow> float64"
  sm_depth :: "string \<Rightarrow> nat"
  sm_results :: "string \<rightharpoonup> execution"

definition fleet_at :: "sim \<Rightarrow> float64 \<Rightarrow> seriesTarget list \<Rightarrow> TargetView list option" where
  "fleet_at s now targets =
     those (map (\<lambda>t. viewAt t now (max 0 (sm_freeAt s (sr_Name t) - now)) (sm_depth s (sr_Name t))) targets)"

definition floor_broken :: "float64 \<Rightarrow> float64 option \<Rightarrow> bool" where
  "floor_broken limit v = (limit > 0 \<and> (case v of None \<Rightarrow> True | Some x \<Rightarrow> x > limit))"

definition placed_execution :: "benchJob \<Rightarrow> seriesTarget \<Rightarrow> seriesSnap \<Rightarrow> float64 \<Rightarrow> float64 \<Rightarrow> execution" where
  "placed_execution j target execSnap start esp =
     (let end_s = start + execDuration (bj_Shots j)
      in \<lparr>ex_JobID = bj_ID j, ex_Circuit = ci_Name (bj_Circuit j), ex_Width = ci_Width (bj_Circuit j), ex_Shots = bj_Shots j,
          ex_ArrivalS = bj_ArrivalS j, ex_StartS = start, ex_EndS = end_s, ex_WaitS = start - bj_ArrivalS j,
          ex_Target = sr_Name target, ex_SnapshotID = sn_SnapshotID execSnap, ex_ESP = esp,
          ex_Floor2Q = bj_Floor2Q j, ex_FloorRO = bj_FloorRO j,
          ex_SLOViolate = (floor_broken (bj_Floor2Q j) (minMetric execSnap ''gate.2q.'') \<or>
            floor_broken (bj_FloorRO j) (minMetricExact execSnap ''readout.error'')),
          ex_DeadlineS = bj_DeadlineS j, ex_DeadlineOK = (bj_DeadlineS j = 0 \<or> end_s \<le> bj_DeadlineS j),
          ex_Unplaced = False,
          ex_PhysSeed = physSeed (ci_Name (bj_Circuit j) @ ''|'' @ sr_Name target @ ''|'' @ sn_SnapshotID execSnap)\<rparr>)"

text \<open>Placement of one job: \<open>None\<close> is a panic, otherwise whether it was placed and the new state.\<close>

definition tryPlace :: "policy \<Rightarrow> benchJob \<Rightarrow> float64 \<Rightarrow> seriesTarget list \<Rightarrow> sim \<Rightarrow> (bool \<times> sim) option" where
  "tryPlace po j now targets s =
     (case fleet_at s now targets of
        None \<Rightarrow> None
      | Some fleet \<Rightarrow>
          (let (decision, c') = Schedule po (sm_counter s) (bench_view j) fleet (simBase + trunc (now * 1000000000));
               s1 = s\<lparr>sm_counter := c'\<rparr>
           in if de_Target decision = [] then Some (False, s1)
              else
                (case map_of (map (\<lambda>t. (sr_Name t, t)) (rev targets)) (de_Target decision) of
                   None \<Rightarrow> None
                 | Some target \<Rightarrow>
                     (let start = max now (sm_freeAt s1 (sr_Name target))
                      in case snapAt target start of
                           None \<Rightarrow> None
                         | Some execSnap \<Rightarrow>
                             (let e = placed_execution j target execSnap start (de_PredictedESP decision)
                              in Some (True, s1\<lparr>sm_freeAt := (sm_freeAt s1)(sr_Name target := ex_EndS e),
                                   sm_depth := (sm_depth s1)(sr_Name target := (sm_depth s1 (sr_Name target) + 1) mod 2 ^ 32),
                                   sm_results := (sm_results s1)(bj_ID j \<mapsto> e)\<rparr>))))))"

text \<open>The jobs that are due, in order; the others wait, and those that were not placed are retried later.\<close>

fun process_due ::
  "policy \<Rightarrow> float64 \<Rightarrow> seriesTarget list \<Rightarrow> (benchJob \<times> float64) list \<Rightarrow> sim \<Rightarrow> ((benchJob \<times> float64) list \<times> sim) option" where
  "process_due po now targets [] s = Some ([], s)"
| "process_due po now targets ((j, nextTry) # ps) s =
     (if nextTry > now
      then (case process_due po now targets ps s of None \<Rightarrow> None | Some (still, s') \<Rightarrow> Some ((j, nextTry) # still, s'))
      else
        (case tryPlace po j now targets s of
           None \<Rightarrow> None
         | Some (placed, s1) \<Rightarrow>
             (case process_due po now targets ps s1 of
                None \<Rightarrow> None
              | Some (still, s') \<Rightarrow> Some (if placed then still else (j, now + pendingRetryS) # still, s'))))"

definition next_event :: "benchJob list \<Rightarrow> (benchJob \<times> float64) list \<Rightarrow> float64 option" where
  "next_event arr pending =
     foldl (\<lambda>t p. case t of None \<Rightarrow> Some (snd p) | Some x \<Rightarrow> if snd p < x then Some (snd p) else t)
       (case arr of [] \<Rightarrow> None | j # _ \<Rightarrow> Some (bj_ArrivalS j)) pending"

definition admit_arrival ::
  "float64 \<Rightarrow> benchJob list \<Rightarrow> (benchJob \<times> float64) list \<Rightarrow> benchJob list \<times> (benchJob \<times> float64) list" where
  "admit_arrival now arr pending =
     (case arr of
        j # js \<Rightarrow> if bj_ArrivalS j \<le> now then (js, pending @ [(j, now)]) else (arr, pending)
      | [] \<Rightarrow> ([], pending))"

text \<open>How often a job can still be tried up to the horizon: the measure of the event loop.\<close>

definition tries :: "float64 \<Rightarrow> float64 \<Rightarrow> nat" where
  "tries horizonS t = (if t > horizonS then 0 else Suc (nat \<lfloor>(horizonS - t) / pendingRetryS\<rfloor>))"

definition tries_left :: "float64 \<Rightarrow> benchJob list \<Rightarrow> (benchJob \<times> float64) list \<Rightarrow> nat" where
  "tries_left horizonS arr pending =
     sum_list (map (\<lambda>j. tries horizonS (bj_ArrivalS j)) arr) + sum_list (map (\<lambda>p. tries horizonS (snd p)) pending)"

lemma tries_retry:
  assumes "t \<le> now" and "now \<le> horizonS"
  shows "tries horizonS (now + pendingRetryS) < tries horizonS t"
proof (cases "now + pendingRetryS > horizonS")
  case False
  have "(horizonS - (now + pendingRetryS)) / pendingRetryS = (horizonS - now) / pendingRetryS - 1"
    by (simp add: pendingRetryS_def field_simps)
  then have "\<lfloor>(horizonS - (now + pendingRetryS)) / pendingRetryS\<rfloor> = \<lfloor>(horizonS - now) / pendingRetryS\<rfloor> - 1" by simp
  moreover have "\<lfloor>(horizonS - now) / pendingRetryS\<rfloor> \<le> \<lfloor>(horizonS - t) / pendingRetryS\<rfloor>"
    using assms by (intro floor_mono) (simp add: pendingRetryS_def)
  moreover have "0 \<le> \<lfloor>(horizonS - (now + pendingRetryS)) / pendingRetryS\<rfloor>" using False by (simp add: pendingRetryS_def)
  ultimately have "nat \<lfloor>(horizonS - (now + pendingRetryS)) / pendingRetryS\<rfloor> < nat \<lfloor>(horizonS - t) / pendingRetryS\<rfloor>"
    by linarith
  then show ?thesis using assms False by (simp add: tries_def)
qed (use assms in \<open>auto simp: tries_def\<close>)

lemma process_due_tries:
  assumes "process_due po now targets ps s = Some (still, s')" and "now \<le> horizonS"
  shows "tries_left horizonS [] still \<le> tries_left horizonS [] ps"
    "\<exists>p \<in> set ps. snd p \<le> now \<Longrightarrow> tries_left horizonS [] still < tries_left horizonS [] ps"
proof -
  have "tries_left horizonS [] still \<le> tries_left horizonS [] ps \<and>
    ((\<exists>p \<in> set ps. snd p \<le> now) \<longrightarrow> tries_left horizonS [] still < tries_left horizonS [] ps)"
    using assms(1)
  proof (induction ps arbitrary: s still s')
    case (Cons p ps)
    obtain j t where p: "p = (j, t)" by force
    show ?case
    proof (cases "t > now")
      case True
      then obtain rest where "process_due po now targets ps s = Some (rest, s')" "still = (j, t) # rest"
        using Cons.prems p by (auto split: option.splits)
      with Cons.IH[of s rest s'] True p show ?thesis by (auto simp: tries_left_def)
    next
      case False
      then obtain placed s1 rest where "process_due po now targets ps s1 = Some (rest, s')"
        "still = (if placed then rest else (j, now + pendingRetryS) # rest)"
        using Cons.prems p by (auto split: option.splits)
      with Cons.IH[of s1 rest s'] tries_retry[of t now horizonS] False p assms(2) show ?thesis
        by (auto simp: tries_left_def)
    qed
  qed (simp add: tries_left_def)
  then show "tries_left horizonS [] still \<le> tries_left horizonS [] ps"
    "\<exists>p \<in> set ps. snd p \<le> now \<Longrightarrow> tries_left horizonS [] still < tries_left horizonS [] ps" by auto
qed

lemma next_event_fold:
  fixes pending :: "(benchJob \<times> float64) list"
  shows "foldl (\<lambda>t p. case t of None \<Rightarrow> Some (snd p) | Some x \<Rightarrow> if snd p < x then Some (snd p) else t) t0 pending = Some now \<Longrightarrow>
     (\<forall>p \<in> set pending. now \<le> snd p) \<and> (\<forall>x. t0 = Some x \<longrightarrow> now \<le> x) \<and> (t0 = Some now \<or> (\<exists>p \<in> set pending. snd p = now))"
proof (induction pending arbitrary: t0)
  case (Cons p ps)
  let ?t1 = "case t0 of None \<Rightarrow> Some (snd p) | Some x \<Rightarrow> if snd p < x then Some (snd p) else t0"
  from Cons.prems have "foldl (\<lambda>t p. case t of None \<Rightarrow> Some (snd p) | Some x \<Rightarrow> if snd p < x then Some (snd p) else t) ?t1 ps = Some now"
    by simp
  note IH = Cons.IH[OF this]
  show ?case
  proof (cases t0)
    case None
    then show ?thesis using IH by auto
  next
    case (Some x)
    then have "now \<le> (if snd p < x then snd p else x)" using IH by (simp split: if_splits)
    then have "now \<le> x" "now \<le> snd p" by (simp_all split: if_splits)
    then show ?thesis using IH Some by (auto split: if_splits)
  qed
qed simp

lemma next_event_Some:
  assumes "next_event arr pending = Some now"
  shows "\<forall>p \<in> set pending. now \<le> snd p" "arr \<noteq> [] \<Longrightarrow> now \<le> bj_ArrivalS (hd arr)"
    "(arr \<noteq> [] \<and> bj_ArrivalS (hd arr) = now) \<or> (\<exists>p \<in> set pending. snd p = now)"
  using next_event_fold[OF assms[unfolded next_event_def]] by (cases arr; auto)+

lemma event_tries:
  assumes "next_event arr pending = Some now" and "now \<le> horizonS" and "admit_arrival now arr pending = (arr', pending')"
    and "process_due po now targets pending' s = Some (still, s')"
  shows "tries_left horizonS arr' still < tries_left horizonS arr pending"
proof -
  have same: "tries_left horizonS arr' pending' = tries_left horizonS arr pending" and due: "\<exists>p \<in> set pending'. snd p \<le> now"
    using next_event_Some[OF assms(1)] assms(3)
    by (cases arr; auto simp: admit_arrival_def tries_left_def split: if_splits)+
  have split: "tries_left horizonS as ps = tries_left horizonS as [] + tries_left horizonS [] ps" for as ps
    by (simp add: tries_left_def)
  show ?thesis using process_due_tries(2)[OF assms(4,2) due] same split[of arr' still] split[of arr' pending'] by simp
qed

function event_loop ::
  "policy \<Rightarrow> seriesTarget list \<Rightarrow> float64 \<Rightarrow> benchJob list \<Rightarrow> (benchJob \<times> float64) list \<Rightarrow> sim \<Rightarrow> sim option" where
  "event_loop po targets horizonS arr pending s =
     (case next_event arr pending of
        None \<Rightarrow> Some s
      | Some now \<Rightarrow>
          if now > horizonS then Some s
          else
            (case process_due po now targets (snd (admit_arrival now arr pending)) s of
               None \<Rightarrow> None
             | Some (still, s') \<Rightarrow> event_loop po targets horizonS (fst (admit_arrival now arr pending)) still s'))"
  by auto

termination
proof (relation "measure (\<lambda>(po, targets, horizonS, arr, pending, s). tries_left horizonS arr pending)", goal_cases)
  case (2 po targets horizonS arr pending s now r still s')
  then show ?case using event_tries[of arr pending now horizonS _ _ po targets s still s'] by (cases "admit_arrival now arr pending") auto
qed simp

declare event_loop.simps [simp del]

definition unplaced_execution :: "float64 \<Rightarrow> benchJob \<Rightarrow> execution" where
  "unplaced_execution horizonS j = \<lparr>ex_JobID = bj_ID j, ex_Circuit = ci_Name (bj_Circuit j), ex_Width = ci_Width (bj_Circuit j),
     ex_Shots = bj_Shots j, ex_ArrivalS = bj_ArrivalS j, ex_StartS = 0, ex_EndS = 0, ex_WaitS = horizonS - bj_ArrivalS j,
     ex_Target = [], ex_SnapshotID = [], ex_ESP = 0, ex_Floor2Q = bj_Floor2Q j, ex_FloorRO = bj_FloorRO j,
     ex_SLOViolate = False, ex_DeadlineS = bj_DeadlineS j, ex_DeadlineOK = False, ex_Unplaced = True, ex_PhysSeed = 0\<rparr>"

datatype sim_error = UnknownPolicy string "string list" | SimPanic

definition add_unplaced :: "float64 \<Rightarrow> benchJob \<Rightarrow> (string \<rightharpoonup> execution) \<Rightarrow> (string \<rightharpoonup> execution)" where
  "add_unplaced horizonS j results =
     (if results (bj_ID j) = None then results(bj_ID j \<mapsto> unplaced_execution horizonS j) else results)"

definition simulate ::
  "(string \<times> policy) list \<Rightarrow> string \<Rightarrow> benchJob list \<Rightarrow> seriesTarget list \<Rightarrow> sim_error + execution list" where
  "simulate factories policyName jobs targets =
     (case NewPolicy factories policyName of
        Inl (n, known) \<Rightarrow> Inl (UnknownPolicy n known)
      | Inr po \<Rightarrow>
          if jobs = [] then Inl SimPanic
          else
            (let horizonS = bj_ArrivalS (last jobs) + drainCapHours * 3600
             in case event_loop po targets horizonS jobs []
                       \<lparr>sm_counter = 0, sm_freeAt = (\<lambda>_. 0), sm_depth = (\<lambda>_. 0), sm_results = (\<lambda>_. None)\<rparr> of
                  None \<Rightarrow> Inl SimPanic
                | Some s \<Rightarrow>
                    (let results = fold (add_unplaced horizonS) jobs (sm_results s)
                     in Inr (map (\<lambda>j. the (results (bj_ID j))) jobs))))"

end
