(* ===== verification/Bench_Properties.thy ===== *)
theory Bench_Properties
  imports Bench_Runner Scheduler_Properties
begin

text \<open>
  The benchmark: the binary search for a snapshot finds the one in effect, the simulation ends with one
  result per job and never panics, a target runs one job at a time, and the generated workload is what
  the simulation expects.
\<close>

section \<open>Snapshots\<close>

text \<open>On a monotone predicate the search finds the border.\<close>

lemma Search_border:
  assumes "\<And>a b. a \<le> b \<Longrightarrow> b < n \<Longrightarrow> f a \<Longrightarrow> f b" and "i \<le> j" and "j \<le> n" and "\<And>k. k < i \<Longrightarrow> \<not> f k"
    and "\<And>k. j \<le> k \<Longrightarrow> k < n \<Longrightarrow> f k"
  shows "Search f i j \<le> n \<and> (\<forall>k < Search f i j. \<not> f k) \<and> (\<forall>k. Search f i j \<le> k \<and> k < n \<longrightarrow> f k)"
  using assms
proof (induction f i j rule: Search.induct)
  case (1 f i j)
  note mono = 1(3) and low = 1(6) and high = 1(7)
  show ?case
  proof (cases "i < j")
    case True
    let ?h = "(i + j) div 2"
    have h: "i \<le> ?h" "?h < j" "?h < n" using True 1(5) by auto
    show ?thesis
    proof (cases "f ?h")
      case False
      have low': "\<not> f k" if "k < Suc ?h" for k
        using mono[of k ?h] that h(3) False by (meson less_Suc_eq_le)
      have "Search f (Suc ?h) j \<le> n \<and> (\<forall>k < Search f (Suc ?h) j. \<not> f k) \<and> (\<forall>k. Search f (Suc ?h) j \<le> k \<and> k < n \<longrightarrow> f k)"
        using 1(1)[OF True refl False mono Suc_leI[OF h(2)] 1(5) low' high] .
      then show ?thesis using False True by (simp add: Search.simps[of f i j] Let_def)
    next
      case f: True
      have high': "f k" if "?h \<le> k" "k < n" for k using mono[of ?h k] that f by simp
      have "Search f i ?h \<le> n \<and> (\<forall>k < Search f i ?h. \<not> f k) \<and> (\<forall>k. Search f i ?h \<le> k \<and> k < n \<longrightarrow> f k)"
        using 1(2)[OF True refl _ mono h(1) less_imp_le[OF h(3)] low high'] f by simp
      then show ?thesis using f True by (simp add: Search.simps[of f i j] Let_def)
    qed
  next
    case False
    then have "Search f i j = j" using 1(4) by (subst Search.simps) simp
    then show ?thesis using False 1(4,5) low high by auto
  qed
qed

lemma Search_le: "i \<le> j \<Longrightarrow> Search f i j \<le> j"
proof (induction f i j rule: Search.induct)
  case (1 f i j)
  show ?case
  proof (cases "i < j")
    case True
    let ?h = "(i + j) div 2"
    have h: "i \<le> ?h" "?h < j" using True by auto
    show ?thesis
    proof (cases "f ?h")
      case f: True
      have "Search f i ?h \<le> ?h" using 1(2)[OF True refl] f h by blast
      then show ?thesis using f True h(2) by (simp add: Search.simps[of f i j] Let_def)
    next
      case False
      have "Search f (Suc ?h) j \<le> j" using 1(1)[OF True refl False] h by simp
      then show ?thesis using False True by (simp add: Search.simps[of f i j] Let_def)
    qed
  next
    case False
    then show ?thesis using 1(3) by (subst Search.simps) simp
  qed
qed

lemma snapAt_Some: "sr_Snapshots st \<noteq> [] \<Longrightarrow> \<exists>snap \<in> set (sr_Snapshots st). snapAt st t = Some snap"
  using Search_le[of 0 "length (sr_Snapshots st)" "\<lambda>i. sn_SimOffsetS (sr_Snapshots st ! i) > t"]
  by (auto simp: snapAt_def Let_def)

text \<open>The snapshot in effect. On a series in order of time, the binary search returns the last snapshot taken
  at or before the instant, and the first one for instants before all of them.\<close>

theorem snapshot_in_effect:
  assumes "sorted (map sn_SimOffsetS (sr_Snapshots st))" and "sr_Snapshots st \<noteq> []"
  shows "snapAt st t = Some (last (hd (sr_Snapshots st) # filter (\<lambda>s. sn_SimOffsetS s \<le> t) (sr_Snapshots st)))"
proof -
  let ?ss = "sr_Snapshots st" and ?f = "\<lambda>i. sn_SimOffsetS (sr_Snapshots st ! i) > t"
  let ?k = "Search ?f 0 (length ?ss)"
  have mono: "?f b" if "a \<le> b" "b < length ?ss" "?f a" for a b
    using that sorted_nth_mono[OF assms(1), of a b] by simp
  have "?k \<le> length ?ss \<and> (\<forall>i < ?k. \<not> ?f i) \<and> (\<forall>i. ?k \<le> i \<and> i < length ?ss \<longrightarrow> ?f i)"
    by (rule Search_border[OF mono]) simp_all
  then have k: "?k \<le> length ?ss" "\<forall>i < ?k. \<not> ?f i" "\<forall>i. ?k \<le> i \<and> i < length ?ss \<longrightarrow> ?f i" by blast+
  have low: "sn_SimOffsetS s \<le> t" if "s \<in> set (take ?k ?ss)" for s
    using that k(1,2) by (auto simp: in_set_conv_nth not_less)
  have high: "t < sn_SimOffsetS s" if "s \<in> set (drop ?k ?ss)" for s
  proof -
    from that obtain m where "m < length ?ss - ?k" "s = ?ss ! (?k + m)" by (auto simp: in_set_conv_nth)
    then show ?thesis using k(3) by auto
  qed
  have "filter (\<lambda>s. sn_SimOffsetS s \<le> t) (take ?k ?ss @ drop ?k ?ss) = take ?k ?ss"
  proof -
    have "filter (\<lambda>s. sn_SimOffsetS s \<le> t) (take ?k ?ss) = take ?k ?ss" using low by (intro filter_True) blast
    moreover have "filter (\<lambda>s. sn_SimOffsetS s \<le> t) (drop ?k ?ss) = []" using high by (intro filter_False) (meson not_le)
    ultimately show ?thesis unfolding filter_append by simp
  qed
  then have flt: "filter (\<lambda>s. sn_SimOffsetS s \<le> t) ?ss = take ?k ?ss" by simp
  have "snapAt st t = Some (?ss ! (?k - 1))"
    using k(1) assms(2) by (cases ?k) (auto simp: snapAt_def Let_def)
  also have "?ss ! (?k - 1) = last (hd ?ss # take ?k ?ss)"
  proof (cases "?k = 0")
    case True
    then show ?thesis using assms(2) by (simp add: hd_conv_nth)
  next
    case False
    then show ?thesis using k(1) assms(2) by (simp add: last_conv_nth)
  qed
  finally show ?thesis unfolding flt .
qed

section \<open>Placement\<close>

lemma those_map_Some: "(\<And>x. x \<in> set xs \<Longrightarrow> f x \<noteq> None) \<Longrightarrow> those (map f xs) = Some (map (\<lambda>x. the (f x)) xs)"
  by (induction xs) (force split: option.splits)+

lemma fleet_at_Some:
  assumes "\<forall>t \<in> set targets. sr_Snapshots t \<noteq> []"
  shows "\<exists>fleet. fleet_at s now targets = Some fleet \<and> map tv_Name fleet = map sr_Name targets"
proof -
  have v: "\<exists>v. viewAt t now w k = Some v \<and> tv_Name v = sr_Name t" if "t \<in> set targets" for t w k
    using snapAt_Some[of t now] assms that by (auto simp: viewAt_def)
  let ?f = "\<lambda>t. viewAt t now (max 0 (sm_freeAt s (sr_Name t) - now)) (sm_depth s (sr_Name t))"
  have "fleet_at s now targets = Some (map (\<lambda>t. the (?f t)) targets)"
    unfolding fleet_at_def by (rule those_map_Some) (use v in fastforce)
  moreover have "tv_Name (the (?f t)) = sr_Name t" if "t \<in> set targets" for t
    using v[OF that] by (metis option.sel)
  ultimately show ?thesis by auto
qed

lemma tryPlace_cases:
  assumes "scheduling_policy po" and "\<forall>t \<in> set targets. sr_Snapshots t \<noteq> []"
  obtains (unplaced) c' where "tryPlace po j now targets s = Some (False, s\<lparr>sm_counter := c'\<rparr>)"
  | (placed) c' d' target snap esp e where "target \<in> set targets" "snapAt target (max now (sm_freeAt s (sr_Name target))) = Some snap"
      "e = placed_execution j target snap (max now (sm_freeAt s (sr_Name target))) esp"
      "tryPlace po j now targets s = Some (True, s\<lparr>sm_counter := c', sm_freeAt := (sm_freeAt s)(sr_Name target := ex_EndS e),
         sm_depth := d', sm_results := (sm_results s)(bj_ID j \<mapsto> e)\<rparr>)"
proof -
  obtain fleet where fl: "fleet_at s now targets = Some fleet" "map tv_Name fleet = map sr_Name targets"
    using fleet_at_Some[OF assms(2)] by blast
  let ?S = "Schedule po (sm_counter s) (bench_view j) fleet (simBase + trunc (now * 1000000000))"
  obtain dec c' where S: "?S = (dec, c')" by force
  show ?thesis
  proof (cases "de_Target dec = []")
    case True
    then show ?thesis using unplaced fl S by (simp add: tryPlace_def)
  next
    case False
    with scheduling_policy.chosen_capable[OF assms(1), of "sm_counter s" "bench_view j" fleet "simBase + trunc (now * 1000000000)"] S
    obtain v where "v \<in> set fleet" "tv_Name v = de_Target dec" by auto
    then have "de_Target dec \<in> set (map tv_Name fleet)" by force
    then have "de_Target dec \<in> set (map sr_Name targets)" using fl(2) by simp
    then have "map_of (map (\<lambda>t. (sr_Name t, t)) (rev targets)) (de_Target dec) \<noteq> None"
      by (simp only: map_of_eq_None_iff set_map set_rev image_image fst_conv not_not)
    then obtain target where t: "map_of (map (\<lambda>t. (sr_Name t, t)) (rev targets)) (de_Target dec) = Some target" by blast
    from map_of_SomeD[OF this] have mem: "target \<in> set targets" by auto
    obtain snap where sn: "snapAt target (max now (sm_freeAt s (sr_Name target))) = Some snap"
      using snapAt_Some[of target] assms(2) mem by blast
    show ?thesis
      by (rule placed[OF mem sn refl]) (use fl S False t sn in \<open>simp add: tryPlace_def Let_def\<close>)
  qed
qed

section \<open>What a run keeps\<close>

text \<open>Every recorded result is a placed execution of a job of the batch on a target of the series, and a target
  is never free before the end of an execution it was given.\<close>

definition result_ok :: "benchJob list \<Rightarrow> seriesTarget list \<Rightarrow> string \<Rightarrow> execution \<Rightarrow> bool" where
  "result_ok js targets i e \<longleftrightarrow>
     (\<exists>j target snap. j \<in> set js \<and> target \<in> set targets \<and> bj_ID j = i \<and> snapAt target (ex_StartS e) = Some snap \<and>
        e = placed_execution j target snap (ex_StartS e) (ex_ESP e) \<and> bj_ArrivalS j \<le> ex_StartS e)"

definition run_ok :: "benchJob list \<Rightarrow> seriesTarget list \<Rightarrow> sim \<Rightarrow> bool" where
  "run_ok js targets s \<longleftrightarrow>
     (\<forall>i e. sm_results s i = Some e \<longrightarrow> result_ok js targets i e \<and> ex_EndS e \<le> sm_freeAt s (ex_Target e)) \<and>
     (\<forall>i k e f. sm_results s i = Some e \<longrightarrow> sm_results s k = Some f \<longrightarrow> i \<noteq> k \<longrightarrow> ex_Target e = ex_Target f \<longrightarrow>
        ex_EndS e \<le> ex_StartS f \<or> ex_EndS f \<le> ex_StartS e)"

definition waiting_ok :: "benchJob list \<Rightarrow> (benchJob \<times> float64) list \<Rightarrow> bool" where
  "waiting_ok js pending \<longleftrightarrow> (\<forall>(j, t) \<in> set pending. j \<in> set js \<and> bj_ArrivalS j \<le> t)"

lemma placed_execution_simps [simp]:
  "ex_StartS (placed_execution j target snap start esp) = start"
  "ex_EndS (placed_execution j target snap start esp) = start + execDuration (bj_Shots j)"
  "ex_Target (placed_execution j target snap start esp) = sr_Name target"
  "ex_ESP (placed_execution j target snap start esp) = esp"
  "ex_JobID (placed_execution j target snap start esp) = bj_ID j"
  "\<not> ex_Unplaced (placed_execution j target snap start esp)"
  by (simp_all add: placed_execution_def Let_def)

lemma execDuration_pos: "0 < execDuration n"
  by (simp add: execDuration_def execBaseS_def execPerShotS_def add_pos_nonneg)

lemma run_ok_place:
  assumes "run_ok js targets s" and "j \<in> set js" and "target \<in> set targets" and "bj_ArrivalS j \<le> now"
    and "snapAt target (max now (sm_freeAt s (sr_Name target))) = Some snap"
    and "e = placed_execution j target snap (max now (sm_freeAt s (sr_Name target))) esp"
  shows "run_ok js targets (s\<lparr>sm_counter := c', sm_freeAt := (sm_freeAt s)(sr_Name target := ex_EndS e),
         sm_depth := d', sm_results := (sm_results s)(bj_ID j \<mapsto> e)\<rparr>)"
proof -
  let ?start = "max now (sm_freeAt s (sr_Name target))"
  have e: "ex_StartS e = ?start" "ex_Target e = sr_Name target" "sm_freeAt s (sr_Name target) \<le> ex_EndS e" "ex_ESP e = esp"
    using execDuration_pos[of "bj_Shots j"] by (simp_all add: assms(6))
  have "result_ok js targets (bj_ID j) e"
    unfolding result_ok_def using assms(2-6) e by (intro exI[of _ j] exI[of _ target] exI[of _ snap]) auto
  moreover have old: "ex_EndS f \<le> sm_freeAt s (ex_Target f)" if "sm_results s i = Some f" for i f
    using assms(1) that by (simp add: run_ok_def)
  moreover have "ex_EndS f \<le> ex_StartS e" if "sm_results s i = Some f" "ex_Target f = ex_Target e" for i f
    using old[OF that(1)] that(2) e by simp
  ultimately show ?thesis
    using assms(1) e unfolding run_ok_def by (auto simp: fun_upd_apply) (fastforce dest: old)+
qed

lemma run_ok_counter: "run_ok js targets s \<Longrightarrow> run_ok js targets (s\<lparr>sm_counter := c\<rparr>)"
  by (simp add: run_ok_def)

lemma process_due_ok:
  assumes "scheduling_policy po" and "\<forall>t \<in> set targets. sr_Snapshots t \<noteq> []"
    and "run_ok js targets s" and "waiting_ok js pending"
  shows "\<exists>still s'. process_due po now targets pending s = Some (still, s') \<and> run_ok js targets s' \<and> waiting_ok js still"
  using assms(3,4)
proof (induction pending arbitrary: s)
  case (Cons p ps)
  obtain j t where p: "p = (j, t)" by force
  with Cons.prems(2) have j: "j \<in> set js" "bj_ArrivalS j \<le> t" and w: "waiting_ok js ps" by (auto simp: waiting_ok_def)
  show ?case
  proof (cases "t > now")
    case True
    then show ?thesis using Cons.IH[OF Cons.prems(1) w] j p by (auto simp: waiting_ok_def)
  next
    case False
    from assms(1,2) show ?thesis
    proof (cases rule: tryPlace_cases[where j = j and now = now and s = s])
      case (unplaced c')
      with Cons.IH[OF run_ok_counter[OF Cons.prems(1)] w, of c'] j p False show ?thesis
        by (auto simp: waiting_ok_def pendingRetryS_def)
    next
      case (placed c' d' target snap esp e)
      from run_ok_place[OF Cons.prems(1) j(1) placed(1) _ placed(2,3), where c' = c' and d' = d'] j(2) False
      obtain still s' where "process_due po now targets ps (s\<lparr>sm_counter := c', sm_freeAt := (sm_freeAt s)(sr_Name target := ex_EndS e),
         sm_depth := d', sm_results := (sm_results s)(bj_ID j \<mapsto> e)\<rparr>) = Some (still, s')" "run_ok js targets s'" "waiting_ok js still"
        using Cons.IH[OF _ w] by (meson dual_order.trans linorder_not_less)
      then show ?thesis using placed(4) p False by auto
    qed
  qed
qed (simp add: waiting_ok_def)

lemma event_loop_ok:
  assumes "scheduling_policy po" and "\<forall>t \<in> set targets. sr_Snapshots t \<noteq> []"
    and "run_ok js targets s" and "waiting_ok js pending" and "set arr \<subseteq> set js"
  shows "\<exists>s'. event_loop po targets horizonS arr pending s = Some s' \<and> run_ok js targets s'"
  using assms
proof (induction po targets horizonS arr pending s rule: event_loop.induct)
  case (1 po targets horizonS arr pending s)
  show ?case
  proof (cases "next_event arr pending")
    case None
    then show ?thesis using 1(4) by (simp add: event_loop.simps[of po])
  next
    case (Some now)
    show ?thesis
    proof (cases "now > horizonS")
      case True
      then show ?thesis using 1(4) Some by (simp add: event_loop.simps[of po])
    next
      case False
      obtain arr' pending' where ad: "admit_arrival now arr pending = (arr', pending')" by force
      then have w: "waiting_ok js pending'" "set arr' \<subseteq> set js"
        using 1(5,6) by (auto simp: admit_arrival_def waiting_ok_def split: list.splits if_splits)
      from process_due_ok[OF 1(2,3,4) w(1)] obtain still s' where
        pd: "process_due po now targets pending' s = Some (still, s')" "run_ok js targets s'" "waiting_ok js still" by blast
      have "\<exists>s''. event_loop po targets horizonS arr' still s' = Some s'' \<and> run_ok js targets s''"
        using 1(1)[OF Some False, of "(still, s')" still s'] pd w(2) 1(2,3) ad by simp
      then show ?thesis using Some False ad pd(1) by (simp add: event_loop.simps[of po targets horizonS arr pending])
    qed
  qed
qed

lemma fold_unplaced:
  "distinct (map bj_ID js) \<Longrightarrow> fold (add_unplaced horizonS) js m i =
     (case m i of Some e \<Rightarrow> Some e | None \<Rightarrow> map_option (unplaced_execution horizonS) (find (\<lambda>j. bj_ID j = i) js))"
proof (induction js arbitrary: m)
  case (Cons j js)
  have "find (\<lambda>k. bj_ID k = bj_ID j) js = None" using Cons.prems by (simp add: find_None_iff) (metis imageI)
  then show ?case using Cons by (auto simp: add_unplaced_def split: option.splits)
qed (simp split: option.splits)

lemma find_bench_job: "distinct (map bj_ID js) \<Longrightarrow> j \<in> set js \<Longrightarrow> find (\<lambda>k. bj_ID k = bj_ID j) js = Some j"
  by (induction js) auto

definition outcome :: "float64 \<Rightarrow> sim \<Rightarrow> benchJob \<Rightarrow> execution" where
  "outcome horizonS s j = (case sm_results s (bj_ID j) of Some e \<Rightarrow> e | None \<Rightarrow> unplaced_execution horizonS j)"

lemma simulate_outcomes:
  assumes "init_factories = Some fs" and "NewPolicy fs name = Inr po" and "js \<noteq> []" and "distinct (map bj_ID js)"
    and "\<forall>t \<in> set targets. sr_Snapshots t \<noteq> []"
  obtains s horizonS where "run_ok js targets s" "simulate fs name js targets = Inr (map (outcome horizonS s) js)"
proof -
  have "(name, po) \<in> set fs" using assms(2) by (auto simp: NewPolicy_def split: option.splits dest: map_of_SomeD)
  then have "scheduling_policy po" using registered_policy(1) registered[OF assms(1)] by blast
  moreover define start where "start = \<lparr>sm_counter = 0, sm_freeAt = (\<lambda>_. 0), sm_depth = (\<lambda>_. 0), sm_results = (\<lambda>_. None)\<rparr>"
  have "run_ok js targets start" by (simp add: run_ok_def start_def)
  moreover define horizonS where "horizonS = bj_ArrivalS (last js) + drainCapHours * 3600"
  ultimately obtain s where s: "event_loop po targets horizonS js [] start = Some s" "run_ok js targets s"
    using event_loop_ok[of po targets js start "[]" js horizonS] assms(5) by (auto simp: waiting_ok_def)
  have "the (fold (add_unplaced horizonS) js (sm_results s) (bj_ID j)) = outcome horizonS s j" if "j \<in> set js" for j
    using find_bench_job[OF assms(4) that] by (simp add: fold_unplaced[OF assms(4)] outcome_def split: option.splits)
  then have "simulate fs name js targets = Inr (map (outcome horizonS s) js)"
    using assms(2,3) s(1) by (simp add: simulate_def start_def horizonS_def Let_def cong: map_cong)
  with s(2) that show ?thesis by blast
qed

lemma outcome_placed:
  assumes "run_ok js targets s" and "\<not> ex_Unplaced (outcome horizonS s j)"
  shows "sm_results s (bj_ID j) = Some (outcome horizonS s j)" "result_ok js targets (bj_ID j) (outcome horizonS s j)"
  using assms by (auto simp: outcome_def unplaced_execution_def run_ok_def split: option.splits)

lemma outcome_id: "run_ok js targets s \<Longrightarrow> ex_JobID (outcome horizonS s j) = bj_ID j"
  by (auto simp: outcome_def unplaced_execution_def run_ok_def result_ok_def split: option.splits)
    (metis placed_execution_simps(5))

text \<open>C11: The simulation ends with one result per job. Under every registered policy and any batch of jobs with
  distinct ids it does not panic and yields one execution per job in their order, and a job that was placed
  ran on a target of the series, not before its arrival, with the snapshot in effect when it started.\<close>

theorem every_bench_job_gets_one_result:
  assumes "init_factories = Some fs" and "NewPolicy fs name = Inr po" and "js \<noteq> []" and "distinct (map bj_ID js)"
    and "\<forall>t \<in> set targets. sr_Snapshots t \<noteq> []"
  shows "\<exists>out. simulate fs name js targets = Inr out \<and> map ex_JobID out = map bj_ID js \<and>
    (\<forall>e \<in> set out. ex_Unplaced e \<or> (\<exists>j \<in> set js. \<exists>t \<in> set targets. \<exists>snap.
       bj_ID j = ex_JobID e \<and> ex_Target e = sr_Name t \<and> bj_ArrivalS j \<le> ex_StartS e \<and> snapAt t (ex_StartS e) = Some snap \<and>
       e = placed_execution j t snap (ex_StartS e) (ex_ESP e)))"
proof -
  obtain s horizonS where s: "run_ok js targets s" "simulate fs name js targets = Inr (map (outcome horizonS s) js)"
    using simulate_outcomes[OF assms] by blast
  have "\<exists>j \<in> set js. \<exists>t \<in> set targets. \<exists>snap.
       bj_ID j = ex_JobID e \<and> ex_Target e = sr_Name t \<and> bj_ArrivalS j \<le> ex_StartS e \<and> snapAt t (ex_StartS e) = Some snap \<and>
       e = placed_execution j t snap (ex_StartS e) (ex_ESP e)"
    if e: "e = outcome horizonS s k" "\<not> ex_Unplaced e" for e k
  proof -
    from outcome_placed(2)[OF s(1), of horizonS k] e have "result_ok js targets (bj_ID k) e" by simp
    then obtain j t snap where "j \<in> set js" "t \<in> set targets" "bj_ID j = bj_ID k" "snapAt t (ex_StartS e) = Some snap"
      "e = placed_execution j t snap (ex_StartS e) (ex_ESP e)" "bj_ArrivalS j \<le> ex_StartS e" by (auto simp: result_ok_def)
    moreover from this(5) have "ex_Target e = sr_Name t" by (metis placed_execution_simps(3))
    moreover have "ex_JobID e = bj_ID k" using outcome_id[OF s(1)] e by simp
    ultimately show ?thesis by metis
  qed
  then show ?thesis using s(2) outcome_id[OF s(1)] by (intro exI[of _ "map (outcome horizonS s) js"]) auto
qed

definition demo_series :: seriesTarget where
  "demo_series = \<lparr>sr_Name = ''a/sim'', sr_Qubits = 5, sr_Formats = [''openqasm3''], sr_Billing = [''shots''], sr_MaxShots = 10000,
     sr_Technology = ''superconducting'', sr_TwoQubit = ''cx'', sr_Nominal2Q = 1 / 100, sr_StepSeconds = 60,
     sr_Snapshots = [\<lparr>sn_SnapshotID = ''s0'', sn_SimOffsetS = 0, sn_Metrics = []\<rparr>, \<lparr>sn_SnapshotID = ''s1'', sn_SimOffsetS = 60, sn_Metrics = []\<rparr>]\<rparr>"

definition demo_bench :: "string \<Rightarrow> float64 \<Rightarrow> benchJob" where
  "demo_bench i t = \<lparr>bj_ID = i, bj_Circuit = \<lparr>ci_Name = ''bell'', ci_Width = 2,
     ci_Profile = \<lparr>cp_Qubits = 2, cp_OneQubitGates = 1, cp_TwoQubitGates = 1, cp_MeasuredQubits = 2\<rparr>, ci_Source = []\<rparr>,
     bj_Shots = 1000, bj_ArrivalS = t, bj_DeadlineS = 0, bj_Floor2Q = 0, bj_FloorRO = 0\<rparr>"

lemma demo_policy: "NewPolicy policy_table ''fifo/v0'' = Inr fifoPolicy"
  by (simp add: NewPolicy_def policy_table_def)

theorem snapshot_in_effect_witness: "map_option sn_SnapshotID (snapAt demo_series 59) = Some ''s0''"
  using snapshot_in_effect[of demo_series 59] by (simp add: demo_series_def)

theorem every_bench_job_gets_one_result_witness:
  "\<exists>out. simulate policy_table ''fifo/v0'' [demo_bench ''bj-0000'' 0, demo_bench ''bj-0001'' 1] [demo_series] = Inr out \<and>
     map ex_JobID out = [''bj-0000'', ''bj-0001'']"
  using every_bench_job_gets_one_result[OF init_factories_table demo_policy,
    of "[demo_bench ''bj-0000'' 0, demo_bench ''bj-0001'' 1]" "[demo_series]"]
  by (auto simp: demo_bench_def demo_series_def)

text \<open>Two executions that occupy one target at the same time.\<close>

definition overlap :: "execution \<Rightarrow> execution \<Rightarrow> bool" where
  "overlap e f \<longleftrightarrow> \<not> ex_Unplaced e \<and> \<not> ex_Unplaced f \<and> ex_Target e = ex_Target f \<and>
     ex_StartS e < ex_EndS f \<and> ex_StartS f < ex_EndS e"

text \<open>A target runs one job at a time: no two executions of a simulation overlap.\<close>

theorem bench_targets_run_one_job_at_a_time:
  assumes "init_factories = Some fs" and "NewPolicy fs name = Inr po" and "js \<noteq> []" and "distinct (map bj_ID js)"
    and "\<forall>t \<in> set targets. sr_Snapshots t \<noteq> []"
  shows "\<exists>out. simulate fs name js targets = Inr out \<and> sorted_wrt (\<lambda>e f. \<not> overlap e f) out"
proof -
  obtain s horizonS where s: "run_ok js targets s" "simulate fs name js targets = Inr (map (outcome horizonS s) js)"
    using simulate_outcomes[OF assms] by blast
  have "\<not> overlap (outcome horizonS s (js ! i)) (outcome horizonS s (js ! k))" if "i < k" "k < length js" for i k
  proof
    assume o: "overlap (outcome horizonS s (js ! i)) (outcome horizonS s (js ! k))"
    have "bj_ID (js ! i) \<noteq> bj_ID (js ! k)"
      using that nth_eq_iff_index_eq[OF assms(4), of i k] by simp
    moreover have "sm_results s (bj_ID (js ! i)) = Some (outcome horizonS s (js ! i))"
      "sm_results s (bj_ID (js ! k)) = Some (outcome horizonS s (js ! k))"
      using outcome_placed(1)[OF s(1), of horizonS "js ! i"] outcome_placed(1)[OF s(1), of horizonS "js ! k"] o
      unfolding overlap_def by blast+
    moreover have "ex_Target (outcome horizonS s (js ! i)) = ex_Target (outcome horizonS s (js ! k))" using o by (simp add: overlap_def)
    ultimately have "ex_EndS (outcome horizonS s (js ! i)) \<le> ex_StartS (outcome horizonS s (js ! k)) \<or>
      ex_EndS (outcome horizonS s (js ! k)) \<le> ex_StartS (outcome horizonS s (js ! i))"
      using s(1) unfolding run_ok_def by blast
    then show False using o by (auto simp: overlap_def)
  qed
  then have "sorted_wrt (\<lambda>e f. \<not> overlap e f) (map (outcome horizonS s) js)" by (simp add: sorted_wrt_iff_nth_less)
  with s(2) show ?thesis by blast
qed

theorem bench_targets_run_one_job_at_a_time_witness:
  "\<exists>e f. simulate policy_table ''fifo/v0'' [demo_bench ''bj-0000'' 0, demo_bench ''bj-0001'' 1] [demo_series] = Inr [e, f] \<and> \<not> overlap e f"
proof -
  let ?js = "[demo_bench ''bj-0000'' 0, demo_bench ''bj-0001'' 1]"
  have a: "?js \<noteq> []" "distinct (map bj_ID ?js)" "\<forall>t \<in> set [demo_series]. sr_Snapshots t \<noteq> []"
    by (simp_all add: demo_bench_def demo_series_def)
  obtain s H where o: "simulate policy_table ''fifo/v0'' ?js [demo_series] = Inr (map (outcome H s) ?js)"
    using simulate_outcomes[OF init_factories_table demo_policy a] by blast
  then show ?thesis using bench_targets_run_one_job_at_a_time[OF init_factories_table demo_policy a] by auto
qed

section \<open>The generated workload\<close>

text \<open>The documented ranges of \<open>math/rand\<close>.\<close>

definition rand_ok :: "'g rand \<Rightarrow> bool" where
  "rand_ok r \<longleftrightarrow> (\<forall>g. 0 \<le> fst (rn_Float64 r g) \<and> fst (rn_Float64 r g) < 1 \<and> 0 \<le> fst (rn_ExpFloat64 r g) \<and>
     (\<forall>n > 0. fst (rn_Intn r n g) < n))"

definition bench_job_ok :: "circuitInfo list \<Rightarrow> benchJob \<Rightarrow> bool" where
  "bench_job_ok circuits j \<longleftrightarrow> bj_Circuit j \<in> set circuits \<and> bj_Shots j \<in> set shotChoices \<and> 0 \<le> bj_ArrivalS j \<and>
     (bj_DeadlineS j = 0 \<or> bj_ArrivalS j + 300 \<le> bj_DeadlineS j \<and> bj_DeadlineS j < bj_ArrivalS j + 2100) \<and>
     (bj_Floor2Q j = 0 \<or> 35 / 10000 \<le> bj_Floor2Q j \<and> bj_Floor2Q j < 75 / 10000) \<and>
     (bj_FloorRO j = 0 \<or> 7 / 1000 \<le> bj_FloorRO j \<and> bj_FloorRO j < 20 / 1000)"

lemma draw_floors_range:
  assumes "rand_ok r" and "draw_floors r g = ((f2q, fro), g')"
  shows "f2q = 0 \<or> 35 / 10000 \<le> f2q \<and> f2q < 75 / 10000" "fro = 0 \<or> 7 / 1000 \<le> fro \<and> fro < 20 / 1000"
proof -
  have u: "0 \<le> x \<and> x < 1" if "rn_Float64 r h = (x, h')" for x h h'
    using assms(1) that by (metis fst_conv rand_ok_def)
  show "f2q = 0 \<or> 35 / 10000 \<le> f2q \<and> f2q < 75 / 10000" "fro = 0 \<or> 7 / 1000 \<le> fro \<and> fro < 20 / 1000"
    using assms(2) by (auto simp: draw_floors_def Let_def split: prod.splits if_splits dest!: u)
qed

lemma pad4_inject: "pad4 i = pad4 k \<longleftrightarrow> i = k"
proof
  have zeros: "dec_val 0 (replicate n CHR ''0'' @ s) = dec_val 0 s" for n s
    by (induction n) (simp_all add: digit_val_def code_def)
  have "dec_val 0 (pad4 i) = int i" for i using itoa_digits[of i] by (simp add: pad4_def zeros)
  then show "pad4 i = pad4 k \<Longrightarrow> i = k" by (metis of_nat_eq_iff)
qed simp

lemma draw_job_ok:
  assumes "rand_ok r" and "circuits \<noteq> []" and "0 \<le> now" and "draw_job r circuits i now g = (j, now', g')"
  shows "bench_job_ok circuits j" "now \<le> bj_ArrivalS j" "now' = bj_ArrivalS j" "bj_ID j = ''bj-'' @ pad4 i"
proof -
  have u: "0 \<le> x \<and> x < 1" if "rn_Float64 r h = (x, h')" for x h h' using assms(1) that by (metis fst_conv rand_ok_def)
  have e: "0 \<le> x" if "rn_ExpFloat64 r h = (x, h')" for x h h' using assms(1) that by (metis fst_conv rand_ok_def)
  have n: "x < m" if "rn_Intn r m h = (x, h')" "0 < m" for x m h h' using assms(1) that by (metis fst_conv rand_ok_def)
  obtain a g1 where g1: "rn_Float64 r g = (a, g1)" by force
  obtain x g2 where g2: "rn_ExpFloat64 r g1 = (x, g2)" by force
  obtain c g3 where g3: "rn_Intn r (length circuits) g2 = (c, g3)" by force
  obtain k g4 where g4: "rn_Intn r (length shotChoices) g3 = (k, g4)" by force
  obtain b g5 where g5: "rn_Float64 r g4 = (b, g5)" by force
  define t where "t = now + x * (if a < burstProb then interArrivalBurstS else interArrivalCalmS)"
  obtain dl g6 where g6: "(if b < deadlineProb then (let (y, h) = rn_Float64 r g5 in (t + 300 + y * 1800, h)) else (0, g5)) = (dl, g6)"
    by force
  obtain f2q fro g7 where g7: "draw_floors r g6 = ((f2q, fro), g7)" by (metis surj_pair)
  have "draw_job r circuits i now g = (\<lparr>bj_ID = ''bj-'' @ pad4 i, bj_Circuit = circuits ! c, bj_Shots = shotChoices ! k,
      bj_ArrivalS = t, bj_DeadlineS = dl, bj_Floor2Q = f2q, bj_FloorRO = fro\<rparr>, t, g7)"
    unfolding draw_job_def Let_def g1 prod.case g2 g3 g4 g5 t_def[symmetric]
    using g6[unfolded Let_def] g7 by simp
  with assms(4) have j: "j = \<lparr>bj_ID = ''bj-'' @ pad4 i, bj_Circuit = circuits ! c, bj_Shots = shotChoices ! k,
      bj_ArrivalS = t, bj_DeadlineS = dl, bj_Floor2Q = f2q, bj_FloorRO = fro\<rparr>" "now' = t" by auto
  have t: "now \<le> t" using e[OF g2] by (simp add: t_def interArrivalBurstS_def interArrivalCalmS_def)
  have "dl = 0 \<or> t + 300 \<le> dl \<and> dl < t + 2100"
    using g6 by (auto simp: Let_def split: if_splits prod.splits dest!: u)
  moreover have "c < length circuits" "k < length shotChoices"
    using n[OF g3] n[OF g4] assms(2) by (simp_all add: shotChoices_def)
  ultimately show "bench_job_ok circuits j"
    using draw_floors_range[OF assms(1) g7] t assms(3) by (simp add: bench_job_ok_def j(1))
  show "now \<le> bj_ArrivalS j" "now' = bj_ArrivalS j" "bj_ID j = ''bj-'' @ pad4 i" using t j by simp_all
qed

lemma workload_from_ok:
  assumes "rand_ok r" and "circuits \<noteq> []" and "0 \<le> now"
  shows "map bj_ID (workload_from r circuits i n now g) = map (\<lambda>k. ''bj-'' @ pad4 k) [i..<i + n] \<and>
    sorted (map bj_ArrivalS (workload_from r circuits i n now g)) \<and>
    (\<forall>j \<in> set (workload_from r circuits i n now g). bench_job_ok circuits j \<and> now \<le> bj_ArrivalS j)"
  using assms(3)
proof (induction n arbitrary: i now g)
  case (Suc n)
  obtain j now' g' where d: "draw_job r circuits i now g = (j, now', g')" by (metis surj_pair)
  note ok = draw_job_ok[OF assms(1,2) Suc.prems d]
  have "0 \<le> now'" using ok(2,3) Suc.prems by simp
  note IH = Suc.IH[OF this, of "Suc i" g']
  have "[i..<i + Suc n] = i # [Suc i..<Suc i + n]" by (simp add: upt_conv_Cons)
  then show ?case using IH ok d by auto
qed simp

text \<open>The generated workload is fit for the simulation, whatever the generator draws within its documented
  ranges: the wanted number of jobs with distinct ids, in order of arrival, with circuits of the set,
  deadlines five minutes or more after arrival and floors in the ranges the report names.\<close>

theorem workload_is_well_formed:
  assumes "rand_ok r" and "circuits \<noteq> []"
  shows "\<exists>js. generateWorkload r circuits n g = Some js \<and> length js = n \<and> distinct (map bj_ID js) \<and>
    sorted (map bj_ArrivalS js) \<and> (\<forall>j \<in> set js. bench_job_ok circuits j)"
proof -
  let ?js = "workload_from r circuits 0 n 0 g"
  note ok = workload_from_ok[OF assms, of 0 0 n g]
  from ok have ids: "map bj_ID ?js = map (\<lambda>k. ''bj-'' @ pad4 k) [0..<n]" by simp
  then have "length ?js = n" by (metis length_map length_upt minus_nat.diff_0)
  moreover have "distinct (map bj_ID ?js)" unfolding ids by (simp add: distinct_map inj_on_def pad4_inject)
  ultimately show ?thesis using ok assms(2) by (simp add: generateWorkload_def)
qed

text \<open>A generator in the documented ranges.\<close>

definition half_rand :: "nat rand" where
  "half_rand = \<lparr>rn_Float64 = (\<lambda>g. (1 / 2, Suc g)), rn_ExpFloat64 = (\<lambda>g. (1, Suc g)), rn_Intn = (\<lambda>n g. (g mod n, Suc g))\<rparr>"

theorem workload_is_well_formed_witness:
  "\<exists>js. generateWorkload half_rand [bj_Circuit (demo_bench [] 0)] 3 0 = Some js \<and> length js = 3 \<and> distinct (map bj_ID js)"
  using workload_is_well_formed[of half_rand "[bj_Circuit (demo_bench [] 0)]" 3 0] by (auto simp: rand_ok_def half_rand_def)

end
