(* ===== verification/Go_Strings.thy ===== *)
theory Go_Strings
  imports Go_Parse
begin

text \<open>
  Laws of \<open>strings.Split\<close>, \<open>strings.Join\<close> and \<open>strings.TrimSpace\<close> that the command line and configuration
  parsers share: a split undoes a join of parts without the separator, and a text that neither starts nor
  ends with a space is its own trimming.
\<close>

lemma dropWhile_hd: "\<not> P (hd s) \<Longrightarrow> dropWhile P s = s"
  by (cases s) auto

lemma TrimSpace_id: "\<not> is_space (hd s) \<Longrightarrow> \<not> is_space (last s) \<Longrightarrow> TrimSpace s = s"
  by (simp add: TrimSpace_def dropWhile_hd hd_rev)

lemma Split_single: "c \<notin> set s \<Longrightarrow> Split c s = [s]"
  by (induction s) auto

lemma Split_append: "c \<notin> set a \<Longrightarrow> Split c (a @ c # b) = a # Split c b"
proof (induction a)
  case Nil
  show ?case using Split_nonempty [of c b] by (cases "Split c b") simp_all
qed auto

lemma Split_Join:
  assumes "ps \<noteq> []" and "\<forall>p \<in> set ps. c \<notin> set p"
  shows "Split c (Join ps [c]) = ps"
  using assms
proof (induction ps)
  case (Cons p ps)
  then show ?case by (cases ps) (simp_all add: Split_single Split_append)
qed simp

end
