(* ===== verification/Store_Open.thy ===== *)
theory Store_Open
  imports Go_Strings Rabi_Prelude
begin

text \<open>
  Opening the store (\<open>internal/store/store.go\<close>), with the sessions of its pool and their rights, and masking the password of a database URL in the logs
  (\<open>internal/store/redact.go\<close>). The connection pool and the migration library are arguments that act on a
  database of any type; \<open>url.Parse\<close> is an argument of the redaction.
\<close>

section \<open>Sessions and pools\<close>

text \<open>A session of the database acts under a role; it starts with the role of the user in the URL.\<close>

record session =
  se_user :: string
  se_role :: string

text \<open>The one statement a pool executes on its own: \<open>SET ROLE\<close>.\<close>

datatype statement = SetRole string

text \<open>What the code uses of pgx and goose. A ping that starts at a time ends after some nanoseconds, with an error or
  without. \<open>pg_set_role\<close> is the error of \<open>SET ROLE\<close> (no such role, or the user is no member of it). Looking for pending
  migrations may change the database too, for example by creating the table of versions.\<close>

record 'p postgres =
  pg_new :: "string option"
  pg_ping :: "time \<Rightarrow> string option \<times> nat"
  pg_parse_config :: "string option"
  pg_new_with_config :: "string option"
  pg_connect :: "'p \<Rightarrow> string + session"
  pg_set_role :: "'p \<Rightarrow> string \<Rightarrow> string option"
  pg_provider :: "string option"
  pg_up :: "'p \<Rightarrow> 'p \<times> string option"
  pg_up_to :: "int \<Rightarrow> 'p \<Rightarrow> 'p \<times> string option"
  pg_has_pending :: "'p \<Rightarrow> 'p \<times> (string + bool)"

text \<open>A pool is its \<open>AfterConnect\<close> hook.\<close>

record pgx_pool =
  po_AfterConnect :: "statement list"

fun exec_all :: "'p postgres \<Rightarrow> 'p \<Rightarrow> statement list \<Rightarrow> session \<Rightarrow> string + session" where
  "exec_all pg p [] s = Inr s"
| "exec_all pg p (SetRole r # sts) s =
     (case pg_set_role pg p r of Some e \<Rightarrow> Inl e | None \<Rightarrow> exec_all pg p sts (s\<lparr>se_role := r\<rparr>))"

text \<open>Acquiring a connection: the hook runs on every new connection, and its error is the error of the acquisition.\<close>

definition pool_acquire :: "'p postgres \<Rightarrow> pgx_pool \<Rightarrow> 'p \<Rightarrow> string + session" where
  "pool_acquire pg pool p = (case pg_connect pg p of Inl e \<Rightarrow> Inl e | Inr s \<Rightarrow> exec_all pg p (po_AfterConnect pool) s)"

section \<open>Privileges\<close>

text \<open>The grants of the migrations (\<open>00006_accounting.sql\<close>, \<open>00008\<close>, \<open>00009\<close>, \<open>00010\<close>): the serving role reads and writes all
  tables, but can neither update nor delete nor truncate those that are append-only.\<close>

datatype verb = SELECT | INSERT | UPDATE | DELETE | TRUNCATE

definition append_only :: "string list" where
  "append_only = [''usage_ledger'', ''audit_log'', ''reconciliation_runs'', ''job_events'', ''probe_results'', ''game_days'', ''shadow_placements'']"

definition app_may :: "string \<Rightarrow> verb \<Rightarrow> bool" where
  "app_may tbl v \<longleftrightarrow> v \<in> {SELECT, INSERT, UPDATE, DELETE} \<and> \<not> (tbl \<in> set append_only \<and> v \<in> {UPDATE, DELETE, TRUNCATE})"

text \<open>What a session may do: the owner of the tables everything, the serving role what it was granted.\<close>

definition session_may :: "session \<Rightarrow> string \<Rightarrow> verb \<Rightarrow> bool" where
  "session_may s tbl v \<longleftrightarrow> (if se_role s = ''rabi_app'' then app_may tbl v else True)"

section \<open>Opening\<close>

text \<open>Pings, a second apart, until one succeeds or the deadline comes first; the error is that of the last ping.\<close>

function ping_loop :: "(time \<Rightarrow> string option \<times> nat) \<Rightarrow> time \<Rightarrow> time \<Rightarrow> string option" where
  "ping_loop ping deadline t =
     (case ping t of
        (None, _) \<Rightarrow> None
      | (Some e, n) \<Rightarrow>
          let t' = t + int n
          in if deadline \<le> t' + 1000000000 then Some e else ping_loop ping deadline (t' + 1000000000))"
  by pat_completeness auto
termination
  by (relation "measure (\<lambda>(ping, deadline, t). nat (deadline - t))") auto

declare ping_loop.simps [simp del]

definition migrate :: "'p postgres \<Rightarrow> 'p \<Rightarrow> 'p \<times> string option" where
  "migrate pg p =
     (case pg_provider pg of
        Some e \<Rightarrow> (p, Some (''store: init migrations: '' @ e))
      | None \<Rightarrow>
          (case pg_up pg p of
             (p', Some e) \<Rightarrow> (p', Some (''store: apply migrations: '' @ e))
           | (p', None) \<Rightarrow> (p', None)))"

definition schema_behind :: string where
  "schema_behind = ''store: schema is behind this binary and auto-migrate is disabled; run migrations first (RABI_AUTO_MIGRATE=true once)''"

definition checkSchemaCurrent :: "'p postgres \<Rightarrow> 'p \<Rightarrow> 'p \<times> string option" where
  "checkSchemaCurrent pg p =
     (case pg_provider pg of
        Some e \<Rightarrow> (p, Some (''store: init migrations: '' @ e))
      | None \<Rightarrow>
          (case pg_has_pending pg p of
             (p', Inl e) \<Rightarrow> (p', Some (''store: check pending migrations: '' @ e))
           | (p', Inr pending) \<Rightarrow> (p', if pending then Some schema_behind else None)))"

record store_handle =
  sh_Pool :: pgx_pool

text \<open>\<open>open\<close>: the database, the pools that are still open, and the store or an error. The first pool, with the rights of the
  owner, is closed on every path; \<open>Ping\<close> of the serving pool acquires one of its connections.\<close>

definition open_with :: "'p postgres \<Rightarrow> time \<Rightarrow> bool \<Rightarrow> 'p \<Rightarrow> 'p \<times> pgx_pool list \<times> (string + store_handle)" where
  "open_with pg now do_migrate p =
     (case pg_new pg of
        Some e \<Rightarrow> (p, [], Inl (''store: parse database url: '' @ e))
      | None \<Rightarrow>
          (case ping_loop (pg_ping pg) (now + 60 * 1000000000) now of
             Some e \<Rightarrow> (p, [], Inl (''store: postgres unreachable: '' @ e))
           | None \<Rightarrow>
               (case (if do_migrate then migrate pg p else checkSchemaCurrent pg p) of
                  (p', Some e) \<Rightarrow> (p', [], Inl e)
                | (p', None) \<Rightarrow>
                    (case pg_parse_config pg of
                       Some e \<Rightarrow> (p', [], Inl (''store: parse database url: '' @ e))
                     | None \<Rightarrow>
                         (let servePool = \<lparr>po_AfterConnect = [SetRole ''rabi_app'']\<rparr>
                          in case pg_new_with_config pg of
                               Some e \<Rightarrow> (p', [], Inl (''store: open serving pool: '' @ e))
                             | None \<Rightarrow>
                                 (case pool_acquire pg servePool p' of
                                    Inl e \<Rightarrow> (p', [], Inl (''store: serving role: '' @ e))
                                  | Inr _ \<Rightarrow> (p', [servePool], Inr \<lparr>sh_Pool = servePool\<rparr>)))))))"

definition Open :: "'p postgres \<Rightarrow> time \<Rightarrow> 'p \<Rightarrow> 'p \<times> pgx_pool list \<times> (string + store_handle)" where
  "Open pg now p = open_with pg now True p"

definition OpenNoMigrate :: "'p postgres \<Rightarrow> time \<Rightarrow> 'p \<Rightarrow> 'p \<times> pgx_pool list \<times> (string + store_handle)" where
  "OpenNoMigrate pg now p = open_with pg now False p"

text \<open>\<open>Close\<close> releases the pool.\<close>

definition Close :: "store_handle \<Rightarrow> pgx_pool list \<Rightarrow> pgx_pool list" where
  "Close h pools = remove1 (sh_Pool h) pools"

text \<open>\<open>OpenAt\<close>, which the upgrade tests use, keeps the pool of the owner.\<close>

definition OpenAt :: "'p postgres \<Rightarrow> int \<Rightarrow> 'p \<Rightarrow> 'p \<times> pgx_pool list \<times> (string + store_handle)" where
  "OpenAt pg version p =
     (case pg_new pg of
        Some e \<Rightarrow> (p, [], Inl (''store: parse database url: '' @ e))
      | None \<Rightarrow>
          (let pool = \<lparr>po_AfterConnect = []\<rparr>
           in case pg_provider pg of
                Some e \<Rightarrow> (p, [], Inl (''store: init migrations: '' @ e))
              | None \<Rightarrow>
                  (case pg_up_to pg version p of
                     (p', Some e) \<Rightarrow> (p', [], Inl (''store: apply migrations to '' @ itoa_int version @ '': '' @ e))
                   | (p', None) \<Rightarrow> (p', [pool], Inr \<lparr>sh_Pool = pool\<rparr>))))"

section \<open>Redaction\<close>

text \<open>\<open>(?i)(password=)[^\\s]+\<close>, replaced from left to right; the folding of case is that of ASCII letters.\<close>

definition re_space :: "char \<Rightarrow> bool" where
  "re_space c \<longleftrightarrow> of_char c \<in> {9, 10, 12, 13, 32 :: nat}"

definition to_lower :: "char \<Rightarrow> char" where
  "to_lower c = (let n = of_char c :: nat in if 65 \<le> n \<and> n \<le> 90 then char_of (n + 32) else c)"

definition password_at :: "string \<Rightarrow> bool" where
  "password_at s \<longleftrightarrow> map to_lower (take 9 s) = ''password='' \<and> drop 9 s \<noteq> [] \<and> \<not> re_space (hd (drop 9 s))"

function redact_keyword :: "string \<Rightarrow> string" where
  "redact_keyword s =
     (if s = [] then []
      else if password_at s then take 9 s @ ''xxxxx'' @ redact_keyword (dropWhile (\<lambda>c. \<not> re_space c) (drop 9 s))
      else hd s # redact_keyword (tl s))"
  by pat_completeness auto
termination
proof (relation "measure length")
  fix s :: string assume "s \<noteq> []"
  then show "(dropWhile (\<lambda>c. \<not> re_space c) (drop 9 s), s) \<in> measure length"
    using length_dropWhile_le [of "\<lambda>c. \<not> re_space c" "drop 9 s"] by (cases s) auto
qed auto

declare redact_keyword.simps [simp del]

record parsed_url =
  ur_Scheme :: string
  ur_User :: "(string \<times> string option) option"
  ur_rest :: string

definition RedactDSN :: "(string \<Rightarrow> parsed_url option) \<Rightarrow> (parsed_url \<Rightarrow> string) \<Rightarrow> string \<Rightarrow> string" where
  "RedactDSN parse render dsn =
     (if dsn = [] then []
      else (case parse dsn of
              Some u \<Rightarrow>
                if ur_Scheme u \<noteq> []
                then render (case ur_User u of
                       Some (name, Some _) \<Rightarrow> u\<lparr>ur_User := Some (name, Some ''xxxxx'')\<rparr>
                     | _ \<Rightarrow> u)
                else redact_keyword dsn
            | None \<Rightarrow> redact_keyword dsn))"

section \<open>Properties of opening\<close>

text \<open>The loop tolerates a database that comes up late: it is reached when it answers every ping from a time on that lies
  one ping and one pause before the deadline.\<close>

lemma ping_loop_reaches:
  assumes "\<And>t. u \<le> t \<Longrightarrow> fst (ping t) = None" and "\<And>t. snd (ping t) \<le> m" and "u + int m + 1000000000 < deadline"
  shows "ping_loop ping deadline t = None"
  using assms
proof (induction ping deadline t rule: ping_loop.induct)
  case (1 ping deadline t)
  obtain r n where rn: "ping t = (r, n)" by fastforce
  show ?case
  proof (cases r)
    case None
    then show ?thesis by (simp add: ping_loop.simps [of ping deadline t] rn)
  next
    case (Some e)
    with "1.prems"(1) [of t] rn have "t < u" by force
    moreover have "n \<le> m" using "1.prems"(2) [of t] rn by simp
    ultimately have "\<not> deadline \<le> t + int n + 1000000000" using "1.prems"(3) by linarith
    with Some rn "1.IH" [OF rn [symmetric] Some refl _ "1.prems"] show ?thesis
      by (simp add: ping_loop.simps [of ping deadline t])
  qed
qed

lemma exec_all_last:
  "exec_all pg p sts s = Inr s' \<Longrightarrow> se_role s' = (case sts of [] \<Rightarrow> se_role s | _ \<Rightarrow> (case last sts of SetRole r \<Rightarrow> r))"
  by (induction pg p sts s rule: exec_all.induct) (auto split: option.splits list.splits)

text \<open>The two outcomes of \<open>open\<close>.\<close>

lemma open_with_cases:
  assumes "open_with pg now do_migrate p = (p', pools, r)"
  shows "(\<exists>e. r = Inl e \<and> pools = [] \<and> (p' = p \<or> p' = (if do_migrate then fst (pg_up pg p) else fst (pg_has_pending pg p)))) \<or>
    (\<exists>h s. r = Inr h \<and> pools = [sh_Pool h] \<and> po_AfterConnect (sh_Pool h) = [SetRole ''rabi_app''] \<and>
       (if do_migrate then pg_up pg p = (p', None) else pg_has_pending pg p = (p', Inr False)) \<and>
       pool_acquire pg (sh_Pool h) p' = Inr s)"
  using assms
  by (auto simp: open_with_def migrate_def checkSchemaCurrent_def Let_def split: option.splits prod.splits sum.splits if_splits)

lemma restricted_session:
  assumes "po_AfterConnect pl = [SetRole ''rabi_app'']" and "pool_acquire pg pl q = Inr s"
  shows "se_role s = ''rabi_app''"
proof -
  obtain s0 where "exec_all pg q [SetRole ''rabi_app''] s0 = Inr s"
    using assms by (simp add: pool_acquire_def split: sum.splits)
  then show ?thesis by (simp split: option.splits) auto
qed

lemma restricted_rights:
  assumes "se_role s = ''rabi_app''" and "tbl \<in> set append_only" and "v \<in> {UPDATE, DELETE, TRUNCATE}"
  shows "\<not> session_may s tbl v"
  using assms by (simp add: session_may_def app_may_def)

lemma open_waits:
  assumes "open_with pg now do_migrate p = (p', pools, r)" and "\<And>t. u \<le> t \<Longrightarrow> fst (pg_ping pg t) = None"
    and "\<And>t. snd (pg_ping pg t) \<le> m" and "u + int m + 1000000000 < now + 60000000000"
  shows "r \<noteq> Inl (''store: postgres unreachable: '' @ e)"
proof -
  have "ping_loop (pg_ping pg) (now + 60000000000) now = None"
    using assms(2-4) by (intro ping_loop_reaches [of u _ m]) auto
  with assms(1) show ?thesis
    by (auto simp: open_with_def migrate_def checkSchemaCurrent_def schema_behind_def Let_def split: option.splits prod.splits sum.splits if_splits)
qed

text \<open>C35: A store that opened serves every query under the restricted role: at whatever later moment a connection of its
  pool is acquired, the session cannot update, delete or truncate the ledger, the audit log or another append-only table.
  It opened only after the migrations ran without an error or, where migrating is switched off, after none was found
  pending, and then no migration was run; a schema that is behind is refused. The pool with the owner's rights is
  closed on every path: after an error no pool is left open, otherwise the serving one alone. A database that comes up
  within the minute is waited for.\<close>

theorem opened_store_is_restricted:
  assumes "open_with pg now do_migrate p = (p', pools, r)"
  shows "(\<forall>h. r = Inr h \<longrightarrow> pools = [sh_Pool h] \<and>
      (\<forall>q s. pool_acquire pg (sh_Pool h) q = Inr s \<longrightarrow> se_role s = ''rabi_app'' \<and>
         (\<forall>tbl v. tbl \<in> {''usage_ledger'', ''audit_log'', ''job_events'', ''reconciliation_runs'', ''probe_results'', ''game_days'', ''shadow_placements''} \<and>
            v \<in> {UPDATE, DELETE, TRUNCATE} \<longrightarrow> \<not> session_may s tbl v)) \<and>
      (\<exists>s. pool_acquire pg (sh_Pool h) p' = Inr s) \<and>
      (if do_migrate then pg_up pg p = (p', None) else pg_has_pending pg p = (p', Inr False))) \<and>
    (\<forall>e. r = Inl e \<longrightarrow> pools = [] \<and> (p' = p \<or> p' = (if do_migrate then fst (pg_up pg p) else fst (pg_has_pending pg p)))) \<and>
    (\<not> do_migrate \<and> snd (pg_has_pending pg p) \<noteq> Inr False \<longrightarrow> isl r) \<and>
    (\<forall>u m. (\<forall>t. (u \<le> t \<longrightarrow> fst (pg_ping pg t) = None) \<and> snd (pg_ping pg t) \<le> m) \<and> u + int m + 1000000000 < now + 60000000000 \<longrightarrow>
       (\<forall>e. r \<noteq> Inl (''store: postgres unreachable: '' @ e)))"
proof -
  have names: "{''usage_ledger'', ''audit_log'', ''job_events'', ''reconciliation_runs'', ''probe_results'', ''game_days'', ''shadow_placements''} = set append_only"
    unfolding append_only_def list.set by (intro equalityI subsetI; elim insertE; simp)
  have waits: "\<forall>u m. (\<forall>t. (u \<le> t \<longrightarrow> fst (pg_ping pg t) = None) \<and> snd (pg_ping pg t) \<le> m) \<and> u + int m + 1000000000 < now + 60000000000 \<longrightarrow>
       (\<forall>e. r \<noteq> Inl (''store: postgres unreachable: '' @ e))"
    using open_waits [OF assms] by blast
  from open_with_cases [OF assms] show ?thesis
  proof (rule disjE)
    assume "\<exists>e. r = Inl e \<and> pools = [] \<and> (p' = p \<or> p' = (if do_migrate then fst (pg_up pg p) else fst (pg_has_pending pg p)))"
    then show ?thesis using waits by (elim exE conjE) simp
  next
    assume "\<exists>h s. r = Inr h \<and> pools = [sh_Pool h] \<and> po_AfterConnect (sh_Pool h) = [SetRole ''rabi_app''] \<and>
       (if do_migrate then pg_up pg p = (p', None) else pg_has_pending pg p = (p', Inr False)) \<and> pool_acquire pg (sh_Pool h) p' = Inr s"
    then obtain h s where opened: "r = Inr h" "pools = [sh_Pool h]" "po_AfterConnect (sh_Pool h) = [SetRole ''rabi_app'']"
        "if do_migrate then pg_up pg p = (p', None) else pg_has_pending pg p = (p', Inr False)" "pool_acquire pg (sh_Pool h) p' = Inr s" by (elim exE conjE)
    have "\<forall>q s. pool_acquire pg (sh_Pool h) q = Inr s \<longrightarrow> se_role s = ''rabi_app'' \<and>
        (\<forall>tbl v. tbl \<in> set append_only \<and> v \<in> {UPDATE, DELETE, TRUNCATE} \<longrightarrow> \<not> session_may s tbl v)"
    proof (intro allI impI conjI)
      fix q s assume s: "pool_acquire pg (sh_Pool h) q = Inr s"
      show role: "se_role s = ''rabi_app''" by (rule restricted_session [OF opened(3) s])
      fix tbl v assume "tbl \<in> set append_only \<and> v \<in> {UPDATE, DELETE, TRUNCATE}"
      then show "\<not> session_may s tbl v" using restricted_rights [OF role, of tbl v] by (elim conjE)
    qed
    then show ?thesis using waits opened unfolding names by (cases do_migrate) simp_all
  qed
qed

text \<open>A database is the pair of its schema version and its rows; the binary carries version 3.\<close>

definition demo_pg :: "(nat \<times> 'r) postgres" where
  "demo_pg = \<lparr>pg_new = None, pg_ping = (\<lambda>t. (if t < 5000000000 then Some ''refused'' else None, 1000)), pg_parse_config = None,
     pg_new_with_config = None, pg_connect = (\<lambda>_. Inr \<lparr>se_user = ''rabi'', se_role = ''rabi''\<rparr>),
     pg_set_role = (\<lambda>(v, _) r. if 3 \<le> v \<and> r = ''rabi_app'' then None else Some ''no such role''),
     pg_provider = None, pg_up = (\<lambda>(v, rows). ((max v 3, rows), None)),
     pg_up_to = (\<lambda>n (v, rows). ((max v (nat n), rows), None)), pg_has_pending = (\<lambda>(v, rows). ((max v 1, rows), Inr (v < 3)))\<rparr>"

theorem opened_store_is_restricted_witness:
  "\<exists>h e. open_with demo_pg 0 True (1, ''rows'') = ((3, ''rows''), [sh_Pool h], Inr h) \<and>
     \<not> session_may (projr (pool_acquire demo_pg (sh_Pool h) (3, ''rows''))) ''usage_ledger'' UPDATE \<and>
     open_with demo_pg 0 False (0, ''rows'') = ((1, ''rows''), [], Inl e)"
proof -
  have reach: "\<forall>t. (5000000000 \<le> t \<longrightarrow> fst (pg_ping demo_pg t) = None) \<and> snd (pg_ping demo_pg t) \<le> 1000" by (simp add: demo_pg_def)
  have loop: "ping_loop (pg_ping demo_pg) 60000000000 0 = None" using reach by (intro ping_loop_reaches [of 5000000000 _ 1000]) auto
  obtain p' ps r where open1: "open_with demo_pg 0 True (1, ''rows'') = (p', ps, r)" by (metis prod_cases3)
  obtain q' qs x where open2: "open_with demo_pg 0 False (0, ''rows'') = (q', qs, x)" by (metis prod_cases3)
  have p': "p' = (3, ''rows'')" and "\<exists>h. r = Inr h"
    using open1 loop by (auto simp add: open_with_def migrate_def demo_pg_def pool_acquire_def Let_def)
  then obtain h where h: "r = Inr h" by blast
  have q': "q' = (1, ''rows'')" using open2 loop by (simp add: open_with_def checkSchemaCurrent_def demo_pg_def)
  have "snd (pg_has_pending demo_pg (0, ''rows'')) \<noteq> Inr False" by (simp add: demo_pg_def)
  then have "isl x" using opened_store_is_restricted [OF open2] by blast
  then obtain e where e: "x = Inl e" by (auto simp: isl_def)
  then have qs: "qs = []" using opened_store_is_restricted [OF open2] by blast
  note opened = conjunct1 [OF opened_store_is_restricted [OF open1], rule_format, OF h]
  obtain s where s: "pool_acquire demo_pg (sh_Pool h) p' = Inr s" using opened by (elim conjE exE)
  have "\<not> session_may s ''usage_ledger'' UPDATE" using opened [THEN conjunct2, THEN conjunct1, rule_format, OF s] by simp
  then show ?thesis using open1 open2 p' q' e h qs s opened [THEN conjunct1] by simp
qed

section \<open>Properties of the redaction\<close>

lemma keyword_no_equals:
  assumes "i < 8"
  shows "to_lower (''password='' ! i) \<noteq> CHR ''=''"
proof -
  have "\<forall>c \<in> set ''password''. to_lower c \<noteq> CHR ''=''" by (simp add: to_lower_def)
  moreover have "''password='' ! i = ''password'' ! i" using assms nth_append [of "''password''" "''=''" i] by simp
  ultimately show ?thesis using assms nth_mem [of i "''password''"] by auto
qed

text \<open>The keyword has no border: it cannot start shortly before another occurrence.\<close>

lemma password_at_before:
  assumes "a \<noteq> []" and "length a < 9"
  shows "\<not> password_at (a @ ''password='' @ q)"
proof
  have lt: "8 - length a < length ''password=''" by (simp add: less_Suc_eq_le)
  assume "password_at (a @ ''password='' @ q)"
  then have "map to_lower (take 9 (a @ ''password='' @ q)) ! 8 = CHR ''=''" by (simp add: password_at_def)
  moreover have "map to_lower (take 9 (a @ ''password='' @ q)) ! 8 = to_lower ((a @ ''password='' @ q) ! 8)"
    by (subst nth_map) (simp_all del: take_append)
  moreover have "(a @ ''password='' @ q) ! 8 = (''password='' @ q) ! (8 - length a)" using assms by (simp add: nth_append)
  moreover have "(''password='' @ q) ! (8 - length a) = ''password='' ! (8 - length a)"
    by (simp only: nth_append lt if_True)
  moreover have "8 - length a < 8" using assms by simp
  ultimately show False using keyword_no_equals by metis
qed

lemma password_at_within:
  assumes "9 \<le> length a"
  shows "password_at (a @ ''password='' @ q) \<longleftrightarrow> map to_lower (take 9 a) = ''password='' \<and> (drop 9 a = [] \<or> \<not> re_space (hd (drop 9 a)))"
  using assms by (cases "drop 9 a") (auto simp: password_at_def re_space_def)

lemma redact_keyword_at: "password_at s \<Longrightarrow> redact_keyword s = take 9 s @ ''xxxxx'' @ redact_keyword (dropWhile (\<lambda>c. \<not> re_space c) (drop 9 s))"
  by (subst redact_keyword.simps) (auto simp: password_at_def)

lemma redact_keyword_not_at: "\<not> password_at (x # s) \<Longrightarrow> redact_keyword (x # s) = x # redact_keyword s"
  by (simp add: redact_keyword.simps [of "x # s"])

lemma dropWhile_run: "\<forall>c \<in> set p. \<not> re_space c \<Longrightarrow> rest = [] \<or> re_space (hd rest) \<Longrightarrow> dropWhile (\<lambda>c. \<not> re_space c) (p @ rest) = rest"
  by (induction p) (cases rest; simp)+

lemma dropWhile_around_password:
  assumes "\<forall>c \<in> set x. \<not> re_space c" and "rest = [] \<or> re_space (hd rest)"
  shows "dropWhile (\<lambda>c. \<not> re_space c) (b @ ''password='' @ x @ rest) =
      (if \<exists>c \<in> set b. re_space c then dropWhile (\<lambda>c. \<not> re_space c) b @ ''password='' @ x @ rest else rest)"
  using assms dropWhile_run [of "b @ ''password='' @ x" rest] by (auto simp: dropWhile_append1 re_space_def)

text \<open>The redaction of a keyword DSN does not depend on the password: whatever precedes and follows it, two passwords
  without white space give the same text.\<close>

theorem redaction_hides_the_password:
  assumes "p \<noteq> []" and "q \<noteq> []" and "\<forall>c \<in> set (p @ q). \<not> re_space c" and "rest = [] \<or> re_space (hd rest)"
  shows "redact_keyword (a @ ''password='' @ p @ rest) = redact_keyword (a @ ''password='' @ q @ rest)"
proof (induction a rule: length_induct)
  case IH: (1 a)
  let ?s = "\<lambda>x. a @ ''password='' @ x @ rest"
  consider "a = []" | "a \<noteq> []" "length a < 9" | "9 \<le> length a" by linarith
  then show ?case
  proof cases
    case 1
    have "password_at (''password='' @ x @ rest)" if "x \<noteq> []" "\<forall>c \<in> set x. \<not> re_space c" for x
      using that by (cases x) (simp_all add: password_at_def to_lower_def)
    then have "redact_keyword (''password='' @ x @ rest) = ''password='' @ ''xxxxx'' @ redact_keyword rest"
      if "x \<noteq> []" "\<forall>c \<in> set x. \<not> re_space c" for x
      using that dropWhile_run [of x rest] assms(4) redact_keyword_at [of "''password='' @ x @ rest"] by simp
    then show ?thesis using assms 1 by simp
  next
    case 2
    then obtain c b where a: "a = c # b" by (cases a) auto
    have "\<not> password_at (c # b @ ''password='' @ x @ rest)" for x using password_at_before [OF 2, of "x @ rest"] a by simp
    then have "redact_keyword (?s x) = c # redact_keyword (b @ ''password='' @ x @ rest)" for x
      using a redact_keyword_not_at by simp
    with IH a show ?thesis by simp
  next
    case 3
    then obtain c b where a: "a = c # b" by (cases a) auto
    have same: "password_at (?s q) = password_at (?s p)" using password_at_within [OF 3] by metis
    show ?thesis
    proof (cases "password_at (?s p)")
      case True
      let ?rest_of = "\<lambda>x. dropWhile (\<lambda>c. \<not> re_space c) (drop 9 a @ ''password='' @ x @ rest)"
      have "length (dropWhile (\<lambda>c. \<not> re_space c) (drop 9 a)) < length a"
        using a length_dropWhile_le [of "\<lambda>c. \<not> re_space c" "drop 9 a"] by simp
      then have "redact_keyword (?rest_of p) = redact_keyword (?rest_of q)"
        using IH dropWhile_around_password [of p rest "drop 9 a"] dropWhile_around_password [of q rest "drop 9 a"] assms(3,4) by simp
      moreover have "redact_keyword (?s x) = take 9 a @ ''xxxxx'' @ redact_keyword (?rest_of x)" if "password_at (?s x)" for x
        using redact_keyword_at [OF that] 3 by simp
      ultimately show ?thesis using True same by simp
    next
      case False
      then have "redact_keyword (?s p) = c # redact_keyword (b @ ''password='' @ p @ rest)"
          "redact_keyword (?s q) = c # redact_keyword (b @ ''password='' @ q @ rest)"
        using same a redact_keyword_not_at by simp_all
      with IH a show ?thesis by simp
    qed
  qed
qed

theorem redaction_hides_the_password_witness:
  "redact_keyword ''host=db password=s3cret dbname=rabi'' = redact_keyword ''host=db password=hunter22 dbname=rabi''"
  using redaction_hides_the_password [of "''s3cret''" "''hunter22''" "'' dbname=rabi''" "''host=db ''"] by (simp add: re_space_def)

text \<open>A quoted password with a space is not hidden, its tail is logged; nor is one after a space.\<close>

lemma quoted_password_leaks:
  "redact_keyword (''password='' @ [CHR 0x27] @ ''s3 cret'' @ [CHR 0x27]) = ''password=xxxxx cret'' @ [CHR 0x27]"
  "redact_keyword ''password = s3cret'' = ''password = s3cret''"
  by (simp_all add: redact_keyword.simps password_at_def to_lower_def re_space_def)

end
