(* ===== verification/Fake_Adapter.thy ===== *)
theory Fake_Adapter
  imports Executor Registry Auth_Core Go_Fmt "HOL-Library.Word" "HOL-Library.Sublist" "HOL-Library.AList"
begin

text \<open>
  The in-memory adapter of \<open>internal/adaptertest/fake.go\<close>, the adapter the component tests and the load
  and chaos harnesses run against. A request is one locked section at the time it is served; the
  goroutine that \<open>SubmitTask\<close> starts is a process of the state, which sleeps until its wake-up time and
  then runs one locked section. A nil dereference is \<open>None\<close>.
\<close>

section \<open>Messages of the adapter protocol\<close>

text \<open>The messages of \<open>tangle.adapter.v1alpha1\<close> with the fields the adapter sets and the conformance
  suite reads.\<close>

record WireTargetInfo = TargetInfo +
  ti_DisplayName :: string
  ti_Vendor :: string
  ti_Simulator :: bool

record WireCapabilities = Capabilities +
  ca_Target :: WireTargetInfo
  ca_Cancellation :: bool
  ca_Sessions :: bool
  ca_CouplingClass :: string

record WireMetric = Metric +
  mt_Methodology :: string

record CalibrationSnapshot =
  cb_SnapshotId :: string
  cb_MeasuredAt :: "time option"
  cb_Source :: string
  cb_Metrics :: "WireMetric list"

record WireDeviceState =
  wd_TargetId :: string
  wd_Status :: device_status
  wd_EstimatedWait :: duration
  wd_Calibration :: CalibrationSnapshot
  wd_ObservedAt :: time

record UsageRecord =
  ur_Unit :: string
  ur_Amount :: float64
  ur_RecordedAt :: "time option"

record TaskRef =
  rf_TargetId :: string
  rf_TaskId :: string

record WireStatus =
  ws_Task :: TaskRef
  ws_State :: task_state
  ws_Result :: "adapter_result option"
  ws_Usage :: "UsageRecord list"
  ws_Error :: "ErrorDetail option"
  ws_UpdatedAt :: time

record SubmitTaskRequest =
  sq_TargetId :: string
  sq_IdempotencyKey :: string
  sq_Format :: string
  sq_Inline :: string
  sq_Shots :: "64 word"
  sq_SessionId :: string
  sq_Parameters :: "(string \<times> string) list"

record WireSessionHandle =
  wh_TargetId :: string
  wh_SessionId :: string
  wh_ExpiresAt :: "time option"

section \<open>State\<close>

record TargetSpec =
  sp_ID :: string
  sp_Qubits :: nat
  sp_Formats :: "string list"
  sp_MaxShots :: "64 word"
  sp_SnapshotID :: string
  sp_Metrics :: "WireMetric list"
  sp_FailWith :: "ErrorDetail option"
  sp_IgnoreMaxShots :: bool
  sp_BrokenSessions :: bool
  sp_StepDelay :: duration

record fake_task =
  ft_status :: WireStatus
  ft_cancel :: bool
  ft_failWith :: "ErrorDetail option"
  ft_key :: string

text \<open>A goroutine of \<open>advance\<close>: asleep until \<open>av_wake\<close>, before its first or its second step.\<close>

record advance_proc =
  av_spec :: TargetSpec
  av_id :: string
  av_shots :: "64 word"
  av_second :: bool
  av_wake :: time

record Fake =
  fk_targets :: "(string \<times> TargetSpec) list"
  fk_tasks :: "string \<Rightarrow> fake_task option"
  fk_byKey :: "string \<Rightarrow> string option"
  fk_order :: "string list"
  fk_nextID :: nat
  fk_sessions :: "string set"
  fk_garbage :: bool
  fk_procs :: "advance_proc list"

definition fakeTaskCap :: nat where
  "fakeTaskCap = 8192"

text \<open>\<open>time.Sleep\<close> returns at once for a negative duration.\<close>

definition sleep_time :: "duration \<Rightarrow> duration" where
  "sleep_time d = max 0 d"

definition SetGarbage :: "bool \<Rightarrow> Fake \<Rightarrow> Fake" where
  "SetGarbage on f = f\<lparr>fk_garbage := on\<rparr>"

text \<open>The defaults \<open>New\<close> fills in.\<close>

definition spec_defaults :: "TargetSpec \<Rightarrow> TargetSpec" where
  "spec_defaults s =
     (let s1 = (if sp_StepDelay s = 0 then s\<lparr>sp_StepDelay := 10000000\<rparr> else s);
          s2 = (if sp_MaxShots s1 = 0 then s1\<lparr>sp_MaxShots := 100000\<rparr> else s1);
          s3 = (if sp_SnapshotID s2 = [] then s2\<lparr>sp_SnapshotID := ''fake-snap-1''\<rparr> else s2)
      in if sp_Metrics s3 = [] then s3\<lparr>sp_Metrics := [
             \<lparr>mt_Name = ''gate.2q.cx.error'', mt_Value = 5 / 1000, mt_Qubits = [0, 1], mt_Methodology = ''synthetic-fixture''\<rparr>,
             \<lparr>mt_Name = ''readout.error'', mt_Value = 1 / 100, mt_Qubits = [0], mt_Methodology = ''synthetic-fixture''\<rparr>]\<rparr>
         else s3)"

definition NewFake :: "TargetSpec list \<Rightarrow> Fake" where
  "NewFake specs =
     \<lparr>fk_targets = fold (\<lambda>s ts. AList.update (sp_ID s) (spec_defaults s) ts) specs [],
      fk_tasks = (\<lambda>_. None), fk_byKey = (\<lambda>_. None), fk_order = [], fk_nextID = 0, fk_sessions = {},
      fk_garbage = False, fk_procs = []\<rparr>"

section \<open>Targets and sessions\<close>

definition spec :: "string \<Rightarrow> Fake \<Rightarrow> status + TargetSpec" where
  "spec i f = (case map_of (fk_targets f) i of
     None \<Rightarrow> Inl (NotFound, ''target '' @ quote i @ '' not served here'')
   | Some s \<Rightarrow> Inr s)"

definition targetInfo :: "string \<Rightarrow> WireTargetInfo" where
  "targetInfo i = \<lparr>ti_TargetId = i, ti_Modality = ''gate-model'', ti_Technology = ''simulator'',
     ti_DisplayName = ''Fake '' @ i, ti_Vendor = ''adaptertest'', ti_Simulator = True\<rparr>"

text \<open>Go ranges over the targets in no fixed order; here it is the order of \<open>New\<close>.\<close>

definition fake_ListTargets :: "Fake \<Rightarrow> WireTargetInfo list" where
  "fake_ListTargets f = map (targetInfo \<circ> fst) (fk_targets f)"

definition GetCapabilities :: "string \<Rightarrow> Fake \<Rightarrow> status + WireCapabilities" where
  "GetCapabilities i f = (case spec i f of
     Inl e \<Rightarrow> Inl e
   | Inr s \<Rightarrow> Inr \<lparr>ca_NumQubits = sp_Qubits s, ca_ProgramFormats = sp_Formats s, ca_MaxShots = unat (sp_MaxShots s),
       ca_BillingUnits = [''shots'', ''tasks''], ca_VendorExtensions = [], ca_CloudQueue = False,
       ca_Target = targetInfo (sp_ID s), ca_Cancellation = True, ca_Sessions = True, ca_CouplingClass = ''loose''\<rparr>)"

definition AddSession :: "string \<Rightarrow> Fake \<Rightarrow> Fake" where
  "AddSession i f = f\<lparr>fk_sessions := insert i (fk_sessions f)\<rparr>"

definition OpenSession :: "time \<Rightarrow> string \<Rightarrow> duration \<Rightarrow> Fake \<Rightarrow> Fake \<times> (status + WireSessionHandle)" where
  "OpenSession now target maxDuration f =
     (if (case spec target f of Inl _ \<Rightarrow> False | Inr s \<Rightarrow> sp_BrokenSessions s)
      then (f, Inl (Unimplemented, ''sessions declared but not implemented (self-test fixture)''))
      else
        (let n = Suc (fk_nextID f);
             i = ''fake-sess-'' @ itoa n;
             exp = (if maxDuration \<le> 0 then now + 3600 * 1000000000 else now + maxDuration)
         in (f\<lparr>fk_nextID := n, fk_sessions := insert i (fk_sessions f)\<rparr>,
             Inr \<lparr>wh_TargetId = target, wh_SessionId = i, wh_ExpiresAt = Some exp\<rparr>)))"

definition fake_CloseSession :: "WireSessionHandle \<Rightarrow> Fake \<Rightarrow> Fake" where
  "fake_CloseSession h f = f\<lparr>fk_sessions := fk_sessions f - {wh_SessionId h}\<rparr>"

definition GetDeviceState :: "time \<Rightarrow> string \<Rightarrow> Fake \<Rightarrow> status + WireDeviceState" where
  "GetDeviceState now i f = (case spec i f of
     Inl e \<Rightarrow> Inl e
   | Inr s \<Rightarrow> Inr \<lparr>wd_TargetId = sp_ID s, wd_Status = DSOnline, wd_EstimatedWait = 2 * 1000000000,
       wd_Calibration = \<lparr>cb_SnapshotId = sp_SnapshotID s, cb_MeasuredAt = Some now, cb_Source = ''adaptertest'',
         cb_Metrics = sp_Metrics s\<rparr>, wd_ObservedAt = now\<rparr>)"

section \<open>Tasks\<close>

definition isTerminalState :: "task_state \<Rightarrow> bool" where
  "isTerminalState s \<longleftrightarrow> s = TSSucceeded \<or> s = TSFailed \<or> s = TSCancelled"

text \<open>The loop of \<open>evictTerminal\<close>: the ids that are kept, and the tables without the dropped tasks.\<close>

fun evict_loop ::
  "nat \<Rightarrow> string list \<Rightarrow> (string \<Rightarrow> fake_task option) \<Rightarrow> (string \<Rightarrow> string option) \<Rightarrow>
   string list \<times> (string \<Rightarrow> fake_task option) \<times> (string \<Rightarrow> string option)" where
  "evict_loop n [] tsk bk0 = ([], tsk, bk0)"
| "evict_loop n (i # ids) tsk bk0 =
     (case tsk i of
        Some t \<Rightarrow>
          if 0 < n \<and> isTerminalState (ws_State (ft_status t))
          then evict_loop (n - 1) ids (tsk(i := None)) (bk0(ft_key t := None))
          else (let (kept, ts, bk) = evict_loop n ids tsk bk0 in (i # kept, ts, bk))
      | None \<Rightarrow> (let (kept, ts, bk) = evict_loop n ids tsk bk0 in (i # kept, ts, bk)))"

definition evictTerminal :: "Fake \<Rightarrow> Fake" where
  "evictTerminal f =
     (if length (fk_order f) \<le> fakeTaskCap then f
      else (let (kept, ts, bk) =
                  evict_loop (length (fk_order f) - fakeTaskCap) (fk_order f) (fk_tasks f) (fk_byKey f)
            in f\<lparr>fk_order := kept, fk_tasks := ts, fk_byKey := bk\<rparr>))"

definition Contains :: "string \<Rightarrow> string \<Rightarrow> bool" where
  "Contains s sub \<longleftrightarrow> list_ex (prefix sub) (suffixes s)"

definition fake_error :: "string \<Rightarrow> bool \<Rightarrow> string \<Rightarrow> ErrorDetail" where
  "fake_error category retriable message =
     \<lparr>ed_Category = category, ed_Retriable = retriable, ed_VendorCode = [], ed_VendorMessage = message\<rparr>"

text \<open>Why a submission is going to fail.\<close>

definition submit_failure :: "TargetSpec \<Rightarrow> SubmitTaskRequest \<Rightarrow> string set \<Rightarrow> ErrorDetail option" where
  "submit_failure s req live =
     (if sq_Format req \<notin> set (sp_Formats s)
      then Some (fake_error ''CAPABILITY_MISMATCH'' False ''undeclared program format'')
      else if sq_SessionId req \<noteq> [] \<and> sq_SessionId req \<notin> live
      then Some (fake_error ''SESSION_LOST'' True ''unknown or closed session'')
      else if Contains (sq_Inline req) ''not a program''
      then Some (fake_error ''INVALID_PROGRAM'' False ''unparseable program'')
      else if sp_MaxShots s > 0 \<and> sq_Shots req > sp_MaxShots s \<and> \<not> sp_IgnoreMaxShots s
      then Some (fake_error ''CAPABILITY_MISMATCH'' False ''shots above declared max_shots'')
      else None)"

definition SubmitTask :: "time \<Rightarrow> SubmitTaskRequest \<Rightarrow> Fake \<Rightarrow> Fake \<times> (status + TaskRef)" where
  "SubmitTask now req f =
     (case spec (sq_TargetId req) f of
        Inl e \<Rightarrow> (f, Inl e)
      | Inr s \<Rightarrow>
          if sq_IdempotencyKey req = [] then (f, Inl (InvalidArgument, ''idempotency_key is required''))
          else
            (let key = sp_ID s @ ''/'' @ sq_IdempotencyKey req
             in case fk_byKey f key of
                  Some i \<Rightarrow> (f, Inr \<lparr>rf_TargetId = sp_ID s, rf_TaskId = i\<rparr>)
                | None \<Rightarrow>
                    (let n = Suc (fk_nextID f);
                         i = ''fake-task-'' @ itoa n;
                         ref = \<lparr>rf_TargetId = sp_ID s, rf_TaskId = i\<rparr>;
                         t = \<lparr>ft_status = \<lparr>ws_Task = ref, ws_State = TSQueued, ws_Result = None, ws_Usage = [],
                                ws_Error = None, ws_UpdatedAt = now\<rparr>,
                              ft_cancel = False, ft_failWith = submit_failure s req (fk_sessions f), ft_key = key\<rparr>;
                         f1 = evictTerminal (f\<lparr>fk_nextID := n, fk_byKey := (fk_byKey f)(key := Some i),
                                fk_tasks := (fk_tasks f)(i := Some t), fk_order := fk_order f @ [i]\<rparr>)
                     in (f1\<lparr>fk_procs := fk_procs f1 @ [\<lparr>av_spec = s, av_id = i, av_shots = sq_Shots req,
                            av_second = False, av_wake = now + sleep_time (sp_StepDelay s)\<rparr>]\<rparr>, Inr ref))))"

section \<open>Execution\<close>

text \<open>The closure \<open>step\<close> of \<open>advance\<close> after its sleep; the result says whether the task goes on.\<close>

definition advance_step ::
  "time \<Rightarrow> string \<Rightarrow> (fake_task \<Rightarrow> fake_task) \<Rightarrow> Fake \<Rightarrow> (Fake \<times> bool) option" where
  "advance_step now i mut f =
     (case fk_tasks f i of
        None \<Rightarrow> None
      | Some t \<Rightarrow>
          if isTerminalState (ws_State (ft_status t)) then Some (f, False)
          else if ft_cancel t
          then Some (f\<lparr>fk_tasks := (fk_tasks f)(i := Some (t\<lparr>ft_status :=
                       (ft_status t)\<lparr>ws_State := TSCancelled, ws_UpdatedAt := now\<rparr>\<rparr>))\<rparr>, False)
          else (let t1 = mut t
                in Some (f\<lparr>fk_tasks := (fk_tasks f)(i := Some (t1\<lparr>ft_status := (ft_status t1)\<lparr>ws_UpdatedAt := now\<rparr>\<rparr>))\<rparr>,
                         True)))"

definition start_task :: "fake_task \<Rightarrow> fake_task" where
  "start_task t = t\<lparr>ft_status := (ft_status t)\<lparr>ws_State := TSRunning\<rparr>\<rparr>"

text \<open>\<open>json.Marshal\<close> of the counts, with Go's division of a signed number by two.\<close>

definition counts_json :: "64 word \<Rightarrow> string" where
  "counts_json shots =
     (let n = sint shots; half = (if n < 0 then - (- n div 2) else n div 2)
      in ''{\"counts\":{\"00\":'' @ itoa_int half @ '',\"11\":'' @ itoa_int (n - half) @ ''}}'')"

definition garbage_body :: string where
  "garbage_body = CHR 0x00 # CHR 0xFF # '' not json at all '' @ [CHR 0xFE]"

definition finish_task :: "TargetSpec \<Rightarrow> 64 word \<Rightarrow> bool \<Rightarrow> time \<Rightarrow> fake_task \<Rightarrow> fake_task" where
  "finish_task s shots garbage now t =
     (case ft_failWith t of
        Some e \<Rightarrow> t\<lparr>ft_status := (ft_status t)\<lparr>ws_State := TSFailed, ws_Error := Some e\<rparr>\<rparr>
      | None \<Rightarrow>
          (case sp_FailWith s of
             Some e \<Rightarrow> t\<lparr>ft_status := (ft_status t)\<lparr>ws_State := TSFailed, ws_Error := Some e\<rparr>\<rparr>
           | None \<Rightarrow> t\<lparr>ft_status := (ft_status t)\<lparr>ws_State := TSSucceeded,
               ws_Result := Some \<lparr>rs_Format = ''counts-json'',
                 rs_Inline = (if garbage then garbage_body else counts_json shots), rs_Uri = []\<rparr>,
               ws_Usage := [\<lparr>ur_Unit = ''shots'', ur_Amount = real (unat shots), ur_RecordedAt = Some now\<rparr>,
                            \<lparr>ur_Unit = ''tasks'', ur_Amount = 1, ur_RecordedAt = Some now\<rparr>]\<rparr>\<rparr>))"

text \<open>One wake-up of the goroutine \<open>advance\<close>, which is taken from the list of processes: after a first
  step that goes on it sleeps again.\<close>

definition advance :: "time \<Rightarrow> advance_proc \<Rightarrow> Fake \<Rightarrow> Fake option" where
  "advance now p f =
     (let f0 = f\<lparr>fk_procs := remove1 p (fk_procs f)\<rparr>;
          mut = (if av_second p then finish_task (av_spec p) (av_shots p) (fk_garbage f) now else start_task)
      in case advance_step now (av_id p) mut f0 of
           None \<Rightarrow> None
         | Some (f1, cont) \<Rightarrow>
             Some (if cont \<and> \<not> av_second p
                   then f1\<lparr>fk_procs := fk_procs f1 @ [p\<lparr>av_second := True, av_wake := now + sleep_time (sp_StepDelay (av_spec p))\<rparr>]\<rparr>
                   else f1))"

section \<open>Queries and cancellation\<close>

definition getTask :: "string \<Rightarrow> Fake \<Rightarrow> status + fake_task" where
  "getTask i f = (case fk_tasks f i of
     None \<Rightarrow> Inl (NotFound, ''task '' @ quote i @ '' not found'')
   | Some t \<Rightarrow> Inr t)"

definition GetTask :: "string \<Rightarrow> Fake \<Rightarrow> status + WireStatus" where
  "GetTask i f = (case getTask i f of Inl e \<Rightarrow> Inl e | Inr t \<Rightarrow> Inr (ft_status t))"

text \<open>One round of the loop of \<open>WatchTask\<close> with the last state that was sent: the task is gone, which
  dereferences nil, its status is sent, or nothing changed.\<close>

datatype watch_round = WatchPanic | WatchSend WireStatus | WatchQuiet

definition WatchTask_round :: "string \<Rightarrow> task_state option \<Rightarrow> Fake \<Rightarrow> watch_round" where
  "WatchTask_round i prev f = (case fk_tasks f i of
     None \<Rightarrow> WatchPanic
   | Some t \<Rightarrow> if Some (ws_State (ft_status t)) \<noteq> prev then WatchSend (ft_status t) else WatchQuiet)"

text \<open>\<open>CancelTask\<close> with its answer \<open>Accepted\<close>.\<close>

definition CancelTask :: "string \<Rightarrow> Fake \<Rightarrow> Fake \<times> (status + bool)" where
  "CancelTask i f = (case getTask i f of
     Inl e \<Rightarrow> (f, Inl e)
   | Inr t \<Rightarrow>
       if isTerminalState (ws_State (ft_status t)) then (f, Inr False)
       else (f\<lparr>fk_tasks := (fk_tasks f)(i := Some (t\<lparr>ft_cancel := True\<rparr>))\<rparr>, Inr True))"

end
