(* ===== verification/Load_Stack.thy ===== *)
theory Load_Stack
  imports Fake_Adapter Dispatcher Api_Auth
begin

text \<open>
  The stack of the load harness (\<open>internal/loadtest/harness.go\<close>): the synthetic fleet, the order in which
  the stack is booted and torn down, the wait for the fleet, the seeded jobs and the two queries the
  harness measures with. Listening on a port, compiling the schema and starting the API server are
  arguments, as is the view of the registry at each time. A query is \<open>None\<close> when the database cannot be
  asked.
\<close>

section \<open>The synthetic fleet\<close>

definition harnessToken :: string where
  "harnessToken = ''loadtest-bootstrap-token''"

definition stack_targets :: "int \<Rightarrow> nat" where
  "stack_targets numTargets = (if numTargets \<le> 0 then 1 else nat numTargets)"

definition stack_spec :: "nat \<Rightarrow> TargetSpec" where
  "stack_spec i = \<lparr>sp_ID = ''t'' @ pad0 3 (itoa i), sp_Qubits = 32, sp_Formats = [''openqasm3''], sp_MaxShots = 1000000,
     sp_SnapshotID = [], sp_Metrics = [], sp_FailWith = None, sp_IgnoreMaxShots = False, sp_BrokenSessions = False,
     sp_StepDelay = 1000000\<rparr>"

definition stack_specs :: "nat \<Rightarrow> TargetSpec list" where
  "stack_specs n = map stack_spec [0..<n]"

section \<open>Booting\<close>

datatype boot_error =
    ServeError string
  | RegistryError spec_error
  | DispatcherError "string \<times> string list"
  | ValidatorError string
  | AuthError string
  | ApiError string
  | NotOnline nat

text \<open>What the outside decides: the address the fake fleet is served at, the addresses a client can be
  created for, the compilation of the schema and the start of the API server.\<close>

record boot_env =
  be_serve :: "string + string"
  be_dial :: "string \<Rightarrow> bool"
  be_validator :: "string option"
  be_server :: "Authenticator \<Rightarrow> string + string"

record Stack =
  sk_fake :: Fake
  sk_registry :: registry
  sk_Dispatcher :: dispatcher
  sk_auth :: Authenticator
  sk_GRPCAddr :: string
  sk_Targets :: nat

text \<open>What is running: the server of the fake fleet, and the goroutines under the run context.\<close>

record running =
  rn_fake :: bool
  rn_ctx :: bool

definition shut_down :: "running \<Rightarrow> running" where
  "shut_down r = r\<lparr>rn_ctx := False, rn_fake := False\<rparr>"

text \<open>Everything of \<open>NewStack\<close> up to the wait for the fleet.\<close>

definition boot_stack ::
  "boot_env \<Rightarrow> (string \<times> policy) list \<Rightarrow> (string \<rightharpoonup> policy) \<Rightarrow> db \<Rightarrow> int \<Rightarrow> string \<Rightarrow> running \<times> (boot_error + Stack)" where
  "boot_stack env factories singletons st numTargets policy =
     (let n = stack_targets numTargets;
          fake = NewFake (stack_specs n)
      in case be_serve env of
           Inl e \<Rightarrow> (\<lparr>rn_fake = False, rn_ctx = False\<rparr>, Inl (ServeError e))
         | Inr addr \<Rightarrow>
             (let up = \<lparr>rn_fake = True, rn_ctx = True\<rparr>
              in case NewFromSpec (be_dial env) (''synth='' @ addr) of
                   Inl e \<Rightarrow> (shut_down up, Inl (RegistryError e))
                 | Inr reg \<Rightarrow>
                     (case New factories singletons st policy of
                        (_, Inl e) \<Rightarrow> (shut_down up, Inl (DispatcherError e))
                      | (_, Inr dispatcher) \<Rightarrow>
                          (case be_validator env of
                             Some e \<Rightarrow> (shut_down up, Inl (ValidatorError e))
                           | None \<Rightarrow>
                               (case NewAuthenticator harnessToken None of
                                  Inl e \<Rightarrow> (shut_down up, Inl (AuthError e))
                                | Inr authn \<Rightarrow>
                                    (case be_server env authn of
                                       Inl e \<Rightarrow> (shut_down up, Inl (ApiError e))
                                     | Inr grpc \<Rightarrow> (up, Inr \<lparr>sk_fake = fake, sk_registry = reg, sk_Dispatcher = dispatcher,
                                         sk_auth = authn, sk_GRPCAddr = grpc, sk_Targets = n\<rparr>)))))))"

text \<open>
  The times at which a loop polls that looks at the clock, does its work and sleeps: from \<open>t\<close> until the
  deadline, \<open>pause\<close> apart and later by what the work at that time takes. The pauses of the harness are
  positive.
\<close>

function poll_times :: "(time \<Rightarrow> nat) \<Rightarrow> nat \<Rightarrow> time \<Rightarrow> time \<Rightarrow> time list" where
  "poll_times work pause deadline t =
     (if t < deadline \<and> 0 < pause then t # poll_times work pause deadline (t + int (work t) + int pause) else [])"
  by pat_completeness auto
termination by (relation "measure (\<lambda>(work, pause, deadline, t). nat (deadline - t))") auto

declare poll_times.simps [simp del]

definition online_count :: "Entry list \<Rightarrow> nat" where
  "online_count es = length (filter (\<lambda>e. status_of e = DSOnline) es)"

text \<open>\<open>view t\<close> is the registry at time \<open>t\<close>.\<close>

definition wait_online :: "(time \<Rightarrow> registry) \<Rightarrow> (time \<Rightarrow> nat) \<Rightarrow> nat \<Rightarrow> time \<Rightarrow> bool" where
  "wait_online view work n now \<longleftrightarrow>
     (\<exists>t \<in> set (poll_times work 100000000 (now + 30 * 1000000000) now). n \<le> online_count (Entries (view t)))"

definition NewStack ::
  "boot_env \<Rightarrow> (string \<times> policy) list \<Rightarrow> (string \<rightharpoonup> policy) \<Rightarrow> db \<Rightarrow> int \<Rightarrow> string \<Rightarrow>
   (time \<Rightarrow> registry) \<Rightarrow> (time \<Rightarrow> nat) \<Rightarrow> time \<Rightarrow> running \<times> (boot_error + Stack)" where
  "NewStack env factories singletons st numTargets policy view work now =
     (case boot_stack env factories singletons st numTargets policy of
        (r, Inl e) \<Rightarrow> (r, Inl e)
      | (r, Inr s) \<Rightarrow>
          if wait_online view work (sk_Targets s) now then (r, Inr s)
          else (shut_down r, Inl (NotOnline (sk_Targets s))))"

section \<open>Seeding and measuring\<close>

definition load_program :: string where
  "load_program = ''OPENQASM 3.0;'' @ [CHR 0x0A] @ ''qubit[2] q;'' @ [CHR 0x0A]"

definition minimalDoc :: "string \<Rightarrow> string \<Rightarrow> int \<Rightarrow> obj" where
  "minimalDoc name tenant shots =
     [(''apiVersion'', JStr ''tangle.dev/v1alpha1''),
      (''kind'', JStr ''QuantumJob''),
      (''metadata'', JObj [(''name'', JStr name), (''tenant'', JStr tenant)]),
      (''spec'', JObj [
         (''workload'', JObj [
            (''kind'', JStr ''gate-model''),
            (''gateModel'', JObj [
               (''program'', JObj [(''format'', JStr ''openqasm3''), (''inline'', JStr (b64_Encode load_program))]),
               (''shots'', JNum (real_of_int shots))])]),
         (''requirements'', JObj [(''qubits'', JNum 2)])])]"

definition seed_record :: "string \<Rightarrow> string \<Rightarrow> int \<Rightarrow> job_record" where
  "seed_record uuid tenant shots = \<lparr>jr_JobID = uuid, jr_Tenant = tenant, jr_Name = ''load'', jr_Phase = Pending,
     jr_Doc = minimalDoc ''load'' tenant shots,
     jr_Status = [(''phase'', JStr ''PENDING''), (''conditions'', JArr [])],
     jr_CreatedAt = zero_time, jr_UpdatedAt = zero_time\<rparr>"

definition SeedJob :: "time \<Rightarrow> string \<Rightarrow> string \<Rightarrow> int \<Rightarrow> db \<Rightarrow> string tx" where
  "SeedJob now uuid tenant shots d =
     (case InsertJob now (seed_record uuid tenant shots) d of
        (d', Inl e) \<Rightarrow> (d', Inl e)
      | (d', Inr _) \<Rightarrow> (d', Inr uuid))"

definition PendingCount :: "db \<Rightarrow> int" where
  "PendingCount d = int (length (filter (\<lambda>r. jr_Phase r = Pending) (jobs d)))"

definition NonTerminalOlderThan :: "time \<Rightarrow> duration \<Rightarrow> db \<Rightarrow> int" where
  "NonTerminalOlderThan now age d =
     int (length (filter (\<lambda>r. phase_str (jr_Phase r) \<notin> {''SUCCEEDED'', ''FAILED'', ''CANCELLED''} \<and> jr_CreatedAt r < now - age)
       (jobs d)))"

end
