(* ===== verification/Load_Storm.thy ===== *)
theory Load_Storm
  imports Load_Stack Latencies Cycle_Ring Store_Invariants "HOL-Library.Word"
begin

text \<open>
  The storm of the load harness (\<open>internal/loadtest/storm.go\<close>): the workers that seed the backlog, the
  readers and writers that probe the API, the sampler of the queue depth, the wait for the queue to drain
  and the verdict. Goroutines are components of a state that is stepped one component at a time, so a run
  is any interleaving. Durations are in nanoseconds.
\<close>

section \<open>Configuration and thresholds\<close>

definition MaxSchedulerCycleP99 :: duration where "MaxSchedulerCycleP99 = 2 * 1000000000"
definition MaxAPIReadP99 :: duration where "MaxAPIReadP99 = 300 * 1000000"
definition MaxAPIWriteP99 :: duration where "MaxAPIWriteP99 = 1 * 1000000000"

record StormConfig =
  sc_Jobs :: int
  sc_Targets :: int
  sc_Tenant :: string
  sc_Policy :: string
  sc_SeedWorkers :: int
  sc_APIReaders :: int
  sc_APIWriters :: int
  sc_APIReads :: int
  sc_APIWrites :: int
  sc_DrainTimeout :: duration

definition storm_defaults :: "StormConfig \<Rightarrow> StormConfig" where
  "storm_defaults c = c\<lparr>
     sc_Jobs := (if sc_Jobs c = 0 then 10000 else sc_Jobs c),
     sc_Targets := (if sc_Targets c = 0 then 100 else sc_Targets c),
     sc_Tenant := (if sc_Tenant c = [] then ''acme/qa'' else sc_Tenant c),
     sc_SeedWorkers := (if sc_SeedWorkers c = 0 then 64 else sc_SeedWorkers c),
     sc_APIReaders := (if sc_APIReaders c = 0 then 16 else sc_APIReaders c),
     sc_APIWriters := (if sc_APIWriters c = 0 then 8 else sc_APIWriters c),
     sc_APIReads := (if sc_APIReads c = 0 then 2000 else sc_APIReads c),
     sc_APIWrites := (if sc_APIWrites c = 0 then 500 else sc_APIWrites c),
     sc_DrainTimeout := (if sc_DrainTimeout c = 0 then 5 * 60 * 1000000000 else sc_DrainTimeout c)\<rparr>"

section \<open>The result\<close>

record StormResult =
  sr_Jobs :: int
  sr_Targets :: int
  sr_Duration :: duration
  sr_CycleCount :: int
  sr_SchedulerCycleP50 :: duration
  sr_SchedulerCycleP99 :: duration
  sr_SchedulerCycleMax :: duration
  sr_APIReadP50 :: duration
  sr_APIReadP99 :: duration
  sr_APIWriteP50 :: duration
  sr_APIWriteP99 :: duration
  sr_PeakPending :: int
  sr_FinalPending :: int
  sr_Drained :: bool

definition over :: "string \<Rightarrow> duration \<Rightarrow> duration \<Rightarrow> string list" where
  "over what p99 limit = (if p99 > limit then [what @ '' p99 '' @ duration_String p99 @ '' > '' @ duration_String limit] else [])"

definition storm_ceiling :: "StormResult \<Rightarrow> int" where
  "storm_ceiling r = wrap64 (sr_Jobs r + sr_Targets r + 2000)"

definition storm_Violations :: "StormResult \<Rightarrow> string list" where
  "storm_Violations r =
     over ''scheduler-cycle'' (sr_SchedulerCycleP99 r) MaxSchedulerCycleP99 @
     over ''api-read'' (sr_APIReadP99 r) MaxAPIReadP99 @
     over ''api-write'' (sr_APIWriteP99 r) MaxAPIWriteP99 @
     (if \<not> sr_Drained r then [''queue did not drain: '' @ itoa_int (sr_FinalPending r) @ '' jobs still pending''] else []) @
     (if sr_PeakPending r > storm_ceiling r
      then [''queue grew unbounded: peak pending '' @ itoa_int (sr_PeakPending r) @ '' > ceiling '' @ itoa_int (storm_ceiling r)]
      else [])"

text \<open>\<open>d.Round(m)\<close>: halves go away from zero, and the result saturates.\<close>

definition duration_Round :: "duration \<Rightarrow> duration \<Rightarrow> duration" where
  "duration_Round d m =
     (if m \<le> 0 then d
      else
        (let r = \<bar>d\<bar> mod m
         in if d < 0 then (if 2 * r < m then d + r else if d - m + r < min_duration then min_duration else d - m + r)
            else (if 2 * r < m then d - r else if d + m - r > max_duration then max_duration else d + m - r)))"

definition middle_dot :: string where
  "middle_dot = [char_of (194 :: nat), char_of (183 :: nat)]"

definition fmt_bool :: "bool \<Rightarrow> string" where
  "fmt_bool b = (if b then ''true'' else ''false'')"

definition storm_String :: "StormResult \<Rightarrow> string" where
  "storm_String r =
     ''storm[jobs='' @ itoa_int (sr_Jobs r) @ '' targets='' @ itoa_int (sr_Targets r) @ '' dur='' @
       duration_String (duration_Round (sr_Duration r) 1000000) @ '']: cycle p50='' @ duration_String (sr_SchedulerCycleP50 r) @
     '' p99='' @ duration_String (sr_SchedulerCycleP99 r) @ '' max='' @ duration_String (sr_SchedulerCycleMax r) @
     '' ('' @ itoa_int (sr_CycleCount r) @ '' cycles) '' @ middle_dot @
     '' read p50='' @ duration_String (sr_APIReadP50 r) @ '' p99='' @ duration_String (sr_APIReadP99 r) @ '' '' @ middle_dot @
     '' write p50='' @ duration_String (sr_APIWriteP50 r) @ '' p99='' @ duration_String (sr_APIWriteP99 r) @ '' '' @ middle_dot @
     '' pending peak='' @ itoa_int (sr_PeakPending r) @ '' final='' @ itoa_int (sr_FinalPending r) @
     '' drained='' @ fmt_bool (sr_Drained r)"

section \<open>Seeding the backlog\<close>

text \<open>A worker waits for an index, inserts the job of one, or has returned. An insertion fails with an
  error of the store, or because the database cannot be reached. The last error that is stored wins.\<close>

datatype seed_worker = SIdle | SHold nat | SExit

datatype seed_error = SeedStore store_error | SeedConn string

record seed_state =
  sd_next :: "nat list"
  sd_workers :: "seed_worker list"
  sd_ids :: "string list"
  sd_err :: "seed_error option"
  sd_db :: db

definition seed_init :: "StormConfig \<Rightarrow> db \<Rightarrow> seed_state" where
  "seed_init cfg d = \<lparr>sd_next = [0..<nat (sc_Jobs cfg)], sd_workers = replicate (nat (sc_SeedWorkers cfg)) SIdle,
     sd_ids = replicate (nat (sc_Jobs cfg)) [], sd_err = None, sd_db = d\<rparr>"

definition at_worker :: "'w list \<Rightarrow> nat \<Rightarrow> 'w \<Rightarrow> bool" where
  "at_worker ws w x \<longleftrightarrow> w < length ws \<and> ws ! w = x"

inductive seedJobs :: "StormConfig \<Rightarrow> seed_state \<Rightarrow> seed_state \<Rightarrow> bool" for cfg where
  take_index: "at_worker (sd_workers s) w SIdle \<Longrightarrow> sd_next s = i # rest \<Longrightarrow>
    seedJobs cfg s (s\<lparr>sd_next := rest, sd_workers := (sd_workers s)[w := SHold i]\<rparr>)"
| channel_closed: "at_worker (sd_workers s) w SIdle \<Longrightarrow> sd_next s = [] \<Longrightarrow>
    seedJobs cfg s (s\<lparr>sd_workers := (sd_workers s)[w := SExit]\<rparr>)"
| seeded: "at_worker (sd_workers s) w (SHold i) \<Longrightarrow> SeedJob now uuid (sc_Tenant cfg) 1000 (sd_db s) = (d', Inr jobid) \<Longrightarrow>
    seedJobs cfg s (s\<lparr>sd_workers := (sd_workers s)[w := SIdle], sd_ids := (sd_ids s)[i := jobid], sd_db := d'\<rparr>)"
| store_failed: "at_worker (sd_workers s) w (SHold i) \<Longrightarrow> SeedJob now uuid (sc_Tenant cfg) 1000 (sd_db s) = (d', Inl e) \<Longrightarrow>
    seedJobs cfg s (s\<lparr>sd_workers := (sd_workers s)[w := SExit], sd_err := Some (SeedStore e), sd_db := d'\<rparr>)"
| unreachable: "at_worker (sd_workers s) w (SHold i) \<Longrightarrow>
    seedJobs cfg s (s\<lparr>sd_workers := (sd_workers s)[w := SExit], sd_err := Some (SeedConn msg)\<rparr>)"

text \<open>The dispatcher and its executors work on the same database meanwhile.\<close>

inductive seed_or_stack :: "StormConfig \<Rightarrow> seed_state \<Rightarrow> seed_state \<Rightarrow> bool" for cfg where
  worker: "seedJobs cfg s s' \<Longrightarrow> seed_or_stack cfg s s'"
| stack: "store_step (sd_db s) d' \<Longrightarrow> seed_or_stack cfg s (s\<lparr>sd_db := d'\<rparr>)"

section \<open>Probing the API\<close>

text \<open>
  Readers and writers are pools that share an atomic counter: a worker increments it, leaves when the new
  value is above the limit, and otherwise sends the request for its next index, records how long it took
  and starts over. What the request returns is ignored.
\<close>

datatype prober = PLoop nat | PProbe nat | PExit

record 'r pool =
  pl_count :: int
  pl_workers :: "prober list"
  pl_lat :: Latencies
  pl_sent :: "'r list"

inductive pool_step :: "int \<Rightarrow> (nat \<Rightarrow> nat) \<Rightarrow> (nat \<Rightarrow> 'r) \<Rightarrow> 'r pool \<Rightarrow> 'r pool \<Rightarrow> bool" for limit adv request where
  claim: "at_worker (pl_workers s) w (PLoop i) \<Longrightarrow> wrap64 (pl_count s + 1) \<le> limit \<Longrightarrow>
    pool_step limit adv request s
      (s\<lparr>pl_count := wrap64 (pl_count s + 1), pl_workers := (pl_workers s)[w := PProbe (adv i)]\<rparr>)"
| leave: "at_worker (pl_workers s) w (PLoop i) \<Longrightarrow> \<not> wrap64 (pl_count s + 1) \<le> limit \<Longrightarrow>
    pool_step limit adv request s
      (s\<lparr>pl_count := wrap64 (pl_count s + 1), pl_workers := (pl_workers s)[w := PExit]\<rparr>)"
| probed: "at_worker (pl_workers s) w (PProbe i) \<Longrightarrow> 0 \<le> elapsed \<Longrightarrow>
    pool_step limit adv request s
      (s\<lparr>pl_workers := (pl_workers s)[w := PLoop i], pl_lat := lat_Record elapsed (pl_lat s), pl_sent := pl_sent s @ [request i]\<rparr>)"

definition pool_init :: "nat list \<Rightarrow> 'r pool" where
  "pool_init seeds = \<lparr>pl_count = 0, pl_workers = map PLoop seeds, pl_lat = [], pl_sent = []\<rparr>"

datatype read_probe = ListProbe nat | GetProbe string

definition read_request :: "string list \<Rightarrow> nat \<Rightarrow> read_probe" where
  "read_request ids i = (if i mod 3 = 0 then ListProbe 50 else GetProbe (ids ! i))"

definition reader_step :: "StormConfig \<Rightarrow> string list \<Rightarrow> read_probe pool \<Rightarrow> read_probe pool \<Rightarrow> bool" where
  "reader_step cfg ids = pool_step (sc_APIReads cfg) (\<lambda>i. (i + 1) mod length ids) (read_request ids)"

definition readers_init :: "StormConfig \<Rightarrow> read_probe pool" where
  "readers_init cfg = pool_init (map (\<lambda>r. r * 997) [0..<nat (sc_APIReaders cfg)])"

definition writer_step :: "StormConfig \<Rightarrow> obj pool \<Rightarrow> obj pool \<Rightarrow> bool" where
  "writer_step cfg = pool_step (sc_APIWrites cfg) id (\<lambda>_. minimalDoc ''load-api'' (sc_Tenant cfg) 1000)"

definition writers_init :: "StormConfig \<Rightarrow> obj pool" where
  "writers_init cfg = pool_init (replicate (nat (sc_APIWriters cfg)) 0)"

definition pool_over :: "'r pool \<Rightarrow> bool" where
  "pool_over s \<longleftrightarrow> set (pl_workers s) \<subseteq> {PExit}"

text \<open>\<open>runProbes\<close> sends nothing when the client cannot be created; otherwise it returns once all readers and writers have left.\<close>

inductive runProbes :: "StormConfig \<Rightarrow> string list \<Rightarrow> bool \<Rightarrow> read_probe pool \<Rightarrow> obj pool \<Rightarrow> bool" for cfg ids where
  no_client: "runProbes cfg ids False (pool_init []) (pool_init [])"
| probes_over: "(reader_step cfg ids)\<^sup>*\<^sup>* (readers_init cfg) r \<Longrightarrow> pool_over r \<Longrightarrow>
    (writer_step cfg)\<^sup>*\<^sup>* (writers_init cfg) w \<Longrightarrow> pool_over w \<Longrightarrow> runProbes cfg ids True r w"

section \<open>Sampling and draining\<close>

text \<open>The compare-and-swap loop has no rival, so one sample is one update; a failed query is \<open>None\<close>.\<close>

definition sample_peak :: "int option \<Rightarrow> int \<Rightarrow> int" where
  "sample_peak s old = (case s of None \<Rightarrow> old | Some n \<Rightarrow> if n \<le> old then old else n)"

definition storm_peak :: "int option list \<Rightarrow> int" where
  "storm_peak samples = fold sample_peak samples 0"

fun drain_loop :: "db option list \<Rightarrow> int \<Rightarrow> bool \<times> int" where
  "drain_loop [] seen = (False, seen)"
| "drain_loop (None # ds) seen = drain_loop ds seen"
| "drain_loop (Some d # ds) seen =
     (let n = PendingCount d in if n = 0 then (True, 0) else drain_loop ds n)"

text \<open>\<open>obs t\<close> is the database the query of time \<open>t\<close> sees.\<close>

definition waitForDrain :: "(time \<Rightarrow> db option) \<Rightarrow> (time \<Rightarrow> nat) \<Rightarrow> time \<Rightarrow> duration \<Rightarrow> bool \<times> int" where
  "waitForDrain obs work now timeout = drain_loop (map obs (poll_times work 200000000 (now + timeout) now)) 0"

section \<open>The run\<close>

definition storm_result ::
  "StormConfig \<Rightarrow> duration \<Rightarrow> cycleRing \<Rightarrow> Latencies \<Rightarrow> Latencies \<Rightarrow> int option list \<Rightarrow> bool \<times> int \<Rightarrow> StormResult" where
  "storm_result cfg dur ring readLat writeLat samples drain = \<lparr>
     sr_Jobs = sc_Jobs cfg, sr_Targets = sc_Targets cfg, sr_Duration = dur,
     sr_CycleCount = CycleCount ring, sr_SchedulerCycleP50 = CycleP50 ring, sr_SchedulerCycleP99 = CycleP99 ring,
     sr_SchedulerCycleMax = CycleMax ring,
     sr_APIReadP50 = P50 readLat, sr_APIReadP99 = P99 readLat, sr_APIWriteP50 = P50 writeLat, sr_APIWriteP99 = P99 writeLat,
     sr_PeakPending = storm_peak samples, sr_FinalPending = snd drain, sr_Drained = fst drain\<rparr>"

definition seeding_over :: "seed_state \<Rightarrow> bool" where
  "seeding_over s \<longleftrightarrow> set (sd_workers s) \<subseteq> {SExit}"

text \<open>\<open>RunStorm\<close> after the defaults: what a run can end with. A negative number of jobs panics when the slice of ids is made and ends with nothing.\<close>

inductive RunStorm :: "StormConfig \<Rightarrow> db \<Rightarrow> seed_error + StormResult \<Rightarrow> bool" for cfg0 d where
  seed_failed: "cfg = storm_defaults cfg0 \<Longrightarrow> 0 \<le> sc_Jobs cfg \<Longrightarrow> (seed_or_stack cfg)\<^sup>*\<^sup>* (seed_init cfg d) s \<Longrightarrow> seeding_over s \<Longrightarrow>
    sd_err s = Some e \<Longrightarrow> RunStorm cfg0 d (Inl e)"
| finished: "cfg = storm_defaults cfg0 \<Longrightarrow> 0 \<le> sc_Jobs cfg \<Longrightarrow> (seed_or_stack cfg)\<^sup>*\<^sup>* (seed_init cfg d) s \<Longrightarrow> seeding_over s \<Longrightarrow>
    sd_err s = None \<Longrightarrow> runProbes cfg (sd_ids s) client r w \<Longrightarrow>
    RunStorm cfg0 d (Inr (storm_result cfg dur ring (pl_lat r) (pl_lat w) samples (waitForDrain obs work now (sc_DrainTimeout cfg))))"

end
