(* ===== verification/Load_Soak.thy ===== *)
theory Load_Soak
  imports Load_Storm
begin

text \<open>
  The soak of the load harness (\<open>internal/loadtest/soak.go\<close>): the submitter, the sampling loop, the wait for
  the jobs in flight, the growth of the heap and the verdict. The runtime's readings (goroutines, heap,
  \<open>/proc/self/status\<close>) and the clock are arguments. Indexing a string past its end is \<open>None\<close>.
\<close>

section \<open>Configuration and result\<close>

definition MaxSoakHeapGrowthPct :: float64 where "MaxSoakHeapGrowthPct = 50"
definition GoroutineSlack :: int where "GoroutineSlack = 100"
definition DefaultStuckJobMaxAge :: duration where "DefaultStuckJobMaxAge = 30 * 1000000000"
definition DefaultSoakArrivalRate :: int where "DefaultSoakArrivalRate = 200"

record SoakConfig =
  so_Duration :: duration
  so_Targets :: int
  so_Tenant :: string
  so_Policy :: string
  so_ArrivalRate :: int
  so_WarmupFraction :: float64
  so_StuckJobMaxAge :: duration
  so_SampleEvery :: duration

definition soak_defaults :: "SoakConfig \<Rightarrow> SoakConfig" where
  "soak_defaults c = c\<lparr>
     so_Duration := (if so_Duration c = 0 then 2 * 60 * 1000000000 else so_Duration c),
     so_Targets := (if so_Targets c = 0 then 20 else so_Targets c),
     so_Tenant := (if so_Tenant c = [] then ''acme/qa'' else so_Tenant c),
     so_ArrivalRate := (if so_ArrivalRate c = 0 then DefaultSoakArrivalRate else so_ArrivalRate c),
     so_WarmupFraction := (if so_WarmupFraction c = 0 then 35 / 100 else so_WarmupFraction c),
     so_StuckJobMaxAge := (if so_StuckJobMaxAge c = 0 then DefaultStuckJobMaxAge else so_StuckJobMaxAge c),
     so_SampleEvery := (if so_SampleEvery c = 0 then 2 * 1000000000 else so_SampleEvery c)\<rparr>"

record SoakResult =
  sk_Duration :: duration
  sk_Samples :: nat
  sk_JobsSubmitted :: int
  sk_HeapInuseBase :: nat
  sk_HeapInuseEnd :: nat
  sk_HeapGrowthPct :: float64
  sk_GoroutinesBase :: int
  sk_GoroutinesPeak :: int
  sk_GoroutinesEnd :: int
  sk_RSSBaseKB :: nat
  sk_RSSEndKB :: nat
  sk_MaxStuck :: int
  sk_FinalStuck :: int
  sk_FinalPending :: int

definition soak_Violations :: "SoakResult \<Rightarrow> string list" where
  "soak_Violations r =
     (if sk_HeapGrowthPct r > MaxSoakHeapGrowthPct
      then [''post-warmup heap growth '' @ fmt_fixed 1 (sk_HeapGrowthPct r) @ ''% > '' @ fmt_fixed 1 MaxSoakHeapGrowthPct @ ''%'']
      else []) @
     (if sk_GoroutinesEnd r > sk_GoroutinesBase r + GoroutineSlack
      then [''goroutines unbounded: end '' @ itoa_int (sk_GoroutinesEnd r) @ '' > base '' @ itoa_int (sk_GoroutinesBase r) @
            '' + slack '' @ itoa_int GoroutineSlack]
      else []) @
     (if sk_FinalStuck r > 0 then [itoa_int (sk_FinalStuck r) @ '' job(s) stuck non-terminal past max age''] else [])"

section \<open>Readings\<close>

text \<open>The loop of \<open>humanBytes\<close>: the divisor and the exponent.\<close>

fun human_loop :: "nat \<Rightarrow> nat \<Rightarrow> nat \<Rightarrow> nat \<times> nat" where
  "human_loop n dv ex = (if 1024 \<le> n then human_loop (n div 1024) (dv * 1024) (Suc ex) else (dv, ex))"

declare human_loop.simps [simp del]

definition humanBytes :: "nat \<Rightarrow> string option" where
  "humanBytes b =
     (if b < 1024 then Some (itoa b @ ''B'')
      else
        (let (dv, ex) = human_loop (b div 1024) 1024 0
         in if ex < length ''KMGT'' then Some (fmt_fixed 1 (real b / real dv) @ [''KMGT'' ! ex] @ ''iB'') else None))"

definition soak_String :: "SoakResult \<Rightarrow> string option" where
  "soak_String r =
     (case humanBytes (sk_HeapInuseBase r) of
        None \<Rightarrow> None
      | Some base \<Rightarrow>
          (case humanBytes (sk_HeapInuseEnd r) of
             None \<Rightarrow> None
           | Some end_heap \<Rightarrow> Some (
               ''soak[dur='' @ duration_String (duration_Round (sk_Duration r) 1000000000) @ '' samples='' @ itoa (sk_Samples r) @
               '' submitted='' @ itoa_int (sk_JobsSubmitted r) @ '']: heap base='' @ base @ '' end='' @ end_heap @
               '' growth='' @ fmt_fixed 1 (sk_HeapGrowthPct r) @ ''% '' @ middle_dot @
               '' goroutines base='' @ itoa_int (sk_GoroutinesBase r) @ '' peak='' @ itoa_int (sk_GoroutinesPeak r) @
               '' end='' @ itoa_int (sk_GoroutinesEnd r) @ '' '' @ middle_dot @
               '' rss base='' @ itoa (sk_RSSBaseKB r) @ ''KB end='' @ itoa (sk_RSSEndKB r) @ ''KB '' @ middle_dot @
               '' stuck max='' @ itoa_int (sk_MaxStuck r) @ '' final='' @ itoa_int (sk_FinalStuck r))))"

text \<open>\<open>strconv.ParseUint(s, 10, 64)\<close> with its error dropped: zero for a malformed number, the largest
  value for one that does not fit.\<close>

definition ParseUint_value :: "string \<Rightarrow> nat" where
  "ParseUint_value s = (if s = [] \<or> \<not> list_all is_digit s then 0 else min 18446744073709551615 (nat (dec_val 0 s)))"

text \<open>The lines of \<open>/proc/self/status\<close>, if it can be opened.\<close>

fun rss_loop :: "string list \<Rightarrow> nat" where
  "rss_loop [] = 0"
| "rss_loop (line # ls) =
     (if prefix ''VmRSS:'' line
      then (let fields = Fields line in if 2 \<le> length fields then ParseUint_value (fields ! 1) else rss_loop ls)
      else rss_loop ls)"

definition rssKB :: "string list option \<Rightarrow> nat" where
  "rssKB status = (case status of None \<Rightarrow> 0 | Some ls \<Rightarrow> rss_loop ls)"

section \<open>The run\<close>

text \<open>The pause between two submissions, with Go's division. The rate is not zero after the defaults.\<close>

definition submit_interval :: "int \<Rightarrow> duration" where
  "submit_interval rate = (let i = quot 1000000000 rate in if i \<le> 0 then 1000 else i)"

text \<open>The submitter: one tick is one attempt to seed a job, and the counter counts the successes. \<open>None\<close> is a
  database that cannot be reached.\<close>

fun submitter :: "string \<Rightarrow> (time \<times> string) option list \<Rightarrow> db \<times> int \<Rightarrow> db \<times> int" where
  "submitter tenant [] s = s"
| "submitter tenant (None # ts) s = submitter tenant ts s"
| "submitter tenant (Some (now, uuid) # ts) (d, n) =
     (case SeedJob now uuid tenant 1000 d of
        (d', Inl _) \<Rightarrow> submitter tenant ts (d', n)
      | (d', Inr _) \<Rightarrow> submitter tenant ts (d', n + 1))"

text \<open>One round of the sampling loop: the clock at the loop's condition, whether the context ended before the
  tick, and the readings after it.\<close>

record soak_tick =
  tk_check :: time
  tk_done :: bool
  tk_goroutines :: int
  tk_stuck :: "int option"
  tk_now :: time
  tk_heap :: nat
  tk_rss :: "string list option"

record soak_acc =
  ac_baseline :: "(nat \<times> nat) option"
  ac_peak :: int
  ac_maxStuck :: int
  ac_samples :: nat

definition soak_warmup :: "SoakConfig \<Rightarrow> duration" where
  "soak_warmup cfg = trunc (real_of_int (so_Duration cfg) * so_WarmupFraction cfg)"

definition soak_sample :: "SoakConfig \<Rightarrow> time \<Rightarrow> soak_tick \<Rightarrow> soak_acc \<Rightarrow> soak_acc" where
  "soak_sample cfg start k a = \<lparr>
     ac_baseline = (if ac_baseline a = None \<and> tk_now k - start \<ge> soak_warmup cfg then Some (tk_heap k, rssKB (tk_rss k)) else ac_baseline a),
     ac_peak = (if tk_goroutines k > ac_peak a then tk_goroutines k else ac_peak a),
     ac_maxStuck = (case tk_stuck k of Some n \<Rightarrow> if n > ac_maxStuck a then n else ac_maxStuck a | None \<Rightarrow> ac_maxStuck a),
     ac_samples = Suc (ac_samples a)\<rparr>"

datatype soak_end = SoakCancelled | SoakSampled soak_acc

text \<open>\<open>None\<close>: the loop is still waiting after the given ticks.\<close>

fun soak_loop :: "SoakConfig \<Rightarrow> time \<Rightarrow> soak_tick list \<Rightarrow> soak_acc \<Rightarrow> soak_end option" where
  "soak_loop cfg start [] a = None"
| "soak_loop cfg start (k # ks) a =
     (if tk_check k < start + so_Duration cfg
      then (if tk_done k then Some SoakCancelled else soak_loop cfg start ks (soak_sample cfg start k a))
      else Some (SoakSampled a))"

text \<open>The wait until every job is terminal; it says whether a query saw none that is not.\<close>

definition soak_drained :: "(time \<Rightarrow> db option) \<Rightarrow> (time \<Rightarrow> nat) \<Rightarrow> time \<Rightarrow> bool" where
  "soak_drained obs work now =
     (\<exists>t \<in> set (poll_times work 200000000 (now + 60 * 1000000000) now).
        case obs t of Some d \<Rightarrow> NonTerminalOlderThan t 0 d = 0 | None \<Rightarrow> False)"

definition heap_growth :: "nat \<Rightarrow> nat \<Rightarrow> float64" where
  "heap_growth base end_heap =
     (if 0 < base \<and> base < end_heap then real (end_heap - base) / real base * 100 else 0)"

text \<open>The readings after the drain. A query that fails leaves its count at zero.\<close>

record soak_final =
  fi_heap :: nat
  fi_goroutines :: int
  fi_now :: time
  fi_stuck_db :: "db option"
  fi_pending_db :: "db option"
  fi_rss_base :: "string list option"
  fi_rss_end :: "string list option"
  fi_elapsed :: duration

definition count_or_zero :: "int option \<Rightarrow> int" where
  "count_or_zero n = (case n of Some x \<Rightarrow> x | None \<Rightarrow> 0)"

definition soak_result :: "SoakConfig \<Rightarrow> int \<Rightarrow> int \<Rightarrow> soak_acc \<Rightarrow> soak_final \<Rightarrow> SoakResult" where
  "soak_result cfg startGoro submitted a f =
     (let (baseHeap, baseRSS) = (case ac_baseline a of Some b \<Rightarrow> b | None \<Rightarrow> (fi_heap f, rssKB (fi_rss_base f)))
      in \<lparr>sk_Duration = fi_elapsed f, sk_Samples = ac_samples a, sk_JobsSubmitted = submitted,
          sk_HeapInuseBase = baseHeap, sk_HeapInuseEnd = fi_heap f, sk_HeapGrowthPct = heap_growth baseHeap (fi_heap f),
          sk_GoroutinesBase = startGoro, sk_GoroutinesPeak = ac_peak a, sk_GoroutinesEnd = fi_goroutines f,
          sk_RSSBaseKB = baseRSS, sk_RSSEndKB = rssKB (fi_rss_end f), sk_MaxStuck = ac_maxStuck a,
          sk_FinalStuck = count_or_zero (map_option (NonTerminalOlderThan (fi_now f) (so_StuckJobMaxAge cfg)) (fi_stuck_db f)),
          sk_FinalPending = count_or_zero (map_option PendingCount (fi_pending_db f))\<rparr>)"

definition soak_start :: "int \<Rightarrow> soak_acc" where
  "soak_start startGoro = \<lparr>ac_baseline = None, ac_peak = startGoro, ac_maxStuck = 0, ac_samples = 0\<rparr>"

text \<open>A negative sampling interval panics when the ticker is made.\<close>

datatype soak_error = SoakContext | SoakTickerPanic

definition RunSoak ::
  "SoakConfig \<Rightarrow> int \<Rightarrow> time \<Rightarrow> soak_tick list \<Rightarrow> (time \<times> string) option list \<Rightarrow> db \<Rightarrow> soak_final \<Rightarrow> (soak_error + SoakResult) option" where
  "RunSoak cfg0 startGoro start ticks submissions d f =
     (let cfg = soak_defaults cfg0
      in if so_SampleEvery cfg \<le> 0 then Some (Inl SoakTickerPanic)
         else case soak_loop cfg start ticks (soak_start startGoro) of
           None \<Rightarrow> None
         | Some SoakCancelled \<Rightarrow> Some (Inl SoakContext)
         | Some (SoakSampled a) \<Rightarrow> Some (Inr (soak_result cfg startGoro (snd (submitter (so_Tenant cfg) submissions (d, 0))) a f)))"

end
