(* ===== verification/Drivers_Ops.thy ===== *)
theory Drivers_Ops
  imports Chaos Store_Open Shadow_Report Bench_Gate Load_Soak
begin

text \<open>
  The drivers of the operational checks: the game-day sweep (\<open>cmd/rabi-chaos\<close>), the shadow report
  (\<open>cmd/rabi-shadow\<close>), the benchmark gate (\<open>cmd/rabi-bench-gate\<close>) and the load driver (\<open>cmd/rabi-load\<close>).
  A command takes its parsed flags and the environment and ends with an error, which is exit code 1, or
  without. What it prints is a list of lines and JSON values; opening a database, reading and writing files
  are arguments.
\<close>

datatype printed = OutLine string | OutErr string | OutJSON obj

section \<open>Game days\<close>

datatype sweep_error = NoDatabase | NeedsConfirmation | OpenError string | ListError string | InvariantsRed nat

definition declaredShots :: "job_record \<Rightarrow> float64" where
  "declaredShots j = (case get_num (docPath (jr_Doc j) [''spec'', ''workload'', ''gateModel'']) ''shots'' of Some s \<Rightarrow> s | None \<Rightarrow> 0)"

text \<open>The map of declared shots, read with zero for a missing key.\<close>

definition declared_caps :: "job_record list \<Rightarrow> string \<Rightarrow> float64" where
  "declared_caps js i =
     (case map_of (rev (map (\<lambda>j. (jr_JobID j, declaredShots j)) (filter (\<lambda>j. declaredShots j > 0) js))) i of Some s \<Rightarrow> s | None \<Rightarrow> 0)"

record sweep_flags =
  sf_dsn :: string
  sf_target :: string
  sf_operator :: string
  sf_note :: string
  sf_iMeanIt :: bool
  sf_limit :: int

text \<open>The database of a URL is \<open>pg\<close>, its state the rows together with what else PostgreSQL keeps, such as the version of the
  schema; opening the store may migrate it, for any target but the production fleet. The sweep reads one snapshot.
  PostgreSQL refuses a negative limit. \<open>record_error\<close> is the error of a game-day row that could not be written.\<close>

definition runSweep ::
  "('s \<times> db) postgres \<Rightarrow> string option \<Rightarrow> time \<Rightarrow> time \<Rightarrow> time \<Rightarrow> sweep_flags \<Rightarrow> 's \<times> db \<Rightarrow>
   ('s \<times> db) \<times> printed list \<times> sweep_error option" where
  "runSweep pg record_error started finished ended fl p =
     (case (if sf_target fl = ''fleet0'' then OpenNoMigrate pg started p else Open pg started p) of
        (p', _, Inl e) \<Rightarrow> (p', [], Some (OpenError e))
      | ((s, d), _, Inr st) \<Rightarrow>
          if sf_limit fl < 0 then ((s, d), [], Some (ListError ''LIMIT must not be negative''))
          else
            (let js = ListJobs d [] [] (nat (sf_limit fl)) 0;
                 accepted = map jr_JobID js;
                 violations = CheckAll d accepted (declared_caps js);
                 green = (violations = []);
                 rec = \<lparr>gd_StartedAt = started, gd_FinishedAt = finished, gd_Scenario = ''invariant-sweep'',
                        gd_Target = sf_target fl, gd_InvariantsGreen = green, gd_Violations = int (length violations),
                        gd_Operator = sf_operator fl, gd_Note = sf_note fl\<rparr>;
                 d' = (if record_error = None then RecordGameDay rec d else d);
                 out = [OutLine (''rabi-chaos sweep '' @ middle_dot @ '' target='' @ sf_target fl @ '' '' @ middle_dot @ '' jobs='' @
                          itoa (length accepted))] @
                       map (\<lambda>v. OutLine (''  VIOLATION '' @ violation_String v)) violations @
                       (case record_error of Some e \<Rightarrow> [OutErr (''warning: could not record game-day: '' @ e)] | None \<Rightarrow> [])
             in if \<not> green then ((s, d'), out, Some (InvariantsRed (length violations)))
                else ((s, d'), out @ [OutLine (''invariants GREEN across '' @ itoa (length accepted) @ '' jobs ('' @
                        fmt_fixed 1 (real_of_int (ended - started) / 1000000000) @ ''s)'')], None)))"

text \<open>The command: the database URL of the flag or of the environment, and the guard of the production fleet.\<close>

definition SweepCmd ::
  "(string \<Rightarrow> ('s \<times> db) postgres) \<Rightarrow> string option \<Rightarrow> time \<Rightarrow> time \<Rightarrow> time \<Rightarrow> string \<Rightarrow> sweep_flags \<Rightarrow> 's \<times> db \<Rightarrow>
   ('s \<times> db) \<times> printed list \<times> sweep_error option" where
  "SweepCmd pgs record_error started finished ended env_url fl p =
     (let dsn = (if sf_dsn fl = [] then env_url else sf_dsn fl)
      in if dsn = [] then (p, [], Some NoDatabase)
         else if sf_target fl = ''fleet0'' \<and> \<not> sf_iMeanIt fl then (p, [], Some NeedsConfirmation)
         else runSweep (pgs dsn) record_error started finished ended fl p)"

section \<open>Shadow reports\<close>

datatype report_error = ReportNoDatabase | ReportOpenError string | NoPlacements | NotPromotable string

record report_flags =
  rf_dsn :: string
  rf_policy :: string
  rf_since :: duration
  rf_floor :: float64
  rf_json :: bool
  rf_requirePromotable :: bool

definition fmt_plus :: "nat \<Rightarrow> float64 \<Rightarrow> string" where
  "fmt_plus k x = (if x < 0 then fmt_fixed k x else ''+'' @ fmt_fixed k x)"

definition interval_line :: "nat \<Rightarrow> string \<Rightarrow> Interval \<Rightarrow> string" where
  "interval_line k label iv = label @ fmt_plus k (iv_Mean iv) @ ''  (95% CI '' @ fmt_plus k (iv_CILo iv) @ '' .. '' @ fmt_plus k (iv_CIHi iv) @ '')''"

definition printReport :: "Report \<Rightarrow> bool \<Rightarrow> string list \<Rightarrow> duration \<Rightarrow> string list" where
  "printReport r promotable reasons since =
     [''Shadow report: '' @ rp_Policy r @ '' vs active '' @ rp_ActivePolicy r @ '' (window '' @ duration_String since @ '')'',
      ''  samples:        '' @ itoa (rp_Samples r),
      ''  agreement:      '' @ fmt_fixed 1 (rp_AgreementRate r * 100) @ ''%'',
      ''  ESP (fidelity): active '' @ fmt_fixed 4 (rp_ActiveESPMean r) @ '' '' @ arrow @ '' candidate '' @ fmt_fixed 4 (rp_ShadowESPMean r),
      interval_line 4 ''  ESP delta:      '' (rp_ESPDelta r),
      interval_line 4 ''  SLO delta:      '' (rp_SLODelta r) @ ''  [floor ESP<'' @ fmt_fixed 2 (rp_QualityFloor r) @ '']'',
      interval_line 2 ''  wait delta (s): '' (rp_WaitDelta r),
      ''  verdict:        '' @ (if promotable then ''PROMOTABLE'' else ''NOT promotable'')] @
     map (\<lambda>x. ''    - '' @ x) reasons"

text \<open>\<open>encode\<close> renders the report structure as a JSON value.\<close>

definition ReportCmd ::
  "(Report \<Rightarrow> json) \<Rightarrow> rng \<Rightarrow> (string \<Rightarrow> string + db) \<Rightarrow> time \<Rightarrow> string \<Rightarrow> report_flags \<Rightarrow> printed list \<times> report_error option" where
  "ReportCmd encode rng open_no_migrate now env_url fl =
     (let dsn = (if rf_dsn fl = [] then env_url else rf_dsn fl)
      in if dsn = [] then ([], Some ReportNoDatabase)
         else
           (case open_no_migrate dsn of
              Inl e \<Rightarrow> ([], Some (ReportOpenError e))
            | Inr d \<Rightarrow>
                (let policies = ShadowPolicies d
                 in if rf_policy fl = [] \<and> policies = [] then ([], Some NoPlacements)
                    else
                      (let policy = (if rf_policy fl = [] then hd policies else rf_policy fl);
                           rep = Analyze rng (ShadowPlacementsSince d policy (now - rf_since fl)) (rf_floor fl);
                           (promotable, reasons) = Promotable rep;
                           out = (if rf_json fl
                                  then [OutJSON [(''report'', encode rep), (''promotable'', JBool promotable), (''reasons'', JArr (map JStr reasons))]]
                                  else map OutLine (printReport rep promotable reasons (rf_since fl)))
                       in (out, if rf_requirePromotable fl \<and> \<not> promotable then Some (NotPromotable policy) else None)))))"

section \<open>The benchmark gate\<close>

text \<open>\<open>^RFC-\\d+\<close>, which matches a prefix.\<close>

definition rfcPattern :: "string \<Rightarrow> bool" where
  "rfcPattern s \<longleftrightarrow> (case CutPrefix ''RFC-'' s of Some (c # _) \<Rightarrow> is_digit c | _ \<Rightarrow> False)"

datatype gate_cmd_error = GateLoad gate_error | GateRegressions nat

definition GateCmd ::
  "gate_error + Metrics \<Rightarrow> (string \<Rightarrow> gate_error + Metrics) \<Rightarrow> float64 \<Rightarrow> string \<Rightarrow> printed list \<times> gate_cmd_error option" where
  "GateCmd baseline_file summary threshold rfc =
     (case baseline_file of
        Inl e \<Rightarrow> ([], Some (GateLoad e))
      | Inr baseline \<Rightarrow>
          (case summary (bm_Policy baseline) of
             Inl e \<Rightarrow> ([], Some (GateLoad e))
           | Inr current \<Rightarrow>
               (let regs = gate_Check baseline current threshold;
                    head = OutLine (''bench gate: policy '' @ bm_Policy baseline @ '', threshold '' @ fmt_fixed 0 (threshold * 100) @ ''%'')
                in if regs = []
                   then ([head, OutLine (''  no headline-metric regression '' @ [CHR 0xE2, CHR 0x80, CHR 0x94] @ '' OK'')], None)
                   else
                     (let out = head # map (\<lambda>r. OutLine (''  REGRESSION: '' @ regression_String r)) regs
                      in if rfc \<noteq> [] \<and> rfcPattern rfc
                         then (out @ [OutLine (''  ALLOWED by justification '' @ rfc @ '' '' @ [CHR 0xE2, CHR 0x80, CHR 0x94] @
                                '' remember to move bench/baseline.json in a policy-promotion PR'')], None)
                         else (out, Some (GateRegressions (length regs)))))))"

section \<open>The load driver\<close>

datatype driver_error = LoadNoDatabase | LoadOpenError string | LoadBoot boot_error | LoadSeed seed_error | LoadSoak soak_error
  | LoadWrite string | LoadBreach string nat | LoadPanic

definition load_dsn :: "string \<Rightarrow> string \<Rightarrow> string" where
  "load_dsn flag env_url = (if flag = [] then env_url else flag)"

definition openStore :: "(string \<Rightarrow> string + db) \<Rightarrow> string \<Rightarrow> string \<Rightarrow> driver_error + db" where
  "openStore open_store env_url flag =
     (let dsn = load_dsn flag env_url
      in if dsn = [] then Inl LoadNoDatabase
         else (case open_store dsn of Inl e \<Rightarrow> Inl (LoadOpenError e) | Inr d \<Rightarrow> Inr d))"

text \<open>A nil slice of violations is encoded as null. \<open>write\<close> is the error of writing the file, if any.\<close>

definition load_report :: "string \<Rightarrow> json \<Rightarrow> string list \<Rightarrow> obj" where
  "load_report kind payload violations =
     [(''kind'', JStr kind), (''result'', payload),
      (''violations'', if violations = [] then JNull else JArr (map JStr violations)), (''pass'', JBool (violations = []))]"

definition writeReport :: "(string \<Rightarrow> obj \<Rightarrow> string option) \<Rightarrow> string \<Rightarrow> string \<Rightarrow> json \<Rightarrow> string list \<Rightarrow> printed list \<times> driver_error option" where
  "writeReport write kind out payload violations =
     (let report = load_report kind payload violations
      in case (if out = [] then None else write out report) of
           Some e \<Rightarrow> ([], Some (LoadWrite e))
         | None \<Rightarrow> ([OutJSON report], if violations \<noteq> [] then Some (LoadBreach kind (length violations)) else None))"

definition storm_json :: "StormResult \<Rightarrow> json" where
  "storm_json r = JObj [
     (''Jobs'', JNum (real_of_int (sr_Jobs r))), (''Targets'', JNum (real_of_int (sr_Targets r))),
     (''Duration'', JNum (real_of_int (sr_Duration r))), (''CycleCount'', JNum (real_of_int (sr_CycleCount r))),
     (''SchedulerCycleP50'', JNum (real_of_int (sr_SchedulerCycleP50 r))),
     (''SchedulerCycleP99'', JNum (real_of_int (sr_SchedulerCycleP99 r))),
     (''SchedulerCycleMax'', JNum (real_of_int (sr_SchedulerCycleMax r))),
     (''APIReadP50'', JNum (real_of_int (sr_APIReadP50 r))), (''APIReadP99'', JNum (real_of_int (sr_APIReadP99 r))),
     (''APIWriteP50'', JNum (real_of_int (sr_APIWriteP50 r))), (''APIWriteP99'', JNum (real_of_int (sr_APIWriteP99 r))),
     (''PeakPending'', JNum (real_of_int (sr_PeakPending r))), (''FinalPending'', JNum (real_of_int (sr_FinalPending r))),
     (''Drained'', JBool (sr_Drained r))]"

definition soak_json :: "SoakResult \<Rightarrow> json" where
  "soak_json r = JObj [
     (''Duration'', JNum (real_of_int (sk_Duration r))), (''Samples'', JNum (real (sk_Samples r))),
     (''JobsSubmitted'', JNum (real_of_int (sk_JobsSubmitted r))), (''HeapInuseBase'', JNum (real (sk_HeapInuseBase r))),
     (''HeapInuseEnd'', JNum (real (sk_HeapInuseEnd r))), (''HeapGrowthPct'', JNum (sk_HeapGrowthPct r)),
     (''GoroutinesBase'', JNum (real_of_int (sk_GoroutinesBase r))), (''GoroutinesPeak'', JNum (real_of_int (sk_GoroutinesPeak r))),
     (''GoroutinesEnd'', JNum (real_of_int (sk_GoroutinesEnd r))), (''RSSBaseKB'', JNum (real (sk_RSSBaseKB r))),
     (''RSSEndKB'', JNum (real (sk_RSSEndKB r))), (''MaxStuck'', JNum (real_of_int (sk_MaxStuck r))),
     (''FinalStuck'', JNum (real_of_int (sk_FinalStuck r))), (''FinalPending'', JNum (real_of_int (sk_FinalPending r)))]"

text \<open>The commands: the database, the stack, the run and the report. \<open>boot\<close> is \<open>NewStack\<close> with the default policy and \<open>run\<close> is
  \<open>RunStorm\<close> or \<open>RunSoak\<close>, as theories \<open>Load_Stack\<close>, \<open>Load_Storm\<close> and \<open>Load_Soak\<close> define them for the rest of their
  arguments. \<open>seconds\<close> is multiplied in 64 bits.\<close>

record storm_flags =
  tf_dsn :: string
  tf_out :: string
  tf_jobs :: int
  tf_targets :: int

record soak_flags =
  kf_dsn :: string
  kf_out :: string
  kf_seconds :: int
  kf_targets :: int
  kf_rate :: int

definition storm_config :: "storm_flags \<Rightarrow> StormConfig" where
  "storm_config fl = \<lparr>sc_Jobs = tf_jobs fl, sc_Targets = tf_targets fl, sc_Tenant = [], sc_Policy = [], sc_SeedWorkers = 0,
     sc_APIReaders = 0, sc_APIWriters = 0, sc_APIReads = 0, sc_APIWrites = 0, sc_DrainTimeout = 0\<rparr>"

definition soak_config :: "soak_flags \<Rightarrow> SoakConfig" where
  "soak_config fl = \<lparr>so_Duration = wrap64 (kf_seconds fl * 1000000000), so_Targets = kf_targets fl, so_Tenant = [], so_Policy = [],
     so_ArrivalRate = kf_rate fl, so_WarmupFraction = 0, so_StuckJobMaxAge = 0, so_SampleEvery = 0\<rparr>"

definition StormCmd ::
  "(string \<Rightarrow> string + db) \<Rightarrow> (db \<Rightarrow> int \<Rightarrow> boot_error + Stack) \<Rightarrow> (Stack \<Rightarrow> StormConfig \<Rightarrow> seed_error + StormResult) \<Rightarrow>
   (string \<Rightarrow> obj \<Rightarrow> string option) \<Rightarrow> string \<Rightarrow> storm_flags \<Rightarrow> printed list \<times> driver_error option" where
  "StormCmd open_store boot run write env_url fl =
     (case openStore open_store env_url (tf_dsn fl) of
        Inl e \<Rightarrow> ([], Some e)
      | Inr st \<Rightarrow>
          (case boot st (tf_targets fl) of
             Inl e \<Rightarrow> ([], Some (LoadBoot e))
           | Inr s \<Rightarrow>
               (case run s (storm_config fl) of
                  Inl e \<Rightarrow> ([], Some (LoadSeed e))
                | Inr res \<Rightarrow>
                    (let (o1, e) = writeReport write ''storm'' (tf_out fl) (storm_json res) (storm_Violations res)
                     in (OutErr (storm_String res) # o1, e)))))"

definition SoakCmd ::
  "(string \<Rightarrow> string + db) \<Rightarrow> (db \<Rightarrow> int \<Rightarrow> boot_error + Stack) \<Rightarrow> (Stack \<Rightarrow> SoakConfig \<Rightarrow> soak_error + SoakResult) \<Rightarrow>
   (string \<Rightarrow> obj \<Rightarrow> string option) \<Rightarrow> string \<Rightarrow> soak_flags \<Rightarrow> printed list \<times> driver_error option" where
  "SoakCmd open_store boot run write env_url fl =
     (case openStore open_store env_url (kf_dsn fl) of
        Inl e \<Rightarrow> ([], Some e)
      | Inr st \<Rightarrow>
          (case boot st (kf_targets fl) of
             Inl e \<Rightarrow> ([], Some (LoadBoot e))
           | Inr s \<Rightarrow>
               (case run s (soak_config fl) of
                  Inl e \<Rightarrow> ([], Some (LoadSoak e))
                | Inr res \<Rightarrow>
                    (case soak_String res of
                       None \<Rightarrow> ([], Some LoadPanic)
                     | Some line \<Rightarrow>
                         (let (o1, e) = writeReport write ''soak'' (kf_out fl) (soak_json res) (soak_Violations res)
                          in (OutErr line # o1, e))))))"

end
