(* ===== verification/Load_Fleet.thy ===== *)
theory Load_Fleet
  imports Load_Stack Go_Strings
begin

text \<open>
  The synthetic fleet of the load harness: what the registry learns from the fake adapter, that every
  target comes online, and that every seeded job can be placed on every target.
\<close>

section \<open>Polling\<close>

lemma poll_times_range: "s \<in> set (poll_times work pause deadline t) \<Longrightarrow> t \<le> s \<and> s < deadline"
proof (induction work pause deadline t rule: poll_times.induct)
  case (1 work pause deadline t)
  from 1(2) have "t < deadline \<and> 0 < pause" by (subst (asm) poll_times.simps) (simp split: if_splits)
  with 1 have "s = t \<or> t + int (work t) + int pause \<le> s \<and> s < deadline"
    by (subst (asm) (2) poll_times.simps) auto
  then show ?case using \<open>t < deadline \<and> 0 < pause\<close> by auto
qed

lemma poll_times_gaps: "sorted_wrt (\<lambda>a b. a + int pause \<le> b) (poll_times work pause deadline t)"
proof (induction work pause deadline t rule: poll_times.induct)
  case (1 work pause deadline t)
  show ?case
  proof (cases "t < deadline \<and> 0 < pause")
    case True
    have "\<forall>s \<in> set (poll_times work pause deadline (t + int (work t) + int pause)). t + int pause \<le> s"
      using poll_times_range[of _ work pause deadline "t + int (work t) + int pause"] by force
    then show ?thesis using True 1 by (subst poll_times.simps) simp
  qed (subst poll_times.simps, auto)
qed

text \<open>The number of polls is bounded by the time that is left.\<close>

lemma poll_times_count: "t < deadline \<Longrightarrow> int (length (poll_times work pause deadline t)) * int pause < deadline - t + int pause"
proof (induction work pause deadline t rule: poll_times.induct)
  case (1 work pause deadline t)
  let ?t = "t + int (work t) + int pause"
  show ?case
  proof (cases "0 < pause")
    case True
    show ?thesis
    proof (cases "?t < deadline")
      case True
      with 1 \<open>0 < pause\<close> have "int (length (poll_times work pause deadline ?t)) * int pause < deadline - ?t + int pause" by blast
      then show ?thesis using \<open>0 < pause\<close> \<open>t < deadline\<close> by (subst poll_times.simps) (simp add: algebra_simps)
    next
      case False
      then have "poll_times work pause deadline ?t = []" by (subst poll_times.simps) simp
      then show ?thesis using \<open>0 < pause\<close> \<open>t < deadline\<close> by (subst poll_times.simps) simp
    qed
  qed (use 1(2) in \<open>subst poll_times.simps, simp\<close>)
qed

lemma poll_times_first: "t < deadline \<Longrightarrow> 0 < pause \<Longrightarrow> t \<in> set (poll_times work pause deadline t)"
  by (subst poll_times.simps) simp

section \<open>Booting\<close>

lemma boot_stack_cases:
  assumes "boot_stack env factories singletons st numTargets policy = (r, res)"
  obtains (failed) e where "res = Inl e" "\<not> rn_fake r" "\<not> rn_ctx r"
  | (booted) s addr where "res = Inr s" "rn_fake r" "rn_ctx r" "sk_Targets s = stack_targets numTargets"
      "sk_fake s = NewFake (stack_specs (stack_targets numTargets))"
      "NewFromSpec (be_dial env) (''synth='' @ addr) = Inr (sk_registry s)" "be_serve env = Inr addr"
  using assms
  by (auto simp: boot_stack_def shut_down_def Let_def split: sum.splits prod.splits option.splits)

section \<open>What the registry sees\<close>

text \<open>The answers of the fake to the clients of the registry at one time.\<close>

definition wire_state :: "WireDeviceState \<Rightarrow> DeviceState" where
  "wire_state w = \<lparr>ds_Status = wd_Status w, ds_QueueDepth = 0, ds_EstimatedWait = wd_EstimatedWait w,
     ds_Calibration = Some \<lparr>cs_SnapshotId = cb_SnapshotId (wd_Calibration w), cs_MeasuredAt = cb_MeasuredAt (wd_Calibration w),
       cs_Metrics = map Metric.truncate (cb_Metrics (wd_Calibration w))\<rparr>, ds_Maintenance = []\<rparr>"

definition fake_site :: "time \<Rightarrow> Fake \<Rightarrow> site_client" where
  "fake_site now f = \<lparr>
     sc_ListTargets = Some (map TargetInfo.truncate (fake_ListTargets f)),
     sc_GetCapabilities = (\<lambda>i. case GetCapabilities i f of Inl _ \<Rightarrow> None | Inr c \<Rightarrow> Some (Capabilities.truncate c)),
     sc_GetDeviceState = (\<lambda>i. case GetDeviceState now i f of Inl _ \<Rightarrow> None | Inr s \<Rightarrow> Some (wire_state s))\<rparr>"

lemma AList_update_fresh: "k \<notin> fst ` set al \<Longrightarrow> AList.update k v al = al @ [(k, v)]"
  by (induction al) auto

lemma fold_update_fresh:
  "distinct (map k xs) \<Longrightarrow> k ` set xs \<inter> fst ` set al = {} \<Longrightarrow>
   fold (\<lambda>x. AList.update (k x) (v x)) xs al = al @ map (\<lambda>x. (k x, v x)) xs"
proof (induction xs arbitrary: al)
  case (Cons x xs)
  then have "AList.update (k x) (v x) al = al @ [(k x, v x)]" by (intro AList_update_fresh) auto
  moreover have "k ` set xs \<inter> fst ` set (al @ [(k x, v x)]) = {}" using Cons.prems by auto
  ultimately show ?case using Cons by simp
qed simp

lemma dec_val_zeros: "dec_val 0 (replicate n (CHR ''0'') @ s) = dec_val 0 s"
  by (induction n) (auto simp: digit_val_def code_def)

lemma stack_spec_inj: "inj (sp_ID \<circ> stack_spec)"
proof (rule injI)
  fix i j assume "(sp_ID \<circ> stack_spec) i = (sp_ID \<circ> stack_spec) j"
  then have "dec_val 0 (pad0 3 (itoa i)) = dec_val 0 (pad0 3 (itoa j))" by (simp add: stack_spec_def)
  then show "i = j" using itoa_digits by (simp add: pad0_def dec_val_zeros)
qed

lemma stack_ids_distinct: "distinct (map sp_ID (stack_specs n))"
  unfolding stack_specs_def map_map distinct_map using inj_on_subset[OF stack_spec_inj] by simp

lemma stack_fake_targets: "fk_targets (NewFake (stack_specs n)) = map (\<lambda>s. (sp_ID s, spec_defaults s)) (stack_specs n)"
  using fold_update_fresh[OF stack_ids_distinct[of n], of "[]" spec_defaults] by (simp add: NewFake_def)

lemma stack_fake_spec: "i < n \<Longrightarrow> spec (sp_ID (stack_spec i)) (NewFake (stack_specs n)) = Inr (spec_defaults (stack_spec i))"
proof -
  assume "i < n"
  then have "(sp_ID (stack_spec i), spec_defaults (stack_spec i)) \<in> set (fk_targets (NewFake (stack_specs n)))"
    unfolding stack_fake_targets by (auto simp: stack_specs_def)
  moreover have "distinct (map fst (fk_targets (NewFake (stack_specs n))))"
    using stack_ids_distinct[of n] by (simp add: stack_fake_targets comp_def)
  ultimately show ?thesis by (simp add: spec_def)
qed

definition fresh_entry :: "string \<Rightarrow> TargetInfo \<Rightarrow> Capabilities \<Rightarrow> Entry" where
  "fresh_entry site info caps = \<lparr>en_Name = fleet_name site (ti_TargetId info), en_Site = site, en_TargetID = ti_TargetId info,
     en_Info = info, en_Caps = caps, en_State = None, en_StateAt = zero_time\<rparr>"

lemma fold_register_fresh:
  assumes "\<forall>x \<in> set infos. sc_GetCapabilities client (ti_TargetId x) = Some (caps x)"
    and "distinct (map ti_TargetId infos)" and "\<forall>x \<in> set infos. fleet_name site (ti_TargetId x) \<notin> fst ` set al"
  shows "fold (register_target site client) infos al =
    al @ map (\<lambda>x. (fleet_name site (ti_TargetId x), fresh_entry site x (caps x))) infos"
  using assms
proof (induction infos arbitrary: al)
  case (Cons x xs)
  have "map_of al (fleet_name site (ti_TargetId x)) = None" using Cons.prems(3) by (simp add: map_of_eq_None_iff)
  then have "register_target site client x al = al @ [(fleet_name site (ti_TargetId x), fresh_entry site x (caps x))]"
    using Cons.prems by (simp add: register_target_def Let_def AList_update_fresh fresh_entry_def)
  moreover have "\<forall>y \<in> set xs. fleet_name site (ti_TargetId y) \<notin> fst ` set (al @ [(fleet_name site (ti_TargetId x), e)])" for e
    using Cons.prems(2,3) by (auto simp: fleet_name_def image_iff)
  ultimately show ?case using Cons by simp
qed simp

lemma AList_update_map:
  "distinct (map fst al) \<Longrightarrow> map_of al k = Some x \<Longrightarrow>
   AList.update k (g x) al = map (\<lambda>(k', y). (k', if k' = k then g y else y)) al"
proof (induction al)
  case (Cons a al)
  have "map (\<lambda>(k', y). (k', if k' = k then g y else y)) al = al" if "k \<notin> fst ` set al"
    using that by (intro map_idI) (auto simp: image_iff)
  with Cons show ?case by (cases a) auto
qed simp

definition polled :: "time \<Rightarrow> DeviceState \<Rightarrow> Entry \<Rightarrow> Entry" where
  "polled now st e = e\<lparr>en_State := Some st, en_StateAt := now\<rparr>"

lemma fold_poll_entry:
  assumes "distinct (map fst (rg_entries r))"
    and "\<forall>e \<in> set es. siteFor r (en_Site e) \<noteq> None \<and> en_Name e \<in> fst ` set (rg_entries r) \<and>
       sc_GetDeviceState (clients (en_Site e)) (en_TargetID e) = Some (st (en_Name e))"
  shows "fold (poll_entry clients now) es r = r\<lparr>rg_entries :=
    map (\<lambda>(k, e). (k, if k \<in> en_Name ` set es then polled now (st k) e else e)) (rg_entries r)\<rparr>"
  using assms
proof (induction es arbitrary: r)
  case Nil
  have "map (\<lambda>(k, e). (k, e)) (rg_entries r) = rg_entries r" by simp
  then show ?case by simp
next
  case (Cons e es)
  from Cons.prems obtain x where x: "map_of (rg_entries r) (en_Name e) = Some x"
    by (metis list.set_intros(1) map_of_eq_None_iff option.exhaust)
  let ?r = "r\<lparr>rg_entries := map (\<lambda>(k', y). (k', if k' = en_Name e then polled now (st (en_Name e)) y else y)) (rg_entries r)\<rparr>"
  have step: "poll_entry clients now e r = ?r"
    using Cons.prems x AList_update_map[OF Cons.prems(1) x, of "polled now (st (en_Name e))"]
    by (auto simp: poll_entry_def polled_def)
  have fsts: "map fst (rg_entries ?r) = map fst (rg_entries r)" by (simp add: case_prod_unfold comp_def)
  have "fold (poll_entry clients now) es ?r = ?r\<lparr>rg_entries :=
      map (\<lambda>(k, e). (k, if k \<in> en_Name ` set es then polled now (st k) e else e)) (rg_entries ?r)\<rparr>"
    using Cons.prems by (intro Cons.IH) (simp_all only: fsts siteFor_def, auto simp: image_iff case_prod_unfold siteFor_def)
  moreover have "map (\<lambda>(k, e). (k, if k \<in> en_Name ` set es then polled now (st k) e else e)) (rg_entries ?r) =
      map (\<lambda>(k, y). (k, if k \<in> en_Name ` set (e # es) then polled now (st k) y else y)) (rg_entries r)"
    by (auto simp: polled_def)
  ultimately show ?case using step by simp
qed

section \<open>The fleet of the stack\<close>

abbreviation stack_fake :: "nat \<Rightarrow> Fake" where
  "stack_fake n \<equiv> NewFake (stack_specs n)"

definition stack_caps :: "nat \<Rightarrow> Capabilities" where
  "stack_caps i = \<lparr>ca_NumQubits = 32, ca_ProgramFormats = [''openqasm3''], ca_MaxShots = 1000000,
     ca_BillingUnits = [''shots'', ''tasks''], ca_VendorExtensions = [], ca_CloudQueue = False\<rparr>"

definition stack_info :: "nat \<Rightarrow> TargetInfo" where
  "stack_info i = \<lparr>ti_TargetId = sp_ID (stack_spec i), ti_Modality = ''gate-model'', ti_Technology = ''simulator''\<rparr>"

lemma spec_defaults_stack:
  "sp_ID (spec_defaults (stack_spec i)) = sp_ID (stack_spec i)" "sp_Qubits (spec_defaults (stack_spec i)) = 32"
  "sp_Formats (spec_defaults (stack_spec i)) = [''openqasm3'']" "sp_MaxShots (spec_defaults (stack_spec i)) = 1000000"
  by (simp_all add: spec_defaults_def stack_spec_def Let_def)

lemma stack_site:
  "sc_ListTargets (fake_site now (stack_fake n)) = Some (map stack_info [0..<n])"
  "i < n \<Longrightarrow> sc_GetCapabilities (fake_site now (stack_fake n)) (sp_ID (stack_spec i)) = Some (stack_caps i)"
  "i < n \<Longrightarrow> \<exists>st. sc_GetDeviceState (fake_site now (stack_fake n)) (sp_ID (stack_spec i)) = Some st \<and>
     ds_Status st = DSOnline \<and> ds_Maintenance st = []"
proof -
  show "sc_ListTargets (fake_site now (stack_fake n)) = Some (map stack_info [0..<n])"
    by (simp add: fake_site_def fake_ListTargets_def stack_fake_targets) (simp add: stack_specs_def stack_info_def targetInfo_def TargetInfo.truncate_def)
  assume "i < n"
  then show "sc_GetCapabilities (fake_site now (stack_fake n)) (sp_ID (stack_spec i)) = Some (stack_caps i)"
    by (simp add: fake_site_def GetCapabilities_def stack_fake_spec spec_defaults_stack stack_caps_def Capabilities.truncate_def)
  show "\<exists>st. sc_GetDeviceState (fake_site now (stack_fake n)) (sp_ID (stack_spec i)) = Some st \<and>
     ds_Status st = DSOnline \<and> ds_Maintenance st = []"
    using \<open>i < n\<close> by (simp add: fake_site_def GetDeviceState_def stack_fake_spec wire_state_def)
qed

text \<open>Discovery registers every target, and polling sees every one of them online.\<close>

lemma stack_discover:
  assumes "rg_sites r = [(''synth'', addr)]" and "rg_entries r = []" and "clients ''synth'' = fake_site now (stack_fake n)"
  shows "rg_entries (discover clients r) =
    map (\<lambda>i. (fleet_name ''synth'' (sp_ID (stack_spec i)), fresh_entry ''synth'' (stack_info i) (stack_caps i))) [0..<n]"
proof -
  have ids: "ti_TargetId (stack_info i) = sp_ID (stack_spec i)" for i by (simp add: stack_info_def)
  have "distinct (map ti_TargetId (map stack_info [0..<n]))"
    using stack_ids_distinct[of n] by (simp add: stack_specs_def comp_def ids)
  then have "fold (register_target ''synth'' (fake_site now (stack_fake n))) (map stack_info [0..<n]) [] =
      map (\<lambda>x. (fleet_name ''synth'' (ti_TargetId x), fresh_entry ''synth'' x (stack_caps 0))) (map stack_info [0..<n])"
    using fold_register_fresh[of "map stack_info [0..<n]" "fake_site now (stack_fake n)" "\<lambda>_. stack_caps 0" "''synth''" "[]"]
    by (auto simp: ids stack_site stack_caps_def)
  then show ?thesis
    using assms by (simp add: discover_def discover_site_def stack_site ids stack_caps_def)
qed

lemma stack_polled:
  assumes "rg_sites r = [(''synth'', addr)]" and "rg_entries r = []" and "\<And>t. clients t ''synth'' = fake_site t (stack_fake n)"
  shows "\<exists>st. (\<forall>i < n. ds_Status (st i) = DSOnline \<and> ds_Maintenance (st i) = []) \<and>
    rg_entries (poll (clients t1) t1 (discover (clients t0) r)) =
    map (\<lambda>i. (fleet_name ''synth'' (sp_ID (stack_spec i)), polled t1 (st i) (fresh_entry ''synth'' (stack_info i) (stack_caps i)))) [0..<n]"
proof -
  let ?d = "discover (clients t0) r" and ?k = "\<lambda>i. fleet_name ''synth'' (sp_ID (stack_spec i))"
    and ?e = "\<lambda>i. fresh_entry ''synth'' (stack_info i) (stack_caps i)"
    and ?get = "sc_GetDeviceState (fake_site t1 (stack_fake n))"
  let ?st = "\<lambda>i. the (?get (sp_ID (stack_spec i)))" and ?stk = "\<lambda>k. the (?get (drop 6 k))"
  have es: "rg_entries ?d = map (\<lambda>i. (?k i, ?e i)) [0..<n]" using stack_discover[OF assms(1,2)] assms(3) by blast
  have sites: "rg_sites ?d = [(''synth'', addr)]" using assms(1) by (simp add: discover_def)
  have k: "?stk (?k i) = ?st i" for i by (simp add: fleet_name_def)
  have st: "?get (sp_ID (stack_spec i)) = Some (?st i)" "ds_Status (?st i) = DSOnline" "ds_Maintenance (?st i) = []" if "i < n" for i
    using stack_site(3)[OF that, of t1] by auto
  have inj: "distinct (map fst (rg_entries ?d))"
    using stack_ids_distinct[of n] by (simp add: es stack_specs_def comp_def distinct_map inj_on_def fleet_name_def)
  have mem: "set (Entries ?d) = ?e ` {0..<n}" by (auto simp: Entries_def es)
  have names: "en_Name ` set (Entries ?d) = ?k ` {0..<n}" by (force simp: mem fresh_entry_def stack_info_def)
  have "fold (poll_entry (clients t1) t1) (Entries ?d) ?d = ?d\<lparr>rg_entries :=
      map (\<lambda>(k, e). (k, if k \<in> en_Name ` set (Entries ?d) then polled t1 (?stk k) e else e)) (rg_entries ?d)\<rparr>"
  proof (rule fold_poll_entry[OF inj], intro ballI)
    fix e assume "e \<in> set (Entries ?d)"
    then obtain i where i: "i < n" "e = ?e i" using mem by auto
    then have f: "en_Name e = ?k i" "en_Site e = ''synth''" "en_TargetID e = sp_ID (stack_spec i)"
      by (simp_all add: fresh_entry_def stack_info_def)
    then show "siteFor ?d (en_Site e) \<noteq> None \<and> en_Name e \<in> fst ` set (rg_entries ?d) \<and>
       sc_GetDeviceState (clients t1 (en_Site e)) (en_TargetID e) = Some (?stk (en_Name e))"
      using st(1)[OF i(1)] k i(1) by (simp add: siteFor_def sites assms(3)) (force simp: es)
  qed
  then have "rg_entries (poll (clients t1) t1 ?d) = map (\<lambda>i. (?k i, polled t1 (?st i) (?e i))) [0..<n]"
    by (auto simp: poll_def es names k)
  then show ?thesis using st by (intro exI[of _ ?st]) blast
qed

section \<open>Seeded jobs\<close>

definition seed_view :: "string \<Rightarrow> string \<Rightarrow> int \<Rightarrow> JobView" where
  "seed_view i tenant shots = (new_JobView i tenant ''gate-model'')\<lparr>jv_Format := ''openqasm3'',
     jv_Profile := inline_profile (b64_Encode load_program), jv_Shots := to_uint64 (real_of_int shots), jv_Qubits := 2,
     jv_Aggregate := ''best'', jv_OnConflict := ''prefer-quality''\<rparr>"

lemma ParseJob_minimalDoc: "ParseJob i tenant (minimalDoc name tenant shots) = Inr (seed_view i tenant shots)"
  by (simp add: ParseJob_def minimalDoc_def get_obj_def get_def obj_or_def str_or_def get_str_def parse_workload_def
      parse_program_def payloadField_def new_JobView_def get_num_def parse_requirements_def default_aggregate_def
      parse_session_def parse_scheduling_def parse_deadline_def parse_budget_def parse_selector_def stringList_def
      arr_or_def get_arr_def get_bool_def seed_view_def to_uint32_def trunc_def Let_def)

lemma stack_view_eligible:
  assumes "ds_Status st = DSOnline" and "ds_Maintenance st = []" and "0 \<le> shots" and "shots \<le> 1000000"
  shows "FilterTarget (seed_view i tenant shots) (entryToView (polled t st (fresh_entry site (stack_info k) (stack_caps k)))) now = []"
proof -
  have "to_uint64 (real_of_int shots) \<le> 1000000"
    using assms(3,4) by (auto simp: to_uint64_def trunc_def)
  then show ?thesis
    using assms
    by (auto simp: FilterTarget_def filterTarget_def seed_view_def new_JobView_def entryToView_def static_view_def polled_def
        fresh_entry_def stack_info_def stack_caps_def InMaintenance_def qualityFloors_def floor_reason_def age_reason_def
        selector_reason_def ext_of_def Let_def split: option.splits)
qed

lemma NewFromSpec_synth:
  assumes "addr \<noteq> []" and "\<forall>c \<in> set addr. c \<noteq> CHR '','' \<and> \<not> is_space c"
  shows "NewFromSpec dial (''synth='' @ addr) =
    (if dial addr then Inr \<lparr>rg_sites = [(''synth'', addr)], rg_entries = []\<rparr> else Inl (DialError ''synth'' addr))"
proof -
  have "\<not> is_space (last addr)" using assms by (metis last_in_set)
  then have "TrimSpace (''synth='' @ addr) = ''synth='' @ addr"
    using assms(1) by (intro TrimSpace_id) (auto simp: is_space_def code_def)
  moreover have "Split (CHR '','') (''synth='' @ addr) = [''synth='' @ addr]" using assms(2) by (intro Split_single) auto
  moreover have "Cut (CHR ''='') (''synth='' @ addr) = Some (''synth'', addr)"
    using Cut_append[of "CHR ''=''" "''synth''" addr] by simp
  ultimately show ?thesis using assms(1) by (simp add: NewFromSpec_def new_registry_def)
qed

lemma online_count_polled:
  assumes "rg_entries r = map (\<lambda>i. (k i, polled t (st i) (e i))) [0..<n]" and "\<forall>i < n. ds_Status (st i) = DSOnline"
  shows "online_count (Entries r) = n"
proof -
  have "filter (\<lambda>e. status_of e = DSOnline) (Entries r) = Entries r"
    using assms by (auto simp: filter_id_conv Entries_def status_of_def polled_def)
  then show ?thesis using assms(1) by (simp add: online_count_def Entries_def)
qed

section \<open>Properties\<close>

text \<open>a stack that could not be booted, for whatever reason and at whatever stage, leaves neither the
  fake fleet nor a goroutine of its own running; one that was booted has both running, with the number
  of targets that was asked for, at least one.\<close>

theorem failed_boot_leaves_nothing_running:
  assumes "NewStack env factories singletons st n policy view work now = (r, res)"
  shows "(case res of Inl _ \<Rightarrow> \<not> rn_fake r \<and> \<not> rn_ctx r
     | Inr s \<Rightarrow> rn_fake r \<and> rn_ctx r \<and> 0 < sk_Targets s \<and> int (sk_Targets s) = max 1 n)"
proof -
  obtain r' res' where b: "boot_stack env factories singletons st n policy = (r', res')" by fastforce
  then show ?thesis
    using assms b by (cases rule: boot_stack_cases)
      (auto simp: NewStack_def shut_down_def stack_targets_def split: if_splits)
qed

text \<open>C1: the stack comes up and can do its work. When the fake can be served and reached and the other
  parts start, \<open>NewStack\<close> succeeds as soon as the registry has discovered and polled the fake fleet, and
  then every target of the fleet accepts every seeded job of up to a million shots, so a backlog
  is never unschedulable.\<close>

theorem synthetic_fleet_serves_every_seeded_job:
  assumes serve: "be_serve env = Inr addr" "addr \<noteq> []" "\<forall>c \<in> set addr. c \<noteq> CHR '','' \<and> \<not> is_space c" "be_dial env addr"
    and parts: "New factories singletons st policy = (ss, Inr dsp)" "be_validator env = None" "\<And>a. be_server env a = Inr (grpc a)"
    and clients: "\<And>t. clients t ''synth'' = fake_site t (NewFake (stack_specs (stack_targets n)))"
    and view: "\<And>t. view t = poll (clients t) t (discover (clients t0) \<lparr>rg_sites = [(''synth'', addr)], rg_entries = []\<rparr>)"
    and shots: "0 \<le> shots" "shots \<le> 1000000"
  shows "(\<exists>s. NewStack env factories singletons st n policy view work now = (\<lparr>rn_fake = True, rn_ctx = True\<rparr>, Inr s) \<and>
      length (fleetViews (view t)) = sk_Targets s) \<and>
    (\<forall>v \<in> set (fleetViews (view t)). \<exists>j. ParseJob i tenant (jr_Doc (seed_record i tenant shots)) = Inr j \<and> FilterTarget j v now' = [])"
proof -
  let ?r = "\<lparr>rg_sites = [(''synth'', addr)], rg_entries = []\<rparr>" and ?n = "stack_targets n"
  have p: "\<exists>s. (\<forall>i < ?n. ds_Status (s i) = DSOnline \<and> ds_Maintenance (s i) = []) \<and> rg_entries (view t) =
      map (\<lambda>i. (fleet_name ''synth'' (sp_ID (stack_spec i)), polled t (s i) (fresh_entry ''synth'' (stack_info i) (stack_caps i)))) [0..<?n]" for t
    using stack_polled[of ?r addr clients ?n t t0] clients view[of t] by simp
  have online: "online_count (Entries (view t)) = ?n" for t using p[of t] online_count_polled by fastforce
  have "wait_online view work ?n now"
    unfolding wait_online_def by (rule bexI[of _ now]) (simp_all add: online poll_times_first)
  moreover have "NewFromSpec (be_dial env) (''synth='' @ addr) = Inr ?r" using serve NewFromSpec_synth by simp
  moreover have "\<exists>a. NewAuthenticator harnessToken None = Inr a" by (simp add: NewAuthenticator_def harnessToken_def)
  ultimately have "\<exists>s. NewStack env factories singletons st n policy view work now = (\<lparr>rn_fake = True, rn_ctx = True\<rparr>, Inr s) \<and>
      sk_Targets s = ?n"
    using serve(1) parts by (auto simp: NewStack_def boot_stack_def Let_def)
  moreover have "length (fleetViews (view t)) = ?n" using p[of t] by (auto simp: fleetViews_def Entries_def)
  moreover have "\<forall>v \<in> set (fleetViews (view t)).
      \<exists>j. ParseJob i tenant (jr_Doc (seed_record i tenant shots)) = Inr j \<and> FilterTarget j v now' = []"
    using p[of t] shots by (auto simp: fleetViews_def Entries_def seed_record_def ParseJob_minimalDoc stack_view_eligible)
  ultimately show ?thesis by metis
qed

definition example_env :: boot_env where
  "example_env = \<lparr>be_serve = Inr ''127.0.0.1:40001'', be_dial = (\<lambda>_. True), be_validator = None,
     be_server = (\<lambda>_. Inr ''127.0.0.1:40002'')\<rparr>"

definition example_view :: "time \<Rightarrow> registry" where
  "example_view t = poll (\<lambda>_. fake_site t (NewFake (stack_specs (stack_targets 3)))) t
     (discover (\<lambda>_. fake_site 0 (NewFake (stack_specs (stack_targets 3))))
       \<lparr>rg_sites = [(''synth'', ''127.0.0.1:40001'')], rg_entries = []\<rparr>)"

theorem synthetic_fleet_serves_every_seeded_job_witness:
  "\<exists>s. NewStack example_env [(''fifo/v0'', fifoPolicy)] Map.empty empty_db 3 [] example_view (\<lambda>_. 5) 7 =
     (\<lparr>rn_fake = True, rn_ctx = True\<rparr>, Inr s) \<and> length (fleetViews (example_view 9)) = sk_Targets s"
proof -
  let ?c = "\<lambda>t (_ :: string). fake_site t (NewFake (stack_specs (stack_targets 3)))"
  have "\<exists>ss d. New [(''fifo/v0'', fifoPolicy)] Map.empty empty_db [] = (ss, Inr d)"
    by (simp add: New_def Lookup_def NewPolicy_def DefaultPolicy_def)
  then obtain ss d where "New [(''fifo/v0'', fifoPolicy)] Map.empty empty_db [] = (ss, Inr d)" by blast
  then show ?thesis
    using synthetic_fleet_serves_every_seeded_job[of example_env "''127.0.0.1:40001''" "[(''fifo/v0'', fifoPolicy)]" Map.empty
        empty_db "[]" ss d "\<lambda>_. ''127.0.0.1:40002''" ?c 3 example_view 0 1000 "\<lambda>_. 5" 7 9]
    by (simp add: example_env_def example_view_def is_space_def code_def)
qed

theorem failed_boot_leaves_nothing_running_witness:
  "NewStack (example_env\<lparr>be_validator := Some ''bad schema''\<rparr>) [(''fifo/v0'', fifoPolicy)] Map.empty empty_db 3 [] example_view
     (\<lambda>_. 5) 7 = (\<lparr>rn_fake = False, rn_ctx = False\<rparr>, Inl (ValidatorError ''bad schema''))"
proof -
  let ?run = "NewStack (example_env\<lparr>be_validator := Some ''bad schema''\<rparr>) [(''fifo/v0'', fifoPolicy)] Map.empty empty_db 3 []
     example_view (\<lambda>_. 5) 7"
  have r: "snd ?run = Inl (ValidatorError ''bad schema'')"
    using NewFromSpec_synth[of "''127.0.0.1:40001''" "\<lambda>_. True"]
    by (simp add: NewStack_def boot_stack_def example_env_def New_def Lookup_def NewPolicy_def DefaultPolicy_def is_space_def code_def)
  moreover have "\<not> rn_fake (fst ?run) \<and> \<not> rn_ctx (fst ?run)"
    using failed_boot_leaves_nothing_running[OF prod.collapse[of ?run, symmetric]] r by simp
  ultimately show ?thesis by (intro prod_eqI) simp_all
qed

end
