(* ===== verification/Load_Storm_Properties.thy ===== *)
theory Load_Storm_Properties
  imports Load_Storm Load_Fleet Store_Properties
begin

text \<open>
  The storm: its workers stop after a bounded number of steps in every interleaving, seed every job and
  send exactly the configured number of probes, and a storm without violations is one that met its
  thresholds on the measurements.
\<close>

section \<open>Systems that stop\<close>

text \<open>A system with an invariant and a measure that every step decreases.\<close>

locale stopping_system = inv_system step inv for step :: "'s \<Rightarrow> 's \<Rightarrow> bool" and inv :: "'s \<Rightarrow> bool" +
  fixes meas :: "'s \<Rightarrow> nat"
  assumes decreases: "inv s \<Longrightarrow> step s s' \<Longrightarrow> meas s' < meas s"
begin

lemma bounded: "(step ^^ k) s s' \<Longrightarrow> inv s \<Longrightarrow> k + meas s' \<le> meas s"
proof (induction k arbitrary: s')
  case (Suc k)
  then obtain t where t: "(step ^^ k) s t" "step t s'" by auto
  then have "inv t" using run[OF relpowp_imp_rtranclp[OF t(1)]] Suc.prems(2) by blast
  then show ?case using Suc.IH[OF t(1) Suc.prems(2)] decreases[OF _ t(2)] by simp
qed simp

text \<open>From every state a state without a successor is reached.\<close>

lemma stops: "inv s \<Longrightarrow> \<exists>s'. step\<^sup>*\<^sup>* s s' \<and> (\<nexists>s''. step s' s'')"
proof (induction "meas s" arbitrary: s rule: less_induct)
  case less
  show ?case
  proof (cases "\<exists>t. step s t")
    case True
    then obtain t where t: "step s t" by blast
    with less.hyps[OF decreases[OF less.prems t] keeps[OF less.prems t]] show ?thesis
      by (meson converse_rtranclp_into_rtranclp)
  qed blast
qed

end

section \<open>Counting workers\<close>

definition count_workers :: "('w \<Rightarrow> bool) \<Rightarrow> 'w list \<Rightarrow> nat" where
  "count_workers P ws = length (filter P ws)"

lemma count_workers_update:
  assumes "at_worker ws w x"
  shows "count_workers P (ws[w := y]) + (if P x then 1 else 0) = count_workers P ws + (if P y then 1 else 0)"
proof -
  define l r where "l = take w ws" and "r = drop (Suc w) ws"
  have "ws = l @ x # r" "ws[w := y] = l @ y # r"
    using assms by (auto simp: l_def r_def at_worker_def id_take_nth_drop upd_conv_take_nth_drop)
  then show ?thesis by (simp only: count_workers_def) simp
qed

lemma count_workers_none: "count_workers P ws = 0 \<longleftrightarrow> (\<forall>x \<in> set ws. \<not> P x)"
  by (simp add: count_workers_def filter_empty_conv)

lemma at_worker_in_set: "at_worker ws w x \<Longrightarrow> x \<in> set ws"
  by (auto simp: at_worker_def)

lemma in_set_at_worker: "x \<in> set ws \<Longrightarrow> \<exists>w. at_worker ws w x"
  by (auto simp: at_worker_def in_set_conv_nth)

section \<open>Pools\<close>

abbreviation probing :: "'r pool \<Rightarrow> nat" where
  "probing s \<equiv> count_workers (\<lambda>x. case x of PProbe _ \<Rightarrow> True | _ \<Rightarrow> False) (pl_workers s)"

abbreviation looping :: "'r pool \<Rightarrow> nat" where
  "looping s \<equiv> count_workers (\<lambda>x. case x of PLoop _ \<Rightarrow> True | _ \<Rightarrow> False) (pl_workers s)"

abbreviation gone :: "'r pool \<Rightarrow> nat" where
  "gone s \<equiv> count_workers (\<lambda>x. x = PExit) (pl_workers s)"

text \<open>Every increment of the counter is a request that was sent, one that is under way, or the
  departure of a worker, and no worker departs before all requests are claimed.\<close>

definition pool_inv :: "nat \<Rightarrow> nat \<Rightarrow> 'r pool \<Rightarrow> bool" where
  "pool_inv n limit s \<longleftrightarrow> length (pl_workers s) = n \<and> pl_count s = int (length (pl_sent s) + probing s + gone s) \<and>
     length (pl_sent s) + probing s \<le> limit \<and> (0 < gone s \<longrightarrow> length (pl_sent s) + probing s = limit) \<and>
     length (pl_lat s) = length (pl_sent s)"

definition pool_meas :: "nat \<Rightarrow> 'r pool \<Rightarrow> nat" where
  "pool_meas limit s = 2 * (limit - (length (pl_sent s) + probing s)) + looping s + 2 * probing s"

lemma gone_le: "gone s \<le> length (pl_workers s)"
  by (simp add: count_workers_def)

lemma pool_step_inv:
  assumes "pool_step (int limit) adv request s s'" and "pool_inv n limit s" and "int limit + int n < max_int64"
  shows "pool_inv n limit s' \<and> pool_meas limit s' < pool_meas limit s"
proof -
  have "gone s \<le> n" using gone_le[of s] assms(2) by (simp add: pool_inv_def)
  then have wrap: "wrap64 (pl_count s + 1) = pl_count s + 1"
    using assms(2,3) by (intro wrap64_id) (auto simp: pool_inv_def max_int64_def)
  from assms(1) show ?thesis
  proof cases
    case (claim w i)
    note u = count_workers_update[OF claim(2), of _ "PProbe (adv i)"]
    show ?thesis
      using claim assms(2) wrap u[of "\<lambda>x. case x of PProbe _ \<Rightarrow> True | _ \<Rightarrow> False"] u[of "\<lambda>x. case x of PLoop _ \<Rightarrow> True | _ \<Rightarrow> False"]
        u[of "\<lambda>x. x = PExit"]
      by (auto simp: pool_inv_def pool_meas_def)
  next
    case (leave w i)
    note u = count_workers_update[OF leave(2), of _ PExit]
    show ?thesis
      using leave assms(2) wrap u[of "\<lambda>x. case x of PProbe _ \<Rightarrow> True | _ \<Rightarrow> False"] u[of "\<lambda>x. case x of PLoop _ \<Rightarrow> True | _ \<Rightarrow> False"]
        u[of "\<lambda>x. x = PExit"]
      by (auto simp: pool_inv_def pool_meas_def)
  next
    case (probed w i elapsed)
    note u = count_workers_update[OF probed(2), of _ "PLoop i"]
    show ?thesis
      using probed assms(2) u[of "\<lambda>x. case x of PProbe _ \<Rightarrow> True | _ \<Rightarrow> False"] u[of "\<lambda>x. case x of PLoop _ \<Rightarrow> True | _ \<Rightarrow> False"]
        u[of "\<lambda>x. x = PExit"]
      by (auto simp: pool_inv_def pool_meas_def lat_Record_def)
  qed
qed

interpretation probes: stopping_system "pool_step (int limit) adv request"
    "\<lambda>s. pool_inv n limit s \<and> int limit + int n < max_int64" "pool_meas limit" for limit adv request n
  by unfold_locales (use pool_step_inv in blast)+

lemma pool_inv_init: "pool_inv (length seeds) limit (pool_init seeds)"
  by (auto simp: pool_inv_def pool_init_def count_workers_none) (auto simp: count_workers_def)

lemma pool_meas_init: "pool_meas limit (pool_init seeds) = 2 * limit + length seeds"
  by (simp add: pool_meas_def pool_init_def) (simp add: count_workers_def filter_map comp_def)

text \<open>A pool that cannot step is over, and it has sent what was asked for.\<close>

lemma pool_stuck: "(\<nexists>s'. pool_step limit adv request s s') \<longleftrightarrow> pool_over s"
proof
  assume stuck: "\<nexists>s'. pool_step limit adv request s s'"
  have "x = PExit" if "x \<in> set (pl_workers s)" for x
  proof (cases x)
    case (PLoop i)
    then show ?thesis using in_set_at_worker[OF that] stuck claim[of s _ i limit] leave[of s _ i limit] by blast
  next
    case (PProbe i)
    then show ?thesis using in_set_at_worker[OF that] stuck probed[of s _ i 0] by fastforce
  qed
  then show "pool_over s" by (auto simp: pool_over_def)
next
  assume "pool_over s"
  then have "at_worker (pl_workers s) w x \<Longrightarrow> x = PExit" for w x
    by (auto simp: pool_over_def dest: at_worker_in_set)
  then show "\<nexists>s'. pool_step limit adv request s s'" by (fastforce elim: pool_step.cases)
qed

lemma pool_over_sent: "pool_inv n limit s \<Longrightarrow> pool_over s \<Longrightarrow> 0 < n \<Longrightarrow> length (pl_sent s) = limit \<and> length (pl_lat s) = limit"
proof -
  assume a: "pool_inv n limit s" "pool_over s" "0 < n"
  have "probing s = 0" using a(2) by (force simp: count_workers_none pool_over_def split: prober.splits)
  moreover have "pl_workers s \<noteq> []" using a(1,3) by (auto simp: pool_inv_def)
  then have "gone s \<noteq> 0" using a(2) by (cases "pl_workers s") (auto simp: count_workers_none pool_over_def)
  ultimately show ?thesis using a(1) by (auto simp: pool_inv_def)
qed

lemma pool_finished:
  assumes "(pool_step (int limit) adv request)\<^sup>*\<^sup>* (pool_init seeds) s" and "pool_over s" and "0 < length seeds"
    and "int limit + int (length seeds) < max_int64"
  shows "length (pl_sent s) = limit \<and> length (pl_lat s) = limit"
proof -
  have "pool_inv (length seeds) limit s"
    using probes.run[OF assms(1), of "length seeds"] pool_inv_init[of seeds limit] assms(4) by blast
  then show ?thesis using pool_over_sent assms(2,3) by blast
qed

lemma pool_sent_range:
  assumes "(pool_step limit adv request)\<^sup>*\<^sup>* (pool_init seeds) s"
  shows "set (pl_sent s) \<subseteq> range (\<lambda>i. request (adv i)) \<and> (\<forall>i. PProbe i \<in> set (pl_workers s) \<longrightarrow> i \<in> range adv)"
  using assms
proof (induction rule: rtranclp_induct)
  case base
  show ?case by (auto simp: pool_init_def)
next
  case (step s s')
  from step(2) show ?case
  proof cases
    case (claim w i)
    then show ?thesis using step(3) by (auto dest!: set_update_subset_insert[THEN subsetD])
  next
    case (leave w i)
    then show ?thesis using step(3) by (auto dest!: set_update_subset_insert[THEN subsetD])
  next
    case (probed w i elapsed)
    then have "PProbe i \<in> set (pl_workers s)" by (blast dest: at_worker_in_set)
    then show ?thesis using probed step(3) by (auto dest!: set_update_subset_insert[THEN subsetD])
  qed
qed

section \<open>Probes\<close>

text \<open>the readers of a storm, in any interleaving, take at most two steps per probe and one per reader, so they
  stop; when none of them can go on, exactly the configured number of read probes was sent and timed, and
  each was a list of one page or the read of a job of the backlog. The 64-bit counter must be able to hold
  the number of probes and readers.\<close>

theorem storm_sends_every_read_probe:
  assumes "((reader_step cfg ids) ^^ k) (readers_init cfg) s" and "ids \<noteq> []" and "0 < sc_APIReaders cfg" and "0 \<le> sc_APIReads cfg"
    and "sc_APIReads cfg + sc_APIReaders cfg < max_int64"
  shows "int k \<le> 2 * sc_APIReads cfg + sc_APIReaders cfg \<and>
    ((\<nexists>s'. reader_step cfg ids s s') \<longrightarrow> int (length (pl_sent s)) = sc_APIReads cfg \<and> int (length (pl_lat s)) = sc_APIReads cfg) \<and>
    set (pl_sent s) \<subseteq> insert (ListProbe 50) (GetProbe ` set ids)"
proof -
  let ?n = "nat (sc_APIReaders cfg)" and ?l = "nat (sc_APIReads cfg)"
  have lim: "sc_APIReads cfg = int ?l" using assms(4) by simp
  have bound: "int ?l + int ?n < max_int64" using assms by simp
  have run: "(pool_step (int ?l) (\<lambda>i. (i + 1) mod length ids) (read_request ids) ^^ k) (readers_init cfg) s"
    using assms(1) lim by (simp add: reader_step_def)
  have init: "pool_inv ?n ?l (readers_init cfg)" "pool_meas ?l (readers_init cfg) = 2 * ?l + ?n"
    using pool_inv_init[of "map (\<lambda>r. r * 997) [0..<?n]"] by (simp_all add: readers_init_def pool_meas_init)
  have "k + pool_meas ?l s \<le> 2 * ?l + ?n" using probes.bounded[OF run, of ?n] init bound by simp
  then have "int k \<le> 2 * sc_APIReads cfg + sc_APIReaders cfg" using assms(3,4) by linarith
  moreover have inv: "pool_inv ?n ?l s"
    using probes.run[OF relpowp_imp_rtranclp[OF run], of ?n] init(1) bound by blast
  have "int (length (pl_sent s)) = sc_APIReads cfg \<and> int (length (pl_lat s)) = sc_APIReads cfg"
    if "\<nexists>s'. reader_step cfg ids s s'"
  proof -
    have "pool_over s" using that unfolding reader_step_def pool_stuck .
    then show ?thesis using pool_over_sent[OF inv] assms(3,4) by simp
  qed
  moreover have "range (\<lambda>i. read_request ids ((i + 1) mod length ids)) \<subseteq> insert (ListProbe 50) (GetProbe ` set ids)"
    using assms(2) by (auto simp: read_request_def)
  then have "set (pl_sent s) \<subseteq> insert (ListProbe 50) (GetProbe ` set ids)"
    using pool_sent_range[OF relpowp_imp_rtranclp[OF run, unfolded readers_init_def]] by blast
  ultimately show ?thesis by blast
qed

section \<open>The backlog\<close>

lemma job_ids_step:
  assumes "store_step d d'" and "db_ok d"
  shows "set (job_ids d) \<subseteq> set (job_ids d')"
proof
  fix i assume "i \<in> set (job_ids d)"
  then obtain p where "phase_of d i = Some p" using phase_of_job_ids[of d i] by blast
  then have "history d i \<noteq> []" using assms(2) by (auto simp: db_ok_def store_inv_def jobs_ok_def legal_path_def)
  then have "history d' i \<noteq> []" using events_step[OF assms(1)] by (auto simp: history_def events_of_def prefix_def)
  moreover have "db_ok d'" using store.keeps assms by blast
  ultimately show "i \<in> set (job_ids d')"
    using phase_of_job_ids[of d' i] by (auto simp: db_ok_def store_inv_def jobs_ok_def)
qed

lemma SeedJob_cases:
  assumes "SeedJob now uuid tenant shots d = (d', res)"
  obtains (ok) "res = Inr uuid" "uuid \<notin> set (job_ids d)" "job_ids d' = job_ids d @ [uuid]" "store_step d d'"
  | (dup) "res = Inl ErrDuplicateKey" "d' = d"
proof (cases rule: insertJobTx_cases[of "seed_record uuid tenant shots" d now])
  case dup
  then show ?thesis using assms that(2) by (auto simp: SeedJob_def InsertJob_def seed_record_def)
next
  case (ok d1)
  have "store_step d d1" using insert_job[of "seed_record uuid tenant shots" d now] ok(2) by (simp add: InsertJob_def seed_record_def)
  then show ?thesis using assms ok that(1) by (auto simp: SeedJob_def InsertJob_def seed_record_def job_ids_def)
qed

text \<open>The indices the workers hold.\<close>

definition held :: "seed_worker list \<Rightarrow> nat set" where
  "held ws = {i. \<exists>w. at_worker ws w (SHold i)}"

definition held_once :: "seed_worker list \<Rightarrow> bool" where
  "held_once ws \<longleftrightarrow> (\<forall>i w w'. at_worker ws w (SHold i) \<longrightarrow> at_worker ws w' (SHold i) \<longrightarrow> w = w')"

text \<open>The ids of the done indices are distinct and belong to jobs of the table.\<close>

definition seeded_ok :: "string list \<Rightarrow> nat set \<Rightarrow> string set \<Rightarrow> bool" where
  "seeded_ok ids todo jobids \<longleftrightarrow> (!) ids ` ({..<length ids} - todo) \<subseteq> jobids \<and> inj_on ((!) ids) ({..<length ids} - todo)"

text \<open>An index is in the channel, with one worker, or done; as long as no error was stored the done ones hold
  the distinct ids of jobs of the database, and no worker leaves while the channel holds an index.\<close>

definition seed_inv :: "nat \<Rightarrow> nat \<Rightarrow> seed_state \<Rightarrow> bool" where
  "seed_inv n m s \<longleftrightarrow> db_ok (sd_db s) \<and> length (sd_ids s) = n \<and> length (sd_workers s) = m \<and>
     distinct (sd_next s) \<and> set (sd_next s) \<union> held (sd_workers s) \<subseteq> {..<n} \<and> set (sd_next s) \<inter> held (sd_workers s) = {} \<and>
     held_once (sd_workers s) \<and>
     (sd_err s = None \<longrightarrow>
        seeded_ok (sd_ids s) (set (sd_next s) \<union> held (sd_workers s)) (set (job_ids (sd_db s))) \<and>
        (SExit \<in> set (sd_workers s) \<longrightarrow> sd_next s = []))"

definition seed_meas :: "seed_state \<Rightarrow> nat" where
  "seed_meas s = 3 * length (sd_next s) + count_workers (\<lambda>x. x = SIdle) (sd_workers s) +
     3 * count_workers (\<lambda>x. case x of SHold _ \<Rightarrow> True | _ \<Rightarrow> False) (sd_workers s)"

lemma seedJobs_meas: "seedJobs cfg s s' \<Longrightarrow> seed_meas s' < seed_meas s"
proof (induction rule: seedJobs.induct)
  case (take_index s w i rest)
  then show ?case using count_workers_update[OF take_index(1), of "\<lambda>x. x = SIdle" "SHold i"]
      count_workers_update[OF take_index(1), of "\<lambda>x. case x of SHold _ \<Rightarrow> True | _ \<Rightarrow> False" "SHold i"]
    by (simp add: seed_meas_def)
next
  case (channel_closed s w)
  then show ?case using count_workers_update[OF channel_closed(1), of "\<lambda>x. x = SIdle" SExit]
      count_workers_update[OF channel_closed(1), of "\<lambda>x. case x of SHold _ \<Rightarrow> True | _ \<Rightarrow> False" SExit]
    by (simp add: seed_meas_def)
next
  case (seeded s w i now uuid d' jobid)
  then show ?case using count_workers_update[OF seeded(1), of "\<lambda>x. x = SIdle" SIdle]
      count_workers_update[OF seeded(1), of "\<lambda>x. case x of SHold _ \<Rightarrow> True | _ \<Rightarrow> False" SIdle]
    by (simp add: seed_meas_def)
next
  case (store_failed s w i now uuid d' e)
  then show ?case using count_workers_update[OF store_failed(1), of "\<lambda>x. x = SIdle" SExit]
      count_workers_update[OF store_failed(1), of "\<lambda>x. case x of SHold _ \<Rightarrow> True | _ \<Rightarrow> False" SExit]
    by (simp add: seed_meas_def)
next
  case (unreachable s w i msg)
  then show ?case using count_workers_update[OF unreachable, of "\<lambda>x. x = SIdle" SExit]
      count_workers_update[OF unreachable, of "\<lambda>x. case x of SHold _ \<Rightarrow> True | _ \<Rightarrow> False" SExit]
    by (simp add: seed_meas_def)
qed

lemma mem_at_worker: "x \<in> set ws \<longleftrightarrow> (\<exists>w. at_worker ws w x)"
  by (auto simp: at_worker_def in_set_conv_nth)

lemma at_worker_update: "at_worker ws w x \<Longrightarrow> at_worker (ws[w := y]) v z \<longleftrightarrow> (if v = w then z = y else at_worker ws v z)"
  by (auto simp: at_worker_def nth_list_update)

lemma at_worker_unique: "at_worker ws w x \<Longrightarrow> at_worker ws w y \<Longrightarrow> x = y"
  by (simp add: at_worker_def)

lemma held_take:
  assumes "at_worker ws w SIdle"
  shows "held (ws[w := SHold i]) = insert i (held ws)" "held (ws[w := SExit]) = held ws"
    "i \<notin> held ws \<Longrightarrow> held_once ws \<Longrightarrow> held_once (ws[w := SHold i])" "held_once ws \<Longrightarrow> held_once (ws[w := SExit])"
    "SExit \<in> set (ws[w := SHold i]) \<longleftrightarrow> SExit \<in> set ws"
proof -
  have no: "\<not> at_worker ws w (SHold j)" "\<not> at_worker ws w SExit" for j using at_worker_unique[OF assms] by blast+
  then have ne: "at_worker ws v (SHold j) \<Longrightarrow> v \<noteq> w" for v j by blast
  show "held (ws[w := SHold i]) = insert i (held ws)" "held (ws[w := SExit]) = held ws"
    unfolding held_def at_worker_update[OF assms] by (auto simp: ne) (use ne in metis)+
  show "SExit \<in> set (ws[w := SHold i]) \<longleftrightarrow> SExit \<in> set ws"
    unfolding mem_at_worker at_worker_update[OF assms] using no(2) by auto
qed (auto simp: held_def held_once_def at_worker_update[OF assms] split: if_splits)

lemma held_release:
  assumes "at_worker ws w (SHold i)" and "held_once ws" and "y = SIdle \<or> y = SExit"
  shows "held (ws[w := y]) = held ws - {i}" "held_once (ws[w := y])"
proof -
  show "held (ws[w := y]) = held ws - {i}"
  proof (rule set_eqI)
    fix j
    have "(\<exists>v. at_worker (ws[w := y]) v (SHold j)) \<longleftrightarrow> (\<exists>v. v \<noteq> w \<and> at_worker ws v (SHold j))"
      unfolding at_worker_update[OF assms(1)] using assms(3) by auto
    also have "\<dots> \<longleftrightarrow> j \<noteq> i \<and> (\<exists>v. at_worker ws v (SHold j))"
      using assms(1,2) at_worker_unique[OF assms(1), of "SHold j"] unfolding held_once_def by (metis seed_worker.inject)
    finally show "j \<in> held (ws[w := y]) \<longleftrightarrow> j \<in> held ws - {i}" by (auto simp: held_def)
  qed
  show "held_once (ws[w := y])"
    using assms(2,3) by (auto simp: held_once_def at_worker_update[OF assms(1)] split: if_splits)
qed

lemma exit_update: "at_worker ws w x \<Longrightarrow> SExit \<in> set (ws[w := SIdle]) \<Longrightarrow> SExit \<in> set ws"
  by (auto simp: mem_at_worker at_worker_update split: if_splits)

lemma seeded_ok_insert:
  assumes "seeded_ok ids todo J" and "i < length ids" and "u \<notin> J"
  shows "seeded_ok (ids[i := u]) (todo - {i}) (insert u J)"
proof -
  let ?D = "{..<length ids} - todo - {i}"
  have D: "{..<length (ids[i := u])} - (todo - {i}) = insert i ?D" using assms(2) by auto
  have eq: "(!) (ids[i := u]) ` ?D = (!) ids ` ?D" by (intro image_cong) auto
  have "(!) ids ` ?D \<subseteq> J" "inj_on ((!) ids) ?D" using assms(1) by (auto simp: seeded_ok_def intro: inj_on_subset)
  moreover have "inj_on ((!) (ids[i := u])) ?D" using \<open>inj_on ((!) ids) ?D\<close> by (auto simp: inj_on_def)
  ultimately show ?thesis
    using assms(2,3) unfolding seeded_ok_def D image_insert inj_on_insert by (auto simp: eq Diff_insert_absorb)
qed

lemma seeded_ok_mono: "seeded_ok ids todo J \<Longrightarrow> J \<subseteq> J' \<Longrightarrow> seeded_ok ids todo J'"
  by (auto simp: seeded_ok_def)

lemma seed_inv_worker:
  assumes "seedJobs cfg s s'" and "seed_inv n m s"
  shows "seed_inv n m s'"
  using assms(1)
proof cases
  case (take_index w i rest)
  then show ?thesis using assms(2) held_take(1,3,5)[OF take_index(2), of i] by (auto simp: seed_inv_def)
next
  case (channel_closed w)
  then show ?thesis using assms(2) held_take(2)[OF channel_closed(2)] held_take(4)[OF channel_closed(2)] by (auto simp: seed_inv_def)
next
  case (seeded w i now uuid d' jobid)
  obtain new: "jobid = uuid" "uuid \<notin> set (job_ids (sd_db s))" "job_ids d' = job_ids (sd_db s) @ [uuid]" "store_step (sd_db s) d'"
    using seeded(3) by (cases rule: SeedJob_cases) auto
  have once: "held_once (sd_workers s)" using assms(2) by (simp add: seed_inv_def)
  note h = held_release[OF seeded(2) once, of SIdle]
  have i: "i \<in> held (sd_workers s)" using seeded(2) by (auto simp: held_def)
  then have lt: "i < length (sd_ids s)" "i \<notin> set (sd_next s)" using assms(2) by (auto simp: seed_inv_def)
  have "db_ok d'" using store.keeps new(4) assms(2) by (auto simp: seed_inv_def)
  moreover have "seeded_ok ((sd_ids s)[i := uuid]) (set (sd_next s) \<union> held ((sd_workers s)[w := SIdle])) (set (job_ids d'))"
    if "sd_err s = None"
  proof -
    have "set (sd_next s) \<union> held ((sd_workers s)[w := SIdle]) = set (sd_next s) \<union> held (sd_workers s) - {i}"
      using h(1) lt(2) by auto
    then show ?thesis using seeded_ok_insert[OF _ lt(1) new(2)] assms(2) that new(3) by (simp add: seed_inv_def)
  qed
  ultimately show ?thesis using assms(2) seeded(1) h new(1) exit_update[OF seeded(2)] by (auto simp: seed_inv_def)
next
  case (store_failed w i now uuid d' e)
  have "d' = sd_db s" using store_failed(3) by (cases rule: SeedJob_cases) auto
  then show ?thesis using assms(2) store_failed held_release[OF store_failed(2), of SExit] by (auto simp: seed_inv_def)
next
  case (unreachable w i msg)
  then show ?thesis using assms(2) held_release[OF unreachable(2), of SExit] by (auto simp: seed_inv_def)
qed

interpretation seeding: inv_system "seed_or_stack cfg" "seed_inv n m" for cfg n m
proof unfold_locales
  fix s s' assume inv: "seed_inv n m s" and "seed_or_stack cfg s s'"
  from this(2) show "seed_inv n m s'"
  proof cases
    case worker
    then show ?thesis using seed_inv_worker inv by blast
  next
    case (stack d')
    then show ?thesis using inv store.keeps job_ids_step seeded_ok_mono by (fastforce simp: seed_inv_def)
  qed
qed

lemma seed_inv_init:
  assumes "db_ok d"
  shows "seed_inv (nat (sc_Jobs cfg)) (nat (sc_SeedWorkers cfg)) (seed_init cfg d)"
proof -
  have "held (replicate k SIdle) = {}" "held_once (replicate k SIdle)" "SExit \<notin> set (replicate k SIdle)" for k
    by (auto simp: held_def held_once_def at_worker_def)
  then show ?thesis using assms by (auto simp: seed_inv_def seed_init_def seeded_ok_def inj_on_def)
qed

lemma seeding_progress: "\<not> seeding_over s \<Longrightarrow> \<exists>s'. seedJobs cfg s s'"
proof -
  assume "\<not> seeding_over s"
  then obtain w x where w: "at_worker (sd_workers s) w x" "x \<noteq> SExit"
    unfolding seeding_over_def using in_set_at_worker by (metis insertI1 subsetI)
  show ?thesis
  proof (cases x)
    case SIdle
    then show ?thesis using w(1) take_index[of s w] channel_closed[of s w] by (cases "sd_next s") blast+
  next
    case (SHold i)
    obtain d' res where "SeedJob 0 [] (sc_Tenant cfg) 1000 (sd_db s) = (d', res)" by fastforce
    then show ?thesis using w(1) SHold seeded[of s w i 0] store_failed[of s w i 0] by (cases res) blast+
  qed (use w(2) in simp)
qed

text \<open>C29: seeding stops, and it seeds the whole backlog. In any interleaving of the seed workers with the running
  stack, as long as not every worker has returned one of them can go on, and each of their steps
  decreases a measure; when all have returned without an error, every slot of the backlog holds
  the id of a job of its own that is in the database.\<close>

theorem storm_seeds_the_whole_backlog:
  assumes "(seed_or_stack cfg)\<^sup>*\<^sup>* (seed_init cfg d) s" and "reachable d" and "0 < sc_SeedWorkers cfg"
  shows "(\<not> seeding_over s \<longrightarrow> (\<exists>s'. seedJobs cfg s s')) \<and> (\<forall>s'. seedJobs cfg s s' \<longrightarrow> seed_meas s' < seed_meas s) \<and>
    (seeding_over s \<and> sd_err s = None \<longrightarrow>
       length (sd_ids s) = nat (sc_Jobs cfg) \<and> distinct (sd_ids s) \<and> set (sd_ids s) \<subseteq> set (job_ids (sd_db s)))"
proof -
  have inv: "seed_inv (nat (sc_Jobs cfg)) (nat (sc_SeedWorkers cfg)) s"
    using seeding.run[OF assms(1)] seed_inv_init reachable_ok[OF assms(2)] by blast
  have "length (sd_ids s) = nat (sc_Jobs cfg) \<and> distinct (sd_ids s) \<and> set (sd_ids s) \<subseteq> set (job_ids (sd_db s))"
    if over: "seeding_over s" "sd_err s = None"
  proof -
    have "sd_workers s \<noteq> []" using inv assms(3) by (auto simp: seed_inv_def)
    then have "SExit \<in> set (sd_workers s)" using over(1) by (cases "sd_workers s") (auto simp: seeding_over_def)
    moreover have "held (sd_workers s) = {}" using over(1) by (auto simp: held_def seeding_over_def dest: at_worker_in_set)
    ultimately have "seeded_ok (sd_ids s) {} (set (job_ids (sd_db s)))" "length (sd_ids s) = nat (sc_Jobs cfg)"
      using inv over(2) by (auto simp: seed_inv_def)
    then show ?thesis by (auto simp: seeded_ok_def distinct_conv_nth inj_on_def set_conv_nth)
  qed
  then show ?thesis using seeding_progress seedJobs_meas by blast
qed

section \<open>The verdict\<close>

lemma nearest_rank_99: "0 < n \<Longrightarrow> 99 * int n \<le> 100 * nearest_rank (99 / 100) n"
proof -
  assume "0 < n"
  let ?x = "99 / 100 * real n + 999999 / 1000000"
  have "trunc ?x = \<lfloor>?x\<rfloor>" by (simp add: trunc_def)
  moreover have "?x - 1 < real_of_int \<lfloor>?x\<rfloor>" by linarith
  then have "99 * int n \<le> 100 * \<lfloor>?x\<rfloor>" by linarith
  ultimately show ?thesis using \<open>0 < n\<close> by (auto simp: nearest_rank_def Let_def)
qed

text \<open>At most one sample in a hundred is above the 99th percentile.\<close>

lemma P99_slow:
  assumes "P99 l \<le> b"
  shows "100 * length (filter (\<lambda>d. b < d) l) \<le> length l"
proof (cases "l = []")
  case False
  let ?n = "length l" and ?s = "sort l"
  let ?k = "nat (nearest_rank (99 / 100) ?n)"
  have k: "1 \<le> nearest_rank (99 / 100) ?n" "nearest_rank (99 / 100) ?n \<le> int ?n" "99 * int ?n \<le> 100 * nearest_rank (99 / 100) ?n"
    using nearest_rank_bounds[of ?n "99 / 100"] nearest_rank_99[of ?n] False by auto
  have p: "P99 l = ?s ! (?k - 1)" using False k(1) by (simp add: P99_def Percentile_def Let_def nat_diff_distrib)
  have "x \<le> b" if x: "x \<in> set (take ?k ?s)" for x
  proof -
    obtain i where i: "i < ?k" "i < ?n" "x = ?s ! i" using x by (auto simp: in_set_conv_nth)
    then have "?s ! i \<le> ?s ! (?k - 1)" using k by (intro sorted_nth_mono) auto
    then show ?thesis using i(3) p assms by simp
  qed
  then have "filter (\<lambda>d. b < d) (take ?k ?s) = []" by (force simp: filter_empty_conv)
  then have "length (filter (\<lambda>d. b < d) ?s) \<le> length (drop ?k ?s)"
    by (metis append_Nil append_take_drop_id filter_append length_filter_le)
  moreover have "length (filter (\<lambda>d. b < d) ?s) = length (filter (\<lambda>d. b < d) l)"
    by (metis mset_filter mset_sort size_mset)
  ultimately show ?thesis using k by simp
qed simp

lemma rank_of_nearest_rank: "rank_of q n = nat (nearest_rank q n)"
  by (simp add: rank_of_def nearest_rank_def Let_def min_def max_def)

lemma CycleP99_P99: "CycleP99 c = P99 (take (cr_count c) (cr_buf c))"
proof -
  have "nat (nearest_rank q n) - 1 = nat (nearest_rank q n - 1)" for q n by (simp add: nat_diff_distrib')
  then show ?thesis by (simp add: CycleP99_def percentile_def P99_def Percentile_def Let_def rank_of_nearest_rank)
qed

lemma over_Nil: "over what p limit = [] \<longleftrightarrow> p \<le> limit"
  by (auto simp: over_def)

lemma storm_green: "storm_Violations r = [] \<longleftrightarrow> sr_SchedulerCycleP99 r \<le> MaxSchedulerCycleP99 \<and> sr_APIReadP99 r \<le> MaxAPIReadP99 \<and>
    sr_APIWriteP99 r \<le> MaxAPIWriteP99 \<and> sr_Drained r \<and> sr_PeakPending r \<le> storm_ceiling r"
  by (auto simp: storm_Violations_def over_Nil)

lemma drain_loop_True: "drain_loop ds seen = (True, n) \<Longrightarrow> n = 0 \<and> (\<exists>d. Some d \<in> set ds \<and> PendingCount d = 0)"
  by (induction ds seen rule: drain_loop.induct) (auto simp: Let_def split: if_splits)

lemma sample_peak_ge: "old \<le> fold sample_peak ss old \<and> (Some n \<in> set ss \<longrightarrow> n \<le> fold sample_peak ss old)"
proof (induction ss arbitrary: old)
  case (Cons x ss)
  from Cons[of "sample_peak x old"] show ?case by (auto simp: sample_peak_def split: option.splits if_splits)
qed simp

text \<open>C28: a storm without violations met its thresholds. If the client could be created, exactly the configured numbers
  of read and write probes were sent, at most one in a hundred of the reads took longer than 300 milliseconds
  and of the writes longer than a second; without a client no probe was sent at all, and that is no
  violation. In both cases at most one in a hundred of the latest scheduler cycles took longer than two seconds,
  a query before the deadline saw an empty queue, and no sample of the queue depth was above the ceiling.\<close>

theorem green_storm_met_its_thresholds:
  assumes probed: "runProbes cfg ids client r w"
    and cfg: "0 < sc_APIReaders cfg" "0 < sc_APIWriters cfg" "0 \<le> sc_APIReads cfg" "0 \<le> sc_APIWrites cfg"
      "sc_APIReads cfg + sc_APIReaders cfg < max_int64" "sc_APIWrites cfg + sc_APIWriters cfg < max_int64"
    and green: "storm_Violations (storm_result cfg dur ring (pl_lat r) (pl_lat w) samples
      (waitForDrain obs work now (sc_DrainTimeout cfg))) = []"
  shows "(if client
      then int (length (pl_sent r)) = sc_APIReads cfg \<and> int (length (pl_sent w)) = sc_APIWrites cfg \<and>
        100 * int (length (filter (\<lambda>d. 300000000 < d) (pl_lat r))) \<le> sc_APIReads cfg \<and>
        100 * int (length (filter (\<lambda>d. 1000000000 < d) (pl_lat w))) \<le> sc_APIWrites cfg
      else pl_sent r = [] \<and> pl_sent w = []) \<and>
    100 * length (filter (\<lambda>d. 2000000000 < d) (take (cr_count ring) (cr_buf ring))) \<le> length (take (cr_count ring) (cr_buf ring)) \<and>
    (\<exists>t d. now \<le> t \<and> t < now + sc_DrainTimeout cfg \<and> obs t = Some d \<and> PendingCount d = 0) \<and>
    (\<forall>n. Some n \<in> set samples \<longrightarrow> n \<le> wrap64 (sc_Jobs cfg + sc_Targets cfg + 2000))"
proof -
  note g = green[unfolded storm_green storm_result_def, simplified]
  have "\<exists>d. Some d \<in> set (map obs (poll_times work 200000000 (now + sc_DrainTimeout cfg) now)) \<and> PendingCount d = 0"
    using g drain_loop_True[of "map obs (poll_times work 200000000 (now + sc_DrainTimeout cfg) now)" 0]
    by (simp add: waitForDrain_def prod_eq_iff)
  then obtain t d where "t \<in> set (poll_times work 200000000 (now + sc_DrainTimeout cfg) now)" "obs t = Some d" "PendingCount d = 0"
    by (auto simp: image_iff) metis
  then have drained: "\<exists>t d. now \<le> t \<and> t < now + sc_DrainTimeout cfg \<and> obs t = Some d \<and> PendingCount d = 0"
    using poll_times_range by blast
  have peak: "n \<le> wrap64 (sc_Jobs cfg + sc_Targets cfg + 2000)" if "Some n \<in> set samples" for n
    using g sample_peak_ge[of 0 samples n] that by (simp add: storm_ceiling_def storm_peak_def)
  have slow: "100 * length (filter (\<lambda>d. 300000000 < d) (pl_lat r)) \<le> length (pl_lat r)"
      "100 * length (filter (\<lambda>d. 1000000000 < d) (pl_lat w)) \<le> length (pl_lat w)"
      "100 * length (filter (\<lambda>d. 2000000000 < d) (take (cr_count ring) (cr_buf ring))) \<le> length (take (cr_count ring) (cr_buf ring))"
    using g by (simp_all only: CycleP99_P99 MaxAPIReadP99_def MaxAPIWriteP99_def MaxSchedulerCycleP99_def) (intro P99_slow; simp)+
  have "if client
      then int (length (pl_sent r)) = sc_APIReads cfg \<and> int (length (pl_sent w)) = sc_APIWrites cfg \<and>
        100 * int (length (filter (\<lambda>d. 300000000 < d) (pl_lat r))) \<le> sc_APIReads cfg \<and>
        100 * int (length (filter (\<lambda>d. 1000000000 < d) (pl_lat w))) \<le> sc_APIWrites cfg
      else pl_sent r = [] \<and> pl_sent w = []"
    using probed
  proof cases
    case no_client
    then show ?thesis by (simp add: pool_init_def)
  next
    case probes_over
    have "length (pl_sent r) = nat (sc_APIReads cfg) \<and> length (pl_lat r) = nat (sc_APIReads cfg)"
      using pool_finished[of "nat (sc_APIReads cfg)" _ _ "map (\<lambda>r. r * 997) [0..<nat (sc_APIReaders cfg)]" r] probes_over(2,3) cfg
      by (simp add: reader_step_def readers_init_def)
    moreover have "length (pl_sent w) = nat (sc_APIWrites cfg) \<and> length (pl_lat w) = nat (sc_APIWrites cfg)"
      using pool_finished[of "nat (sc_APIWrites cfg)" _ _ "replicate (nat (sc_APIWriters cfg)) 0" w] probes_over(4,5) cfg
      by (simp add: writer_step_def writers_init_def)
    ultimately show ?thesis using slow(1,2) cfg(3,4) probes_over(1) by auto
  qed
  then show ?thesis using slow(3) drained peak by blast
qed

section \<open>A small storm\<close>

definition tiny_storm :: StormConfig where
  "tiny_storm = \<lparr>sc_Jobs = 1, sc_Targets = 1, sc_Tenant = ''acme/qa'', sc_Policy = [], sc_SeedWorkers = 1, sc_APIReaders = 1,
     sc_APIWriters = 1, sc_APIReads = 1, sc_APIWrites = 1, sc_DrainTimeout = 1000000000\<rparr>"

definition tiny_pool :: "'r \<Rightarrow> 'r pool" where
  "tiny_pool x = \<lparr>pl_count = 2, pl_workers = [PExit], pl_lat = [5], pl_sent = [x]\<rparr>"

lemma tiny_run:
  assumes "adv 0 = 0"
  shows "((pool_step 1 adv request) ^^ 3) (pool_init [0]) (tiny_pool (request 0))"
proof -
  let ?a = "\<lparr>pl_count = 1, pl_workers = [PProbe 0], pl_lat = [], pl_sent = []\<rparr>"
    and ?b = "\<lparr>pl_count = 1, pl_workers = [PLoop 0], pl_lat = [5], pl_sent = [request 0]\<rparr>"
  have "pool_step 1 adv request (pool_init [0]) ?a"
    using claim[of "pool_init [0]" 0 0 1 adv request] assms by (simp add: pool_init_def at_worker_def wrap64_def)
  moreover have "pool_step 1 adv request ?a ?b"
    using probed[of ?a 0 0 5 1 adv request] by (simp add: at_worker_def lat_Record_def)
  moreover have "pool_step 1 adv request ?b (tiny_pool (request 0))"
    using leave[of ?b 0 0 1 adv request] by (simp add: at_worker_def wrap64_def tiny_pool_def)
  ultimately show ?thesis unfolding numeral_3_eq_3 by (metis relpowp_0_I relpowp_Suc_I)
qed

lemma tiny_readers:
  "((reader_step tiny_storm [''job-1'']) ^^ 3) (readers_init tiny_storm) (tiny_pool (ListProbe 50))"
  using tiny_run[of "\<lambda>i. (i + 1) mod length [''job-1'']" "read_request [''job-1'']"]
  by (simp add: reader_step_def readers_init_def tiny_storm_def read_request_def)

lemma tiny_writers:
  "((writer_step tiny_storm) ^^ 3) (writers_init tiny_storm) (tiny_pool (minimalDoc ''load-api'' ''acme/qa'' 1000))"
  using tiny_run[of id "\<lambda>_. minimalDoc ''load-api'' ''acme/qa'' 1000"]
  by (simp add: writer_step_def writers_init_def tiny_storm_def)

lemma tiny_over: "pool_over (tiny_pool x)"
  by (simp add: pool_over_def tiny_pool_def)

theorem storm_sends_every_read_probe_witness:
  "(3 :: int) \<le> 2 * sc_APIReads tiny_storm + sc_APIReaders tiny_storm \<and> int (length (pl_sent (tiny_pool (ListProbe 50)))) = sc_APIReads tiny_storm"
proof -
  have "\<nexists>s'. reader_step tiny_storm [''job-1''] (tiny_pool (ListProbe 50)) s'"
    unfolding reader_step_def pool_stuck by (rule tiny_over)
  then show ?thesis
    using storm_sends_every_read_probe[OF tiny_readers] by (simp add: tiny_storm_def max_int64_def)
qed

theorem green_storm_met_its_thresholds_witness:
  "100 * int (length (filter (\<lambda>d. 300000000 < d) (pl_lat (tiny_pool (ListProbe 50))))) \<le> sc_APIReads tiny_storm"
proof -
  have drain: "waitForDrain (\<lambda>_. Some empty_db) (\<lambda>_. 0) 0 1000000000 = (True, 0)"
    by (subst waitForDrain_def, subst poll_times.simps) (simp add: PendingCount_def empty_db_def Let_def)
  have "storm_Violations (storm_result tiny_storm 7 (newCycleRing 4) (pl_lat (tiny_pool (ListProbe 50)))
      (pl_lat (tiny_pool (minimalDoc ''load-api'' ''acme/qa'' 1000))) [Some 1]
      (waitForDrain (\<lambda>_. Some empty_db) (\<lambda>_. 0) 0 (sc_DrainTimeout tiny_storm))) = []"
    by (simp add: storm_green storm_result_def tiny_storm_def drain tiny_pool_def CycleP99_def percentile_def newCycleRing_def P99_def
        Percentile_def nearest_rank_def Let_def MaxSchedulerCycleP99_def MaxAPIReadP99_def MaxAPIWriteP99_def storm_ceiling_def
        storm_peak_def sample_peak_def wrap64_def)
  moreover have "runProbes tiny_storm [''job-1''] True (tiny_pool (ListProbe 50)) (tiny_pool (minimalDoc ''load-api'' ''acme/qa'' 1000))"
    by (rule runProbes.probes_over[OF relpowp_imp_rtranclp[OF tiny_readers] tiny_over relpowp_imp_rtranclp[OF tiny_writers] tiny_over])
  ultimately show ?thesis
    using green_storm_met_its_thresholds[of tiny_storm "[''job-1'']" True] by (simp add: tiny_storm_def max_int64_def)
qed

theorem storm_seeds_the_whole_backlog_witness:
  "\<exists>s'. seedJobs tiny_storm (seed_init tiny_storm empty_db) s'"
  using storm_seeds_the_whole_backlog[of tiny_storm empty_db "seed_init tiny_storm empty_db"] reachable.start
  by (simp add: tiny_storm_def seeding_over_def seed_init_def)

end
