(* ===== verification/Load_Soak_Properties.thy ===== *)
theory Load_Soak_Properties
  imports Load_Soak Load_Storm_Properties
begin

text \<open>
  The soak: its report can be printed for heaps below one pebibyte and only for those, the counter of the
  submitter is the growth of the job table, the sampling loop ends, and what a soak without violations
  says about the heap, the goroutines and the jobs.
\<close>

section \<open>Printing\<close>

lemma human_loop_ge: "ex \<le> snd (human_loop n dv ex)"
  by (induction n dv ex rule: human_loop.induct) (subst human_loop.simps, auto)

lemma human_loop_exponent: "snd (human_loop n dv ex) \<le> ex + k \<longleftrightarrow> n < 1024 ^ Suc k"
proof (induction k arbitrary: n dv ex)
  case 0
  have "\<not> snd (human_loop n dv ex) \<le> ex" if "1024 \<le> n"
    using that human_loop_ge[of "Suc ex" "n div 1024" "dv * 1024"] by (subst human_loop.simps) simp
  moreover have "snd (human_loop n dv ex) = ex" if "n < 1024" using that by (subst human_loop.simps) simp
  ultimately show ?case by (cases "n < 1024") auto
next
  case (Suc k)
  show ?case
  proof (cases "1024 \<le> n")
    case True
    then have "snd (human_loop n dv ex) \<le> ex + Suc k \<longleftrightarrow> snd (human_loop (n div 1024) (dv * 1024) (Suc ex)) \<le> Suc ex + k"
      by (subst human_loop.simps) simp
    also have "\<dots> \<longleftrightarrow> n div 1024 < 1024 ^ Suc k" by (rule Suc.IH)
    also have "\<dots> \<longleftrightarrow> n < 1024 ^ Suc (Suc k)" by (simp add: div_less_iff_less_mult mult.commute)
    finally show ?thesis .
  next
    case False
    obtain m where "1024 ^ k = Suc m" using gr0_implies_Suc[of "1024 ^ k"] by auto
    then have "n < 1024 ^ Suc (Suc k)" using False by simp
    moreover have "snd (human_loop n dv ex) = ex" using False by (subst human_loop.simps) simp
    ultimately show ?thesis by simp
  qed
qed

lemma humanBytes_None: "humanBytes b = None \<longleftrightarrow> 1125899906842624 \<le> b"
proof -
  have "snd (human_loop (b div 1024) 1024 0) \<le> 0 + 3 \<longleftrightarrow> b div 1024 < 1024 ^ Suc 3" by (rule human_loop_exponent)
  also have "\<dots> \<longleftrightarrow> b < 1125899906842624" by (simp add: div_less_iff_less_mult)
  finally have "snd (human_loop (b div 1024) 1024 0) < 4 \<longleftrightarrow> b < 1125899906842624" by linarith
  then show ?thesis by (auto simp: humanBytes_def case_prod_unfold Let_def)
qed

text \<open>printing the result of a soak panics exactly when one of the two heap readings is one pebibyte or
  more: the table of unit letters ends at tera.\<close>

theorem soak_report_panics_from_a_pebibyte:
  "soak_String r = None \<longleftrightarrow> 2 ^ 50 \<le> sk_HeapInuseBase r \<or> 2 ^ 50 \<le> sk_HeapInuseEnd r"
  using humanBytes_None[of "sk_HeapInuseBase r"] humanBytes_None[of "sk_HeapInuseEnd r"]
  by (auto simp: soak_String_def split: option.splits)

section \<open>Submitting\<close>

lemma submitter_counts:
  "int (length (jobs (fst (submitter tenant ts (d, n))))) - int (length (jobs d)) = snd (submitter tenant ts (d, n)) - n"
proof (induction tenant ts "(d, n)" arbitrary: d n rule: submitter.induct)
  case (3 tenant now uuid ts d n)
  obtain d' res where s: "SeedJob now uuid tenant 1000 d = (d', res)" by fastforce
  from s show ?case
  proof (cases rule: SeedJob_cases)
    case ok
    then have "length (jobs d') = Suc (length (jobs d))" by (metis job_ids_def length_append_singleton length_map)
    then show ?thesis using 3(2)[OF s[symmetric]] ok s by simp
  next
    case dup
    then show ?thesis using 3(1)[OF s[symmetric]] s by simp
  qed
qed simp_all

section \<open>Sampling\<close>

text \<open>A loop that saw no cancelled context ran over a prefix of its ticks.\<close>

lemma soak_loop_sampled:
  "soak_loop cfg start ks a = Some (SoakSampled b) \<Longrightarrow>
   \<exists>js k rest. ks = js @ k # rest \<and> (\<forall>j \<in> set js. tk_check j < start + so_Duration cfg \<and> \<not> tk_done j) \<and>
     start + so_Duration cfg \<le> tk_check k \<and> b = fold (soak_sample cfg start) js a"
proof (induction cfg start ks a rule: soak_loop.induct)
  case (2 cfg start k ks a)
  show ?case
  proof (cases "tk_check k < start + so_Duration cfg")
    case True
    then obtain js k' rest where "ks = js @ k' # rest" "\<forall>j \<in> set js. tk_check j < start + so_Duration cfg \<and> \<not> tk_done j"
      "start + so_Duration cfg \<le> tk_check k'" "b = fold (soak_sample cfg start) js (soak_sample cfg start k a)"
      using 2 by (auto split: if_splits)
    then show ?thesis using True 2(2) by (intro exI[of _ "k # js"]) (auto split: if_splits)
  qed (use 2(2) in \<open>auto intro: exI[of _ "[]"]\<close>)
qed simp

lemma soak_loop_ends:
  "(\<exists>k \<in> set ks. tk_done k \<or> start + so_Duration cfg \<le> tk_check k) \<Longrightarrow> soak_loop cfg start ks a \<noteq> None"
  by (induction cfg start ks a rule: soak_loop.induct) auto

lemma soak_sample_simps [simp]:
  "ac_peak (soak_sample cfg start k a) = max (ac_peak a) (tk_goroutines k)"
  "ac_samples (soak_sample cfg start k a) = Suc (ac_samples a)"
  "ac_maxStuck (soak_sample cfg start k a) = (case tk_stuck k of Some n \<Rightarrow> max (ac_maxStuck a) n | None \<Rightarrow> ac_maxStuck a)"
  by (auto simp: soak_sample_def max_def split: option.splits)

lemma soak_peak: "ac_peak a \<le> ac_peak (fold (soak_sample cfg start) js a) \<and>
    (\<forall>j \<in> set js. tk_goroutines j \<le> ac_peak (fold (soak_sample cfg start) js a))"
proof (induction js arbitrary: a)
  case (Cons j js)
  from Cons[of "soak_sample cfg start j a"] show ?case by simp
qed simp

lemma soak_samples: "ac_samples (fold (soak_sample cfg start) js a) = ac_samples a + length js"
  by (induction js arbitrary: a) simp_all

lemma soak_baseline:
  "ac_baseline (fold (soak_sample cfg start) js a) =
     (case ac_baseline a of Some b \<Rightarrow> Some b
      | None \<Rightarrow> map_option (\<lambda>j. (tk_heap j, rssKB (tk_rss j))) (find (\<lambda>j. soak_warmup cfg \<le> tk_now j - start) js))"
proof (induction js arbitrary: a)
  case (Cons j js)
  from Cons[of "soak_sample cfg start j a"] show ?case by (simp add: soak_sample_def split: option.splits)
qed (simp split: option.splits)

section \<open>The verdict\<close>

lemma soak_green: "soak_Violations r = [] \<longleftrightarrow> sk_HeapGrowthPct r \<le> 50 \<and> sk_GoroutinesEnd r \<le> sk_GoroutinesBase r + 100 \<and> sk_FinalStuck r \<le> 0"
  by (auto simp: soak_Violations_def MaxSoakHeapGrowthPct_def GoroutineSlack_def)

lemma heap_growth_bound: "heap_growth base e \<le> 50 \<Longrightarrow> 0 < base \<Longrightarrow> 2 * e \<le> 3 * base"
proof -
  assume g: "heap_growth base e \<le> 50" and b: "0 < base"
  show ?thesis
  proof (cases "base < e")
    case True
    then have "real (e - base) * 100 \<le> 50 * real base" using g b by (simp add: heap_growth_def field_simps)
    then have "real ((e - base) * 100) \<le> real (50 * base)" by simp
    then have "(e - base) * 100 \<le> 50 * base" by (rule of_nat_le_iff[THEN iffD1])
    then show ?thesis using True by simp
  qed simp
qed

lemma NonTerminalOlderThan_zero:
  "NonTerminalOlderThan now age d \<le> 0 \<Longrightarrow> r \<in> set (jobs d) \<Longrightarrow> jr_CreatedAt r < now - age \<Longrightarrow>
   phase_str (jr_Phase r) \<in> {''SUCCEEDED'', ''FAILED'', ''CANCELLED''}"
  by (auto simp: NonTerminalOlderThan_def filter_empty_conv)

text \<open>what a soak without violations says. When the sampling loop ended by the clock, the number of samples is the
  number of ticks before the end and the peak covers every sampled number of goroutines; with a heap
  baseline, the one of the first tick after the warm-up, the final heap is at most half again as large;
  at most a hundred goroutines were left over, and if the last query of the jobs worked, every
  job older than the maximal age was over.\<close>

theorem green_soak_is_stable:
  assumes "RunSoak cfg0 startGoro start ticks submissions d f = Some (Inr r)" and "soak_Violations r = []"
    and "fi_stuck_db f = Some d'" and "cfg = soak_defaults cfg0"
  shows "\<exists>js k rest. ticks = js @ k # rest \<and> start + so_Duration cfg \<le> tk_check k \<and> sk_Samples r = length js \<and>
    (\<forall>j \<in> set js. tk_goroutines j \<le> sk_GoroutinesPeak r) \<and>
    (\<forall>j. find (\<lambda>j. soak_warmup cfg \<le> tk_now j - start) js = Some j \<and> 0 < tk_heap j \<longrightarrow> 2 * fi_heap f \<le> 3 * tk_heap j) \<and>
    fi_goroutines f \<le> startGoro + 100 \<and>
    (\<forall>job \<in> set (jobs d'). jr_CreatedAt job < fi_now f - so_StuckJobMaxAge cfg \<longrightarrow>
       phase_str (jr_Phase job) \<in> {''SUCCEEDED'', ''FAILED'', ''CANCELLED''})"
proof -
  obtain a where a: "soak_loop cfg start ticks (soak_start startGoro) = Some (SoakSampled a)"
      "r = soak_result cfg startGoro (snd (submitter (so_Tenant cfg) submissions (d, 0))) a f"
    using assms(1,4) by (auto simp: RunSoak_def Let_def split: option.splits soak_end.splits if_splits)
  then obtain js k rest where js: "ticks = js @ k # rest" "start + so_Duration cfg \<le> tk_check k"
      "a = fold (soak_sample cfg start) js (soak_start startGoro)"
    using soak_loop_sampled by blast
  note base = soak_baseline[of cfg start js "soak_start startGoro", folded js(3)]
  have "2 * fi_heap f \<le> 3 * tk_heap j"
    if "find (\<lambda>j. soak_warmup cfg \<le> tk_now j - start) js = Some j" "0 < tk_heap j" for j
    using assms(2) that base heap_growth_bound a(2) by (simp add: soak_green soak_result_def soak_start_def)
  moreover have "sk_Samples r = length js" "\<forall>j \<in> set js. tk_goroutines j \<le> sk_GoroutinesPeak r"
    using soak_samples[of cfg start js "soak_start startGoro"] soak_peak[of "soak_start startGoro" cfg start js] js(3) a(2)
    by (auto simp: soak_result_def soak_start_def Let_def case_prod_unfold)
  moreover have "fi_goroutines f \<le> startGoro + 100" "NonTerminalOlderThan (fi_now f) (so_StuckJobMaxAge cfg) d' \<le> 0"
    using assms(2,3) a(2) by (auto simp: soak_green soak_result_def Let_def case_prod_unfold count_or_zero_def)
  ultimately show ?thesis using js(1,2) NonTerminalOlderThan_zero by blast
qed

definition soak_example_tick :: "time \<Rightarrow> soak_tick" where
  "soak_example_tick t = \<lparr>tk_check = t, tk_done = False, tk_goroutines = 12, tk_stuck = Some 0, tk_now = t, tk_heap = 1000,
     tk_rss = Some [''VmRSS: 2048 kB'']\<rparr>"

definition soak_example_final :: soak_final where
  "soak_example_final = \<lparr>fi_heap = 1400, fi_goroutines = 11, fi_now = 9, fi_stuck_db = Some empty_db, fi_pending_db = None,
     fi_rss_base = None, fi_rss_end = None, fi_elapsed = 9\<rparr>"

definition soak_example_cfg :: SoakConfig where
  "soak_example_cfg = \<lparr>so_Duration = 8, so_Targets = 1, so_Tenant = ''t'', so_Policy = [], so_ArrivalRate = 1,
     so_WarmupFraction = 1 / 4, so_StuckJobMaxAge = 1, so_SampleEvery = 2\<rparr>"

theorem green_soak_is_stable_witness:
  "\<exists>js k rest. map soak_example_tick [2, 4, 6, 8] = js @ k # rest \<and> 8 \<le> tk_check k \<and> length js = 3 \<and>
     fi_goroutines soak_example_final \<le> 10 + 100"
proof -
  let ?r = "soak_result soak_example_cfg 10 0
    \<lparr>ac_baseline = Some (1000, rssKB (Some [''VmRSS: 2048 kB''])), ac_peak = 12, ac_maxStuck = 0, ac_samples = 3\<rparr> soak_example_final"
  have d: "soak_defaults soak_example_cfg = soak_example_cfg" by (simp add: soak_defaults_def soak_example_cfg_def)
  have run: "RunSoak soak_example_cfg 10 0 (map soak_example_tick [2, 4, 6, 8]) [] empty_db soak_example_final = Some (Inr ?r)"
  proof -
    let ?acc = "\<lambda>n. \<lparr>ac_baseline = Some (1000, rssKB (Some [''VmRSS: 2048 kB''])), ac_peak = 12, ac_maxStuck = 0, ac_samples = n\<rparr>"
    have c: "so_Duration soak_example_cfg = 8" "soak_warmup soak_example_cfg = 2" "so_SampleEvery soak_example_cfg = 2"
      by (simp_all add: soak_example_cfg_def soak_warmup_def trunc_def)
    have t: "tk_check (soak_example_tick t) = t" "\<not> tk_done (soak_example_tick t)" for t by (simp_all add: soak_example_tick_def)
    have "soak_sample soak_example_cfg 0 (soak_example_tick 2) (soak_start 10) = ?acc 1"
      by (simp add: soak_sample_def c soak_example_tick_def soak_start_def)
    moreover have "soak_sample soak_example_cfg 0 (soak_example_tick t) (?acc n) = ?acc (Suc n)" for t n
      by (simp add: soak_sample_def soak_example_tick_def)
    ultimately show ?thesis by (simp add: RunSoak_def d c t numeral_3_eq_3)
  qed
  have green: "soak_Violations ?r = []"
    by (simp add: soak_green soak_result_def soak_example_final_def heap_growth_def count_or_zero_def NonTerminalOlderThan_def empty_db_def)
  have s: "sk_Samples ?r = 3" by (simp add: soak_result_def)
  have "fi_stuck_db soak_example_final = Some empty_db" "so_Duration soak_example_cfg = 8"
    by (simp_all add: soak_example_final_def soak_example_cfg_def)
  note f = this
  obtain js k rest where "map soak_example_tick [2, 4, 6, 8] = js @ k # rest" "0 + so_Duration soak_example_cfg \<le> tk_check k"
      "sk_Samples ?r = length js" "fi_goroutines soak_example_final \<le> 10 + 100"
    using green_soak_is_stable[OF run green f(1) d[symmetric]] by blast
  then show ?thesis using s f(2) by (intro exI[of _ js] exI[of _ k] exI[of _ rest]) simp
qed

end
