(* ===== verification/Drivers_Properties.thy ===== *)
theory Drivers_Properties
  imports Drivers_Ops Load_Soak_Properties
begin

text \<open>
  What the drivers of the operational checks promise: beyond what opening the store does a sweep only adds its own
  record, and it is red exactly for the jobs that break an invariant, a required promotion and a release pass exactly when the analysis allows
  it, and the load driver exits cleanly exactly for a run without violations.
\<close>

section \<open>Game days\<close>

text \<open>The jobs of a sweep are jobs of the table, each once.\<close>

lemma ListJobs_ids: "set (map jr_JobID (ListJobs d tenant ph limit off)) \<subseteq> set (job_ids d)"
  by (auto simp: ListJobs_def job_ids_def dest!: in_set_takeD in_set_dropD)

lemma ListJobs_distinct:
  assumes "distinct (job_ids d)"
  shows "distinct (map jr_JobID (ListJobs d tenant ph limit off))"
proof -
  let ?xs = "filter (\<lambda>r. (tenant = [] \<or> jr_Tenant r = tenant) \<and> (ph = [] \<or> phase_str (jr_Phase r) = ph)) (jobs d)"
  have "distinct (map jr_JobID ?xs)" using assms by (simp add: job_ids_def distinct_map_filter)
  then have "distinct (map jr_JobID (sort_key k ?xs))" for k :: "job_record \<Rightarrow> int \<times> string"
    by (simp add: distinct_map)
  then show ?thesis by (simp add: ListJobs_def take_map [symmetric] drop_map [symmetric])
qed

lemma declared_caps_listed:
  assumes "distinct (map jr_JobID js)" and "j \<in> set js"
  shows "declared_caps js (jr_JobID j) = (if declaredShots j > 0 then declaredShots j else 0)"
proof -
  let ?ps = "map (\<lambda>j. (jr_JobID j, declaredShots j)) (filter (\<lambda>j. declaredShots j > 0) js)"
  have d: "distinct (map fst (rev ?ps))" using assms(1) by (simp add: rev_map [symmetric] comp_def distinct_map_filter)
  show ?thesis
  proof (cases "declaredShots j > 0")
    case True
    then have "(jr_JobID j, declaredShots j) \<in> set (rev ?ps)" using assms(2) by auto
    with d True show ?thesis unfolding declared_caps_def by (simp del: set_rev rev_map)
  next
    case False
    have "jr_JobID j \<notin> fst ` set (rev ?ps)"
      using False assms by (auto simp: distinct_map dest: inj_onD)
    then have "map_of (rev ?ps) (jr_JobID j) = None" by (simp only: map_of_eq_None_iff not_False_eq_True)
    with False show ?thesis unfolding declared_caps_def by (simp del: rev_map)
  qed
qed

text \<open>What a job shows of the invariants that a transaction of the control plane may break: no event after a terminal
  one, and no more shots billed than declared.\<close>

definition within_declared :: "db \<Rightarrow> job_record \<Rightarrow> bool" where
  "within_declared d j \<longleftrightarrow> (declaredShots j > 0 \<longrightarrow> ledger_total d (jr_JobID j) ''shots'' \<le> declaredShots j * 1.0000001)"

lemma usageWithinCaps_iff:
  "usageWithinCaps d (map jr_JobID js) caps = [] \<longleftrightarrow>
     (\<forall>j \<in> set js. 0 < caps (jr_JobID j) \<longrightarrow> ledger_total d (jr_JobID j) ''shots'' \<le> caps (jr_JobID j) * 1.0000001)"
  by (induction js) (simp_all add: usageWithinCaps_def Let_def not_less not_le imp_conv_disj)

lemma sweep_decides:
  assumes "reachable d" and js: "js = ListJobs d [] [] n 0"
  shows "CheckAll d (map jr_JobID js) (declared_caps js) = [] \<longleftrightarrow> (\<forall>j \<in> set js. sealed d (jr_JobID j) \<and> within_declared d j)"
proof -
  have inv: "store_inv d" using reachable_ok [OF assms(1)] by (simp add: db_ok_def)
  then have ids: "distinct (job_ids d)" and seqs: "seqs_ok d" by (simp_all add: store_inv_def jobs_ok_def)
  have caps: "declared_caps js (jr_JobID j) = (if declaredShots j > 0 then declaredShots j else 0)" if "j \<in> set js" for j
    using declared_caps_listed [OF _ that] ListJobs_distinct [OF ids] js by simp
  have "usageWithinCaps d (map jr_JobID js) (declared_caps js) = [] \<longleftrightarrow> (\<forall>j \<in> set js. within_declared d j)"
    by (rule trans [OF usageWithinCaps_iff]) (simp add: caps within_declared_def not_less cong: ball_cong)
  moreover have "noJobLost d (map jr_JobID js) = []" using noJobLost_ok [OF inv] ListJobs_ids js by metis
  ultimately show ?thesis
    by (auto simp: CheckAll_def noDuplicateExecution_ok [OF inv] auditGapless_ok [OF inv] terminalImmutable_iff [OF seqs])
qed

text \<open>What a finished sweep wrote and answered.\<close>

lemma runSweep_outcome:
  assumes "runSweep pg record_error started finished ended fl p = ((s', d'), out, err)"
    and "(if sf_target fl = ''fleet0'' then OpenNoMigrate pg started p else Open pg started p) = ((s1, d1), pools, r)"
  shows "(if isl r \<or> sf_limit fl < 0 then d' = d1 \<and> err \<noteq> None \<and> (\<forall>n. err \<noteq> Some (InvariantsRed n))
     else (let js = ListJobs d1 [] [] (nat (sf_limit fl)) 0; vs = CheckAll d1 (map jr_JobID js) (declared_caps js)
           in err = (if vs = [] then None else Some (InvariantsRed (length vs))) \<and>
              (if record_error \<noteq> None then d' = d1 else \<exists>g. d' = RecordGameDay g d1 \<and> gd_Scenario g = ''invariant-sweep'' \<and>
                 gd_Target g = sf_target fl \<and> gd_InvariantsGreen g = (vs = []) \<and> gd_Violations g = int (length vs))))"
  using assms by (auto simp: runSweep_def Let_def split: if_splits sum.splits)


definition demo_flags :: sweep_flags where
  "demo_flags = \<lparr>sf_dsn = ''db'', sf_target = ''compose'', sf_operator = ''op'', sf_note = [], sf_iMeanIt = False, sf_limit = 5000\<rparr>"


section \<open>Verdicts\<close>

text \<open>A release passes the benchmark gate exactly when both files could be read and no headline metric
  regressed or an RFC is named; and a report that requires a promotion passes exactly when the candidate is
  promotable on its own placements of the window.\<close>

theorem gates_pass_iff_allowed:
  "(snd (GateCmd b s t r) = None \<longleftrightarrow>
     (\<exists>base cur. b = Inr base \<and> s (bm_Policy base) = Inr cur \<and> (gate_Check base cur t = [] \<or> rfcPattern r))) \<and>
   (snd (ReportCmd encode rng open_db now env_url fl) = None \<longleftrightarrow>
     (\<exists>u d policy. u \<noteq> [] \<and> open_db u = Inr d \<and> u = (if rf_dsn fl = [] then env_url else rf_dsn fl) \<and>
        (if rf_policy fl = [] then ShadowPolicies d \<noteq> [] \<and> policy = hd (ShadowPolicies d) else policy = rf_policy fl) \<and>
        (rf_requirePromotable fl \<longrightarrow> fst (Promotable (Analyze rng (ShadowPlacementsSince d policy (now - rf_since fl)) (rf_floor fl))))))"
proof
  show "snd (GateCmd b s t r) = None \<longleftrightarrow>
     (\<exists>base cur. b = Inr base \<and> s (bm_Policy base) = Inr cur \<and> (gate_Check base cur t = [] \<or> rfcPattern r))"
    by (auto simp: GateCmd_def Let_def rfcPattern_def CutPrefix_def split: sum.splits if_splits)
  show "snd (ReportCmd encode rng open_db now env_url fl) = None \<longleftrightarrow>
     (\<exists>u d policy. u \<noteq> [] \<and> open_db u = Inr d \<and> u = (if rf_dsn fl = [] then env_url else rf_dsn fl) \<and>
        (if rf_policy fl = [] then ShadowPolicies d \<noteq> [] \<and> policy = hd (ShadowPolicies d) else policy = rf_policy fl) \<and>
        (rf_requirePromotable fl \<longrightarrow> fst (Promotable (Analyze rng (ShadowPlacementsSince d policy (now - rf_since fl)) (rf_floor fl)))))"
    by (auto simp: ReportCmd_def Let_def case_prod_unfold split: sum.splits if_splits)
qed

text \<open>The load driver exits cleanly exactly when the stack booted, the run ended, its report could be written and it has no
  violation, which is what blocks a release otherwise.\<close>

theorem load_exit_code_is_the_verdict:
  "snd (StormCmd open_store boot run write env_url fl) = None \<longleftrightarrow>
     (\<exists>d s res. openStore open_store env_url (tf_dsn fl) = Inr d \<and> boot d (tf_targets fl) = Inr s \<and> run s (storm_config fl) = Inr res \<and>
        storm_Violations res = [] \<and> (tf_out fl = [] \<or> write (tf_out fl) (load_report ''storm'' (storm_json res) []) = None))"
  by (auto simp: StormCmd_def writeReport_def Let_def split: sum.splits option.splits)

end
