(* ===== verification/Conformance.thy ===== *)
theory Conformance
  imports Fake_Adapter
begin

text \<open>
  The conformance suite that certifies adapters (\<open>conformance/conformance.go\<close>, \<open>conformance/report.go\<close>).
  An adapter is a separate process: its client is an argument, a record of the calls over a world \<open>'s\<close>
  that includes the clock. A test is a function on the world and the result of its category; it ends, is
  aborted by \<open>Fatalf\<close>, or crashes on an index panic, and \<open>None\<close> is a test that does not return. The
  texts of failures print library messages, so a failure is a constructor with the values it prints.
\<close>

section \<open>Adapters as clients\<close>

datatype recv = Received WireStatus | RecvEOF | RecvErr status

text \<open>\<open>cl_Recv\<close> is \<open>None\<close> if it blocks forever.\<close>

record ('s, 'w) conf_client =
  cl_Now :: "'s \<Rightarrow> time"
  cl_Sleep :: "duration \<Rightarrow> 's \<Rightarrow> 's"
  cl_GetCapabilities :: "string \<Rightarrow> 's \<Rightarrow> 's \<times> (status + WireCapabilities)"
  cl_SubmitTask :: "SubmitTaskRequest \<Rightarrow> 's \<Rightarrow> 's \<times> (status + TaskRef)"
  cl_GetTask :: "TaskRef \<Rightarrow> 's \<Rightarrow> 's \<times> (status + WireStatus)"
  cl_WatchTask :: "TaskRef \<Rightarrow> 's \<Rightarrow> 's \<times> (status + 'w)"
  cl_Recv :: "'w \<Rightarrow> 's \<Rightarrow> ('s \<times> 'w \<times> recv) option"
  cl_CancelTask :: "TaskRef \<Rightarrow> 's \<Rightarrow> 's \<times> (status + bool)"
  cl_GetDeviceState :: "string \<Rightarrow> 's \<Rightarrow> 's \<times> (status + WireDeviceState)"
  cl_OpenSession :: "string \<Rightarrow> duration \<Rightarrow> 's \<Rightarrow> 's \<times> (status + WireSessionHandle)"
  cl_CloseSession :: "WireSessionHandle \<Rightarrow> 's \<Rightarrow> 's \<times> (status + unit)"

record Suite =
  su_TargetID :: string
  su_Caps :: WireCapabilities
  su_KeyPrefix :: string
  su_TaskTimeout :: duration

section \<open>Recording\<close>

datatype failure =
    EmptyTechnology | NoFormats | NoBillingUnits | ValidRejected status | ValidNotSucceeded WireStatus
  | InvalidAccepted task_state string | MaxShotsIgnored task_state
  | GetTaskFailed status | NeverTerminal string | SubmitFailed status | WatchFailed status | RecvFailed status
  | UnknownState task_state | StateBackwards task_state int | UpdatedBackwards time time | WatchEmpty
  | PollDisagrees task_state task_state
  | DistinctTasks nat nat | IdempotentFailed WireStatus | UnitRepeated string nat
  | CancelFailed status | CancelRefused | NotCancelled task_state | UsageAfterCancel "UsageRecord list" | NotConverged
  | DeviceStateFailed status | NoSnapshotId | NoMeasuredAt | NoSource | NoMetrics | NoMethodology string
  | NoMetricName | SnapshotChanged string string
  | UsageProbeFailed WireStatus | NoUsage | UndeclaredUnit string | ZeroUsage float64 string | NoRecordedAt
  | BadProgramCategory string string | BadFormatCategory string | BareCategory | UnknownTargetCode "grpc_code option"
  | OpenSessionFailed status | HandleIncomplete WireSessionHandle | InSessionSubmitFailed status
  | InSessionNotSucceeded WireStatus | CloseSessionFailed status | AfterCloseAccepted task_state string
  | UnknownSessionAccepted task_state string | SessionsNotRefused "grpc_code option"

record CategoryResult =
  cr_Name :: string
  cr_Passed :: bool
  cr_Failures :: "failure list"
  cr_Logs :: "string list"

datatype 'a outcome = Done 'a | Aborted | Crashed

type_synonym ('s, 'a) test = "'s \<times> CategoryResult \<Rightarrow> ('s \<times> CategoryResult \<times> 'a outcome) option"

definition t_return :: "'a \<Rightarrow> ('s, 'a) test" where
  "t_return x st = Some (fst st, snd st, Done x)"

definition t_bind :: "('s, 'a) test \<Rightarrow> ('a \<Rightarrow> ('s, 'b) test) \<Rightarrow> ('s, 'b) test" where
  "t_bind m k st = (case m st of
     None \<Rightarrow> None
   | Some (w, c, r) \<Rightarrow> (case r of Done x \<Rightarrow> k x (w, c) | Aborted \<Rightarrow> Some (w, c, Aborted) | Crashed \<Rightarrow> Some (w, c, Crashed)))"

definition record_failure :: "failure \<Rightarrow> CategoryResult \<Rightarrow> CategoryResult" where
  "record_failure e c = c\<lparr>cr_Passed := False, cr_Failures := cr_Failures c @ [e]\<rparr>"

definition t_Fatalf :: "failure \<Rightarrow> ('s, 'a) test" where
  "t_Fatalf e st = Some (fst st, record_failure e (snd st), Aborted)"

definition t_Errorf :: "failure \<Rightarrow> ('s, unit) test" where
  "t_Errorf e st = Some (fst st, record_failure e (snd st), Done ())"

definition t_Logf :: "string \<Rightarrow> ('s, unit) test" where
  "t_Logf l st = Some (fst st, (snd st)\<lparr>cr_Logs := cr_Logs (snd st) @ [l]\<rparr>, Done ())"

definition t_crash :: "('s, 'a) test" where
  "t_crash st = Some (fst st, snd st, Crashed)"

definition t_when :: "bool \<Rightarrow> ('s, unit) test \<Rightarrow> ('s, unit) test" where
  "t_when b m = (if b then m else t_return ())"

text \<open>A call of the client, or a sleep, changes the world.\<close>

definition t_call :: "('s \<Rightarrow> 's \<times> 'a) \<Rightarrow> ('s, 'a) test" where
  "t_call f st = (case f (fst st) of (w, x) \<Rightarrow> Some (w, snd st, Done x))"

definition t_sleep :: "('s, 'w) conf_client \<Rightarrow> duration \<Rightarrow> ('s, unit) test" where
  "t_sleep cl d st = Some (cl_Sleep cl d (fst st), snd st, Done ())"

text \<open>A call whose error aborts the category.\<close>

definition t_must :: "(status \<Rightarrow> failure) \<Rightarrow> ('s \<Rightarrow> 's \<times> (status + 'a)) \<Rightarrow> ('s, 'a) test" where
  "t_must err f = t_bind (t_call f) (\<lambda>r. case r of Inl e \<Rightarrow> t_Fatalf (err e) | Inr x \<Rightarrow> t_return x)"

fun t_each :: "('a \<Rightarrow> ('s, unit) test) \<Rightarrow> 'a list \<Rightarrow> ('s, unit) test" where
  "t_each f [] = t_return ()"
| "t_each f (x # xs) = t_bind (f x) (\<lambda>_. t_each f xs)"

section \<open>Programs and helpers\<close>

definition qasm_lines :: "string list \<Rightarrow> string" where
  "qasm_lines ls = concat (map (\<lambda>l. l @ [CHR 0x0A]) ls)"

definition validQASM :: string where
  "validQASM = qasm_lines [[], ''OPENQASM 3.0;'', ''include \"stdgates.inc\";'', ''qubit[2] q;'', ''bit[2] c;'',
     ''h q[0];'', ''cx q[0], q[1];'', ''c = measure q;'']"

definition invalidQASM :: string where
  "invalidQASM = ''OPENQASM 3.0; definitely not a program;''"

definition delayParam :: string where
  "delayParam = ''rabi.sim/delay-ms''"

definition Dial :: "('s, 'w) conf_client \<Rightarrow> string \<Rightarrow> 's \<Rightarrow> 's \<times> (status + Suite)" where
  "Dial cl targetID w = (case cl_GetCapabilities cl targetID w of
     (w1, Inl (gc, text)) \<Rightarrow> (w1, Inl (gc, ''GetCapabilities('' @ targetID @ ''): '' @ text))
   | (w1, Inr caps) \<Rightarrow> (w1, Inr \<lparr>su_TargetID = targetID, su_Caps = caps,
       su_KeyPrefix = ''conf-'' @ itoa_int (wrap64 (cl_Now cl w1)) @ ''-'', su_TaskTimeout = 0\<rparr>))"

definition submit_request_in ::
  "Suite \<Rightarrow> string \<Rightarrow> string \<Rightarrow> string \<Rightarrow> 64 word \<Rightarrow> string \<Rightarrow> (string \<times> string) list \<Rightarrow> SubmitTaskRequest" where
  "submit_request_in su key format program shots session params =
     \<lparr>sq_TargetId = su_TargetID su, sq_IdempotencyKey = su_KeyPrefix su @ key, sq_Format = format, sq_Inline = program,
      sq_Shots = shots, sq_SessionId = session, sq_Parameters = params\<rparr>"

definition submit ::
  "('s, 'w) conf_client \<Rightarrow> Suite \<Rightarrow> string \<Rightarrow> string \<Rightarrow> string \<Rightarrow> 64 word \<Rightarrow> (string \<times> string) list \<Rightarrow>
   's \<Rightarrow> 's \<times> (status + TaskRef)" where
  "submit cl su key format program shots params = cl_SubmitTask cl (submit_request_in su key format program shots [] params)"

definition task_timeout :: "Suite \<Rightarrow> duration" where
  "task_timeout su = (if su_TaskTimeout su \<le> 0 then 60 * 1000000000 else su_TaskTimeout su)"

partial_function (option) await_loop ::
  "('s, 'w) conf_client \<Rightarrow> time \<Rightarrow> TaskRef \<Rightarrow> ('s, WireStatus) test" where
  "await_loop cl deadline ref st =
     (if cl_Now cl (fst st) < deadline
      then (case cl_GetTask cl ref (fst st) of (w, r) \<Rightarrow>
              (case r of
                 Inl e \<Rightarrow> t_Fatalf (GetTaskFailed e) (w, snd st)
               | Inr s \<Rightarrow> if isTerminalState (ws_State s) then Some (w, snd st, Done s)
                          else await_loop cl deadline ref (cl_Sleep cl 100000000 w, snd st)))
      else t_Fatalf (NeverTerminal (rf_TaskId ref)) st)"

definition awaitTerminal :: "('s, 'w) conf_client \<Rightarrow> Suite \<Rightarrow> TaskRef \<Rightarrow> ('s, WireStatus) test" where
  "awaitTerminal cl su ref st = await_loop cl (cl_Now cl (fst st) + task_timeout su) ref st"

definition technologyRegistry :: "string list" where
  "technologyRegistry = [''superconducting'', ''trapped-ion'', ''neutral-atom'', ''photonic'', ''annealer'',
     ''spin-semiconductor'', ''nv-center'', ''simulator'']"

definition error_category :: "WireStatus \<Rightarrow> string" where
  "error_category s = (case ws_Error s of None \<Rightarrow> ''CATEGORY_UNSPECIFIED'' | Some e \<Rightarrow> ed_Category e)"

definition error_message :: "WireStatus \<Rightarrow> string" where
  "error_message s = (case ws_Error s of None \<Rightarrow> [] | Some e \<Rightarrow> ed_VendorMessage e)"

text \<open>\<open>s.Caps.GetProgramFormats()[0]\<close>, which panics on an empty list.\<close>

definition first_format :: "Suite \<Rightarrow> ('s, string) test" where
  "first_format su = (case ca_ProgramFormats (su_Caps su) of [] \<Rightarrow> t_crash | f # _ \<Rightarrow> t_return f)"

text \<open>A submission that may be refused; otherwise the check runs on its final status.\<close>

definition check_if_accepted ::
  "('s, 'w) conf_client \<Rightarrow> Suite \<Rightarrow> ('s \<Rightarrow> 's \<times> (status + TaskRef)) \<Rightarrow> (WireStatus \<Rightarrow> ('s, unit) test) \<Rightarrow> ('s, unit) test" where
  "check_if_accepted cl su f check =
     t_bind (t_call f) (\<lambda>r. case r of
       Inl _ \<Rightarrow> t_return ()
     | Inr h \<Rightarrow> t_bind (awaitTerminal cl su h) check)"

section \<open>Categories\<close>

text \<open>The three parts of category 1 after the technology check.\<close>

definition check_technology :: "Suite \<Rightarrow> ('s, unit) test" where
  "check_technology su = (let tech = ti_Technology (ca_Target (su_Caps su)) in
     if tech = [] then t_Errorf EmptyTechnology
     else if tech \<notin> set technologyRegistry
     then t_Logf (''warning: technology '' @ quote tech @ '' is not in the spec registry (novel strings SHOULD be proposed upstream)'')
     else t_return ())"

definition CapabilityHonesty :: "('s, 'w) conf_client \<Rightarrow> Suite \<Rightarrow> ('s, unit) test" where
  "CapabilityHonesty cl su =
     t_bind (check_technology su) (\<lambda>_.
     case ca_ProgramFormats (su_Caps su) of
       [] \<Rightarrow> t_Fatalf NoFormats
     | format # _ \<Rightarrow>
         if ca_BillingUnits (su_Caps su) = [] then t_Fatalf NoBillingUnits
         else
           t_bind (t_must ValidRejected (submit cl su ''cap-valid'' format validQASM 100 [])) (\<lambda>h.
           t_bind (awaitTerminal cl su h) (\<lambda>s.
           if ws_State s \<noteq> TSSucceeded then t_Fatalf (ValidNotSucceeded s)
           else
             t_bind (check_if_accepted cl su (submit cl su ''cap-invalid'' format invalidQASM 100 []) (\<lambda>s.
               t_when (ws_State s \<noteq> TSFailed \<or> error_category s \<noteq> ''INVALID_PROGRAM'')
                 (t_Errorf (InvalidAccepted (ws_State s) (error_category s))))) (\<lambda>_.
             if ca_MaxShots (su_Caps su) > 0
             then check_if_accepted cl su
                    (submit cl su ''cap-shots'' format validQASM (of_nat (ca_MaxShots (su_Caps su)) + 1) [])
                    (\<lambda>s. t_when (ws_State s \<noteq> TSFailed) (t_Errorf (MaxShotsIgnored (ws_State s))))
             else t_return ()))))"

definition rank :: "task_state \<Rightarrow> int option" where
  "rank s = (case s of TSUnspecified \<Rightarrow> None | TSQueued \<Rightarrow> Some 0 | TSRunning \<Rightarrow> Some 1 | _ \<Rightarrow> Some 2)"

definition check_order :: "task_state \<Rightarrow> int \<Rightarrow> int \<Rightarrow> time \<Rightarrow> time \<Rightarrow> CategoryResult \<Rightarrow> CategoryResult" where
  "check_order s r prev ts prevTS c =
     (let c1 = (if r < prev then record_failure (StateBackwards s prev) c else c)
      in if ts < prevTS then record_failure (UpdatedBackwards ts prevTS) c1 else c1)"

partial_function (option) watch_loop ::
  "('s, 'w) conf_client \<Rightarrow> 'w \<Rightarrow> int \<Rightarrow> time \<Rightarrow> WireStatus option \<Rightarrow> ('s, WireStatus option) test" where
  "watch_loop cl stream prev prevTS final st =
     (case cl_Recv cl stream (fst st) of
        None \<Rightarrow> None
      | Some (w, stream', m) \<Rightarrow>
          (case m of
             RecvEOF \<Rightarrow> Some (w, snd st, Done final)
           | RecvErr e \<Rightarrow> t_Fatalf (RecvFailed e) (w, snd st)
           | Received s \<Rightarrow>
               (case rank (ws_State s) of
                  None \<Rightarrow> t_Fatalf (UnknownState (ws_State s)) (w, snd st)
                | Some r \<Rightarrow>
                    (let c = check_order (ws_State s) r prev (ws_UpdatedAt s) prevTS (snd st)
                     in if r = 2 then Some (w, c, Done (Some s))
                        else watch_loop cl stream' r (ws_UpdatedAt s) (Some s) (w, c)))))"

definition poll_once :: "('s, 'w) conf_client \<Rightarrow> TaskRef \<Rightarrow> WireStatus \<Rightarrow> ('s, unit) test" where
  "poll_once cl h final =
     t_bind (t_must GetTaskFailed (cl_GetTask cl h)) (\<lambda>p.
     t_bind (t_when (ws_State p \<noteq> ws_State final) (t_Errorf (PollDisagrees (ws_State p) (ws_State final)))) (\<lambda>_.
     t_sleep cl 50000000))"

definition StateMachine :: "('s, 'w) conf_client \<Rightarrow> Suite \<Rightarrow> ('s, unit) test" where
  "StateMachine cl su =
     t_bind (first_format su) (\<lambda>format.
     t_bind (t_must SubmitFailed (submit cl su ''fsm'' format validQASM 200 [(delayParam, ''300'')])) (\<lambda>h.
     t_bind (t_must WatchFailed (cl_WatchTask cl h)) (\<lambda>stream.
     t_bind (watch_loop cl stream (-1) zero_time None) (\<lambda>final.
     case final of
       None \<Rightarrow> t_Fatalf WatchEmpty
     | Some s \<Rightarrow> t_each (\<lambda>_. poll_once cl h s) [1, 2, (3::nat)]))))"

text \<open>The requests of category 3 are equal, so every order in which the adapter serves the concurrent
  submissions is the same sequence of calls.\<close>

definition idem_submissions :: nat where
  "idem_submissions = 1000"

fun submit_many :: "nat \<Rightarrow> ('s \<Rightarrow> 's \<times> (status + TaskRef)) \<Rightarrow> string list \<Rightarrow> ('s, string list) test" where
  "submit_many 0 f ids = t_return ids"
| "submit_many (Suc n) f ids =
     t_bind (t_call f) (\<lambda>r. case r of
       Inl e \<Rightarrow> t_bind (t_Errorf (SubmitFailed e)) (\<lambda>_. submit_many n f ids)
     | Inr h \<Rightarrow> submit_many n f (ids @ [rf_TaskId h]))"

definition Idempotency :: "('s, 'w) conf_client \<Rightarrow> Suite \<Rightarrow> ('s, unit) test" where
  "Idempotency cl su =
     t_bind (first_format su) (\<lambda>format.
     t_bind (submit_many idem_submissions (submit cl su ''idem'' format validQASM 100 []) []) (\<lambda>ids.
     let distinct = remdups ids in
     if length distinct \<noteq> 1 then t_Fatalf (DistinctTasks idem_submissions (length distinct))
     else
       t_bind (awaitTerminal cl su \<lparr>rf_TargetId = su_TargetID su, rf_TaskId = last ids\<rparr>) (\<lambda>s.
       if ws_State s \<noteq> TSSucceeded then t_Fatalf (IdempotentFailed s)
       else (let units = map ur_Unit (ws_Usage s) in
         t_each (\<lambda>u. t_when (count_list units u \<noteq> 1) (t_Errorf (UnitRepeated u (count_list units u)))) (remdups units)))))"

definition Cancellation :: "('s, 'w) conf_client \<Rightarrow> Suite \<Rightarrow> ('s, unit) test" where
  "Cancellation cl su =
     t_bind (first_format su) (\<lambda>format.
     t_bind (t_must SubmitFailed (submit cl su ''cancel-slow'' format validQASM 100 [(delayParam, ''1500'')])) (\<lambda>slow.
     t_bind (t_must SubmitFailed (submit cl su ''cancel-queued'' format validQASM 100 [])) (\<lambda>queued.
     t_bind (t_must CancelFailed (cl_CancelTask cl queued)) (\<lambda>accepted.
     if \<not> accepted then t_Fatalf CancelRefused
     else
       t_bind (awaitTerminal cl su queued) (\<lambda>s.
       t_bind (t_when (ws_State s \<noteq> TSCancelled) (t_Errorf (NotCancelled (ws_State s)))) (\<lambda>_.
       t_bind (t_when (ws_Usage s \<noteq> []) (t_Errorf (UsageAfterCancel (ws_Usage s)))) (\<lambda>_.
       t_bind (awaitTerminal cl su slow) (\<lambda>s.
       t_when (ws_State s = TSQueued) (t_Errorf NotConverged)))))))))"

definition check_metric :: "WireMetric \<Rightarrow> ('s, unit) test" where
  "check_metric m =
     t_bind (t_when (mt_Methodology m = []) (t_Errorf (NoMethodology (mt_Name m)))) (\<lambda>_.
     t_when (mt_Name m = []) (t_Errorf NoMetricName))"

definition Provenance :: "('s, 'w) conf_client \<Rightarrow> Suite \<Rightarrow> ('s, unit) test" where
  "Provenance cl su =
     t_bind (t_must DeviceStateFailed (cl_GetDeviceState cl (su_TargetID su))) (\<lambda>state1.
     let cal = wd_Calibration state1 in
     if cb_SnapshotId cal = [] then t_Fatalf NoSnapshotId
     else
       t_bind (t_when (cb_MeasuredAt cal = None) (t_Errorf NoMeasuredAt)) (\<lambda>_.
       t_bind (t_when (cb_Source cal = []) (t_Errorf NoSource)) (\<lambda>_.
       if cb_Metrics cal = [] then t_Fatalf NoMetrics
       else
         t_bind (t_each check_metric (cb_Metrics cal)) (\<lambda>_.
         t_bind (t_must DeviceStateFailed (cl_GetDeviceState cl (su_TargetID su))) (\<lambda>state2.
         t_when (cb_SnapshotId (wd_Calibration state2) \<noteq> cb_SnapshotId cal)
           (t_Errorf (SnapshotChanged (cb_SnapshotId cal) (cb_SnapshotId (wd_Calibration state2)))))))))"

definition check_usage :: "string list \<Rightarrow> UsageRecord \<Rightarrow> ('s, unit) test" where
  "check_usage declared u =
     t_bind (t_when (ur_Unit u \<notin> set declared) (t_Errorf (UndeclaredUnit (ur_Unit u)))) (\<lambda>_.
     t_bind (t_when (ur_Amount u \<le> 0) (t_Errorf (ZeroUsage (ur_Amount u) (ur_Unit u)))) (\<lambda>_.
     t_when (ur_RecordedAt u = None) (t_Errorf NoRecordedAt)))"

definition Usage :: "('s, 'w) conf_client \<Rightarrow> Suite \<Rightarrow> ('s, unit) test" where
  "Usage cl su =
     t_bind (first_format su) (\<lambda>format.
     t_bind (t_must SubmitFailed (submit cl su ''usage'' format validQASM 321 [])) (\<lambda>h.
     t_bind (awaitTerminal cl su h) (\<lambda>s.
     if ws_State s \<noteq> TSSucceeded then t_Fatalf (UsageProbeFailed s)
     else if ws_Usage s = [] then t_Fatalf NoUsage
     else t_each (check_usage (ca_BillingUnits (su_Caps su))) (ws_Usage s))))"

definition error_code :: "status + 'a \<Rightarrow> grpc_code option" where
  "error_code r = (case r of Inl e \<Rightarrow> Some (fst e) | Inr _ \<Rightarrow> None)"

definition ErrorTaxonomy :: "('s, 'w) conf_client \<Rightarrow> Suite \<Rightarrow> ('s, unit) test" where
  "ErrorTaxonomy cl su =
     t_bind (first_format su) (\<lambda>format.
     t_bind (check_if_accepted cl su (submit cl su ''tax-bad'' format invalidQASM 100 []) (\<lambda>s.
       t_when (error_category s \<noteq> ''INVALID_PROGRAM'')
         (t_Errorf (BadProgramCategory (error_category s) (error_message s))))) (\<lambda>_.
     t_bind (check_if_accepted cl su (submit cl su ''tax-format'' ''no-such-format'' validQASM 100 []) (\<lambda>s.
       t_bind (t_when (error_category s \<noteq> ''CAPABILITY_MISMATCH'' \<and> error_category s \<noteq> ''INVALID_PROGRAM'')
         (t_Errorf (BadFormatCategory (error_category s)))) (\<lambda>_.
       t_when (error_category s = ''CATEGORY_UNSPECIFIED'') (t_Errorf BareCategory)))) (\<lambda>_.
     t_bind (t_call (cl_GetDeviceState cl ''no-such-target'')) (\<lambda>r.
     t_when (error_code r \<noteq> Some NotFound) (t_Errorf (UnknownTargetCode (error_code r)))))))"

text \<open>A submission in a session the adapter has to treat as lost.\<close>

definition check_lost_session ::
  "('s, 'w) conf_client \<Rightarrow> Suite \<Rightarrow> string \<Rightarrow> string \<Rightarrow> string \<Rightarrow> (task_state \<Rightarrow> string \<Rightarrow> failure) \<Rightarrow> ('s, unit) test" where
  "check_lost_session cl su key format session err =
     check_if_accepted cl su (cl_SubmitTask cl (submit_request_in su key format validQASM 100 session [])) (\<lambda>s.
       t_when (ws_State s \<noteq> TSFailed \<or> error_category s \<noteq> ''SESSION_LOST'')
         (t_Errorf (err (ws_State s) (error_category s))))"

definition Sessions :: "('s, 'w) conf_client \<Rightarrow> Suite \<Rightarrow> ('s, unit) test" where
  "Sessions cl su =
     t_bind (t_must OpenSessionFailed (cl_OpenSession cl (su_TargetID su) (5 * 60 * 1000000000))) (\<lambda>handle.
     if wh_SessionId handle = [] \<or> wh_ExpiresAt handle = None then t_Fatalf (HandleIncomplete handle)
     else
       t_bind (first_format su) (\<lambda>format.
       t_bind (t_must InSessionSubmitFailed (cl_SubmitTask cl
         (submit_request_in su ''sess-live'' format validQASM 100 (wh_SessionId handle) []))) (\<lambda>h.
       t_bind (awaitTerminal cl su h) (\<lambda>s.
       if ws_State s \<noteq> TSSucceeded then t_Fatalf (InSessionNotSucceeded s)
       else
         t_bind (t_must CloseSessionFailed (cl_CloseSession cl handle)) (\<lambda>_.
         t_bind (check_lost_session cl su ''sess-dead'' format (wh_SessionId handle) AfterCloseAccepted) (\<lambda>_.
         check_lost_session cl su ''sess-ghost'' format ''no-such-session'' UnknownSessionAccepted))))))"

definition SessionsUndeclared :: "('s, 'w) conf_client \<Rightarrow> Suite \<Rightarrow> ('s, unit) test" where
  "SessionsUndeclared cl su =
     t_bind (t_call (cl_OpenSession cl (su_TargetID su) 0)) (\<lambda>r.
     t_when (error_code r \<noteq> Some Unimplemented) (t_Errorf (SessionsNotRefused (error_code r))))"


section \<open>A certification run\<close>

text \<open>A panic other than \<open>Fatalf\<close> passes through the recorder and ends the program.\<close>

datatype 'a run = Finished 'a | Panicked

definition Recorder_Run ::
  "string \<Rightarrow> ('s, unit) test \<Rightarrow> 's \<times> CategoryResult list \<Rightarrow> ('s \<times> CategoryResult list) run option" where
  "Recorder_Run name f st =
     (case f (fst st, \<lparr>cr_Name = name, cr_Passed = True, cr_Failures = [], cr_Logs = []\<rparr>) of
        None \<Rightarrow> None
      | Some (w, c, r) \<Rightarrow> Some (if r = Crashed then Panicked else Finished (w, snd st @ [c])))"

fun run_categories ::
  "(string \<times> ('s, unit) test) list \<Rightarrow> 's \<times> CategoryResult list \<Rightarrow> ('s \<times> CategoryResult list) run option" where
  "run_categories [] st = Some (Finished st)"
| "run_categories ((name, f) # cs) st = (case Recorder_Run name f st of
     None \<Rightarrow> None
   | Some Panicked \<Rightarrow> Some Panicked
   | Some (Finished st') \<Rightarrow> run_categories cs st')"

definition suite_categories :: "('s, 'w) conf_client \<Rightarrow> Suite \<Rightarrow> (string \<times> ('s, unit) test) list" where
  "suite_categories cl su =
     [(''cat1-capability-honesty'', CapabilityHonesty cl su),
      (''cat2-state-machine'', StateMachine cl su),
      (''cat3-idempotency'', Idempotency cl su)] @
     (if ca_Cancellation (su_Caps su) then [(''cat4-cancellation'', Cancellation cl su)] else []) @
     [(''cat5-provenance'', Provenance cl su),
      (''cat6-usage'', Usage cl su),
      (''cat7-error-taxonomy'', ErrorTaxonomy cl su),
      (if ca_Sessions (su_Caps su) then (''cat8-sessions'', Sessions cl su)
       else (''cat8-sessions-undeclared'', SessionsUndeclared cl su))]"

definition Suite_Run ::
  "('s, 'w) conf_client \<Rightarrow> Suite \<Rightarrow> 's \<Rightarrow> ('s \<times> CategoryResult list) run option" where
  "Suite_Run cl su w = run_categories (suite_categories cl su) (w, [])"

fun Recorder_Passed :: "CategoryResult list \<Rightarrow> bool" where
  "Recorder_Passed [] = True"
| "Recorder_Passed (c # cs) = (if \<not> cr_Passed c then False else Recorder_Passed cs)"

section \<open>The report\<close>

definition SpecVersion :: string where
  "SpecVersion = ''v0.2''"

record Report =
  rp_HarnessVersion :: string
  rp_SpecVersion :: string
  rp_GeneratedAt :: time
  rp_AdapterAddr :: string
  rp_TargetID :: string
  rp_Capabilities :: obj
  rp_Categories :: "CategoryResult list"
  rp_Passed :: bool
  rp_Notes :: "string list"

definition BuildReport ::
  "string \<Rightarrow> string \<Rightarrow> Suite \<Rightarrow> CategoryResult list \<Rightarrow> time \<Rightarrow> string list \<Rightarrow> Report" where
  "BuildReport harnessVersion addr su cats generatedAt notes =
     (let caps = su_Caps su; target = ca_Target caps in
      \<lparr>rp_HarnessVersion = harnessVersion, rp_SpecVersion = SpecVersion, rp_GeneratedAt = generatedAt,
       rp_AdapterAddr = addr, rp_TargetID = su_TargetID su,
       rp_Capabilities =
         [(''numQubits'', JNum (real (ca_NumQubits caps))),
          (''programFormats'', JArr (map JStr (ca_ProgramFormats caps))),
          (''maxShots'', JNum (real (ca_MaxShots caps))),
          (''sessions'', JBool (ca_Sessions caps)),
          (''cancellation'', JBool (ca_Cancellation caps)),
          (''billingUnits'', JArr (map JStr (ca_BillingUnits caps))),
          (''technology'', JStr (ti_Technology target)),
          (''cloudQueue'', JBool (ca_CloudQueue caps)),
          (''vendor'', JStr (ti_Vendor target)),
          (''modality'', JStr (ti_Modality target)),
          (''simulator'', JBool (ti_Simulator target))],
       rp_Categories = cats, rp_Passed = Recorder_Passed cats, rp_Notes = notes\<rparr>)"

text \<open>\<open>Sign\<close> and \<open>Verify\<close> over the canonical JSON, with the encoder and ed25519 as arguments.\<close>

definition Sign :: "(Report \<Rightarrow> string + string) \<Rightarrow> ('k \<Rightarrow> string \<Rightarrow> string) \<Rightarrow> 'k \<Rightarrow> Report \<Rightarrow> string + string" where
  "Sign canonicalJSON ed_sign key r = (case canonicalJSON r of Inl e \<Rightarrow> Inl e | Inr doc \<Rightarrow> Inr (ed_sign key doc))"

definition Verify :: "(Report \<Rightarrow> string + string) \<Rightarrow> ('p \<Rightarrow> string \<Rightarrow> string \<Rightarrow> bool) \<Rightarrow> 'p \<Rightarrow> string \<Rightarrow> Report \<Rightarrow> bool" where
  "Verify canonicalJSON ed_verify pub sig r =
     (case canonicalJSON r of Inl _ \<Rightarrow> False | Inr doc \<Rightarrow> ed_verify pub doc sig)"

definition newline :: string where
  "newline = [CHR 0x0A]"

definition category_row :: "CategoryResult \<Rightarrow> string" where
  "category_row c = ''| '' @ cr_Name c @ '' | '' @ (if cr_Passed c then ''pass'' else ''**FAIL**'') @ '' |'' @ newline"

definition category_section :: "(failure \<Rightarrow> string) \<Rightarrow> CategoryResult \<Rightarrow> string" where
  "category_section failure_text c =
     (if cr_Failures c = [] \<and> cr_Logs c = [] then []
      else newline @ ''## '' @ cr_Name c @ newline @
        concat (map (\<lambda>f. ''- FAIL: '' @ failure_text f @ newline) (cr_Failures c)) @
        concat (map (\<lambda>l. ''- log: '' @ l @ newline) (cr_Logs c)))"

definition Markdown :: "(failure \<Rightarrow> string) \<Rightarrow> Report \<Rightarrow> string" where
  "Markdown failure_text r =
     ''# Rabi adapter conformance report '' @ [CHR 0xE2, CHR 0x80, CHR 0x94] @ '' '' @
     (if rp_Passed r then ''PASSED'' else ''FAILED'') @ newline @ newline @
     ''- Harness: '' @ rp_HarnessVersion r @ '' (spec '' @ rp_SpecVersion r @ '')'' @ newline @
     ''- Generated: '' @ fmt_RFC3339 (rp_GeneratedAt r) @ newline @
     ''- Adapter: '' @ rp_AdapterAddr r @ newline @ ''- Target: '' @ rp_TargetID r @ newline @
     concat (map (\<lambda>n. ''- Note: '' @ n @ newline) (rp_Notes r)) @
     newline @ ''| Category | Result |'' @ newline @ ''|---|---|'' @ newline @
     concat (map category_row (rp_Categories r)) @ concat (map (category_section failure_text) (rp_Categories r))"

end
