(* ===== verification/Fake_Properties.thy ===== *)
theory Fake_Properties
  imports Fake_Adapter
begin

text \<open>
  The fake adapter under every interleaving of requests and goroutines: goroutines never hit a nil
  task, submission is idempotent, tasks move forward through their states and terminal statuses do not
  change, retention is bounded, and what a submission decided is how its task ends. The prompt schedule
  \<open>settle\<close>, in which each goroutine runs when its sleep ends, is a run of the step relation in which
  every task is finished after two delays.
\<close>

declare restrict_fun_upd [simp del] fun_upd_restrict [simp del]

section \<open>The step relation\<close>

inductive fake_step :: "time \<times> Fake \<Rightarrow> time \<times> Fake \<Rightarrow> bool" where
  tick: "0 \<le> d \<Longrightarrow> fake_step (t, f) (t + d, f)"
| run: "p \<in> set (fk_procs f) \<Longrightarrow> av_wake p \<le> t \<Longrightarrow> advance t p f = Some f' \<Longrightarrow> fake_step (t, f) (t, f')"
| submit: "SubmitTask t req f = (f', r) \<Longrightarrow> fake_step (t, f) (t, f')"
| cancel: "CancelTask i f = (f', r') \<Longrightarrow> fake_step (t, f) (t, f')"
| open_session: "OpenSession t target m f = (f', r'') \<Longrightarrow> fake_step (t, f) (t, f')"
| close_session: "fake_step (t, f) (t, fake_CloseSession h f)"
| add_session: "fake_step (t, f) (t, AddSession i f)"
| garbage: "fake_step (t, f) (t, SetGarbage b f)"

section \<open>The invariant\<close>

definition finished :: "fake_task \<Rightarrow> bool" where
  "finished t = isTerminalState (ws_State (ft_status t))"

definition live_proc :: "advance_proc \<Rightarrow> fake_task \<Rightarrow> bool" where
  "live_proc p t \<longleftrightarrow> ws_State (ft_status t) = (if av_second p then TSRunning else TSQueued) \<and>
     av_wake p = ws_UpdatedAt (ft_status t) + sleep_time (sp_StepDelay (av_spec p))"

text \<open>A status has what its state promises.\<close>

definition status_ok :: "WireStatus \<Rightarrow> bool" where
  "status_ok s \<longleftrightarrow> (case ws_State s of
     TSUnspecified \<Rightarrow> False
   | TSSucceeded \<Rightarrow> ws_Result s \<noteq> None \<and> ws_Usage s \<noteq> [] \<and> ws_Error s = None
   | TSFailed \<Rightarrow> ws_Result s = None \<and> ws_Usage s = [] \<and> ws_Error s \<noteq> None
   | _ \<Rightarrow> ws_Result s = None \<and> ws_Usage s = [] \<and> ws_Error s = None)"

definition task_id :: "nat \<Rightarrow> string" where
  "task_id n = ''fake-task-'' @ itoa n"

definition keys_ok :: "(string \<Rightarrow> fake_task option) \<Rightarrow> (string \<Rightarrow> string option) \<Rightarrow> bool" where
  "keys_ok tsk bk \<longleftrightarrow> (\<forall>k i. bk k = Some i \<longleftrightarrow> (\<exists>t. tsk i = Some t \<and> ft_key t = k))"

definition procs_ok :: "(string \<Rightarrow> fake_task option) \<Rightarrow> advance_proc list \<Rightarrow> bool" where
  "procs_ok tsk ps \<longleftrightarrow> distinct (map av_id ps) \<and>
     (\<forall>p \<in> set ps. \<exists>t. tsk (av_id p) = Some t \<and> live_proc p t) \<and>
     (\<forall>i t. tsk i = Some t \<longrightarrow> finished t \<or> i \<in> av_id ` set ps)"

definition fake_inv :: "time \<times> Fake \<Rightarrow> bool" where
  "fake_inv c \<longleftrightarrow> (let f = snd c in
     distinct (fk_order f) \<and> set (fk_order f) = dom (fk_tasks f) \<and> keys_ok (fk_tasks f) (fk_byKey f) \<and>
     dom (fk_tasks f) \<subseteq> task_id ` {1..fk_nextID f} \<and> procs_ok (fk_tasks f) (fk_procs f) \<and>
     (\<forall>i t. fk_tasks f i = Some t \<longrightarrow> status_ok (ft_status t) \<and> ws_UpdatedAt (ft_status t) \<le> fst c))"

lemma status_ok_simps:
  "ws_State s = TSQueued \<Longrightarrow> status_ok s \<longleftrightarrow> ws_Result s = None \<and> ws_Usage s = [] \<and> ws_Error s = None"
  "ws_State s = TSRunning \<Longrightarrow> status_ok s \<longleftrightarrow> ws_Result s = None \<and> ws_Usage s = [] \<and> ws_Error s = None"
  by (auto simp: status_ok_def)

lemma live_not_finished: "live_proc p t \<Longrightarrow> \<not> finished t"
  by (auto simp: live_proc_def finished_def isTerminalState_def)

lemma itoa_inj: "itoa m = itoa n \<Longrightarrow> m = n"
  by (metis itoa_digits of_nat_eq_iff)

lemma task_id_inj: "inj task_id"
  by (auto simp: inj_def task_id_def itoa_inj)

lemma fresh_task_id: "dom tsk \<subseteq> task_id ` {1..n} \<Longrightarrow> tsk (task_id (Suc n)) = None"
  using task_id_inj by (force simp: inj_def dom_def)

subsection \<open>Eviction\<close>

lemma evict_loop_effect:
  assumes "distinct ids" and "evict_loop n ids tsk bk = (kept, tsk', bk')"
  shows "\<exists>R \<subseteq> set ids. (\<forall>i \<in> R. \<exists>t. tsk i = Some t \<and> finished t) \<and> kept = filter (\<lambda>i. i \<notin> R) ids \<and>
           tsk' = tsk |` (- R) \<and> bk' = bk |` (- {ft_key t |i t. i \<in> R \<and> tsk i = Some t}) \<and>
           card R = min n (length (filter (\<lambda>i. \<exists>t. tsk i = Some t \<and> finished t) ids))"
  using assms
proof (induction n ids tsk bk arbitrary: kept tsk' bk' rule: evict_loop.induct)
  case (1 n tsk bk)
  then show ?case by (auto simp: restrict_map_def intro!: exI[of _ "{}"])
next
  case (2 n i ids tsk bk)
  have i: "i \<notin> set ids" and dist: "distinct ids" using 2(4) by auto
  show ?case
  proof (cases "\<exists>t. tsk i = Some t \<and> 0 < n \<and> finished t")
    case True
    then obtain t where t: "tsk i = Some t" "0 < n" "finished t" by blast
    let ?tsk = "tsk(i := None)"
    have "evict_loop (n - 1) ids ?tsk (bk(ft_key t := None)) = (kept, tsk', bk')"
      using 2(5) t by (simp add: finished_def)
    from 2(2)[OF t(1) _ dist this] t(2,3)[unfolded finished_def] obtain R where R: "R \<subseteq> set ids" "\<forall>j \<in> R. \<exists>t. ?tsk j = Some t \<and> finished t"
      "kept = filter (\<lambda>j. j \<notin> R) ids" "tsk' = ?tsk |` (- R)"
      "bk' = bk(ft_key t := None) |` (- {ft_key t |j t. j \<in> R \<and> ?tsk j = Some t})"
      "card R = min (n - 1) (length (filter (\<lambda>j. \<exists>t. ?tsk j = Some t \<and> finished t) ids))"
      by blast
    have iR: "i \<notin> R" and fin: "finite R" using R(1) i finite_subset by auto
    have eq: "?tsk j = tsk j" if "j \<in> set ids" for j using that i by auto
    have filt: "filter (\<lambda>j. \<exists>t. ?tsk j = Some t \<and> finished t) ids = filter (\<lambda>j. \<exists>t. tsk j = Some t \<and> finished t) ids"
      using i by (intro filter_cong[OF refl]) auto
    have bk: "bk' = bk |` (- {ft_key t |j t. j \<in> insert i R \<and> tsk j = Some t})"
      unfolding R(5) using t(1) iR by (auto simp: restrict_map_def fun_eq_iff)
    have tsk: "tsk' = tsk |` (- insert i R)" unfolding R(4) by (auto simp: restrict_map_def)
    have kept: "kept = filter (\<lambda>j. j \<notin> insert i R) (i # ids)" using i unfolding R(3) by (auto intro: filter_cong)
    have card: "card (insert i R) = min n (length (filter (\<lambda>j. \<exists>t. tsk j = Some t \<and> finished t) (i # ids)))"
      using R(6) t fin iR filt by auto
    have fins: "\<forall>j \<in> insert i R. \<exists>t. tsk j = Some t \<and> finished t"
      using R(2) t by (metis fun_upd_apply insertE option.distinct(1))
    show ?thesis
      by (rule exI[of _ "insert i R"]) (use R(1) fins kept tsk bk card in auto)
  next
    case False
    obtain kept1 where rest: "evict_loop n ids tsk bk = (kept1, tsk', bk')" and kept: "kept = i # kept1"
      using 2(5) False by (auto simp: finished_def split: option.splits if_splits prod.splits)
    have "\<exists>R \<subseteq> set ids. (\<forall>i \<in> R. \<exists>t. tsk i = Some t \<and> finished t) \<and> kept1 = filter (\<lambda>i. i \<notin> R) ids \<and>
       tsk' = tsk |` (- R) \<and> bk' = bk |` (- {ft_key t |i t. i \<in> R \<and> tsk i = Some t}) \<and>
       card R = min n (length (filter (\<lambda>i. \<exists>t. tsk i = Some t \<and> finished t) ids))"
      using 2(1)[OF _ dist rest] 2(3)[OF _ _ dist rest] False by (cases "tsk i") (auto simp: finished_def)
    then obtain R where R: "R \<subseteq> set ids" "\<forall>i \<in> R. \<exists>t. tsk i = Some t \<and> finished t"
      "kept1 = filter (\<lambda>i. i \<notin> R) ids" "tsk' = tsk |` (- R)"
      "bk' = bk |` (- {ft_key t |i t. i \<in> R \<and> tsk i = Some t})"
      "card R = min n (length (filter (\<lambda>i. \<exists>t. tsk i = Some t \<and> finished t) ids))" by blast
    show ?thesis
      by (rule exI[of _ R]) (use R kept i False in auto)
  qed
qed


text \<open>After an eviction the tables are those before, restricted to the tasks that stay.\<close>

lemma evictTerminal_effect:
  assumes "distinct (fk_order f)" and "keys_ok (fk_tasks f) (fk_byKey f)"
  obtains R where "R \<subseteq> set (fk_order f)" "\<forall>i \<in> R. \<exists>t. fk_tasks f i = Some t \<and> finished t"
    "evictTerminal f = f\<lparr>fk_order := filter (\<lambda>i. i \<notin> R) (fk_order f), fk_tasks := fk_tasks f |` (- R),
       fk_byKey := fk_byKey f |` (- {ft_key t |i t. i \<in> R \<and> fk_tasks f i = Some t})\<rparr>"
    "card R = min (length (fk_order f) - fakeTaskCap)
       (length (filter (\<lambda>i. \<exists>t. fk_tasks f i = Some t \<and> finished t) (fk_order f)))"
proof (cases "length (fk_order f) \<le> fakeTaskCap")
  case True
  then show ?thesis by (intro that[of "{}"]) (auto simp: evictTerminal_def restrict_map_def)
next
  case False
  obtain kept ts bk where ev: "evict_loop (length (fk_order f) - fakeTaskCap) (fk_order f) (fk_tasks f) (fk_byKey f) = (kept, ts, bk)"
    by (metis prod_cases3)
  from evict_loop_effect[OF assms(1) ev] obtain R where "R \<subseteq> set (fk_order f)"
    "\<forall>i \<in> R. \<exists>t. fk_tasks f i = Some t \<and> finished t" "kept = filter (\<lambda>i. i \<notin> R) (fk_order f)"
    "ts = fk_tasks f |` (- R)" "bk = fk_byKey f |` (- {ft_key t |i t. i \<in> R \<and> fk_tasks f i = Some t})"
    "card R = min (length (fk_order f) - fakeTaskCap)
       (length (filter (\<lambda>i. \<exists>t. fk_tasks f i = Some t \<and> finished t) (fk_order f)))" by blast
  then show ?thesis using ev False by (intro that[of R]) (simp_all add: evictTerminal_def)
qed

lemma keys_ok_restrict:
  assumes "keys_ok tsk bk"
  shows "keys_ok (tsk |` (- R)) (bk |` (- {ft_key t |i t. i \<in> R \<and> tsk i = Some t}))"
proof -
  have inj: "i = j" if "tsk i = Some t" "tsk j = Some u" "ft_key t = ft_key u" for i j t u
    using assms that unfolding keys_ok_def by (metis option.inject)
  have bk: "bk k = Some i \<longleftrightarrow> (\<exists>t. tsk i = Some t \<and> ft_key t = k)" for k i
    using assms by (simp add: keys_ok_def)
  show ?thesis
    unfolding keys_ok_def restrict_map_def using bk inj by (auto split: if_splits) metis
qed

lemma keys_ok_upd:
  "keys_ok tsk bk \<Longrightarrow> tsk i = Some t \<Longrightarrow> ft_key t' = ft_key t \<Longrightarrow> keys_ok (tsk(i := Some t')) bk"
  unfolding keys_ok_def by auto

lemma keys_ok_new:
  "keys_ok tsk bk \<Longrightarrow> tsk i = None \<Longrightarrow> bk (ft_key t) = None \<Longrightarrow> keys_ok (tsk(i := Some t)) (bk(ft_key t := Some i))"
  unfolding keys_ok_def by (auto split: if_splits) (metis option.distinct(1))+


subsection \<open>What a submission does\<close>

definition full_key :: "TargetSpec \<Rightarrow> SubmitTaskRequest \<Rightarrow> string" where
  "full_key s req = sp_ID s @ ''/'' @ sq_IdempotencyKey req"

definition new_task :: "time \<Rightarrow> TargetSpec \<Rightarrow> SubmitTaskRequest \<Rightarrow> Fake \<Rightarrow> fake_task" where
  "new_task now s req f = \<lparr>ft_status = \<lparr>ws_Task = \<lparr>rf_TargetId = sp_ID s, rf_TaskId = task_id (Suc (fk_nextID f))\<rparr>,
       ws_State = TSQueued, ws_Result = None, ws_Usage = [], ws_Error = None, ws_UpdatedAt = now\<rparr>,
     ft_cancel = False, ft_failWith = submit_failure s req (fk_sessions f), ft_key = full_key s req\<rparr>"

definition new_proc :: "time \<Rightarrow> TargetSpec \<Rightarrow> SubmitTaskRequest \<Rightarrow> Fake \<Rightarrow> advance_proc" where
  "new_proc now s req f = \<lparr>av_spec = s, av_id = task_id (Suc (fk_nextID f)), av_shots = sq_Shots req,
     av_second = False, av_wake = now + sleep_time (sp_StepDelay s)\<rparr>"

lemma fake_invD:
  assumes "fake_inv (t, f)"
  shows "distinct (fk_order f)" "set (fk_order f) = dom (fk_tasks f)" "keys_ok (fk_tasks f) (fk_byKey f)"
    "dom (fk_tasks f) \<subseteq> task_id ` {1..fk_nextID f}" "procs_ok (fk_tasks f) (fk_procs f)"
    "fk_tasks f i = Some tk \<Longrightarrow> status_ok (ft_status tk) \<and> ws_UpdatedAt (ft_status tk) \<le> t"
  using assms by (simp_all add: fake_inv_def)

text \<open>A submission is refused, is answered by the task of its key, or adds a queued task and its goroutine
  and drops finished tasks.\<close>

lemma SubmitTask_cases:
  assumes inv: "fake_inv (t, f)" and sub: "SubmitTask t req f = (f', r)"
  obtains (refused) e where "f' = f" "r = Inl e"
  | (known) s i where "f' = f" "spec (sq_TargetId req) f = Inr s" "fk_byKey f (full_key s req) = Some i"
      "r = Inr \<lparr>rf_TargetId = sp_ID s, rf_TaskId = i\<rparr>"
  | (new) s i R where "spec (sq_TargetId req) f = Inr s" "i = task_id (Suc (fk_nextID f))"
      "fk_byKey f (full_key s req) = None" "fk_tasks f i = None" "R \<subseteq> dom (fk_tasks f)"
      "\<forall>j \<in> R. \<exists>u. fk_tasks f j = Some u \<and> finished u" "i \<notin> R" "r = Inr \<lparr>rf_TargetId = sp_ID s, rf_TaskId = i\<rparr>"
      "f' = f\<lparr>fk_nextID := Suc (fk_nextID f), fk_order := filter (\<lambda>j. j \<notin> R) (fk_order f) @ [i],
         fk_tasks := (fk_tasks f)(i \<mapsto> new_task t s req f) |` (- R),
         fk_byKey := (fk_byKey f)(full_key s req \<mapsto> i) |`
           (- {ft_key u |j u. j \<in> R \<and> ((fk_tasks f)(i \<mapsto> new_task t s req f)) j = Some u}),
         fk_procs := fk_procs f @ [new_proc t s req f]\<rparr>"
      "card R = min (Suc (length (fk_order f)) - fakeTaskCap)
         (length (filter (\<lambda>j. \<exists>u. fk_tasks f j = Some u \<and> finished u) (fk_order f)))"
proof (cases "spec (sq_TargetId req) f")
  case (Inl e)
  then show ?thesis using sub by (intro refused) (auto simp: SubmitTask_def)
next
  case (Inr s)
  show ?thesis
  proof (cases "sq_IdempotencyKey req = []")
    case True
    then show ?thesis using sub Inr by (intro refused) (auto simp: SubmitTask_def)
  next
    case False
    show ?thesis
    proof (cases "fk_byKey f (full_key s req)")
      case (Some i)
      then show ?thesis using sub Inr False by (intro known) (auto simp: SubmitTask_def full_key_def Let_def)
    next
      case None
      define i where "i = task_id (Suc (fk_nextID f))"
      define tk where "tk = new_task t s req f"
      define g where "g = f\<lparr>fk_nextID := Suc (fk_nextID f), fk_byKey := (fk_byKey f)(full_key s req \<mapsto> i),
        fk_tasks := (fk_tasks f)(i \<mapsto> tk), fk_order := fk_order f @ [i]\<rparr>"
      note I = fake_invD[OF inv]
      have fresh: "fk_tasks f i = None" using fresh_task_id[OF I(4)] by (simp add: i_def)
      have dist: "distinct (fk_order g)" using I(1,2) fresh by (auto simp: g_def)
      have keys: "keys_ok (fk_tasks g) (fk_byKey g)"
        using keys_ok_new[OF I(3) fresh, of tk] None by (simp add: g_def tk_def new_task_def)
      obtain R where R: "R \<subseteq> set (fk_order g)" "\<forall>i \<in> R. \<exists>t. fk_tasks g i = Some t \<and> finished t"
        "evictTerminal g = g\<lparr>fk_order := filter (\<lambda>i. i \<notin> R) (fk_order g), fk_tasks := fk_tasks g |` (- R),
           fk_byKey := fk_byKey g |` (- {ft_key t |i t. i \<in> R \<and> fk_tasks g i = Some t})\<rparr>"
        "card R = min (length (fk_order g) - fakeTaskCap)
           (length (filter (\<lambda>i. \<exists>t. fk_tasks g i = Some t \<and> finished t) (fk_order g)))"
        by (rule evictTerminal_effect[OF dist keys])
      have nf: "\<not> finished tk" by (simp add: tk_def new_task_def finished_def isTerminalState_def)
      have iR: "i \<notin> R" using R(2) nf by (auto simp: g_def)
      have "SubmitTask t req f = ((evictTerminal g)\<lparr>fk_procs := fk_procs (evictTerminal g) @ [new_proc t s req f]\<rparr>,
          Inr \<lparr>rf_TargetId = sp_ID s, rf_TaskId = i\<rparr>)"
        unfolding SubmitTask_def Inr Let_def g_def tk_def new_task_def new_proc_def i_def task_id_def
        by (simp only: sum.case False if_False None option.case full_key_def[symmetric])
      then have res: "f' = (evictTerminal g)\<lparr>fk_procs := fk_procs (evictTerminal g) @ [new_proc t s req f]\<rparr>"
          "r = Inr \<lparr>rf_TargetId = sp_ID s, rf_TaskId = i\<rparr>"
        using sub by simp_all
      have filt: "filter (\<lambda>j. \<exists>u. fk_tasks g j = Some u \<and> finished u) (fk_order f)
          = filter (\<lambda>j. \<exists>u. fk_tasks f j = Some u \<and> finished u) (fk_order f)"
        using fresh I(2) by (intro filter_cong[OF refl]) (auto simp: g_def)
      have fin: "\<forall>j \<in> R. \<exists>u. fk_tasks f j = Some u \<and> finished u" using R(2) iR by (auto simp: g_def split: if_splits)
      have card: "card R = min (Suc (length (fk_order f)) - fakeTaskCap)
         (length (filter (\<lambda>j. \<exists>u. fk_tasks f j = Some u \<and> finished u) (fk_order f)))"
        using R(4) filt nf by (simp add: g_def)
      have sub': "R \<subseteq> dom (fk_tasks f)" using fin by auto
      show ?thesis
      proof (rule new[OF Inr i_def None fresh sub' fin iR res(2) _ card])
        have order: "filter (\<lambda>j. j \<notin> R) (fk_order g) = filter (\<lambda>j. j \<notin> R) (fk_order f) @ [i]"
          using iR by (simp add: g_def)
        show "f' = f\<lparr>fk_nextID := Suc (fk_nextID f), fk_order := filter (\<lambda>j. j \<notin> R) (fk_order f) @ [i],
         fk_tasks := (fk_tasks f)(i \<mapsto> new_task t s req f) |` (- R),
         fk_byKey := (fk_byKey f)(full_key s req \<mapsto> i) |`
           (- {ft_key u |j u. j \<in> R \<and> ((fk_tasks f)(i \<mapsto> new_task t s req f)) j = Some u}),
         fk_procs := fk_procs f @ [new_proc t s req f]\<rparr>"
          unfolding res(1) R(3) order by (simp add: g_def tk_def)
      qed
    qed
  qed
qed


subsection \<open>What a goroutine does\<close>

lemma procs_ok_distinct: "procs_ok tsk ps \<Longrightarrow> distinct ps"
  by (auto simp: procs_ok_def distinct_map)

lemma procs_ok_other:
  assumes "procs_ok tsk ps" and "p \<in> set ps" and "q \<in> set (remove1 p ps)"
  shows "q \<in> set ps \<and> av_id q \<noteq> av_id p"
  using assms by (auto simp: procs_ok_def distinct_map dest: inj_onD)

lemma procs_ok_remove:
  assumes "procs_ok tsk ps" and "p \<in> set ps"
  shows "distinct (map av_id (remove1 p ps))" "av_id ` set (remove1 p ps) = av_id ` set ps - {av_id p}"
proof -
  have "set (remove1 p ps) = set ps - {p}" using procs_ok_distinct[OF assms(1)] by simp
  moreover have "inj_on av_id (set ps)" using assms(1) by (simp add: procs_ok_def distinct_map)
  ultimately show "av_id ` set (remove1 p ps) = av_id ` set ps - {av_id p}"
    using assms(2) by (simp add: inj_on_image_set_diff)
  show "distinct (map av_id (remove1 p ps))"
    using assms(1) distinct_map by (auto simp: procs_ok_def distinct_map inj_on_def dest: notin_set_remove1)
qed

lemma procs_ok_end:
  assumes ok: "procs_ok tsk ps" and p: "p \<in> set ps" and fin: "finished t'"
  shows "procs_ok (tsk(av_id p \<mapsto> t')) (remove1 p ps)"
  using procs_ok_remove[OF ok p] procs_ok_other[OF ok p] ok fin unfolding procs_ok_def by (auto split: if_splits)

lemma procs_ok_restart:
  assumes ok: "procs_ok tsk ps" and p: "p \<in> set ps" and live: "live_proc p' t'" and same: "av_id p' = av_id p"
  shows "procs_ok (tsk(av_id p \<mapsto> t')) (remove1 p ps @ [p'])"
  using procs_ok_remove[OF ok p] procs_ok_other[OF ok p] ok live same p unfolding procs_ok_def
  by (auto split: if_splits)

lemma procs_ok_upd:
  "procs_ok tsk ps \<Longrightarrow> tsk i = Some t \<Longrightarrow> ft_status t' = ft_status t \<Longrightarrow> procs_ok (tsk(i \<mapsto> t')) ps"
  unfolding procs_ok_def live_proc_def finished_def by auto

lemma procs_ok_submit:
  assumes ok: "procs_ok tsk ps" and fresh: "tsk (av_id p) = None" and live: "live_proc p t"
    and R: "\<forall>j \<in> R. \<exists>u. tsk j = Some u \<and> finished u" "av_id p \<notin> R"
  shows "procs_ok (tsk(av_id p \<mapsto> t) |` (- R)) (ps @ [p])"
proof -
  have notR: "av_id q \<notin> R \<and> av_id q \<noteq> av_id p" if "q \<in> set ps" for q
    using ok R(1) that fresh live_not_finished unfolding procs_ok_def by (metis option.distinct(1) option.inject)
  show ?thesis
    using ok notR live R(2) unfolding procs_ok_def by (auto simp: restrict_map_def split: if_splits) metis
qed

text \<open>In a state that keeps the invariant a goroutine finds its task, unfinished, and ends, cancels or starts it.\<close>

lemma advance_cases:
  assumes inv: "fake_inv (t0, f)" and p: "p \<in> set (fk_procs f)"
  obtains (cancelled) tk where "fk_tasks f (av_id p) = Some tk" "live_proc p tk" "ft_cancel tk"
      "advance t p f = Some (f\<lparr>fk_procs := remove1 p (fk_procs f), fk_tasks := (fk_tasks f)(av_id p \<mapsto>
         tk\<lparr>ft_status := (ft_status tk)\<lparr>ws_State := TSCancelled, ws_UpdatedAt := t\<rparr>\<rparr>)\<rparr>)"
  | (started) tk where "fk_tasks f (av_id p) = Some tk" "live_proc p tk" "\<not> ft_cancel tk" "\<not> av_second p"
      "advance t p f = Some (f\<lparr>fk_procs := remove1 p (fk_procs f) @
           [p\<lparr>av_second := True, av_wake := t + sleep_time (sp_StepDelay (av_spec p))\<rparr>],
         fk_tasks := (fk_tasks f)(av_id p \<mapsto> tk\<lparr>ft_status := (ft_status tk)\<lparr>ws_State := TSRunning, ws_UpdatedAt := t\<rparr>\<rparr>)\<rparr>)"
  | (ended) tk u where "fk_tasks f (av_id p) = Some tk" "live_proc p tk" "\<not> ft_cancel tk" "av_second p"
      "u = finish_task (av_spec p) (av_shots p) (fk_garbage f) t tk"
      "advance t p f = Some (f\<lparr>fk_procs := remove1 p (fk_procs f), fk_tasks := (fk_tasks f)(av_id p \<mapsto>
         u\<lparr>ft_status := (ft_status u)\<lparr>ws_UpdatedAt := t\<rparr>\<rparr>)\<rparr>)"
proof -
  obtain tk where tk: "fk_tasks f (av_id p) = Some tk" "live_proc p tk"
    using fake_invD(5)[OF inv] p unfolding procs_ok_def by blast
  have nf: "\<not> isTerminalState (ws_State (ft_status tk))" using live_not_finished[OF tk(2)] by (simp add: finished_def)
  consider "ft_cancel tk" | "\<not> ft_cancel tk" "\<not> av_second p" | "\<not> ft_cancel tk" "av_second p" by blast
  then show ?thesis
  proof cases
    case 1
    then show ?thesis using tk nf by (intro cancelled) (auto simp: advance_def advance_step_def Let_def)
  next
    case 2
    then show ?thesis using tk nf
      by (intro started) (auto simp: advance_def advance_step_def start_task_def Let_def)
  next
    case 3
    then show ?thesis using tk nf by (intro ended) (auto simp: advance_def advance_step_def Let_def)
  qed
qed

lemma finish_task_fields [simp]:
  "ft_key (finish_task s n g t tk) = ft_key tk" "ft_cancel (finish_task s n g t tk) = ft_cancel tk"
  "ft_failWith (finish_task s n g t tk) = ft_failWith tk" "finished (finish_task s n g t tk)"
  "ws_Task (ft_status (finish_task s n g t tk)) = ws_Task (ft_status tk)"
  by (auto simp: finish_task_def finished_def isTerminalState_def split: option.splits)

lemma finish_task_ok:
  "ws_State (ft_status tk) = TSRunning \<Longrightarrow> status_ok (ft_status tk) \<Longrightarrow>
   status_ok ((ft_status (finish_task s n g t tk))\<lparr>ws_UpdatedAt := t'\<rparr>)"
  by (auto simp: finish_task_def status_ok_def split: option.splits)

subsection \<open>Every step keeps the invariant\<close>

lemma fake_inv_upd:
  assumes inv: "fake_inv (t, f)" and i: "fk_tasks f i = Some tk" and key: "ft_key tk' = ft_key tk"
    and ok: "status_ok (ft_status tk')" "ws_UpdatedAt (ft_status tk') \<le> t" and ps: "procs_ok ((fk_tasks f)(i \<mapsto> tk')) ps"
  shows "fake_inv (t, f\<lparr>fk_procs := ps, fk_tasks := (fk_tasks f)(i \<mapsto> tk')\<rparr>)"
proof -
  note I = fake_invD[OF inv]
  have "dom ((fk_tasks f)(i \<mapsto> tk')) = dom (fk_tasks f)" using i by auto
  then show ?thesis
    using I(1,2,4,6) keys_ok_upd[OF I(3) i key] ok ps by (simp add: fake_inv_def)
qed

lemma advance_keeps:
  assumes inv: "fake_inv (t, f)" and p: "p \<in> set (fk_procs f)" and adv: "advance t p f = Some f'"
  shows "fake_inv (t, f')"
using inv p
proof (cases rule: advance_cases[where t = t])
  case (cancelled tk)
  have st: "status_ok (ft_status tk)" using fake_invD(6)[OF inv cancelled(1)] ..
  then show ?thesis
    using adv cancelled fake_inv_upd[OF inv cancelled(1), of "tk\<lparr>ft_status := (ft_status tk)\<lparr>ws_State := TSCancelled, ws_UpdatedAt := t\<rparr>\<rparr>"]
      procs_ok_end[OF fake_invD(5)[OF inv] p, of "tk\<lparr>ft_status := (ft_status tk)\<lparr>ws_State := TSCancelled, ws_UpdatedAt := t\<rparr>\<rparr>"]
    by (auto simp: status_ok_def live_proc_def finished_def isTerminalState_def split: if_splits)
next
  case (started tk)
  let ?tk = "tk\<lparr>ft_status := (ft_status tk)\<lparr>ws_State := TSRunning, ws_UpdatedAt := t\<rparr>\<rparr>"
  have st: "status_ok (ft_status tk)" using fake_invD(6)[OF inv started(1)] ..
  have "live_proc (p\<lparr>av_second := True, av_wake := t + sleep_time (sp_StepDelay (av_spec p))\<rparr>) ?tk"
    by (simp add: live_proc_def)
  from procs_ok_restart[OF fake_invD(5)[OF inv] p this] st started(2,4,5) adv
    fake_inv_upd[OF inv started(1), of ?tk] show ?thesis
    by (auto simp: status_ok_def live_proc_def split: if_splits)
next
  case (ended tk u)
  let ?tk = "u\<lparr>ft_status := (ft_status u)\<lparr>ws_UpdatedAt := t\<rparr>\<rparr>"
  have st: "status_ok (ft_status ?tk)"
    using fake_invD(6)[OF inv ended(1)] ended(2,4) finish_task_ok by (simp add: ended(5) live_proc_def)
  have "finished ?tk" using finish_task_fields(4) by (simp add: ended(5) finished_def)
  note ps = procs_ok_end[OF fake_invD(5)[OF inv] p this]
  have "fake_inv (t, f\<lparr>fk_procs := remove1 p (fk_procs f), fk_tasks := (fk_tasks f)(av_id p \<mapsto> ?tk)\<rparr>)"
    by (rule fake_inv_upd[OF inv ended(1) _ st _ ps]) (simp_all add: ended(5))
  then show ?thesis using adv ended(6) by simp
qed


lemma SubmitTask_keeps:
  assumes inv: "fake_inv (t, f)" and sub: "SubmitTask t req f = (f', r)"
  shows "fake_inv (t, f')"
  using inv sub
proof (cases rule: SubmitTask_cases)
  case (new s i R)
  let ?tk = "new_task t s req f" and ?p = "new_proc t s req f"
  note I = fake_invD[OF inv]
  have i: "av_id ?p = i" and live: "live_proc ?p ?tk" and key: "ft_key ?tk = full_key s req"
    and st: "status_ok (ft_status ?tk)" "ws_UpdatedAt (ft_status ?tk) = t"
    by (simp_all add: new_proc_def new_task_def live_proc_def status_ok_def new(2))
  have ps: "procs_ok ((fk_tasks f)(i \<mapsto> ?tk) |` (- R)) (fk_procs f @ [?p])"
    using procs_ok_submit[OF I(5) _ live new(6)] new(4,7) i by simp
  have "keys_ok ((fk_tasks f)(i \<mapsto> ?tk)) ((fk_byKey f)(full_key s req \<mapsto> i))"
    using keys_ok_new[OF I(3) new(4), of ?tk] new(3) by (simp add: key)
  from keys_ok_restrict[OF this, of R] have keys: "keys_ok (fk_tasks f') (fk_byKey f')" by (simp add: new(9))
  have dom: "dom ((fk_tasks f)(i \<mapsto> ?tk) |` (- R)) = insert i (dom (fk_tasks f) - R)"
    using new(7) by (auto simp: restrict_map_def split: if_splits)
  have ids: "insert i (dom (fk_tasks f) - R) \<subseteq> task_id ` {1..Suc (fk_nextID f)}" using I(4) new(2) by auto
  have order: "distinct (fk_order f')" "set (fk_order f') = insert i (dom (fk_tasks f) - R)"
    using I(1,2) new(4) by (auto simp: new(9))
  have rest: "\<forall>j u. fk_tasks f' j = Some u \<longrightarrow> status_ok (ft_status u) \<and> ws_UpdatedAt (ft_status u) \<le> t"
    using I(6) st by (auto simp: new(9) restrict_map_def split: if_splits)
  show ?thesis
    unfolding fake_inv_def Let_def snd_conv fst_conv using order keys rest ps dom ids by (simp add: new(9))
qed (use inv in simp_all)

lemma CancelTask_cases:
  assumes "CancelTask i f = (f', r)"
  obtains (same) "f' = f"
  | (flagged) tk where "fk_tasks f i = Some tk" "\<not> finished tk" "r = Inr True"
      "f' = f\<lparr>fk_tasks := (fk_tasks f)(i \<mapsto> tk\<lparr>ft_cancel := True\<rparr>)\<rparr>"
  using assms by (auto simp: CancelTask_def getTask_def finished_def split: option.splits if_splits)

lemma CancelTask_keeps:
  assumes inv: "fake_inv (t, f)" and c: "CancelTask i f = (f', r)"
  shows "fake_inv (t, f')"
  using c
proof (cases rule: CancelTask_cases)
  case (flagged tk)
  show ?thesis
    using fake_inv_upd[OF inv flagged(1), of "tk\<lparr>ft_cancel := True\<rparr>" "fk_procs f"] fake_invD(6)[OF inv flagged(1)]
      procs_ok_upd[OF fake_invD(5)[OF inv] flagged(1), of "tk\<lparr>ft_cancel := True\<rparr>"] by (simp add: flagged(4))
qed (use inv in simp)

lemma fake_inv_sessions:
  "fake_inv (t, f\<lparr>fk_sessions := S\<rparr>) = fake_inv (t, f)" "fake_inv (t, f\<lparr>fk_garbage := b\<rparr>) = fake_inv (t, f)"
  "fake_inv (t, f) \<Longrightarrow> fake_inv (t, f\<lparr>fk_nextID := Suc (fk_nextID f), fk_sessions := S\<rparr>)"
  by (auto simp: fake_inv_def Let_def)

lemma fake_step_keeps: "fake_step c c' \<Longrightarrow> fake_inv c \<Longrightarrow> fake_inv c'"
proof (induction rule: fake_step.induct)
  case (tick d t f)
  then show ?case by (force simp: fake_inv_def Let_def)
next
  case (open_session t target m f f' r'')
  have "fake_inv (t, fst (OpenSession t target m f))"
    using open_session(2) fake_inv_sessions(3)[of t f] by (simp add: OpenSession_def Let_def)
  then show ?case using open_session(1) by simp
next
  case (run p f t f')
  then show ?case by (blast intro: advance_keeps)
next
  case (submit t req f f' r)
  then show ?case by (blast intro: SubmitTask_keeps)
next
  case (cancel i f f' r' t)
  then show ?case by (blast intro: CancelTask_keeps)
qed (simp_all add: fake_inv_sessions(1,2) fake_CloseSession_def AddSession_def SetGarbage_def)

interpretation fake: inv_system fake_step fake_inv
  by unfold_locales (rule fake_step_keeps)

lemma fake_inv_New: "fake_inv (t, NewFake specs)"
  by (auto simp: fake_inv_def NewFake_def keys_ok_def procs_ok_def)

lemma fake_reachable_inv: "fake_step\<^sup>*\<^sup>* (t0, NewFake specs) c \<Longrightarrow> fake_inv c"
  by (rule fake.run[OF _ fake_inv_New])


section \<open>Histories of tasks\<close>

definition state_rank :: "task_state \<Rightarrow> nat" where
  "state_rank s = (case s of TSUnspecified \<Rightarrow> 0 | TSQueued \<Rightarrow> 0 | TSRunning \<Rightarrow> 1 | _ \<Rightarrow> 2)"

definition issued :: "string \<Rightarrow> Fake \<Rightarrow> bool" where
  "issued i f \<longleftrightarrow> i \<in> task_id ` {1..fk_nextID f}"

definition moves_on :: "fake_task \<Rightarrow> fake_task \<Rightarrow> bool" where
  "moves_on x y \<longleftrightarrow> ft_key y = ft_key x \<and> state_rank (ws_State (ft_status x)) \<le> state_rank (ws_State (ft_status y)) \<and>
     ws_UpdatedAt (ft_status x) \<le> ws_UpdatedAt (ft_status y) \<and> (finished x \<longrightarrow> ft_status y = ft_status x)"

text \<open>How an id and its task may change: a dropped id does not come back.\<close>

definition later :: "bool \<times> fake_task option \<Rightarrow> bool \<times> fake_task option \<Rightarrow> bool" where
  "later a b \<longleftrightarrow> (fst a \<longrightarrow> fst b \<and> (case snd a of
     None \<Rightarrow> snd b = None | Some x \<Rightarrow> (case snd b of None \<Rightarrow> True | Some y \<Rightarrow> moves_on x y)))"

lemma moves_on_refl [simp]: "moves_on x x"
  by (simp add: moves_on_def)

lemma moves_on_trans: "moves_on x y \<Longrightarrow> moves_on y z \<Longrightarrow> moves_on x z"
  by (auto simp: moves_on_def finished_def)

lemma later_refl: "later a a"
  by (auto simp: later_def split: option.splits)

lemma later_trans: "later a b \<Longrightarrow> later b c \<Longrightarrow> later a c"
  by (auto simp: later_def split: option.splits intro: moves_on_trans)

lemma later_upd:
  assumes "fk_tasks f j = Some x" and "moves_on x y" and "fk_tasks f' = (fk_tasks f)(j \<mapsto> y)" and "fk_nextID f' = fk_nextID f"
  shows "later (issued i f, fk_tasks f i) (issued i f', fk_tasks f' i)"
  using assms by (auto simp: later_def issued_def split: option.splits)

lemma advance_later:
  assumes inv: "fake_inv (t, f)" and p: "p \<in> set (fk_procs f)" and adv: "advance t p f = Some f'"
  shows "later (issued i f, fk_tasks f i) (issued i f', fk_tasks f' i)"
  using inv p
proof (cases rule: advance_cases[where t = t])
  case (cancelled tk)
  have "ws_UpdatedAt (ft_status tk) \<le> t" using fake_invD(6)[OF inv cancelled(1)] by simp
  with cancelled show ?thesis
    using adv by (intro later_upd[OF cancelled(1)]) (auto simp: moves_on_def state_rank_def finished_def live_proc_def isTerminalState_def split: if_splits)
next
  case (started tk)
  have "ws_UpdatedAt (ft_status tk) \<le> t" using fake_invD(6)[OF inv started(1)] by simp
  with started show ?thesis
    using adv by (intro later_upd[OF started(1)]) (auto simp: moves_on_def state_rank_def finished_def live_proc_def isTerminalState_def)
next
  case (ended tk u)
  have "state_rank (ws_State (ft_status u)) = 2"
    using finish_task_fields(4)[of "av_spec p" "av_shots p" "fk_garbage f" t tk]
    by (auto simp: ended(5)[symmetric] finished_def isTerminalState_def state_rank_def)
  then have "moves_on tk (u\<lparr>ft_status := (ft_status u)\<lparr>ws_UpdatedAt := t\<rparr>\<rparr>)"
    using live_not_finished[OF ended(2)] ended(2,4) fake_invD(6)[OF inv ended(1)] by (simp add: moves_on_def ended(5)) (simp add: state_rank_def live_proc_def)
  from later_upd[OF ended(1) this, of f' i] show ?thesis using adv ended(6) by auto
qed

lemma fake_step_later:
  "fake_step c c' \<Longrightarrow> fake_inv c \<Longrightarrow> later (issued i (snd c), fk_tasks (snd c) i) (issued i (snd c'), fk_tasks (snd c') i)"
proof (induction rule: fake_step.induct)
  case (run p f t f')
  then show ?case using advance_later by simp
next
  case (submit t req f f' r)
  from submit(2,1) show ?case
  proof (cases rule: SubmitTask_cases)
    case (new s j R)
    have "i \<noteq> j" if "issued i f"
      using that new(2) by (auto simp: issued_def dest!: injD[OF task_id_inj])
    then show ?thesis by (auto simp: later_def new(9) issued_def restrict_map_def split: option.splits)
  qed (simp_all add: later_refl)
next
  case (cancel j f f' r' t)
  from cancel(1) show ?case
  proof (cases rule: CancelTask_cases)
    case (flagged tk)
    then show ?thesis by (intro later_upd) (auto simp: moves_on_def)
  qed (simp add: later_refl)
next
  case (open_session t target m f f' r'')
  then have "fk_nextID f \<le> fk_nextID f'" "fk_tasks f' = fk_tasks f"
    by (auto simp: OpenSession_def Let_def split: sum.splits if_splits)
  then show ?case by (auto simp: later_def issued_def split: option.splits)
qed (simp_all add: later_refl later_def issued_def fake_CloseSession_def AddSession_def SetGarbage_def split: option.splits)

lemma run_later:
  assumes "fake_step\<^sup>*\<^sup>* c c'" and "fake_inv c"
  shows "later (issued i (snd c), fk_tasks (snd c) i) (issued i (snd c'), fk_tasks (snd c') i)"
  by (rule fake.run_mono[where f = "\<lambda>c. (issued i (snd c), fk_tasks (snd c) i)", OF assms])
    (auto intro: fake_step_later later_refl later_trans)

lemma task_issued: "fake_inv c \<Longrightarrow> fk_tasks (snd c) i = Some tk \<Longrightarrow> issued i (snd c)"
  using fake_invD(4)[of "fst c" "snd c"] by (auto simp: issued_def)

lemma run_moves_on:
  assumes "fake_step\<^sup>*\<^sup>* c c'" and "fake_inv c" and "fk_tasks (snd c) i = Some x" and "fk_tasks (snd c') i = Some y"
  shows "moves_on x y"
  using run_later[OF assms(1,2), of i] task_issued[OF assms(2,3)] assms(3,4) by (simp add: later_def)


section \<open>What a submission promises\<close>

text \<open>How a task ends that is not cancelled.\<close>

definition outcome :: "TargetSpec \<Rightarrow> 64 word \<Rightarrow> ErrorDetail option \<Rightarrow> WireStatus \<Rightarrow> bool" where
  "outcome s shots fw st \<longleftrightarrow> (case (if fw = None then sp_FailWith s else fw) of
     Some e \<Rightarrow> ws_State st = TSFailed \<and> ws_Error st = Some e \<and> ws_Usage st = []
   | None \<Rightarrow> ws_State st = TSSucceeded \<and>
       map (\<lambda>u. (ur_Unit u, ur_Amount u)) (ws_Usage st) = [(''shots'', real (unat shots)), (''tasks'', 1)] \<and>
       (\<forall>u \<in> set (ws_Usage st). ur_RecordedAt u \<noteq> None))"

definition promised :: "TargetSpec \<Rightarrow> 64 word \<Rightarrow> ErrorDetail option \<Rightarrow> fake_task \<Rightarrow> advance_proc list \<Rightarrow> bool" where
  "promised s shots fw tk ps \<longleftrightarrow> ft_failWith tk = fw \<and>
     (if finished tk
      then (if ft_cancel tk then ws_State (ft_status tk) = TSCancelled \<and> ws_Usage (ft_status tk) = []
            else outcome s shots fw (ft_status tk))
      else (\<exists>p \<in> set ps. av_id p = rf_TaskId (ws_Task (ft_status tk)) \<and> av_spec p = s \<and> av_shots p = shots))"

definition promise :: "TargetSpec \<Rightarrow> 64 word \<Rightarrow> ErrorDetail option \<Rightarrow> string \<Rightarrow> Fake \<Rightarrow> bool" where
  "promise s shots fw i f \<longleftrightarrow> (\<forall>tk. fk_tasks f i = Some tk \<longrightarrow>
     rf_TaskId (ws_Task (ft_status tk)) = i \<and> promised s shots fw tk (fk_procs f))"

lemma finish_task_outcome:
  assumes "ws_State (ft_status tk) = TSRunning" "status_ok (ft_status tk)"
  shows "outcome s n (ft_failWith tk) ((ft_status (finish_task s n g t tk))\<lparr>ws_UpdatedAt := t'\<rparr>)"
  using assms by (auto simp: finish_task_def outcome_def status_ok_def split: option.splits)

lemma advance_promise:
  assumes inv: "fake_inv (t, f)" and p: "p \<in> set (fk_procs f)" and adv: "advance t' p f = Some f'"
    and pr: "promise s n fw i f"
  shows "promise s n fw i f'"
proof (cases "av_id p = i")
  case False
  have keep: "q \<in> set (fk_procs f')" if "q \<in> set (fk_procs f)" "av_id q = i" for q
  proof -
    have "q \<noteq> p" using False that by auto
    then have "q \<in> set (remove1 p (fk_procs f))" using that(1) by (simp add: in_set_remove1)
    with inv p show ?thesis by (cases rule: advance_cases[where t = t']) (use adv in auto)
  qed
  have same: "fk_tasks f' i = fk_tasks f i"
    using inv p by (cases rule: advance_cases[where t = t']) (use adv False in auto)
  show ?thesis
    using pr keep unfolding promise_def promised_def same by (metis (lifting))
next
  case True
  have uniq: "q = p" if "q \<in> set (fk_procs f)" "av_id q = i" for q
    using fake_invD(5)[OF inv] p that True by (auto simp: procs_ok_def distinct_map dest: inj_onD)
  have own: "av_spec p = s \<and> av_shots p = n \<and> ft_failWith tk = fw \<and> rf_TaskId (ws_Task (ft_status tk)) = i"
    if "fk_tasks f (av_id p) = Some tk" "live_proc p tk" for tk
    using pr that live_not_finished[OF that(2)] uniq True unfolding promise_def promised_def by metis
  from inv p show ?thesis
  proof (cases rule: advance_cases[where t = t'])
    case (cancelled tk)
    have "ws_Usage (ft_status tk) = []"
      using fake_invD(6)[OF inv cancelled(1)] cancelled(2) by (auto simp: live_proc_def status_ok_simps split: if_splits)
    then show ?thesis
      using pr cancelled adv True live_not_finished[OF cancelled(2)]
      by (auto simp: promise_def promised_def finished_def isTerminalState_def)
  next
    case (started tk)
    then show ?thesis
      using adv True own[OF started(1,2)] by (auto simp: promise_def promised_def finished_def isTerminalState_def)
  next
    case (ended tk u)
    have run: "ws_State (ft_status tk) = TSRunning" using ended(2,4) by (simp add: live_proc_def)
    have ok: "status_ok (ft_status tk)" using fake_invD(6)[OF inv ended(1)] by simp
    note sp = own[OF ended(1,2)]
    let ?u = "u\<lparr>ft_status := (ft_status u)\<lparr>ws_UpdatedAt := t'\<rparr>\<rparr>"
    have "finished ?u" using finish_task_fields(4) by (simp add: ended(5) finished_def)
    moreover have "outcome s n fw (ft_status ?u)"
      using finish_task_outcome[OF run ok] by (simp add: ended(5) sp)
    ultimately have "promised s n fw ?u ps" for ps
      using ended(3) sp by (simp add: promised_def ended(5))
    moreover have "rf_TaskId (ws_Task (ft_status ?u)) = i" using sp by (simp add: ended(5))
    ultimately show ?thesis using adv ended(6) True by (auto simp: promise_def)
  qed
qed


lemma SubmitTask_promise:
  assumes inv: "fake_inv (t, f)" and sub: "SubmitTask t req f = (f', r)" and "issued i f" and pr: "promise s n fw i f"
  shows "promise s n fw i f'"
  using inv sub
proof (cases rule: SubmitTask_cases)
  case (new s' j R)
  have "i \<noteq> j" using assms(3) new(2) by (auto simp: issued_def dest!: injD[OF task_id_inj])
  then have t: "fk_tasks f i = Some tk" if "fk_tasks f' i = Some tk" for tk
    using that by (auto simp: new(9) restrict_map_def split: if_splits)
  have "promised s n fw tk (fk_procs f')" if "promised s n fw tk (fk_procs f)" for tk
    using that by (auto simp: promised_def new(9))
  then show ?thesis using pr t unfolding promise_def by blast
qed (use pr in simp_all)

lemma CancelTask_promise:
  assumes "CancelTask j f = (f', r)" and pr: "promise s n fw i f"
  shows "promise s n fw i f'"
  using assms(1)
proof (cases rule: CancelTask_cases)
  case (flagged tk)
  have "finished (tk\<lparr>ft_cancel := True\<rparr>) = finished tk" by (simp add: finished_def)
  then show ?thesis
    using pr flagged(1,2) unfolding promise_def flagged(4) by (cases "i = j") (simp_all add: promised_def, metis+)
qed (use pr in simp)

lemma fake_step_promise:
  "fake_step c c' \<Longrightarrow> fake_inv c \<Longrightarrow> issued i (snd c) \<Longrightarrow> promise s n fw i (snd c) \<Longrightarrow> promise s n fw i (snd c')"
proof (induction rule: fake_step.induct)
  case (run p f t f')
  then show ?case using advance_promise by simp
next
  case (submit t req f f' r)
  then show ?case using SubmitTask_promise by simp
next
  case (cancel j f f' r' t)
  then show ?case using CancelTask_promise by simp
next
  case (open_session t target m f f' r'')
  then have "fk_procs f' = fk_procs f" "fk_tasks f' = fk_tasks f"
    by (auto simp: OpenSession_def Let_def split: sum.splits if_splits)
  then show ?case using open_session(4) by (simp add: promise_def)
qed (simp_all add: promise_def fake_CloseSession_def AddSession_def SetGarbage_def)

interpretation fake_promise: inv_system fake_step "\<lambda>c. fake_inv c \<and> issued i (snd c) \<and> promise s n fw i (snd c)"
proof unfold_locales
  fix c c' assume a: "fake_inv c \<and> issued i (snd c) \<and> promise s n fw i (snd c)" and "fake_step c c'"
  moreover have "issued i (snd c')"
    using fake_step_later[OF \<open>fake_step c c'\<close>, of i] a by (simp add: later_def)
  ultimately show "fake_inv c' \<and> issued i (snd c') \<and> promise s n fw i (snd c')"
    using fake_step_keeps fake_step_promise by blast
qed

text \<open>A new task is promised the outcome of its request.\<close>

lemma SubmitTask_promises:
  assumes inv: "fake_inv (t, f)" and sub: "SubmitTask t req f = (f', Inr ref)"
    and s: "spec (sq_TargetId req) f = Inr s" and fresh: "fk_byKey f (full_key s req) = None"
  shows "issued (rf_TaskId ref) f'" "promise s (sq_Shots req) (submit_failure s req (fk_sessions f)) (rf_TaskId ref) f'"
    "fk_tasks f' (rf_TaskId ref) = Some (new_task t s req f)"
proof -
  have "issued (rf_TaskId ref) f' \<and> promise s (sq_Shots req) (submit_failure s req (fk_sessions f)) (rf_TaskId ref) f' \<and>
    fk_tasks f' (rf_TaskId ref) = Some (new_task t s req f)"
    using inv sub
  proof (cases rule: SubmitTask_cases)
    case (new s' i R)
    have "s' = s" using new(1) s by simp
    then show ?thesis
      using new by (auto simp: issued_def promise_def promised_def new_task_def new_proc_def finished_def isTerminalState_def
        restrict_map_def split: if_splits)
  qed (use s fresh in simp_all)
  then show "issued (rf_TaskId ref) f'" "promise s (sq_Shots req) (submit_failure s req (fk_sessions f)) (rf_TaskId ref) f'"
    "fk_tasks f' (rf_TaskId ref) = Some (new_task t s req f)" by simp_all
qed


lemma SubmitTask_procs:
  assumes inv: "fake_inv (t, f)" and sub: "SubmitTask t req f = (f', Inr ref)"
    and s: "spec (sq_TargetId req) f = Inr s" and fresh: "fk_byKey f (full_key s req) = None"
  shows "fk_procs f' = fk_procs f @ [new_proc t s req f] \<and> rf_TaskId ref = task_id (Suc (fk_nextID f))"
  using inv sub
proof (cases rule: SubmitTask_cases)
  case (new s' i R)
  then show ?thesis using s by simp
qed (use s fresh in simp_all)

section \<open>The prompt schedule\<close>

definition proc_work :: "Fake \<Rightarrow> nat" where
  "proc_work f = sum_list (map (\<lambda>p. if av_second p then 1 else 2) (fk_procs f))"

definition next_proc :: "Fake \<Rightarrow> advance_proc" where
  "next_proc f = arg_min_list av_wake (fk_procs f)"

lemma next_proc: "fk_procs f \<noteq> [] \<Longrightarrow> next_proc f \<in> set (fk_procs f)"
  "p \<in> set (fk_procs f) \<Longrightarrow> av_wake (next_proc f) \<le> av_wake p"
proof -
  show "fk_procs f \<noteq> [] \<Longrightarrow> next_proc f \<in> set (fk_procs f)" by (simp add: next_proc_def arg_min_list_in)
  assume p: "p \<in> set (fk_procs f)"
  then have "fk_procs f \<noteq> []" by auto
  then show "av_wake (next_proc f) \<le> av_wake p" using p by (simp add: next_proc_def f_arg_min_list_f)
qed

text \<open>A goroutine leaves the list or comes back for its second step.\<close>

lemma advance_procs:
  assumes "advance t p f = Some f'"
  shows "fk_procs f' = remove1 p (fk_procs f) \<or> \<not> av_second p \<and> fk_procs f' = remove1 p (fk_procs f) @
    [p\<lparr>av_second := True, av_wake := t + sleep_time (sp_StepDelay (av_spec p))\<rparr>]"
  using assms by (auto simp: advance_def advance_step_def Let_def split: option.splits if_splits)

lemma advance_work:
  assumes "p \<in> set (fk_procs f)" and "advance t p f = Some f'"
  shows "proc_work f' < proc_work f"
  using advance_procs[OF assms(2)] sum_list_map_remove1[OF assms(1), of "\<lambda>p. if av_second p then 1 else (2::nat)"]
  by (auto simp: proc_work_def)

text \<open>\<open>settle T f\<close> runs the goroutines whose sleep ends by time \<open>T\<close>, each at that moment.\<close>

function settle :: "time \<Rightarrow> Fake \<Rightarrow> Fake option" where
  "settle T f =
     (if fk_procs f = [] \<or> T < av_wake (next_proc f) then Some f
      else (case advance (av_wake (next_proc f)) (next_proc f) f of None \<Rightarrow> None | Some f1 \<Rightarrow> settle T f1))"
  by auto

termination by (relation "measure (proc_work \<circ> snd)") (auto intro: advance_work next_proc(1))

declare settle.simps [simp del]

definition prompt :: "time \<times> Fake \<Rightarrow> bool" where
  "prompt c \<longleftrightarrow> (\<forall>p \<in> set (fk_procs (snd c)). fst c \<le> av_wake p)"

lemma advance_total: "fake_inv (t, f) \<Longrightarrow> p \<in> set (fk_procs f) \<Longrightarrow> advance t' p f \<noteq> None"
  by (cases rule: advance_cases[where t = t']) auto

lemma sleep_time_nonneg [simp]: "0 \<le> sleep_time d"
  by (simp add: sleep_time_def)

lemma tick_to: "t \<le> t' \<Longrightarrow> fake_step (t, f) (t', f)"
  using fake_step.tick[of "t' - t" t f] by simp

lemma settle_run:
  assumes "fake_inv (t, f)" and "prompt (t, f)" and "t \<le> T"
  shows "\<exists>f'. settle T f = Some f' \<and> fake_step\<^sup>*\<^sup>* (t, f) (T, f') \<and> (\<forall>p \<in> set (fk_procs f'). T < av_wake p)"
  using assms
proof (induction T f arbitrary: t rule: settle.induct)
  case (1 T f)
  let ?p = "next_proc f"
  show ?case
  proof (cases "fk_procs f = [] \<or> T < av_wake ?p")
    case True
    then have "\<forall>p \<in> set (fk_procs f). T < av_wake p" using next_proc(2) by fastforce
    then show ?thesis using True tick_to[OF 1(4)] by (auto simp: settle.simps[of T f])
  next
    case False
    let ?w = "av_wake ?p"
    have p: "?p \<in> set (fk_procs f)" using False next_proc(1) by simp
    have w: "t \<le> ?w" "?w \<le> T" using 1(3) p False by (auto simp: prompt_def)
    obtain f1 where f1: "advance ?w ?p f = Some f1" using advance_total[OF 1(2) p] by blast
    have step: "fake_step\<^sup>*\<^sup>* (t, f) (?w, f1)"
      using fake_step.run[OF p _ f1, of ] tick_to[OF w(1)] by (meson converse_rtranclp_into_rtranclp order_refl r_into_rtranclp)
    have inv1: "fake_inv (?w, f1)" using fake.run[OF step 1(2)] .
    have "prompt (?w, f1)"
      using advance_procs[OF f1] next_proc(2)[of _ f] set_remove1_subset[of ?p "fk_procs f"] by (auto simp: prompt_def subset_iff)
    from 1(1)[OF False f1 inv1 this w(2)] obtain f' where "settle T f1 = Some f'" "fake_step\<^sup>*\<^sup>* (?w, f1) (T, f')"
      "\<forall>p \<in> set (fk_procs f'). T < av_wake p" by blast
    then show ?thesis using step False f1 by (auto simp: settle.simps[of T f] intro: rtranclp_trans)
  qed
qed

text \<open>When a goroutine is through if it sleeps no longer than it has to.\<close>

definition due :: "advance_proc \<Rightarrow> time" where
  "due p = (if av_second p then av_wake p else av_wake p + sleep_time (sp_StepDelay (av_spec p)))"

lemma advance_due:
  assumes "advance (av_wake p) p f = Some f'" and "p \<in> set (fk_procs f)" and "q \<in> set (fk_procs f')"
  shows "\<exists>p' \<in> set (fk_procs f). av_id p' = av_id q \<and> due p' = due q"
proof (cases "q \<in> set (fk_procs f)")
  case False
  then have "\<not> av_second p" "q = p\<lparr>av_second := True, av_wake := av_wake p + sleep_time (sp_StepDelay (av_spec p))\<rparr>"
    using advance_procs[OF assms(1)] assms(3) set_remove1_subset[of p "fk_procs f"] by auto
  then show ?thesis using assms(2) by (intro bexI[of _ p]) (simp_all add: due_def)
qed auto

lemma settle_due:
  assumes "settle T f = Some f'" and "q \<in> set (fk_procs f')"
  shows "\<exists>p \<in> set (fk_procs f). av_id p = av_id q \<and> due p = due q"
  using assms
proof (induction T f rule: settle.induct)
  case (1 T f)
  show ?case
  proof (cases "fk_procs f = [] \<or> T < av_wake (next_proc f)")
    case True
    then show ?thesis using 1(2,3) by (auto simp: settle.simps[of T f])
  next
    case False
    then obtain f1 where f1: "advance (av_wake (next_proc f)) (next_proc f) f = Some f1" "settle T f1 = Some f'"
      using 1(2) by (auto simp: settle.simps[of T f] split: option.splits)
    have "next_proc f \<in> set (fk_procs f)" using False next_proc(1) by simp
    then show ?thesis using 1(1)[OF False f1 1(3)] advance_due[OF f1(1)] by metis
  qed
qed

text \<open>What no goroutine changes does not change while the schedule settles.\<close>

lemma settle_preserves:
  assumes "\<And>t p f f'. advance t p f = Some f' \<Longrightarrow> g f' = g f" and "settle T f = Some f'"
  shows "g f' = g f"
  using assms(2)
proof (induction T f rule: settle.induct)
  case (1 T f)
  then show ?case using assms(1) by (fastforce simp: settle.simps[of T f] split: option.splits if_splits)
qed

lemma advance_frame:
  assumes "advance t p f = Some f'"
  shows "(\<lambda>i. map_option (\<lambda>x. (ft_cancel x, ft_key x, ft_failWith x)) (fk_tasks f' i)) =
      (\<lambda>i. map_option (\<lambda>x. (ft_cancel x, ft_key x, ft_failWith x)) (fk_tasks f i))"
    "fk_targets f' = fk_targets f" "fk_byKey f' = fk_byKey f" "fk_order f' = fk_order f"
    "fk_nextID f' = fk_nextID f" "fk_sessions f' = fk_sessions f" "fk_garbage f' = fk_garbage f"
  using assms
  by (auto simp: advance_def advance_step_def start_task_def Let_def fun_eq_iff split: option.splits if_splits)

lemma settle_frame:
  assumes "settle T f = Some f'"
  shows "fk_targets f' = fk_targets f" "fk_byKey f' = fk_byKey f" "fk_order f' = fk_order f"
    "fk_nextID f' = fk_nextID f" "fk_sessions f' = fk_sessions f" "fk_garbage f' = fk_garbage f"
    "map_option (\<lambda>x. (ft_cancel x, ft_key x, ft_failWith x)) (fk_tasks f' i) =
     map_option (\<lambda>x. (ft_cancel x, ft_key x, ft_failWith x)) (fk_tasks f i)"
  using settle_preserves[where g = fk_targets, OF advance_frame(2) assms]
    settle_preserves[where g = fk_byKey, OF advance_frame(3) assms] settle_preserves[where g = fk_order, OF advance_frame(4) assms]
    settle_preserves[where g = fk_nextID, OF advance_frame(5) assms] settle_preserves[where g = fk_sessions, OF advance_frame(6) assms]
    settle_preserves[where g = fk_garbage, OF advance_frame(7) assms]
    fun_cong[OF settle_preserves[where g = "\<lambda>f i. map_option (\<lambda>x. (ft_cancel x, ft_key x, ft_failWith x)) (fk_tasks f i)",
      OF advance_frame(1) assms]] by simp_all

lemma settle_task:
  assumes "settle T f = Some f'" and "fk_tasks f i = Some x"
  obtains y where "fk_tasks f' i = Some y" "ft_cancel y = ft_cancel x" "ft_failWith y = ft_failWith x"
  using settle_frame(7)[OF assms(1), of i] assms(2) by (cases "fk_tasks f' i") auto

text \<open>A task whose goroutine is due by \<open>T\<close> is finished when the schedule has settled.\<close>

lemma settle_finishes:
  assumes inv: "fake_inv (t, f)" and pr: "prompt (t, f)" and "t \<le> T" and i: "fk_tasks f i = Some tk"
    and due: "\<And>p. p \<in> set (fk_procs f) \<Longrightarrow> av_id p = i \<Longrightarrow> due p \<le> T"
  obtains f' tk' where "settle T f = Some f'" "fake_step\<^sup>*\<^sup>* (t, f) (T, f')" "prompt (T, f')"
    "fk_tasks f' i = Some tk'" "ft_cancel tk' = ft_cancel tk" "finished tk'"
proof -
  obtain f' where f': "settle T f = Some f'" "fake_step\<^sup>*\<^sup>* (t, f) (T, f')" "\<forall>p \<in> set (fk_procs f'). T < av_wake p"
    using settle_run[OF inv pr assms(3)] by blast
  have inv': "fake_inv (T, f')" using fake.run[OF f'(2) inv] .
  obtain tk' where tk': "fk_tasks f' i = Some tk'" "ft_cancel tk' = ft_cancel tk" using settle_task[OF f'(1) i] by metis
  have "av_id q \<noteq> i" if q: "q \<in> set (fk_procs f')" for q
  proof
    assume "av_id q = i"
    then have "due q \<le> T" using settle_due[OF f'(1) q] due by metis
    moreover have "av_wake q \<le> due q" by (simp add: due_def)
    moreover have "T < av_wake q" using f'(3) q by blast
    ultimately show False by simp
  qed
  then have "i \<notin> av_id ` set (fk_procs f')" by blast
  then have "finished tk'" using fake_invD(5)[OF inv'] tk' unfolding procs_ok_def by blast
  moreover have "prompt (T, f')" using f'(3) by (auto simp: prompt_def)
  ultimately show ?thesis using that[OF f'(1,2) _ tk'] by blast
qed


section \<open>Properties\<close>

text \<open>C1: In every reachable state of the fake adapter, whatever the interleaving, a goroutine that wakes up
  finds its task: it never dereferences nil, although \<open>evictTerminal\<close> deletes tasks.\<close>

theorem goroutines_never_panic:
  assumes "fake_step\<^sup>*\<^sup>* (t0, NewFake specs) (t, f)" and "p \<in> set (fk_procs f)"
  shows "advance t p f \<noteq> None"
  using advance_total[OF fake_reachable_inv[OF assms(1)] assms(2)] .

text \<open>Along every run a task only moves forward through its states, and its status no longer changes
  once it is terminal; a dropped task stays dropped, so its id is never used again.\<close>

theorem fake_tasks_move_forward:
  assumes "fake_step\<^sup>*\<^sup>* (t0, NewFake specs) c" and "fake_step\<^sup>*\<^sup>* c c'" and "fk_tasks (snd c) i = Some x"
  shows "(\<forall>y. fk_tasks (snd c') i = Some y \<longrightarrow>
           state_rank (ws_State (ft_status x)) \<le> state_rank (ws_State (ft_status y)) \<and>
           (isTerminalState (ws_State (ft_status x)) \<longrightarrow> ft_status y = ft_status x)) \<and>
         (fk_tasks (snd c') i = None \<longrightarrow> (\<forall>c''. fake_step\<^sup>*\<^sup>* c' c'' \<longrightarrow> fk_tasks (snd c'') i = None))"
proof -
  note inv = fake_reachable_inv[OF assms(1)]
  have inv': "fake_inv c'" using fake.run[OF assms(2) inv] .
  have iss: "issued i (snd c')"
    using run_later[OF assms(2) inv, of i] task_issued[OF inv assms(3)] by (simp add: later_def)
  have "fk_tasks (snd c'') i = None" if "fk_tasks (snd c') i = None" "fake_step\<^sup>*\<^sup>* c' c''" for c''
    using run_later[OF that(2) inv', of i] iss that(1) by (simp add: later_def)
  moreover have "moves_on x y" if "fk_tasks (snd c') i = Some y" for y
    using run_moves_on[OF assms(2) inv assms(3) that] .
  ultimately show ?thesis unfolding moves_on_def finished_def by blast
qed

text \<open>Submission is idempotent: once a request was accepted, every later request to the same target with
  the same key is answered with the same task and changes nothing, for as long as the task is retained.\<close>

theorem fake_submission_idempotent:
  assumes "fake_step\<^sup>*\<^sup>* (t0, NewFake specs) (t, f)" and "SubmitTask t req f = (f1, Inr ref)"
    and "fake_step\<^sup>*\<^sup>* (t, f1) (t', f')" and "fk_tasks f' (rf_TaskId ref) \<noteq> None"
    and "sq_TargetId req' = sq_TargetId req" and "sq_IdempotencyKey req' = sq_IdempotencyKey req"
  shows "SubmitTask t' req' f' = (f', Inr ref)"
proof -
  have targets: "fk_targets (snd c') = fk_targets (snd c)" if "fake_step c c'" for c c'
    using that
    by (induction rule: fake_step.induct)
      (auto simp: advance_def advance_step_def SubmitTask_def evictTerminal_def CancelTask_def OpenSession_def
        fake_CloseSession_def AddSession_def SetGarbage_def Let_def split: option.splits sum.splits if_splits prod.splits)
  have "fk_targets (snd c') = fk_targets (snd c)" if "fake_step\<^sup>*\<^sup>* c c'" for c c'
    using that by (induction rule: rtranclp_induct) (auto simp: targets)
  from this[OF assms(3)] targets[OF fake_step.submit[OF assms(2)]] have tg: "fk_targets f' = fk_targets f" by simp
  note inv = fake_reachable_inv[OF assms(1)]
  have inv1: "fake_inv (t, f1)" using SubmitTask_keeps[OF inv assms(2)] .
  have inv': "fake_inv (t', f')" using fake.run[OF assms(3) inv1] .
  have key: "sq_IdempotencyKey req \<noteq> []"
    using assms(2) by (auto simp: SubmitTask_def split: sum.splits if_splits)
  have "\<exists>s x. spec (sq_TargetId req) f = Inr s \<and> rf_TargetId ref = sp_ID s \<and>
      fk_tasks f1 (rf_TaskId ref) = Some x \<and> ft_key x = full_key s req"
    using inv assms(2)
  proof (cases rule: SubmitTask_cases)
    case (known s i)
    then show ?thesis using fake_invD(3)[OF inv] by (auto simp: keys_ok_def)
  next
    case (new s i R)
    then show ?thesis by (auto simp: new_task_def restrict_map_def)
  qed simp
  then obtain s x where s: "spec (sq_TargetId req) f = Inr s" "rf_TargetId ref = sp_ID s"
    and x: "fk_tasks f1 (rf_TaskId ref) = Some x" "ft_key x = full_key s req" by blast
  obtain y where y: "fk_tasks f' (rf_TaskId ref) = Some y" using assms(4) by blast
  have "ft_key y = full_key s req" using run_moves_on[OF assms(3) inv1, of "rf_TaskId ref" x y] x y
    by (simp add: moves_on_def)
  then have "fk_byKey f' (full_key s req) = Some (rf_TaskId ref)" using fake_invD(3)[OF inv'] y by (auto simp: keys_ok_def)
  moreover have "spec (sq_TargetId req') f' = Inr s" using s(1) assms(5) tg by (simp add: spec_def)
  ultimately show ?thesis
    using key s(2) assms(6) unfolding SubmitTask_def full_key_def Let_def
    by (simp only: sum.case if_False option.case prod.inject) (cases ref, simp)
qed


text \<open>C1: Retention is bounded: after a submission the adapter holds at most \<open>fakeTaskCap\<close> tasks, or only
  unfinished ones, and the unfinished tasks are all still there, unchanged.\<close>

theorem fake_retention_bounded:
  assumes "fake_step\<^sup>*\<^sup>* (t0, NewFake specs) (t, f)" and "SubmitTask t req f = (f', Inr ref)" and "f' \<noteq> f"
  shows "length (fk_order f') \<le> max fakeTaskCap (card {i. \<exists>x. fk_tasks f' i = Some x \<and> \<not> isTerminalState (ws_State (ft_status x))}) \<and>
    dom (fk_tasks f') = set (fk_order f') \<and>
    (\<forall>i x. fk_tasks f i = Some x \<and> \<not> isTerminalState (ws_State (ft_status x)) \<longrightarrow> fk_tasks f' i = Some x)"
proof -
  note inv = fake_reachable_inv[OF assms(1)]
  note I = fake_invD[OF inv]
  have I': "dom (fk_tasks f') = set (fk_order f')" "distinct (fk_order f')"
    using fake_invD(1,2)[OF SubmitTask_keeps[OF inv assms(2)]] by simp_all
  from inv assms(2) show ?thesis
  proof (cases rule: SubmitTask_cases)
    case (new s i R)
    let ?fin = "\<lambda>j. \<exists>u. fk_tasks f j = Some u \<and> finished u"
    have kept: "fk_tasks f' j = Some x" if "fk_tasks f j = Some x" "\<not> finished x" for j x
    proof -
      have "j \<notin> R" "j \<noteq> i" using that new(4,6) by auto
      then show ?thesis using that by (simp add: new(9) restrict_map_def)
    qed
    have RS: "R \<subseteq> set (fk_order f)" using new(5) I(2) by simp
    have Rf: "R \<subseteq> set (filter ?fin (fk_order f))" using RS new(6) by auto
    have "length (filter (\<lambda>j. j \<in> R) (fk_order f)) = card R"
      using distinct_length_filter[OF I(1), of "\<lambda>j. j \<in> R"] RS by (simp add: Int_absorb2 inf.absorb1)
    then have len: "length (fk_order f') = Suc (length (fk_order f)) - card R"
      using sum_length_filter_compl[of "\<lambda>j. j \<in> R" "fk_order f"] by (simp add: new(9))
    have "length (fk_order f') \<le> max fakeTaskCap (card {j. \<exists>x. fk_tasks f' j = Some x \<and> \<not> finished x})"
    proof (cases "Suc (length (fk_order f)) - fakeTaskCap \<le> length (filter ?fin (fk_order f))")
      case True
      then show ?thesis using len new(10) by simp
    next
      case False
      then have "card R = card (set (filter ?fin (fk_order f)))"
        using new(10) I(1) by (simp add: distinct_card[symmetric])
      then have R: "R = set (filter ?fin (fk_order f))" using Rf by (simp add: card_subset_eq)
      have unf: "\<exists>x. fk_tasks f' j = Some x \<and> \<not> finished x" if j: "j \<in> set (fk_order f')" for j
      proof (cases "j = i")
        case True
        then show ?thesis using new(7) by (auto simp: new(9) restrict_map_def new_task_def finished_def isTerminalState_def)
      next
        case False
        then have "j \<in> set (fk_order f)" "j \<notin> R" using j by (auto simp: new(9))
        then obtain u where u: "fk_tasks f j = Some u" "\<not> finished u" using R I(2) by auto
        then show ?thesis using kept by auto
      qed
      have "set (fk_order f') \<subseteq> {j. \<exists>x. fk_tasks f' j = Some x \<and> \<not> finished x}" using unf by blast
      moreover have "{j. \<exists>x. fk_tasks f' j = Some x \<and> \<not> finished x} \<subseteq> set (fk_order f')" using I'(1) by auto
      ultimately have "set (fk_order f') = {j. \<exists>x. fk_tasks f' j = Some x \<and> \<not> finished x}" by blast
      then show ?thesis using distinct_card[OF I'(2)] by simp
    qed
    then show ?thesis using kept I'(1) unfolding finished_def by blast
  qed (use assms(3) in simp_all)
qed

text \<open>What a submission decides is how its task ends. A new task, served promptly, is finished two step
  delays after its submission; it then failed with the detail of the first violated condition or with the
  detail of its target, or succeeded and reports its shots and one task, each exactly once.\<close>

theorem submission_decides_outcome:
  assumes "fake_step\<^sup>*\<^sup>* (t0, NewFake specs) (t, f)" and "prompt (t, f)" and "SubmitTask t req f = (f1, Inr ref)"
    and "spec (sq_TargetId req) f = Inr s" and "fk_byKey f (sp_ID s @ ''/'' @ sq_IdempotencyKey req) = None"
    and "t + 2 * sleep_time (sp_StepDelay s) \<le> T"
  shows "\<exists>f' tk. settle T f1 = Some f' \<and> fake_step\<^sup>*\<^sup>* (t, f1) (T, f') \<and> fk_tasks f' (rf_TaskId ref) = Some tk \<and>
    (case (if submit_failure s req (fk_sessions f) = None then sp_FailWith s else submit_failure s req (fk_sessions f)) of
       Some e \<Rightarrow> ws_State (ft_status tk) = TSFailed \<and> ws_Error (ft_status tk) = Some e \<and> ws_Usage (ft_status tk) = []
     | None \<Rightarrow> ws_State (ft_status tk) = TSSucceeded \<and>
         map (\<lambda>u. (ur_Unit u, ur_Amount u)) (ws_Usage (ft_status tk)) = [(''shots'', real (unat (sq_Shots req))), (''tasks'', 1)])"
proof -
  note inv = fake_reachable_inv[OF assms(1)]
  have inv1: "fake_inv (t, f1)" using SubmitTask_keeps[OF inv assms(3)] .
  have fresh: "fk_byKey f (full_key s req) = None" using assms(5) by (simp add: full_key_def)
  note P = SubmitTask_promises[OF inv assms(3,4) fresh]
  have procs: "fk_procs f1 = fk_procs f @ [new_proc t s req f]" "rf_TaskId ref = task_id (Suc (fk_nextID f))"
    using SubmitTask_procs[OF inv assms(3,4) fresh] by simp_all
  have pr1: "prompt (t, f1)" using assms(2) by (auto simp: prompt_def procs(1) new_proc_def)
  have "fk_tasks f (rf_TaskId ref) = None" using fresh_task_id[OF fake_invD(4)[OF inv]] by (simp add: procs(2))
  then have old: "av_id p \<noteq> rf_TaskId ref" if "p \<in> set (fk_procs f)" for p
    using fake_invD(5)[OF inv] that unfolding procs_ok_def by (metis option.distinct(1))
  have due: "due p \<le> T" if "p \<in> set (fk_procs f1)" "av_id p = rf_TaskId ref" for p
    using that old assms(6) by (auto simp: procs(1) due_def new_proc_def)
  have "t \<le> T" using assms(6) sleep_time_nonneg[of "sp_StepDelay s"] by linarith
  obtain f' tk where f': "settle T f1 = Some f'"
    "fake_step\<^sup>*\<^sup>* (t, f1) (T, f')" "fk_tasks f' (rf_TaskId ref) = Some tk" "\<not> ft_cancel tk" "finished tk"
    by (rule settle_finishes[OF inv1 pr1 \<open>t \<le> T\<close> P(3) due]) (auto simp: new_task_def)
  have "promise s (sq_Shots req) (submit_failure s req (fk_sessions f)) (rf_TaskId ref) f'"
    using fake_promise.run[OF f'(2)] inv1 P(1,2) by simp
  then have "outcome s (sq_Shots req) (submit_failure s req (fk_sessions f)) (ft_status tk)"
    using f'(3-5) by (simp add: promise_def promised_def)
  then show ?thesis
    using f'(1-3) unfolding outcome_def
    by (cases "if submit_failure s req (fk_sessions f) = None then sp_FailWith s else submit_failure s req (fk_sessions f)")
      (intro exI[of _ f'] exI[of _ tk], simp)+
qed


section \<open>A concrete adapter\<close>

definition demo_target :: TargetSpec where
  "demo_target = \<lparr>sp_ID = ''honest'', sp_Qubits = 5, sp_Formats = [''openqasm3''], sp_MaxShots = 1000, sp_SnapshotID = [],
     sp_Metrics = [], sp_FailWith = None, sp_IgnoreMaxShots = False, sp_BrokenSessions = False, sp_StepDelay = 0\<rparr>"

definition demo_submit :: SubmitTaskRequest where
  "demo_submit = \<lparr>sq_TargetId = ''honest'', sq_IdempotencyKey = ''k'', sq_Format = ''openqasm3'', sq_Inline = ''x'',
     sq_Shots = 100, sq_SessionId = [], sq_Parameters = []\<rparr>"

definition demo_ref :: TaskRef where
  "demo_ref = \<lparr>rf_TargetId = ''honest'', rf_TaskId = ''fake-task-1''\<rparr>"

definition demo_fake :: Fake where
  "demo_fake = fst (SubmitTask 0 demo_submit (NewFake [demo_target]))"

lemma demo_spec: "spec ''honest'' (NewFake [demo_target]) = Inr (spec_defaults demo_target)"
  by (simp add: spec_def NewFake_def demo_target_def)

lemma demo_submitted: "SubmitTask 0 demo_submit (NewFake [demo_target]) = (demo_fake, Inr demo_ref)"
proof -
  have "snd (SubmitTask 0 demo_submit (NewFake [demo_target])) = Inr demo_ref"
    using demo_spec by (simp add: SubmitTask_def demo_submit_def NewFake_def demo_ref_def spec_defaults_def demo_target_def Let_def itoa.simps digit_def)
  then show ?thesis by (metis demo_fake_def prod.collapse)
qed

lemma demo_fresh: "fk_byKey (NewFake specs) k = None" "fk_procs (NewFake specs) = []" "fk_tasks (NewFake specs) i = None"
  "fk_sessions (NewFake specs) = {}"
  by (simp_all add: NewFake_def)

lemma fake_demo_reachable: "fake_step\<^sup>*\<^sup>* (0, NewFake [demo_target]) (0, demo_fake)"
  using fake_step.submit[OF demo_submitted] by blast

lemma demo_task: "fk_tasks demo_fake ''fake-task-1'' = Some (new_task 0 (spec_defaults demo_target) demo_submit (NewFake [demo_target]))"
  using SubmitTask_promises(3)[OF fake_inv_New demo_submitted, of "spec_defaults demo_target"] demo_spec
  by (simp add: demo_submit_def demo_ref_def demo_fresh)

lemma demo_procs: "fk_procs demo_fake = [new_proc 0 (spec_defaults demo_target) demo_submit (NewFake [demo_target])]"
  using SubmitTask_procs[OF fake_inv_New demo_submitted, of "spec_defaults demo_target"] demo_spec
  by (simp add: demo_fresh) (simp add: demo_submit_def)

theorem goroutines_never_panic_witness:
  "advance 0 (new_proc 0 (spec_defaults demo_target) demo_submit (NewFake [demo_target])) demo_fake \<noteq> None"
  by (rule goroutines_never_panic[OF fake_demo_reachable]) (simp add: demo_procs)

theorem fake_tasks_move_forward_witness:
  "\<exists>y. fk_tasks (snd (0, demo_fake)) ''fake-task-1'' = Some y \<and> state_rank TSQueued \<le> state_rank (ws_State (ft_status y))"
  using fake_tasks_move_forward[OF fake_demo_reachable rtranclp.rtrancl_refl, of "''fake-task-1''"] demo_task
  by (simp add: new_task_def)

theorem fake_submission_idempotent_witness:
  "SubmitTask 0 demo_submit demo_fake = (demo_fake, Inr demo_ref)"
  by (rule fake_submission_idempotent[OF rtranclp.rtrancl_refl demo_submitted rtranclp.rtrancl_refl])
    (use demo_task in \<open>simp_all add: demo_ref_def\<close>)

theorem fake_retention_bounded_witness:
  "length (fk_order demo_fake) \<le> max fakeTaskCap
     (card {i. \<exists>x. fk_tasks demo_fake i = Some x \<and> \<not> isTerminalState (ws_State (ft_status x))})"
proof -
  have "demo_fake \<noteq> NewFake [demo_target]" using demo_task demo_fresh(3) by (metis option.distinct(1))
  from fake_retention_bounded[OF rtranclp.rtrancl_refl demo_submitted this] show ?thesis by simp
qed

theorem submission_decides_outcome_witness:
  "\<exists>f' tk. settle 20000000 demo_fake = Some f' \<and> fk_tasks f' ''fake-task-1'' = Some tk \<and>
     ws_State (ft_status tk) = TSSucceeded \<and>
     map (\<lambda>u. (ur_Unit u, ur_Amount u)) (ws_Usage (ft_status tk)) = [(''shots'', 100), (''tasks'', 1)]"
proof -
  have pr: "prompt (0, NewFake [demo_target])" by (simp add: prompt_def demo_fresh)
  have s: "spec (sq_TargetId demo_submit) (NewFake [demo_target]) = Inr (spec_defaults demo_target)"
    using demo_spec by (simp add: demo_submit_def)
  have delay: "0 + 2 * sleep_time (sp_StepDelay (spec_defaults demo_target)) \<le> 20000000"
    by (simp add: spec_defaults_def demo_target_def sleep_time_def)
  have ok: "submit_failure (spec_defaults demo_target) demo_submit (fk_sessions (NewFake [demo_target])) = None"
    by (simp add: submit_failure_def spec_defaults_def demo_target_def demo_submit_def Contains_def word_less_nat_alt)
  have "sp_FailWith (spec_defaults demo_target) = None" by (simp add: spec_defaults_def demo_target_def)
  note fail = this
  from submission_decides_outcome[OF rtranclp.rtrancl_refl pr demo_submitted s demo_fresh(1) delay]
  obtain f' tk where "settle 20000000 demo_fake = Some f'" "fk_tasks f' (rf_TaskId demo_ref) = Some tk"
    "ws_State (ft_status tk) = TSSucceeded"
    "map (\<lambda>u. (ur_Unit u, ur_Amount u)) (ws_Usage (ft_status tk)) = [(''shots'', real (unat (sq_Shots demo_submit))), (''tasks'', 1)]"
    by (simp only: ok fail simp_thms if_True option.case) metis
  moreover have "rf_TaskId demo_ref = ''fake-task-1''" "real (unat (sq_Shots demo_submit)) = 100"
    by (simp_all add: demo_ref_def demo_submit_def)
  ultimately show ?thesis by metis
qed

end
