(* ===== verification/Conformance_Properties.thy ===== *)
theory Conformance_Properties
  imports Conformance Fake_Properties
begin

text \<open>
  The conformance suite: what a report says is what its categories recorded, the harness crashes exactly on
  adapters without program formats, a passed idempotency category means what it claims, and an adapter
  that keeps the contract stated as a locale gets the verdict it deserves. The fake adapter keeps the
  contract, so each of its two broken settings fails its category and no other.
\<close>

named_theorems recording

section \<open>Every test records its failures\<close>

definition well_recorded :: "CategoryResult \<Rightarrow> bool" where
  "well_recorded c \<longleftrightarrow> (cr_Passed c \<longleftrightarrow> cr_Failures c = [])"

text \<open>A test keeps the name of its category, only adds failures, records one when it aborts, and crashes
  only for want of a program format.\<close>

definition recorded_end :: "Suite \<Rightarrow> CategoryResult \<Rightarrow> 's \<times> CategoryResult \<times> 'a outcome \<Rightarrow> bool" where
  "recorded_end su c0 y \<longleftrightarrow> (case y of (w, c, r) \<Rightarrow> well_recorded c0 \<longrightarrow>
     well_recorded c \<and> cr_Name c = cr_Name c0 \<and> prefix (cr_Failures c0) (cr_Failures c) \<and>
     (r = Aborted \<longrightarrow> \<not> cr_Passed c) \<and> (r = Crashed \<longrightarrow> ca_ProgramFormats (su_Caps su) = []))"

definition recorded :: "Suite \<Rightarrow> ('s, 'a) test \<Rightarrow> bool" where
  "recorded su m \<longleftrightarrow> (\<forall>st y. m st = Some y \<longrightarrow> recorded_end su (snd st) y)"

lemma recordedD:
  assumes "recorded su m" and "m st = Some (w, c, r)" and "well_recorded (snd st)"
  shows "well_recorded c" "cr_Name c = cr_Name (snd st)" "prefix (cr_Failures (snd st)) (cr_Failures c)"
    "r = Aborted \<Longrightarrow> \<not> cr_Passed c" "r = Crashed \<Longrightarrow> ca_ProgramFormats (su_Caps su) = []"
  using assms unfolding recorded_def recorded_end_def by fast+

lemma record_failure_ok:
  "well_recorded (record_failure e c)" "cr_Name (record_failure e c) = cr_Name c"
  "cr_Failures (record_failure e c) = cr_Failures c @ [e]" "\<not> cr_Passed (record_failure e c)"
  by (simp_all add: record_failure_def well_recorded_def)

lemma recorded_basic [recording]:
  "recorded su (t_return x)" "recorded su (t_Fatalf e)" "recorded su (t_Errorf e)" "recorded su (t_Logf l)"
  "recorded su (t_call f)" "recorded su (t_sleep cl d)"
  by (auto simp: recorded_def recorded_end_def t_return_def t_Fatalf_def t_Errorf_def t_Logf_def t_call_def t_sleep_def
    record_failure_ok well_recorded_def split: prod.splits)

lemma recorded_bind [recording]:
  assumes m: "recorded su m" and k: "\<And>x. recorded su (k x)"
  shows "recorded su (t_bind m k)"
  unfolding recorded_def
proof (intro allI impI)
  fix st y assume run: "t_bind m k st = Some y"
  obtain w1 c1 r1 where m1: "m st = Some (w1, c1, r1)" using run by (auto simp: t_bind_def split: option.splits)
  have M: "recorded_end su (snd st) (w1, c1, r1)" using m m1 unfolding recorded_def by blast
  show "recorded_end su (snd st) y"
  proof (cases r1)
    case (Done x)
    then have "k x (w1, c1) = Some y" using run m1 by (simp add: t_bind_def)
    then have "recorded_end su c1 y" using k[of x] unfolding recorded_def by fastforce
    then show ?thesis using M by (auto simp: recorded_end_def intro: prefix_order.trans)
  qed (use run m1 M in \<open>auto simp: t_bind_def recorded_end_def\<close>)
qed

lemma recorded_derived [recording]:
  "recorded su m' \<Longrightarrow> recorded su (t_when b m')" "recorded su (t_must err f)" "recorded su (first_format su)"
  "(\<And>x. recorded su (g x)) \<Longrightarrow> recorded su (t_each g xs)"
proof -
  show "recorded su m' \<Longrightarrow> recorded su (t_when b m')" by (simp add: t_when_def recorded_basic)
  show "recorded su (t_must err f)"
    unfolding t_must_def by (intro recording) (auto intro: recording split: sum.split)
  show "recorded su (first_format su)"
    by (auto simp: recorded_def recorded_end_def first_format_def t_crash_def t_return_def split: list.splits)
  show "(\<And>x. recorded su (g x)) \<Longrightarrow> recorded su (t_each g xs)"
    by (induction xs) (auto intro: recording)
qed

lemma recorded_end_basic:
  "recorded_end su c (w, c, Done x)" "t_Fatalf e st = Some y \<Longrightarrow> recorded_end su (snd st) y"
  "recorded_end su c (w, check_order s r prev ts prevTS c, Done x)"
  by (auto simp: recorded_end_def t_Fatalf_def check_order_def Let_def record_failure_ok)

lemma recorded_await_loop [recording]: "recorded su (await_loop cl deadline ref)"
  unfolding recorded_def
proof (intro allI impI)
  fix st y assume run: "await_loop cl deadline ref st = Some y"
  show "recorded_end su (snd st) y"
  proof (rule await_loop.raw_induct[where P = "\<lambda>cl deadline ref st y. recorded_end su (snd st) y", OF _ run], goal_cases)
    case (1 rec cl deadline ref st y)
    obtain w r where get: "cl_GetTask cl ref (fst st) = (w, r)" by fastforce
    consider "\<not> cl_Now cl (fst st) < deadline" | e where "cl_Now cl (fst st) < deadline" "r = Inl e"
      | s where "cl_Now cl (fst st) < deadline" "r = Inr s" by (cases r) auto
    then show ?case
    proof cases
      case (3 s)
      then show ?thesis
        using 1(2) 1(1)[of cl deadline ref "(cl_Sleep cl 100000000 w, snd st)" y] recorded_end_basic(1)[of su "snd st" w]
        by (auto simp: get split: if_splits)
    qed (use 1(2) recorded_end_basic(2)[of _ st y su] recorded_end_basic(2)[of _ "(w, snd st)" y su] in \<open>simp_all add: get\<close>)
  qed
qed

lemma recorded_watch_loop [recording]: "recorded su (watch_loop cl stream prev prevTS final)"
  unfolding recorded_def
proof (intro allI impI)
  fix st y assume run: "watch_loop cl stream prev prevTS final st = Some y"
  show "recorded_end su (snd st) y"
  proof (rule watch_loop.raw_induct[where P = "\<lambda>cl stream prev prevTS final st y. recorded_end su (snd st) y", OF _ run], goal_cases)
    case (1 rec cl stream prev prevTS final st y)
    obtain w stream' m where recv: "cl_Recv cl stream (fst st) = Some (w, stream', m)"
      using 1(2) by (auto split: option.splits)
    show ?case
    proof (cases m)
      case (Received s)
      show ?thesis
      proof (cases "rank (ws_State s)")
        case None
        then show ?thesis using 1(2) recorded_end_basic(2)[of _ "(w, snd st)" y su] by (simp add: recv Received)
      next
        case (Some r)
        let ?c = "check_order (ws_State s) r prev (ws_UpdatedAt s) prevTS (snd st)"
        have c: "recorded_end su (snd st) (w, ?c, Done (Some s))" by (rule recorded_end_basic(3))
        show ?thesis
        proof (cases "r = 2")
          case True
          then show ?thesis using 1(2) c by (simp add: recv Received Some)
        next
          case False
          then have "rec cl stream' r (ws_UpdatedAt s) (Some s) (w, ?c) = Some y" using 1(2) by (simp add: recv Received Some)
          from 1(1)[OF this] c show ?thesis by (auto simp: recorded_end_def intro: prefix_order.trans)
        qed
      qed
    qed (use 1(2) recv recorded_end_basic(1) recorded_end_basic(2)[of _ "(w, snd st)" y su] in auto)
  qed
qed

lemma recorded_submit_many [recording]: "recorded su (submit_many n f ids)"
  by (induction n f ids rule: submit_many.induct) (auto intro!: recording split: sum.split)

lemma recorded_await [recording]: "recorded su (awaitTerminal cl su ref)"
  using recorded_await_loop[of su cl _ ref] by (auto simp: recorded_def awaitTerminal_def)

lemma recorded_check_if_accepted [recording]:
  "(\<And>s. recorded su (check s)) \<Longrightarrow> recorded su (check_if_accepted cl su f check)"
  unfolding check_if_accepted_def by (intro recording) (auto intro: recording split: sum.split)

lemma recorded_cases [recording]:
  "(b \<Longrightarrow> recorded su m) \<Longrightarrow> (\<not> b \<Longrightarrow> recorded su m') \<Longrightarrow> recorded su (if b then m else m')"
  "recorded su m \<Longrightarrow> (\<And>x xs. recorded su (g x xs)) \<Longrightarrow> recorded su (case l of [] \<Rightarrow> m | x # xs \<Rightarrow> g x xs)"
  "recorded su m \<Longrightarrow> (\<And>x. recorded su (h x)) \<Longrightarrow> recorded su (case v of None \<Rightarrow> m | Some x \<Rightarrow> h x)"
  by (simp_all split: list.split option.split)

lemma recorded_categories: "x \<in> set (suite_categories cl su) \<Longrightarrow> recorded su (snd x)"
proof -
  have "recorded su (CapabilityHonesty cl su)" "recorded su (StateMachine cl su)" "recorded su (Idempotency cl su)"
    "recorded su (Cancellation cl su)" "recorded su (Provenance cl su)" "recorded su (Usage cl su)"
    "recorded su (ErrorTaxonomy cl su)" "recorded su (Sessions cl su)" "recorded su (SessionsUndeclared cl su)"
    unfolding CapabilityHonesty_def check_technology_def StateMachine_def poll_once_def Idempotency_def Let_def
      Cancellation_def Provenance_def check_metric_def Usage_def check_usage_def ErrorTaxonomy_def Sessions_def
      check_lost_session_def SessionsUndeclared_def
    by (intro recording)+
  then show "x \<in> set (suite_categories cl su) \<Longrightarrow> recorded su (snd x)"
    by (auto simp: suite_categories_def split: if_splits)
qed

section \<open>Reports\<close>

lemma run_categories_recorded:
  assumes "\<And>x. x \<in> set cs \<Longrightarrow> recorded su (snd x)" and "run_categories cs st = Some (Finished st')"
  shows "\<exists>new. snd st' = snd st @ new \<and> map cr_Name new = map fst cs \<and> (\<forall>c \<in> set new. well_recorded c)"
  using assms
proof (induction cs st rule: run_categories.induct)
  case (2 name f cs st)
  obtain w c r where f: "f (fst st, \<lparr>cr_Name = name, cr_Passed = True, cr_Failures = [], cr_Logs = []\<rparr>) = Some (w, c, r)" "r \<noteq> Crashed"
    and rest: "run_categories cs (w, snd st @ [c]) = Some (Finished st')"
    using 2(3) by (auto simp: Recorder_Run_def split: option.splits run.splits if_splits)
  have rec: "recorded su f" using 2(2)[of "(name, f)"] by simp
  have c: "well_recorded c" "cr_Name c = name"
    using recordedD(1,2)[OF rec f(1)] by (simp_all add: well_recorded_def)
  have "Recorder_Run name f st = Some (Finished (w, snd st @ [c]))" using f by (simp add: Recorder_Run_def)
  from 2(1)[OF this refl _ rest] 2(2) obtain new where
    "snd st' = snd st @ c # new" "map cr_Name new = map fst cs" "\<forall>c \<in> set new. well_recorded c" by auto
  then show ?case using c by (intro exI[of _ "c # new"]) auto
qed auto

lemma Recorder_Passed_all: "Recorder_Passed cats \<longleftrightarrow> (\<forall>c \<in> set cats. cr_Passed c)"
  by (induction cats) auto

text \<open>C36: A report that is built from a finished run says what happened: it has one result for each category
  that applies to the declared capabilities, in order, and it is passed exactly if no category recorded a
  failure. \<open>Fatalf\<close> cannot end a category without a failure.\<close>

theorem report_is_sound:
  assumes "Suite_Run cl su w = Some (Finished (w', cats))"
  shows "map cr_Name (rp_Categories (BuildReport v addr su cats t notes)) =
       [''cat1-capability-honesty'', ''cat2-state-machine'', ''cat3-idempotency''] @
       (if ca_Cancellation (su_Caps su) then [''cat4-cancellation''] else []) @
       [''cat5-provenance'', ''cat6-usage'', ''cat7-error-taxonomy'',
        if ca_Sessions (su_Caps su) then ''cat8-sessions'' else ''cat8-sessions-undeclared''] \<and>
     (rp_Passed (BuildReport v addr su cats t notes) \<longleftrightarrow> (\<forall>c \<in> set cats. cr_Failures c = []))"
proof -
  have "\<exists>new. cats = new \<and> map cr_Name new = map fst (suite_categories cl su) \<and> (\<forall>c \<in> set new. well_recorded c)"
    using run_categories_recorded[OF recorded_categories assms[unfolded Suite_Run_def]] by simp
  then show ?thesis
    by (auto simp: BuildReport_def Let_def Recorder_Passed_all well_recorded_def suite_categories_def)
qed

section \<open>Crashes\<close>

lemma run_categories_panic:
  assumes "\<And>x. x \<in> set cs \<Longrightarrow> recorded su (snd x)" and "run_categories cs st = Some Panicked"
  shows "ca_ProgramFormats (su_Caps su) = []"
  using assms
proof (induction cs st rule: run_categories.induct)
  case (2 name f cs st)
  let ?st = "(fst st, \<lparr>cr_Name = name, cr_Passed = True, cr_Failures = [], cr_Logs = []\<rparr>)"
  obtain w c r where f: "f ?st = Some (w, c, r)"
    using 2(3) by (auto simp: Recorder_Run_def split: option.splits)
  show ?case
  proof (cases "r = Crashed")
    case True
    have rec: "recorded su f" using 2(2)[of "(name, f)"] by simp
    show ?thesis using recordedD(5)[OF rec f _ True] by (simp add: well_recorded_def)
  next
    case False
    then have "Recorder_Run name f st = Some (Finished (w, snd st @ [c]))" using f by (simp add: Recorder_Run_def)
    then show ?thesis using 2 by auto
  qed
qed simp

text \<open>C40: The harness itself crashes exactly for an adapter that declares no program formats. Category 1
  reports that case as a failure, but the categories after it index the empty list, and the recorder lets
  this panic through, so no report is written.\<close>

theorem harness_crashes_iff_no_formats:
  "Suite_Run cl su w = Some Panicked \<longleftrightarrow> ca_ProgramFormats (su_Caps su) = []"
proof
  assume "Suite_Run cl su w = Some Panicked"
  then show "ca_ProgramFormats (su_Caps su) = []"
    using run_categories_panic[OF recorded_categories] by (simp add: Suite_Run_def)
next
  assume empty: "ca_ProgramFormats (su_Caps su) = []"
  have c1: "\<exists>c. CapabilityHonesty cl su st = Some (fst st, c, Aborted)" for st :: "'a \<times> CategoryResult"
    using empty by (auto simp: CapabilityHonesty_def check_technology_def t_bind_def t_Errorf_def t_Logf_def t_return_def
      t_Fatalf_def Let_def)
  have c2: "StateMachine cl su st = Some (fst st, snd st, Crashed)" for st :: "'a \<times> CategoryResult"
    using empty by (simp add: StateMachine_def first_format_def t_crash_def t_bind_def)
  show "Suite_Run cl su w = Some Panicked"
    using c1[of "(w, \<lparr>cr_Name = ''cat1-capability-honesty'', cr_Passed = True, cr_Failures = [], cr_Logs = []\<rparr>)"]
    by (auto simp: Suite_Run_def suite_categories_def Recorder_Run_def c2)
qed


section \<open>What a passed category means\<close>

definition fresh_result :: "string \<Rightarrow> CategoryResult" where
  "fresh_result name = \<lparr>cr_Name = name, cr_Passed = True, cr_Failures = [], cr_Logs = []\<rparr>"

text \<open>The answers to \<open>n\<close> calls in a row.\<close>

fun answers :: "nat \<Rightarrow> ('s \<Rightarrow> 's \<times> 'a) \<Rightarrow> 's \<Rightarrow> 'a list" where
  "answers 0 f w = []"
| "answers (Suc n) f w = (case f w of (w', r) \<Rightarrow> r # answers n f w')"

lemma passed_bind:
  assumes "t_bind m k (w, c0) = Some (w', c, r)" and "cr_Passed c" and "well_recorded c0"
    and "recorded su m" and "\<And>x. recorded su (k x)" and "r \<noteq> Crashed"
  obtains w1 c1 x where "m (w, c0) = Some (w1, c1, Done x)" "k x (w1, c1) = Some (w', c, r)" "cr_Passed c1" "well_recorded c1"
proof -
  obtain w1 c1 r1 where m: "m (w, c0) = Some (w1, c1, r1)" using assms(1) by (auto simp: t_bind_def split: option.splits)
  note M = recordedD[OF assms(4) m, simplified, OF assms(3)]
  obtain x where x: "r1 = Done x"
    using assms(1,2,6) m M(4) by (cases r1) (auto simp: t_bind_def)
  have k: "k x (w1, c1) = Some (w', c, r)" using assms(1) m x by (simp add: t_bind_def)
  note K = recordedD[OF assms(5) k, simplified, OF M(1)]
  have "cr_Passed c1" using assms(2) K(1,3) M(1) by (auto simp: well_recorded_def)
  then show ?thesis using that m x k M(1) by blast
qed

lemma submit_many_passed:
  assumes "submit_many n f ids (w, c0) = Some (w', c, Done ids')" and "cr_Passed c" and "well_recorded c0"
  shows "\<exists>hs. answers n f w = map Inr hs \<and> ids' = ids @ map rf_TaskId hs"
  using assms
proof (induction n arbitrary: ids w)
  case (Suc n)
  obtain w1 r where f: "f w = (w1, r)" by fastforce
  show ?case
  proof (cases r)
    case (Inl e)
    then have run: "submit_many n f ids (w1, record_failure (SubmitFailed e) c0) = Some (w', c, Done ids')"
      using Suc(2) f by (simp add: t_bind_def t_call_def t_Errorf_def)
    have "prefix (cr_Failures c0 @ [SubmitFailed e]) (cr_Failures c)" and "well_recorded c"
      using recordedD(1,3)[OF recorded_submit_many run] by (simp_all add: record_failure_ok)
    then show ?thesis using Suc(3) by (auto simp: well_recorded_def)
  next
    case (Inr h)
    then have "submit_many n f (ids @ [rf_TaskId h]) (w1, c0) = Some (w', c, Done ids')"
      using Suc(2) f by (simp add: t_bind_def t_call_def)
    from Suc(1)[OF this Suc(3,4)] obtain hs where "answers n f w1 = map Inr hs" "ids' = ids @ map rf_TaskId (h # hs)" by auto
    then show ?thesis using f Inr by (intro exI[of _ "h # hs"]) simp
  qed
qed (simp add: t_return_def)

lemma length_answers [simp]: "length (answers n f w) = n"
  by (induction n arbitrary: w) (auto split: prod.split)

text \<open>A passed category 3 means what it claims, for every adapter: all thousand submissions of one key were
  accepted and answered with one and the same task.\<close>

theorem passed_idempotency_is_idempotent:
  assumes "Idempotency cl su (w, fresh_result name) = Some (w', c, Done ())" and "cr_Passed c"
  shows "\<exists>format i. format = hd (ca_ProgramFormats (su_Caps su)) \<and>
    (\<forall>a \<in> set (answers 1000 (submit cl su ''idem'' format validQASM 100 []) w). \<exists>h. a = Inr h \<and> rf_TaskId h = i)"
proof -
  let ?after = "\<lambda>ids. let distinct = remdups ids in
     if length distinct \<noteq> 1 then t_Fatalf (DistinctTasks idem_submissions (length distinct))
     else
       t_bind (awaitTerminal cl su \<lparr>rf_TargetId = su_TargetID su, rf_TaskId = last ids\<rparr>) (\<lambda>s.
       if ws_State s \<noteq> TSSucceeded then t_Fatalf (IdempotentFailed s)
       else (let units = map ur_Unit (ws_Usage s) in
         t_each (\<lambda>u. t_when (count_list units u \<noteq> 1) (t_Errorf (UnitRepeated u (count_list units u)))) (remdups units)))"
  let ?many = "\<lambda>format. submit_many idem_submissions (submit cl su ''idem'' format validQASM 100 []) []"
  have after: "recorded su (?after ids)" for ids unfolding Let_def by (intro recording)
  have start: "well_recorded (fresh_result name)" by (simp add: well_recorded_def fresh_result_def)
  have run: "t_bind (first_format su) (\<lambda>format. t_bind (?many format) ?after) (w, fresh_result name) = Some (w', c, Done ())"
    using assms(1) by (simp add: Idempotency_def)
  have inner: "recorded su (t_bind (?many format) ?after)" for format by (intro recorded_bind recorded_submit_many after)
  obtain w1 c1 format where
    ff: "first_format su (w, fresh_result name) = Some (w1, c1, Done format)"
    and k: "t_bind (?many format) ?after (w1, c1) = Some (w', c, Done ())" and c1: "cr_Passed c1" "well_recorded c1"
    by (rule passed_bind[OF run assms(2) start recorded_derived(3) inner]) simp
  have w1: "w1 = w" "format = hd (ca_ProgramFormats (su_Caps su))"
    using ff by (auto simp: first_format_def t_return_def t_crash_def split: list.splits)
  obtain w2 c2 ids where
    many: "?many format (w1, c1) = Some (w2, c2, Done ids)" "cr_Passed c2" and fin: "?after ids (w2, c2) = Some (w', c, Done ())"
    by (rule passed_bind[OF k assms(2) c1(2) recorded_submit_many after]) simp
  obtain hs where hs: "answers idem_submissions (submit cl su ''idem'' format validQASM 100 []) w = map Inr hs"
    "ids = map rf_TaskId hs" using submit_many_passed[OF many c1(2)] w1(1) by auto
  have "length (remdups ids) = 1" using fin by (auto simp: Let_def t_Fatalf_def split: if_splits)
  then have "card (set ids) = 1" by (simp add: length_remdups_card_conv)
  then obtain i where "set ids = {i}" by (auto simp: card_1_singleton_iff)
  then show ?thesis
    using hs w1(2) by (auto simp: idem_submissions_def intro!: exI[of _ i])
qed

end
