(* ===== verification/Conformance_Contract.thy ===== *)
theory Conformance_Contract
  imports Conformance_Properties
begin

text \<open>
  The contract of an adapter, as the suite sees it, and what follows from it: a locale of a client and a
  view of its world, in which every category is proved to pass, up to the two promises an adapter may
  break (enforcing \<open>max_shots\<close> and serving the sessions it declares).
\<close>

section \<open>Verdicts\<close>

text \<open>How a task is going to end.\<close>

datatype verdict = Succeeds | Fails string | EndsCancelled

definition meets :: "string list \<Rightarrow> verdict \<Rightarrow> WireStatus \<Rightarrow> bool" where
  "meets declared v s = (case v of
     Succeeds \<Rightarrow> ws_State s = TSSucceeded \<and> ws_Usage s \<noteq> [] \<and> distinct (map ur_Unit (ws_Usage s)) \<and>
       (\<forall>u \<in> set (ws_Usage s). ur_Unit u \<in> set declared \<and> ur_Amount u > 0 \<and> ur_RecordedAt u \<noteq> None)
   | Fails cat \<Rightarrow> ws_State s = TSFailed \<and> error_category s = cat
   | EndsCancelled \<Rightarrow> ws_State s = TSCancelled \<and> ws_Usage s = [])"

text \<open>The verdict the declared capabilities demand for a request of the suite.\<close>

definition declared_verdict :: "WireCapabilities \<Rightarrow> bool \<Rightarrow> (string \<Rightarrow> bool) \<Rightarrow> SubmitTaskRequest \<Rightarrow> verdict" where
  "declared_verdict caps enforces opened req =
     (if sq_Format req \<notin> set (ca_ProgramFormats caps) then Fails ''CAPABILITY_MISMATCH''
      else if sq_SessionId req \<noteq> [] \<and> \<not> opened (sq_SessionId req) then Fails ''SESSION_LOST''
      else if sq_Inline req = invalidQASM then Fails ''INVALID_PROGRAM''
      else if 0 < ca_MaxShots caps \<and> ca_MaxShots caps < unat (sq_Shots req) \<and> enforces then Fails ''CAPABILITY_MISMATCH''
      else Succeeds)"

text \<open>What the suite can rely on in a world: the keys that were used and their tasks, the open sessions, for a
  task its verdict and the time by which it has ended, whether it has not started, the state it ended in,
  and how far a watch of it got.\<close>

record ('s, 'w) view =
  vw_used :: "'s \<Rightarrow> string set"
  vw_owns :: "'s \<Rightarrow> string \<Rightarrow> string \<Rightarrow> bool"
  vw_opened :: "'s \<Rightarrow> string \<Rightarrow> bool"
  vw_ends :: "'s \<Rightarrow> string \<Rightarrow> verdict \<Rightarrow> time \<Rightarrow> bool"
  vw_queued :: "'s \<Rightarrow> string \<Rightarrow> bool"
  vw_final :: "'s \<Rightarrow> string \<Rightarrow> task_state \<Rightarrow> bool"
  vw_watching :: "'s \<Rightarrow> 'w \<Rightarrow> string \<Rightarrow> int \<Rightarrow> time \<Rightarrow> bool"

definition keeps_ends :: "('s, 'w) view \<Rightarrow> 's \<Rightarrow> 's \<Rightarrow> bool" where
  "keeps_ends V w w' \<longleftrightarrow> (\<forall>i v t. vw_ends V w i v t \<longrightarrow> vw_ends V w' i v t)"

definition same_view :: "('s, 'w) view \<Rightarrow> 's \<Rightarrow> 's \<Rightarrow> bool" where
  "same_view V w w' \<longleftrightarrow> vw_used V w' = vw_used V w \<and> vw_opened V w' = vw_opened V w \<and> keeps_ends V w w'"

lemma same_view_refl [simp]: "same_view V w w"
  by (simp add: same_view_def keeps_ends_def)

lemma same_view_trans: "same_view V w w' \<Longrightarrow> same_view V w' w'' \<Longrightarrow> same_view V w w''"
  by (auto simp: same_view_def keeps_ends_def)

text \<open>The keys of the suite, and what a submission under a new key achieves.\<close>

definition suite_keys :: "string list" where
  "suite_keys = [''cap-valid'', ''cap-invalid'', ''cap-shots'', ''fsm'', ''idem'', ''cancel-slow'', ''cancel-queued'', ''usage'',
     ''tax-bad'', ''tax-format'', ''sess-live'', ''sess-dead'', ''sess-ghost'']"

definition submitted ::
  "('s, 'w) conf_client \<Rightarrow> ('s, 'w) view \<Rightarrow> verdict \<Rightarrow> duration \<Rightarrow> string \<Rightarrow> 's \<Rightarrow> 's \<Rightarrow> TaskRef \<Rightarrow> bool" where
  "submitted cl V v lag key w w' ref \<longleftrightarrow> cl_Now cl w' = cl_Now cl w \<and> vw_used V w' = insert key (vw_used V w) \<and>
     vw_opened V w' = vw_opened V w \<and> keeps_ends V w w' \<and> vw_ends V w' (rf_TaskId ref) v (cl_Now cl w + lag) \<and>
     vw_owns V w' key (rf_TaskId ref) \<and> vw_queued V w' (rf_TaskId ref) \<and>
     (\<forall>i v t. vw_ends V w i v t \<longrightarrow> i \<noteq> rf_TaskId ref)"

text \<open>What a category leaves behind: only its own keys are new.\<close>

definition leaves :: "('s \<Rightarrow> bool) \<Rightarrow> ('s, 'w) view \<Rightarrow> Suite \<Rightarrow> string list \<Rightarrow> 's \<Rightarrow> 's \<Rightarrow> bool" where
  "leaves good V su ks w w' \<longleftrightarrow> good w' \<and> vw_used V w' \<subseteq> vw_used V w \<union> (\<lambda>k. su_KeyPrefix su @ k) ` set ks"

definition unused :: "('s, 'w) view \<Rightarrow> Suite \<Rightarrow> string list \<Rightarrow> 's \<Rightarrow> bool" where
  "unused V su ks w \<longleftrightarrow> (\<forall>k \<in> set ks. su_KeyPrefix su @ k \<notin> vw_used V w)"

lemma unused_after:
  "unused V su ks w \<Longrightarrow> leaves good V su ks' w w' \<Longrightarrow> set ks \<inter> set ks' = {} \<Longrightarrow> unused V su ks w'"
  unfolding unused_def leaves_def by blast

section \<open>Tests that record nothing\<close>

definition passes :: "('s, 'a) test \<Rightarrow> 's \<Rightarrow> ('s \<Rightarrow> 'a \<Rightarrow> bool) \<Rightarrow> bool" where
  "passes m w Q \<longleftrightarrow> (\<forall>c. \<exists>w' x. m (w, c) = Some (w', c, Done x) \<and> Q w' x)"

lemma passes_bind:
  assumes "passes m w Q" and "\<And>w' x. Q w' x \<Longrightarrow> passes (k x) w' R"
  shows "passes (t_bind m k) w R"
  unfolding passes_def
proof
  fix c
  obtain w' x where "m (w, c) = Some (w', c, Done x)" "Q w' x" using assms(1) unfolding passes_def by blast
  then show "\<exists>w' y. t_bind m k (w, c) = Some (w', c, Done y) \<and> R w' y"
    using assms(2)[of w' x] by (simp add: passes_def t_bind_def)
qed

lemma passes_return: "Q w x \<Longrightarrow> passes (t_return x) w Q"
  by (simp add: passes_def t_return_def)

lemma passes_when: "\<not> b \<Longrightarrow> Q w () \<Longrightarrow> passes (t_when b m) w Q"
  by (simp add: t_when_def passes_return)

lemma passes_skip: "\<not> b \<Longrightarrow> passes (k ()) w R \<Longrightarrow> passes (t_bind (t_when b m) k) w R"
  by (simp add: passes_def t_when_def t_bind_def t_return_def)

lemma passes_call: "f w = (w', x) \<Longrightarrow> Q w' x \<Longrightarrow> passes (t_call f) w Q"
  by (simp add: passes_def t_call_def)

lemma passes_must: "f w = (w', Inr x) \<Longrightarrow> Q w' x \<Longrightarrow> passes (t_must e f) w Q"
  by (simp add: passes_def t_must_def t_bind_def t_call_def t_return_def)

lemma passes_weaken: "passes m w Q \<Longrightarrow> (\<And>w' x. Q w' x \<Longrightarrow> R w' x) \<Longrightarrow> passes m w R"
  unfolding passes_def by blast

text \<open>A loop of checks that keep a property of the world.\<close>

lemma passes_each:
  assumes "\<And>x w. x \<in> set xs \<Longrightarrow> P w \<Longrightarrow> passes (f x) w (\<lambda>w' _. P w')" and "P w"
  shows "passes (t_each f xs) w (\<lambda>w' _. P w')"
  using assms by (induction xs arbitrary: w) (auto intro: passes_return passes_bind)

text \<open>A category that ends, and passes exactly if \<open>ok\<close>.\<close>

definition yields :: "('s, 'a) test \<Rightarrow> 's \<Rightarrow> bool \<Rightarrow> ('s \<Rightarrow> bool) \<Rightarrow> bool" where
  "yields m w ok Q \<longleftrightarrow> (\<forall>c. \<exists>w' c' r. m (w, c) = Some (w', c', r) \<and> r \<noteq> Crashed \<and>
     (cr_Passed c' \<longleftrightarrow> cr_Passed c \<and> ok) \<and> cr_Name c' = cr_Name c \<and> Q w')"

lemma yields_passes: "passes m w (\<lambda>w' _. Q w') \<Longrightarrow> ok \<Longrightarrow> yields m w ok Q"
  unfolding passes_def yields_def by fastforce

lemma yields_bind:
  assumes "passes m w P" and "\<And>w' x. P w' x \<Longrightarrow> yields (k x) w' ok Q"
  shows "yields (t_bind m k) w ok Q"
  unfolding yields_def
proof
  fix c
  obtain w' x where "m (w, c) = Some (w', c, Done x)" "P w' x" using assms(1) unfolding passes_def by blast
  then show "\<exists>w' c' r. t_bind m k (w, c) = Some (w', c', r) \<and> r \<noteq> Crashed \<and>
     (cr_Passed c' \<longleftrightarrow> cr_Passed c \<and> ok) \<and> cr_Name c' = cr_Name c \<and> Q w'"
    using assms(2)[of w' x] by (simp add: yields_def t_bind_def)
qed

lemma yields_failure:
  "Q w \<Longrightarrow> yields (t_Errorf e) w False Q" "Q w \<Longrightarrow> yields (t_Fatalf e) w False Q"
  by (simp_all add: yields_def t_Errorf_def t_Fatalf_def record_failure_ok)

section \<open>The contract\<close>

text \<open>The clock: sleeping lets exactly that time pass and queries change nothing. This is enough for
  \<open>awaitTerminal\<close> to return.\<close>

locale clocked_client =
  fixes cl :: "('s, 'w) conf_client" and good :: "'s \<Rightarrow> bool"
  assumes sleep_now: "good w \<Longrightarrow> 0 \<le> d \<Longrightarrow> good (cl_Sleep cl d w) \<and> cl_Now cl (cl_Sleep cl d w) = cl_Now cl w + d"
    and get_keeps: "good w \<Longrightarrow> fst (cl_GetTask cl ref w) = w"
begin

lemma await_loop_returns:
  "good w \<Longrightarrow> \<exists>w' c' r. await_loop cl deadline ref (w, c) = Some (w', c', r) \<and> good w' \<and> r \<noteq> Crashed"
proof (induction "nat (deadline - cl_Now cl w)" arbitrary: w rule: less_induct)
  case less
  obtain r where get: "cl_GetTask cl ref w = (w, r)" using get_keeps[OF less(2)] by (metis prod.collapse)
  show ?case
  proof (cases "cl_Now cl w < deadline \<and> (\<exists>s. r = Inr s \<and> \<not> isTerminalState (ws_State s))")
    case True
    then obtain s where s: "r = Inr s" "\<not> isTerminalState (ws_State s)" by blast
    let ?w = "cl_Sleep cl 100000000 w"
    have w: "good ?w" "cl_Now cl ?w = cl_Now cl w + 100000000" using sleep_now[OF less(2), of 100000000] by auto
    have "nat (deadline - cl_Now cl ?w) < nat (deadline - cl_Now cl w)" using True w(2) by simp
    from less(1)[OF this w(1)] show ?thesis
      using True s get by (simp add: await_loop.simps[of cl deadline ref "(w, c)"])
  next
    case False
    then show ?thesis
      using get less(2) by (cases r) (auto simp: await_loop.simps[of cl deadline ref "(w, c)"] t_Fatalf_def)
  qed
qed

lemma await_returns: "good w \<Longrightarrow> awaitTerminal cl su ref (w, c) \<noteq> None"
  using await_loop_returns[of w "cl_Now cl w + task_timeout su" ref c] by (auto simp: awaitTerminal_def)

end


text \<open>The contract proper. \<open>enforces\<close> and \<open>works\<close> say whether the adapter enforces \<open>max_shots\<close> and serves
  sessions; everything else it has to keep.\<close>

locale contract_client = clocked_client cl good
  for cl :: "('s, 'w) conf_client" and good :: "'s \<Rightarrow> bool" +
  fixes su :: Suite and V :: "('s, 'w) view" and enforces works :: bool and lag :: duration and snapshot :: string
  assumes formats: "ca_ProgramFormats (su_Caps su) \<noteq> []" "''no-such-format'' \<notin> set (ca_ProgramFormats (su_Caps su))"
    and declares: "ca_BillingUnits (su_Caps su) \<noteq> []" "ti_Technology (ca_Target (su_Caps su)) \<in> set technologyRegistry"
      "ca_Cancellation (su_Caps su)" "ca_Sessions (su_Caps su)"
    and max_shots: "321 \<le> ca_MaxShots (su_Caps su)" "Suc (ca_MaxShots (su_Caps su)) < 2 ^ 64"
    and lag: "0 \<le> lag" "lag + 100000000 \<le> task_timeout su"
    and sleep_view: "good w \<Longrightarrow> 0 \<le> d \<Longrightarrow> same_view V w (cl_Sleep cl d w)"
    and sleep_final: "good w \<Longrightarrow> 0 \<le> d \<Longrightarrow> vw_final V w i x \<Longrightarrow> vw_final V (cl_Sleep cl d w) i x"
    and get_task: "good w \<Longrightarrow> vw_ends V w (rf_TaskId ref) v t \<Longrightarrow> \<exists>s. cl_GetTask cl ref w = (w, Inr s) \<and>
      (if isTerminalState (ws_State s) then meets (ca_BillingUnits (su_Caps su)) v s else cl_Now cl w < t)"
    and get_final: "good w \<Longrightarrow> vw_final V w (rf_TaskId ref) x \<Longrightarrow> \<exists>s. cl_GetTask cl ref w = (w, Inr s) \<and> ws_State s = x"
    and new_key: "good w \<Longrightarrow> k \<in> set suite_keys \<Longrightarrow> su_KeyPrefix su @ k \<notin> vw_used V w \<Longrightarrow>
      program = validQASM \<or> program = invalidQASM \<Longrightarrow> 0 < shots \<Longrightarrow>
      \<exists>w' ref. cl_SubmitTask cl (submit_request_in su k format program shots session params) w = (w', Inr ref) \<and> good w' \<and>
        submitted cl V (declared_verdict (su_Caps su) enforces (vw_opened V w)
          (submit_request_in su k format program shots session params)) lag (su_KeyPrefix su @ k) w w' ref"
    and same_key: "good w \<Longrightarrow> vw_owns V w (su_KeyPrefix su @ k) i \<Longrightarrow>
      cl_SubmitTask cl (submit_request_in su k format program shots session params) w =
        (w, Inr \<lparr>rf_TargetId = su_TargetID su, rf_TaskId = i\<rparr>)"
    and cancel: "good w \<Longrightarrow> vw_queued V w (rf_TaskId ref) \<Longrightarrow> vw_ends V w (rf_TaskId ref) v t \<Longrightarrow>
      \<exists>w'. cl_CancelTask cl ref w = (w', Inr True) \<and> good w' \<and> cl_Now cl w' = cl_Now cl w \<and> vw_used V w' = vw_used V w \<and>
        vw_ends V w' (rf_TaskId ref) EndsCancelled t \<and>
        (\<forall>i v t. i \<noteq> rf_TaskId ref \<longrightarrow> vw_ends V w i v t \<longrightarrow> vw_ends V w' i v t)"
    and watch: "good w \<Longrightarrow> vw_ends V w (rf_TaskId ref) v t \<Longrightarrow>
      \<exists>stream. cl_WatchTask cl ref w = (w, Inr stream) \<and> vw_watching V w stream (rf_TaskId ref) (-1) zero_time"
    and receive: "good w \<Longrightarrow> vw_watching V w stream i r ts \<Longrightarrow> r < 2 \<Longrightarrow> vw_ends V w i v t \<Longrightarrow>
      \<exists>w' stream' s r'. cl_Recv cl stream w = Some (w', stream', Received s) \<and> good w' \<and> same_view V w w' \<and>
        rank (ws_State s) = Some r' \<and> r < r' \<and> ts \<le> ws_UpdatedAt s \<and>
        vw_watching V w' stream' i r' (ws_UpdatedAt s) \<and> (r' = 2 \<longrightarrow> vw_final V w' i (ws_State s))"
    and device_state: "good w \<Longrightarrow> \<exists>ds. cl_GetDeviceState cl (su_TargetID su) w = (w, Inr ds) \<and>
      cb_SnapshotId (wd_Calibration ds) = snapshot \<and> cb_MeasuredAt (wd_Calibration ds) \<noteq> None \<and>
      cb_Source (wd_Calibration ds) \<noteq> [] \<and> cb_Metrics (wd_Calibration ds) \<noteq> [] \<and>
      (\<forall>m \<in> set (cb_Metrics (wd_Calibration ds)). mt_Methodology m \<noteq> [] \<and> mt_Name m \<noteq> [])"
    and snapshot: "snapshot \<noteq> []"
    and no_target: "good w \<Longrightarrow> \<exists>text. cl_GetDeviceState cl ''no-such-target'' w = (w, Inl (NotFound, text))"
    and open_session: "good w \<Longrightarrow> works \<Longrightarrow> \<exists>w' h. cl_OpenSession cl (su_TargetID su) m w = (w', Inr h) \<and> good w' \<and>
      vw_used V w' = vw_used V w \<and> wh_SessionId h \<noteq> [] \<and> wh_ExpiresAt h \<noteq> None \<and> vw_opened V w' (wh_SessionId h)"
    and open_refused: "good w \<Longrightarrow> \<not> works \<Longrightarrow> \<exists>text. cl_OpenSession cl (su_TargetID su) m w = (w, Inl (Unimplemented, text))"
    and close_session: "good w \<Longrightarrow> \<exists>w'. cl_CloseSession cl h w = (w', Inr ()) \<and> good w' \<and>
      vw_used V w' = vw_used V w \<and> \<not> vw_opened V w' (wh_SessionId h)"
    and no_session: "good w \<Longrightarrow> \<not> vw_opened V w ''no-such-session''"
begin

text \<open>A task that ends in time is awaited.\<close>

lemma await_loop_ends:
  assumes "good w" and "vw_ends V w (rf_TaskId ref) v t" and "t + 100000000 \<le> deadline" and "cl_Now cl w < deadline"
  shows "passes (await_loop cl deadline ref) w (\<lambda>w' s. good w' \<and> same_view V w w' \<and> cl_Now cl w \<le> cl_Now cl w' \<and> meets (ca_BillingUnits (su_Caps su)) v s)"
  using assms
proof (induction "nat (deadline - cl_Now cl w)" arbitrary: w rule: less_induct)
  case less
  obtain s where get: "cl_GetTask cl ref w = (w, Inr s)"
    and s: "if isTerminalState (ws_State s) then meets (ca_BillingUnits (su_Caps su)) v s else cl_Now cl w < t"
    using get_task[OF less(2,3)] by blast
  show ?case
  proof (cases "isTerminalState (ws_State s)")
    case True
    then have "await_loop cl deadline ref (w, c) = Some (w, c, Done s)" for c
      using get less(5) by (simp add: await_loop.simps[of cl deadline ref "(w, c)"])
    then show ?thesis using s True less(2) by (simp add: passes_def)
  next
    case False
    let ?w = "cl_Sleep cl 100000000 w"
    have w: "good ?w" "cl_Now cl ?w = cl_Now cl w + 100000000" "same_view V w ?w"
      using sleep_now[OF less(2), of 100000000] sleep_view[OF less(2), of 100000000] by auto
    have "cl_Now cl w < t" using s False by simp
    then have lt: "nat (deadline - cl_Now cl ?w) < nat (deadline - cl_Now cl w)" "cl_Now cl ?w < deadline"
      using w(2) less(4,5) by auto
    have ends: "vw_ends V ?w (rf_TaskId ref) v t" using w(3) less(3) by (auto simp: same_view_def keeps_ends_def)
    have "passes (await_loop cl deadline ref) ?w (\<lambda>w' s. good w' \<and> same_view V w w' \<and> cl_Now cl w \<le> cl_Now cl w' \<and> meets (ca_BillingUnits (su_Caps su)) v s)"
      by (rule passes_weaken[OF less(1)[OF lt(1) w(1) ends less(4) lt(2)]]) (use w(2) in \<open>auto intro: same_view_trans[OF w(3)]\<close>)
    moreover have "await_loop cl deadline ref (w, c) = await_loop cl deadline ref (?w, c)" for c
      using get False less(5) by (simp add: await_loop.simps[of cl deadline ref "(w, c)"])
    ultimately show ?thesis by (simp add: passes_def)
  qed
qed

lemma await_ends:
  assumes "good w" and "vw_ends V w (rf_TaskId ref) v t" and "t \<le> cl_Now cl w + lag"
  shows "passes (awaitTerminal cl su ref) w (\<lambda>w' s. good w' \<and> same_view V w w' \<and> cl_Now cl w \<le> cl_Now cl w' \<and> meets (ca_BillingUnits (su_Caps su)) v s)"
proof -
  have "cl_Now cl w < cl_Now cl w + task_timeout su" using lag by linarith
  then show ?thesis
    using await_loop_ends[OF assms(1,2), of "cl_Now cl w + task_timeout su"] assms(3) lag(2)
    by (simp add: passes_def awaitTerminal_def)
qed


lemma first_format_passes:
  "passes (first_format su) w (\<lambda>w' f. w' = w \<and> f \<in> set (ca_ProgramFormats (su_Caps su)))"
  using formats(1) by (auto simp: first_format_def intro: passes_return split: list.splits)

lemma programs_differ: "validQASM \<noteq> invalidQASM"
  by (simp add: validQASM_def invalidQASM_def qasm_lines_def)

text \<open>A submission under a new key, then the wait for its end: the shape of most checks.\<close>

lemma submit_passes:
  assumes "good w" and "k \<in> set suite_keys" and "su_KeyPrefix su @ k \<notin> vw_used V w"
    and "program = validQASM \<or> program = invalidQASM" and "0 < shots"
  shows "passes (t_must e (cl_SubmitTask cl (submit_request_in su k format program shots session params))) w
    (\<lambda>w' ref. good w' \<and> submitted cl V (declared_verdict (su_Caps su) enforces (vw_opened V w)
       (submit_request_in su k format program shots session params)) lag (su_KeyPrefix su @ k) w w' ref)"
proof -
  obtain w' ref where "cl_SubmitTask cl (submit_request_in su k format program shots session params) w = (w', Inr ref)"
    "good w' \<and> submitted cl V (declared_verdict (su_Caps su) enforces (vw_opened V w)
       (submit_request_in su k format program shots session params)) lag (su_KeyPrefix su @ k) w w' ref"
    using new_key[OF assms] by blast
  then show ?thesis by (rule passes_must)
qed

lemma await_submitted:
  assumes "good w'" and "submitted cl V v lag key w w' ref"
  shows "passes (awaitTerminal cl su ref) w' (\<lambda>w'' s. good w'' \<and> vw_used V w'' = insert key (vw_used V w) \<and>
    vw_opened V w'' = vw_opened V w \<and> meets (ca_BillingUnits (su_Caps su)) v s)"
  using await_ends[OF assms(1), of ref v "cl_Now cl w + lag"] assms(2)
  by (auto simp: submitted_def same_view_def elim!: passes_weaken)

lemma submit_await_yields:
  assumes "good w" and "k \<in> set suite_keys" and "su_KeyPrefix su @ k \<notin> vw_used V w"
    and "program = validQASM \<or> program = invalidQASM" and "0 < shots"
    and check: "\<And>w' s. good w' \<Longrightarrow> vw_used V w' = insert (su_KeyPrefix su @ k) (vw_used V w) \<Longrightarrow> vw_opened V w' = vw_opened V w \<Longrightarrow>
      meets (ca_BillingUnits (su_Caps su)) (declared_verdict (su_Caps su) enforces (vw_opened V w)
        (submit_request_in su k format program shots session params)) s \<Longrightarrow> yields (K s) w' ok Q"
  shows "yields (t_bind (t_must e (cl_SubmitTask cl (submit_request_in su k format program shots session params)))
      (\<lambda>h. t_bind (awaitTerminal cl su h) K)) w ok Q"
    "yields (check_if_accepted cl su (cl_SubmitTask cl (submit_request_in su k format program shots session params)) K) w ok Q"
proof -
  have rest: "yields (t_bind (awaitTerminal cl su h) K) w' ok Q"
    if "good w'" "submitted cl V (declared_verdict (su_Caps su) enforces (vw_opened V w)
       (submit_request_in su k format program shots session params)) lag (su_KeyPrefix su @ k) w w' h" for w' h
    by (rule yields_bind[OF await_submitted[OF that]]) (use check in blast)
  show "yields (t_bind (t_must e (cl_SubmitTask cl (submit_request_in su k format program shots session params)))
      (\<lambda>h. t_bind (awaitTerminal cl su h) K)) w ok Q"
    by (rule yields_bind[OF submit_passes[OF assms(1-5)]]) (use rest in blast)
  obtain w' ref where sub: "cl_SubmitTask cl (submit_request_in su k format program shots session params) w = (w', Inr ref)"
    "good w'" "submitted cl V (declared_verdict (su_Caps su) enforces (vw_opened V w)
       (submit_request_in su k format program shots session params)) lag (su_KeyPrefix su @ k) w w' ref"
    using new_key[OF assms(1-5)] by blast
  show "yields (check_if_accepted cl su (cl_SubmitTask cl (submit_request_in su k format program shots session params)) K) w ok Q"
    unfolding check_if_accepted_def
    by (rule yields_bind[where P = "\<lambda>w1 r. w1 = w' \<and> r = Inr ref"])
      (use sub(1) rest[OF sub(2,3)] in \<open>auto intro: passes_call\<close>)
qed


lemma check_passes:
  assumes "good w" and "k \<in> set suite_keys" and "su_KeyPrefix su @ k \<notin> vw_used V w"
    and "program = validQASM \<or> program = invalidQASM" and "0 < shots"
    and check: "\<And>w' s. good w' \<Longrightarrow> vw_used V w' = insert (su_KeyPrefix su @ k) (vw_used V w) \<Longrightarrow> vw_opened V w' = vw_opened V w \<Longrightarrow>
      meets (ca_BillingUnits (su_Caps su)) (declared_verdict (su_Caps su) enforces (vw_opened V w)
        (submit_request_in su k format program shots session params)) s \<Longrightarrow> passes (K s) w' Q"
  shows "passes (check_if_accepted cl su (cl_SubmitTask cl (submit_request_in su k format program shots session params)) K) w Q"
proof -
  obtain w' ref where sub: "cl_SubmitTask cl (submit_request_in su k format program shots session params) w = (w', Inr ref)"
    "good w'" "submitted cl V (declared_verdict (su_Caps su) enforces (vw_opened V w)
       (submit_request_in su k format program shots session params)) lag (su_KeyPrefix su @ k) w w' ref"
    using new_key[OF assms(1-5)] by blast
  have "passes (t_bind (awaitTerminal cl su ref) K) w' Q"
    by (rule passes_bind[OF await_submitted[OF sub(2,3)]]) (use check in blast)
  then show ?thesis
    unfolding check_if_accepted_def
    by (intro passes_bind[where Q = "\<lambda>w1 r. w1 = w' \<and> r = Inr ref"]) (use sub(1) in \<open>auto intro: passes_call\<close>)
qed

text \<open>The verdicts of the requests the suite makes.\<close>

lemma verdict_valid [simp]:
  "format \<in> set (ca_ProgramFormats (su_Caps su)) \<Longrightarrow> session = [] \<or> opened session \<Longrightarrow> unat shots \<le> 321 \<Longrightarrow>
   declared_verdict (su_Caps su) enforces opened (submit_request_in su k format validQASM shots session params) = Succeeds"
  using max_shots(1) programs_differ by (auto simp: declared_verdict_def submit_request_in_def)

lemma verdict_invalid [simp]:
  "format \<in> set (ca_ProgramFormats (su_Caps su)) \<Longrightarrow>
   declared_verdict (su_Caps su) enforces opened (submit_request_in su k format invalidQASM shots [] params) = Fails ''INVALID_PROGRAM''"
  by (auto simp: declared_verdict_def submit_request_in_def)

lemma verdict_shots [simp]:
  "format \<in> set (ca_ProgramFormats (su_Caps su)) \<Longrightarrow>
   declared_verdict (su_Caps su) enforces opened (submit_request_in su k format validQASM (of_nat (ca_MaxShots (su_Caps su)) + 1) [] params) =
     (if enforces then Fails ''CAPABILITY_MISMATCH'' else Succeeds)"
proof -
  have "unat (of_nat (Suc (ca_MaxShots (su_Caps su))) :: 64 word) = Suc (ca_MaxShots (su_Caps su))"
    using max_shots(2) by (simp add: unsigned_of_nat take_bit_nat_eq_self del: of_nat_Suc)
  then show "format \<in> set (ca_ProgramFormats (su_Caps su)) \<Longrightarrow> ?thesis"
    using max_shots(1) programs_differ by (auto simp: declared_verdict_def submit_request_in_def add.commute)
qed

lemma verdict_format [simp]:
  "declared_verdict (su_Caps su) enforces opened (submit_request_in su k ''no-such-format'' program shots [] params) = Fails ''CAPABILITY_MISMATCH''"
  using formats(2) by (auto simp: declared_verdict_def submit_request_in_def)

lemma verdict_lost [simp]:
  "format \<in> set (ca_ProgramFormats (su_Caps su)) \<Longrightarrow> session \<noteq> [] \<Longrightarrow> \<not> opened session \<Longrightarrow>
   declared_verdict (su_Caps su) enforces opened (submit_request_in su k format program shots session params) = Fails ''SESSION_LOST''"
  by (auto simp: declared_verdict_def submit_request_in_def)


subsection \<open>Category by category\<close>

lemma technology_passes: "passes (check_technology su) w (\<lambda>w' _. w' = w)"
proof -
  have "ti_Technology (ca_Target (su_Caps su)) \<noteq> []" using declares(2) by (auto simp: technologyRegistry_def)
  then show ?thesis using declares(2) by (auto simp: check_technology_def Let_def intro: passes_return)
qed

lemma cat1:
  assumes "good w" and "unused V su [''cap-valid'', ''cap-invalid'', ''cap-shots''] w"
  shows "yields (CapabilityHonesty cl su) w enforces (leaves good V su [''cap-valid'', ''cap-invalid'', ''cap-shots''] w)"
proof -
  obtain f fs where F: "ca_ProgramFormats (su_Caps su) = f # fs" using formats(1) by (cases "ca_ProgramFormats (su_Caps su)") auto
  have f: "f \<in> set (ca_ProgramFormats (su_Caps su))" using F by simp
  let ?Q = "leaves good V su [''cap-valid'', ''cap-invalid'', ''cap-shots''] w"
  let ?K = "\<lambda>k. su_KeyPrefix su @ k"
  have max: "0 < ca_MaxShots (su_Caps su)" using max_shots(1) by simp
  have pos: "0 < (of_nat (ca_MaxShots (su_Caps su)) + 1 :: 64 word)"
    using max_shots by (simp add: word_less_nat_alt unat_of_nat unat_word_ariths mod_less)
  have shots: "yields (check_if_accepted cl su (cl_SubmitTask cl (submit_request_in su ''cap-shots'' f validQASM
        (of_nat (ca_MaxShots (su_Caps su)) + 1) [] []))
      (\<lambda>s. t_when (ws_State s \<noteq> TSFailed) (t_Errorf (MaxShotsIgnored (ws_State s))))) w2 enforces ?Q"
    if w2: "good w2" "vw_used V w2 = {?K ''cap-invalid'', ?K ''cap-valid''} \<union> vw_used V w" for w2
  proof (rule submit_await_yields(2)[OF w2(1) _ _ _ pos])
    fix w' s
    assume w': "good w'" "vw_used V w' = insert (?K ''cap-shots'') (vw_used V w2)"
      and m: "meets (ca_BillingUnits (su_Caps su)) (declared_verdict (su_Caps su) enforces (vw_opened V w2)
        (submit_request_in su ''cap-shots'' f validQASM (of_nat (ca_MaxShots (su_Caps su)) + 1) [] [])) s"
    have Q: "?Q w'" using w' w2 by (auto simp: leaves_def)
    have m: "meets (ca_BillingUnits (su_Caps su)) (if enforces then Fails ''CAPABILITY_MISMATCH'' else Succeeds) s"
      using m f by simp
    show "yields (t_when (ws_State s \<noteq> TSFailed) (t_Errorf (MaxShotsIgnored (ws_State s)))) w' enforces ?Q"
    proof (cases enforces)
      case True
      then show ?thesis using m f Q by (auto simp: meets_def intro!: yields_passes passes_when)
    next
      case False
      then show ?thesis using m f yields_failure(1)[of ?Q, OF Q] by (auto simp: meets_def t_when_def)
    qed
  qed (use assms(2) w2 in \<open>auto simp: suite_keys_def unused_def\<close>)
  have invalid: "passes (check_if_accepted cl su (cl_SubmitTask cl (submit_request_in su ''cap-invalid'' f invalidQASM 100 [] []))
      (\<lambda>s. t_when (ws_State s \<noteq> TSFailed \<or> error_category s \<noteq> ''INVALID_PROGRAM'')
         (t_Errorf (InvalidAccepted (ws_State s) (error_category s))))) w1
      (\<lambda>w2 _. good w2 \<and> vw_used V w2 = {?K ''cap-invalid'', ?K ''cap-valid''} \<union> vw_used V w)"
    if w1: "good w1" "vw_used V w1 = insert (?K ''cap-valid'') (vw_used V w)" for w1
    by (rule check_passes[OF w1(1)])
      (use assms(2) w1 f in \<open>auto simp: suite_keys_def unused_def meets_def intro!: passes_when\<close>)
  have both: "yields (t_bind (check_if_accepted cl su (cl_SubmitTask cl (submit_request_in su ''cap-invalid'' f invalidQASM 100 [] []))
      (\<lambda>s. t_when (ws_State s \<noteq> TSFailed \<or> error_category s \<noteq> ''INVALID_PROGRAM'')
         (t_Errorf (InvalidAccepted (ws_State s) (error_category s)))))
      (\<lambda>_. check_if_accepted cl su (cl_SubmitTask cl (submit_request_in su ''cap-shots'' f validQASM
        (of_nat (ca_MaxShots (su_Caps su)) + 1) [] []))
      (\<lambda>s. t_when (ws_State s \<noteq> TSFailed) (t_Errorf (MaxShotsIgnored (ws_State s)))))) w1 enforces ?Q"
    if w1: "good w1" "vw_used V w1 = insert (?K ''cap-valid'') (vw_used V w)" for w1
    by (rule yields_bind[OF invalid[OF w1]]) (use shots in blast)
  show ?thesis
    unfolding CapabilityHonesty_def submit_def F list.case
  proof (rule yields_bind[OF technology_passes], simp only: declares(1) if_False, rule submit_await_yields(1)[OF assms(1)])
    fix w1 s assume w1: "good w1" "vw_used V w1 = insert (?K ''cap-valid'') (vw_used V w)"
      and "meets (ca_BillingUnits (su_Caps su)) (declared_verdict (su_Caps su) enforces (vw_opened V w)
        (submit_request_in su ''cap-valid'' f validQASM 100 [] [])) s"
    then have "ws_State s = TSSucceeded" using f by (simp add: meets_def)
    then show "yields (if ws_State s \<noteq> TSSucceeded then t_Fatalf (ValidNotSucceeded s)
       else t_bind (check_if_accepted cl su (cl_SubmitTask cl (submit_request_in su ''cap-invalid'' f invalidQASM 100 [] []))
          (\<lambda>s. t_when (ws_State s \<noteq> TSFailed \<or> error_category s \<noteq> ''INVALID_PROGRAM'')
             (t_Errorf (InvalidAccepted (ws_State s) (error_category s)))))
         (\<lambda>_. if 0 < ca_MaxShots (su_Caps su)
           then check_if_accepted cl su (cl_SubmitTask cl (submit_request_in su ''cap-shots'' f validQASM
                  (of_nat (ca_MaxShots (su_Caps su)) + 1) [] []))
                (\<lambda>s. t_when (ws_State s \<noteq> TSFailed) (t_Errorf (MaxShotsIgnored (ws_State s))))
           else t_return ())) w1 enforces ?Q"
      using both[OF w1] by (simp only: max simp_thms if_True if_False)
  qed (use assms(2) in \<open>auto simp: suite_keys_def unused_def\<close>)
qed


lemma watch_loop_ends:
  assumes "good w" and "vw_watching V w stream i r ts" and "r < 2" and "vw_ends V w i v t"
  shows "passes (watch_loop cl stream r ts fin) w
    (\<lambda>w' x. good w' \<and> same_view V w w' \<and> (\<exists>s. x = Some s \<and> vw_final V w' i (ws_State s)))"
  using assms
proof (induction "nat (2 - r)" arbitrary: w stream r ts fin rule: less_induct)
  case less
  obtain w' stream' s r' where recv: "cl_Recv cl stream w = Some (w', stream', Received s)" and w': "good w'" "same_view V w w'"
    and r': "rank (ws_State s) = Some r'" "r < r'" "ts \<le> ws_UpdatedAt s" "vw_watching V w' stream' i r' (ws_UpdatedAt s)"
      "r' = 2 \<Longrightarrow> vw_final V w' i (ws_State s)"
    using receive[OF less(2-5)] by blast
  have ord: "check_order (ws_State s) r' r (ws_UpdatedAt s) ts c = c" for c using r'(2,3) by (simp add: check_order_def)
  have le: "r' \<le> 2" using r'(1) by (auto simp: rank_def split: task_state.splits)
  show ?case
  proof (cases "r' = 2")
    case True
    then have "watch_loop cl stream r ts fin (w, c) = Some (w', c, Done (Some s))" for c
      using recv r'(1) ord by (simp add: watch_loop.simps[of cl stream r ts fin "(w, c)"])
    then show ?thesis using w' r'(5) True by (simp add: passes_def)
  next
    case False
    then have lt: "nat (2 - r') < nat (2 - r)" "r' < 2" using le r'(2) less(4) by auto
    have ends: "vw_ends V w' i v t" using w'(2) less(5) by (auto simp: same_view_def keeps_ends_def)
    have "passes (watch_loop cl stream' r' (ws_UpdatedAt s) (Some s)) w'
      (\<lambda>w' x. good w' \<and> same_view V w w' \<and> (\<exists>s. x = Some s \<and> vw_final V w' i (ws_State s)))"
      by (rule passes_weaken[OF less(1)[OF lt(1) w'(1) r'(4) lt(2) ends]]) (auto intro: same_view_trans[OF w'(2)])
    moreover have "watch_loop cl stream r ts fin (w, c) = watch_loop cl stream' r' (ws_UpdatedAt s) (Some s) (w', c)" for c
      using recv r'(1) ord False by (simp add: watch_loop.simps[of cl stream r ts fin "(w, c)"])
    ultimately show ?thesis by (simp add: passes_def)
  qed
qed

lemma poll_passes:
  assumes "good w" and "vw_final V w (rf_TaskId h) (ws_State s)"
  shows "passes (poll_once cl h s) w (\<lambda>w' _. good w' \<and> vw_used V w' = vw_used V w \<and> vw_final V w' (rf_TaskId h) (ws_State s))"
proof -
  obtain p where p: "cl_GetTask cl h w = (w, Inr p)" "ws_State p = ws_State s" using get_final[OF assms] by blast
  have "good (cl_Sleep cl 50000000 w) \<and> vw_used V (cl_Sleep cl 50000000 w) = vw_used V w \<and>
      vw_final V (cl_Sleep cl 50000000 w) (rf_TaskId h) (ws_State s)"
    using sleep_now[OF assms(1), of 50000000] sleep_view[OF assms(1), of 50000000] sleep_final[OF assms(1) _ assms(2), of 50000000]
    by (simp add: same_view_def)
  then show ?thesis
    using p by (simp add: passes_def poll_once_def t_bind_def t_must_def t_call_def t_return_def t_when_def t_sleep_def)
qed

lemma cat2:
  assumes "good w" and "unused V su [''fsm''] w"
  shows "yields (StateMachine cl su) w True (leaves good V su [''fsm''] w)"
proof (rule yields_passes)
  let ?Q = "leaves good V su [''fsm''] w"
  show "passes (StateMachine cl su) w (\<lambda>w' _. ?Q w')"
    unfolding StateMachine_def submit_def
  proof (rule passes_bind[OF first_format_passes])
    fix w0 f assume w0: "w0 = w \<and> f \<in> set (ca_ProgramFormats (su_Caps su))"
    show "passes (t_bind (t_must SubmitFailed (cl_SubmitTask cl (submit_request_in su ''fsm'' f validQASM 200 [] [(delayParam, ''300'')])))
       (\<lambda>h. t_bind (t_must WatchFailed (cl_WatchTask cl h)) (\<lambda>stream. t_bind (watch_loop cl stream (-1) zero_time None) (\<lambda>final.
       case final of None \<Rightarrow> t_Fatalf WatchEmpty | Some s \<Rightarrow> t_each (\<lambda>_. poll_once cl h s) [1, 2, (3::nat)])))) w0 (\<lambda>w' _. ?Q w')"
    proof (rule passes_bind[OF submit_passes])
      fix w1 h assume "good w1 \<and> submitted cl V (declared_verdict (su_Caps su) enforces (vw_opened V w0)
        (submit_request_in su ''fsm'' f validQASM 200 [] [(delayParam, ''300'')])) lag (su_KeyPrefix su @ ''fsm'') w0 w1 h"
      then obtain v t where w1: "good w1" "vw_ends V w1 (rf_TaskId h) v t" "vw_used V w1 = insert (su_KeyPrefix su @ ''fsm'') (vw_used V w)"
        using w0 by (auto simp: submitted_def)
      obtain stream where st: "cl_WatchTask cl h w1 = (w1, Inr stream)" "vw_watching V w1 stream (rf_TaskId h) (-1) zero_time"
        using watch[OF w1(1,2)] by blast
      have loop: "passes (watch_loop cl stream (-1) zero_time None) w1
        (\<lambda>w' x. good w' \<and> same_view V w1 w' \<and> (\<exists>s. x = Some s \<and> vw_final V w' (rf_TaskId h) (ws_State s)))"
        by (rule watch_loop_ends[OF w1(1) st(2) _ w1(2)]) simp
      have polls: "passes (t_each (\<lambda>_. poll_once cl h s) ns) w2 (\<lambda>w' _. ?Q w')"
        if "good w2" "same_view V w1 w2" "vw_final V w2 (rf_TaskId h) (ws_State s)" for w2 s and ns :: "nat list"
      proof (rule passes_weaken[OF passes_each[where P = "\<lambda>w'. good w' \<and> vw_used V w' = vw_used V w1 \<and> vw_final V w' (rf_TaskId h) (ws_State s)"]])
        show "passes (poll_once cl h s) w3 (\<lambda>w' _. good w' \<and> vw_used V w' = vw_used V w1 \<and> vw_final V w' (rf_TaskId h) (ws_State s))"
          if "good w3 \<and> vw_used V w3 = vw_used V w1 \<and> vw_final V w3 (rf_TaskId h) (ws_State s)" for w3
          using poll_passes[of w3 h s] that by simp
      qed (use that w1(3) in \<open>auto simp: same_view_def leaves_def\<close>)
      show "passes (t_bind (t_must WatchFailed (cl_WatchTask cl h)) (\<lambda>stream. t_bind (watch_loop cl stream (-1) zero_time None) (\<lambda>final.
         case final of None \<Rightarrow> t_Fatalf WatchEmpty | Some s \<Rightarrow> t_each (\<lambda>_. poll_once cl h s) [1, 2, (3::nat)]))) w1 (\<lambda>w' _. ?Q w')"
        by (rule passes_bind[where Q = "\<lambda>w' x. w' = w1 \<and> x = stream"], rule passes_must[where f = "cl_WatchTask cl h", OF st(1)])
          (auto intro!: passes_bind[OF loop] polls simp del: t_each.simps)
    qed (use assms w0 in \<open>auto simp: unused_def suite_keys_def\<close>)
  qed
qed simp


lemma submit_many_same:
  assumes "\<And>c. f w = (w, Inr \<lparr>rf_TargetId = x, rf_TaskId = i\<rparr>)"
  shows "submit_many n f ids (w, c) = Some (w, c, Done (ids @ replicate n i))"
  using assms by (induction n arbitrary: ids) (simp_all add: t_return_def t_bind_def t_call_def replicate_append_same)

lemma count_distinct: "distinct xs \<Longrightarrow> x \<in> set xs \<Longrightarrow> count_list xs x = 1"
  by (induction xs) auto

lemma cat3_passes:
  assumes "good w" and "unused V su [''idem''] w"
  shows "passes (Idempotency cl su) w (\<lambda>w' _. leaves good V su [''idem''] w w')"
proof -
  let ?Q = "leaves good V su [''idem''] w"
  let ?units = "\<lambda>s. map ur_Unit (ws_Usage s)"
  show ?thesis
    unfolding Idempotency_def submit_def Let_def
  proof (rule passes_bind[OF first_format_passes])
    fix w0 f assume w0: "w0 = w \<and> f \<in> set (ca_ProgramFormats (su_Caps su))"
    let ?req = "submit_request_in su ''idem'' f validQASM 100 [] []"
    have key: "''idem'' \<in> set suite_keys" "su_KeyPrefix su @ ''idem'' \<notin> vw_used V w"
      using assms(2) by (auto simp: suite_keys_def unused_def)
    obtain w1 ref where sub: "cl_SubmitTask cl ?req w = (w1, Inr ref)" "good w1"
      "submitted cl V (declared_verdict (su_Caps su) enforces (vw_opened V w) ?req) lag (su_KeyPrefix su @ ''idem'') w w1 ref"
      using new_key[OF assms(1) key, of validQASM 100 f "[]" "[]"] by auto
    have ends: "vw_ends V w1 (rf_TaskId ref) Succeeds (cl_Now cl w1 + lag)" "vw_used V w1 = insert (su_KeyPrefix su @ ''idem'') (vw_used V w)"
      "vw_owns V w1 (su_KeyPrefix su @ ''idem'') (rf_TaskId ref)"
      using sub(3) w0 by (simp_all add: submitted_def)
    let ?ids = "replicate idem_submissions (rf_TaskId ref)"
    have "submit_many (Suc n) (cl_SubmitTask cl ?req) [] (w, c) = Some (w1, c, Done (replicate (Suc n) (rf_TaskId ref)))" for n c
      using sub(1) submit_many_same[of "cl_SubmitTask cl ?req" w1 "su_TargetID su" "rf_TaskId ref" n "[rf_TaskId ref]" c]
        same_key[OF sub(2) ends(3)] by (simp add: t_bind_def t_call_def)
    from this[of 999] have "submit_many idem_submissions (cl_SubmitTask cl ?req) [] (w, c) = Some (w1, c, Done ?ids)" for c
      by (simp add: idem_submissions_def)
    then have many: "passes (submit_many idem_submissions (cl_SubmitTask cl ?req) []) w0 (\<lambda>w' ids. w' = w1 \<and> ids = ?ids)"
      using w0 by (simp add: passes_def)
    have one: "length (remdups ?ids) = 1" "last ?ids = rf_TaskId ref"
      by (simp_all add: idem_submissions_def length_remdups_card_conv)
    have usage: "passes (if ws_State s \<noteq> TSSucceeded then t_Fatalf (IdempotentFailed s)
        else t_each (\<lambda>u. t_when (count_list (?units s) u \<noteq> 1) (t_Errorf (UnitRepeated u (count_list (?units s) u)))) (remdups (?units s)))
        w2 (\<lambda>w' _. ?Q w')"
      if "?Q w2" "meets (ca_BillingUnits (su_Caps su)) Succeeds s" for w2 s
    proof -
      have m: "ws_State s = TSSucceeded" "distinct (?units s)" using that(2) by (simp_all add: meets_def)
      have "passes (t_each (\<lambda>u. t_when (count_list (?units s) u \<noteq> 1) (t_Errorf (UnitRepeated u (count_list (?units s) u)))) (remdups (?units s))) w2 (\<lambda>w' _. ?Q w')"
        by (rule passes_each) (use that(1) count_distinct[OF m(2)] in \<open>auto intro!: passes_when\<close>)
      then show ?thesis using m(1) by simp
    qed
    have await: "passes (awaitTerminal cl su \<lparr>rf_TargetId = su_TargetID su, rf_TaskId = rf_TaskId ref\<rparr>) w1
      (\<lambda>w2 s. ?Q w2 \<and> meets (ca_BillingUnits (su_Caps su)) Succeeds s)"
      by (rule passes_weaken[OF await_ends[OF sub(2)]]) (use ends in \<open>auto simp: same_view_def leaves_def\<close>)
    show "passes (t_bind (submit_many idem_submissions (cl_SubmitTask cl ?req) []) (\<lambda>ids.
       if length (remdups ids) \<noteq> 1 then t_Fatalf (DistinctTasks idem_submissions (length (remdups ids)))
       else t_bind (awaitTerminal cl su \<lparr>rf_TargetId = su_TargetID su, rf_TaskId = last ids\<rparr>) (\<lambda>s.
         if ws_State s \<noteq> TSSucceeded then t_Fatalf (IdempotentFailed s)
         else t_each (\<lambda>u. t_when (count_list (?units s) u \<noteq> 1) (t_Errorf (UnitRepeated u (count_list (?units s) u))))
           (remdups (?units s))))) w0 (\<lambda>w' _. ?Q w')"
    proof (rule passes_bind[OF many])
      fix w' ids assume "w' = w1 \<and> ids = ?ids"
      then have e: "w' = w1" "length (remdups ids) = 1" "last ids = rf_TaskId ref" using one by simp_all
      have "passes (t_bind (awaitTerminal cl su \<lparr>rf_TargetId = su_TargetID su, rf_TaskId = rf_TaskId ref\<rparr>) (\<lambda>s.
         if ws_State s \<noteq> TSSucceeded then t_Fatalf (IdempotentFailed s)
         else t_each (\<lambda>u. t_when (count_list (?units s) u \<noteq> 1) (t_Errorf (UnitRepeated u (count_list (?units s) u))))
           (remdups (?units s)))) w1 (\<lambda>w' _. ?Q w')"
        by (rule passes_bind[OF await]) (use usage in blast)
      then show "passes (if length (remdups ids) \<noteq> 1 then t_Fatalf (DistinctTasks idem_submissions (length (remdups ids)))
       else t_bind (awaitTerminal cl su \<lparr>rf_TargetId = su_TargetID su, rf_TaskId = last ids\<rparr>) (\<lambda>s.
         if ws_State s \<noteq> TSSucceeded then t_Fatalf (IdempotentFailed s)
         else t_each (\<lambda>u. t_when (count_list (?units s) u \<noteq> 1) (t_Errorf (UnitRepeated u (count_list (?units s) u))))
           (remdups (?units s)))) w' (\<lambda>w' _. ?Q w')"
        unfolding e by (simp only: simp_thms if_False)
    qed
  qed
qed

lemma cat3:
  "good w \<Longrightarrow> unused V su [''idem''] w \<Longrightarrow> yields (Idempotency cl su) w True (leaves good V su [''idem''] w)"
  by (rule yields_passes[OF cat3_passes]) simp_all

lemma cat4:
  assumes "good w" and "unused V su [''cancel-slow'', ''cancel-queued''] w"
  shows "yields (Cancellation cl su) w True (leaves good V su [''cancel-slow'', ''cancel-queued''] w)"
proof (rule yields_passes)
  let ?Q = "leaves good V su [''cancel-slow'', ''cancel-queued''] w"
  let ?K = "\<lambda>k. su_KeyPrefix su @ k"
  show "passes (Cancellation cl su) w (\<lambda>w' _. ?Q w')"
    unfolding Cancellation_def submit_def
  proof (rule passes_bind[OF first_format_passes], rule passes_bind[OF submit_passes], goal_cases)
    case (6 w0 f w1 slow)
    then have w1: "good w1" "vw_used V w1 = insert (?K ''cancel-slow'') (vw_used V w)"
      "vw_ends V w1 (rf_TaskId slow) Succeeds (cl_Now cl w1 + lag)" by (auto simp: submitted_def)
    have f: "f \<in> set (ca_ProgramFormats (su_Caps su))" using 6 by simp
    have tail: "passes (t_bind (t_when (ws_State s \<noteq> TSCancelled) (t_Errorf (NotCancelled (ws_State s)))) (\<lambda>_.
       t_bind (t_when (ws_Usage s \<noteq> []) (t_Errorf (UsageAfterCancel (ws_Usage s)))) (\<lambda>_.
       t_bind (awaitTerminal cl su slow) (\<lambda>s. t_when (ws_State s = TSQueued) (t_Errorf NotConverged))))) w4 (\<lambda>w' _. ?Q w')"
      if w4: "?Q w4" "meets (ca_BillingUnits (su_Caps su)) EndsCancelled s" "vw_ends V w4 (rf_TaskId slow) Succeeds t"
        "t \<le> cl_Now cl w4 + lag" for w4 s t
    proof -
      have g: "good w4" using w4(1) by (simp add: leaves_def)
      have "passes (t_bind (awaitTerminal cl su slow) (\<lambda>s. t_when (ws_State s = TSQueued) (t_Errorf NotConverged))) w4 (\<lambda>w' _. ?Q w')"
        by (rule passes_bind[OF await_ends[OF g w4(3,4)]], rule passes_when)
          (use w4(1) in \<open>auto simp: meets_def leaves_def same_view_def\<close>)
      then show ?thesis using w4(2) by (intro passes_skip) (auto simp: meets_def)
    qed
    show ?case
    proof (rule passes_bind[OF submit_passes], goal_cases)
      case (6 w2 queued)
      then have "rf_TaskId slow \<noteq> rf_TaskId queued" using w1(3) unfolding submitted_def by blast
      with 6 have w2: "good w2" "vw_used V w2 = {?K ''cancel-slow'', ?K ''cancel-queued''} \<union> vw_used V w"
        "vw_ends V w2 (rf_TaskId slow) Succeeds (cl_Now cl w1 + lag)" "rf_TaskId slow \<noteq> rf_TaskId queued"
        "vw_queued V w2 (rf_TaskId queued)" "vw_ends V w2 (rf_TaskId queued) Succeeds (cl_Now cl w2 + lag)"
        "cl_Now cl w2 = cl_Now cl w1"
        using w1(2,3) f by (auto simp: submitted_def keeps_ends_def)
      obtain w3 where c: "cl_CancelTask cl queued w2 = (w3, Inr True)" and w3: "good w3" "cl_Now cl w3 = cl_Now cl w2"
        "vw_used V w3 = vw_used V w2" "vw_ends V w3 (rf_TaskId queued) EndsCancelled (cl_Now cl w2 + lag)"
        "vw_ends V w3 (rf_TaskId slow) Succeeds (cl_Now cl w1 + lag)"
        using cancel[OF w2(1,5,6)] w2(3,4) by metis
      have must: "passes (t_must CancelFailed (cl_CancelTask cl queued)) w2 (\<lambda>w' x. w' = w3 \<and> x = True)"
        by (rule passes_must[where f = "cl_CancelTask cl queued", OF c]) simp
      have await: "passes (awaitTerminal cl su queued) w3 (\<lambda>w4 s. ?Q w4 \<and> meets (ca_BillingUnits (su_Caps su)) EndsCancelled s \<and>
          vw_ends V w4 (rf_TaskId slow) Succeeds (cl_Now cl w1 + lag) \<and> cl_Now cl w1 + lag \<le> cl_Now cl w4 + lag)"
        by (rule passes_weaken[OF await_ends[OF w3(1,4)]])
          (use w2 w3 in \<open>auto simp: leaves_def same_view_def keeps_ends_def\<close>)
      show ?case
        by (rule passes_bind[OF must], elim conjE, simp only: simp_thms if_False, rule passes_bind[OF await], elim conjE, rule tail)
    qed (use assms w1 6 in \<open>auto simp: unused_def suite_keys_def\<close>)
  qed (use assms in \<open>auto simp: unused_def suite_keys_def\<close>)
qed simp


lemma cat5:
  assumes "good w"
  shows "yields (Provenance cl su) w True (leaves good V su [] w)"
proof (rule yields_passes)
  obtain ds where ds: "cl_GetDeviceState cl (su_TargetID su) w = (w, Inr ds)" "cb_SnapshotId (wd_Calibration ds) = snapshot"
    "cb_MeasuredAt (wd_Calibration ds) \<noteq> None" "cb_Source (wd_Calibration ds) \<noteq> []" "cb_Metrics (wd_Calibration ds) \<noteq> []"
    "\<forall>m \<in> set (cb_Metrics (wd_Calibration ds)). mt_Methodology m \<noteq> [] \<and> mt_Name m \<noteq> []"
    using device_state[OF assms] by blast
  have must: "passes (t_must DeviceStateFailed (cl_GetDeviceState cl (su_TargetID su))) w (\<lambda>w' x. w' = w \<and> x = ds)"
    by (rule passes_must[where f = "cl_GetDeviceState cl (su_TargetID su)", OF ds(1)]) simp
  have metrics: "passes (t_each check_metric (cb_Metrics (wd_Calibration ds))) w (\<lambda>w' _. w' = w)"
    by (rule passes_each) (use ds(6) in \<open>auto simp: check_metric_def intro!: passes_skip passes_when\<close>)
  have second: "passes (t_bind (t_must DeviceStateFailed (cl_GetDeviceState cl (su_TargetID su))) (\<lambda>state2.
         t_when (cb_SnapshotId (wd_Calibration state2) \<noteq> snapshot) (t_Errorf (SnapshotChanged snapshot (cb_SnapshotId (wd_Calibration state2))))))
      w (\<lambda>w' _. leaves good V su [] w w')"
    by (rule passes_bind[OF must], rule passes_when) (use assms ds(2) in \<open>auto simp: leaves_def\<close>)
  have tail: "passes (t_bind (t_each check_metric (cb_Metrics (wd_Calibration ds))) (\<lambda>_.
      t_bind (t_must DeviceStateFailed (cl_GetDeviceState cl (su_TargetID su))) (\<lambda>state2.
         t_when (cb_SnapshotId (wd_Calibration state2) \<noteq> snapshot) (t_Errorf (SnapshotChanged snapshot (cb_SnapshotId (wd_Calibration state2)))))))
      w (\<lambda>w' _. leaves good V su [] w w')"
    by (rule passes_bind[OF metrics], hypsubst, rule second)
  show "passes (Provenance cl su) w (\<lambda>w' _. leaves good V su [] w w')"
    unfolding Provenance_def Let_def
    by (rule passes_bind[OF must], elim conjE, simp only: ds(2,5) snapshot if_False simp_thms, intro passes_skip)
      (use ds(3,4) tail in \<open>simp_all\<close>)
qed simp

lemma cat6:
  assumes "good w" and "unused V su [''usage''] w"
  shows "yields (Usage cl su) w True (leaves good V su [''usage''] w)"
  unfolding Usage_def submit_def
proof (rule yields_bind[OF first_format_passes], rule submit_await_yields(1), goal_cases)
  case (6 w0 f w' s)
  then have m: "ws_State s = TSSucceeded" "ws_Usage s \<noteq> []"
    "\<forall>u \<in> set (ws_Usage s). ur_Unit u \<in> set (ca_BillingUnits (su_Caps su)) \<and> ur_Amount u > 0 \<and> ur_RecordedAt u \<noteq> None"
    by (simp_all add: meets_def)
  have "passes (t_each (check_usage (ca_BillingUnits (su_Caps su))) (ws_Usage s)) w' (\<lambda>w'' _. leaves good V su [''usage''] w w'')"
    by (rule passes_each) (use m(3) 6 in \<open>auto simp: check_usage_def leaves_def intro!: passes_skip passes_when\<close>)
  then show ?case using m(1,2) by (simp add: yields_passes)
qed (use assms in \<open>auto simp: suite_keys_def unused_def\<close>)

lemma cat7:
  assumes "good w" and "unused V su [''tax-bad'', ''tax-format''] w"
  shows "yields (ErrorTaxonomy cl su) w True (leaves good V su [''tax-bad'', ''tax-format''] w)"
proof (rule yields_passes)
  let ?Q = "leaves good V su [''tax-bad'', ''tax-format''] w" and ?K = "\<lambda>k. su_KeyPrefix su @ k"
  have bad: "passes (check_if_accepted cl su (cl_SubmitTask cl (submit_request_in su ''tax-bad'' f invalidQASM 100 [] [])) (\<lambda>s.
      t_when (error_category s \<noteq> ''INVALID_PROGRAM'') (t_Errorf (BadProgramCategory (error_category s) (error_message s))))) w
      (\<lambda>w' _. good w' \<and> vw_used V w' = insert (?K ''tax-bad'') (vw_used V w))"
    if "f \<in> set (ca_ProgramFormats (su_Caps su))" for f
    by (rule check_passes[OF assms(1)])
      (use assms(2) that in \<open>auto simp: suite_keys_def unused_def meets_def intro!: passes_when\<close>)
  have format: "passes (check_if_accepted cl su (cl_SubmitTask cl (submit_request_in su ''tax-format'' ''no-such-format'' validQASM 100 [] [])) (\<lambda>s.
      t_bind (t_when (error_category s \<noteq> ''CAPABILITY_MISMATCH'' \<and> error_category s \<noteq> ''INVALID_PROGRAM'')
        (t_Errorf (BadFormatCategory (error_category s)))) (\<lambda>_. t_when (error_category s = ''CATEGORY_UNSPECIFIED'') (t_Errorf BareCategory)))) w1
      (\<lambda>w' _. ?Q w')"
    if "good w1" "vw_used V w1 = insert (?K ''tax-bad'') (vw_used V w)" for w1
    by (rule check_passes[OF that(1)])
      (use assms(2) that in \<open>auto simp: suite_keys_def unused_def meets_def leaves_def intro!: passes_skip passes_when\<close>)
  have target: "passes (t_bind (t_call (cl_GetDeviceState cl ''no-such-target'')) (\<lambda>r.
      t_when (error_code r \<noteq> Some NotFound) (t_Errorf (UnknownTargetCode (error_code r))))) w2 (\<lambda>w' _. ?Q w')"
    if Q2: "?Q w2" for w2
  proof -
    obtain msg where "cl_GetDeviceState cl ''no-such-target'' w2 = (w2, Inl (NotFound, msg))"
      using no_target[of w2] Q2 by (auto simp: leaves_def)
    then have "passes (t_call (cl_GetDeviceState cl ''no-such-target'')) w2 (\<lambda>w' r. w' = w2 \<and> error_code r = Some NotFound)"
      by (rule passes_call[where f = "cl_GetDeviceState cl ''no-such-target''"]) (simp add: error_code_def)
    then show ?thesis by (rule passes_bind) (use Q2 in \<open>auto intro: passes_when\<close>)
  qed
  show "passes (ErrorTaxonomy cl su) w (\<lambda>w' _. ?Q w')"
    unfolding ErrorTaxonomy_def submit_def
    by (rule passes_bind[OF first_format_passes], elim conjE, hypsubst, rule passes_bind[OF bad], assumption, elim conjE,
      rule passes_bind[OF format], assumption, assumption, rule target)
qed simp


text \<open>A submission in a session that is not open.\<close>

lemma lost_session_passes:
  assumes "good w" and "k \<in> set suite_keys" and "su_KeyPrefix su @ k \<notin> vw_used V w" and "f \<in> set (ca_ProgramFormats (su_Caps su))"
    and "session \<noteq> []" and "\<not> vw_opened V w session"
  shows "passes (check_lost_session cl su k f session err) w
    (\<lambda>w' _. good w' \<and> vw_used V w' = insert (su_KeyPrefix su @ k) (vw_used V w))"
  unfolding check_lost_session_def
  by (rule check_passes[OF assms(1-3)]) (use assms(4-6) in \<open>auto simp: meets_def intro!: passes_when\<close>)

lemma cat8:
  assumes "good w" and "unused V su [''sess-live'', ''sess-dead'', ''sess-ghost''] w"
  shows "yields (Sessions cl su) w works (leaves good V su [''sess-live'', ''sess-dead'', ''sess-ghost''] w)"
proof (cases works)
  case False
  obtain msg where "cl_OpenSession cl (su_TargetID su) (5 * 60 * 1000000000) w = (w, Inl (Unimplemented, msg))"
    using open_refused[OF assms(1) False] by blast
  then show ?thesis
    using assms(1) False
    by (simp add: yields_def Sessions_def t_bind_def t_must_def t_call_def t_Fatalf_def record_failure_ok leaves_def) blast
next
  case True
  let ?Q = "leaves good V su [''sess-live'', ''sess-dead'', ''sess-ghost''] w" and ?K = "\<lambda>k. su_KeyPrefix su @ k"
  obtain w1 h where op: "cl_OpenSession cl (su_TargetID su) (5 * 60 * 1000000000) w = (w1, Inr h)" and w1: "good w1"
    "vw_used V w1 = vw_used V w" "wh_SessionId h \<noteq> []" "wh_ExpiresAt h \<noteq> None" "vw_opened V w1 (wh_SessionId h)"
    using open_session[OF assms(1) True] by blast
  have must: "passes (t_must OpenSessionFailed (cl_OpenSession cl (su_TargetID su) (5 * 60 * 1000000000))) w (\<lambda>w' x. w' = w1 \<and> x = h)"
    by (rule passes_must[where f = "cl_OpenSession cl (su_TargetID su) (5 * 60 * 1000000000)", OF op]) simp
  have tail: "passes (t_bind (t_must CloseSessionFailed (cl_CloseSession cl h)) (\<lambda>_.
      t_bind (check_lost_session cl su ''sess-dead'' f (wh_SessionId h) AfterCloseAccepted) (\<lambda>_.
      check_lost_session cl su ''sess-ghost'' f ''no-such-session'' UnknownSessionAccepted))) w3 (\<lambda>w' _. ?Q w')"
    if f: "f \<in> set (ca_ProgramFormats (su_Caps su))" and w3: "good w3" "vw_used V w3 = insert (?K ''sess-live'') (vw_used V w)" for f w3
  proof -
    obtain w4 where cls: "cl_CloseSession cl h w3 = (w4, Inr ())" and w4: "good w4" "vw_used V w4 = vw_used V w3"
      "\<not> vw_opened V w4 (wh_SessionId h)" using close_session[OF w3(1)] by blast
    have close: "passes (t_must CloseSessionFailed (cl_CloseSession cl h)) w3 (\<lambda>w' _. w' = w4)"
      by (rule passes_must[where f = "cl_CloseSession cl h", OF cls]) simp
    have dead: "passes (check_lost_session cl su ''sess-dead'' f (wh_SessionId h) AfterCloseAccepted) w4
      (\<lambda>w' _. good w' \<and> vw_used V w' = insert (?K ''sess-dead'') (vw_used V w4))"
      by (rule lost_session_passes) (use f w1 w3 w4 assms(2) in \<open>auto simp: suite_keys_def unused_def\<close>)
    have ghost: "passes (check_lost_session cl su ''sess-ghost'' f ''no-such-session'' UnknownSessionAccepted) w5 (\<lambda>w' _. ?Q w')"
      if w5: "good w5" "vw_used V w5 = insert (?K ''sess-dead'') (vw_used V w4)" for w5
      by (rule passes_weaken[OF lost_session_passes])
        (use f w3 w4 w5 assms(2) no_session[OF w5(1)] in \<open>auto simp: suite_keys_def unused_def leaves_def\<close>)
    show ?thesis
      by (rule passes_bind[OF close], hypsubst, rule passes_bind[OF dead], elim conjE, rule ghost)
  qed
  have inside: "yields (t_bind (t_must InSessionSubmitFailed (cl_SubmitTask cl
         (submit_request_in su ''sess-live'' f validQASM 100 (wh_SessionId h) []))) (\<lambda>h'.
       t_bind (awaitTerminal cl su h') (\<lambda>s.
       if ws_State s \<noteq> TSSucceeded then t_Fatalf (InSessionNotSucceeded s)
       else t_bind (t_must CloseSessionFailed (cl_CloseSession cl h)) (\<lambda>_.
         t_bind (check_lost_session cl su ''sess-dead'' f (wh_SessionId h) AfterCloseAccepted) (\<lambda>_.
         check_lost_session cl su ''sess-ghost'' f ''no-such-session'' UnknownSessionAccepted))))) w1 works ?Q"
    if f: "f \<in> set (ca_ProgramFormats (su_Caps su))" for f
  proof (rule submit_await_yields(1)[OF w1(1)], goal_cases)
    case (5 w3 s)
    then have "ws_State s = TSSucceeded" using f w1(5) by (simp add: meets_def)
    then show ?case using tail[OF f 5(1)] 5(2) w1(2) True by (simp add: yields_passes)
  qed (use assms(2) w1(2) in \<open>auto simp: suite_keys_def unused_def\<close>)
  show ?thesis
    unfolding Sessions_def
    by (rule yields_bind[OF must], elim conjE, hypsubst, simp only: w1(3,4) simp_thms if_False,
      rule yields_bind[OF first_format_passes], elim conjE, hypsubst, rule inside)
qed


subsection \<open>The whole suite\<close>

lemma Recorder_Run_yields:
  assumes "yields f w ok Q"
  shows "\<exists>w' c. Recorder_Run name f (w, cats) = Some (Finished (w', cats @ [c])) \<and> cr_Name c = name \<and> cr_Passed c = ok \<and> Q w'"
  using assms[unfolded yields_def, rule_format, of "\<lparr>cr_Name = name, cr_Passed = True, cr_Failures = [], cr_Logs = []\<rparr>"]
  by (auto simp: Recorder_Run_def)

lemma run_categories_yields:
  assumes "\<And>name f ok ks w. (name, f, ok, ks) \<in> set xs \<Longrightarrow> good w \<Longrightarrow> unused V su ks w \<Longrightarrow> yields f w ok (leaves good V su ks w)"
    and "distinct (concat (map (\<lambda>x. snd (snd (snd x))) xs))" and "good w"
    and "unused V su (concat (map (\<lambda>x. snd (snd (snd x))) xs)) w"
  shows "\<exists>w' new. run_categories (map (\<lambda>x. (fst x, fst (snd x))) xs) (w, cats) = Some (Finished (w', cats @ new)) \<and>
    map (\<lambda>c. (cr_Name c, cr_Passed c)) new = map (\<lambda>x. (fst x, fst (snd (snd x)))) xs"
  using assms
proof (induction xs arbitrary: w cats)
  case (Cons x xs)
  obtain name f ok ks where x: "x = (name, f, ok, ks)" by (cases x) auto
  have "unused V su ks w" using Cons(5) x by (simp add: unused_def)
  then have y: "yields f w ok (leaves good V su ks w)" using Cons(2)[of name f ok ks w] Cons(4) x by simp
  obtain w' c where run: "Recorder_Run name f (w, cats) = Some (Finished (w', cats @ [c]))"
    and c: "cr_Name c = name" "cr_Passed c = ok" and w': "leaves good V su ks w w'"
    using Recorder_Run_yields[OF y] by blast
  define L where "L = concat (map (\<lambda>x. snd (snd (snd x))) xs)"
  have split: "concat (map (\<lambda>x. snd (snd (snd x))) (x # xs)) = ks @ L" by (simp add: x L_def)
  have dis: "set L \<inter> set ks = {}" using Cons(3) unfolding split by auto
  have "unused V su L w" using Cons(5) unfolding split by (simp add: unused_def)
  from unused_after[OF this w' dis] have un: "unused V su (concat (map (\<lambda>x. snd (snd (snd x))) xs)) w'" by (simp add: L_def)
  have g: "good w'" using w' by (simp add: leaves_def)
  have dist: "distinct (concat (map (\<lambda>x. snd (snd (snd x))) xs))" using Cons(3) x by simp
  have each: "yields g v b (leaves good V su l v)" if "(n, g, b, l) \<in> set xs" "good v" "unused V su l v" for n g b l v
    using Cons(2)[of n g b l v] that by simp
  have "\<exists>w'' new. run_categories (map (\<lambda>x. (fst x, fst (snd x))) xs) (w', cats @ [c]) = Some (Finished (w'', (cats @ [c]) @ new)) \<and>
    map (\<lambda>c. (cr_Name c, cr_Passed c)) new = map (\<lambda>x. (fst x, fst (snd (snd x)))) xs"
    by (rule Cons(1)[OF _ dist g un]) (rule each)
  then obtain w'' new where "run_categories (map (\<lambda>x. (fst x, fst (snd x))) xs) (w', cats @ [c]) = Some (Finished (w'', (cats @ [c]) @ new))"
    "map (\<lambda>c. (cr_Name c, cr_Passed c)) new = map (\<lambda>x. (fst x, fst (snd (snd x)))) xs" by blast
  then show ?case using run c x by (intro exI[of _ w''] exI[of _ "c # new"]) simp
qed simp

lemma suite_verdict:
  assumes "good w" and "unused V su suite_keys w"
  shows "\<exists>w' cats. Suite_Run cl su w = Some (Finished (w', cats)) \<and> map (\<lambda>c. (cr_Name c, cr_Passed c)) cats =
    [(''cat1-capability-honesty'', enforces), (''cat2-state-machine'', True), (''cat3-idempotency'', True),
     (''cat4-cancellation'', True), (''cat5-provenance'', True), (''cat6-usage'', True), (''cat7-error-taxonomy'', True),
     (''cat8-sessions'', works)]"
proof -
  let ?xs = "[(''cat1-capability-honesty'', CapabilityHonesty cl su, enforces, [''cap-valid'', ''cap-invalid'', ''cap-shots'']),
    (''cat2-state-machine'', StateMachine cl su, True, [''fsm'']),
    (''cat3-idempotency'', Idempotency cl su, True, [''idem'']),
    (''cat4-cancellation'', Cancellation cl su, True, [''cancel-slow'', ''cancel-queued'']),
    (''cat5-provenance'', Provenance cl su, True, []),
    (''cat6-usage'', Usage cl su, True, [''usage'']),
    (''cat7-error-taxonomy'', ErrorTaxonomy cl su, True, [''tax-bad'', ''tax-format'']),
    (''cat8-sessions'', Sessions cl su, works, [''sess-live'', ''sess-dead'', ''sess-ghost''])]"
  have keys: "concat (map (\<lambda>x. snd (snd (snd x))) ?xs) = suite_keys" by (simp add: suite_keys_def)
  have dist: "distinct (concat (map (\<lambda>x. snd (snd (snd x))) ?xs))" unfolding keys by (simp add: suite_keys_def)
  have each: "yields f w ok (leaves good V su ks w)"
    if "(name, f, ok, ks) \<in> set ?xs" "good w" "unused V su ks w" for name f ok ks w
    using that cat1 cat2 cat3 cat4 cat5 cat6 cat7 cat8 by auto
  have cats: "suite_categories cl su = map (\<lambda>x. (fst x, fst (snd x))) ?xs"
    using declares(3,4) by (simp add: suite_categories_def)
  have un: "unused V su (concat (map (\<lambda>x. snd (snd (snd x))) ?xs)) w" unfolding keys by (rule assms(2))
  have "\<exists>w' new. run_categories (map (\<lambda>x. (fst x, fst (snd x))) ?xs) (w, []) = Some (Finished (w', [] @ new)) \<and>
    map (\<lambda>c. (cr_Name c, cr_Passed c)) new = map (\<lambda>x. (fst x, fst (snd (snd x)))) ?xs"
    by (rule run_categories_yields[OF _ dist assms(1) un]) (rule each)
  then show ?thesis unfolding Suite_Run_def cats by simp
qed

end

end
