(* ===== verification/Conformance_Fake.thy ===== *)
theory Conformance_Fake
  imports Conformance_Contract
begin

text \<open>
  The suite against the fake adapter. The client's world is the adapter with the clock. This client is an
  idealization: calls take no time, and the goroutines run promptly while the suite sleeps. The adapter keeps the contract, so the locale gives the verdict of
  the suite for every target it serves.
\<close>

section \<open>The fake adapter as a client\<close>

text \<open>Goroutines never panic, so the case \<open>None\<close> of \<open>settle\<close> does not arise.\<close>

definition fake_sleep :: "duration \<Rightarrow> time \<times> Fake \<Rightarrow> time \<times> Fake" where
  "fake_sleep d w = (fst w + d, case settle (fst w + d) (snd w) of None \<Rightarrow> snd w | Some f \<Rightarrow> f)"

text \<open>\<open>WatchTask\<close> polls every five milliseconds until it has something to send.\<close>

partial_function (option) watch_wait ::
  "string \<Rightarrow> task_state option \<Rightarrow> time \<times> Fake \<Rightarrow> ((time \<times> Fake) \<times> (string \<times> task_state option) \<times> recv) option" where
  "watch_wait i prev w =
     (case WatchTask_round i prev (snd w) of
        WatchPanic \<Rightarrow> Some (w, (i, prev), RecvErr (Unavailable, []))
      | WatchSend s \<Rightarrow> Some (w, (i, Some (ws_State s)), Received s)
      | WatchQuiet \<Rightarrow> watch_wait i prev (fake_sleep 5000000 w))"

definition WatchTask ::
  "string \<times> task_state option \<Rightarrow> time \<times> Fake \<Rightarrow> ((time \<times> Fake) \<times> (string \<times> task_state option) \<times> recv) option" where
  "WatchTask stream w = (case stream of (i, prev) \<Rightarrow>
     (case prev of
        None \<Rightarrow> (case getTask i (snd w) of Inl e \<Rightarrow> Some (w, stream, RecvErr e) | Inr _ \<Rightarrow> watch_wait i prev w)
      | Some x \<Rightarrow> if isTerminalState x then Some (w, stream, RecvEOF) else watch_wait i prev w))"

definition fake_client :: "(time \<times> Fake, string \<times> task_state option) conf_client" where
  "fake_client =
     \<lparr>cl_Now = fst,
      cl_Sleep = fake_sleep,
      cl_GetCapabilities = (\<lambda>i w. (w, GetCapabilities i (snd w))),
      cl_SubmitTask = (\<lambda>req w. case SubmitTask (fst w) req (snd w) of (f, r) \<Rightarrow> ((fst w, f), r)),
      cl_GetTask = (\<lambda>ref w. (w, GetTask (rf_TaskId ref) (snd w))),
      cl_WatchTask = (\<lambda>ref w. (w, Inr (rf_TaskId ref, None))),
      cl_Recv = WatchTask,
      cl_CancelTask = (\<lambda>ref w. case CancelTask (rf_TaskId ref) (snd w) of (f, r) \<Rightarrow> ((fst w, f), r)),
      cl_GetDeviceState = (\<lambda>i w. (w, GetDeviceState (fst w) i (snd w))),
      cl_OpenSession = (\<lambda>i d w. case OpenSession (fst w) i d (snd w) of (f, r) \<Rightarrow> ((fst w, f), r)),
      cl_CloseSession = (\<lambda>h w. ((fst w, fake_CloseSession h (snd w)), Inr ()))\<rparr>"

section \<open>The view of the suite\<close>

definition slot :: "TargetSpec \<Rightarrow> string \<Rightarrow> string" where
  "slot s k = sp_ID s @ ''/'' @ k"

definition times_ok :: "time \<times> Fake \<Rightarrow> bool" where
  "times_ok w \<longleftrightarrow> 0 \<le> fst w \<and> (\<forall>i tk. fk_tasks (snd w) i = Some tk \<longrightarrow> 0 \<le> ws_UpdatedAt (ft_status tk))"

definition fake_good :: "TargetSpec \<Rightarrow> Suite \<Rightarrow> time \<times> Fake \<Rightarrow> bool" where
  "fake_good s su w \<longleftrightarrow> fake_inv w \<and> (\<forall>p \<in> set (fk_procs (snd w)). fst w < av_wake p) \<and> times_ok w \<and>
     map_of (fk_targets (snd w)) (sp_ID s) = Some s \<and> map_of (fk_targets (snd w)) ''no-such-target'' = None \<and>
     dom (fk_byKey (snd w)) \<subseteq> (\<lambda>k. slot s (su_KeyPrefix su @ k)) ` set suite_keys \<and>
     ''no-such-session'' \<notin> fk_sessions (snd w)"

definition fake_verdict :: "fake_task \<Rightarrow> verdict" where
  "fake_verdict tk = (if ft_cancel tk then EndsCancelled
     else case ft_failWith tk of Some e \<Rightarrow> Fails (ed_Category e) | None \<Rightarrow> Succeeds)"

definition fake_ends :: "TargetSpec \<Rightarrow> time \<times> Fake \<Rightarrow> string \<Rightarrow> verdict \<Rightarrow> time \<Rightarrow> bool" where
  "fake_ends s w i v t \<longleftrightarrow> (\<exists>tk n. fk_tasks (snd w) i = Some tk \<and> 0 < n \<and> promise s n (ft_failWith tk) i (snd w) \<and>
     v = fake_verdict tk \<and> (\<forall>p \<in> set (fk_procs (snd w)). av_id p = i \<longrightarrow> due p \<le> t))"

definition fake_watching :: "time \<times> Fake \<Rightarrow> string \<times> task_state option \<Rightarrow> string \<Rightarrow> int \<Rightarrow> time \<Rightarrow> bool" where
  "fake_watching w stream i r ts \<longleftrightarrow> fst stream = i \<and> (\<exists>tk. fk_tasks (snd w) i = Some tk \<and> ts \<le> ws_UpdatedAt (ft_status tk) \<and>
     (case snd stream of None \<Rightarrow> r = -1 | Some x \<Rightarrow> rank x = Some r \<and> state_rank x \<le> state_rank (ws_State (ft_status tk))))"

definition fake_view :: "TargetSpec \<Rightarrow> (time \<times> Fake, string \<times> task_state option) view" where
  "fake_view s =
     \<lparr>vw_used = (\<lambda>w. {k. fk_byKey (snd w) (slot s k) \<noteq> None}),
      vw_owns = (\<lambda>w k i. fk_byKey (snd w) (slot s k) = Some i),
      vw_opened = (\<lambda>w x. x \<in> fk_sessions (snd w)),
      vw_ends = fake_ends s,
      vw_queued = (\<lambda>w i. \<exists>tk. fk_tasks (snd w) i = Some tk \<and> \<not> finished tk),
      vw_final = (\<lambda>w i x. \<exists>tk. fk_tasks (snd w) i = Some tk \<and> finished tk \<and> ws_State (ft_status tk) = x),
      vw_watching = fake_watching\<rparr>"

section \<open>Sleeping\<close>

lemma fake_step_times: "fake_step c c' \<Longrightarrow> fake_inv c \<Longrightarrow> times_ok c \<Longrightarrow> times_ok c'"
proof (induction rule: fake_step.induct)
  case (run p f t f')
  from run(4,1) show ?case
    by (cases rule: advance_cases[where t = t]) (use run(3,5) in \<open>auto simp: times_ok_def\<close>)
next
  case (submit t req f f' r)
  from submit(2,1) show ?case
    by (cases rule: SubmitTask_cases) (use submit(3) in \<open>auto simp: times_ok_def new_task_def restrict_map_def split: if_splits\<close>)
next
  case (cancel i f f' r' t)
  from cancel(1) show ?case by (cases rule: CancelTask_cases) (use cancel(3) in \<open>auto simp: times_ok_def\<close>)
next
  case (open_session t target m f f' r'')
  then have "fk_tasks f' = fk_tasks f" by (auto simp: OpenSession_def Let_def split: sum.splits if_splits)
  then show ?case using open_session(3) by (simp add: times_ok_def)
qed (auto simp: times_ok_def fake_CloseSession_def AddSession_def SetGarbage_def)

interpretation fake_times: inv_system fake_step "\<lambda>c. fake_inv c \<and> times_ok c"
  by unfold_locales (use fake_step_keeps fake_step_times in blast)

lemma fake_sleep_run:
  assumes "fake_good s su w" and "0 \<le> d"
  obtains f where "fake_sleep d w = (fst w + d, f)" "settle (fst w + d) (snd w) = Some f"
    "fake_step\<^sup>*\<^sup>* w (fst w + d, f)" "\<forall>p \<in> set (fk_procs f). fst w + d < av_wake p" "fake_good s su (fst w + d, f)"
proof -
  have "fake_inv (fst w, snd w)" "prompt (fst w, snd w)"
    using assms(1) by (auto simp: fake_good_def prompt_def intro: less_imp_le)
  then obtain f where f: "settle (fst w + d) (snd w) = Some f" "fake_step\<^sup>*\<^sup>* w (fst w + d, f)" "\<forall>p \<in> set (fk_procs f). fst w + d < av_wake p"
    using settle_run[of "fst w" "snd w" "fst w + d"] assms(2) by auto
  have "fake_inv (fst w + d, f) \<and> times_ok (fst w + d, f)"
    using fake_times.run[OF f(2)] assms(1) by (simp add: fake_good_def)
  then have "fake_good s su (fst w + d, f)" using assms(1) settle_frame[OF f(1)] f(3) by (simp add: fake_good_def)
  then show ?thesis using that f by (simp add: fake_sleep_def)
qed

lemma rank_state_rank: "x \<noteq> TSUnspecified \<Longrightarrow> rank x = Some (int (state_rank x))"
  by (cases x) (simp_all add: rank_def state_rank_def)

text \<open>Sleeping keeps what the suite knows.\<close>

lemma fake_sleep_task:
  assumes good: "fake_good s su w" and d: "0 \<le> d" and i: "fk_tasks (snd w) i = Some x"
  obtains y where "fk_tasks (snd (fake_sleep d w)) i = Some y" "moves_on x y" "ft_cancel y = ft_cancel x" "ft_failWith y = ft_failWith x"
proof -
  obtain f where f: "fake_sleep d w = (fst w + d, f)" "settle (fst w + d) (snd w) = Some f" "fake_step\<^sup>*\<^sup>* w (fst w + d, f)"
    using fake_sleep_run[OF good d] by metis
  obtain y where y: "fk_tasks f i = Some y" "ft_cancel y = ft_cancel x" "ft_failWith y = ft_failWith x"
    using settle_task[OF f(2) i] by metis
  have "moves_on x y" using run_moves_on[OF f(3) _ i] good y(1) by (simp add: fake_good_def)
  then show ?thesis using that f(1) y by simp
qed

lemma fake_sleep_ends:
  assumes good: "fake_good s su w" and d: "0 \<le> d" and ends: "fake_ends s w i v t"
  shows "fake_ends s (fake_sleep d w) i v t"
proof -
  obtain f where f: "fake_sleep d w = (fst w + d, f)" "settle (fst w + d) (snd w) = Some f" "fake_step\<^sup>*\<^sup>* w (fst w + d, f)"
    using fake_sleep_run[OF good d] by metis
  obtain tk n where tk: "fk_tasks (snd w) i = Some tk" "0 < n" "promise s n (ft_failWith tk) i (snd w)" "v = fake_verdict tk"
    "\<forall>p \<in> set (fk_procs (snd w)). av_id p = i \<longrightarrow> due p \<le> t" using ends unfolding fake_ends_def by blast
  obtain y where y: "fk_tasks f i = Some y" "ft_cancel y = ft_cancel tk" "ft_failWith y = ft_failWith tk"
    using settle_task[OF f(2) tk(1)] by metis
  have inv: "fake_inv w" using good by (simp add: fake_good_def)
  have "promise s n (ft_failWith tk) i f"
    using fake_promise.run[OF f(3)] inv tk(3) task_issued[OF inv tk(1)] by simp
  moreover have "due q \<le> t" if q: "q \<in> set (fk_procs f)" "av_id q = i" for q
    using settle_due[OF f(2) q(1)] q(2) tk(5) by metis
  moreover have "v = fake_verdict y" using tk(4) y by (simp add: fake_verdict_def)
  ultimately show ?thesis using f(1) y tk(2) unfolding fake_ends_def by (metis snd_conv)
qed


section \<open>Tasks\<close>

lemma fake_status_meets:
  assumes "promise s n (ft_failWith tk) i f" and "fk_tasks f i = Some tk" and "finished tk" and "0 < n" and "sp_FailWith s = None"
  shows "meets [''shots'', ''tasks''] (fake_verdict tk) (ft_status tk)"
proof -
  have p: "if ft_cancel tk then ws_State (ft_status tk) = TSCancelled \<and> ws_Usage (ft_status tk) = []
      else outcome s n (ft_failWith tk) (ft_status tk)"
    using assms(1-3) by (simp add: promise_def promised_def)
  show ?thesis
  proof (cases "ft_cancel tk")
    case False
    then have o: "outcome s n (ft_failWith tk) (ft_status tk)" using p by simp
    show ?thesis
    proof (cases "ft_failWith tk")
      case None
      then have st: "ws_State (ft_status tk) = TSSucceeded"
        "map (\<lambda>u. (ur_Unit u, ur_Amount u)) (ws_Usage (ft_status tk)) = [(''shots'', real (unat n)), (''tasks'', 1)]"
        "\<forall>u \<in> set (ws_Usage (ft_status tk)). ur_RecordedAt u \<noteq> None"
        using o assms(5) by (auto simp: outcome_def)
      then obtain a b where "ws_Usage (ft_status tk) = [a, b]" "ur_Unit a = ''shots''" "ur_Amount a = real (unat n)"
        "ur_Unit b = ''tasks''" "ur_Amount b = 1" by auto
      moreover have "0 < real (unat n)" using assms(4) by (simp only: of_nat_0_less_iff unat_gt_0 word_neq_0_conv)
      ultimately show ?thesis using None False st(1,3) by (auto simp: meets_def fake_verdict_def)
    next
      case (Some e)
      then show ?thesis using o False by (auto simp: meets_def fake_verdict_def outcome_def error_category_def)
    qed
  qed (use p in \<open>simp add: meets_def fake_verdict_def\<close>)
qed

lemma fake_get_task:
  assumes good: "fake_good s su w" and ends: "fake_ends s w i v t" and fw: "sp_FailWith s = None"
  shows "\<exists>x. GetTask i (snd w) = Inr x \<and> (if isTerminalState (ws_State x) then meets [''shots'', ''tasks''] v x else fst w < t)"
proof -
  obtain tk n where tk: "fk_tasks (snd w) i = Some tk" "0 < n" "promise s n (ft_failWith tk) i (snd w)" "v = fake_verdict tk"
    "\<forall>p \<in> set (fk_procs (snd w)). av_id p = i \<longrightarrow> due p \<le> t" using ends unfolding fake_ends_def by blast
  have "fst w < t" if unfinished: "\<not> finished tk"
  proof -
    have "procs_ok (fk_tasks (snd w)) (fk_procs (snd w))" using good fake_invD(5)[of "fst w" "snd w"] by (simp add: fake_good_def)
    then obtain p where p: "p \<in> set (fk_procs (snd w))" "av_id p = i" using unfinished tk(1) unfolding procs_ok_def by blast
    have "fst w < av_wake p" using good p(1) by (simp add: fake_good_def)
    moreover have "av_wake p \<le> due p" by (simp add: due_def)
    ultimately show ?thesis using tk(5) p by force
  qed
  then show ?thesis
    using tk fake_status_meets[OF tk(3,1) _ tk(2) fw] by (auto simp: GetTask_def getTask_def finished_def)
qed

lemma program_contains: "Contains validQASM ''not a program'' = False" "Contains invalidQASM ''not a program'' = True"
  by code_simp+

lemma validQASM_differs: "validQASM \<noteq> invalidQASM"
  using program_contains by metis

text \<open>What the fake decides at submission is what its capabilities demand.\<close>

lemma submit_failure_verdict:
  assumes "sq_Inline req = validQASM \<or> sq_Inline req = invalidQASM"
    and "ca_ProgramFormats caps = sp_Formats s" and "ca_MaxShots caps = unat (sp_MaxShots s)"
  shows "(case submit_failure s req S of Some e \<Rightarrow> Fails (ed_Category e) | None \<Rightarrow> Succeeds) =
    declared_verdict caps (\<not> sp_IgnoreMaxShots s) (\<lambda>x. x \<in> S) req"
  using assms program_contains validQASM_differs
  by (auto simp: submit_failure_def declared_verdict_def fake_error_def word_less_nat_alt unat_gt_0)


section \<open>Submissions\<close>

lemma slot_inj: "slot s k = slot s k' \<longleftrightarrow> k = k'"
  by (simp add: slot_def)

text \<open>With at most thirteen keys in use nothing is evicted.\<close>

lemma few_tasks:
  assumes "fake_good s su w"
  shows "length (fk_order (snd w)) \<le> 13"
proof -
  have inv: "fake_inv (fst w, snd w)" and dom: "dom (fk_byKey (snd w)) \<subseteq> (\<lambda>k. slot s (su_KeyPrefix su @ k)) ` set suite_keys"
    using assms by (simp_all add: fake_good_def)
  note I = fake_invD[OF inv]
  let ?key = "\<lambda>i. ft_key (the (fk_tasks (snd w) i))"
  have "?key ` dom (fk_tasks (snd w)) \<subseteq> dom (fk_byKey (snd w))" using I(3) unfolding keys_ok_def by fastforce
  moreover have "inj_on ?key (dom (fk_tasks (snd w)))"
    using I(3) by (intro inj_onI) (auto simp: keys_ok_def, metis option.inject)
  moreover have fin: "finite (dom (fk_byKey (snd w)))" using dom finite_surj by blast
  ultimately have "card (dom (fk_tasks (snd w))) \<le> card (dom (fk_byKey (snd w)))" by (metis card_image card_mono)
  also have "\<dots> \<le> card ((\<lambda>k. slot s (su_KeyPrefix su @ k)) ` set suite_keys)" using dom by (simp add: card_mono)
  also have "\<dots> \<le> card (set suite_keys)" by (rule card_image_le) simp
  also have "\<dots> \<le> length suite_keys" by (rule card_length)
  also have "\<dots> = 13" by (simp add: suite_keys_def)
  finally show ?thesis using distinct_card[OF I(1)] I(2) by simp
qed

lemma fake_submit_new:
  assumes good: "fake_good s su w" and k: "k \<in> set suite_keys" and fresh: "fk_byKey (snd w) (slot s (su_KeyPrefix su @ k)) = None"
    and req: "sq_TargetId req = sp_ID s" "sq_IdempotencyKey req = su_KeyPrefix su @ k" and delay: "0 < sp_StepDelay s"
  obtains f ref where "SubmitTask (fst w) req (snd w) = (f, Inr ref)" "fake_good s su (fst w, f)"
    "rf_TaskId ref = task_id (Suc (fk_nextID (snd w)))" "fk_tasks (snd w) (rf_TaskId ref) = None"
    "fk_tasks f = (fk_tasks (snd w))(rf_TaskId ref \<mapsto> new_task (fst w) s req (snd w))"
    "fk_byKey f = (fk_byKey (snd w))(slot s (su_KeyPrefix su @ k) \<mapsto> rf_TaskId ref)"
    "fk_procs f = fk_procs (snd w) @ [new_proc (fst w) s req (snd w)]" "fk_sessions f = fk_sessions (snd w)"
proof -
  have inv: "fake_inv (fst w, snd w)" using good by (simp add: fake_good_def)
  have s: "spec (sq_TargetId req) (snd w) = Inr s" using good req(1) by (simp add: spec_def fake_good_def)
  have ne: "sq_IdempotencyKey req \<noteq> []" using k req(2) by (auto simp: suite_keys_def)
  have full: "full_key s req = slot s (su_KeyPrefix su @ k)" using req(2) by (simp add: full_key_def slot_def)
  obtain f r where sub: "SubmitTask (fst w) req (snd w) = (f, r)" by fastforce
  have "\<exists>ref. r = Inr ref"
    using sub s ne by (auto simp: SubmitTask_def Let_def split: option.splits)
  then obtain ref where r: "r = Inr ref" by blast
  from inv sub show ?thesis
  proof (cases rule: SubmitTask_cases)
    case (new s' i R)
    have s': "s' = s" using new(1) s by simp
    have "finite R" using new(5) fake_invD(2)[OF inv] finite_subset by (metis finite_set)
    moreover have "card R = 0" using new(10) few_tasks[OF good] by (simp add: fakeTaskCap_def)
    ultimately have R: "R = {}" by simp
    have i: "rf_TaskId ref = i" using new(8) r by simp
    have f: "fk_tasks f = (fk_tasks (snd w))(i \<mapsto> new_task (fst w) s req (snd w))"
      "fk_byKey f = (fk_byKey (snd w))(slot s (su_KeyPrefix su @ k) \<mapsto> i)"
      "fk_procs f = fk_procs (snd w) @ [new_proc (fst w) s req (snd w)]" "fk_sessions f = fk_sessions (snd w)"
      "fk_targets f = fk_targets (snd w)"
      using new(9) full by (auto simp: R s' restrict_map_def fun_eq_iff)
    have "fake_inv (fst w, f)" using SubmitTask_keeps[OF inv sub] .
    moreover have "times_ok (fst w, f)" using good f(1) by (auto simp: fake_good_def times_ok_def new_task_def)
    ultimately have "fake_good s su (fst w, f)"
      using good f(2-5) k delay by (auto simp: fake_good_def new_proc_def sleep_time_def)
    then show ?thesis using that[of f ref] sub r new(2,4) i f by simp
  qed (use r s full fresh in auto)
qed

lemma fake_new_key:
  assumes good: "fake_good s su w" and k: "k \<in> set suite_keys" and fresh: "fk_byKey (snd w) (slot s (su_KeyPrefix su @ k)) = None"
    and req: "sq_TargetId req = sp_ID s" "sq_IdempotencyKey req = su_KeyPrefix su @ k" "sq_Inline req = validQASM \<or> sq_Inline req = invalidQASM"
      "0 < sq_Shots req" and s: "0 < sp_StepDelay s"
    and caps: "ca_ProgramFormats caps = sp_Formats s" "ca_MaxShots caps = unat (sp_MaxShots s)"
  shows "\<exists>w' ref. cl_SubmitTask fake_client req w = (w', Inr ref) \<and> fake_good s su w' \<and>
    submitted fake_client (fake_view s) (declared_verdict caps (\<not> sp_IgnoreMaxShots s) (vw_opened (fake_view s) w) req)
      (2 * sp_StepDelay s) (su_KeyPrefix su @ k) w w' ref"
proof -
  obtain f ref where f: "SubmitTask (fst w) req (snd w) = (f, Inr ref)" "fake_good s su (fst w, f)"
    "rf_TaskId ref = task_id (Suc (fk_nextID (snd w)))" "fk_tasks (snd w) (rf_TaskId ref) = None"
    "fk_tasks f = (fk_tasks (snd w))(rf_TaskId ref \<mapsto> new_task (fst w) s req (snd w))"
    "fk_byKey f = (fk_byKey (snd w))(slot s (su_KeyPrefix su @ k) \<mapsto> rf_TaskId ref)"
    "fk_procs f = fk_procs (snd w) @ [new_proc (fst w) s req (snd w)]" "fk_sessions f = fk_sessions (snd w)"
    using fake_submit_new[OF good k fresh req(1,2) s] by metis
  have inv: "fake_inv w" "fake_inv (fst w, snd w)" using good by (simp_all add: fake_good_def)
  have sp: "spec (sq_TargetId req) (snd w) = Inr s" using good req(1) by (simp add: spec_def fake_good_def)
  have fr: "fk_byKey (snd w) (full_key s req) = None" using fresh req(2) by (simp add: full_key_def slot_def)
  note P = SubmitTask_promises[OF inv(2) f(1) sp fr]
  have old: "av_id p \<noteq> rf_TaskId ref" if "p \<in> set (fk_procs (snd w))" for p
    using fake_invD(5)[OF inv(2)] that f(4) unfolding procs_ok_def by (metis option.distinct(1))
  have keeps: "fake_ends s (fst w, f) i v t" if ends: "fake_ends s w i v t" for i v t
  proof -
    obtain tk n where tk: "fk_tasks (snd w) i = Some tk" "0 < n" "promise s n (ft_failWith tk) i (snd w)" "v = fake_verdict tk"
      "\<forall>p \<in> set (fk_procs (snd w)). av_id p = i \<longrightarrow> due p \<le> t" using ends unfolding fake_ends_def by blast
    have ne: "i \<noteq> rf_TaskId ref" using tk(1) f(4) by auto
    have "promise s n (ft_failWith tk) i f" using SubmitTask_promise[OF inv(2) f(1) _ tk(3)] task_issued[OF inv(1) tk(1)] by simp
    then show ?thesis using tk ne f(3,5,7) unfolding fake_ends_def by (auto simp: new_proc_def)
  qed
  have "fake_verdict (new_task (fst w) s req (snd w)) = declared_verdict caps (\<not> sp_IgnoreMaxShots s) (vw_opened (fake_view s) w) req"
    using submit_failure_verdict[OF req(3) caps, of "fk_sessions (snd w)"] by (simp add: fake_verdict_def new_task_def fake_view_def)
  moreover have "due p \<le> fst w + 2 * sp_StepDelay s" if "p \<in> set (fk_procs f)" "av_id p = rf_TaskId ref" for p
    using that old s by (auto simp: f(7) due_def new_proc_def sleep_time_def)
  ultimately have ends: "fake_ends s (fst w, f) (rf_TaskId ref)
      (declared_verdict caps (\<not> sp_IgnoreMaxShots s) (vw_opened (fake_view s) w) req) (fst w + 2 * sp_StepDelay s)"
    using P(2,3) req(4) unfolding fake_ends_def by (intro exI[of _ "new_task (fst w) s req (snd w)"] exI[of _ "sq_Shots req"]) (simp add: new_task_def)
  have "submitted fake_client (fake_view s) (declared_verdict caps (\<not> sp_IgnoreMaxShots s) (vw_opened (fake_view s) w) req)
      (2 * sp_StepDelay s) (su_KeyPrefix su @ k) w (fst w, f) ref"
    unfolding submitted_def keeps_ends_def
    using ends keeps f(4-6,8) slot_inj
    by (auto simp: fake_client_def fake_view_def fake_ends_def new_task_def finished_def isTerminalState_def)
  then show ?thesis using f(1,2) by (auto simp: fake_client_def)
qed


lemma fake_same_key:
  assumes good: "fake_good s su w" and owns: "fk_byKey (snd w) (slot s (su_KeyPrefix su @ k)) = Some i"
    and req: "sq_TargetId req = sp_ID s" "sq_IdempotencyKey req = su_KeyPrefix su @ k"
  shows "cl_SubmitTask fake_client req w = (w, Inr \<lparr>rf_TargetId = sp_ID s, rf_TaskId = i\<rparr>)"
proof -
  have s: "spec (sq_TargetId req) (snd w) = Inr s" using good req(1) by (simp add: spec_def fake_good_def)
  have "slot s (su_KeyPrefix su @ k) \<in> (\<lambda>k. slot s (su_KeyPrefix su @ k)) ` set suite_keys"
    using good owns by (auto simp: fake_good_def)
  then have ne: "su_KeyPrefix su @ k \<noteq> []" by (auto simp: slot_inj suite_keys_def)
  show ?thesis using s ne owns req(2) by (simp add: fake_client_def SubmitTask_def slot_def Let_def)
qed

lemma fake_cancel:
  assumes good: "fake_good s su w" and q: "fk_tasks (snd w) i = Some tk" "\<not> finished tk" and ends: "fake_ends s w i v t"
  shows "\<exists>f. CancelTask i (snd w) = (f, Inr True) \<and> fake_good s su (fst w, f) \<and> fk_byKey f = fk_byKey (snd w) \<and>
    fake_ends s (fst w, f) i EndsCancelled t \<and> (\<forall>j v t. j \<noteq> i \<longrightarrow> fake_ends s w j v t \<longrightarrow> fake_ends s (fst w, f) j v t)"
proof -
  let ?f = "(snd w)\<lparr>fk_tasks := (fk_tasks (snd w))(i \<mapsto> tk\<lparr>ft_cancel := True\<rparr>)\<rparr>"
  have c: "CancelTask i (snd w) = (?f, Inr True)" using q by (simp add: CancelTask_def getTask_def finished_def)
  have inv: "fake_inv (fst w, snd w)" using good by (simp add: fake_good_def)
  have times: "times_ok (fst w, ?f)" using good q(1) by (simp add: fake_good_def times_ok_def)
  have g: "fake_good s su (fst w, ?f)" using good CancelTask_keeps[OF inv c] times by (simp add: fake_good_def)
  have pr: "promise s n fw j ?f" if "promise s n fw j (snd w)" for n fw j using CancelTask_promise[OF c that] .
  have "fake_ends s (fst w, ?f) i EndsCancelled t"
    using ends q(1) pr unfolding fake_ends_def by (fastforce simp: fake_verdict_def)
  moreover have "fake_ends s (fst w, ?f) j v' t'" if "j \<noteq> i" "fake_ends s w j v' t'" for j v' t'
    using that pr unfolding fake_ends_def by fastforce
  ultimately show ?thesis using c g by auto
qed

section \<open>Watching\<close>

lemma fake_watch_wait:
  assumes "fake_good s su w" and "fake_watching w (i, prev) i r ts" and "r < 2" and "fake_ends s w i v t"
  shows "\<exists>w' x r'. watch_wait i prev w = Some (w', (i, Some (ws_State x)), Received x) \<and> fake_good s su w' \<and>
    same_view (fake_view s) w w' \<and> rank (ws_State x) = Some r' \<and> r < r' \<and> ts \<le> ws_UpdatedAt x \<and>
    fake_watching w' (i, Some (ws_State x)) i r' (ws_UpdatedAt x) \<and> (r' = 2 \<longrightarrow> vw_final (fake_view s) w' i (ws_State x))"
  using assms
proof (induction "nat (t - fst w)" arbitrary: w rule: less_induct)
  case less
  obtain tk where tk: "fk_tasks (snd w) i = Some tk" "ts \<le> ws_UpdatedAt (ft_status tk)"
    "case prev of None \<Rightarrow> r = -1 | Some x \<Rightarrow> rank x = Some r \<and> state_rank x \<le> state_rank (ws_State (ft_status tk))"
    using less(3) by (auto simp: fake_watching_def)
  have inv: "fake_inv (fst w, snd w)" using less(2) by (simp add: fake_good_def)
  have st: "status_ok (ft_status tk)" using fake_invD(6)[OF inv tk(1)] ..
  then have rk: "rank (ws_State (ft_status tk)) = Some (int (state_rank (ws_State (ft_status tk))))"
    by (intro rank_state_rank) (auto simp: status_ok_def)
  show ?case
  proof (cases "Some (ws_State (ft_status tk)) = prev")
    case False
    have "watch_wait i prev w = Some (w, (i, Some (ws_State (ft_status tk))), Received (ft_status tk))"
      using False tk(1) by (simp add: watch_wait.simps[of i prev w] WatchTask_round_def)
    moreover have "r < int (state_rank (ws_State (ft_status tk)))"
    proof (cases prev)
      case (Some x)
      then have "rank x = Some r" "state_rank x \<le> state_rank (ws_State (ft_status tk))" "x \<noteq> ws_State (ft_status tk)"
        using tk(3) False by auto
      then show ?thesis
        using less(4) rk by (cases x; cases "ws_State (ft_status tk)") (auto simp: rank_def state_rank_def)
    qed (use tk(3) in simp)
    moreover have "int (state_rank (ws_State (ft_status tk))) = 2 \<Longrightarrow> finished tk"
      by (cases "ws_State (ft_status tk)") (auto simp: state_rank_def finished_def isTerminalState_def)
    ultimately show ?thesis
      using less(2) rk tk(1,2) by (auto simp: fake_watching_def fake_view_def)
  next
    case True
    have "\<not> isTerminalState (ws_State (ft_status tk))"
      using tk(3) less(4) True by (cases "ws_State (ft_status tk)") (auto simp: rank_def isTerminalState_def)
    then have unf: "\<not> finished tk" by (simp add: finished_def)
    then obtain p where p: "p \<in> set (fk_procs (snd w))" "av_id p = i"
      using fake_invD(5)[OF inv] tk(1) unfolding procs_ok_def by blast
    have "fst w < av_wake p" using less(2) p(1) by (simp add: fake_good_def)
    moreover have "av_wake p \<le> due p" by (simp add: due_def)
    moreover have "due p \<le> t" using less(5) p unfolding fake_ends_def by blast
    ultimately have lt: "fst w < t" by simp
    let ?w = "fake_sleep 5000000 w"
    obtain f where f: "?w = (fst w + 5000000, f)" "settle (fst w + 5000000) (snd w) = Some f" "fake_good s su (fst w + 5000000, f)"
      using fake_sleep_run[OF less(2), of 5000000] by auto
    have good': "fake_good s su ?w" using f by simp
    have ends': "fake_ends s ?w i v t" using fake_sleep_ends[OF less(2) _ less(5), of 5000000] by simp
    have sv: "same_view (fake_view s) w ?w"
      using fake_sleep_ends[OF less(2), of 5000000] settle_frame[OF f(2)] f(1) by (auto simp: same_view_def keeps_ends_def fake_view_def)
    obtain y where y: "fk_tasks (snd ?w) i = Some y" "moves_on tk y" using fake_sleep_task[OF less(2) _ tk(1), of 5000000] by auto
    have wa: "fake_watching ?w (i, prev) i r ts"
      using y tk by (auto simp: fake_watching_def moves_on_def split: option.splits)
    have step: "watch_wait i prev w = watch_wait i prev ?w"
      using True tk(1) by (simp add: watch_wait.simps[of i prev w] WatchTask_round_def)
    have "nat (t - fst ?w) < nat (t - fst w)" using f(1) lt by simp
    from less(1)[OF this good' wa less(4) ends'] show ?thesis
      unfolding step using same_view_trans[OF sv] by blast
  qed
qed

lemma fake_receive:
  assumes "fake_good s su w" and "fake_watching w stream i r ts" and "r < 2" and "fake_ends s w i v t"
  shows "\<exists>w' stream' x r'. WatchTask stream w = Some (w', stream', Received x) \<and> fake_good s su w' \<and>
    same_view (fake_view s) w w' \<and> rank (ws_State x) = Some r' \<and> r < r' \<and> ts \<le> ws_UpdatedAt x \<and>
    fake_watching w' stream' i r' (ws_UpdatedAt x) \<and> (r' = 2 \<longrightarrow> vw_final (fake_view s) w' i (ws_State x))"
proof -
  obtain prev where stream: "stream = (i, prev)" using assms(2) by (cases stream) (simp add: fake_watching_def)
  obtain tk where tk: "fk_tasks (snd w) i = Some tk" "case prev of None \<Rightarrow> r = -1 | Some x \<Rightarrow> rank x = Some r \<and> state_rank x \<le> state_rank (ws_State (ft_status tk))"
    using assms(2) by (auto simp: fake_watching_def stream)
  have "WatchTask stream w = watch_wait i prev w"
    using tk assms(3) by (auto simp: WatchTask_def stream getTask_def rank_def isTerminalState_def split: option.splits)
  then show ?thesis using fake_watch_wait[OF assms(1) _ assms(3,4), of prev ts] assms(2) stream by auto
qed


section \<open>The fake adapter keeps the contract\<close>

text \<open>A target the suite can be run on: it has a format, executes what it accepts, is quick enough for the
  timeout, and declares a limit on shots that the suite can exceed.\<close>

definition servable :: "TargetSpec \<Rightarrow> Suite \<Rightarrow> bool" where
  "servable s su \<longleftrightarrow> sp_Formats s \<noteq> [] \<and> ''no-such-format'' \<notin> set (sp_Formats s) \<and> sp_FailWith s = None \<and>
     0 < sp_StepDelay s \<and> 2 * sp_StepDelay s + 100000000 \<le> task_timeout su \<and>
     321 \<le> unat (sp_MaxShots s) \<and> Suc (unat (sp_MaxShots s)) < 2 ^ 64 \<and> sp_SnapshotID s \<noteq> [] \<and> sp_Metrics s \<noteq> [] \<and>
     (\<forall>m \<in> set (sp_Metrics s). mt_Methodology m \<noteq> [] \<and> mt_Name m \<noteq> [])"

text \<open>The suite was made for the target.\<close>

definition dialed :: "TargetSpec \<Rightarrow> Suite \<Rightarrow> bool" where
  "dialed s su \<longleftrightarrow> su_TargetID su = sp_ID s \<and> ca_ProgramFormats (su_Caps su) = sp_Formats s \<and>
     ca_MaxShots (su_Caps su) = unat (sp_MaxShots s) \<and> ca_BillingUnits (su_Caps su) = [''shots'', ''tasks''] \<and>
     ti_Technology (ca_Target (su_Caps su)) = ''simulator'' \<and> ca_Cancellation (su_Caps su) \<and> ca_Sessions (su_Caps su)"

lemma fake_sessions_good:
  assumes good: "fake_good s su w" and "spec (sp_ID s) (snd w) = Inr s"
  shows "\<not> sp_BrokenSessions s \<Longrightarrow> \<exists>f h. OpenSession (fst w) (sp_ID s) m (snd w) = (f, Inr h) \<and> fake_good s su (fst w, f) \<and>
      fk_byKey f = fk_byKey (snd w) \<and> wh_SessionId h \<noteq> [] \<and> wh_ExpiresAt h \<noteq> None \<and> wh_SessionId h \<in> fk_sessions f"
    and "fake_good s su (fst w, fake_CloseSession h' (snd w))"
proof -
  have inv: "fake_inv (fst w, snd w)" using good by (simp add: fake_good_def)
  {
    assume "\<not> sp_BrokenSessions s"
    then obtain f h where o: "OpenSession (fst w) (sp_ID s) m (snd w) = (f, Inr h)"
      and h: "wh_SessionId h = ''fake-sess-'' @ itoa (Suc (fk_nextID (snd w)))" "wh_ExpiresAt h \<noteq> None"
      and f: "f = (snd w)\<lparr>fk_nextID := Suc (fk_nextID (snd w)), fk_sessions := insert (wh_SessionId h) (fk_sessions (snd w))\<rparr>"
      using assms(2) by (simp add: OpenSession_def Let_def)
    have "fake_inv (fst w, f)" using fake_step_keeps[OF fake_step.open_session[OF o] inv] .
    then have "fake_good s su (fst w, f)" using good h(1) f by (simp add: fake_good_def times_ok_def)
    then show "\<exists>f h. OpenSession (fst w) (sp_ID s) m (snd w) = (f, Inr h) \<and> fake_good s su (fst w, f) \<and>
      fk_byKey f = fk_byKey (snd w) \<and> wh_SessionId h \<noteq> [] \<and> wh_ExpiresAt h \<noteq> None \<and> wh_SessionId h \<in> fk_sessions f"
      using o h f by simp
  }
  have "fake_inv (fst w, fake_CloseSession h' (snd w))" using fake_step_keeps[OF fake_step.close_session inv] .
  then show "fake_good s su (fst w, fake_CloseSession h' (snd w))" using good by (simp add: fake_good_def times_ok_def fake_CloseSession_def)
qed

lemma fake_contract:
  assumes s: "servable s su" and d: "dialed s su"
  shows "contract_client fake_client (fake_good s su) su (fake_view s) (\<not> sp_IgnoreMaxShots s) (\<not> sp_BrokenSessions s)
    (2 * sp_StepDelay s) (sp_SnapshotID s)"
proof -
  have spec: "spec (sp_ID s) (snd w) = Inr s" if "fake_good s su w" for w using that by (simp add: spec_def fake_good_def)
  have target: "su_TargetID su = sp_ID s" using d by (simp add: dialed_def)
  show ?thesis
  proof (unfold_locales, goal_cases)
    case (1 w d)
    then obtain f where "fake_sleep d w = (fst w + d, f)" "fake_good s su (fst w + d, f)" using fake_sleep_run[of s su w d] by metis
    then show ?case by (simp add: fake_client_def)
  next
    case (13 w d)
    then obtain f where "fake_sleep d w = (fst w + d, f)" "settle (fst w + d) (snd w) = Some f" using fake_sleep_run[of s su w d] by metis
    then show ?case
      using settle_frame[of "fst w + d" "snd w" f] fake_sleep_ends[OF 13]
      by (auto simp: fake_client_def fake_view_def same_view_def keeps_ends_def)
  next
    case (14 w d i x)
    then obtain tk where tk: "fk_tasks (snd w) i = Some tk" "finished tk" "ws_State (ft_status tk) = x" by (auto simp: fake_view_def)
    obtain y where "fk_tasks (snd (fake_sleep d w)) i = Some y" "moves_on tk y" using fake_sleep_task[OF 14(1,2) tk(1)] by metis
    then show ?case using tk by (simp add: fake_client_def fake_view_def moves_on_def finished_def)
  next
    case (15 w ref v t)
    then show ?case
      using fake_get_task[of s su w "rf_TaskId ref" v t] s d by (auto simp: fake_client_def fake_view_def servable_def dialed_def)
  next
    case (16 w ref x)
    then show ?case by (auto simp: fake_client_def fake_view_def GetTask_def getTask_def)
  next
    case (17 w k program shots format session params)
    let ?req = "submit_request_in su k format program shots session params"
    have r: "sq_TargetId ?req = sp_ID s" "sq_IdempotencyKey ?req = su_KeyPrefix su @ k" "sq_Inline ?req = program" "sq_Shots ?req = shots"
      using target by (simp_all add: submit_request_in_def)
    show ?case
      using fake_new_key[OF 17(1,2) _ r(1,2), of "su_Caps su"] 17(3-5) s d r(3,4)
      by (simp add: fake_view_def servable_def dialed_def)
  next
    case (18 w k i format program shots session params)
    let ?req = "submit_request_in su k format program shots session params"
    have r: "sq_TargetId ?req = sp_ID s" "sq_IdempotencyKey ?req = su_KeyPrefix su @ k"
      using target by (simp_all add: submit_request_in_def)
    show ?case using fake_same_key[OF 18(1) _ r] 18(2) target by (simp add: fake_view_def)
  next
    case (19 w ref v t)
    then obtain tk where tk: "fk_tasks (snd w) (rf_TaskId ref) = Some tk" "\<not> finished tk" by (auto simp: fake_view_def)
    obtain f where "CancelTask (rf_TaskId ref) (snd w) = (f, Inr True)" "fake_good s su (fst w, f)" "fk_byKey f = fk_byKey (snd w)"
      "fake_ends s (fst w, f) (rf_TaskId ref) EndsCancelled t"
      "\<forall>j v t. j \<noteq> rf_TaskId ref \<longrightarrow> fake_ends s w j v t \<longrightarrow> fake_ends s (fst w, f) j v t"
      using fake_cancel[OF 19(1) tk, of v t] 19(3) by (auto simp: fake_view_def)
    then show ?case by (simp add: fake_client_def fake_view_def)
  next
    case (20 w ref v t)
    then obtain tk where "fk_tasks (snd w) (rf_TaskId ref) = Some tk" by (auto simp: fake_view_def fake_ends_def)
    moreover have "zero_time \<le> 0" by (simp add: zero_time_def)
    ultimately show ?case
      using 20(1) by (fastforce simp: fake_client_def fake_view_def fake_watching_def fake_good_def times_ok_def)
  next
    case (21 w stream i r ts v t)
    then show ?case using fake_receive[of s su w stream i r ts v t] by (simp add: fake_client_def fake_view_def)
  next
    case (22 w)
    then show ?case using spec[OF 22] s target by (simp add: fake_client_def GetDeviceState_def servable_def)
  next
    case (24 w)
    then show ?case by (simp add: fake_client_def GetDeviceState_def spec_def fake_good_def)
  next
    case (25 w m)
    then obtain f h where "OpenSession (fst w) (sp_ID s) m (snd w) = (f, Inr h)" "fake_good s su (fst w, f)"
      "fk_byKey f = fk_byKey (snd w)" "wh_SessionId h \<noteq> []" "wh_ExpiresAt h \<noteq> None" "wh_SessionId h \<in> fk_sessions f"
      using fake_sessions_good(1)[OF 25(1) spec[OF 25(1)]] by blast
    then show ?case using target by (simp add: fake_client_def fake_view_def)
  next
    case (26 w m)
    then show ?case using spec[OF 26(1)] target by (simp add: fake_client_def OpenSession_def)
  next
    case (27 w h)
    then show ?case
      using fake_sessions_good(2)[OF 27 spec[OF 27], of h] by (simp add: fake_client_def fake_view_def fake_CloseSession_def)
  next
    case (28 w)
    then show ?case by (simp add: fake_view_def fake_good_def)
  qed (use s d in \<open>auto simp: fake_client_def servable_def dialed_def technologyRegistry_def\<close>)
qed


section \<open>The verdict of the suite\<close>

lemma spec_defaults_keeps [simp]:
  "sp_ID (spec_defaults s) = sp_ID s" "sp_Formats (spec_defaults s) = sp_Formats s" "sp_FailWith (spec_defaults s) = sp_FailWith s"
  "sp_IgnoreMaxShots (spec_defaults s) = sp_IgnoreMaxShots s" "sp_BrokenSessions (spec_defaults s) = sp_BrokenSessions s"
  by (simp_all add: spec_defaults_def Let_def)

lemma Dial_fake:
  assumes "Dial fake_client (sp_ID s0) (t, NewFake [s0]) = (w, Inr su)"
  shows "w = (t, NewFake [s0])" "dialed (spec_defaults s0) su"
  using assms by (auto simp: Dial_def fake_client_def GetCapabilities_def spec_def NewFake_def dialed_def targetInfo_def)

lemma fake_good_New:
  "0 \<le> t \<Longrightarrow> sp_ID s0 \<noteq> ''no-such-target'' \<Longrightarrow> fake_good (spec_defaults s0) su (t, NewFake [s0])"
  using fake_inv_New[of t "[s0]"] by (simp add: fake_good_def times_ok_def NewFake_def)

lemma unused_New: "unused (fake_view s) su ks (t, NewFake specs)"
  by (simp add: unused_def fake_view_def NewFake_def)

text \<open>The suite certifies the fake adapter correctly, provided its calls take no time compared to the delay between
  the steps of a task: a cancellation that arrives after the task has ended is outside this client. For every servable
  target, dialed on a fresh adapter, the run ends; category 1 passes exactly if the adapter enforces its \<open>max_shots\<close>, category 8 exactly if it serves
  the sessions it declares, and all other categories pass: each broken setting fails its own category only.\<close>

theorem fake_suite_verdict:
  assumes "0 \<le> t" and "sp_ID s0 \<noteq> ''no-such-target''" and "Dial fake_client (sp_ID s0) (t, NewFake [s0]) = (w, Inr su)"
    and "servable (spec_defaults s0) su"
  shows "\<exists>w' cats. Suite_Run fake_client su w = Some (Finished (w', cats)) \<and> map (\<lambda>c. (cr_Name c, cr_Passed c)) cats =
    [(''cat1-capability-honesty'', \<not> sp_IgnoreMaxShots s0), (''cat2-state-machine'', True), (''cat3-idempotency'', True),
     (''cat4-cancellation'', True), (''cat5-provenance'', True), (''cat6-usage'', True), (''cat7-error-taxonomy'', True),
     (''cat8-sessions'', \<not> sp_BrokenSessions s0)]"
  using contract_client.suite_verdict[OF fake_contract[OF assms(4) Dial_fake(2)[OF assms(3)]]
      fake_good_New[OF assms(1,2)] unused_New] Dial_fake(1)[OF assms(3)] by simp

text \<open>The fixtures of the self-test of the harness.\<close>

definition fixture :: "string \<Rightarrow> bool \<Rightarrow> bool \<Rightarrow> TargetSpec" where
  "fixture i ignore broken = \<lparr>sp_ID = i, sp_Qubits = 5, sp_Formats = [''openqasm3''], sp_MaxShots = 1000, sp_SnapshotID = [],
     sp_Metrics = [], sp_FailWith = None, sp_IgnoreMaxShots = ignore, sp_BrokenSessions = broken, sp_StepDelay = 0\<rparr>"

definition fixture_suite :: "string \<Rightarrow> bool \<Rightarrow> bool \<Rightarrow> time \<Rightarrow> Suite" where
  "fixture_suite i ignore broken t = projr (snd (Dial fake_client i (t, NewFake [fixture i ignore broken])))"

lemma fixture_dialed:
  "Dial fake_client i (t, NewFake [fixture i ignore broken]) = ((t, NewFake [fixture i ignore broken]), Inr (fixture_suite i ignore broken t))"
  by (simp add: fixture_suite_def Dial_def fake_client_def GetCapabilities_def spec_def NewFake_def) (simp add: fixture_def)

lemma fixture_servable: "servable (spec_defaults (fixture i ignore broken)) (fixture_suite i ignore broken t)"
  by (simp add: servable_def fixture_suite_def Dial_def fake_client_def GetCapabilities_def spec_def NewFake_def
    spec_defaults_def fixture_def task_timeout_def)

lemma fixture_ok: "dialed (spec_defaults (fixture i ignore broken)) (fixture_suite i ignore broken t)"
  by (rule Dial_fake(2)[of "fixture i ignore broken" t]) (use fixture_dialed in \<open>simp add: fixture_def\<close>)

interpretation selftest: contract_client fake_client
    "fake_good (spec_defaults (fixture i ignore broken)) (fixture_suite i ignore broken t)" "fixture_suite i ignore broken t"
    "fake_view (spec_defaults (fixture i ignore broken))" "\<not> sp_IgnoreMaxShots (spec_defaults (fixture i ignore broken))"
    "\<not> sp_BrokenSessions (spec_defaults (fixture i ignore broken))" "2 * sp_StepDelay (spec_defaults (fixture i ignore broken))"
    "sp_SnapshotID (spec_defaults (fixture i ignore broken))"
  by (rule fake_contract[OF fixture_servable fixture_ok])

text \<open>Waiting for a task always returns: whatever task the suite waits for on a fixture of the self-test, the
  loop ends by its deadline, with a final status or with a recorded failure.\<close>

theorem awaiting_a_fixture_returns:
  assumes "fake_good (spec_defaults (fixture i ignore broken)) (fixture_suite i ignore broken t) w"
  shows "awaitTerminal fake_client su ref (w, c) \<noteq> None"
  by (rule selftest.await_returns[OF assms])

theorem fake_suite_verdict_witness:
  "\<exists>w' cats. Suite_Run fake_client (fixture_suite ''overshots'' True False 0) (0, NewFake [fixture ''overshots'' True False]) =
     Some (Finished (w', cats)) \<and> map (\<lambda>c. (cr_Name c, cr_Passed c)) cats =
    [(''cat1-capability-honesty'', False), (''cat2-state-machine'', True), (''cat3-idempotency'', True),
     (''cat4-cancellation'', True), (''cat5-provenance'', True), (''cat6-usage'', True), (''cat7-error-taxonomy'', True),
     (''cat8-sessions'', True)]"
proof -
  have i: "sp_ID (fixture ''overshots'' True False) = ''overshots''" by (simp add: fixture_def)
  have d: "Dial fake_client (sp_ID (fixture ''overshots'' True False)) (0, NewFake [fixture ''overshots'' True False]) =
      ((0, NewFake [fixture ''overshots'' True False]), Inr (fixture_suite ''overshots'' True False 0))"
    unfolding i by (rule fixture_dialed)
  have "sp_ID (fixture ''overshots'' True False) \<noteq> ''no-such-target''" by (simp add: i)
  from fake_suite_verdict[OF _ this d fixture_servable] show ?thesis by (simp add: fixture_def)
qed


lemma fixture_start:
  assumes "i \<noteq> ''no-such-target''" and "0 \<le> t"
  shows "fake_good (spec_defaults (fixture i ignore broken)) (fixture_suite i ignore broken t) (t, NewFake [fixture i ignore broken])"
  using fake_good_New[OF assms(2), of "fixture i ignore broken"] assms(1) by (simp add: fixture_def)

theorem report_is_sound_witness:
  "\<exists>w cats. Suite_Run fake_client (fixture_suite ''overshots'' True False 0) (0, NewFake [fixture ''overshots'' True False]) =
     Some (Finished (w, cats)) \<and> \<not> rp_Passed (BuildReport ''v'' ''fake:0'' (fixture_suite ''overshots'' True False 0) cats 0 []) \<and>
     length (rp_Categories (BuildReport ''v'' ''fake:0'' (fixture_suite ''overshots'' True False 0) cats 0 [])) = 8"
proof -
  let ?su = "fixture_suite ''overshots'' True False 0"
  obtain w cats where run: "Suite_Run fake_client ?su (0, NewFake [fixture ''overshots'' True False]) = Some (Finished (w, cats))"
    and cats: "map (\<lambda>c. (cr_Name c, cr_Passed c)) cats = [(''cat1-capability-honesty'', False), (''cat2-state-machine'', True),
      (''cat3-idempotency'', True), (''cat4-cancellation'', True), (''cat5-provenance'', True), (''cat6-usage'', True),
      (''cat7-error-taxonomy'', True), (''cat8-sessions'', True)]"
    using selftest.suite_verdict[OF fixture_start unused_New, of "''overshots''" 0 True False] by (auto simp: fixture_def)
  have caps: "ca_Cancellation (su_Caps ?su)" "ca_Sessions (su_Caps ?su)"
    using fixture_ok[of "''overshots''" True False 0] by (simp_all add: dialed_def)
  note R = report_is_sound[OF run, of "''v''" "''fake:0''" 0 "[]"]
  have "length (map cr_Name (rp_Categories (BuildReport ''v'' ''fake:0'' ?su cats 0 []))) = 8"
    unfolding conjunct1[OF R] using caps by simp
  moreover have "\<not> rp_Passed (BuildReport ''v'' ''fake:0'' ?su cats 0 [])"
    using cats by (auto simp: BuildReport_def Let_def)
  ultimately show ?thesis using run by auto
qed

theorem passed_idempotency_is_idempotent_witness:
  "\<exists>format i. format = ''openqasm3'' \<and>
    set (answers 1000 (submit fake_client (fixture_suite ''honest'' False False 0) ''idem'' format validQASM 100 [])
      (0, NewFake [fixture ''honest'' False False])) \<subseteq> {Inr h |h. rf_TaskId h = i}"
proof -
  let ?su = "fixture_suite ''honest'' False False 0" and ?w = "(0 :: time, NewFake [fixture ''honest'' False False])"
  have "passes (Idempotency fake_client ?su) ?w
    (\<lambda>w' _. leaves (fake_good (spec_defaults (fixture ''honest'' False False)) ?su) (fake_view (spec_defaults (fixture ''honest'' False False))) ?su [''idem''] ?w w')"
    by (rule selftest.cat3_passes[OF fixture_start unused_New]) simp_all
  then obtain w' where run: "Idempotency fake_client ?su (?w, fresh_result []) = Some (w', fresh_result [], Done ())"
    unfolding passes_def by (metis old.unit.exhaust)
  have "hd (ca_ProgramFormats (su_Caps ?su)) = ''openqasm3''"
    using fixture_ok[of "''honest''" False False 0] by (simp add: dialed_def fixture_def)
  moreover have "cr_Passed (fresh_result [])" by (simp add: fresh_result_def)
  ultimately show ?thesis using passed_idempotency_is_idempotent[OF run] by auto
qed

end
