(* ===== verification/Drivers_Conformance.thy ===== *)
theory Drivers_Conformance
  imports Conformance_Fake
begin

text \<open>
  The conformance driver (\<open>cmd/rabi-conformance/main.go\<close>): choosing the target, running the suite, signing the
  report and writing the artifacts. The adapter is the client of theory \<open>Conformance\<close>; keys, ed25519, the JSON
  encoder, PEM and the file system are arguments. The deadline of the whole run is left out.
\<close>

section \<open>Definitions\<close>

datatype certify_error = CertTargets string | CertDial status | CertKey string | CertReport string | CertWrite string | CertFailed string

text \<open>What the driver uses of the outside. \<open>kt_write dir name\<close> is the error of writing a file, if any; \<open>kt_parse_pkcs8\<close>
  is \<open>Inr None\<close> for a private key of another kind.\<close>

record 'k toolkit =
  kt_generate :: "string + 'k"
  kt_read :: "string \<Rightarrow> string + string"
  kt_pem_decode :: "string \<Rightarrow> string option"
  kt_parse_pkcs8 :: "string \<Rightarrow> string + 'k option"
  kt_canonical :: "Report \<Rightarrow> string + string"
  kt_sign :: "'k \<Rightarrow> string \<Rightarrow> string"
  kt_public_pem :: "'k \<Rightarrow> string + string"
  kt_mkdir :: "string \<Rightarrow> string option"
  kt_write :: "string \<Rightarrow> string \<Rightarrow> string option"
  kt_failure_text :: "failure \<Rightarrow> string"

definition firstTargetID :: "string + string list \<Rightarrow> certify_error + string" where
  "firstTargetID listed = (case listed of
     Inl e \<Rightarrow> Inl (CertTargets (''ListTargets: '' @ e))
   | Inr [] \<Rightarrow> Inl (CertTargets ''adapter lists no targets'')
   | Inr (i # _) \<Rightarrow> Inr i)"

definition loadOrGenerateKey :: "'k toolkit \<Rightarrow> string \<Rightarrow> certify_error + 'k \<times> bool" where
  "loadOrGenerateKey kt path =
     (if path = [] then (case kt_generate kt of Inl e \<Rightarrow> Inl (CertKey e) | Inr k \<Rightarrow> Inr (k, True))
      else
        (case kt_read kt path of
           Inl e \<Rightarrow> Inl (CertKey e)
         | Inr raw \<Rightarrow>
             (case kt_pem_decode kt raw of
                None \<Rightarrow> Inl (CertKey (path @ '': not PEM''))
              | Some block \<Rightarrow>
                  (case kt_parse_pkcs8 kt block of
                     Inl e \<Rightarrow> Inl (CertKey (path @ '': '' @ e))
                   | Inr None \<Rightarrow> Inl (CertKey (path @ '': not an ed25519 key''))
                   | Inr (Some k) \<Rightarrow> Inr (k, False)))))"

fun write_files :: "'k toolkit \<Rightarrow> string \<Rightarrow> (string \<times> string) list \<Rightarrow> (string \<times> string) list \<times> certify_error option" where
  "write_files kt dir [] = ([], None)"
| "write_files kt dir ((name, data) # fs) =
     (case kt_write kt dir name of
        Some e \<Rightarrow> ([], Some (CertWrite e))
      | None \<Rightarrow> (let (ws, e) = write_files kt dir fs in ((name, data) # ws, e)))"

text \<open>Go ranges over the map of files in no fixed order; here it is the order of the literal.\<close>

definition writeArtifacts :: "'k toolkit \<Rightarrow> string \<Rightarrow> Report \<Rightarrow> 'k \<Rightarrow> bool \<Rightarrow> (string \<times> string) list \<times> certify_error option" where
  "writeArtifacts kt dir report key generatedKey =
     (case kt_mkdir kt dir of
        Some e \<Rightarrow> ([], Some (CertWrite e))
      | None \<Rightarrow>
          (case kt_canonical kt report of
             Inl e \<Rightarrow> ([], Some (CertReport e))
           | Inr doc \<Rightarrow>
               (case Sign (kt_canonical kt) (kt_sign kt) key report of
                  Inl e \<Rightarrow> ([], Some (CertReport e))
                | Inr sig \<Rightarrow>
                    (let files = [(''report.json'', doc), (''report.md'', Markdown (kt_failure_text kt) report), (''report.sig'', sig)]
                     in if generatedKey
                        then (case kt_public_pem kt key of
                                Inl e \<Rightarrow> ([], Some (CertKey e))
                              | Inr pub \<Rightarrow> write_files kt dir (files @ [(''report.pub'', pub)]))
                        else write_files kt dir files))))"

definition pad_to :: "nat \<Rightarrow> string \<Rightarrow> string" where
  "pad_to n s = s @ replicate (n - length s) (CHR '' '')"

record certify_flags =
  cf_target :: string
  cf_targetID :: string
  cf_outDir :: string
  cf_keyPath :: string
  cf_notes :: "string list"
  cf_taskTimeout :: duration

record certify_result =
  ce_output :: "string list"
  ce_files :: "(string \<times> string) list"
  ce_error :: "certify_error option"

definition cert_error :: "string list \<Rightarrow> certify_error \<Rightarrow> certify_result" where
  "cert_error out e = \<lparr>ce_output = out, ce_files = [], ce_error = Some e\<rparr>"

text \<open>The command. \<open>None\<close> is a suite that never ends, \<open>Panicked\<close> the crash of the harness.\<close>

definition RunCmd ::
  "('s, 'w) conf_client \<Rightarrow> 'k toolkit \<Rightarrow> string \<Rightarrow> string + string list \<Rightarrow> time \<Rightarrow> certify_flags \<Rightarrow> 's \<Rightarrow> certify_result run option" where
  "RunCmd cl kt version listed now fl w =
     (case (if cf_targetID fl = [] then firstTargetID listed else Inr (cf_targetID fl)) of
        Inl e \<Rightarrow> Some (Finished (cert_error [] e))
      | Inr targetID \<Rightarrow>
          (case Dial cl targetID w of
             (w1, Inl e) \<Rightarrow> Some (Finished (cert_error [] (CertDial e)))
           | (w1, Inr su0) \<Rightarrow>
               (let su = su0\<lparr>su_TaskTimeout := cf_taskTimeout fl\<rparr>;
                    head = [''certifying '' @ cf_target fl @ '' target '' @ quote targetID @ '' (harness '' @ version @ '', spec '' @ SpecVersion @ '')'']
                in case Suite_Run cl su w1 of
                     None \<Rightarrow> None
                   | Some Panicked \<Rightarrow> Some Panicked
                   | Some (Finished (w2, cats)) \<Rightarrow>
                       (let report = BuildReport version (cf_target fl) su cats now (cf_notes fl)
                        in case loadOrGenerateKey kt (cf_keyPath fl) of
                             Inl e \<Rightarrow> Some (Finished (cert_error head e))
                           | Inr (key, generated) \<Rightarrow>
                               (case writeArtifacts kt (cf_outDir fl) report key generated of
                                  (fs, Some e) \<Rightarrow> Some (Finished \<lparr>ce_output = head, ce_files = fs, ce_error = Some e\<rparr>)
                                | (fs, None) \<Rightarrow>
                                    (let ls = map (\<lambda>c. ''  '' @ pad_to 28 (cr_Name c) @ '' '' @ (if cr_Passed c then ''pass'' else ''FAIL''))
                                                (rp_Categories report)
                                     in Some (Finished (if \<not> rp_Passed report
                                          then \<lparr>ce_output = head @ ls, ce_files = fs, ce_error = Some (CertFailed (cf_outDir fl))\<rparr>
                                          else \<lparr>ce_output = head @ ls @ [''PASSED (report in '' @ cf_outDir fl @ '')''], ce_files = fs,
                                                ce_error = None\<rparr>))))))))"

section \<open>Properties\<close>

lemma write_files_all: "write_files kt dir fs = (ws, None) \<Longrightarrow> ws = fs"
  by (induction kt dir fs arbitrary: ws rule: write_files.induct) (auto split: option.splits prod.splits)

lemma writeArtifacts_written:
  assumes "writeArtifacts kt dir report key generated = (fs, None)"
  obtains doc where "kt_canonical kt report = Inr doc" "map_of fs ''report.json'' = Some doc"
    "map_of fs ''report.sig'' = Some (kt_sign kt key doc)"
    "generated \<Longrightarrow> \<exists>pub. kt_public_pem kt key = Inr pub \<and> map_of fs ''report.pub'' = Some pub"
  using assms by (auto simp: writeArtifacts_def Sign_def Let_def split: option.splits sum.splits if_splits dest!: write_files_all)

lemma RunCmd_passed:
  assumes "RunCmd cl kt version listed now fl w = Some (Finished r)" and "ce_error r = None"
  obtains su w1 w2 cats key generated report where
    "Suite_Run cl su w1 = Some (Finished (w2, cats))" "report = BuildReport version (cf_target fl) su cats now (cf_notes fl)"
    "loadOrGenerateKey kt (cf_keyPath fl) = Inr (key, generated)" "writeArtifacts kt (cf_outDir fl) report key generated = (ce_files r, None)"
    "rp_Passed report"
  using assms
  by (auto simp: RunCmd_def cert_error_def Let_def split: sum.splits prod.splits option.splits run.splits if_splits)

text \<open>C34: A run that exits successfully has published a report of an adapter that passed: no category of the suite
  recorded a failure, the signature verifies over the report with the public half of the key, which
  is published when the key was generated. ed25519 is assumed to verify what was signed with the
  same key.\<close>

theorem published_certificate_verifies:
  assumes "RunCmd cl kt version listed now fl w = Some (Finished r)" and "ce_error r = None"
    and "\<And>k doc. ed_verify (public k) doc (kt_sign kt k doc)"
  shows "\<exists>su w1 w2 cats report key sig. Suite_Run cl su w1 = Some (Finished (w2, cats)) \<and> (\<forall>c \<in> set cats. cr_Failures c = []) \<and>
    report = BuildReport version (cf_target fl) su cats now (cf_notes fl) \<and> map_of (ce_files r) ''report.sig'' = Some sig \<and>
    Inr (the (map_of (ce_files r) ''report.json'')) = kt_canonical kt report \<and>
    Verify (kt_canonical kt) ed_verify (public key) sig report \<and>
    (cf_keyPath fl = [] \<longrightarrow> (\<exists>pub. kt_public_pem kt key = Inr pub \<and> map_of (ce_files r) ''report.pub'' = Some pub))"
  using assms(1,2)
proof (cases rule: RunCmd_passed)
  case (1 su w1 w2 cats key generated report)
  obtain doc where doc: "kt_canonical kt report = Inr doc" "map_of (ce_files r) ''report.json'' = Some doc"
      "map_of (ce_files r) ''report.sig'' = Some (kt_sign kt key doc)"
      "generated \<Longrightarrow> \<exists>pub. kt_public_pem kt key = Inr pub \<and> map_of (ce_files r) ''report.pub'' = Some pub"
    using writeArtifacts_written[OF 1(4)] by metis
  have "\<exists>new. cats = new \<and> map cr_Name new = map fst (suite_categories cl su) \<and> (\<forall>c \<in> set new. well_recorded c)"
    using run_categories_recorded[OF recorded_categories 1(1)[unfolded Suite_Run_def]] by simp
  then have "\<forall>c \<in> set cats. cr_Failures c = []"
    using 1(2,5) by (auto simp: BuildReport_def Let_def Recorder_Passed_all well_recorded_def)
  moreover have "Verify (kt_canonical kt) ed_verify (public key) (kt_sign kt key doc) report"
    using doc(1) assms(3) by (simp add: Verify_def)
  moreover have "cf_keyPath fl = [] \<Longrightarrow> generated" using 1(3) by (auto simp: loadOrGenerateKey_def split: sum.splits)
  ultimately show ?thesis using 1 doc by (metis option.sel)
qed

section \<open>Certifying the fake\<close>

definition demo_toolkit :: "string toolkit" where
  "demo_toolkit = \<lparr>kt_generate = Inr ''key'', kt_read = (\<lambda>_. Inl ''no file''), kt_pem_decode = (\<lambda>_. None), kt_parse_pkcs8 = (\<lambda>_. Inr None), kt_canonical = (\<lambda>r. Inr (rp_TargetID r)),
     kt_sign = (\<lambda>k doc. k @ doc), kt_public_pem = (\<lambda>k. Inr k), kt_mkdir = (\<lambda>_. None), kt_write = (\<lambda>_ _. None),
     kt_failure_text = (\<lambda>_. [])\<rparr>"

definition demo_certify :: certify_flags where
  "demo_certify = \<lparr>cf_target = ''fake:0'', cf_targetID = [], cf_outDir = ''out'', cf_keyPath = [], cf_notes = [], cf_taskTimeout = 0\<rparr>"

lemma honest_run:
  obtains w cats where "Suite_Run fake_client (fixture_suite ''honest'' False False 0) (0, NewFake [fixture ''honest'' False False]) =
      Some (Finished (w, cats))" "\<forall>c \<in> set cats. cr_Passed c"
proof -
  obtain w cats where run: "Suite_Run fake_client (fixture_suite ''honest'' False False 0) (0, NewFake [fixture ''honest'' False False]) =
      Some (Finished (w, cats))"
    and cats: "map (\<lambda>c. (cr_Name c, cr_Passed c)) cats = [(''cat1-capability-honesty'', True), (''cat2-state-machine'', True),
      (''cat3-idempotency'', True), (''cat4-cancellation'', True), (''cat5-provenance'', True), (''cat6-usage'', True),
      (''cat7-error-taxonomy'', True), (''cat8-sessions'', True)]"
    using selftest.suite_verdict[OF fixture_start unused_New, of "''honest''" 0 False False] by (auto simp: fixture_def)
  have "cr_Passed c" if "c \<in> set cats" for c
  proof -
    have "(cr_Name c, cr_Passed c) \<in> set (map (\<lambda>c. (cr_Name c, cr_Passed c)) cats)" using that by auto
    then show ?thesis unfolding cats by auto
  qed
  with run show ?thesis using that by blast
qed

lemma demo_certify_run:
  "\<exists>r. RunCmd fake_client demo_toolkit ''v1'' (Inr [''honest'']) 0 demo_certify (0, NewFake [fixture ''honest'' False False]) =
     Some (Finished r) \<and> ce_error r = None"
proof -
  obtain w cats where run: "Suite_Run fake_client (fixture_suite ''honest'' False False 0) (0, NewFake [fixture ''honest'' False False]) =
      Some (Finished (w, cats))" "\<forall>c \<in> set cats. cr_Passed c" by (rule honest_run)
  have "su_TaskTimeout (fixture_suite ''honest'' False False 0) = 0"
    by (simp add: fixture_suite_def Dial_def fake_client_def GetCapabilities_def spec_def NewFake_def fixture_def)
  then have "(fixture_suite ''honest'' False False 0)\<lparr>su_TaskTimeout := 0\<rparr> = fixture_suite ''honest'' False False 0" by simp
  then show ?thesis
    using run by (simp add: RunCmd_def demo_certify_def firstTargetID_def fixture_dialed demo_toolkit_def loadOrGenerateKey_def
        writeArtifacts_def Sign_def BuildReport_def Recorder_Passed_all Let_def)
qed

theorem published_certificate_verifies_witness:
  "\<exists>r report sig. RunCmd fake_client demo_toolkit ''v1'' (Inr [''honest'']) 0 demo_certify (0, NewFake [fixture ''honest'' False False]) =
     Some (Finished r) \<and> rp_TargetID report = the (map_of (ce_files r) ''report.json'') \<and>
     Verify (kt_canonical demo_toolkit) (\<lambda>p doc sig. sig = p @ doc) ''key'' sig report"
proof -
  obtain r where r: "RunCmd fake_client demo_toolkit ''v1'' (Inr [''honest'']) 0 demo_certify (0, NewFake [fixture ''honest'' False False]) =
     Some (Finished r)" "ce_error r = None" using demo_certify_run by blast
  have "\<And>k doc. (\<lambda>p doc sig. sig = p @ doc) k doc (kt_sign demo_toolkit k doc)" by (simp add: demo_toolkit_def)
  from published_certificate_verifies[OF r, of "\<lambda>p doc sig. sig = p @ doc" "\<lambda>k. k", OF this]
  obtain report key sig where "Verify (kt_canonical demo_toolkit) (\<lambda>p doc sig. sig = p @ doc) key sig report"
      "Inr (the (map_of (ce_files r) ''report.json'')) = kt_canonical demo_toolkit report" by blast
  then have "rp_TargetID report = the (map_of (ce_files r) ''report.json'')"
      "Verify (kt_canonical demo_toolkit) (\<lambda>p doc sig. sig = p @ doc) ''key'' (''key'' @ rp_TargetID report) report"
    by (simp_all add: demo_toolkit_def Verify_def)
  then show ?thesis using r(1) by blast
qed

end
