(* ===== verification/Api_Server.thy ===== *)
theory Api_Server
  imports Api_Auth Status_Page Admission
begin

text \<open>
  The front door of the control plane: assembling the server, the routes of the HTTP listener and the handlers
  that are not the gateway (\<open>internal/api/server.go\<close>, \<open>metrics.go\<close>, \<open>status_handler.go\<close>). The gateway, which
  forwards to the authenticated gRPC services, the console's file server, the HTML template, pinging the
  database and the text of \<open>%g\<close> are arguments. Paths are those \<open>ServeMux\<close> has cleaned.
\<close>

section \<open>Assembly\<close>

record ('r, 'f, 'v, 'c) server_config =
  ac_GRPCAddr :: string
  ac_HTTPAddr :: string
  ac_Auth :: "Authenticator option"
  ac_Registry :: "'r option"
  ac_Fleet :: "'f option"
  ac_Store :: "db option"
  ac_Validator :: "'v option"
  ac_Canceller :: "'c option"

text \<open>The registered services with what they are built from.\<close>

datatype ('r, 'f, 'v, 'c) service = JobsService db 'v 'f "'c option" | TargetsService 'r | UsageService db | AdminService db

text \<open>A gRPC server: the interceptors, each named by the authenticator it checks with (\<open>None\<close> without one), and the
  registered services by name.\<close>

record ('r, 'f, 'v, 'c) grpc_server =
  gs_unary :: "Authenticator option"
  gs_stream :: "Authenticator option"
  gs_services :: "(string \<times> ('r, 'f, 'v, 'c) service) list"

definition RegisterService :: "string \<Rightarrow> ('r, 'f, 'v, 'c) service \<Rightarrow> ('r, 'f, 'v, 'c) grpc_server \<Rightarrow> ('r, 'f, 'v, 'c) grpc_server" where
  "RegisterService name svc g = g\<lparr>gs_services := gs_services g @ [(name, svc)]\<rparr>"

record ('r, 'f, 'v, 'c) server =
  sv_cfg :: "('r, 'f, 'v, 'c) server_config"
  sv_grpc :: "('r, 'f, 'v, 'c) grpc_server"
  sv_grpcLis :: string
  sv_started :: time

definition api_New ::
  "(string \<Rightarrow> string + string) \<Rightarrow> time \<Rightarrow> ('r, 'f, 'v, 'c) server_config \<Rightarrow> string + ('r, 'f, 'v, 'c) server" where
  "api_New listen now cfg =
     (case ac_Auth cfg of
        None \<Rightarrow> Inl ''api: Auth must be set''
      | Some authn \<Rightarrow>
     (case ac_Registry cfg of
        None \<Rightarrow> Inl ''api: Registry must be set''
      | Some reg \<Rightarrow>
     (case ac_Fleet cfg of
        None \<Rightarrow> Inl ''api: Fleet must be set''
      | Some fleet \<Rightarrow>
     (case ac_Store cfg of
        None \<Rightarrow> Inl ''api: Store must be set''
      | Some st \<Rightarrow>
     (case ac_Validator cfg of
        None \<Rightarrow> Inl ''api: Validator must be set''
      | Some validator \<Rightarrow>
          (let g0 = \<lparr>gs_unary = Some authn, gs_stream = Some authn, gs_services = []\<rparr>;
               g1 = RegisterService ''tangle.api.v1alpha1.JobsService'' (JobsService st validator fleet (ac_Canceller cfg)) g0;
               g2 = RegisterService ''tangle.api.v1alpha1.TargetsService'' (TargetsService reg) g1;
               g3 = RegisterService ''tangle.api.v1alpha1.UsageService'' (UsageService st) g2;
               g4 = RegisterService ''rabi.admin.v1alpha1.AdminService'' (AdminService st) g3
           in case listen (ac_GRPCAddr cfg) of
                Inl e \<Rightarrow> Inl (''api: listen grpc '' @ ac_GRPCAddr cfg @ '': '' @ e)
              | Inr addr \<Rightarrow> Inr \<lparr>sv_cfg = cfg, sv_grpc = g4, sv_grpcLis = addr, sv_started = now\<rparr>))))))"

definition GRPCAddr :: "('r, 'f, 'v, 'c) server \<Rightarrow> string" where
  "GRPCAddr s = sv_grpcLis s"

section \<open>Calls\<close>

text \<open>How \<open>grpc.Server\<close> serves a call, as its documentation says: a method of a service that is not registered is
  unimplemented; a handler runs behind the interceptor if there is one, and unchecked, without a principal, otherwise.\<close>

definition service_name :: "string \<Rightarrow> string" where
  "service_name fullMethod = takeWhile (\<lambda>c. c \<noteq> CHR ''/'') (tl fullMethod)"

definition registered_service :: "('r, 'f, 'v, 'c) grpc_server \<Rightarrow> string \<Rightarrow> bool" where
  "registered_service g fullMethod \<longleftrightarrow> service_name fullMethod \<in> set (map fst (gs_services g))"

definition serve_unary ::
  "('r, 'f, 'v, 'c) grpc_server \<Rightarrow> time \<Rightarrow> metadata \<Rightarrow> string \<Rightarrow> (ctx \<Rightarrow> db \<Rightarrow> db \<times> (api_error + 'res)) \<Rightarrow> db \<Rightarrow> db \<times> (api_error + 'res)" where
  "serve_unary g now md fullMethod handler d =
     (if \<not> registered_service g fullMethod then (d, Inl (Unimplemented, Message (''unknown service '' @ service_name fullMethod)))
      else (case gs_unary g of
              None \<Rightarrow> handler None d
            | Some a \<Rightarrow> UnaryAuthInterceptor a now md fullMethod handler d))"

definition serve_stream ::
  "('r, 'f, 'v, 'c) grpc_server \<Rightarrow> time \<Rightarrow> metadata \<Rightarrow> string \<Rightarrow> (ctx \<Rightarrow> db \<Rightarrow> 'msg list \<times> api_error option) \<Rightarrow> db \<Rightarrow>
   db \<times> 'msg list \<times> api_error option" where
  "serve_stream g now md fullMethod handler d =
     (if \<not> registered_service g fullMethod then (d, [], Some (Unimplemented, Message (''unknown service '' @ service_name fullMethod)))
      else (case gs_stream g of
              None \<Rightarrow> (d, handler None d)
            | Some a \<Rightarrow> StreamAuthInterceptor a now md fullMethod handler d))"

lemma matrix_service:
  assumes "MinRole m \<noteq> None"
  shows "service_name m \<in> {''tangle.api.v1alpha1.JobsService'', ''tangle.api.v1alpha1.TargetsService'', ''tangle.api.v1alpha1.UsageService'',
    ''rabi.admin.v1alpha1.AdminService''}"
proof -
  have "list_all (\<lambda>x. service_name x \<in> {''tangle.api.v1alpha1.JobsService'', ''tangle.api.v1alpha1.TargetsService'',
      ''tangle.api.v1alpha1.UsageService'', ''rabi.admin.v1alpha1.AdminService''}) (map fst minRole)" by code_simp
  moreover have "m \<in> set (map fst minRole)" using assms by (auto simp: MinRole_def map_of_eq_None_iff)
  ultimately show ?thesis by (simp only: list_all_iff)
qed

section \<open>HTTP\<close>

record http_response =
  hr_Code :: nat
  hr_Header :: "(string \<times> string) list"
  hr_Body :: string

definition http_nl :: string where
  "http_nl = [char_of (10 :: nat)]"

definition phase_metric :: "db \<Rightarrow> phase \<Rightarrow> string" where
  "phase_metric d p = ''rabi_jobs_total{phase='' @ quote (phase_str p) @ ''} '' @ itoa (length (filter (\<lambda>j. jr_Phase j = p) (jobs d))) @ http_nl"

definition gauge_head :: "string \<Rightarrow> string \<Rightarrow> string" where
  "gauge_head name help = ''# HELP '' @ name @ '' '' @ help @ http_nl @ ''# TYPE '' @ name @ '' gauge'' @ http_nl"

definition target_metric :: "(float64 \<Rightarrow> string) \<Rightarrow> string \<Rightarrow> string \<Rightarrow> float64 \<Rightarrow> string" where
  "target_metric fmt_g name target x = name @ ''{target='' @ quote target @ ''} '' @ fmt_g x @ http_nl"

definition health_metrics :: "(float64 \<Rightarrow> string) \<Rightarrow> time \<Rightarrow> Health list \<Rightarrow> string" where
  "health_metrics fmt_g now health0 =
     (let health = sort_key he_Target health0
      in gauge_head ''rabi_probe_fidelity'' ''Latest probe fidelity (1-TVD vs ideal) per target.'' @
         concat (map (\<lambda>h. target_metric fmt_g ''rabi_probe_fidelity'' (he_Target h) (he_Fidelity h)) health) @
         gauge_head ''rabi_probe_estimator_abs_error'' ''|predicted ESP - measured| per target (pilot SLO: median <= 0.10).'' @
         concat (map (\<lambda>h. case he_AbsError h of
            Some e \<Rightarrow> target_metric fmt_g ''rabi_probe_estimator_abs_error'' (he_Target h) e | None \<Rightarrow> []) health) @
         gauge_head ''rabi_probe_age_seconds'' ''Seconds since each target's latest probe.'' @
         concat (map (\<lambda>h. target_metric fmt_g ''rabi_probe_age_seconds'' (he_Target h)
            (of_int (time_Sub now (he_At h)) / 1000000000)) health))"

text \<open>A query that fails is left out: \<open>counted p\<close> tells whether the count of a phase was read, \<open>probed\<close> whether the probes were.\<close>

definition metricsHandler ::
  "(float64 \<Rightarrow> string) \<Rightarrow> (phase \<Rightarrow> bool) \<Rightarrow> bool \<Rightarrow> time \<Rightarrow> probe_row list \<Rightarrow> db \<Rightarrow> http_response" where
  "metricsHandler fmt_g counted probed now probes d =
     \<lparr>hr_Code = 200, hr_Header = [(''Content-Type'', ''text/plain; version=0.0.4'')],
      hr_Body = gauge_head ''rabi_jobs_total'' ''Jobs by phase.'' @ concat (map (phase_metric d) (filter counted Phases)) @
        (if probed then health_metrics fmt_g now (LatestHealth probes) else [])\<rparr>"

definition statusHandler ::
  "(Data \<Rightarrow> string) \<Rightarrow> bool \<Rightarrow> time \<Rightarrow> time \<Rightarrow> probe_row list \<Rightarrow> db \<Rightarrow> http_response" where
  "statusHandler render gathered started now probes d =
     (if gathered
      then \<lparr>hr_Code = 200, hr_Header = [(''Content-Type'', ''text/html; charset=utf-8''), (''Cache-Control'', ''no-cache'')],
            hr_Body = render (Gather started now probes d)\<rparr>
      else \<lparr>hr_Code = 503, hr_Header = [(''Content-Type'', ''text/plain; charset=utf-8''), (''X-Content-Type-Options'', ''nosniff'')],
            hr_Body = ''status unavailable'' @ http_nl\<rparr>)"

definition healthz :: http_response where
  "healthz = \<lparr>hr_Code = 200, hr_Header = [], hr_Body = ''ok'' @ http_nl\<rparr>"

definition readyz :: "bool \<Rightarrow> http_response" where
  "readyz reachable_db =
     (if reachable_db then \<lparr>hr_Code = 200, hr_Header = [], hr_Body = ''ready'' @ http_nl\<rparr>
      else \<lparr>hr_Code = 503, hr_Header = [], hr_Body = ''not ready: database unreachable'' @ http_nl\<rparr>)"

datatype route = RConsole | RConsoleRedirect | RMetrics | RStatus | RHealthz | RReadyz | RGateway

definition httpMux :: "string \<Rightarrow> route" where
  "httpMux path =
     (if prefix ''/console/'' path then RConsole
      else if path = ''/console'' then RConsoleRedirect
      else if path = ''/metrics'' then RMetrics
      else if path = ''/status'' then RStatus
      else if path = ''/healthz'' then RHealthz
      else if path = ''/readyz'' then RReadyz
      else RGateway)"

text \<open>What a request meets outside the database.\<close>

record http_env =
  he_fmt_g :: "float64 \<Rightarrow> string"
  he_render :: "Data \<Rightarrow> string"
  he_console :: "string \<Rightarrow> http_response"
  he_counted :: "phase \<Rightarrow> bool"
  he_probed :: bool
  he_gathered :: bool
  he_ping :: bool
  he_now :: time

text \<open>The database of the control plane with its table \<open>probe_results\<close>, which only the probes write.\<close>

type_synonym probed_db = "db \<times> probe_row list"

definition serve_http ::
  "http_env \<Rightarrow> (probed_db \<Rightarrow> string \<Rightarrow> http_response) \<Rightarrow> time \<Rightarrow> probed_db \<Rightarrow> string \<Rightarrow> http_response" where
  "serve_http env gateway started dp path =
     (case httpMux path of
        RConsole \<Rightarrow> he_console env path
      | RConsoleRedirect \<Rightarrow> \<lparr>hr_Code = 301, hr_Header = [(''Location'', ''/console/'')], hr_Body = []\<rparr>
      | RMetrics \<Rightarrow> metricsHandler (he_fmt_g env) (he_counted env) (he_probed env) (he_now env) (snd dp) (fst dp)
      | RStatus \<Rightarrow> statusHandler (he_render env) (he_gathered env) started (he_now env) (snd dp) (fst dp)
      | RHealthz \<Rightarrow> healthz
      | RReadyz \<Rightarrow> readyz (he_ping env)
      | RGateway \<Rightarrow> gateway dp path)"

section \<open>Serving\<close>

text \<open>What ends \<open>Run\<close>: the context, or the first error of a listener (a closed HTTP server is none).\<close>

datatype server_event = ContextDone | GrpcServe string | HttpServe string

text \<open>The result and whether the listeners were shut down gracefully.\<close>

definition Server_Run :: "string option \<Rightarrow> string option list \<Rightarrow> server_event \<Rightarrow> string option \<times> bool" where
  "Server_Run dial_loopback registered ev =
     (case dial_loopback of
        Some e \<Rightarrow> (Some (''api: dial gateway loopback: '' @ e), False)
      | None \<Rightarrow>
          (case first_error registered of
             Some e \<Rightarrow> (Some (''api: register gateway handler: '' @ e), False)
           | None \<Rightarrow>
               (case ev of
                  ContextDone \<Rightarrow> (None, True)
                | GrpcServe e \<Rightarrow> (Some (''api: grpc serve: '' @ e), False)
                | HttpServe e \<Rightarrow> (Some (''api: http serve: '' @ e), False))))"

section \<open>Properties\<close>

text \<open>What the open pages may depend on: how many jobs there are in which phase and since when, the outcome of the
  last reconciliation, the game days, and the latest probe of each target.\<close>

definition public_view :: "probed_db \<Rightarrow> (phase \<times> time) list \<times> (nat \<times> nat \<times> time) option \<times> game_day list \<times> Health list" where
  "public_view dp = (map (\<lambda>j. (jr_Phase j, jr_CreatedAt j)) (jobs (fst dp)), LastReconciliation (fst dp), game_days (fst dp),
     LatestHealth (snd dp))"

lemma map_filter_shape:
  assumes "map (\<lambda>j. (jr_Phase j, jr_CreatedAt j)) js = map (\<lambda>j. (jr_Phase j, jr_CreatedAt j)) js'"
  shows "map jr_CreatedAt (filter (\<lambda>j. P (jr_Phase j) (jr_CreatedAt j)) js) = map jr_CreatedAt (filter (\<lambda>j. P (jr_Phase j) (jr_CreatedAt j)) js')"
  using assms by (induction js js' rule: list_induct2') auto

lemma phase_metric_public: "public_view dp = public_view dp' \<Longrightarrow> phase_metric (fst dp) p = phase_metric (fst dp') p"
  using map_filter_shape [of "jobs (fst dp)" "jobs (fst dp')" "\<lambda>ph _. ph = p", THEN arg_cong, of length]
  by (simp add: public_view_def phase_metric_def)

lemma Gather_public:
  assumes "public_view dp = public_view dp'"
  shows "Gather started now (snd dp) (fst dp) = Gather started now (snd dp') (fst dp')"
proof -
  let ?d = "fst dp" and ?d' = "fst dp'"
  have shape: "map (\<lambda>j. (jr_Phase j, jr_CreatedAt j)) (jobs ?d) = map (\<lambda>j. (jr_Phase j, jr_CreatedAt j)) (jobs ?d')"
    and "LastReconciliation ?d = LastReconciliation ?d'" "LastGameDay ?d = LastGameDay ?d'" "LatestHealth (snd dp) = LatestHealth (snd dp')"
    using assms by (simp_all add: public_view_def LastGameDay_def)
  moreover have created: "map jr_CreatedAt (jobs ?d) = map jr_CreatedAt (jobs ?d')"
    using map_filter_shape [OF shape, of "\<lambda>_ _. True"] by simp
  moreover have lost: "map jr_CreatedAt (lost_jobs c ?d) = map jr_CreatedAt (lost_jobs c ?d')" for c
    using map_filter_shape [OF shape, of "\<lambda>p t. p \<notin> {Succeeded, Failed, Cancelled} \<and> t < c"] by (simp add: lost_jobs_def)
  moreover have "length (lost_jobs c ?d) = length (lost_jobs c ?d')" for c using lost [THEN arg_cong, of length] by simp
  moreover have "(lost_jobs c ?d = []) = (lost_jobs c ?d' = [])" for c using lost [of c] by (metis map_is_Nil_conv)
  ultimately show ?thesis by (simp only: Gather_def Let_def)
qed

text \<open>C31: The unauthenticated pages reveal nothing about tenants: whatever is requested that is not forwarded to the
  authenticated gateway, the response is the same for any two databases with the same phases and creation
  times of jobs, the same last reconciliation, the same game days and the same latest probe of each target, whoever owns
  the jobs and whatever their documents, results, usage, tokens, quotas, audit trails and older probes are.\<close>

theorem public_pages_are_tenant_blind:
  assumes "public_view dp = public_view dp'" and "httpMux path \<noteq> RGateway"
  shows "serve_http env gateway started dp path = serve_http env gateway' started dp' path"
proof -
  have "LatestHealth (snd dp) = LatestHealth (snd dp')" using assms(1) by (simp add: public_view_def)
  then show ?thesis
    using assms(2) phase_metric_public [OF assms(1)] Gather_public [OF assms(1)]
    by (auto simp: serve_http_def metricsHandler_def statusHandler_def split: route.splits intro!: arg_cong [of _ _ concat])
qed

definition demo_job_of :: "string \<Rightarrow> job_record" where
  "demo_job_of tenant = \<lparr>jr_JobID = tenant, jr_Tenant = tenant, jr_Name = tenant, jr_Phase = Running, jr_Doc = [(''t'', JStr tenant)],
     jr_Status = [], jr_CreatedAt = 5, jr_UpdatedAt = 7\<rparr>"

theorem public_pages_are_tenant_blind_witness:
  "\<forall>env gateway started probes. serve_http env gateway started (empty_db\<lparr>jobs := [demo_job_of ''acme/lab'']\<rparr>, probes) ''/metrics'' =
   serve_http env gateway started (empty_db\<lparr>jobs := [demo_job_of ''rival/qa'']\<rparr>, probes) ''/metrics''"
  by (intro allI, rule public_pages_are_tenant_blind) (simp_all add: public_view_def demo_job_of_def httpMux_def LastReconciliation_def empty_db_def)

end
