(* ===== verification/Daemon_Properties.thy ===== *)
theory Daemon_Properties
  imports Daemon Go_Strings
begin

text \<open>
  What a started daemon guarantees: it has a credential path, its policies are registered, a
  misconfiguration stops it at start-up, and a reconciliation interval that is not positive
  crashes it. The group-role map of the environment round-trips.
\<close>

section \<open>Group roles\<close>

definition print_pair :: "string \<times> Role \<Rightarrow> string" where
  "print_pair gr = fst gr @ CHR ''='' # role_String (snd gr)"

definition group_name :: "string \<Rightarrow> bool" where
  "group_name g \<longleftrightarrow> g \<noteq> [] \<and> \<not> is_space (hd g) \<and> CHR ''='' \<notin> set g \<and> CHR '','' \<notin> set g"

lemma role_String_shape: "role_String r \<noteq> [] \<and> \<not> is_space (last (role_String r)) \<and> CHR '','' \<notin> set (role_String r)"
  by (cases r) (simp_all add: role_String_def roleNames_def is_space_def code_def)

lemma print_pair_trim: "group_name (fst gr) \<Longrightarrow> TrimSpace (print_pair gr) = print_pair gr"
  using role_String_shape [of "snd gr"] by (intro TrimSpace_id) (simp_all add: print_pair_def group_name_def)

lemma print_pair_Cut: "group_name (fst gr) \<Longrightarrow> Cut (CHR ''='') (print_pair gr) = Some (fst gr, role_String (snd gr))"
  by (simp add: print_pair_def group_name_def Cut_append)

lemma parse_pairs_print:
  assumes "\<forall>gr \<in> set prs. group_name (fst gr)" and "distinct (map fst (acc @ prs))"
  shows "parse_pairs (map print_pair prs) acc = Inr (acc @ prs)"
  using assms
proof (induction prs arbitrary: acc)
  case (Cons gr prs)
  have "AList.update (fst gr) (snd gr) acc = acc @ [gr]"
    using Cons.prems(2) by (induction acc) auto
  with Cons show ?case
    by (simp add: print_pair_trim print_pair_Cut) (simp add: group_name_def)
qed simp

text \<open>C1: The group-role map of \<open>RABI_OIDC_GROUP_ROLES\<close> round-trips: a non-empty map with distinct group names
  (non-empty, not starting with a space, without \<open>=\<close> and \<open>,\<close>), written as \<open>group=role,group=role\<close>, is parsed back to
  exactly that map.\<close>

theorem group_roles_round_trip:
  assumes "prs \<noteq> []" and "\<forall>gr \<in> set prs. group_name (fst gr)" and "distinct (map fst prs)"
  shows "parseGroupRoles (Join (map print_pair prs) '','') = Inr prs"
proof -
  have "CHR '','' \<notin> set (print_pair gr)" if "gr \<in> set prs" for gr
    using assms(2) that role_String_shape [of "snd gr"] by (simp add: print_pair_def group_name_def)
  then have "Split (CHR '','') (Join (map print_pair prs) '','') = map print_pair prs"
    using assms(1) by (intro Split_Join) auto
  moreover have "Join (map print_pair prs) '','' \<noteq> []"
    using assms(1) by (cases prs rule: list.exhaust; cases "tl prs") (simp_all add: print_pair_def)
  ultimately show ?thesis
    using assms(2,3) parse_pairs_print [of prs "[]"] by (simp add: parseGroupRoles_def)
qed

theorem group_roles_round_trip_witness:
  "parseGroupRoles ''lab=operator,ops team=admin'' = Inr [(''lab'', RoleOperator), (''ops team'', RoleAdmin)]"
  using group_roles_round_trip [of "[(''lab'', RoleOperator), (''ops team'', RoleAdmin)]"]
  by (simp add: group_name_def print_pair_def role_String_def roleNames_def is_space_def code_def)

section \<open>Shadow policies\<close>

definition shadow_names :: "string \<Rightarrow> string list" where
  "shadow_names v = (if TrimSpace v = [] then [] else filter (\<lambda>n. n \<noteq> []) (map TrimSpace (Split (CHR '','') (TrimSpace v))))"

definition known :: "(string \<times> policy) list \<Rightarrow> (string \<rightharpoonup> policy) \<Rightarrow> bool" where
  "known factories ss \<longleftrightarrow> (\<forall>n p. ss n = Some p \<longrightarrow> map_of factories n = Some p)"

lemma Lookup_known:
  assumes "known factories ss"
  shows "case map_of factories n of
      None \<Rightarrow> Lookup factories ss n = (ss, Inl (n, sort (map fst factories)))
    | Some p \<Rightarrow> (\<exists>ss'. Lookup factories ss n = (ss', Inr p) \<and> known factories ss')"
  using assms by (auto simp: Lookup_def NewPolicy_def known_def split: option.splits)

lemma lookup_shadows_known:
  assumes "known factories ss"
  shows "\<exists>ss'. known factories ss' \<and> (let names = filter (\<lambda>n. n \<noteq> []) (map TrimSpace raws)
      in case find (\<lambda>n. map_of factories n = None) names of
           Some n \<Rightarrow> lookup_shadows factories raws ss acc = (ss', Inl (n, sort (map fst factories)))
         | None \<Rightarrow> lookup_shadows factories raws ss acc = (ss', Inr (acc @ map (\<lambda>n. the (map_of factories n)) names)))"
  using assms
proof (induction raws arbitrary: ss acc)
  case (Cons raw raws)
  show ?case
  proof (cases "TrimSpace raw = []")
    case True
    have step: "lookup_shadows factories (raw # raws) ss acc = lookup_shadows factories raws ss acc"
      using True by (simp add: Let_def)
    show ?thesis unfolding step using Cons.IH [OF Cons.prems, of acc] True by simp
  next
    case named: False
    show ?thesis
    proof (cases "map_of factories (TrimSpace raw)")
      case None
      with Lookup_known [OF Cons.prems, of "TrimSpace raw"] Cons.prems named show ?thesis by (auto simp: Let_def)
    next
      case (Some p)
      with Lookup_known [OF Cons.prems, of "TrimSpace raw"] obtain ss1
        where l: "Lookup factories ss (TrimSpace raw) = (ss1, Inr p)" and k: "known factories ss1" by auto
      have step: "lookup_shadows factories (raw # raws) ss acc = lookup_shadows factories raws ss1 (acc @ [p])"
        using named l by (simp add: Let_def)
      show ?thesis unfolding step using Cons.IH [OF k, of "acc @ [p]"] Some named
        by (simp add: Let_def cong: option.case_cong)
    qed
  qed
qed auto

lemma enableShadow_known:
  assumes "known factories ss"
  shows "\<exists>ss'. case find (\<lambda>n. map_of factories n = None) (shadow_names v) of
      Some n \<Rightarrow> enableShadowPolicies factories ss d v = (ss', Inl (n, sort (map fst factories)))
    | None \<Rightarrow> enableShadowPolicies factories ss d v =
        (ss', Inr (d\<lparr>dp_shadow := dp_shadow d @ map (\<lambda>n. the (map_of factories n)) (shadow_names v)\<rparr>))"
proof (cases "TrimSpace v = []")
  case False
  with lookup_shadows_known [OF assms, of "Split (CHR '','') (TrimSpace v)" "[]"] show ?thesis
    by (auto simp: enableShadowPolicies_def shadow_names_def EnableShadow_def Let_def comp_def split: option.splits)
qed (simp add: enableShadowPolicies_def shadow_names_def)

section \<open>Start-up\<close>

lemma buildAuthenticator_shape:
  assumes "buildAuthenticator idp getenv = Inr a"
  shows "an_hasBootstrap a = (getenv ''RABI_BOOTSTRAP_TOKEN'' \<noteq> [])"
    and "(an_oidc a = None) = (getenv ''RABI_OIDC_ISSUER'' = [])"
    and "an_oidc a = Some v \<Longrightarrow> oc_Issuer (ov_cfg v) = getenv ''RABI_OIDC_ISSUER'' \<and> oc_ClientID (ov_cfg v) = getenv ''RABI_OIDC_CLIENT_ID''
      \<and> getenv ''RABI_OIDC_CLIENT_ID'' \<noteq> []"
    and "getenv ''RABI_BOOTSTRAP_TOKEN'' \<noteq> [] \<or> getenv ''RABI_OIDC_ISSUER'' \<noteq> []"
  using assms
  by (auto simp: buildAuthenticator_def oidc_from_env_def NewAuthenticator_def NewOIDCVerifier_def Let_def
      split: sum.splits if_splits)

text \<open>The server \<open>api.New\<close> assembles.\<close>

lemma api_New_grpc:
  assumes "api_New listen now cfg = Inr srv"
  obtains authn reg fleet st v where "ac_Auth cfg = Some authn" "ac_Registry cfg = Some reg" "ac_Fleet cfg = Some fleet"
    "ac_Store cfg = Some st" "ac_Validator cfg = Some v" "sv_cfg srv = cfg"
    "gs_unary (sv_grpc srv) = Some authn" "gs_stream (sv_grpc srv) = Some authn"
    "gs_services (sv_grpc srv) = [(''tangle.api.v1alpha1.JobsService'', JobsService st v fleet (ac_Canceller cfg)),
       (''tangle.api.v1alpha1.TargetsService'', TargetsService reg), (''tangle.api.v1alpha1.UsageService'', UsageService st),
       (''rabi.admin.v1alpha1.AdminService'', AdminService st)]"
  using assms by (auto simp: api_New_def RegisterService_def Let_def split: option.splits sum.splits)

text \<open>The parts \<open>main\<close> hands to the server, when it gets that far.\<close>

lemma rabid_main_parts:
  assumes "rabid_main os factories ss getenv = Inr dm"
  obtains ss1 ss2 disp where
    "NewFromSpec (os_dial os) (getenv ''RABI_ADAPTERS'') = Inr (dm_registry dm)"
    "New factories ss (dm_db dm) (getenv ''RABI_POLICY'') = (ss1, Inr disp)"
    "enableShadowPolicies factories ss1 disp (getenv ''RABI_SHADOW_POLICIES'') = (ss2, Inr (dm_dispatcher dm))"
    "buildAuthenticator (os_idp os) getenv = Inr (dm_auth dm)"
    "dm_reconcile dm = reconcile_ticker getenv"
    "dm_leader_gate dm = (getenv ''RABI_HA_LEADER_ELECTION'' = ''true'')"
    "api_New (os_listen os) (os_now os) \<lparr>ac_GRPCAddr = envOr getenv ''RABI_GRPC_ADDR'' '':9090'',
       ac_HTTPAddr = envOr getenv ''RABI_HTTP_ADDR'' '':8080'', ac_Auth = Some (dm_auth dm),
       ac_Registry = Some (dm_registry dm), ac_Fleet = Some (dm_registry dm), ac_Store = Some (dm_db dm), ac_Validator = Some (),
       ac_Canceller = Some (dm_dispatcher dm)\<rparr> = Inr (dm_server dm)"
  using assms by (auto simp: rabid_main_def Let_def split: sum.splits prod.splits option.splits if_splits)

lemma rabid_main_grpc:
  assumes "rabid_main os factories ss getenv = Inr dm"
  shows "gs_unary (sv_grpc (dm_server dm)) = Some (dm_auth dm)" "gs_stream (sv_grpc (dm_server dm)) = Some (dm_auth dm)"
    "gs_services (sv_grpc (dm_server dm)) =
       [(''tangle.api.v1alpha1.JobsService'', JobsService (dm_db dm) () (dm_registry dm) (Some (dm_dispatcher dm))),
        (''tangle.api.v1alpha1.TargetsService'', TargetsService (dm_registry dm)), (''tangle.api.v1alpha1.UsageService'', UsageService (dm_db dm)),
        (''rabi.admin.v1alpha1.AdminService'', AdminService (dm_db dm))]"
proof -
  have n: "api_New (os_listen os) (os_now os) \<lparr>ac_GRPCAddr = envOr getenv ''RABI_GRPC_ADDR'' '':9090'',
       ac_HTTPAddr = envOr getenv ''RABI_HTTP_ADDR'' '':8080'', ac_Auth = Some (dm_auth dm),
       ac_Registry = Some (dm_registry dm), ac_Fleet = Some (dm_registry dm), ac_Store = Some (dm_db dm), ac_Validator = Some (),
       ac_Canceller = Some (dm_dispatcher dm)\<rparr> = Inr (dm_server dm)" by (rule rabid_main_parts [OF assms])
  show "gs_unary (sv_grpc (dm_server dm)) = Some (dm_auth dm)" "gs_stream (sv_grpc (dm_server dm)) = Some (dm_auth dm)"
    "gs_services (sv_grpc (dm_server dm)) =
       [(''tangle.api.v1alpha1.JobsService'', JobsService (dm_db dm) () (dm_registry dm) (Some (dm_dispatcher dm))),
        (''tangle.api.v1alpha1.TargetsService'', TargetsService (dm_registry dm)), (''tangle.api.v1alpha1.UsageService'', UsageService (dm_db dm)),
        (''rabi.admin.v1alpha1.AdminService'', AdminService (dm_db dm))]"
    using api_New_grpc [OF n] by auto
qed

lemma New_known:
  assumes "known factories ss" and "New factories ss d name = (ss', Inr disp)"
  shows "known factories ss'" and "map_of factories (if name = [] then DefaultPolicy else name) = Some (dp_policy disp)"
    and "dp_shadow disp = []" and "dp_db disp = d"
  using assms Lookup_known [OF assms(1), of "if name = [] then DefaultPolicy else name"]
  by (auto simp: New_def Let_def split: prod.splits sum.splits option.splits if_splits)

text \<open>C30: A daemon that starts serving is completely configured: it accepts the bootstrap token exactly when one is set and
  OIDC exactly when an issuer is (with that issuer and a client id), at least one of them; its scheduling policy is the
  registered one \<open>RABI_POLICY\<close> names (or the default); its shadow policies are exactly the registered policies
  \<open>RABI_SHADOW_POLICIES\<close> names, in that order; and the leader gate is on exactly when asked for. Its gRPC server serves
  every method of the authorization matrix, unary or streaming, only behind the interceptor of that authenticator, and no
  method of any other service; the jobs service has the daemon's database, registry and dispatcher. Any unknown policy
  name or missing credential therefore stops it at start-up.\<close>

theorem rabid_serves_only_when_configured:
  assumes "rabid_main os factories Map.empty getenv = Inr dm"
  shows "(getenv ''RABI_BOOTSTRAP_TOKEN'' \<noteq> [] \<or> getenv ''RABI_OIDC_ISSUER'' \<noteq> [] \<and> getenv ''RABI_OIDC_CLIENT_ID'' \<noteq> []) \<and>
    an_hasBootstrap (dm_auth dm) = (getenv ''RABI_BOOTSTRAP_TOKEN'' \<noteq> []) \<and>
    map_option (\<lambda>v. (oc_Issuer (ov_cfg v), oc_ClientID (ov_cfg v))) (an_oidc (dm_auth dm)) =
      (if getenv ''RABI_OIDC_ISSUER'' = [] then None else Some (getenv ''RABI_OIDC_ISSUER'', getenv ''RABI_OIDC_CLIENT_ID'')) \<and>
    map_of factories (envOr getenv ''RABI_POLICY'' DefaultPolicy) = Some (dp_policy (dm_dispatcher dm)) \<and>
    map (map_of factories) (shadow_names (getenv ''RABI_SHADOW_POLICIES'')) = map Some (dp_shadow (dm_dispatcher dm)) \<and>
    dm_leader_gate dm = (getenv ''RABI_HA_LEADER_ELECTION'' = ''true'') \<and> dp_db (dm_dispatcher dm) = dm_db dm \<and>
    (\<forall>now md m handler d. MinRole m \<noteq> None \<longrightarrow>
       serve_unary (sv_grpc (dm_server dm)) now md m handler d = UnaryAuthInterceptor (dm_auth dm) now md m handler d) \<and>
    (\<forall>now md m handler d. MinRole m \<noteq> None \<longrightarrow>
       serve_stream (sv_grpc (dm_server dm)) now md m handler d = StreamAuthInterceptor (dm_auth dm) now md m handler d) \<and>
    (\<forall>m. registered_service (sv_grpc (dm_server dm)) m \<longleftrightarrow> service_name m \<in> {''tangle.api.v1alpha1.JobsService'',
       ''tangle.api.v1alpha1.TargetsService'', ''tangle.api.v1alpha1.UsageService'', ''rabi.admin.v1alpha1.AdminService''}) \<and>
    map_of (gs_services (sv_grpc (dm_server dm))) ''tangle.api.v1alpha1.JobsService'' =
      Some (JobsService (dm_db dm) () (dm_registry dm) (Some (dm_dispatcher dm)))"
proof -
  obtain ss1 ss2 disp where n: "New factories Map.empty (dm_db dm) (getenv ''RABI_POLICY'') = (ss1, Inr disp)"
    and e: "enableShadowPolicies factories ss1 disp (getenv ''RABI_SHADOW_POLICIES'') = (ss2, Inr (dm_dispatcher dm))"
    and a: "buildAuthenticator (os_idp os) getenv = Inr (dm_auth dm)"
    and l: "dm_leader_gate dm = (getenv ''RABI_HA_LEADER_ELECTION'' = ''true'')"
    by (rule rabid_main_parts [OF assms])
  note nk = New_known [OF _ n, unfolded known_def, simplified]
  have k: "known factories ss1" using New_known(1) [OF _ n] by (simp add: known_def)
  let ?names = "shadow_names (getenv ''RABI_SHADOW_POLICIES'')"
  have none: "find (\<lambda>n. map_of factories n = None) ?names = None" and
    d: "dm_dispatcher dm = disp\<lparr>dp_shadow := dp_shadow disp @ map (\<lambda>n. the (map_of factories n)) ?names\<rparr>"
    using enableShadow_known [OF k, where v = "getenv ''RABI_SHADOW_POLICIES''" and d = disp] e by (auto split: option.splits)
  have "map (map_of factories) ?names = map Some (dp_shadow (dm_dispatcher dm))"
    using none nk by (auto simp: d find_None_iff)
  moreover have "map_of factories (envOr getenv ''RABI_POLICY'' DefaultPolicy) = Some (dp_policy (dm_dispatcher dm)) \<and>
      dp_db (dm_dispatcher dm) = dm_db dm"
    using nk by (auto simp: d envOr_def split: if_splits)
  moreover note b = buildAuthenticator_shape [OF a]
  have "map_option (\<lambda>v. (oc_Issuer (ov_cfg v), oc_ClientID (ov_cfg v))) (an_oidc (dm_auth dm)) =
      (if getenv ''RABI_OIDC_ISSUER'' = [] then None else Some (getenv ''RABI_OIDC_ISSUER'', getenv ''RABI_OIDC_CLIENT_ID''))"
    and "getenv ''RABI_BOOTSTRAP_TOKEN'' \<noteq> [] \<or> getenv ''RABI_OIDC_ISSUER'' \<noteq> [] \<and> getenv ''RABI_OIDC_CLIENT_ID'' \<noteq> []"
    using b by (cases "an_oidc (dm_auth dm)"; auto)+
  moreover note g = rabid_main_grpc [OF assms]
  have reg: "registered_service (sv_grpc (dm_server dm)) m \<longleftrightarrow> service_name m \<in> {''tangle.api.v1alpha1.JobsService'',
       ''tangle.api.v1alpha1.TargetsService'', ''tangle.api.v1alpha1.UsageService'', ''rabi.admin.v1alpha1.AdminService''}" for m
    unfolding registered_service_def g(3) by simp
  have "serve_unary (sv_grpc (dm_server dm)) now md m h x = UnaryAuthInterceptor (dm_auth dm) now md m h x" if "MinRole m \<noteq> None" for now md m h x
    using matrix_service [OF that] g(1) unfolding serve_unary_def reg by simp
  moreover have "serve_stream (sv_grpc (dm_server dm)) now md m h x = StreamAuthInterceptor (dm_auth dm) now md m h x" if "MinRole m \<noteq> None" for now md m h x
    using matrix_service [OF that] g(2) unfolding serve_stream_def reg by simp
  moreover have "map_of (gs_services (sv_grpc (dm_server dm))) ''tangle.api.v1alpha1.JobsService'' =
      Some (JobsService (dm_db dm) () (dm_registry dm) (Some (dm_dispatcher dm)))" unfolding g(3) by simp
  ultimately show ?thesis using l b(1) reg by blast
qed

definition daemon_env :: "string \<Rightarrow> env" where
  "daemon_env every k = (if k = ''RABI_BOOTSTRAP_TOKEN'' then ''dev'' else if k = ''RABI_SHADOW_POLICIES'' then ''fifo/v0, pareto/v0''
     else if k = ''RABI_RECONCILE_EVERY'' then every else [])"

definition demo_outside :: outside where
  "demo_outside = \<lparr>os_open = (\<lambda>_ _. Inr empty_db), os_dial = (\<lambda>_. True), os_elector = (\<lambda>_. None), os_schema = None,
     os_idp = (\<lambda>_ _. Inl ''unused''), os_listen = (\<lambda>a. Inr a), os_now = 9\<rparr>"

definition demo_factories :: "(string \<times> policy) list" where
  "demo_factories = [(''pareto/v0'', paretoPolicy), (''fifo/v0'', fifoPolicy)]"

lemma demo_starts: "\<exists>dm. rabid_main demo_outside demo_factories Map.empty (daemon_env every) = Inr dm \<and>
    dm_reconcile dm = reconcile_ticker (daemon_env every)"
  by (simp add: rabid_main_def demo_outside_def demo_factories_def daemon_env_def envOr_def NewFromSpec_def New_def Lookup_def NewPolicy_def
      DefaultPolicy_def enableShadowPolicies_def buildAuthenticator_def oidc_from_env_def NewAuthenticator_def api_New_def TrimSpace_def
      is_space_def code_def Let_def)

theorem rabid_serves_only_when_configured_witness:
  "\<exists>dm. rabid_main demo_outside demo_factories Map.empty (daemon_env []) = Inr dm \<and>
     dp_shadow (dm_dispatcher dm) = [fifoPolicy, paretoPolicy] \<and> dp_policy (dm_dispatcher dm) = fifoPolicy \<and>
     an_hasBootstrap (dm_auth dm)"
proof -
  obtain dm where dm: "rabid_main demo_outside demo_factories Map.empty (daemon_env []) = Inr dm"
    using demo_starts by blast
  have "shadow_names (daemon_env [] ''RABI_SHADOW_POLICIES'') = [''fifo/v0'', ''pareto/v0'']"
    by (simp add: shadow_names_def daemon_env_def TrimSpace_def is_space_def code_def)
  with rabid_serves_only_when_configured [OF dm] have "dp_shadow (dm_dispatcher dm) = [fifoPolicy, paretoPolicy]"
    "dp_policy (dm_dispatcher dm) = fifoPolicy" "an_hasBootstrap (dm_auth dm)"
    by (auto simp: daemon_env_def demo_factories_def envOr_def DefaultPolicy_def)
  with dm show ?thesis by blast
qed

section \<open>Schedules\<close>

lemma ParseDuration_empty: "ParseDuration [] = None"
  by (simp add: ParseDuration_def)

text \<open>C1: The reconciliation schedule crashes the daemon exactly for an interval that parses and is not positive: \<open>time.NewTicker\<close>
  panics in a goroutine of its own. The setting \<open>0\<close>, which turns the probes off, ends a daemon that had started serving.\<close>

theorem reconcile_interval_crashes_iff_not_positive:
  "(reconcile_ticker getenv = TickerPanic) = (\<exists>d. ParseDuration (getenv ''RABI_RECONCILE_EVERY'') = Some d \<and> d \<le> 0) \<and>
   probe_ticker getenv \<noteq> TickerPanic \<and>
   (\<exists>dm. rabid_main demo_outside demo_factories Map.empty (daemon_env ''0'') = Inr dm \<and> dm_reconcile dm = TickerPanic)"
proof (intro conjI)
  show "(reconcile_ticker getenv = TickerPanic) = (\<exists>d. ParseDuration (getenv ''RABI_RECONCILE_EVERY'') = Some d \<and> d \<le> 0)"
    by (auto simp: reconcile_ticker_def new_ticker_def reconcile_every_def Let_def ParseDuration_empty split: option.splits)
  show "probe_ticker getenv \<noteq> TickerPanic" by (simp add: probe_ticker_def)
  have "reconcile_ticker (daemon_env ''0'') = TickerPanic"
    by (simp add: reconcile_ticker_def new_ticker_def reconcile_every_def daemon_env_def ParseDuration_def Let_def)
  with demo_starts [of "''0''"] show "\<exists>dm. rabid_main demo_outside demo_factories Map.empty (daemon_env ''0'') = Inr dm \<and> dm_reconcile dm = TickerPanic"
    by auto
qed

end
