(* ===== verification/Control_Plane.thy ===== *)
theory Control_Plane
  imports Daemon Executor Api_Jobs Api_Admin Probe Ops_Properties Chaos
begin

text \<open>
  The running control plane: the daemon's goroutines and its callers as one step relation. A step is one call of the
  API, one iteration of the dispatcher's loop, one action of an executor, one tick of the registry, of the
  probes or of the reconciliation, or a restart of the process; any order of steps is possible. The locale
  \<open>weak_simulation\<close> states what it means that such a system only performs transactions of an abstract one; the
  control plane is shown to simulate the store, so every invariant of reachable databases holds while it runs.
\<close>

section \<open>The loops\<close>

text \<open>One iteration of \<open>Dispatcher.Run\<close>: a standby waits, a full batch with progress is followed by another cycle at
  once, and otherwise the loop waits for a notification. \<open>None\<close> is the panic of a cycle.\<close>

datatype next_iteration = Standby | CycleAgain | WaitForNotify

definition run_iteration ::
  "bool \<Rightarrow> time \<Rightarrow> (nat \<Rightarrow> reading) \<Rightarrow> (string list \<Rightarrow> (string \<rightharpoonup> int) option) \<Rightarrow> duration \<Rightarrow> dispatcher \<Rightarrow> (dispatcher \<times> next_iteration) option" where
  "run_iteration leads now rd weights elapsed s =
     (if \<not> leads then Some (s, Standby)
      else (case cycle now rd weights elapsed s of
              None \<Rightarrow> None
            | Some (s', claimed, bound) \<Rightarrow> Some (s', if claimBatch \<le> claimed \<and> 0 < bound then CycleAgain else WaitForNotify)))"

text \<open>One tick of the probe runner.\<close>

definition probe_tick :: "time \<Rightarrow> (string \<Rightarrow> string) \<Rightarrow> registry \<Rightarrow> db \<Rightarrow> probe_row list \<Rightarrow> db \<times> probe_row list" where
  "probe_tick now uuids reg d rows = (let d1 = probeAll now uuids reg d in (d1, Harvest now d1 rows))"

text \<open>\<open>Registry.Start\<close> discovers and polls once before its tickers.\<close>

definition registry_start :: "(string \<Rightarrow> site_client) \<Rightarrow> time \<Rightarrow> registry \<Rightarrow> registry" where
  "registry_start clients now r = poll clients now (discover clients r)"

section \<open>Calls\<close>

text \<open>The calls that write, with what the handler reads besides its request; all others only read the database.\<close>

datatype api_call =
    CallSubmitJob FleetView time time time string submit_job_request
  | CallCancelJob time string
  | CallCreateToken time "string + string" "string + string" create_token_request
  | CallRevokeToken time string
  | CallCreateProject time string int
  | CallArchiveProject time string
  | CallSetQuota string string float64
  | CallRead string

definition answer :: "db \<times> (api_error + 'r) \<Rightarrow> db \<times> (api_error + unit)" where
  "answer r = (fst r, map_sum id (\<lambda>_. ()) (snd r))"

fun handle :: "(obj \<Rightarrow> bool) \<Rightarrow> api_call \<Rightarrow> ctx \<Rightarrow> db \<Rightarrow> db \<times> (api_error + unit)" where
  "handle schema (CallSubmitJob fleet tA tP tI uuid req) c d = answer (SubmitJob schema fleet tA tP tI uuid req c d)"
| "handle schema (CallCancelJob now i) c d = answer (CancelJob now i c d)"
| "handle schema (CallCreateToken now rnd_id rnd_sec req) c d = answer (CreateToken now rnd_id rnd_sec req c d)"
| "handle schema (CallRevokeToken now i) c d = answer (api_RevokeToken now i c d)"
| "handle schema (CallCreateProject now tenant weight) c d = answer (CreateProject now tenant weight c d)"
| "handle schema (CallArchiveProject now tenant) c d = answer (api_ArchiveProject now tenant c d)"
| "handle schema (CallSetQuota tenant u limit) c d = answer (api_SetQuota tenant u limit c d)"
| "handle schema (CallRead m) c d = (d, Inr ())"

fun call_method :: "api_call \<Rightarrow> string" where
  "call_method (CallSubmitJob _ _ _ _ _ _) = ''/tangle.api.v1alpha1.JobsService/SubmitJob''"
| "call_method (CallCancelJob _ _) = ''/tangle.api.v1alpha1.JobsService/CancelJob''"
| "call_method (CallCreateToken _ _ _ _) = ''/rabi.admin.v1alpha1.AdminService/CreateToken''"
| "call_method (CallRevokeToken _ _) = ''/rabi.admin.v1alpha1.AdminService/RevokeToken''"
| "call_method (CallCreateProject _ _ _) = ''/rabi.admin.v1alpha1.AdminService/CreateProject''"
| "call_method (CallArchiveProject _ _) = ''/rabi.admin.v1alpha1.AdminService/ArchiveProject''"
| "call_method (CallSetQuota _ _ _) = ''/rabi.admin.v1alpha1.AdminService/SetQuota''"
| "call_method (CallRead m) = m"

section \<open>The state and its steps\<close>

text \<open>An executor that follows its task: the job, the task, its target, the adapter's id and the flag of \<open>follow\<close>.\<close>

type_synonym follower = "job_record \<times> string \<times> string \<times> string \<times> bool"

record plane =
  pn_dispatcher :: dispatcher
  pn_registry :: registry
  pn_probes :: "probe_row list"
  pn_followers :: "follower list"

definition plane_db :: "plane \<Rightarrow> db" where
  "plane_db s = dp_db (pn_dispatcher s)"

definition with_db :: "db \<Rightarrow> plane \<Rightarrow> plane" where
  "with_db d s = s\<lparr>pn_dispatcher := (pn_dispatcher s)\<lparr>dp_db := d\<rparr>\<rparr>"

definition executor_returns :: "string \<Rightarrow> plane \<Rightarrow> plane" where
  "executor_returns i s = s\<lparr>pn_dispatcher := executor_done i (pn_dispatcher s)\<rparr>"

text \<open>The goroutine of a started executor runs: it submits its task and follows it, or stops.\<close>

definition taken :: "job_record \<times> string \<times> string \<Rightarrow> plane \<Rightarrow> plane" where
  "taken x s = s\<lparr>pn_dispatcher := (pn_dispatcher s)\<lparr>dp_spawned := remove1 x (dp_spawned (pn_dispatcher s))\<rparr>\<rparr>"

definition launch :: "exec_env \<Rightarrow> time \<Rightarrow> string \<Rightarrow> job_record \<Rightarrow> string \<Rightarrow> string \<Rightarrow> plane \<Rightarrow> plane" where
  "launch env now sid rec taskID target s0 =
     (let s = taken (rec, taskID, target) s0
      in case execute env now sid rec taskID target (plane_db s) of
           (d1, Following rec' a) \<Rightarrow> (with_db d1 s)\<lparr>pn_followers := (rec', taskID, target, a, False) # pn_followers s\<rparr>
         | (d1, _) \<Rightarrow> executor_returns (jr_JobID rec) (with_db d1 s))"

text \<open>A follower receives a status of its task.\<close>

definition receive :: "exec_env \<Rightarrow> time \<Rightarrow> TaskStatus \<Rightarrow> follower \<Rightarrow> plane \<Rightarrow> plane" where
  "receive env now status f s =
     (case f of (rec, taskID, target, a, running) \<Rightarrow>
        (case applyTaskStatus env now rec taskID target a status running (plane_db s) of
           (d1, running', terminal) \<Rightarrow>
             (let rest = remove1 f (pn_followers s)
              in if terminal then executor_returns (jr_JobID rec) ((with_db d1 s)\<lparr>pn_followers := rest\<rparr>)
                 else (with_db d1 s)\<lparr>pn_followers := (rec, taskID, target, a, running') # rest\<rparr>)))"

text \<open>A new process: no executor is left, and \<open>resume\<close> starts those of the active tasks.\<close>

definition restart :: "plane \<Rightarrow> plane" where
  "restart s = s\<lparr>pn_dispatcher := resume ((pn_dispatcher s)\<lparr>dp_inFlight := [], dp_spawned := [], dp_cycles := newCycleRing 8192, dp_counters := (\<lambda>_. 0)\<rparr>),
     pn_followers := []\<rparr>"

inductive plane_step :: "(obj \<Rightarrow> bool) \<Rightarrow> Authenticator \<Rightarrow> plane \<Rightarrow> plane \<Rightarrow> bool" for schema authn where
  call: "plane_step schema authn s (with_db (fst (UnaryAuthInterceptor authn now md (call_method req) (handle schema req) (plane_db s))) s)"
| iterate: "run_iteration leads now rd weights elapsed (pn_dispatcher s) = Some (disp, nxt) \<Longrightarrow>
    plane_step schema authn s (s\<lparr>pn_dispatcher := disp\<rparr>)"
| launches: "(rec, taskID, target) \<in> set (dp_spawned (pn_dispatcher s)) \<Longrightarrow>
    plane_step schema authn s (launch env now sid rec taskID target s)"
| receives: "f \<in> set (pn_followers s) \<Longrightarrow> plane_step schema authn s (receive env now status f s)"
| probes: "probe_tick now uuids (pn_registry s) (plane_db s) (pn_probes s) = (d1, rows) \<Longrightarrow>
    plane_step schema authn s ((with_db d1 s)\<lparr>pn_probes := rows\<rparr>)"
| reconciles: "plane_step schema authn s (with_db (fst (reconcile_tick now (plane_db s))) s)"
| registers: "registry_step (pn_registry s) r \<Longrightarrow> plane_step schema authn s (s\<lparr>pn_registry := r\<rparr>)"
| restarts: "plane_step schema authn s (restart s)"

section \<open>Simulation\<close>

locale weak_simulation =
  fixes cstep :: "'c \<Rightarrow> 'c \<Rightarrow> bool" and astep :: "'a \<Rightarrow> 'a \<Rightarrow> bool" and abs :: "'c \<Rightarrow> 'a"
  assumes simulates: "cstep s s' \<Longrightarrow> astep\<^sup>*\<^sup>* (abs s) (abs s')"
begin

lemma simulates_run: "cstep\<^sup>*\<^sup>* s s' \<Longrightarrow> astep\<^sup>*\<^sup>* (abs s) (abs s')"
  by (induction rule: rtranclp_induct) (auto intro: rtranclp_trans simulates)

text \<open>What every abstract step keeps holds along every concrete run.\<close>

lemma carries_over:
  assumes "cstep\<^sup>*\<^sup>* s s'" and "I (abs s)" and "\<And>a b. I a \<Longrightarrow> astep a b \<Longrightarrow> I b"
  shows "I (abs s')"
  using simulates_run [OF assms(1)] assms(2) by (induction rule: rtranclp_induct) (auto intro: assms(3))

end

lemma plane_db_simps [simp]:
  "plane_db (with_db d s) = d" "plane_db (executor_returns i s) = plane_db s"
  "plane_db (s\<lparr>pn_probes := rows\<rparr>) = plane_db s" "plane_db (s\<lparr>pn_followers := fs\<rparr>) = plane_db s"
  "plane_db (s\<lparr>pn_registry := r\<rparr>) = plane_db s" "plane_db (s\<lparr>pn_dispatcher := disp\<rparr>) = dp_db disp"
  "plane_db (taken x s) = plane_db s"
  by (simp_all add: plane_db_def with_db_def executor_returns_def executor_done_def taken_def)

lemma run_handle: "store_run d (fst (handle schema req c d))"
  by (cases req) (simp_all add: answer_def run_SubmitJob run_CancelJob run_admin)

lemma dp_db_resume [simp]: "dp_db (resume s) = dp_db s"
proof -
  have "dp_db (fold (\<lambda>t s'. case GetJob (dp_db s') (tk_JobID t) of
      Inl _ \<Rightarrow> s' | Inr rec \<Rightarrow> startExecutor rec (tk_TaskID t) (tk_Target t) s') ts s) = dp_db s" for ts
    by (induction ts arbitrary: s) (simp_all add: startExecutor_def split: sum.split)
  then show ?thesis by (simp add: resume_def)
qed

lemma plane_db_restart [simp]: "plane_db (restart s) = plane_db s"
  by (simp add: restart_def plane_db_def)

lemma run_launch: "store_run (plane_db s) (plane_db (launch env now sid rec taskID target s))"
  using run_execute [of "plane_db s" env now sid rec taskID target]
  by (auto simp: launch_def Let_def split: prod.splits exec_outcome.splits)

lemma run_receive: "store_run (plane_db s) (plane_db (receive env now status f s))"
proof -
  obtain rec taskID target a running where f: "f = (rec, taskID, target, a, running)" by (cases f)
  show ?thesis
    using run_applyTaskStatus [of "plane_db s" env now rec taskID target a status running]
    by (auto simp: receive_def f Let_def split: prod.splits)
qed

lemma run_reconcile_tick: "store_run d (fst (reconcile_tick now d))"
proof -
  have "fst (reconcile_tick now d) = fst (ReconcileUsage now d)"
    by (simp add: reconcile_tick_def split: prod.splits sum.splits)
  then show ?thesis using run1 [OF store_step.reconcile] by simp
qed

interpretation daemon: weak_simulation "plane_step schema authn" store_step plane_db
proof unfold_locales
  fix s s' assume "plane_step schema authn s s'"
  then show "store_run (plane_db s) (plane_db s')"
  proof cases
    case (call now md req)
    then show ?thesis by (simp add: Unary_behind api.behind_run run_handle)
  next
    case (iterate leads now rd weights elapsed disp nxt)
    then show ?thesis
      using run_cycle [of now rd weights elapsed "pn_dispatcher s"]
      by (auto simp: run_iteration_def plane_db_def split: if_splits option.splits)
  next
    case (probes now uuids d1 rows)
    then show ?thesis using run_probeAll [of "plane_db s" now uuids "pn_registry s"] by (auto simp: probe_tick_def Let_def)
  qed (simp_all add: run_launch run_receive run_reconcile_tick)
qed

text \<open>The registry of a running control plane stays well formed.\<close>

interpretation plane_fleet: inv_system "plane_step schema authn" "\<lambda>s. registry_ok (pn_registry s)"
proof unfold_locales
  fix s s' assume "registry_ok (pn_registry s)" and "plane_step schema authn s s'"
  from this(2,1) show "registry_ok (pn_registry s')"
    by cases (auto simp: with_db_def launch_def receive_def restart_def executor_returns_def taken_def Let_def intro: registry_keeps
        split: prod.splits exec_outcome.splits)
qed

text \<open>C2: While the control plane runs, in any interleaving of API calls, dispatch cycles, executors, probes, reconciliations,
  registry updates and restarts, it performs nothing but store transactions: its database stays reachable, no job it
  ever had disappears, the chaos suite finds no lost job, no duplicate execution and no gap in an audit trail, no finished job changes its
  phase, and the fleet stays well formed.\<close>

theorem running_control_plane_is_safe:
  assumes "reachable (plane_db s)" and "registry_ok (pn_registry s)" and "(plane_step schema authn)\<^sup>*\<^sup>* s s'"
  shows "reachable (plane_db s') \<and> registry_ok (pn_registry s') \<and> set (job_ids (plane_db s)) \<subseteq> set (job_ids (plane_db s')) \<and>
    noJobLost (plane_db s') (job_ids (plane_db s)) = [] \<and> noDuplicateExecution (plane_db s') (job_ids (plane_db s')) = [] \<and>
    auditGapless (plane_db s') (job_ids (plane_db s')) = [] \<and>
    (\<forall>i p. phase_of (plane_db s) i = Some p \<and> Terminal p \<longrightarrow> phase_of (plane_db s') i = Some p)"
proof -
  have run: "store_run (plane_db s) (plane_db s')" by (rule daemon.simulates_run [OF assms(3)])
  then have r: "reachable (plane_db s')" using reachable_run assms(1) by blast
  have ids: "set (job_ids (plane_db s)) \<subseteq> set (job_ids (plane_db s'))" using job_ids_run [OF assms(1) run] .
  have "noJobLost (plane_db s') (job_ids (plane_db s)) = []" "noDuplicateExecution (plane_db s') (job_ids (plane_db s')) = []"
      "auditGapless (plane_db s') (job_ids (plane_db s')) = []"
    using reachable_ok [OF r] ids by (simp_all add: db_ok_def noJobLost_ok noDuplicateExecution_ok auditGapless_ok)
  moreover have "registry_ok (pn_registry s')" using plane_fleet.run [OF assms(3)] assms(2) by simp
  moreover have "phase_of (plane_db s') i = Some p" if "phase_of (plane_db s) i = Some p" "Terminal p" for i p
    using daemon.carries_over [OF assms(3), of "\<lambda>d. db_ok d \<and> phase_of d i = Some p"] that reachable_ok [OF assms(1)]
      store.keeps phase_step_terminal by blast
  ultimately show ?thesis using r ids by blast
qed

definition demo_plane :: plane where
  "demo_plane = \<lparr>pn_dispatcher = \<lparr>dp_policy = fifoPolicy, dp_counters = (\<lambda>_. 0), dp_shadow = [], dp_inFlight = [], dp_spawned = [],
     dp_cycles = newCycleRing 8192, dp_db = demo_done\<rparr>, pn_registry = new_registry, pn_probes = [], pn_followers = []\<rparr>"

theorem running_control_plane_is_safe_witness:
  "\<exists>s'. (plane_step (\<lambda>_. True) \<lparr>an_bootstrapHash = [], an_hasBootstrap = False, an_oidc = None\<rparr>)\<^sup>*\<^sup>* demo_plane s' \<and>
     length (reconciliation_runs (plane_db s')) = 1 \<and> phase_of (plane_db s') ''j1'' = Some Succeeded"
proof -
  let ?a = "\<lparr>an_bootstrapHash = [], an_hasBootstrap = False, an_oidc = None\<rparr>"
  let ?s = "with_db (fst (reconcile_tick 9 (plane_db demo_plane))) (restart demo_plane)"
  have "plane_step (\<lambda>_. True) ?a demo_plane (restart demo_plane)" by (rule restarts)
  moreover have "plane_step (\<lambda>_. True) ?a (restart demo_plane) ?s"
    using reconciles [of "\<lambda>_. True" ?a "restart demo_plane" 9] by (simp only: plane_db_restart)
  ultimately have run: "(plane_step (\<lambda>_. True) ?a)\<^sup>*\<^sup>* demo_plane ?s" by (rule converse_rtranclp_into_rtranclp [OF _ r_into_rtranclp])
  have db: "plane_db demo_plane = demo_done" and reg: "pn_registry demo_plane = new_registry"
    by (simp_all only: demo_plane_def plane_db_def plane.simps dispatcher.simps)
  have "phase_of (plane_db ?s) ''j1'' = Some Succeeded"
    using running_control_plane_is_safe [OF _ _ run] demo_reachable(4) demo_done_phase registry_ok_new unfolding db reg by simp
  moreover have "length (reconciliation_runs (plane_db ?s)) = 1" unfolding plane_db_simps db by code_simp
  ultimately show ?thesis using run by blast
qed

end
