(* ===== verification/Cli_Login.thy ===== *)
theory Cli_Login
  imports Go_Strings Auth_Core
begin

text \<open>
  The login of the command line client (\<open>cmd/rabi/login.go\<close>) and the credential every command presents
  (\<open>dial\<close> of \<open>cmd/rabi/main.go\<close>). The identity provider, the JSON encoder, the browser and the errors of the file
  system are arguments; files are a map from paths to contents and modes. The home directory is given in
  clean form.
\<close>

section \<open>Stored credentials\<close>

record storedCredentials =
  lc_Issuer :: string
  lc_ClientID :: string
  lc_IDToken :: string
  lc_RefreshToken :: string
  lc_Expiry :: time

record stored_file =
  sf_content :: string
  sf_mode :: nat

type_synonym file_system = "string \<rightharpoonup> stored_file"

text \<open>The answers of the identity provider and of the system. \<open>ci_exchange\<close> and \<open>ci_refresh\<close> give the ID token, if any, and
  the refresh token.\<close>

record cli_env =
  ci_getenv :: "string \<Rightarrow> string"
  ci_home :: "string + string"
  ci_mkdir :: "string option"
  ci_read_error :: "string option"
  ci_write_error :: "string option"
  ci_encode :: "storedCredentials \<Rightarrow> string"
  ci_decode :: "string \<Rightarrow> string + storedCredentials"
  ci_discover :: "string \<Rightarrow> string option"
  ci_refresh :: "string \<Rightarrow> string \<Rightarrow> string \<Rightarrow> string + string option \<times> string"
  ci_exchange :: "string \<Rightarrow> string \<Rightarrow> string \<Rightarrow> string \<Rightarrow> string + string option \<times> string"
  ci_verify :: "string \<Rightarrow> string \<Rightarrow> string \<Rightarrow> string + string \<times> time"

definition credentialsPath :: "cli_env \<Rightarrow> string + string" where
  "credentialsPath env =
     (let p = ci_getenv env ''RABI_CREDENTIALS''
      in if p \<noteq> [] then Inr p
         else (case ci_home env of Inl e \<Rightarrow> Inl e | Inr home \<Rightarrow> Inr (home @ ''/.config/rabi/credentials.json'')))"

text \<open>\<open>os.WriteFile\<close> sets the mode of a file it creates; an existing file keeps its own.\<close>

definition write_file :: "string \<Rightarrow> string \<Rightarrow> nat \<Rightarrow> file_system \<Rightarrow> file_system" where
  "write_file path content perm fs =
     fs(path \<mapsto> \<lparr>sf_content = content, sf_mode = (case fs path of Some f \<Rightarrow> sf_mode f | None \<Rightarrow> perm)\<rparr>)"

definition mode_0600 :: nat where
  "mode_0600 = 384"

definition saveCredentials :: "cli_env \<Rightarrow> storedCredentials \<Rightarrow> file_system \<Rightarrow> file_system \<times> string option" where
  "saveCredentials env c fs =
     (case credentialsPath env of
        Inl e \<Rightarrow> (fs, Some e)
      | Inr path \<Rightarrow>
          (case ci_mkdir env of
             Some e \<Rightarrow> (fs, Some e)
           | None \<Rightarrow>
               (case ci_write_error env of
                  Some e \<Rightarrow> (fs, Some e)
                | None \<Rightarrow> (write_file path (ci_encode env c) mode_0600 fs, None))))"

section \<open>The bearer\<close>

definition raw_id :: "string option \<Rightarrow> string" where
  "raw_id t = (case t of Some s \<Rightarrow> s | None \<Rightarrow> [])"

text \<open>Refreshing expired credentials.\<close>

definition refresh_login :: "cli_env \<Rightarrow> storedCredentials \<Rightarrow> file_system \<Rightarrow> file_system \<times> (string + string)" where
  "refresh_login env c fs =
     (case ci_discover env (lc_Issuer c) of
        Some e \<Rightarrow> (fs, Inl (''refreshing login: '' @ e))
      | None \<Rightarrow>
          (case ci_refresh env (lc_Issuer c) (lc_ClientID c) (lc_RefreshToken c) of
             Inl e \<Rightarrow> (fs, Inl (''stored login expired and refresh failed ('' @ e @ ''); run `rabi login` again''))
           | Inr (idt, refresh) \<Rightarrow>
               if raw_id idt = [] then (fs, Inl ''refresh returned no id_token; run `rabi login` again'')
               else
                 (case ci_verify env (lc_Issuer c) (lc_ClientID c) (raw_id idt) of
                    Inl e \<Rightarrow> (fs, Inl (''verifying refreshed id_token: '' @ e))
                  | Inr (subject, expiry) \<Rightarrow>
                      (let c1 = (if refresh \<noteq> [] then c\<lparr>lc_RefreshToken := refresh\<rparr> else c);
                           c2 = c1\<lparr>lc_IDToken := raw_id idt, lc_Expiry := expiry\<rparr>
                       in case saveCredentials env c2 fs of
                            (fs', Some e) \<Rightarrow> (fs', Inl e)
                          | (fs', None) \<Rightarrow> (fs', Inr (raw_id idt))))))"

definition loadLoginBearer :: "cli_env \<Rightarrow> time \<Rightarrow> file_system \<Rightarrow> file_system \<times> (string + string)" where
  "loadLoginBearer env now fs =
     (case credentialsPath env of
        Inl e \<Rightarrow> (fs, Inl e)
      | Inr path \<Rightarrow>
          (case fs path of
             None \<Rightarrow> (fs, Inr [])
           | Some f \<Rightarrow>
               (case ci_read_error env of
                  Some e \<Rightarrow> (fs, Inl e)
                | None \<Rightarrow>
                    (case ci_decode env (sf_content f) of
                       Inl e \<Rightarrow> (fs, Inl (''parsing '' @ path @ '': '' @ e))
                     | Inr c \<Rightarrow>
                         if time_Sub (lc_Expiry c) now > 60 * 1000000000 then (fs, Inr (lc_IDToken c))
                         else if lc_RefreshToken c = [] then (fs, Inl ''stored login expired; run `rabi login` again'')
                         else refresh_login env c fs))))"

text \<open>The credential of a command: the token of the flag or environment, then the stored login. The result is
  the value of the authorization metadata. \<open>connect\<close> is the error of creating the client, if any.\<close>

definition dial :: "cli_env \<Rightarrow> (string \<Rightarrow> string option) \<Rightarrow> string \<Rightarrow> string \<Rightarrow> time \<Rightarrow> file_system \<Rightarrow> file_system \<times> (string + string)" where
  "dial env connect flagServer flagToken now fs =
     (case (if flagToken = [] then loadLoginBearer env now fs else (fs, Inr flagToken)) of
        (fs', Inl e) \<Rightarrow> (fs', Inl e)
      | (fs', Inr bearer) \<Rightarrow>
          if bearer = [] then (fs', Inl ''no credential: set --token / RABI_TOKEN or run `rabi login`'')
          else (case connect flagServer of
                  Some e \<Rightarrow> (fs', Inl (''connecting to '' @ flagServer @ '': '' @ e))
                | None \<Rightarrow> (fs', Inr (''Bearer '' @ bearer))))"

section \<open>Logging in\<close>

text \<open>The callback: a request is its path and its query, where a missing parameter reads as empty.\<close>

datatype callback = CallbackCode string | CallbackError string

record callback_request =
  cq_path :: string
  cq_query :: "string \<Rightarrow> string"

definition callback_handler :: "string \<Rightarrow> callback_request \<Rightarrow> nat \<times> callback option" where
  "callback_handler state r =
     (if cq_path r \<noteq> ''/callback'' then (404, None)
      else if cq_query r ''state'' \<noteq> state then (400, Some (CallbackError ''state mismatch on callback''))
      else if cq_query r ''error'' \<noteq> [] then (400, Some (CallbackError (''idp error: '' @ cq_query r ''error'')))
      else (200, Some (CallbackCode (cq_query r ''code''))))"

text \<open>The first callback is received; without one the five minutes of the command run out.\<close>

fun first_callback :: "string \<Rightarrow> callback_request list \<Rightarrow> callback option" where
  "first_callback state [] = None"
| "first_callback state (r # rs) =
     (case snd (callback_handler state r) of Some cb \<Rightarrow> Some cb | None \<Rightarrow> first_callback state rs)"

text \<open>\<open>random\<close> is the result of reading sixteen random bytes and \<open>pkce\<close> the generated verifier. The login writes the
  verified token and the lines it prints.\<close>

definition runLogin ::
  "cli_env \<Rightarrow> string + string \<Rightarrow> string + string \<Rightarrow> string \<Rightarrow> (string \<Rightarrow> string \<Rightarrow> string \<Rightarrow> string) \<Rightarrow> (string \<Rightarrow> bool) \<Rightarrow> (string \<Rightarrow> callback_request list) \<Rightarrow>
   string \<Rightarrow> string \<Rightarrow> bool \<Rightarrow> file_system \<Rightarrow> file_system \<times> string list \<times> string option" where
  "runLogin env listener random pkce auth_url open_browser requests issuer clientID noBrowser fs =
     (case ci_discover env issuer of
        Some e \<Rightarrow> (fs, [], Some (''discovering issuer: '' @ e))
      | None \<Rightarrow>
          (case listener of
             Inl e \<Rightarrow> (fs, [], Some (''callback listener: '' @ e))
           | Inr addr \<Rightarrow>
               (case random of
                  Inl e \<Rightarrow> (fs, [], Some e)
                | Inr bytes \<Rightarrow>
                    (let state = EncodeToString bytes;
                         url = auth_url (''http://'' @ addr @ ''/callback'') state pkce;
                         out = (if noBrowser \<or> \<not> open_browser url then [''Open this URL to log in:'', [], ''  '' @ url, []] else [])
                     in case first_callback state (requests url) of
                          None \<Rightarrow> (fs, out, Some ''login timed out waiting for the browser callback'')
                        | Some (CallbackError e) \<Rightarrow> (fs, out, Some e)
                        | Some (CallbackCode cd) \<Rightarrow>
                            (case ci_exchange env issuer clientID cd pkce of
                               Inl e \<Rightarrow> (fs, out, Some (''exchanging code: '' @ e))
                             | Inr (idt, refresh) \<Rightarrow>
                                 if raw_id idt = [] then (fs, out, Some ''idp returned no id_token'')
                                 else
                                   (case ci_verify env issuer clientID (raw_id idt) of
                                      Inl e \<Rightarrow> (fs, out, Some (''verifying id_token: '' @ e))
                                    | Inr (subject, expiry) \<Rightarrow>
                                        (case saveCredentials env \<lparr>lc_Issuer = issuer, lc_ClientID = clientID, lc_IDToken = raw_id idt,
                                                lc_RefreshToken = refresh, lc_Expiry = expiry\<rparr> fs of
                                           (fs', Some e) \<Rightarrow> (fs', out, Some e)
                                         | (fs', None) \<Rightarrow>
                                             (fs', out @ [''logged in as '' @ subject @ '' (credentials: '' @
                                                (case credentialsPath env of Inr p \<Rightarrow> p | Inl _ \<Rightarrow> []) @ '')''], None))))))))"

definition LoginCmd ::
  "cli_env \<Rightarrow> string + string \<Rightarrow> string + string \<Rightarrow> string \<Rightarrow> (string \<Rightarrow> string \<Rightarrow> string \<Rightarrow> string) \<Rightarrow> (string \<Rightarrow> bool) \<Rightarrow> (string \<Rightarrow> callback_request list) \<Rightarrow>
   string \<Rightarrow> string \<Rightarrow> bool \<Rightarrow> file_system \<Rightarrow> file_system \<times> string list \<times> string option" where
  "LoginCmd env listener random pkce auth_url open_browser requests issuer clientID noBrowser fs =
     (if issuer = [] \<or> clientID = [] then (fs, [], Some ''set --issuer/--client-id (or RABI_OIDC_ISSUER/RABI_OIDC_CLIENT_ID)'')
      else runLogin env listener random pkce auth_url open_browser requests issuer clientID noBrowser fs)"

end
