(* ===== verification/Cli_Login_Properties.thy ===== *)
theory Cli_Login_Properties
  imports Cli_Login "HOL-Library.Countable"
begin

text \<open>
  What the login promises: only a verified token of the requested session is stored, the stored token is the
  one later commands present, and what is presented is fresh.
\<close>

text \<open>\<open>encoding/json\<close> reads back what it wrote.\<close>

definition codec_ok :: "cli_env \<Rightarrow> bool" where
  "codec_ok env \<longleftrightarrow> (\<forall>c. ci_decode env (ci_encode env c) = Inr c)"

definition stored :: "cli_env \<Rightarrow> storedCredentials \<Rightarrow> file_system \<Rightarrow> bool" where
  "stored env c fs \<longleftrightarrow> (\<exists>path f. credentialsPath env = Inr path \<and> fs path = Some f \<and> sf_content f = ci_encode env c)"

lemma saveCredentials_stores: "saveCredentials env c fs = (fs', None) \<Longrightarrow> stored env c fs'"
  by (auto simp: saveCredentials_def stored_def write_file_def split: sum.splits option.splits)

lemma saveCredentials_fails: "saveCredentials env c fs = (fs', Some e) \<Longrightarrow> fs' = fs"
  by (auto simp: saveCredentials_def split: sum.splits option.splits)

lemma first_callback_code:
  assumes "first_callback state rs = Some (CallbackCode cd)"
  shows "\<exists>pre r post. rs = pre @ r # post \<and> (\<forall>x \<in> set pre. cq_path x \<noteq> ''/callback'') \<and> cq_path r = ''/callback'' \<and>
    cq_query r ''state'' = state \<and> cq_query r ''error'' = [] \<and> cq_query r ''code'' = cd"
  using assms
proof (induction rs)
  case (Cons r rs)
  show ?case
  proof (cases "cq_path r = ''/callback''")
    case True
    with Cons.prems have "cq_query r ''state'' = state \<and> cq_query r ''error'' = [] \<and> cq_query r ''code'' = cd"
      by (auto simp: callback_handler_def split: if_splits)
    with True show ?thesis by (intro exI [of _ "[]"] exI [of _ r] exI [of _ rs]) simp
  next
    case False
    with Cons obtain pre x post where "rs = pre @ x # post" "\<forall>x \<in> set pre. cq_path x \<noteq> ''/callback''" "cq_path x = ''/callback''"
      "cq_query x ''state'' = state \<and> cq_query x ''error'' = [] \<and> cq_query x ''code'' = cd"
      by (auto simp: callback_handler_def)
    with False show ?thesis by (intro exI [of _ "r # pre"] exI [of _ x] exI [of _ post]) simp
  qed
qed simp

lemma runLogin_stored:
  assumes "runLogin env listener random pkce auth_url browser requests issuer clientID noBrowser fs = (fs', out, None)"
  obtains bytes addr cd tok refresh subject expiry where "random = Inr bytes" "listener = Inr addr"
    "first_callback (EncodeToString bytes) (requests (auth_url (''http://'' @ addr @ ''/callback'') (EncodeToString bytes) pkce)) = Some (CallbackCode cd)"
    "ci_exchange env issuer clientID cd pkce = Inr (Some tok, refresh)" "tok \<noteq> []" "ci_verify env issuer clientID tok = Inr (subject, expiry)"
    "stored env \<lparr>lc_Issuer = issuer, lc_ClientID = clientID, lc_IDToken = tok, lc_RefreshToken = refresh, lc_Expiry = expiry\<rparr> fs'"
  using assms
  by (auto simp: runLogin_def raw_id_def Let_def split: option.splits sum.splits callback.splits prod.splits if_splits
      dest!: saveCredentials_stores)

lemma loadLoginBearer_stored:
  assumes "codec_ok env" and "stored env c fs" and "ci_read_error env = None" and "60 * 1000000000 < time_Sub (lc_Expiry c) now"
  shows "loadLoginBearer env now fs = (fs, Inr (lc_IDToken c))"
  using assms by (auto simp: loadLoginBearer_def stored_def codec_ok_def)

text \<open>C32: A login that succeeds received its code on a callback with the state of this very login and before any other callback,
  exchanged it with the PKCE verifier, and stored exactly the ID token the provider's keys verified; until a minute before
  it expires every later command without a token flag presents that token, without contacting the provider and without
  writing a file.\<close>

theorem login_stores_what_commands_present:
  assumes "LoginCmd env listener random pkce auth_url browser requests issuer clientID noBrowser fs = (fs', out, None)"
    and "codec_ok env" and "ci_read_error env = None"
  shows "\<exists>bytes cd tok refresh subject expiry pre r post url. random = Inr bytes \<and>
    requests url = pre @ r # post \<and> (\<forall>x \<in> set pre. cq_path x \<noteq> ''/callback'') \<and> cq_path r = ''/callback'' \<and>
    cq_query r ''state'' = EncodeToString bytes \<and> cq_query r ''code'' = cd \<and>
    ci_exchange env issuer clientID cd pkce = Inr (Some tok, refresh) \<and> ci_verify env issuer clientID tok = Inr (subject, expiry) \<and>
    (\<forall>now. 60 * 1000000000 < time_Sub expiry now \<longrightarrow>
       dial env (\<lambda>_. None) server [] now fs' = (fs', Inr (''Bearer '' @ tok)))"
proof -
  have "runLogin env listener random pkce auth_url browser requests issuer clientID noBrowser fs = (fs', out, None)"
    using assms(1) by (auto simp: LoginCmd_def split: if_splits)
  then obtain bytes addr cd tok refresh subject expiry where l: "random = Inr bytes"
      "first_callback (EncodeToString bytes) (requests (auth_url (''http://'' @ addr @ ''/callback'') (EncodeToString bytes) pkce)) = Some (CallbackCode cd)"
      "ci_exchange env issuer clientID cd pkce = Inr (Some tok, refresh)" "tok \<noteq> []" "ci_verify env issuer clientID tok = Inr (subject, expiry)"
      "stored env \<lparr>lc_Issuer = issuer, lc_ClientID = clientID, lc_IDToken = tok, lc_RefreshToken = refresh, lc_Expiry = expiry\<rparr> fs'"
    by (rule runLogin_stored)
  have "dial env (\<lambda>_. None) server [] now fs' = (fs', Inr (''Bearer '' @ tok))" if "60 * 1000000000 < time_Sub expiry now" for now
    using loadLoginBearer_stored [OF assms(2) l(6) assms(3), of now] that l(4) by (simp add: dial_def)
  with l first_callback_code [OF l(2)] show ?thesis by blast
qed

text \<open>What a command presents is fresh: a token that comes from the stored login has more than a minute left, or was
  just issued for the stored refresh token, verified, and stored with the refresh token that belongs to it. Whenever the
  command fails before that, the stored file is untouched.\<close>

theorem presented_bearer_is_fresh:
  assumes "loadLoginBearer env now fs = (fs', r)"
  shows "case r of
      Inl _ \<Rightarrow> fs' = fs
    | Inr tok \<Rightarrow> tok \<noteq> [] \<longrightarrow> (\<exists>path f c. credentialsPath env = Inr path \<and> fs path = Some f \<and> ci_decode env (sf_content f) = Inr c \<and>
        (fs' = fs \<and> tok = lc_IDToken c \<and> 60 * 1000000000 < time_Sub (lc_Expiry c) now \<or>
         (\<exists>refresh subject expiry. ci_refresh env (lc_Issuer c) (lc_ClientID c) (lc_RefreshToken c) = Inr (Some tok, refresh) \<and>
            ci_verify env (lc_Issuer c) (lc_ClientID c) tok = Inr (subject, expiry) \<and>
            stored env (c\<lparr>lc_RefreshToken := (if refresh \<noteq> [] then refresh else lc_RefreshToken c), lc_IDToken := tok, lc_Expiry := expiry\<rparr>) fs')))"
proof -
  have "case r of Inl _ \<Rightarrow> fs' = fs
    | Inr tok \<Rightarrow> \<exists>refresh subject expiry. ci_refresh env (lc_Issuer c) (lc_ClientID c) (lc_RefreshToken c) = Inr (Some tok, refresh) \<and>
            ci_verify env (lc_Issuer c) (lc_ClientID c) tok = Inr (subject, expiry) \<and>
            stored env (c\<lparr>lc_RefreshToken := (if refresh \<noteq> [] then refresh else lc_RefreshToken c), lc_IDToken := tok, lc_Expiry := expiry\<rparr>) fs'"
    if "refresh_login env c fs = (fs', r)" for c
    using that
    by (auto simp: refresh_login_def raw_id_def Let_def split: option.splits sum.splits prod.splits if_splits
        dest: saveCredentials_fails saveCredentials_stores)
  then show ?thesis
    using assms by (fastforce simp: loadLoginBearer_def split: sum.splits option.splits if_splits)
qed

section \<open>An example\<close>

definition demo_encode :: "storedCredentials \<Rightarrow> string" where
  "demo_encode c = replicate (to_nat (lc_Issuer c, lc_ClientID c, lc_IDToken c, lc_RefreshToken c, lc_Expiry c)) (CHR ''a'')"

definition demo_decode :: "string \<Rightarrow> string + storedCredentials" where
  "demo_decode s = (case from_nat (length s) of (i, c, t, r, e) \<Rightarrow>
     Inr \<lparr>lc_Issuer = i, lc_ClientID = c, lc_IDToken = t, lc_RefreshToken = r, lc_Expiry = e\<rparr>)"

definition demo_cli :: cli_env where
  "demo_cli = \<lparr>ci_getenv = (\<lambda>_. ''/c.json''), ci_home = Inl ''unset'', ci_mkdir = None, ci_read_error = None, ci_write_error = None,
     ci_encode = demo_encode, ci_decode = demo_decode, ci_discover = (\<lambda>_. None),
     ci_refresh = (\<lambda>_ _ r. if r = ''r1'' then Inr (Some ''id2'', ''r2'') else Inl ''used''),
     ci_exchange = (\<lambda>_ _ cd v. if cd = ''c'' \<and> v = ''pkce'' then Inr (Some ''id1'', ''r1'') else Inl ''bad code''),
     ci_verify = (\<lambda>_ _ t. Inr (''alice'', if t = ''id1'' then 100000000000 else 900000000000))\<rparr>"

definition demo_callback :: callback_request where
  "demo_callback = \<lparr>cq_path = ''/callback'', cq_query = (\<lambda>k. if k = ''state'' then ''6b'' else if k = ''code'' then ''c'' else [])\<rparr>"

lemma demo_codec: "codec_ok demo_cli"
  by (simp add: codec_ok_def demo_cli_def demo_encode_def demo_decode_def)

lemma demo_login:
  "\<exists>fs out. LoginCmd demo_cli (Inr ''127.0.0.1:9'') (Inr ''k'') ''pkce'' (\<lambda>u s v. u @ s) (\<lambda>_. True) (\<lambda>_. [demo_callback])
     ''https://idp'' ''rabi'' False Map.empty = (fs, out, None)"
  by (simp add: LoginCmd_def runLogin_def demo_cli_def demo_callback_def callback_handler_def raw_id_def saveCredentials_def
      credentialsPath_def EncodeToString_def hex_char_def Let_def)

theorem login_stores_what_commands_present_witness:
  "\<exists>fs out. LoginCmd demo_cli (Inr ''127.0.0.1:9'') (Inr ''k'') ''pkce'' (\<lambda>u s v. u @ s) (\<lambda>_. True) (\<lambda>_. [demo_callback])
     ''https://idp'' ''rabi'' False Map.empty = (fs, out, None) \<and> dial demo_cli (\<lambda>_. None) ''srv'' [] 5 fs = (fs, Inr ''Bearer id1'')"
proof -
  obtain fs out where l: "LoginCmd demo_cli (Inr ''127.0.0.1:9'') (Inr ''k'') ''pkce'' (\<lambda>u s v. u @ s) (\<lambda>_. True) (\<lambda>_. [demo_callback])
     ''https://idp'' ''rabi'' False Map.empty = (fs, out, None)" using demo_login by blast
  obtain tok refresh subject expiry cd where t: "ci_exchange demo_cli ''https://idp'' ''rabi'' cd ''pkce'' = Inr (Some tok, refresh)"
      "ci_verify demo_cli ''https://idp'' ''rabi'' tok = Inr (subject, expiry)"
      "\<forall>now. 60 * 1000000000 < time_Sub expiry now \<longrightarrow> dial demo_cli (\<lambda>_. None) ''srv'' [] now fs = (fs, Inr (''Bearer '' @ tok))"
    using login_stores_what_commands_present [OF l demo_codec, of "''srv''"] by (auto simp: demo_cli_def)
  have "tok = ''id1'' \<and> expiry = 100000000000" using t(1,2) by (auto simp: demo_cli_def split: if_splits)
  with t(3) l show ?thesis by (auto simp: time_Sub_def min_duration_def max_duration_def)
qed

definition demo_stored :: file_system where
  "demo_stored = [''/c.json'' \<mapsto> \<lparr>sf_content = demo_encode \<lparr>lc_Issuer = ''i'', lc_ClientID = ''c'', lc_IDToken = ''id1'',
     lc_RefreshToken = ''r1'', lc_Expiry = 100000000000\<rparr>, sf_mode = 420\<rparr>]"

theorem presented_bearer_is_fresh_witness:
  "\<exists>fs c. loadLoginBearer demo_cli 99000000000 demo_stored = (fs, Inr ''id2'') \<and> stored demo_cli c fs \<and> lc_RefreshToken c = ''r2''"
proof -
  obtain fs where r: "loadLoginBearer demo_cli 99000000000 demo_stored = (fs, Inr ''id2'')"
    by (simp add: loadLoginBearer_def refresh_login_def saveCredentials_def credentialsPath_def demo_cli_def demo_stored_def
        demo_encode_def demo_decode_def raw_id_def time_Sub_def min_duration_def max_duration_def Let_def)
  from presented_bearer_is_fresh [OF r] obtain c refresh expiry where
    "ci_decode demo_cli (demo_encode \<lparr>lc_Issuer = ''i'', lc_ClientID = ''c'', lc_IDToken = ''id1'', lc_RefreshToken = ''r1'', lc_Expiry = 100000000000\<rparr>) = Inr c"
    "lc_IDToken c = ''id2'' \<or> ci_refresh demo_cli (lc_Issuer c) (lc_ClientID c) (lc_RefreshToken c) = Inr (Some ''id2'', refresh) \<and>
       stored demo_cli (c\<lparr>lc_RefreshToken := (if refresh \<noteq> [] then refresh else lc_RefreshToken c), lc_IDToken := ''id2'', lc_Expiry := expiry\<rparr>) fs"
    by (auto simp: credentialsPath_def demo_stored_def demo_cli_def)
  then have "stored demo_cli (c\<lparr>lc_RefreshToken := ''r2'', lc_IDToken := ''id2'', lc_Expiry := expiry\<rparr>) fs"
    by (auto simp: demo_cli_def demo_encode_def demo_decode_def split: if_splits)
  with r show ?thesis by force
qed

text \<open>Two gaps. The mode of a credentials file that exists already is kept, so a file others may read stays readable; and when the
  refreshed credentials cannot be saved, the command fails although the provider has replaced the refresh token,
  which the next attempt cannot use any more.\<close>

lemma existing_credentials_keep_their_mode:
  "fst (loadLoginBearer demo_cli 99000000000 demo_stored) ''/c.json'' \<noteq> None \<and>
   map_option sf_mode (fst (loadLoginBearer demo_cli 99000000000 demo_stored) ''/c.json'') = Some 420"
  by (simp add: loadLoginBearer_def refresh_login_def saveCredentials_def credentialsPath_def demo_cli_def demo_stored_def write_file_def
      demo_encode_def demo_decode_def raw_id_def time_Sub_def min_duration_def max_duration_def Let_def)

lemma failed_save_keeps_used_refresh_token:
  "loadLoginBearer (demo_cli\<lparr>ci_write_error := Some ''disk full''\<rparr>) 99000000000 demo_stored = (demo_stored, Inl ''disk full'')"
  by (simp add: loadLoginBearer_def refresh_login_def saveCredentials_def credentialsPath_def demo_cli_def demo_stored_def
      demo_encode_def demo_decode_def raw_id_def time_Sub_def min_duration_def max_duration_def Let_def)

end
