(* ===== verification/Cli_Commands.thy ===== *)
theory Cli_Commands
  imports Api_Jobs Api_Admin Accounting Go_Fmt
begin

text \<open>
  The commands of the client (\<open>cmd/rabi\<close>: \<open>jobs.go\<close>, \<open>targets.go\<close>, \<open>usage.go\<close>, \<open>tenancy.go\<close>, \<open>admin.go\<close>). A command
  is dialed, makes one call and prints. The call is the handler of the API under the caller's context; what
  \<open>dial\<close> returns, the rendering of messages as JSON or YAML, the reader of YAML documents and the texts of \<open>%g\<close> are
  arguments. A table is printed as rows of cells, which \<open>tabwriter\<close> aligns.
\<close>

datatype cli_error = CliError string | CliCall api_error

datatype cli_out = Say string | Warn string | Row "string list"

type_synonym cli_result = "db \<times> cli_out list \<times> cli_error option"

text \<open>Dialing, calling and printing, in this order; an error of the first two ends the command.\<close>

definition with_call :: "string option \<Rightarrow> (db \<Rightarrow> db \<times> (api_error + 'r)) \<Rightarrow> ('r \<Rightarrow> cli_out list \<times> cli_error option) \<Rightarrow> db \<Rightarrow> cli_result" where
  "with_call dialed call show_resp d =
     (case dialed of
        Some e \<Rightarrow> (d, [], Some (CliError e))
      | None \<Rightarrow>
          (case call d of
             (d', Inl e) \<Rightarrow> (d', [], Some (CliCall e))
           | (d', Inr r) \<Rightarrow> (let (out, e) = show_resp r in (d', out, e))))"

text \<open>\<open>pb json m\<close> renders a message as JSON or as YAML.\<close>

definition printProto :: "(bool \<Rightarrow> 'm \<Rightarrow> string + string) \<Rightarrow> string \<Rightarrow> 'm \<Rightarrow> cli_out list \<times> cli_error option" where
  "printProto pb flagOutput m =
     (case pb (flagOutput = ''json'') m of Inl e \<Rightarrow> ([], Some (CliError e)) | Inr s \<Rightarrow> ([Say s], None))"

section \<open>Values\<close>

fun lookup :: "json \<Rightarrow> string list \<Rightarrow> json" where
  "lookup cur [] = cur"
| "lookup cur (p # ps) =
     (case cur of
        JObj kvs \<Rightarrow> (case map_of kvs p of None \<Rightarrow> JStr ''-'' | Some v \<Rightarrow> lookup v ps)
      | _ \<Rightarrow> JStr ''-'')"

text \<open>\<open>%v\<close> of a decoded JSON value; the keys of a map are printed in order.\<close>

fun fmt_v :: "(float64 \<Rightarrow> string) \<Rightarrow> json \<Rightarrow> string" where
  "fmt_v g JNull = ''<nil>''"
| "fmt_v g (JBool b) = (if b then ''true'' else ''false'')"
| "fmt_v g (JNum x) = g x"
| "fmt_v g (JStr s) = s"
| "fmt_v g (JArr xs) = ''['' @ Join (map (fmt_v g) xs) '' '' @ '']''"
| "fmt_v g (JObj kvs) =
     ''map['' @ Join (map snd (sort_key fst (map (\<lambda>kv. (fst kv, fst kv @ '':'' @ fmt_v g (snd kv))) kvs))) '' '' @ '']''"

definition orDash :: "string \<Rightarrow> string" where
  "orDash s = (if s = [] then ''-'' else s)"

text \<open>\<open>fmt.Printf("%v", st["phase"])\<close>: a missing key prints as nil.\<close>

definition fmt_field :: "(float64 \<Rightarrow> string) \<Rightarrow> obj \<Rightarrow> string \<Rightarrow> string" where
  "fmt_field g o1 k = (case map_of o1 k of Some v \<Rightarrow> fmt_v g v | None \<Rightarrow> ''<nil>'')"

definition jobSummaryLine :: "(float64 \<Rightarrow> string) \<Rightarrow> job_proto \<Rightarrow> cli_out" where
  "jobSummaryLine g j =
     Row [jp_JobId j, fmt_v g (lookup (JObj (jp_QuantumJob j)) [''metadata'', ''name'']), jp_Tenant j, orDash (str_or (jp_Status j) ''phase'')]"

text \<open>Bytes: the ellipsis is three of them.\<close>

definition ellipsis :: string where
  "ellipsis = [CHR 0xE2, CHR 0x80, CHR 0xA6]"

definition truncate :: "string \<Rightarrow> nat \<Rightarrow> string" where
  "truncate s n = (if length s \<le> n then s else take (n - 1) s @ ellipsis)"

definition last_condition :: "obj \<Rightarrow> obj" where
  "last_condition st = (case map_of st ''conditions'' of
     Some (JArr cs) \<Rightarrow> if cs = [] then [] else (case last cs of JObj c \<Rightarrow> c | _ \<Rightarrow> []) | _ \<Rightarrow> [])"

definition jobDetail :: "obj \<Rightarrow> string" where
  "jobDetail st =
     (let reason = (case map_of st ''placement'' of Some (JObj p) \<Rightarrow> str_or p ''reason'' | _ \<Rightarrow> []);
          msg = str_or (last_condition st) ''message''
      in if reason \<noteq> [] then truncate reason 80 else if msg \<noteq> [] then truncate msg 80 else [])"

definition phase_order :: "string list" where
  "phase_order = [''PENDING'', ''SCHEDULED'', ''SUBMITTED'', ''RUNNING'', ''SUCCEEDED'', ''FAILED'', ''CANCELLED'']"

definition phaseSummary :: "(string \<Rightarrow> nat) \<Rightarrow> string" where
  "phaseSummary counts =
     Join (map (\<lambda>p. p @ '' '' @ itoa (counts p)) (filter (\<lambda>p. counts p > 0) phase_order)) ('' '' @ [CHR 0xC2, CHR 0xB7] @ '' '')"

section \<open>Jobs\<close>

text \<open>\<open>raw\<close> is what reading the file or standard input gives, \<open>yaml\<close> and \<open>to_struct\<close> the two decoders.\<close>

definition SubmitCmd ::
  "(submit_job_request \<Rightarrow> db \<Rightarrow> db \<times> (api_error + job_proto)) \<Rightarrow> (float64 \<Rightarrow> string) \<Rightarrow> (bool \<Rightarrow> job_proto \<Rightarrow> string + string) \<Rightarrow>
   string \<Rightarrow> string option \<Rightarrow> string + string \<Rightarrow> (string \<Rightarrow> string + string) \<Rightarrow> (string \<Rightarrow> string + obj) \<Rightarrow> string \<Rightarrow> bool \<Rightarrow> string \<Rightarrow> db \<Rightarrow> cli_result" where
  "SubmitCmd submit g pb flagOutput dialed raw yaml to_struct file dryRun tenant d =
     (case raw of
        Inl e \<Rightarrow> (d, [], Some (CliError e))
      | Inr bytes \<Rightarrow>
          (case yaml bytes of
             Inl e \<Rightarrow> (d, [], Some (CliError (''parsing '' @ file @ '': '' @ e)))
           | Inr asJSON \<Rightarrow>
               (case to_struct asJSON of
                  Inl e \<Rightarrow> (d, [], Some (CliError (''parsing '' @ file @ '': '' @ e)))
                | Inr doc \<Rightarrow>
                    with_call dialed (submit \<lparr>sj_QuantumJob = Some doc, sj_Tenant = tenant, sj_DryRun = dryRun\<rparr>)
                      (\<lambda>j. if dryRun
                           then (let (out, e) = printProto pb flagOutput j
                                 in (Warn ''dry run: validation passed, nothing enqueued'' # out, e))
                           else ([Row [jp_JobId j, fmt_field g (jp_Status j) ''phase'']], None)) d)))"

definition GetCmd :: "(bool \<Rightarrow> job_proto \<Rightarrow> string + string) \<Rightarrow> string \<Rightarrow> string option \<Rightarrow> ctx \<Rightarrow> string \<Rightarrow> db \<Rightarrow> cli_result" where
  "GetCmd pb flagOutput dialed c jobID d = with_call dialed (api_GetJob jobID c) (printProto pb flagOutput) d"

definition ListCmd ::
  "(float64 \<Rightarrow> string) \<Rightarrow> (bool \<Rightarrow> list_jobs_response \<Rightarrow> string + string) \<Rightarrow> string \<Rightarrow> string option \<Rightarrow> ctx \<Rightarrow> string \<Rightarrow> string \<Rightarrow> db \<Rightarrow> cli_result" where
  "ListCmd g pb flagOutput dialed c tenant phase d =
     with_call dialed (api_ListJobs \<lparr>lj_Tenant = tenant, lj_PhaseFilter = phase, lj_PageSize = 0, lj_PageToken = []\<rparr> c)
       (\<lambda>resp. if flagOutput = ''json'' then printProto pb flagOutput resp
               else if lr_Jobs resp = [] then ([Say ''0 jobs''], None)
               else (Row [''JOB_ID'', ''NAME'', ''TENANT'', ''PHASE''] # map (jobSummaryLine g) (lr_Jobs resp), None)) d"

text \<open>The stream a watch receives is what the handler sent and the error it ended with, if any.\<close>

definition WatchCmd :: "(float64 \<Rightarrow> string) \<Rightarrow> string option \<Rightarrow> job_proto list \<times> api_error option \<Rightarrow> cli_out list \<times> cli_error option" where
  "WatchCmd g dialed stream =
     (case dialed of
        Some e \<Rightarrow> ([], Some (CliError e))
      | None \<Rightarrow>
          (Row [''JOB_ID'', ''NAME'', ''TENANT'', ''PHASE''] # map (jobSummaryLine g) (fst stream), map_option CliCall (snd stream)))"

text \<open>\<open>%.8s\<close> takes eight bytes of an ASCII id.\<close>

definition watch_row :: "(float64 \<Rightarrow> string) \<Rightarrow> job_proto \<Rightarrow> cli_out" where
  "watch_row g j =
     Row [take 8 (jp_JobId j) @ ellipsis, fmt_v g (lookup (JObj (jp_QuantumJob j)) [''metadata'', ''name'']), jp_Tenant j,
          str_or (jp_Status j) ''phase'', orDash (str_or (jp_Status j) ''boundTarget''), jobDetail (jp_Status j)]"

definition phase_counts :: "job_proto list \<Rightarrow> string \<Rightarrow> nat" where
  "phase_counts js p = length (filter (\<lambda>j. str_or (jp_Status j) ''phase'' = p) js)"

definition watch_frame :: "(float64 \<Rightarrow> string) \<Rightarrow> job_proto list \<Rightarrow> cli_out list" where
  "watch_frame g js =
     Say (''rabi fleet '' @ [CHR 0xE2, CHR 0x80, CHR 0x94] @ '' '' @ phaseSummary (phase_counts js)) #
     Row [''JOB_ID'', ''NAME'', ''TENANT'', ''PHASE'', ''TARGET'', ''DETAIL''] # map (watch_row g) js"

text \<open>One frame per database until the context ends, which the list does, or a call fails.\<close>

fun watchAll :: "(float64 \<Rightarrow> string) \<Rightarrow> ctx \<Rightarrow> string \<Rightarrow> db list \<Rightarrow> cli_out list list \<times> cli_error option" where
  "watchAll g c tenant [] = ([], None)"
| "watchAll g c tenant (d # ds) =
     (case snd (api_ListJobs \<lparr>lj_Tenant = tenant, lj_PhaseFilter = [], lj_PageSize = 500, lj_PageToken = []\<rparr> c d) of
        Inl e \<Rightarrow> ([], Some (CliCall e))
      | Inr resp \<Rightarrow> (let (fs, e) = watchAll g c tenant ds in (watch_frame g (lr_Jobs resp) # fs, e)))"

definition CancelCmd :: "(float64 \<Rightarrow> string) \<Rightarrow> string option \<Rightarrow> time \<Rightarrow> ctx \<Rightarrow> string \<Rightarrow> db \<Rightarrow> cli_result" where
  "CancelCmd g dialed now c jobID d =
     with_call dialed (CancelJob now jobID c) (\<lambda>j. ([Row [jp_JobId j, fmt_field g (jp_Status j) ''phase'']], None)) d"

section \<open>Targets and usage\<close>

text \<open>A target of the API: its name, capabilities and state.\<close>

definition TargetsCmd ::
  "(float64 \<Rightarrow> string) \<Rightarrow> (bool \<Rightarrow> (string \<times> obj \<times> obj) list \<Rightarrow> string + string) \<Rightarrow> string \<Rightarrow> string option \<Rightarrow>
   api_error + (string \<times> obj \<times> obj) list \<Rightarrow> cli_out list \<times> cli_error option" where
  "TargetsCmd g pb flagOutput dialed listed =
     (case dialed of
        Some e \<Rightarrow> ([], Some (CliError e))
      | None \<Rightarrow>
          (case listed of
             Inl e \<Rightarrow> ([], Some (CliCall e))
           | Inr ts \<Rightarrow>
               if flagOutput = ''json'' then printProto pb flagOutput ts
               else if ts = [] then ([Say ''0 targets''], None)
               else (Row [''NAME'', ''MODALITY'', ''QUBITS'', ''STATUS''] #
                     map (\<lambda>(name, caps, state). Row [name, fmt_v g (lookup (JObj caps) [''target'', ''modality'']),
                       fmt_v g (lookup (JObj caps) [''numQubits'']), fmt_v g (lookup (JObj state) [''status''])]) ts, None)))"

definition UsageCmd ::
  "(float64 \<Rightarrow> string) \<Rightarrow> (bool \<Rightarrow> usage_total list \<Rightarrow> string + string) \<Rightarrow> string \<Rightarrow> string option \<Rightarrow> ctx \<Rightarrow> string \<Rightarrow> db \<Rightarrow> cli_result" where
  "UsageCmd g pb flagOutput dialed c tenant d =
     with_call dialed (GetTenantUsage tenant None None c)
       (\<lambda>us. if flagOutput = ''json'' then printProto pb flagOutput us
             else if us = [] then ([Say ''no usage recorded''], None)
             else (Row [''TARGET'', ''UNIT'', ''AMOUNT''] # map (\<lambda>u. Row [ut_Target u, ut_Unit u, g (ut_Amount u)]) us, None)) d"

text \<open>\<open>usage export\<close>: the policy file, then the ledger, then the CSV text.\<close>

definition ledger_entry :: "ledger_entry_proto \<Rightarrow> ledger_row" where
  "ledger_entry e = \<lparr>lg_ID = le_Id e, lg_JobID = le_JobId e, lg_TaskID = le_TaskId e, lg_Tenant = le_Tenant e, lg_Target = le_Target e,
     lg_Unit = le_Unit e, lg_Amount = le_Amount e, lg_RecordedAt = zero_time\<rparr>"

definition UsageExportCmd ::
  "(float64 \<Rightarrow> string) \<Rightarrow> string + string \<Rightarrow> (string \<Rightarrow> string + Policy) \<Rightarrow> string option \<Rightarrow> ctx \<Rightarrow> string \<Rightarrow> db \<Rightarrow> cli_result" where
  "UsageExportCmd fmt raw decode dialed c project d =
     (case raw of
        Inl e \<Rightarrow> (d, [], Some (CliError e))
      | Inr bytes \<Rightarrow>
          (case ParsePolicy (decode bytes) of
             Inl e \<Rightarrow> (d, [], Some (CliError e))
           | Inr policy \<Rightarrow>
               with_call dialed (ExportLedger project c)
                 (\<lambda>es. ([Say (WriteCSV fmt (Normalize (map ledger_entry es) policy))], None)) d))"

section \<open>Projects and quotas\<close>

text \<open>\<open>AsTime\<close> of a missing timestamp is the epoch.\<close>

definition date_only :: "time option \<Rightarrow> string" where
  "date_only t = take 10 (fmt_RFC3339 (case t of Some x \<Rightarrow> x | None \<Rightarrow> 0))"

definition date_time :: "time \<Rightarrow> string" where
  "date_time t = take 10 (fmt_RFC3339 t) @ '' '' @ take 8 (drop 11 (fmt_RFC3339 t))"

definition ProjectCreateCmd ::
  "(bool \<Rightarrow> project_proto \<Rightarrow> string + string) \<Rightarrow> string \<Rightarrow> string option \<Rightarrow> time \<Rightarrow> ctx \<Rightarrow> string \<Rightarrow> int \<Rightarrow> db \<Rightarrow> cli_result" where
  "ProjectCreateCmd pb flagOutput dialed now c tenant weight d =
     with_call dialed (CreateProject now tenant weight c)
       (\<lambda>p. if flagOutput = ''json'' then printProto pb flagOutput p
            else ([Say (''project '' @ pp_Tenant p @ '' (org '' @ pp_Org p @ '', name '' @ pp_Name p @ '', weight '' @ itoa_int (pp_Weight p) @ '')'')], None)) d"

definition project_row :: "project_proto \<Rightarrow> cli_out" where
  "project_row p = Row [pp_Tenant p, pp_Org p, pp_Name p, itoa_int (pp_Weight p), date_only (pp_CreatedAt p),
     (if pp_ArchivedAt p \<noteq> None then ''archived '' @ date_only (pp_ArchivedAt p) else ''active'')]"

definition ProjectListCmd ::
  "(bool \<Rightarrow> project_proto list \<Rightarrow> string + string) \<Rightarrow> string \<Rightarrow> string option \<Rightarrow> ctx \<Rightarrow> bool \<Rightarrow> db \<Rightarrow> cli_result" where
  "ProjectListCmd pb flagOutput dialed c includeArchived d =
     with_call dialed (api_ListProjects includeArchived c)
       (\<lambda>ps. if flagOutput = ''json'' then printProto pb flagOutput ps
             else (Row [''TENANT'', ''ORG'', ''PROJECT'', ''WEIGHT'', ''CREATED'', ''STATUS''] # map project_row ps, None)) d"

definition ProjectArchiveCmd :: "string option \<Rightarrow> time \<Rightarrow> ctx \<Rightarrow> string \<Rightarrow> db \<Rightarrow> cli_result" where
  "ProjectArchiveCmd dialed now c tenant d =
     with_call dialed (api_ArchiveProject now tenant c)
       (\<lambda>found. if \<not> found then ([], Some (CliError (''project '' @ quote tenant @ '' not found'')))
                else ([Say (''project '' @ tenant @ '' archived'')], None)) d"

text \<open>\<open>scan_g\<close> is \<open>Sscanf\<close> with \<open>%g\<close>, which reads a prefix of its text.\<close>

definition quota_limit :: "(string \<Rightarrow> float64 option) \<Rightarrow> bool \<Rightarrow> string list \<Rightarrow> string + float64" where
  "quota_limit scan_g remove args =
     (if remove then Inr (- 1)
      else if length args \<noteq> 3 then Inl ''limit required unless --remove''
      else (case scan_g (args ! 2) of
              None \<Rightarrow> Inl ''limit must be a non-negative number''
            | Some x \<Rightarrow> if x < 0 then Inl ''limit must be a non-negative number'' else Inr x))"

definition QuotaSetCmd ::
  "(float64 \<Rightarrow> string) \<Rightarrow> (string \<Rightarrow> float64 option) \<Rightarrow> string option \<Rightarrow> ctx \<Rightarrow> bool \<Rightarrow> string list \<Rightarrow> db \<Rightarrow> cli_result" where
  "QuotaSetCmd g scan_g dialed c remove args d =
     (if length args < 2 \<or> 3 < length args
      then (d, [], Some (CliError (''accepts between 2 and 3 arg(s), received '' @ itoa (length args))))
      else
        (case quota_limit scan_g remove args of
           Inl e \<Rightarrow> (d, [], Some (CliError e))
         | Inr limit \<Rightarrow>
             with_call dialed (api_SetQuota (args ! 0) (args ! 1) limit c)
               (\<lambda>_. ([Say (if remove then ''quota '' @ args ! 0 @ ''/'' @ args ! 1 @ '' removed''
                           else ''quota '' @ args ! 0 @ ''/'' @ args ! 1 @ '' = '' @ g limit)], None)) d))"

definition QuotaListCmd ::
  "(float64 \<Rightarrow> string) \<Rightarrow> (bool \<Rightarrow> quota_record list \<Rightarrow> string + string) \<Rightarrow> string \<Rightarrow> string option \<Rightarrow> ctx \<Rightarrow> string \<Rightarrow> db \<Rightarrow> cli_result" where
  "QuotaListCmd g pb flagOutput dialed c tenant d =
     with_call dialed (api_ListQuotas tenant c)
       (\<lambda>qs. if flagOutput = ''json'' then printProto pb flagOutput qs
             else (Row [''TENANT'', ''UNIT'', ''LIMIT''] # map (\<lambda>q. Row [qt_Tenant q, qt_Unit q, g (qt_Limit q)]) qs, None)) d"

section \<open>Tokens\<close>

definition WhoAmICmd :: "(bool \<Rightarrow> whoami \<Rightarrow> string + string) \<Rightarrow> string \<Rightarrow> string option \<Rightarrow> ctx \<Rightarrow> db \<Rightarrow> cli_result" where
  "WhoAmICmd pb flagOutput dialed c d =
     with_call dialed (WhoAmI c)
       (\<lambda>w. if flagOutput = ''json'' then printProto pb flagOutput w
            else (map Row [[''subject:'', wa_Subject w], [''name:'', wa_Name w], [''type:'', wa_PrincipalType w], [''role:'', wa_Role w],
                  [''project:'', orDash (wa_Project w)]], None)) d"

definition TokenCreateCmd ::
  "(bool \<Rightarrow> string \<times> token_info \<Rightarrow> string + string) \<Rightarrow> string \<Rightarrow> string option \<Rightarrow> time \<Rightarrow> string + string \<Rightarrow> string + string \<Rightarrow> ctx \<Rightarrow>
   string \<Rightarrow> string \<Rightarrow> string \<Rightarrow> db \<Rightarrow> cli_result" where
  "TokenCreateCmd pb flagOutput dialed now rnd_id rnd_sec c name project role d =
     with_call dialed (CreateToken now rnd_id rnd_sec \<lparr>ct_Name = name, ct_Project = project, ct_Role = role\<rparr> c)
       (\<lambda>(tok, info). if flagOutput = ''json'' then printProto pb flagOutput (tok, info)
            else (map Say [''token: '' @ tok, ''id: '' @ tf_Id info @ ''  project: '' @ tf_Project info @ ''  role: '' @ tf_Role info, [],
                  ''Store the token now '' @ [CHR 0xE2, CHR 0x80, CHR 0x94] @ '' it cannot be shown again.''], None)) d"

definition token_row :: "token_info \<Rightarrow> cli_out" where
  "token_row t = Row [tf_Id t, tf_Name t, tf_Project t, tf_Role t, date_only (tf_CreatedAt t),
     (case tf_LastUsedAt t of Some x \<Rightarrow> date_time x | None \<Rightarrow> ''never''),
     (if tf_RevokedAt t \<noteq> None then ''revoked '' @ date_only (tf_RevokedAt t) else ''active'')]"

definition TokenListCmd ::
  "(bool \<Rightarrow> token_info list \<Rightarrow> string + string) \<Rightarrow> string \<Rightarrow> string option \<Rightarrow> ctx \<Rightarrow> string \<Rightarrow> db \<Rightarrow> cli_result" where
  "TokenListCmd pb flagOutput dialed c project d =
     with_call dialed (api_ListTokens project c)
       (\<lambda>ts. if flagOutput = ''json'' then printProto pb flagOutput ts
             else (Row [''ID'', ''NAME'', ''PROJECT'', ''ROLE'', ''CREATED'', ''LAST USED'', ''STATUS''] # map token_row ts, None)) d"

definition TokenRevokeCmd :: "string option \<Rightarrow> time \<Rightarrow> ctx \<Rightarrow> string \<Rightarrow> db \<Rightarrow> cli_result" where
  "TokenRevokeCmd dialed now c i d =
     with_call dialed (api_RevokeToken now i c)
       (\<lambda>found. if \<not> found then ([], Some (CliError (''token '' @ quote i @ '' not found'')))
                else ([Say (''token '' @ i @ '' revoked'')], None)) d"

end
