(* ===== verification/Cli_Properties.thy ===== *)
theory Cli_Properties
  imports Cli_Commands Api_Properties
begin

text \<open>
  What the commands of the client achieve on the control plane: a quota that was set is in force, an archived
  project takes no more submissions, a watch follows a job to its end, an export is the priced ledger, and
  the live view shows a bounded number of jobs.
\<close>

lemma with_call_ok:
  assumes "with_call dialed call show_resp d = (d', out, None)"
  obtains r where "dialed = None" "call d = (d', Inr r)" "show_resp r = (out, None)"
  using assms by (auto simp: with_call_def Let_def split: option.splits prod.splits sum.splits)

section \<open>Quotas\<close>

text \<open>The limit in force, as the quota check reads it.\<close>

definition quota_of :: "db \<Rightarrow> string \<Rightarrow> string \<Rightarrow> float64 option" where
  "quota_of d tenant u = map_option qt_Limit (tbl_find quota_key (tenant, u) (project_quotas d))"

lemma tbl_find_removed: "tbl_find key k (filter (\<lambda>r. key r \<noteq> k') rows) = (if k = k' then None else tbl_find key k rows)"
  by (induction rows) auto

lemma quota_update_key: "quota_key (q\<lparr>qt_Limit := x\<rparr>) = quota_key q"
  by (simp add: quota_key_def)

lemma SetQuota_in_force:
  assumes "SetQuota tenant u limit d = (d', Inr ())"
  shows "quota_of d' t v = (if (t, v) = (tenant, u) then (if limit < 0 then None else Some limit) else quota_of d t v)"
proof (cases "limit < 0")
  case True
  with assms have "d' = d\<lparr>project_quotas := filter (\<lambda>q. quota_key q \<noteq> (tenant, u)) (project_quotas d)\<rparr>"
    by (simp add: SetQuota_def)
  then show ?thesis using True by (simp add: quota_of_def tbl_find_removed)
next
  case set: False
  show ?thesis
  proof (cases "tbl_has quota_key (tenant, u) (project_quotas d)")
    case True
    with set assms have "d' = d\<lparr>project_quotas := tbl_update quota_key (tenant, u) (\<lambda>q. q\<lparr>qt_Limit := limit\<rparr>) (project_quotas d)\<rparr>"
      by (simp add: SetQuota_def)
    moreover obtain q where "tbl_find quota_key (tenant, u) (project_quotas d) = Some q"
      using True tbl_find_None [of quota_key "(tenant, u)"] by auto
    ultimately show ?thesis using set by (auto simp: quota_of_def tbl_find_update quota_update_key)
  next
    case False
    with set assms have "d' = d\<lparr>project_quotas := project_quotas d @ [\<lparr>qt_Tenant = tenant, qt_Unit = u, qt_Limit = limit\<rparr>]\<rparr>"
      by (auto simp: SetQuota_def split: if_splits)
    then show ?thesis using set False tbl_find_None [of quota_key "(tenant, u)" "project_quotas d"]
      by (auto simp: quota_of_def tbl_find_append quota_key_def split: option.splits)
  qed
qed

text \<open>C1: A quota command that reports success has put exactly its limit in force, or none with \<open>--remove\<close>, and left every other
  quota as it was; the limit is the number its third argument starts with and not negative. A command that
  fails changes nothing.\<close>

theorem quota_command_takes_effect:
  assumes "QuotaSetCmd g scan_g dialed c remove args d = (d', out, e)"
  shows "case e of
      Some _ \<Rightarrow> d' = d
    | None \<Rightarrow> \<exists>tenant u rest. args = tenant # u # rest \<and>
        (\<forall>t v. (t, v) \<noteq> (tenant, u) \<longrightarrow> quota_of d' t v = quota_of d t v) \<and>
        (if remove then quota_of d' tenant u = None
         else \<exists>x. 0 \<le> x \<and> rest \<noteq> [] \<and> scan_g (hd rest) = Some x \<and> quota_of d' tenant u = Some x)"
proof (cases e)
  case (Some err)
  then show ?thesis using assms
    by (auto simp: QuotaSetCmd_def with_call_def api_SetQuota_def SetQuota_def Let_def
        split: if_splits sum.splits option.splits prod.splits)
next
  case None
  then obtain limit where n: "2 \<le> length args" "length args \<le> 3" and l: "quota_limit scan_g remove args = Inr limit"
    and call: "with_call dialed (api_SetQuota (args ! 0) (args ! 1) limit c)
       (\<lambda>_. ([Say (if remove then ''quota '' @ args ! 0 @ ''/'' @ args ! 1 @ '' removed''
                   else ''quota '' @ args ! 0 @ ''/'' @ args ! 1 @ '' = '' @ g limit)], None)) d = (d', out, None)"
    using assms by (auto simp: QuotaSetCmd_def not_less split: if_splits sum.splits)
  obtain tenant u rest where args: "args = tenant # u # rest"
    using n(1) by (cases args; cases "tl args") auto
  have "SetQuota tenant u limit d = (d', Inr ())"
    using call args by (auto elim!: with_call_ok simp: api_SetQuota_def split: if_splits sum.splits prod.splits)
  note q = SetQuota_in_force [OF this]
  have "if remove then limit < 0 else 0 \<le> limit \<and> rest \<noteq> [] \<and> scan_g (hd rest) = Some limit"
    using l args by (cases rest) (auto simp: quota_limit_def split: if_splits option.splits)
  then show ?thesis using None args q by (auto split: if_splits)
qed

definition demo_project_db :: db where
  "demo_project_db = empty_db\<lparr>projects := [\<lparr>pj_Tenant = ''acme/lab'', pj_Org = ''acme'', pj_Name = ''lab'', pj_Weight = 1,
     pj_CreatedAt = 5, pj_ArchivedAt = None\<rparr>]\<rparr>"

theorem quota_command_takes_effect_witness:
  "\<exists>d' out. QuotaSetCmd (\<lambda>_. ''250'') (\<lambda>s. if s = ''250'' then Some 250 else None) None None False [''acme/lab'', ''shots'', ''250''] demo_project_db =
     (d', out, None) \<and> quota_of d' ''acme/lab'' ''shots'' = Some 250"
proof -
  let ?run = "QuotaSetCmd (\<lambda>_. ''250'') (\<lambda>s. if s = ''250'' then Some 250 else None) None None False [''acme/lab'', ''shots'', ''250''] demo_project_db"
  obtain d' out where r: "?run = (d', out, None)"
    by (simp add: QuotaSetCmd_def quota_limit_def with_call_def api_SetQuota_def GetProject_def SetQuota_def demo_project_db_def
        empty_db_def tbl_has_def)
  from quota_command_takes_effect [OF r] r show ?thesis by auto
qed

section \<open>Projects\<close>

lemma EnsureProject_archived:
  assumes "tbl_find pj_Tenant tenant (projects d) = Some p" and "EnsureProject now tenant d = (d', r)" and "tenant \<noteq> []"
  shows "r = Inr p" and "d' = d"
  using assms tbl_find_None [of pj_Tenant tenant "projects d"] by (auto simp: EnsureProject_def GetProject_def case_prod_unfold Let_def)

lemma ArchiveProject_archives:
  assumes "ArchiveProject now tenant d = (d', True)"
  obtains p where "tbl_find pj_Tenant tenant (projects d') = Some p" "pj_ArchivedAt p \<noteq> None"
proof -
  have "tbl_has pj_Tenant tenant (projects d)" using assms by (simp add: ArchiveProject_def)
  then obtain q where "tbl_find pj_Tenant tenant (projects d) = Some q" using tbl_find_None [of pj_Tenant tenant] by auto
  with assms that show ?thesis
    by (auto simp: ArchiveProject_def tbl_find_update coalesce_def split: option.splits)
qed

text \<open>Once the archive command has succeeded, no submission to that project that is not a dry run is accepted: whoever submits whatever
  document gets an error, and no job is added.\<close>

theorem archived_project_takes_no_submissions:
  assumes "ProjectArchiveCmd dialed now c tenant d = (d1, out, None)"
    and "SubmitJob schema fleet t1 t2 t3 uuid req c' d1 = (d2, r)" and "\<not> sj_DryRun req"
    and "\<And>adm. Admit schema t1 (sj_QuantumJob req) (sj_Tenant req) fleet = Inr adm \<Longrightarrow> am_Tenant adm = tenant"
  shows "isl r \<and> d2 = d1"
proof -
  have ok: "ArchiveProject now tenant d = (d1, True)" "tenant \<noteq> []"
    using assms(1) unfolding ProjectArchiveCmd_def
    by (auto elim!: with_call_ok simp: api_ArchiveProject_def Let_def split: if_splits prod.splits)
  then obtain p where p: "tbl_find pj_Tenant tenant (projects d1) = Some p" "pj_ArchivedAt p \<noteq> None"
    using ArchiveProject_archives by metis
  have "EnsureProject t2 tenant d1 = (d1, Inr p)"
    using EnsureProject_archived [OF p(1) _ ok(2)] by (metis prod.collapse)
  then have "\<exists>e. submit_new t2 t3 tenant rec costs d1 = (d1, Inl e)" for rec costs
    using p(2) by (auto simp: submit_new_def)
  with assms(2-4) show ?thesis
    by (auto simp: SubmitJob_def Let_def split: if_splits sum.splits option.splits) (metis Pair_inject isl_def)+
qed

theorem archived_project_takes_no_submissions_witness:
  "\<exists>d1 out e. ProjectArchiveCmd None 7 (Some demo_admin) ''acme/lab'' demo_project_db = (d1, out, None) \<and>
     SubmitJob (\<lambda>_. True) demo_formats 8 8 8 ''j1'' (demo_request False) (Some demo_admin) d1 = (d1, Inl e)"
proof -
  obtain d1 out where a: "ProjectArchiveCmd None 7 (Some demo_admin) ''acme/lab'' demo_project_db = (d1, out, None)"
    by (simp add: ProjectArchiveCmd_def with_call_def api_ArchiveProject_def ArchiveProject_def demo_project_db_def tbl_has_def)
  obtain d2 r where s: "SubmitJob (\<lambda>_. True) demo_formats 8 8 8 ''j1'' (demo_request False) (Some demo_admin) d1 = (d2, r)" by force
  have "(case Admit (\<lambda>_. True) 8 (sj_QuantumJob (demo_request False)) (sj_Tenant (demo_request False)) demo_formats of
      Inr adm \<Rightarrow> am_Tenant adm = ''acme/lab'' | Inl _ \<Rightarrow> True)" by code_simp
  then have "isl r \<and> d2 = d1"
    by (intro archived_project_takes_no_submissions [OF a s]) (simp_all add: demo_request_def)
  with a s show ?thesis by (auto simp: isl_def)
qed

section \<open>Exports\<close>

lemma cost_of_entry: "cost_of p (ledger_entry (ledger_proto e)) = cost_of p e"
  by (simp add: cost_of_def ledger_entry_def ledger_proto_def Let_def)

text \<open>What an export prints is the canonical CSV of the stored ledger of the project the caller may see, priced under the policy
  file; an export of a token scoped to a project never prints another project's rows, and the database is only read.\<close>

theorem export_is_the_priced_ledger:
  assumes "UsageExportCmd fmt raw decode dialed c project d = (d', out, None)"
  shows "d' = d \<and> (\<exists>bytes policy t. raw = Inr bytes \<and> ParsePolicy (decode bytes) = Inr policy \<and> export_tenant c project = Inr t \<and>
    out = [Say (WriteCSV fmt (Normalize (LedgerEntries d t) policy))])"
proof -
  obtain bytes policy where rp: "raw = Inr bytes" "ParsePolicy (decode bytes) = Inr policy" and
    w: "with_call dialed (ExportLedger project c) (\<lambda>es. ([Say (WriteCSV fmt (Normalize (map ledger_entry es) policy))], None)) d = (d', out, None)"
    using assms by (auto simp: UsageExportCmd_def split: sum.splits)
  have "Normalize (map ledger_entry (map ledger_proto es)) policy = Normalize es policy" for es
    by (simp add: Normalize_def comp_def cost_of_entry)
  with w rp show ?thesis by (auto elim!: with_call_ok simp: ExportLedger_def split: sum.splits)
qed

section \<open>Watching\<close>

text \<open>The command that watches a job prints one line per event of the job in order, up to and including the first
  terminal one, and exits cleanly exactly when there is one.\<close>

theorem watch_command_follows_the_job:
  assumes "reachable d" and "store_run d d1" and "chain d1 ds" and "loadJob jobID c d = Inr rec"
  shows "fst (WatchCmd g None (WatchJob jobID d1 ds c d)) = Row [''JOB_ID'', ''NAME'', ''TENANT'', ''PHASE''] #
      map (\<lambda>ev. jobSummaryLine g (event_view rec ev)) (upto_terminal (events_of (last (d1 # ds)) jobID)) \<and>
    (snd (WatchCmd g None (WatchJob jobID d1 ds c d)) = None \<longleftrightarrow> (\<exists>ev \<in> set (events_of (last (d1 # ds)) jobID). Terminal (ev_Phase ev)))"
  using WatchJob_all [OF assms] by (simp add: WatchCmd_def some_terminal_def comp_def)

text \<open>The live view, which is announced as a view of every job, has a row for at most the five hundred newest jobs.\<close>

theorem live_view_shows_the_newest_500:
  assumes "effectiveTenant c tenant = Inr t"
  shows "watchAll g c tenant ds = (map (\<lambda>d. watch_frame g (map jobToProto (ListJobs d t [] 500 0))) ds, None)"
  using assms by (induction ds) (simp_all add: api_ListJobs_def page_offset_def page_size_def defaultPageSize_def maxPageSize_def Let_def)

text \<open>A detail is cut to at most two bytes more than the width it is given.\<close>

lemma truncate_length: "0 < n \<Longrightarrow> length (truncate s n) \<le> n + 2 \<and> (n < length s \<longrightarrow> length (truncate s n) = n + 2)"
  by (auto simp: truncate_def ellipsis_def min_def)

end
