(* ===== verification/Sha256_Vector.thy ===== *)
theory Sha256_Vector
  imports Sha256
begin

text \<open>The one-block test vector of FIPS 180-4, evaluated by the kernel.\<close>

lemma Sum256_abc:
  "EncodeToString (Sum256 ''abc'') = ''ba7816bf8f01cfea414140de5dae2223b00361a396177a9cb410ff61f20015ad''"
  by code_simp

end
