(* ===== verification/Spec2Isabelle.thy ===== *)
theory Spec2Isabelle
  imports Store_Properties Scheduler_Properties Policy_Properties Dispatch_Properties Execution_Properties
    Api_Properties Ops_Properties Operator_Properties Bench_Properties Drivers_Properties Drivers_Conformance Daemon_Properties Control_Plane Store_Open
    Cli_Login_Properties Cli_Properties Sha256_Vector
begin

text \<open>
  Verification of the Rabi quantum control plane, the Go sources under \<open>src/internal\<close>, \<open>src/operator\<close>,
  \<open>src/conformance\<close>, \<open>src/bench\<close> and \<open>src/cmd\<close>. Paths below are relative to \<open>src/internal\<close> unless they name these.

  \<^bold>\<open>The program.\<close> Clients submit QuantumJob documents to a gRPC API. A job passes authentication,
  authorization, admission and quota, and becomes a \<open>PENDING\<close> row of a PostgreSQL database. A
  dispatcher claims pending jobs in batches, orders them by weighted fair share, and for each one runs
  a scheduling policy over the registry's view of the fleet: filter, score, select. A chosen job is
  bound to a target in one transaction and handed to an executor, which submits it to the adapter of
  the target's site, follows the task and mirrors its states onto the job, records usage and finishes
  the job. The daemon assembles these parts from its environment; a command line client calls the API. Around
  this core are sessions, the conflict policy for quality floors and deadlines, shadow
  policies, probes, reconciliation, leader election, the chaos invariants and reporting.

  \<^bold>\<open>The model.\<close> The database is one record of tables (\<open>Store_Schema\<close>); a store method is a function
  from the database to the database and a result or an error (\<open>'a tx\<close>), with the time of the
  transaction as an argument, since each method is one transaction or one statement. Row order is
  insertion order. A component that keeps state of its own has a record for it. Code outside the
  repository is an argument: adapters (records of the functions that are called), the JSON schema, the
  OIDC verifier, random bytes, YAML and CSV decoding, the random generator of the bootstrap, error texts
  of libraries. \<open>float64\<close> is modelled by the reals, 64-bit counters by words, durations and times by
  integers in nanoseconds, JSON maps by association lists. Go's string and number formatting and parsing
  are defined where the code uses them. Index panics are values (\<open>None\<close> or an error constructor).

  \<^bold>\<open>Theories, in dependency order.\<close>

  \<^item> \<open>Rabi_Prelude\<close>: shared types, tables as lists with keys, string functions, and the locale
    \<open>inv_system\<close> of a step relation with an invariant; \<open>Json_Doc\<close>: JSON documents; \<open>Go_Fmt\<close>,
    \<open>Go_Parse\<close>, \<open>Go_Strings\<close>: \<open>fmt\<close>, \<open>strconv\<close>, \<open>strings\<close>, \<open>time\<close> and \<open>base64\<close> as far as they are used; \<open>Sha256\<close>: SHA-256
    on 32-bit words, checked against a published vector in \<open>Sha256_Vector\<close>.
  \<^item> \<open>Lifecycle\<close> (\<open>job/phase.go\<close>): phases, transitions, legal histories and their milestones.
  \<^item> \<open>Store_Schema\<close>, \<open>Store_Jobs\<close>, \<open>Store_Tasks\<close>, \<open>Store_Tenancy\<close>, \<open>Store_Records\<close> (\<open>store/*.go\<close>):
    every operation on jobs, events, tasks, usage, sessions, projects, quotas, tokens, the audit log,
    reconciliation, shadow placements and game days. \<open>Store_Invariants\<close>: the step relation of all store
    transactions, reachable databases, and the invariant they keep. \<open>Chaos\<close> (\<open>chaos/invariants.go\<close>).
    \<open>Store_Properties\<close>: the invariants of the chaos suite on every reachable database, at most one
    task per job, milestones, finality, append-only logs, billing once.
  \<^item> \<open>Qasm\<close>, \<open>Views\<close>, \<open>Esp\<close>, \<open>Filter_Targets\<close>, \<open>Pareto\<close>, \<open>Policies\<close>, \<open>Scheduling\<close> (\<open>scheduler/*.go\<close>):
    the QASM profiler, job and target views, the success estimate, the filter, the six policies and the
    decision. The locales of \<open>Policies\<close> state what a policy promises; every policy interprets them.
    \<open>Scheduler_Properties\<close> and \<open>Policy_Properties\<close>: soundness and completeness of placements,
    determinism, the filter against its declarative specification, dominance layers against the fast
    sort, bounds of the estimate, relaxed floors.
  \<^item> \<open>Fairshare\<close>, \<open>Cycle_Ring\<close>, \<open>Executor\<close>, \<open>Registry\<close>, \<open>Dispatcher\<close> (\<open>dispatch/*.go\<close>,
    \<open>registry/registry.go\<close>): the order of a batch, the latency ring, executing and following a task, the
    fleet, and one dispatch cycle. The rotation counter of a policy is kept per policy name, as \<open>Lookup\<close> hands out one
    instance per process, and is shared by the active and the shadow policies. Every one is shown to be a run of store transactions, so the
    invariants of reachable databases carry over. \<open>Dispatch_Properties\<close>, \<open>Execution_Properties\<close>: cycles
    are total, bound jobs are bound, fairness, sessions, executors finish their jobs, restarts lose
    nothing, bills match what users see, percentiles are order statistics.
  \<^item> \<open>Admission\<close> (\<open>job/validate.go\<close>), \<open>Auth_Core\<close> (\<open>auth/*.go\<close>), \<open>Api_Auth\<close>, \<open>Api_Jobs\<close>, \<open>Api_Admin\<close>
    (\<open>api/*.go\<close>): admission, roles, tokens, the interceptors and every handler. The locale \<open>rpc_gate\<close> is
    the contract of the authorization check, interpreted on \<open>check\<close>. \<open>Api_Properties\<close>: calls fail closed,
    submission respects scope and quota, the job, usage and ledger calls keep scoped callers in their project, tokens,
    cancellation, complete paging and watching. \<open>CancelJob\<close> is the effect of a cancellation on the database and
    \<open>CancelJob_rpc\<close> the whole handler with the call of the adapter; a job id PostgreSQL cannot read as a UUID
    (\<open>is_uuid\<close>, the canonical spelling) is an internal error.
  \<^item> \<open>Accounting\<close>, \<open>Leader\<close>, \<open>Probe\<close>, \<open>Status_Page\<close>, \<open>Bench_Gate\<close>, \<open>Shadow_Report\<close>, \<open>Latencies\<close>
    (\<open>accounting\<close>, \<open>ha\<close>, \<open>probe\<close>, \<open>status\<close>, \<open>benchgate\<close>, \<open>shadow\<close>, \<open>loadtest/stats.go\<close>): the parts around
    the core. \<open>Ops_Properties\<close>: the fleet is well formed, admission decides its specification, programs reach the adapter unchanged,
    at most one live leader, promotion, probes, reproducible cost export, the benchmark gate.
  \<^item> \<open>Operator\<close>, \<open>Operator_Properties\<close> (\<open>operator/controller\<close>): the reconciler of QuantumJob resources, with
    the Kubernetes API and the control plane's client as arguments; a resource is submitted once and its
    finalizer is released only when the job is not running.
  \<^item> \<open>Bench_Runner\<close>, \<open>Bench_Properties\<close> (\<open>bench/runner/main.go\<close>): the trace-driven simulation that compares
    policies; every job gets exactly one result.
  \<^item> \<open>Fake_Adapter\<close>, \<open>Fake_Properties\<close> (\<open>adaptertest/fake.go\<close>): the in-memory adapter with its goroutines as a
    step relation; idempotent submission, tasks that only move forward, bounded retention.
  \<^item> \<open>Conformance\<close>, \<open>Conformance_Properties\<close>, \<open>Conformance_Contract\<close>, \<open>Conformance_Fake\<close> (\<open>conformance/*.go\<close>):
    the adapter conformance suite over an abstract client. The locales \<open>clocked_client\<close> and \<open>contract_client\<close>
    state the adapter contract and give the verdict of every category; they are interpreted on the fake,
    for a client whose calls take no time.
  \<^item> \<open>Load_Stack\<close>, \<open>Load_Fleet\<close>, \<open>Load_Storm\<close>, \<open>Load_Storm_Properties\<close>, \<open>Load_Soak\<close>, \<open>Load_Soak_Properties\<close>
    (\<open>loadtest/*.go\<close>): the load harness with its worker pools as step relations, which the locale \<open>stopping_system\<close>
    shows to stop; what a storm or a soak without violations has measured.
  \<^item> \<open>Drivers_Ops\<close>, \<open>Drivers_Properties\<close>, \<open>Drivers_Conformance\<close> (\<open>cmd/rabi-chaos\<close>, \<open>rabi-shadow\<close>, \<open>rabi-bench-gate\<close>,
    \<open>rabi-load\<close>, \<open>rabi-conformance\<close>): the commands of the operational checks; a sweep adds only its own record
    to what opening the store does, exit codes are the
    verdicts, a published certificate verifies.
  \<^item> \<open>Api_Server\<close> (\<open>api/server.go\<close>, \<open>metrics.go\<close>, \<open>status_handler.go\<close>): the gRPC server with its interceptors and registered services,
    routes and the open pages, which are blind to tenants; they read the database together with its table of probe results
    (\<open>probed_db\<close>). \<open>Store_Open\<close> (\<open>store/store.go\<close>, \<open>redact.go\<close>): opening with and without migrations; a pool is its
    connection hook and a session its role, so that the rights of every session a pool hands out follow from the hook;
    and the masking of passwords. \<open>Daemon\<close>, \<open>Daemon_Properties\<close> (\<open>cmd/rabid\<close>): the configuration from the environment; a
    daemon serves only when it is completely configured. \<open>Control_Plane\<close>: the running daemon as a step relation of
    all its goroutines and callers, which the locale \<open>weak_simulation\<close> relates to the store transactions; the
    invariants of reachable databases hold while it runs.
  \<^item> \<open>Cli_Login\<close>, \<open>Cli_Login_Properties\<close>, \<open>Cli_Commands\<close>, \<open>Cli_Properties\<close> (\<open>cmd/rabi\<close>): the OIDC login, the credential a
    command presents, and the commands over the handlers of the API; only verified tokens are stored and
    presented while fresh, a quota that was set is in force, an archived project takes no submissions.

  \<^bold>\<open>Bounds and fuel.\<close> Every function is total by structural recursion or a measure, apart from loops that
  depend on the outside. \<open>follow\<close> runs over the list of statuses the watch streams deliver and the API's
  \<open>watch_loop\<close> over the databases its polls see, and liveness is stated for lists that hold a final status.
  The waiting loops of the conformance suite are \<open>partial_function (option)\<close> and are proved to return when
  the client's clock advances. The goroutines of the fake settle by a measure, the event loop of the benchmark
  runner is measured by the tries that are left. Polling loops with a deadline are measured by the time that is
  left, the soak runs over its list of ticks, and the worker pools of the load harness stop by a measure. \<open>list_pages\<close> takes the number of calls a client
  makes; one more than the number of jobs is shown to be enough.

  \<^bold>\<open>Not modelled.\<close> Connection failures of the database while serving: a method that could not run has no effect on
  the database, but the code then only logs the error and goes on, so an executor whose database is gone may leave its job active until
  the next restart resumes it, which the theorem on executors excludes by assumption. Logging, the parsing of flags, the gRPC gateway and generated protobuf code, HTML and embedded assets, the statements of the
  PostgreSQL migrations (their constraints are part of the store operations, their grants of \<open>Store_Open\<close>), the wiring of the Kubernetes manager and the main function of the benchmark runner. The theorems on what one executor achieves run it against the database alone; its
  interleaving with other executors and API calls is covered by \<open>Control_Plane\<close> and the theorems on arbitrary runs of store
  transactions. The statements
  of one executor or one dispatch carry one database time. Rounding of floating-point arithmetic is outside the
  model.
\<close>

end
